(* ===== verification/Rust_Prelude.thy ===== *)
theory Rust_Prelude
  imports Main
    "HOL-Library.Word"
    "HOL-Library.Char_ord"
    "HOL-Library.List_Lexorder"
    "HOL-Library.Product_Lexorder"
    "HOL-Library.AList"
    "HOL-Library.Monad_Syntax"
begin

text \<open>
  The prelude of the development: what every component uses of the Rust standard library.

  \<^item> Machine integers: \<open>u8\<close> .. \<open>u64\<close> are words of that width.
  \<^item> \<open>str\<close> and \<open>String\<close> are \<open>string\<close>, one \<open>char\<close> per byte of the UTF-8 encoding, so
    \<open>length\<close> is Rust's \<open>len()\<close> and a byte scan is a scan of the list. The operations that Rust
    defines by code point (\<open>trim\<close>, \<open>split_whitespace\<close>) recognise the encodings of the
    Unicode white-space characters.
  \<^item> \<open>Result\<close> is a sum with the error on the left, \<open>Option\<close> is \<open>option\<close>.
  \<^item> Number parsing and printing (\<open>u64::from_str\<close>, \<open>to_string\<close>) on words of any width.

  The collections \<open>str_simps\<close> and \<open>res_simps\<close> hold the facts the component proofs share.
\<close>

section \<open>Types and collections\<close>

type_synonym u8 = "8 word"
type_synonym u16 = "16 word"
type_synonym u32 = "32 word"
type_synonym u64 = "64 word"
type_synonym ('e, 'a) result = "'e + 'a"

named_theorems str_simps \<open>equations of the string operations\<close>
named_theorems res_simps \<open>inversion of result binds\<close>
named_theorems ascii_rules \<open>byte classes\<close>

abbreviation nl :: char where "nl \<equiv> CHR 0x0A"
abbreviation cr :: char where "cr \<equiv> CHR 0x0D"
abbreviation tab :: char where "tab \<equiv> CHR 0x09"
abbreviation sp :: char where "sp \<equiv> CHR '' ''"

section \<open>Results\<close>

definition rbind :: "('e, 'a) result \<Rightarrow> ('a \<Rightarrow> ('e, 'b) result) \<Rightarrow> ('e, 'b) result" where
  "rbind r f = (case r of Inl e \<Rightarrow> Inl e | Inr x \<Rightarrow> f x)"

definition ok_or :: "'a option \<Rightarrow> 'e \<Rightarrow> ('e, 'a) result" where
  "ok_or x e = (case x of None \<Rightarrow> Inl e | Some y \<Rightarrow> Inr y)"

definition guard_res :: "bool \<Rightarrow> 'e \<Rightarrow> ('e, unit) result" where
  "guard_res b e = (if b then Inr () else Inl e)"

lemma rbind_simps [simp]: "rbind (Inl e) f = Inl e" "rbind (Inr x) f = f x"
  by (simp_all add: rbind_def)

lemma ok_or_simps [simp]: "ok_or None e = Inl e" "ok_or (Some y) e = Inr y"
  by (simp_all add: ok_or_def)

lemma rbind_Inr [res_simps]: "rbind r f = Inr y \<longleftrightarrow> (\<exists>x. r = Inr x \<and> f x = Inr y)"
  by (cases r) simp_all

lemma ok_or_Inr [res_simps]: "ok_or x e = Inr y \<longleftrightarrow> x = Some y"
  by (cases x) simp_all

lemma guard_res_Inr [res_simps]: "guard_res b e = Inr u \<longleftrightarrow> b"
  by (simp add: guard_res_def)

lemma guard_res_simps [simp]: "guard_res True e = Inr ()" "guard_res False e = Inl e"
  by (simp_all add: guard_res_def)

section \<open>Byte classes\<close>

definition is_digit :: "char \<Rightarrow> bool" where
  "is_digit c \<longleftrightarrow> CHR ''0'' \<le> c \<and> c \<le> CHR ''9''"

definition is_lower :: "char \<Rightarrow> bool" where
  "is_lower c \<longleftrightarrow> CHR ''a'' \<le> c \<and> c \<le> CHR ''z''"

definition is_upper :: "char \<Rightarrow> bool" where
  "is_upper c \<longleftrightarrow> CHR ''A'' \<le> c \<and> c \<le> CHR ''Z''"

definition is_alnum :: "char \<Rightarrow> bool" where
  "is_alnum c \<longleftrightarrow> is_digit c \<or> is_lower c \<or> is_upper c"

definition is_control :: "char \<Rightarrow> bool" where
  "is_control c \<longleftrightarrow> c < CHR 0x20 \<or> c = CHR 0x7F"

definition is_ascii_ws :: "char \<Rightarrow> bool" where
  "is_ascii_ws c \<longleftrightarrow> c \<in> {sp, tab, nl, cr, CHR 0x0C}"

definition is_graphic :: "char \<Rightarrow> bool" where
  "is_graphic c \<longleftrightarrow> CHR ''!'' \<le> c \<and> c \<le> CHR ''~''"

lemmas byte_class_defs = is_digit_def is_lower_def is_upper_def is_alnum_def is_control_def
  is_ascii_ws_def is_graphic_def

text \<open>A graphic byte starts no white-space character of any kind.\<close>

lemma graphic_not_special [ascii_rules]:
  "is_graphic c \<Longrightarrow> c \<noteq> nl \<and> c \<noteq> cr \<and> c \<noteq> tab \<and> c \<noteq> sp \<and> c < CHR 0x80"
proof -
  assume "is_graphic c"
  then have "CHR ''!'' \<le> c" "c \<le> CHR ''~''"
    by (simp_all only: is_graphic_def)
  moreover have "CHR ''~'' < CHR 0x80" "\<not> CHR ''!'' \<le> nl" "\<not> CHR ''!'' \<le> cr"
    "\<not> CHR ''!'' \<le> tab" "\<not> CHR ''!'' \<le> sp"
    by simp_all
  ultimately show ?thesis
    by (metis order_le_less_trans)
qed

lemma char_le_trans3: "a \<le> c \<Longrightarrow> c \<le> b \<Longrightarrow> a' \<le> a \<Longrightarrow> b \<le> b' \<Longrightarrow> a' \<le> (c::char) \<and> c \<le> b'"
  by (meson order_trans)

lemma digit_graphic [ascii_rules]: "is_digit c \<Longrightarrow> is_graphic c"
  unfolding is_digit_def is_graphic_def by (erule conjE, erule (1) char_le_trans3) simp_all

lemma lower_graphic [ascii_rules]: "is_lower c \<Longrightarrow> is_graphic c"
  unfolding is_lower_def is_graphic_def by (erule conjE, erule (1) char_le_trans3) simp_all

lemma upper_graphic [ascii_rules]: "is_upper c \<Longrightarrow> is_graphic c"
  unfolding is_upper_def is_graphic_def by (erule conjE, erule (1) char_le_trans3) simp_all

lemma alnum_graphic [ascii_rules]: "is_alnum c \<Longrightarrow> is_graphic c"
  unfolding is_alnum_def by (auto dest: digit_graphic lower_graphic upper_graphic)

section \<open>String operations\<close>

fun str_split :: "char \<Rightarrow> string \<Rightarrow> string list" where
  "str_split c [] = [[]]"
| "str_split c (x # xs) =
     (if x = c then [] # str_split c xs
      else (case str_split c xs of [] \<Rightarrow> [[x]] | y # ys \<Rightarrow> (x # y) # ys))"

fun str_join :: "string \<Rightarrow> string list \<Rightarrow> string" where
  "str_join d [] = []"
| "str_join d [x] = x"
| "str_join d (x # y # ys) = x @ d @ str_join d (y # ys)"

fun str_strip_prefix :: "string \<Rightarrow> string \<Rightarrow> string option" where
  "str_strip_prefix [] s = Some s"
| "str_strip_prefix (p # ps) [] = None"
| "str_strip_prefix (p # ps) (x # xs) = (if p = x then str_strip_prefix ps xs else None)"

fun str_split_once :: "char \<Rightarrow> string \<Rightarrow> (string \<times> string) option" where
  "str_split_once c [] = None"
| "str_split_once c (x # xs) =
     (if x = c then Some ([], xs)
      else (case str_split_once c xs of None \<Rightarrow> None | Some (a, b) \<Rightarrow> Some (x # a, b)))"

definition str_starts_with :: "string \<Rightarrow> string \<Rightarrow> bool" where
  "str_starts_with s p \<longleftrightarrow> take (length p) s = p"

definition str_ends_with :: "string \<Rightarrow> string \<Rightarrow> bool" where
  "str_ends_with s p \<longleftrightarrow> length p \<le> length s \<and> drop (length s - length p) s = p"

fun str_find :: "string \<Rightarrow> string \<Rightarrow> nat option" where
  "str_find p [] = (if p = [] then Some 0 else None)"
| "str_find p (x # xs) =
     (if str_starts_with (x # xs) p then Some 0 else map_option Suc (str_find p xs))"

definition str_contains :: "string \<Rightarrow> string \<Rightarrow> bool" where
  "str_contains s p \<longleftrightarrow> str_find p s \<noteq> None"

definition strip_cr :: "string \<Rightarrow> string" where
  "strip_cr l = (if l \<noteq> [] \<and> last l = cr then butlast l else l)"

text \<open>
  \<open>str::lines\<close>: cut at each line feed and drop one carriage return before it; a non-empty tail
  after the last line feed is a line of its own (and keeps its carriage return).
\<close>

definition str_lines :: "string \<Rightarrow> string list" where
  "str_lines s =
     (let ps = str_split nl s
      in map strip_cr (butlast ps) @ (if last ps = [] then [] else [last ps]))"

text \<open>
  The number of bytes of the white-space character a string begins with, 0 if it begins with none:
  the ASCII ones, then the two and three byte encodings of U+0085, U+00A0, U+1680,
  U+2000 .. U+200A, U+2028, U+2029, U+202F, U+205F and U+3000.
\<close>

definition ws1 :: "char \<Rightarrow> bool" where
  "ws1 a \<longleftrightarrow> (CHR 0x09 \<le> a \<and> a \<le> CHR 0x0D) \<or> a = sp"

definition ws2 :: "char \<Rightarrow> char \<Rightarrow> bool" where
  "ws2 a b \<longleftrightarrow> a = CHR 0xC2 \<and> (b = CHR 0x85 \<or> b = CHR 0xA0)"

definition ws3 :: "char \<Rightarrow> char \<Rightarrow> char \<Rightarrow> bool" where
  "ws3 a b c \<longleftrightarrow>
     (a = CHR 0xE1 \<and> b = CHR 0x9A \<and> c = CHR 0x80) \<or>
     (a = CHR 0xE2 \<and> b = CHR 0x80 \<and>
        ((CHR 0x80 \<le> c \<and> c \<le> CHR 0x8A) \<or> c = CHR 0xA8 \<or> c = CHR 0xA9 \<or> c = CHR 0xAF)) \<or>
     (a = CHR 0xE2 \<and> b = CHR 0x81 \<and> c = CHR 0x9F) \<or>
     (a = CHR 0xE3 \<and> b = CHR 0x80 \<and> c = CHR 0x80)"

fun ws_len :: "string \<Rightarrow> nat" where
  "ws_len (a # b # c # r) =
     (if ws1 a then 1 else if ws2 a b then 2 else if ws3 a b c then 3 else 0)"
| "ws_len [a, b] = (if ws1 a then 1 else if ws2 a b then 2 else 0)"
| "ws_len [a] = (if ws1 a then 1 else 0)"
| "ws_len [] = 0"

fun ws_len_rev :: "string \<Rightarrow> nat" where
  "ws_len_rev (c # b # a # r) =
     (if ws1 c then 1 else if ws2 b c then 2 else if ws3 a b c then 3 else 0)"
| "ws_len_rev [b, a] = (if ws1 b then 1 else if ws2 a b then 2 else 0)"
| "ws_len_rev [a] = (if ws1 a then 1 else 0)"
| "ws_len_rev [] = 0"

lemma ws_len_le: "ws_len s \<le> length s"
  by (cases s rule: ws_len.cases) auto

lemma ws_len_rev_le: "ws_len_rev s \<le> length s"
  by (cases s rule: ws_len_rev.cases) auto

lemma ws_len_drop: "ws_len s \<noteq> 0 \<Longrightarrow> length s - ws_len s < length s"
  using ws_len_le [of s] by (cases s) auto

lemma ws_len_rev_drop: "ws_len_rev s \<noteq> 0 \<Longrightarrow> length s - ws_len_rev s < length s"
  using ws_len_rev_le [of s] by (cases s) auto

function str_trim_start :: "string \<Rightarrow> string" where
  "str_trim_start s = (if ws_len s = 0 then s else str_trim_start (drop (ws_len s) s))"
  by pat_completeness auto
termination
  by (relation "measure length") (simp_all add: ws_len_drop)

function trim_rev :: "string \<Rightarrow> string" where
  "trim_rev s = (if ws_len_rev s = 0 then s else trim_rev (drop (ws_len_rev s) s))"
  by pat_completeness auto
termination
  by (relation "measure length") (simp_all add: ws_len_rev_drop)

declare str_trim_start.simps [simp del] trim_rev.simps [simp del]

definition str_trim_end :: "string \<Rightarrow> string" where
  "str_trim_end s = rev (trim_rev (rev s))"

definition str_trim :: "string \<Rightarrow> string" where
  "str_trim s = str_trim_end (str_trim_start s)"

text \<open>\<open>split_whitespace\<close>: maximal runs of bytes that start no white-space character.\<close>

function split_ws_aux :: "string \<Rightarrow> string \<Rightarrow> string list" where
  "split_ws_aux acc s =
     (case s of
        [] \<Rightarrow> (if acc = [] then [] else [rev acc])
      | x # xs \<Rightarrow>
          (if ws_len s = 0 then split_ws_aux (x # acc) xs
           else (if acc = [] then [] else [rev acc]) @ split_ws_aux [] (drop (ws_len s) s)))"
  by pat_completeness auto
termination
  by (relation "measure (\<lambda>(acc, s). length s)") (auto simp: ws_len_drop)

declare split_ws_aux.simps [simp del]

definition str_split_ws :: "string \<Rightarrow> string list" where
  "str_split_ws s = split_ws_aux [] s"

definition trim_end_matches :: "char set \<Rightarrow> string \<Rightarrow> string" where
  "trim_end_matches cs s = rev (dropWhile (\<lambda>c. c \<in> cs) (rev s))"

section \<open>Facts about the string operations\<close>

lemma str_split_ne [simp]: "str_split c s \<noteq> []"
  by (induction s) (auto split: list.splits)

lemma str_split_no [simp]: "c \<notin> set s \<Longrightarrow> str_split c s = [s]"
  by (induction s) auto

lemma str_split_append [simp]:
  "c \<notin> set a \<Longrightarrow> str_split c (a @ c # s) = a # str_split c s"
  by (induction a) auto

lemma str_join_Cons_ne: "ys \<noteq> [] \<Longrightarrow> str_join d (x # ys) = x @ d @ str_join d ys"
  by (cases ys) simp_all

lemma str_join_Cons_head: "str_join d ((x # y) # ys) = x # str_join d (y # ys)"
  by (cases ys) simp_all

lemma str_join_split [simp]: "str_join [c] (str_split c s) = s"
  by (induction s) (auto simp: str_join_Cons_ne str_join_Cons_head split: list.splits)

lemma str_split_join:
  "xs \<noteq> [] \<Longrightarrow> (\<forall>x \<in> set xs. c \<notin> set x) \<Longrightarrow> str_split c (str_join [c] xs) = xs"
proof (induction xs)
  case (Cons x xs)
  then show ?case
    by (cases "xs = []") (simp_all add: str_join_Cons_ne)
qed simp

lemma str_split_elem:
  "x \<in> set (str_split c s) \<Longrightarrow> c \<notin> set x \<and> set x \<subseteq> set s"
proof (induction s arbitrary: x)
  case Nil
  then show ?case by simp
next
  case (Cons a s)
  show ?case
  proof (cases "str_split c s")
    case Nil
    then show ?thesis by simp
  next
    case (Cons y ys)
    then show ?thesis
      using Cons.IH [of y] Cons.IH [of x] Cons.prems by (auto split: if_splits)
  qed
qed

lemma str_strip_prefix_iff [str_simps]: "str_strip_prefix p s = Some r \<longleftrightarrow> s = p @ r"
  by (induction p s rule: str_strip_prefix.induct) auto

lemma str_strip_prefix_append [simp]: "str_strip_prefix p (p @ r) = Some r"
  by (simp add: str_strip_prefix_iff)

lemma str_split_once_Some: "str_split_once c s = Some (a, b) \<Longrightarrow> s = a @ c # b \<and> c \<notin> set a"
  by (induction s arbitrary: a) (auto split: if_splits option.splits)

lemma str_split_once_append [simp]: "c \<notin> set a \<Longrightarrow> str_split_once c (a @ c # b) = Some (a, b)"
  by (induction a) auto

lemma str_split_once_iff [str_simps]:
  "str_split_once c s = Some (a, b) \<longleftrightarrow> s = a @ c # b \<and> c \<notin> set a"
  using str_split_once_Some str_split_once_append by blast

lemma str_starts_with_append [simp]: "str_starts_with (p @ r) p"
  by (simp add: str_starts_with_def)

lemma str_starts_with_iff: "str_starts_with s p \<longleftrightarrow> (\<exists>r. s = p @ r)"
proof
  assume "str_starts_with s p"
  then have "take (length p) s = p"
    by (simp only: str_starts_with_def)
  then have "s = p @ drop (length p) s"
    using append_take_drop_id [of "length p" s] by argo
  then show "\<exists>r. s = p @ r" ..
qed auto

lemma str_ends_with_iff: "str_ends_with s p \<longleftrightarrow> (\<exists>r. s = r @ p)"
proof
  assume "str_ends_with s p"
  then have "drop (length s - length p) s = p"
    by (simp only: str_ends_with_def)
  then have "s = take (length s - length p) s @ p"
    using append_take_drop_id [of "length s - length p" s] by argo
  then show "\<exists>r. s = r @ p" ..
qed (auto simp: str_ends_with_def)

subsection \<open>Lines\<close>

definition clean_line :: "string \<Rightarrow> bool" where
  "clean_line l \<longleftrightarrow> nl \<notin> set l \<and> (l \<noteq> [] \<longrightarrow> last l \<noteq> cr)"

definition unlines :: "string list \<Rightarrow> string" where
  "unlines ls = concat (map (\<lambda>l. l @ [nl]) ls)"

lemma unlines_simps [simp]:
  "unlines [] = []" "unlines (l # ls) = l @ nl # unlines ls"
  by (simp_all add: unlines_def)

lemma unlines_append [simp]: "unlines (xs @ ys) = unlines xs @ unlines ys"
  by (simp add: unlines_def)

lemma strip_cr_clean [simp]: "clean_line l \<Longrightarrow> strip_cr l = l"
  by (cases "l = []") (simp_all add: clean_line_def strip_cr_def)

lemma str_lines_Nil [simp]: "str_lines [] = []"
  by (simp add: str_lines_def)

lemma str_lines_nl: "nl \<notin> set l \<Longrightarrow> str_lines (l @ nl # s) = strip_cr l # str_lines s"
  by (simp add: str_lines_def Let_def)

lemma str_lines_clean [simp]: "clean_line l \<Longrightarrow> str_lines (l @ nl # s) = l # str_lines s"
  using str_lines_nl [of l s] by (simp add: clean_line_def [of l])

lemma str_lines_unlines_append:
  "(\<forall>l \<in> set ls. clean_line l) \<Longrightarrow> str_lines (unlines ls @ s) = ls @ str_lines s"
  by (induction ls) simp_all

lemma str_lines_unlines [simp]: "(\<forall>l \<in> set ls. clean_line l) \<Longrightarrow> str_lines (unlines ls) = ls"
  using str_lines_unlines_append [of ls "[]"] by simp

lemma strip_cr_set: "set (strip_cr l) \<subseteq> set l"
  unfolding strip_cr_def by (auto dest: in_set_butlastD)

lemma str_lines_elem: "l \<in> set (str_lines s) \<Longrightarrow> nl \<notin> set l \<and> set l \<subseteq> set s"
proof -
  assume "l \<in> set (str_lines s)"
  then have "(\<exists>p \<in> set (butlast (str_split nl s)). l = strip_cr p) \<or> l = last (str_split nl s)"
    by (auto simp: str_lines_def Let_def split: if_splits)
  then obtain p where "p \<in> set (str_split nl s)" "set l \<subseteq> set p"
    using strip_cr_set in_set_butlastD by (metis last_in_set str_split_ne subset_refl)
  then show ?thesis using str_split_elem [of p nl s] by auto
qed

lemma clean_lineI [intro]: "nl \<notin> set l \<Longrightarrow> cr \<notin> set l \<Longrightarrow> clean_line l"
  by (auto simp: clean_line_def dest: last_in_set)

lemma clean_line_append: "nl \<notin> set p \<Longrightarrow> clean_line l \<Longrightarrow> l \<noteq> [] \<Longrightarrow> clean_line (p @ l)"
  by (auto simp: clean_line_def)

lemma graphic_clean: "(\<forall>c \<in> set l. is_graphic c) \<Longrightarrow> clean_line l"
  by (rule clean_lineI) (auto dest: graphic_not_special)

subsection \<open>White space\<close>

lemma graphic_ws [simp]:
  assumes "is_graphic c"
  shows "\<not> ws1 c" "\<not> ws2 c b" "\<not> ws2 b c" "\<not> ws3 c a b" "\<not> ws3 a b c"
proof -
  have n: "33 \<le> (of_char c :: nat)" "of_char c \<le> (126 :: nat)"
    using assms by (simp_all add: is_graphic_def less_eq_char_def)
  have high: "c \<noteq> d" if "126 < (of_char d :: nat)" for d
    using n that by auto
  show "\<not> ws1 c"
    using n by (auto simp: ws1_def less_eq_char_def)
  show "\<not> ws2 c b" "\<not> ws2 b c"
    by (simp_all add: ws2_def high)
  have "\<not> CHR 0x80 \<le> c"
    using n by (simp add: less_eq_char_def)
  then show "\<not> ws3 c a b" "\<not> ws3 a b c"
    by (simp_all add: ws3_def high)
qed

lemma ws_len_graphic [simp]: "is_graphic c \<Longrightarrow> ws_len (c # r) = 0"
  by (cases r rule: ws_len.cases; cases "tl r") auto

lemma ws_len_rev_graphic [simp]: "is_graphic c \<Longrightarrow> ws_len_rev (c # r) = 0"
  by (cases r rule: ws_len_rev.cases; cases "tl r") auto

lemma str_trim_start_graphic [simp]: "is_graphic c \<Longrightarrow> str_trim_start (c # r) = c # r"
  by (simp add: str_trim_start.simps)

lemma str_trim_end_graphic [simp]: "is_graphic c \<Longrightarrow> str_trim_end (r @ [c]) = r @ [c]"
  by (simp add: str_trim_end_def trim_rev.simps [of "c # rev r"])

lemma str_trim_Nil [simp]: "str_trim_start [] = []" "str_trim_end [] = []" "str_trim [] = []"
  by (simp_all add: str_trim_def str_trim_start.simps str_trim_end_def trim_rev.simps)

lemma str_trim_graphic: "s \<noteq> [] \<Longrightarrow> is_graphic (hd s) \<Longrightarrow> is_graphic (last s) \<Longrightarrow> str_trim s = s"
proof -
  assume s: "s \<noteq> []" "is_graphic (hd s)" "is_graphic (last s)"
  have "str_trim_start s = s"
    using s by (cases s) auto
  moreover have "str_trim_end s = s"
    using str_trim_end_graphic [of "last s" "butlast s"] s by simp
  ultimately show ?thesis
    by (simp add: str_trim_def)
qed

lemma split_ws_aux_graphic:
  "(\<forall>c \<in> set t. is_graphic c) \<Longrightarrow> split_ws_aux acc (t @ s) = split_ws_aux (rev t @ acc) s"
proof (induction t arbitrary: acc)
  case (Cons c t)
  then show ?case by (simp add: split_ws_aux.simps [of acc "c # t @ s"])
qed simp

lemma split_ws_aux_Nil: "split_ws_aux acc [] = (if acc = [] then [] else [rev acc])"
  by (simp add: split_ws_aux.simps)

lemma ws_len_sp [simp]: "ws_len (sp # s) = 1"
proof -
  have "ws1 sp" by (simp add: ws1_def)
  then show ?thesis by (cases s rule: ws_len.cases; cases "tl s") auto
qed

lemma split_ws_aux_sp:
  "split_ws_aux acc (sp # s) = (if acc = [] then [] else [rev acc]) @ split_ws_aux [] s"
  by (simp add: split_ws_aux.simps [of acc "sp # s"])

lemma str_split_ws_Nil [simp]: "str_split_ws [] = []"
  by (simp add: str_split_ws_def split_ws_aux_Nil)

lemma str_split_ws_token [simp]:
  "t \<noteq> [] \<Longrightarrow> (\<forall>c \<in> set t. is_graphic c) \<Longrightarrow> str_split_ws t = [t]"
  using split_ws_aux_graphic [of t "[]" "[]"] by (simp add: str_split_ws_def split_ws_aux_Nil)

lemma str_split_ws_cons [simp]:
  "t \<noteq> [] \<Longrightarrow> (\<forall>c \<in> set t. is_graphic c) \<Longrightarrow> str_split_ws (t @ sp # s) = t # str_split_ws s"
  using split_ws_aux_graphic [of t "[]" "sp # s"] by (simp add: str_split_ws_def split_ws_aux_sp)

lemma ws_len_0_ws1: "ws_len (c # r) = 0 \<Longrightarrow> \<not> ws1 c"
  by (cases r rule: ws_len.cases; cases "tl r") auto

lemma split_ws_aux_Cons:
  "split_ws_aux acc (x # xs) =
     (if ws_len (x # xs) = 0 then split_ws_aux (x # acc) xs
      else (if acc = [] then [] else [rev acc]) @ split_ws_aux [] (drop (ws_len (x # xs)) (x # xs)))"
  by (subst split_ws_aux.simps) simp

lemma split_ws_aux_elem:
  "t \<in> set (split_ws_aux acc s) \<Longrightarrow> (\<forall>c \<in> set acc. \<not> ws1 c)
   \<Longrightarrow> t \<noteq> [] \<and> (\<forall>c \<in> set t. \<not> ws1 c)"
proof (induction acc s rule: split_ws_aux.induct)
  case (1 acc s)
  show ?case
  proof (cases s)
    case Nil
    with "1.prems" show ?thesis by (auto simp: split_ws_aux_Nil split: if_splits)
  next
    case (Cons x xs)
    show ?thesis
    proof (cases "ws_len s = 0")
      case True
      with "1.prems"(1) Cons have t: "t \<in> set (split_ws_aux (x # acc) xs)"
        by (simp only: split_ws_aux_Cons if_True simp_thms)
      have "\<forall>c \<in> set (x # acc). \<not> ws1 c"
        using "1.prems"(2) True Cons ws_len_0_ws1 by simp
      with t show ?thesis
        by (rule "1.IH"(1) [OF Cons True])
    next
      case False
      with "1.prems"(1) Cons have
        "t \<in> set ((if acc = [] then [] else [rev acc]) @ split_ws_aux [] (drop (ws_len s) s))"
        by (simp only: split_ws_aux_Cons if_False simp_thms)
      then consider "t \<in> set (split_ws_aux [] (drop (ws_len s) s))" | "acc \<noteq> []" "t = rev acc"
        by (cases "acc = []") auto
      then show ?thesis
      proof cases
        case 1
        then show ?thesis by (rule "1.IH"(2) [OF Cons False]) simp
      next
        case 2
        with "1.prems"(2) show ?thesis by simp
      qed
    qed
  qed
qed

lemma str_split_ws_elem: "t \<in> set (str_split_ws s) \<Longrightarrow> t \<noteq> [] \<and> (\<forall>c \<in> set t. \<not> ws1 c)"
  unfolding str_split_ws_def by (erule split_ws_aux_elem) simp

lemma not_ws1_clean: "(\<forall>c \<in> set t. \<not> ws1 c) \<Longrightarrow> nl \<notin> set t \<and> cr \<notin> set t \<and> sp \<notin> set t \<and> tab \<notin> set t"
proof -
  have "ws1 nl" "ws1 cr" "ws1 sp" "ws1 tab"
    by (simp_all add: ws1_def)
  then show "(\<forall>c \<in> set t. \<not> ws1 c) \<Longrightarrow> ?thesis"
    by blast
qed

lemma trim_rev_set: "set (trim_rev s) \<subseteq> set s"
proof (induction s rule: trim_rev.induct)
  case (1 s)
  then show ?case
    by (cases "ws_len_rev s = 0") (auto simp: trim_rev.simps [of s] dest: in_set_dropD)
qed

lemma str_trim_start_set: "set (str_trim_start s) \<subseteq> set s"
proof (induction s rule: str_trim_start.induct)
  case (1 s)
  then show ?case
    by (cases "ws_len s = 0") (auto simp: str_trim_start.simps [of s] dest: in_set_dropD)
qed

lemma str_trim_set: "set (str_trim s) \<subseteq> set s"
  using trim_rev_set [of "rev (str_trim_start s)"] str_trim_start_set [of s]
  by (auto simp: str_trim_def str_trim_end_def)

lemma trim_rev_length: "length (trim_rev s) \<le> length s"
proof (induction s rule: trim_rev.induct)
  case (1 s)
  then show ?case
    by (subst trim_rev.simps) (auto intro: le_trans)
qed

lemma str_trim_start_length: "length (str_trim_start s) \<le> length s"
proof (induction s rule: str_trim_start.induct)
  case (1 s)
  then show ?case
    by (subst str_trim_start.simps) (auto intro: le_trans)
qed

lemma str_trim_length: "length (str_trim s) \<le> length s"
  using trim_rev_length [of "rev (str_trim_start s)"] str_trim_start_length [of s]
  by (simp add: str_trim_def str_trim_end_def)

lemma trim_end_matches_set: "set (trim_end_matches cs s) \<subseteq> set s"
  by (auto simp: trim_end_matches_def dest: set_dropWhileD)

lemma trim_end_matches_last [simp]: "s \<noteq> [] \<Longrightarrow> last s \<notin> cs \<Longrightarrow> trim_end_matches cs s = s"
  by (cases s rule: rev_cases) (simp_all add: trim_end_matches_def)

lemma unlines_elem: "c \<in> set (unlines ls) \<Longrightarrow> c = nl \<or> (\<exists>l \<in> set ls. c \<in> set l)"
  by (induction ls) auto

lemma sorted_remdups_adj_distinct: "sorted xs \<Longrightarrow> distinct (remdups_adj xs)"
  by (induction xs rule: remdups_adj.induct) (auto simp: less_le_not_le)

lemma set_map_filter: "y \<in> set (List.map_filter f xs) \<longleftrightarrow> (\<exists>x \<in> set xs. f x = Some y)"
  by (force simp: List.map_filter_def)

lemma map_filter_append: "List.map_filter f (xs @ ys) = List.map_filter f xs @ List.map_filter f ys"
  by (simp add: List.map_filter_def)

section \<open>Splitting at a pattern\<close>

lemma str_starts_with_length: "str_starts_with s p \<Longrightarrow> length p \<le> length s"
  by (auto simp: str_starts_with_iff)

lemma str_find_bound: "str_find p s = Some i \<Longrightarrow> i + length p \<le> length s"
proof (induction s arbitrary: i)
  case (Cons c s)
  then show ?case
    using str_starts_with_length [of "c # s" p] by (auto split: if_splits)
qed (simp split: if_splits)

function str_split_pat :: "string \<Rightarrow> string \<Rightarrow> string list" where
  "str_split_pat p s =
     (case str_find p s of
        None \<Rightarrow> [s]
      | Some i \<Rightarrow> if p = [] then [s] else take i s # str_split_pat p (drop (i + length p) s))"
  by pat_completeness auto
termination
  by (relation "measure (\<lambda>(p, s). length s)") (auto dest!: str_find_bound simp: neq_Nil_conv)

declare str_split_pat.simps [simp del]

lemma str_find_skip:
  "c \<notin> set a \<Longrightarrow> str_find (c # p) (a @ c # s)
     = (if str_starts_with (c # s) (c # p) then Some (length a) else map_option (\<lambda>i. length a + i) (str_find (c # p) (c # s)))"
  by (induction a) (auto simp: str_starts_with_def option.map_comp comp_def)

lemma str_find_first: "c \<notin> set a \<Longrightarrow> str_find (c # p) (a @ c # p @ s) = Some (length a)"
  using str_find_skip [of c a p "p @ s"] by (simp add: str_starts_with_def)

lemma str_split_pat_first:
  "c \<notin> set a \<Longrightarrow> str_split_pat (c # p) (a @ c # p @ s) = a # str_split_pat (c # p) s"
  by (subst str_split_pat.simps) (simp add: str_find_first)

lemma str_find_none: "c \<notin> set a \<Longrightarrow> str_find (c # p) a = None"
  by (induction a) (auto simp: str_starts_with_def)

lemma str_split_pat_none: "c \<notin> set a \<Longrightarrow> str_split_pat (c # p) a = [a]"
  by (simp add: str_split_pat.simps str_find_none)

end
