(* ===== verification/Policy_Tier.thy ===== *)
theory Policy_Tier
  imports Rust_Prelude
begin

text \<open>
  The isolation policy of \<open>crates/shrek-policy/src/tier.rs\<close> and \<open>provenance.rs\<close>: the trust
  bands, the capability profiles, the selection matrix, the floor rule and \<open>effective_tier\<close>, and
  the derivation of a band from measured evidence. The three enums get the order their Rust
  declaration order derives, as \<open>linorder\<close> instances over an explicit rank.
\<close>

section \<open>The three ordered enums\<close>

datatype trust_band = First | Pinned | Untrust | Hostile
datatype caps_profile = RoNosec | ProjRw | Net | Broad
datatype tier = T0 | T1 | T2 | T3

fun trust_rank :: "trust_band \<Rightarrow> nat" where
  "trust_rank First = 0" | "trust_rank Pinned = 1"
| "trust_rank Untrust = 2" | "trust_rank Hostile = 3"

fun caps_rank :: "caps_profile \<Rightarrow> nat" where
  "caps_rank RoNosec = 0" | "caps_rank ProjRw = 1"
| "caps_rank Net = 2" | "caps_rank Broad = 3"

fun tier_rank :: "tier \<Rightarrow> nat" where
  "tier_rank T0 = 0" | "tier_rank T1 = 1" | "tier_rank T2 = 2" | "tier_rank T3 = 3"

lemma trust_rank_inject [simp]: "trust_rank x = trust_rank y \<longleftrightarrow> x = y"
  by (cases x; cases y) simp_all

lemma caps_rank_inject [simp]: "caps_rank x = caps_rank y \<longleftrightarrow> x = y"
  by (cases x; cases y) simp_all

lemma tier_rank_inject [simp]: "tier_rank x = tier_rank y \<longleftrightarrow> x = y"
  by (cases x; cases y) simp_all

instantiation trust_band :: linorder
begin

definition less_eq_trust_band :: "trust_band \<Rightarrow> trust_band \<Rightarrow> bool" where
  "x \<le> y \<longleftrightarrow> trust_rank x \<le> trust_rank y"

definition less_trust_band :: "trust_band \<Rightarrow> trust_band \<Rightarrow> bool" where
  "x < y \<longleftrightarrow> trust_rank x < trust_rank y"

instance
  by standard (auto simp: less_eq_trust_band_def less_trust_band_def
      simp flip: trust_rank_inject)

end

instantiation caps_profile :: linorder
begin

definition less_eq_caps_profile :: "caps_profile \<Rightarrow> caps_profile \<Rightarrow> bool" where
  "x \<le> y \<longleftrightarrow> caps_rank x \<le> caps_rank y"

definition less_caps_profile :: "caps_profile \<Rightarrow> caps_profile \<Rightarrow> bool" where
  "x < y \<longleftrightarrow> caps_rank x < caps_rank y"

instance
  by standard (auto simp: less_eq_caps_profile_def less_caps_profile_def
      simp flip: caps_rank_inject)

end

instantiation tier :: linorder
begin

definition less_eq_tier :: "tier \<Rightarrow> tier \<Rightarrow> bool" where
  "x \<le> y \<longleftrightarrow> tier_rank x \<le> tier_rank y"

definition less_tier :: "tier \<Rightarrow> tier \<Rightarrow> bool" where
  "x < y \<longleftrightarrow> tier_rank x < tier_rank y"

instance
  by standard (auto simp: less_eq_tier_def less_tier_def simp flip: tier_rank_inject)

end

lemmas policy_order_defs = less_eq_trust_band_def less_trust_band_def less_eq_caps_profile_def
  less_caps_profile_def less_eq_tier_def less_tier_def

section \<open>The selection matrix, the floor and the effective tier\<close>

definition subset_of :: "caps_profile \<Rightarrow> caps_profile \<Rightarrow> bool" where
  "subset_of c profile \<longleftrightarrow> c \<le> profile"

fun matrix :: "trust_band \<Rightarrow> caps_profile \<Rightarrow> tier" where
  "matrix First RoNosec = T0"
| "matrix First ProjRw = T0"
| "matrix First Net = T1"
| "matrix First Broad = T1"
| "matrix Pinned RoNosec = T0"
| "matrix Pinned ProjRw = T1"
| "matrix Pinned Net = T1"
| "matrix Pinned Broad = T2"
| "matrix Untrust RoNosec = T2"
| "matrix Untrust ProjRw = T2"
| "matrix Untrust Net = T2"
| "matrix Untrust Broad = T3"
| "matrix Hostile RoNosec = T2"
| "matrix Hostile ProjRw = T3"
| "matrix Hostile Net = T3"
| "matrix Hostile Broad = T3"

fun floor_tier :: "trust_band \<Rightarrow> tier" where
  "floor_tier First = T0"
| "floor_tier Pinned = T0"
| "floor_tier Untrust = T2"
| "floor_tier Hostile = T2"

definition effective_tier :: "trust_band \<Rightarrow> caps_profile \<Rightarrow> tier option \<Rightarrow> tier" where
  "effective_tier trust caps escalation =
     (let t = max (matrix trust caps) (floor_tier trust)
      in case escalation of Some e \<Rightarrow> max t e | None \<Rightarrow> t)"

section \<open>Labels\<close>

definition trust_parse :: "string \<Rightarrow> trust_band" where
  "trust_parse s =
     (if s = ''T-first'' \<or> s = ''first'' then First
      else if s = ''T-pinned'' \<or> s = ''pinned'' then Pinned
      else if s = ''T-untrust'' \<or> s = ''untrust'' then Untrust
      else Hostile)"

fun trust_label :: "trust_band \<Rightarrow> string" where
  "trust_label First = ''T-first''"
| "trust_label Pinned = ''T-pinned''"
| "trust_label Untrust = ''T-untrust''"
| "trust_label Hostile = ''T-hostile''"

definition caps_parse :: "string \<Rightarrow> caps_profile" where
  "caps_parse s =
     (if s = ''C-ro-nosec'' \<or> s = ''ro-nosec'' then RoNosec
      else if s = ''C-proj-rw'' \<or> s = ''proj-rw'' then ProjRw
      else if s = ''C-net'' \<or> s = ''net'' then Net
      else Broad)"

fun caps_label :: "caps_profile \<Rightarrow> string" where
  "caps_label RoNosec = ''C-ro-nosec''"
| "caps_label ProjRw = ''C-proj-rw''"
| "caps_label Net = ''C-net''"
| "caps_label Broad = ''C-broad''"

definition needs_egress :: "caps_profile \<Rightarrow> bool" where
  "needs_egress c \<longleftrightarrow> c = Net \<or> c = Broad"

definition tier_parse :: "string \<Rightarrow> tier option" where
  "tier_parse s =
     (if s = ''T0'' then Some T0 else if s = ''T1'' then Some T1
      else if s = ''T2'' then Some T2 else if s = ''T3'' then Some T3 else None)"

fun tier_label :: "tier \<Rightarrow> string" where
  "tier_label T0 = ''T0''" | "tier_label T1 = ''T1''"
| "tier_label T2 = ''T2''" | "tier_label T3 = ''T3''"

section \<open>Evidence and the derived band\<close>

datatype origin = UntrustedIngest | Generated | NoOrigin

record evidence =
  entrypoint_sealed :: bool
  domain_execution_sealed :: bool
  pinned_digest_match :: bool
  ev_origin :: origin

definition evidence_mvp :: "bool \<Rightarrow> bool \<Rightarrow> evidence" where
  "evidence_mvp ep dsealed = \<lparr>entrypoint_sealed = ep, domain_execution_sealed = dsealed,
     pinned_digest_match = False, ev_origin = NoOrigin\<rparr>"

definition UNVERIFIABLE :: evidence where
  "UNVERIFIABLE = \<lparr>entrypoint_sealed = False, domain_execution_sealed = False,
     pinned_digest_match = False, ev_origin = NoOrigin\<rparr>"

definition derive_band :: "evidence \<Rightarrow> trust_band" where
  "derive_band e =
     (if entrypoint_sealed e \<and> domain_execution_sealed e then First
      else if pinned_digest_match e \<and> domain_execution_sealed e then Pinned
      else (case ev_origin e of
              UntrustedIngest \<Rightarrow> Untrust
            | Generated \<Rightarrow> Hostile
            | NoOrigin \<Rightarrow> Hostile))"

section \<open>Facts\<close>

lemma matrix_mono: "t \<le> t' \<Longrightarrow> c \<le> c' \<Longrightarrow> matrix t c \<le> matrix t' c'"
  by (cases t; cases t'; cases c; cases c') (simp_all add: policy_order_defs)

lemma floor_tier_mono: "t \<le> t' \<Longrightarrow> floor_tier t \<le> floor_tier t'"
  by (cases t; cases t') (simp_all add: policy_order_defs)

lemma tier_le_T3 [simp]: "t \<le> T3"
  by (cases t) (simp_all add: policy_order_defs)

lemma trust_le_Hostile [simp]: "t \<le> Hostile"
  by (cases t) (simp_all add: policy_order_defs)

lemma caps_le_Broad [simp]: "c \<le> Broad"
  by (cases c) (simp_all add: policy_order_defs)

lemma effective_tier_bounds:
  "matrix t c \<le> effective_tier t c e" "floor_tier t \<le> effective_tier t c e"
  "e = Some x \<Longrightarrow> x \<le> effective_tier t c e"
  by (auto simp: effective_tier_def Let_def le_max_iff_disj split: option.splits)

lemma effective_tier_mono:
  assumes "t \<le> t'" "c \<le> c'"
  shows "effective_tier t c e \<le> effective_tier t' c' e"
proof -
  have "max (matrix t c) (floor_tier t) \<le> max (matrix t' c') (floor_tier t')"
    using matrix_mono [OF assms] floor_tier_mono [OF assms(1)] by (rule max.mono)
  then show ?thesis
    by (auto simp: effective_tier_def Let_def le_max_iff_disj split: option.splits)
qed

lemma trust_parse_label [simp]: "trust_parse (trust_label t) = t"
  by (cases t) (simp_all add: trust_parse_def)

lemma caps_parse_label [simp]: "caps_parse (caps_label c) = c"
  by (cases c) (simp_all add: caps_parse_def)

lemma tier_parse_label [simp]: "tier_parse (tier_label t) = Some t"
  by (cases t) (simp_all add: tier_parse_def)

lemma tier_parse_Some: "tier_parse s = Some t \<longleftrightarrow> s = tier_label t"
  by (cases t) (auto simp: tier_parse_def split: if_splits)

lemma derive_band_not_sealed:
  "\<not> domain_execution_sealed e \<Longrightarrow> Untrust \<le> derive_band e"
  by (auto simp: derive_band_def policy_order_defs split: origin.splits)

text \<open>
  What it means for one body of evidence to prove at least as much as another, for the
  monotonicity of the lattice: facts can only be added, and an untrusted-ingest record is
  stronger than none.
\<close>

definition ev_le :: "evidence \<Rightarrow> evidence \<Rightarrow> bool" where
  "ev_le a b \<longleftrightarrow>
     (entrypoint_sealed a \<longrightarrow> entrypoint_sealed b) \<and>
     (domain_execution_sealed a \<longrightarrow> domain_execution_sealed b) \<and>
     (pinned_digest_match a \<longrightarrow> pinned_digest_match b) \<and>
     (ev_origin a = UntrustedIngest \<longrightarrow> ev_origin b = UntrustedIngest)"

lemma derive_band_antimono: "ev_le a b \<Longrightarrow> derive_band b \<le> derive_band a"
  by (auto simp: ev_le_def derive_band_def policy_order_defs split: origin.splits)

section \<open>Properties\<close>

text \<open>
  an action whose execution domain is not proven sealed runs in an isolated tier, whatever
  capabilities it names, whatever escalation is asked for: no caller can talk the tier below \<open>T2\<close>.
\<close>

theorem unsealed_runs_isolated:
  assumes "\<not> domain_execution_sealed e"
  shows "T2 \<le> effective_tier (derive_band e) (caps_parse caps) esc"
proof -
  have "floor_tier Untrust \<le> floor_tier (derive_band e)"
    by (rule floor_tier_mono) (rule derive_band_not_sealed [OF assms])
  then show ?thesis
    using effective_tier_bounds(2) [of "derive_band e" "caps_parse caps" esc] by simp
qed

theorem unsealed_runs_isolated_witness:
  "T2 \<le> effective_tier (derive_band (evidence_mvp True False)) (caps_parse ''ro-nosec'') None"
  by (rule unsealed_runs_isolated) (simp add: evidence_mvp_def)

text \<open>
  evidence only ever helps and capabilities only ever cost: adding a proven fact, or asking for
  fewer capabilities, never moves an action to a stronger sandbox.
\<close>

theorem evidence_lowers_caps_raise:
  assumes "ev_le a b" "c \<le> c'"
  shows "effective_tier (derive_band b) c esc \<le> effective_tier (derive_band a) c' esc"
  by (rule effective_tier_mono) (rule derive_band_antimono [OF assms(1)], rule assms(2))

theorem evidence_lowers_caps_raise_witness:
  "effective_tier (derive_band (evidence_mvp True True)) RoNosec None
     \<le> effective_tier (derive_band UNVERIFIABLE) Broad None"
  by (rule evidence_lowers_caps_raise)
    (simp_all add: ev_le_def UNVERIFIABLE_def evidence_mvp_def policy_order_defs)

end
