(* ===== verification/Rust_Num.thy ===== *)
theory Rust_Num
  imports Rust_Prelude
begin

text \<open>
  Numbers and addresses of the Rust standard library, as the daemons parse and print them:
  unsigned integers of a fixed width (\<open>FromStr\<close> with its optional plus sign, its overflow error
  and its \<open>Display\<close>), and \<open>std::net::Ipv4Addr\<close> with its strict dotted-quad grammar, its
  canonical rendering and its octet-wise order. The main facts are that printing then parsing is
  the identity, and that the address grammar accepts nothing but canonical renderings.
\<close>

section \<open>Decimal numbers\<close>

definition digit_char :: "nat \<Rightarrow> char" where
  "digit_char n = char_of (48 + n)"

definition digit_val :: "char \<Rightarrow> nat" where
  "digit_val c = of_char c - 48"

fun show_nat :: "nat \<Rightarrow> string" where
  "show_nat n = (if n < 10 then [digit_char n] else show_nat (n div 10) @ [digit_char (n mod 10)])"

declare show_nat.simps [simp del]

definition digits_val :: "string \<Rightarrow> nat" where
  "digits_val s = foldl (\<lambda>n c. 10 * n + digit_val c) 0 s"

definition strip_plus :: "string \<Rightarrow> string" where
  "strip_plus s = (case s of [] \<Rightarrow> [] | c # r \<Rightarrow> if c = CHR ''+'' then r else s)"

definition parse_uint :: "string \<Rightarrow> 'a::len word option" where
  "parse_uint s =
     (let d = strip_plus s in
      if d = [] \<or> \<not> list_all is_digit d then None
      else if digits_val d < 2 ^ LENGTH('a) then Some (of_nat (digits_val d)) else None)"

definition show_uint :: "'a::len word \<Rightarrow> string" where
  "show_uint w = show_nat (unat w)"

lemma of_char_digit_char: "n < 10 \<Longrightarrow> (of_char (digit_char n) :: nat) = 48 + n"
  by (simp add: digit_char_def)

lemma digit_val_digit_char [simp]: "n < 10 \<Longrightarrow> digit_val (digit_char n) = n"
  by (simp add: digit_val_def of_char_digit_char)

lemma is_digit_digit_char [simp]: "n < 10 \<Longrightarrow> is_digit (digit_char n)"
  by (simp add: is_digit_def less_eq_char_def of_char_digit_char)

lemma digit_val_less: "is_digit c \<Longrightarrow> digit_val c < 10"
  by (auto simp: is_digit_def less_eq_char_def digit_val_def)

lemma digit_char_0: "digit_char 0 = CHR ''0''"
proof -
  have "char_of (of_char (CHR ''0'') :: nat) = CHR ''0''" by (rule char_of_char)
  then show ?thesis by (simp add: digit_char_def del: char_of_char)
qed

lemma digit_val_0: "digit_val (CHR ''0'') = 0"
  by (simp add: digit_val_def)

lemma digit_char_digit_val [simp]: "is_digit c \<Longrightarrow> digit_char (digit_val c) = c"
  by (simp add: is_digit_def less_eq_char_def digit_val_def digit_char_def)

lemma show_nat_ne [simp]: "show_nat n \<noteq> []"
  by (subst show_nat.simps) simp

lemma show_nat_digits [simp]: "list_all is_digit (show_nat n)"
proof (induction n rule: show_nat.induct)
  case (1 n)
  then show ?case by (subst show_nat.simps) simp
qed

lemma digits_val_snoc: "digits_val (s @ [c]) = 10 * digits_val s + digit_val c"
  by (simp add: digits_val_def)

lemma digits_val_Nil [simp]: "digits_val [] = 0"
  by (simp add: digits_val_def)

lemma digits_val_show_nat [simp]: "digits_val (show_nat n) = n"
proof (induction n rule: show_nat.induct)
  case (1 n)
  show ?case
  proof (cases "n < 10")
    case True
    then show ?thesis
      using digits_val_snoc [of "[]" "digit_char n"] by (simp add: show_nat.simps [of n])
  next
    case False
    with 1 show ?thesis by (simp add: show_nat.simps [of n] digits_val_snoc)
  qed
qed

lemma show_nat_hd: "0 < n \<Longrightarrow> hd (show_nat n) \<noteq> CHR ''0''"
proof (induction n rule: show_nat.induct)
  case (1 n)
  show ?case
  proof (cases "n < 10")
    case True
    then have "digit_val (digit_char n) \<noteq> digit_val (CHR ''0'')"
      using "1.prems" by (simp add: digit_val_0)
    then have "digit_char n \<noteq> CHR ''0''"
      by metis
    with True show ?thesis by (simp add: show_nat.simps [of n])
  next
    case False
    then have "0 < n div 10" by (simp add: div_greater_zero_iff)
    with 1 False show ?thesis by (simp add: show_nat.simps [of n])
  qed
qed

lemma digits_val_pos:
  "list_all is_digit s \<Longrightarrow> s \<noteq> [] \<Longrightarrow> hd s \<noteq> CHR ''0'' \<Longrightarrow> 0 < digits_val s"
proof (induction s rule: rev_induct)
  case (snoc c s)
  show ?case
  proof (cases "s = []")
    case True
    have "digit_val c \<noteq> 0"
    proof
      assume "digit_val c = 0"
      then have "digit_char 0 = c" using snoc.prems digit_char_digit_val [of c] by simp
      then show False using snoc.prems True by (simp add: digit_char_0)
    qed
    then show ?thesis using True digits_val_snoc [of s c] by simp
  next
    case False
    with snoc show ?thesis by (simp add: digits_val_snoc)
  qed
qed simp

text \<open>A digit string without a superfluous leading zero is the rendering of its value.\<close>

lemma show_nat_digits_val:
  "list_all is_digit s \<Longrightarrow> s \<noteq> [] \<Longrightarrow> hd s \<noteq> CHR ''0'' \<or> length s = 1
   \<Longrightarrow> show_nat (digits_val s) = s"
proof (induction s rule: rev_induct)
  case (snoc c s)
  have c: "is_digit c" and s: "list_all is_digit s"
    using snoc.prems(1) by simp_all
  show ?case
  proof (cases "s = []")
    case True
    then have "digits_val (s @ [c]) = digit_val c"
      using digits_val_snoc [of s c] by simp
    then show ?thesis
      using digit_val_less [OF c] c True by (simp add: show_nat.simps [of "digit_val c"])
  next
    case False
    then have hd: "hd s \<noteq> CHR ''0''"
      using snoc.prems(3) by auto
    then have "show_nat (digits_val s) = s"
      using snoc.IH s False by simp
    moreover have "\<not> digits_val (s @ [c]) < 10"
      using digits_val_pos [OF s False hd] by (simp add: digits_val_snoc)
    moreover have "digits_val (s @ [c]) div 10 = digits_val s" "digits_val (s @ [c]) mod 10 = digit_val c"
      using digit_val_less [OF c] by (simp_all add: digits_val_snoc)
    ultimately show ?thesis
      using c by (simp add: show_nat.simps [of "digits_val (s @ [c])"])
  qed
qed simp

lemma strip_plus_digits [simp]: "list_all is_digit s \<Longrightarrow> strip_plus s = s"
proof (cases s)
  case (Cons c r)
  have "\<not> is_digit (CHR ''+'')" by (simp add: is_digit_def)
  then show "list_all is_digit s \<Longrightarrow> ?thesis" using Cons by (auto simp: strip_plus_def)
qed (simp add: strip_plus_def)

lemma show_uint_digits [simp]: "list_all is_digit (show_uint w)"
  by (simp add: show_uint_def)

lemma show_uint_ne [simp]: "show_uint w \<noteq> []"
  by (simp add: show_uint_def)

lemma parse_show_uint [simp]: "parse_uint (show_uint w) = Some w"
  by (simp add: parse_uint_def show_uint_def Let_def)

lemma digits_graphic: "list_all is_digit s \<Longrightarrow> \<forall>c \<in> set s. is_graphic c"
  by (auto simp: list_all_iff dest: digit_graphic)

lemma show_uint_graphic [simp]: "c \<in> set (show_uint w) \<Longrightarrow> is_graphic c"
  using digits_graphic show_uint_digits by blast

lemma show_uint_digit [simp]: "c \<in> set (show_uint w) \<Longrightarrow> is_digit c"
  using show_uint_digits by (auto simp: list_all_iff)

section \<open>IPv4 addresses\<close>

datatype ipv4 = Ipv4 u8 u8 u8 u8

fun ipv4_key :: "ipv4 \<Rightarrow> u8 \<times> u8 \<times> u8 \<times> u8" where
  "ipv4_key (Ipv4 a b c d) = (a, b, c, d)"

lemma ipv4_key_inject: "ipv4_key x = ipv4_key y \<Longrightarrow> x = y"
  by (cases x; cases y) simp

instantiation ipv4 :: linorder
begin

definition less_eq_ipv4 :: "ipv4 \<Rightarrow> ipv4 \<Rightarrow> bool" where
  "x \<le> y \<longleftrightarrow> ipv4_key x \<le> ipv4_key y"

definition less_ipv4 :: "ipv4 \<Rightarrow> ipv4 \<Rightarrow> bool" where
  "x < y \<longleftrightarrow> ipv4_key x < ipv4_key y"

instance
proof
  fix x y z :: ipv4
  show "(x < y) = (x \<le> y \<and> \<not> y \<le> x)"
    unfolding less_ipv4_def less_eq_ipv4_def by (rule less_le_not_le)
  show "x \<le> x"
    unfolding less_eq_ipv4_def by (rule order_refl)
  show "x \<le> y \<Longrightarrow> y \<le> z \<Longrightarrow> x \<le> z"
    unfolding less_eq_ipv4_def by (rule order_trans)
  show "x \<le> y \<Longrightarrow> y \<le> x \<Longrightarrow> x = y"
    unfolding less_eq_ipv4_def by (rule ipv4_key_inject) (rule antisym)
  show "x \<le> y \<or> y \<le> x"
    unfolding less_eq_ipv4_def by (rule linear)
qed

end

text \<open>One octet: one to three digits, no superfluous leading zero, at most 255.\<close>

definition octet_parse :: "string \<Rightarrow> u8 option" where
  "octet_parse s =
     (if s \<noteq> [] \<and> length s \<le> 3 \<and> list_all is_digit s \<and> (hd s \<noteq> CHR ''0'' \<or> length s = 1)
         \<and> digits_val s < 256
      then Some (of_nat (digits_val s)) else None)"

definition ipv4_parse :: "string \<Rightarrow> ipv4 option" where
  "ipv4_parse s =
     (case str_split (CHR ''.'') s of
        [a, b, c, d] \<Rightarrow> do {
          w \<leftarrow> octet_parse a; x \<leftarrow> octet_parse b; y \<leftarrow> octet_parse c; z \<leftarrow> octet_parse d;
          Some (Ipv4 w x y z) }
      | _ \<Rightarrow> None)"

fun ipv4_show :: "ipv4 \<Rightarrow> string" where
  "ipv4_show (Ipv4 a b c d) =
     show_uint a @ ''.'' @ show_uint b @ ''.'' @ show_uint c @ ''.'' @ show_uint d"

lemma show_nat_len3: "n < 256 \<Longrightarrow> length (show_nat n) \<le> 3"
  by (simp add: show_nat.simps [of n] show_nat.simps [of "n div 10"]
        show_nat.simps [of "n div 10 div 10"])

lemma octet_parse_iff: "octet_parse s = Some w \<longleftrightarrow> s = show_uint w"
proof
  assume "octet_parse s = Some w"
  then have s: "s \<noteq> []" "list_all is_digit s" "hd s \<noteq> CHR ''0'' \<or> length s = 1"
    and v: "digits_val s < 256" and w: "w = of_nat (digits_val s)"
    by (auto simp: octet_parse_def split: if_splits)
  have "unat w = digits_val s"
    using v by (simp add: w unat_of_nat)
  then show "s = show_uint w"
    using show_nat_digits_val [OF s(2,1,3)] by (simp add: show_uint_def)
next
  assume s: "s = show_uint w"
  have u: "unat w < 256"
  proof -
    have "unat w < 2 ^ LENGTH(8)" by (rule unsigned_less)
    then show ?thesis by simp
  qed
  have "hd s \<noteq> CHR ''0'' \<or> length s = 1"
  proof (cases "unat w = 0")
    case True
    then show ?thesis by (simp add: s show_uint_def show_nat.simps [of 0])
  next
    case False
    then show ?thesis using show_nat_hd by (simp add: s show_uint_def)
  qed
  then show "octet_parse s = Some w"
    using u show_nat_len3 [OF u] by (simp add: octet_parse_def s show_uint_def)
qed

lemma dot_not_digit [simp]: "\<not> is_digit (CHR ''.'')"
  by (simp add: is_digit_def)

lemma dot_notin_show [simp]: "CHR ''.'' \<notin> set (show_uint w)"
  using show_uint_digit dot_not_digit by blast

text \<open>The address grammar accepts exactly the canonical renderings.\<close>

lemma ipv4_parse_show [simp]: "ipv4_parse (ipv4_show a) = Some a"
  by (cases a) (simp add: ipv4_parse_def octet_parse_iff [THEN iffD2])

lemma ipv4_parse_canonical: "ipv4_parse s = Some a \<Longrightarrow> s = ipv4_show a"
proof -
  assume p: "ipv4_parse s = Some a"
  then obtain w x y z where sp: "str_split (CHR ''.'') s = [w, x, y, z]"
    by (auto simp: ipv4_parse_def split: list.splits)
  then have "s = str_join ''.'' [w, x, y, z]"
    using str_join_split [of "CHR ''.''" s] by simp
  then show ?thesis
    using p sp by (auto simp: ipv4_parse_def octet_parse_iff Option.bind_eq_Some_conv)
qed

lemma ipv4_parse_iff [str_simps]: "ipv4_parse s = Some a \<longleftrightarrow> s = ipv4_show a"
  using ipv4_parse_canonical ipv4_parse_show by blast

lemma dot_graphic [simp]: "is_graphic (CHR ''.'')"
  by (simp add: is_graphic_def)

lemma ipv4_show_graphic [simp]: "c \<in> set (ipv4_show a) \<Longrightarrow> is_graphic c"
  by (cases a) auto

lemma ipv4_show_ne [simp]: "ipv4_show a \<noteq> []"
  by (cases a) simp

lemma ipv4_show_inject [simp]: "ipv4_show a = ipv4_show b \<longleftrightarrow> a = b"
  by (metis ipv4_parse_show option.inject)

lemma ipv4_show_bytes: "c \<in> set (ipv4_show a) \<Longrightarrow> is_digit c \<or> c = CHR ''.''"
  by (cases a) auto

lemma show_nat_len5: "n < 65536 \<Longrightarrow> length (show_nat n) \<le> 5"
  by (simp add: show_nat.simps [of n] show_nat.simps [of "n div 10"]
        show_nat.simps [of "n div 10 div 10"] show_nat.simps [of "n div 10 div 10 div 10"]
        show_nat.simps [of "n div 10 div 10 div 10 div 10"])

section \<open>Path-component tokens\<close>

text \<open>
  The class of names that are used as file names: alphanumerics with \<open>._-\<close>. The daemons check it
  before every path is formed (\<open>valid_token\<close>, \<open>valid_bench_name\<close>, \<open>valid_session_id\<close>).
\<close>

definition token_byte :: "char \<Rightarrow> bool" where
  "token_byte b \<longleftrightarrow> is_alnum b \<or> b = CHR ''.'' \<or> b = CHR ''_'' \<or> b = CHR ''-''"

lemma token_byte_graphic [ascii_rules]: "token_byte c \<Longrightarrow> is_graphic c"
  unfolding token_byte_def by (auto dest: alnum_graphic) (simp_all add: is_graphic_def)

lemma token_byte_not_slash: "token_byte c \<Longrightarrow> c \<noteq> CHR ''/''"
  by (auto simp: token_byte_def byte_class_defs)

lemma ipv4_show_length: "length (ipv4_show a) \<le> 15"
proof -
  have "length (show_uint (w :: u8)) \<le> 3" for w
  proof -
    have "unat w < 2 ^ LENGTH(8)" by (rule unsigned_less)
    then show ?thesis by (simp add: show_uint_def show_nat_len3)
  qed
  note oct = this
  obtain p q r t where a: "a = Ipv4 p q r t" by (cases a)
  show ?thesis
    using oct [of p] oct [of q] oct [of r] oct [of t] by (simp add: a)
qed

end
