(* ===== verification/Fs_Model.thy ===== *)
theory Fs_Model
  imports Rust_Num
begin

text \<open>
  The part of the file system the daemons use: a directory of regular files with the atomic
  replacement (temporary file, \<open>fsync\<close>, \<open>rename\<close>) every record is written by, the removal that
  tolerates an absent file, reading as UTF-8 and the listing.  A write or a removal the operating
  system refuses leaves the directory as it was; which names it refuses is a field of the
  directory.  Modes, owners and the temporary files themselves are not modelled.

  The locale \<open>record_store\<close> is the contract of a record kind kept one per file: what is decoded
  from an encoded record, and what a decoded record promises.  Its lemmas (a load sees the last
  write, other records are untouched, the listing is sorted and holds what loads) are proved once
  and used by every record kind of \<open>egressd\<close> and \<open>gatekeeperd\<close>.
\<close>

section \<open>UTF-8\<close>

text \<open>The length in bytes of the well-formed sequence a byte string begins with, 0 if none.\<close>

definition cont_byte :: "char \<Rightarrow> bool" where
  "cont_byte c \<longleftrightarrow> CHR 0x80 \<le> c \<and> c \<le> CHR 0xBF"

definition utf8_two :: "char \<Rightarrow> char \<Rightarrow> bool" where
  "utf8_two a b \<longleftrightarrow> CHR 0xC2 \<le> a \<and> a \<le> CHR 0xDF \<and> cont_byte b"

definition utf8_three :: "char \<Rightarrow> char \<Rightarrow> char \<Rightarrow> bool" where
  "utf8_three a b c \<longleftrightarrow> cont_byte c \<and>
     ((a = CHR 0xE0 \<and> CHR 0xA0 \<le> b \<and> b \<le> CHR 0xBF) \<or>
      (CHR 0xE1 \<le> a \<and> a \<le> CHR 0xEC \<and> cont_byte b) \<or>
      (a = CHR 0xED \<and> CHR 0x80 \<le> b \<and> b \<le> CHR 0x9F) \<or>
      (CHR 0xEE \<le> a \<and> a \<le> CHR 0xEF \<and> cont_byte b))"

definition utf8_four :: "char \<Rightarrow> char \<Rightarrow> char \<Rightarrow> char \<Rightarrow> bool" where
  "utf8_four a b c d \<longleftrightarrow> cont_byte c \<and> cont_byte d \<and>
     ((a = CHR 0xF0 \<and> CHR 0x90 \<le> b \<and> b \<le> CHR 0xBF) \<or>
      (CHR 0xF1 \<le> a \<and> a \<le> CHR 0xF3 \<and> cont_byte b) \<or>
      (a = CHR 0xF4 \<and> CHR 0x80 \<le> b \<and> b \<le> CHR 0x8F))"

fun utf8_len :: "string \<Rightarrow> nat" where
  "utf8_len [] = 0"
| "utf8_len (a # r) =
     (if a < CHR 0x80 then 1
      else (case r of
              b # r' \<Rightarrow>
                if utf8_two a b then 2
                else (case r' of
                        c # r'' \<Rightarrow>
                          if utf8_three a b c then 3
                          else (case r'' of d # _ \<Rightarrow> if utf8_four a b c d then 4 else 0 | [] \<Rightarrow> 0)
                      | [] \<Rightarrow> 0)
            | [] \<Rightarrow> 0))"

lemma utf8_len_le: "utf8_len s \<le> length s"
  by (cases s) (auto split: list.splits)

function utf8_ok :: "string \<Rightarrow> bool" where
  "utf8_ok s =
     (if s = [] then True
      else if utf8_len s = 0 then False
      else utf8_ok (drop (utf8_len s) s))"
  by pat_completeness auto
termination
  by (relation "measure length") (auto simp: neq_Nil_conv)

declare utf8_ok.simps [simp del] utf8_len.simps(2) [simp del]

lemma utf8_ok_Nil [simp]: "utf8_ok []"
  by (simp add: utf8_ok.simps)

lemma utf8_len_append: "utf8_len s \<noteq> 0 \<Longrightarrow> utf8_len (s @ t) = utf8_len s"
  by (cases s; cases "tl s"; cases "tl (tl s)"; cases "tl (tl (tl s))")
    (simp_all add: utf8_len.simps split: if_splits)

lemma utf8_ok_append: "utf8_ok s \<Longrightarrow> utf8_ok (s @ t) \<longleftrightarrow> utf8_ok t"
proof (induction s rule: utf8_ok.induct)
  case (1 s)
  show ?case
  proof (cases "s = []")
    case False
    with "1.prems" have l: "utf8_len s \<noteq> 0" "utf8_ok (drop (utf8_len s) s)"
      by (simp_all add: utf8_ok.simps [of s] split: if_splits)
    then have "utf8_ok (drop (utf8_len s) s @ t) = utf8_ok t"
      by (intro "1.IH") (use False in simp_all)
    then show ?thesis
      using False l utf8_len_le [of s] by (simp add: utf8_ok.simps [of "s @ t"] utf8_len_append)
  qed simp
qed

lemma utf8_ok_ascii_Cons [simp]: "a < CHR 0x80 \<Longrightarrow> utf8_ok (a # s) = utf8_ok s"
  by (simp add: utf8_ok.simps [of "a # s"] utf8_len.simps)

lemma utf8_ok_ascii: "\<forall>c \<in> set s. c < CHR 0x80 \<Longrightarrow> utf8_ok s"
  by (induction s) simp_all

lemma graphic_ascii [ascii_rules]: "is_graphic c \<Longrightarrow> c < CHR 0x80"
  by (auto simp: is_graphic_def less_eq_char_def less_char_def)

lemma utf8_ok_graphic: "\<forall>c \<in> set s. is_graphic c \<Longrightarrow> utf8_ok s"
  by (rule utf8_ok_ascii) (auto dest: graphic_ascii)

lemma utf8_ok_unlines: "\<forall>l \<in> set ls. utf8_ok l \<Longrightarrow> utf8_ok (unlines ls)"
proof (induction ls)
  case (Cons l ls)
  have "nl < CHR 0x80" by (simp add: less_char_def)
  then show ?case using Cons by (simp add: utf8_ok_append)
qed simp

text \<open>Lines of printable ASCII and spaces: every record line the daemons write is one.\<close>

definition text_line :: "string \<Rightarrow> bool" where
  "text_line l \<longleftrightarrow> list_all (\<lambda>c. is_graphic c \<or> c = sp) l"

lemma text_line_simps [simp]:
  "text_line []" "text_line (c # l) \<longleftrightarrow> (is_graphic c \<or> c = sp) \<and> text_line l"
  "text_line (k @ l) \<longleftrightarrow> text_line k \<and> text_line l"
  by (simp_all add: text_line_def)

lemma text_line_graphic: "\<forall>c \<in> set l. is_graphic c \<Longrightarrow> text_line l"
  by (simp add: text_line_def list_all_iff)

lemma text_line_num [simp]: "text_line (show_uint w)" "text_line (ipv4_show a)"
  by (simp_all add: text_line_graphic)

lemma text_line_clean: "text_line l \<Longrightarrow> clean_line l \<and> utf8_ok l"
proof -
  assume "text_line l"
  then have all: "is_graphic c \<or> c = sp" if "c \<in> set l" for c
    using that unfolding text_line_def list_all_iff by blast
  have "c \<noteq> nl \<and> c \<noteq> cr \<and> c < CHR 0x80" if "c \<in> set l" for c
    using all [OF that] graphic_not_special [of c] graphic_ascii [of c]
    by (auto simp: less_char_def)
  then show ?thesis
    using clean_lineI [of l] utf8_ok_ascii [of l] by blast
qed

lemma lines_text [simp]:
  "\<forall>l \<in> set ls. text_line l \<Longrightarrow> str_lines (unlines ls) = ls"
  "\<forall>l \<in> set ls. text_line l \<Longrightarrow> utf8_ok (unlines ls)"
  using text_line_clean by (simp_all add: utf8_ok_unlines)

section \<open>Directories\<close>

datatype io_error = InvalidInput string | OsError

record dir =
  d_files :: "(string \<times> string) list"
  d_refuse :: "string \<Rightarrow> bool"

definition empty_dir :: dir where
  "empty_dir = \<lparr>d_files = [], d_refuse = (\<lambda>_. False)\<rparr>"

definition wf_dir :: "dir \<Rightarrow> bool" where
  "wf_dir d \<longleftrightarrow> distinct (map fst (d_files d))"

definition dir_content :: "dir \<Rightarrow> string \<Rightarrow> string option" where
  "dir_content d leaf = map_of (d_files d) leaf"

definition atomic_write :: "dir \<Rightarrow> string \<Rightarrow> string \<Rightarrow> (io_error, dir) result" where
  "atomic_write d leaf body =
     (if d_refuse d leaf then Inl OsError
      else Inr (d\<lparr>d_files := AList.update leaf body (d_files d)\<rparr>))"

definition remove_if_present :: "dir \<Rightarrow> string \<Rightarrow> (io_error, dir) result" where
  "remove_if_present d leaf =
     (if dir_content d leaf = None then Inr d
      else if d_refuse d leaf then Inl OsError
      else Inr (d\<lparr>d_files := AList.delete leaf (d_files d)\<rparr>))"

definition read_to_string :: "dir \<Rightarrow> string \<Rightarrow> string option" where
  "read_to_string d leaf =
     Option.bind (dir_content d leaf) (\<lambda>b. if utf8_ok b then Some b else None)"

definition read_names :: "dir \<Rightarrow> string list" where
  "read_names d =
     filter (\<lambda>n. \<not> (str_starts_with n ''.'' \<and> str_ends_with n ''.tmp'')) (map fst (d_files d))"

text \<open>A state-changing operation: the new directory, or an error and the directory as it was.\<close>

lemma atomic_write_Inr [res_simps]:
  "atomic_write d leaf body = Inr d' \<longleftrightarrow>
     \<not> d_refuse d leaf \<and> d' = d\<lparr>d_files := AList.update leaf body (d_files d)\<rparr>"
  by (auto simp: atomic_write_def)

lemma dir_content_write:
  "atomic_write d leaf body = Inr d' \<Longrightarrow> dir_content d' k = (if k = leaf then Some body else dir_content d k)"
  by (auto simp: res_simps dir_content_def update_conv)

lemma dir_content_remove:
  "remove_if_present d leaf = Inr d' \<Longrightarrow> dir_content d' k = (if k = leaf then None else dir_content d k)"
  by (auto simp: remove_if_present_def dir_content_def delete_conv split: if_splits)

lemma wf_dir_write: "wf_dir d \<Longrightarrow> atomic_write d leaf body = Inr d' \<Longrightarrow> wf_dir d'"
  by (auto simp: res_simps wf_dir_def distinct_update)

lemma wf_dir_remove: "wf_dir d \<Longrightarrow> remove_if_present d leaf = Inr d' \<Longrightarrow> wf_dir d'"
  by (auto simp: remove_if_present_def wf_dir_def distinct_delete split: if_splits)

lemma write_refuse [simp]: "atomic_write d leaf body = Inr d' \<Longrightarrow> d_refuse d' = d_refuse d"
  by (auto simp: res_simps)

lemma remove_refuse [simp]: "remove_if_present d leaf = Inr d' \<Longrightarrow> d_refuse d' = d_refuse d"
  by (auto simp: remove_if_present_def split: if_splits)

lemma read_write:
  "atomic_write d leaf body = Inr d' \<Longrightarrow> utf8_ok body \<Longrightarrow> read_to_string d' leaf = Some body"
  by (simp add: read_to_string_def dir_content_write)

lemma read_write_other:
  "atomic_write d leaf body = Inr d' \<Longrightarrow> k \<noteq> leaf \<Longrightarrow> read_to_string d' k = read_to_string d k"
  by (simp add: read_to_string_def dir_content_write)

lemma read_remove:
  "remove_if_present d leaf = Inr d' \<Longrightarrow>
     read_to_string d' k = (if k = leaf then None else read_to_string d k)"
  by (simp add: read_to_string_def dir_content_remove)

lemma read_to_string_name: "read_to_string d k = Some b \<Longrightarrow> k \<in> fst ` set (d_files d)"
  by (auto simp: read_to_string_def dir_content_def bind_eq_Some_conv dest: map_of_SomeD
      intro: rev_image_eqI)

section \<open>One record per file\<close>

definition rec_load :: "(string \<Rightarrow> bool) \<Rightarrow> (string \<Rightarrow> string \<Rightarrow> 'r option) \<Rightarrow> dir \<Rightarrow> string \<Rightarrow> 'r option" where
  "rec_load valid dec d k =
     (if valid k then Option.bind (read_to_string d k) (dec k) else None)"

definition rec_list :: "(string \<Rightarrow> bool) \<Rightarrow> (string \<Rightarrow> string \<Rightarrow> 'r option) \<Rightarrow> ('r \<Rightarrow> string) \<Rightarrow> dir \<Rightarrow> 'r list" where
  "rec_list valid dec key d =
     sort_key key (List.map_filter (rec_load valid dec d) (read_names d))"

lemma distinct_map_filter_key:
  "distinct xs \<Longrightarrow> (\<And>x r. f x = Some r \<Longrightarrow> key r = x) \<Longrightarrow> distinct (map key (List.map_filter f xs))"
proof (induction xs)
  case (Cons x xs)
  have "key ` set (List.map_filter f xs) \<subseteq> set xs"
    using Cons.prems(2) by (force simp: List.map_filter_def)
  then show ?case
    using Cons by (cases "f x") (auto simp: List.map_filter_def dest: Cons.prems(2))
qed (simp add: List.map_filter_def)

text \<open>
  \<open>storable\<close>: the records the writer accepts.  A name the loader accepts is not one of the
  temporaries the listing skips.  \<open>record_codec\<close> is what a writer and a loader need to agree on;
  \<open>record_store\<close> adds that a record is only ever loaded under its own name, and what every record
  that loads satisfies (\<open>sound\<close>).
\<close>

locale record_codec =
  fixes valid :: "string \<Rightarrow> bool"
    and enc :: "'r \<Rightarrow> string"
    and dec :: "string \<Rightarrow> string \<Rightarrow> 'r option"
    and key :: "'r \<Rightarrow> string"
    and storable :: "'r \<Rightarrow> bool"
  assumes dec_enc: "storable r \<Longrightarrow> dec (key r) (enc r) = Some r"
    and enc_utf8: "storable r \<Longrightarrow> utf8_ok (enc r)"
    and storable_valid: "storable r \<Longrightarrow> valid (key r)"
    and valid_visible: "valid k \<Longrightarrow> \<not> str_starts_with k ''.''"
begin

lemma load_write:
  "storable r \<Longrightarrow> atomic_write d (key r) (enc r) = Inr d' \<Longrightarrow> rec_load valid dec d' (key r) = Some r"
  by (simp add: rec_load_def storable_valid read_write enc_utf8 dec_enc)

lemma load_write_other:
  "atomic_write d leaf b = Inr d' \<Longrightarrow> k \<noteq> leaf \<Longrightarrow> rec_load valid dec d' k = rec_load valid dec d k"
  by (simp add: rec_load_def read_write_other)

lemma load_write_eq:
  "storable r \<Longrightarrow> atomic_write d (key r) (enc r) = Inr d' \<Longrightarrow>
     rec_load valid dec d' k = (if k = key r then Some r else rec_load valid dec d k)"
  by (simp add: load_write load_write_other)

lemma load_remove:
  "remove_if_present d leaf = Inr d' \<Longrightarrow>
     rec_load valid dec d' k = (if k = leaf then None else rec_load valid dec d k)"
  by (simp add: rec_load_def read_remove)

lemma load_visible: "rec_load valid dec d k = Some r \<Longrightarrow> k \<in> set (read_names d)"
  using valid_visible [of k] read_to_string_name [of d k]
  by (auto simp: rec_load_def read_names_def bind_eq_Some_conv split: if_splits)

lemma set_list: "set (rec_list valid dec key d) = {r. \<exists>k. rec_load valid dec d k = Some r}"
  using load_visible by (force simp: rec_list_def List.map_filter_def)

lemma list_sorted: "sorted (map key (rec_list valid dec key d))"
  by (simp add: rec_list_def)

end

locale record_store = record_codec valid enc dec key storable
  for valid :: "string \<Rightarrow> bool"
    and enc :: "'r \<Rightarrow> string"
    and dec :: "string \<Rightarrow> string \<Rightarrow> 'r option"
    and key :: "'r \<Rightarrow> string"
    and storable :: "'r \<Rightarrow> bool" +
  fixes sound :: "'r \<Rightarrow> bool"
  assumes dec_sound: "dec k b = Some r \<Longrightarrow> key r = k \<and> sound r"
begin

lemma load_sound:
  "rec_load valid dec d k = Some r \<Longrightarrow> key r = k \<and> sound r \<and> valid k"
  by (auto simp: rec_load_def bind_eq_Some_conv dest: dec_sound split: if_splits)

lemma list_member: "r \<in> set (rec_list valid dec key d) \<longleftrightarrow> rec_load valid dec d (key r) = Some r"
  unfolding set_list using load_sound by blast

lemma list_distinct: "wf_dir d \<Longrightarrow> distinct (map key (rec_list valid dec key d))"
proof -
  assume "wf_dir d"
  then have "distinct (read_names d)"
    by (simp add: read_names_def wf_dir_def)
  then have "distinct (map key (List.map_filter (rec_load valid dec d) (read_names d)))"
    by (rule distinct_map_filter_key) (use load_sound in blast)
  then show ?thesis
    by (simp add: rec_list_def distinct_map)
qed

end

end
