(* ===== verification/Bench_Record.thy ===== *)
theory Bench_Record
  imports Fs_Model "HOL-Library.Multiset"
begin

text \<open>
  The durable records of the bench plane of \<open>gatekeeperd\<close>: \<open>bench_record.rs\<close> (one bench),
  \<open>workshop_record.rs\<close> (a reproducible recipe) and \<open>workshop_cache.rs\<close> (the index of derived
  images).  The three share one line grammar: a header, lines \<open>key value\<close>, a final \<open>END\<close>, and a
  parser that fails on the first line it does not know.  The grammar is modelled once
  (\<open>wire_body\<close>, \<open>wire_parse\<close>) and the locale \<open>wire_grammar\<close> states what a record kind needs so that
  what is written is read back; it is interpreted on the three kinds, and each is a
  \<open>record_codec\<close> of the file model.

  A field value may hold anything but a line feed or a final carriage return
  (\<open>str::lines\<close> drops one); the writers check the line feed.
\<close>

section \<open>The common line grammar\<close>

definition field_line :: "string \<times> string \<Rightarrow> string" where
  "field_line kv = fst kv @ sp # snd kv"

definition wire_body :: "string \<Rightarrow> (string \<times> string) list \<Rightarrow> string" where
  "wire_body hdr fs = unlines (hdr # map field_line fs @ [''END''])"

fun wire_loop :: "(string \<Rightarrow> string \<Rightarrow> 's \<Rightarrow> 's option) \<Rightarrow> 's \<Rightarrow> string list \<Rightarrow> 's option" where
  "wire_loop step st [] = None"
| "wire_loop step st (l # ls) =
     (if l = ''END'' then Some st
      else do {
        (k, v) \<leftarrow> str_split_once sp l;
        st' \<leftarrow> step k v st;
        wire_loop step st' ls
      })"

definition wire_parse :: "string \<Rightarrow> (string \<Rightarrow> string \<Rightarrow> 's \<Rightarrow> 's option) \<Rightarrow> 's \<Rightarrow> string \<Rightarrow> 's option" where
  "wire_parse hdr step st body =
     (case str_lines body of
        [] \<Rightarrow> None
      | h # ls \<Rightarrow> if h = hdr then wire_loop step st ls else None)"

fun steps :: "(string \<Rightarrow> string \<Rightarrow> 's \<Rightarrow> 's option) \<Rightarrow> (string \<times> string) list \<Rightarrow> 's \<Rightarrow> 's option" where
  "steps step [] st = Some st"
| "steps step ((k, v) # fs) st = Option.bind (step k v st) (steps step fs)"

definition line_ok :: "string \<Rightarrow> bool" where
  "line_ok v \<longleftrightarrow> nl \<notin> set v \<and> (v \<noteq> [] \<longrightarrow> last v \<noteq> cr) \<and> utf8_ok v"

definition plain_key :: "string \<Rightarrow> bool" where
  "plain_key k \<longleftrightarrow> list_all is_graphic k"

definition field_ok :: "string \<times> string \<Rightarrow> bool" where
  "field_ok kv \<longleftrightarrow> plain_key (fst kv) \<and> line_ok (snd kv)"

lemma sp_not_graphic [simp]: "\<not> is_graphic sp"
  by (simp add: is_graphic_def)

lemma line_ok_graphic: "(\<forall>c \<in> set v. is_graphic c) \<Longrightarrow> line_ok v"
  using graphic_clean [of v] utf8_ok_graphic [of v] by (simp add: line_ok_def clean_line_def)

lemma line_ok_num [simp]: "line_ok (show_uint w)"
  by (rule line_ok_graphic) simp

lemma field_line_clean: "field_ok kv \<Longrightarrow> clean_line (field_line kv) \<and> utf8_ok (field_line kv)"
proof -
  assume ok: "field_ok kv"
  then have k: "\<forall>c \<in> set (fst kv). is_graphic c" and v: "line_ok (snd kv)"
    by (simp_all add: field_ok_def plain_key_def list_all_iff)
  have "sp < CHR 0x80" by (simp add: less_char_def)
  then have "utf8_ok (field_line kv)"
    using k v utf8_ok_graphic [OF k] by (simp add: field_line_def line_ok_def utf8_ok_append)
  moreover have "nl \<notin> set (fst kv)"
    using k graphic_not_special by blast
  then have "clean_line (field_line kv)"
    using v by (auto simp: field_line_def clean_line_def line_ok_def)
  ultimately show ?thesis by blast
qed

lemma split_field_line: "field_ok kv \<Longrightarrow> str_split_once sp (field_line kv) = Some kv"
proof -
  assume "field_ok kv"
  then have "sp \<notin> set (fst kv)"
    by (auto simp: field_ok_def plain_key_def list_all_iff dest: graphic_not_special)
  then show ?thesis by (simp add: field_line_def)
qed

lemma field_line_not_END: "field_line kv \<noteq> ''END''"
proof
  assume "field_line kv = ''END''"
  then have "sp \<in> set ''END''" by (metis field_line_def in_set_conv_decomp)
  then show False by simp
qed

lemma wire_loop_fields:
  "list_all field_ok fs \<Longrightarrow> wire_loop step st (map field_line fs @ ''END'' # rest) = steps step fs st"
proof (induction fs arbitrary: st)
  case (Cons kv fs)
  then show ?case
    by (cases kv) (auto simp: field_line_not_END split_field_line split: bind_split)
qed simp

lemma steps_append: "steps step (xs @ ys) st = Option.bind (steps step xs st) (steps step ys)"
  by (induction step xs st rule: steps.induct) (auto split: bind_split)

locale wire_grammar =
  fixes hdr :: string
    and step :: "string \<Rightarrow> string \<Rightarrow> 's \<Rightarrow> 's option"
    and init :: 's
    and finish :: "'s \<Rightarrow> 'r option"
    and fields :: "'r \<Rightarrow> (string \<times> string) list"
    and storable :: "'r \<Rightarrow> bool"
  assumes hdr_text: "text_line hdr"
    and fields_ok: "storable r \<Longrightarrow> list_all field_ok (fields r)"
    and steps_fields: "storable r \<Longrightarrow> Option.bind (steps step (fields r) init) finish = Some r"
begin

lemma body_utf8: "storable r \<Longrightarrow> utf8_ok (wire_body hdr (fields r))"
proof -
  assume "storable r"
  then have "\<forall>l \<in> set (hdr # map field_line (fields r) @ [''END'']). utf8_ok l"
    using fields_ok field_line_clean hdr_text text_line_clean
    by (auto simp: list_all_iff)
  then show ?thesis
    unfolding wire_body_def by (rule utf8_ok_unlines)
qed

lemma parse_body:
  "storable r \<Longrightarrow> Option.bind (wire_parse hdr step init (wire_body hdr (fields r))) finish = Some r"
proof -
  assume st: "storable r"
  have "clean_line ''END''" by (rule clean_lineI) simp_all
  then have "\<forall>l \<in> set (hdr # map field_line (fields r) @ [''END'']). clean_line l"
    using fields_ok [OF st] field_line_clean hdr_text text_line_clean by (auto simp: list_all_iff)
  then have "str_lines (wire_body hdr (fields r)) = hdr # map field_line (fields r) @ [''END'']"
    unfolding wire_body_def by (rule str_lines_unlines)
  then show ?thesis
    using fields_ok [OF st] steps_fields [OF st] by (simp add: wire_parse_def wire_loop_fields)
qed

end

section \<open>Names and tokens\<close>

definition valid_bench_name :: "string \<Rightarrow> bool" where
  "valid_bench_name name \<longleftrightarrow>
     name \<noteq> [] \<and> name \<noteq> ''.'' \<and> name \<noteq> ''..'' \<and> length name \<le> 64
     \<and> \<not> str_starts_with name ''.'' \<and> list_all token_byte name"

definition pkg_byte :: "char \<Rightarrow> bool" where
  "pkg_byte b \<longleftrightarrow> is_alnum b \<or> b \<in> set ''.-_+=:~''"

definition valid_pkg_token :: "string \<Rightarrow> bool" where
  "valid_pkg_token s \<longleftrightarrow>
     s \<noteq> [] \<and> length s \<le> 128 \<and> \<not> str_starts_with s ''-'' \<and> list_all pkg_byte s"

definition key_byte :: "char \<Rightarrow> bool" where
  "key_byte b \<longleftrightarrow> is_digit b \<or> (CHR ''a'' \<le> b \<and> b \<le> CHR ''f'')"

definition valid_cache_key :: "string \<Rightarrow> bool" where
  "valid_cache_key s \<longleftrightarrow> length s = 64 \<and> list_all key_byte s"

lemma pkg_byte_graphic [ascii_rules]: "pkg_byte c \<Longrightarrow> is_graphic c"
  unfolding pkg_byte_def by (auto dest: alnum_graphic) (simp_all add: is_graphic_def)

lemma key_byte_graphic [ascii_rules]: "key_byte c \<Longrightarrow> is_graphic c"
  unfolding key_byte_def is_graphic_def
  by (erule disjE, drule digit_graphic, simp add: is_graphic_def, erule conjE, erule (1) char_le_trans3)
    simp_all

lemma bench_name_graphic: "valid_bench_name n \<Longrightarrow> \<forall>c \<in> set n. is_graphic c"
  by (auto simp: valid_bench_name_def list_all_iff dest: token_byte_graphic)

lemma bench_name_line: "valid_bench_name n \<Longrightarrow> line_ok n"
  by (rule line_ok_graphic) (rule bench_name_graphic)

lemma pkg_token_line: "valid_pkg_token p \<Longrightarrow> line_ok p"
  by (rule line_ok_graphic) (auto simp: valid_pkg_token_def list_all_iff dest: pkg_byte_graphic)

lemma cache_key_line: "valid_cache_key k \<Longrightarrow> line_ok k"
  by (rule line_ok_graphic) (auto simp: valid_cache_key_def list_all_iff dest: key_byte_graphic)

lemma bench_name_visible: "valid_bench_name k \<Longrightarrow> \<not> str_starts_with k ''.''"
  by (simp add: valid_bench_name_def)

lemma dot_not_key_byte: "\<not> key_byte (CHR ''.'')"
  by (simp add: key_byte_def is_digit_def)

lemma cache_key_visible: "valid_cache_key k \<Longrightarrow> \<not> str_starts_with k ''.''"
  using dot_not_key_byte by (cases k) (auto simp: valid_cache_key_def str_starts_with_def)

section \<open>Bench records\<close>

record bench_record =
  bn_name :: string
  bn_id :: string
  bn_project :: u32
  bn_quota_kib :: u64
  bn_created :: u64
  bn_state :: string
  bn_seed :: string
  bn_grants :: "string list"
  bn_exports :: "string list"

definition bench_fields :: "bench_record \<Rightarrow> (string \<times> string) list" where
  "bench_fields r =
     [(''name'', bn_name r), (''id'', bn_id r), (''project'', show_uint (bn_project r)),
      (''quota_kib'', show_uint (bn_quota_kib r)), (''created'', show_uint (bn_created r)),
      (''state'', bn_state r), (''seed'', bn_seed r)]
     @ map (Pair ''grant'') (bn_grants r) @ map (Pair ''export'') (bn_exports r)"

definition bench_to_wire :: "bench_record \<Rightarrow> string" where
  "bench_to_wire r = wire_body ''SHREK-BENCH 1'' (bench_fields r)"

record bench_slots =
  bs_name :: "string option"
  bs_id :: "string option"
  bs_project :: "u32 option"
  bs_quota_kib :: "u64 option"
  bs_created :: "u64 option"
  bs_state :: "string option"
  bs_seed :: "string option"
  bs_grants :: "string list"
  bs_exports :: "string list"

definition bench_init :: bench_slots where
  "bench_init = \<lparr>bs_name = None, bs_id = None, bs_project = None, bs_quota_kib = None,
     bs_created = None, bs_state = None, bs_seed = None, bs_grants = [], bs_exports = []\<rparr>"

definition bench_step :: "string \<Rightarrow> string \<Rightarrow> bench_slots \<Rightarrow> bench_slots option" where
  "bench_step k v st =
     (if k = ''name'' then Some (st\<lparr>bs_name := Some v\<rparr>)
      else if k = ''id'' then Some (st\<lparr>bs_id := Some v\<rparr>)
      else if k = ''project'' then map_option (\<lambda>n. st\<lparr>bs_project := Some n\<rparr>) (parse_uint v)
      else if k = ''quota_kib'' then map_option (\<lambda>n. st\<lparr>bs_quota_kib := Some n\<rparr>) (parse_uint v)
      else if k = ''created'' then map_option (\<lambda>n. st\<lparr>bs_created := Some n\<rparr>) (parse_uint v)
      else if k = ''state'' then Some (st\<lparr>bs_state := Some v\<rparr>)
      else if k = ''seed'' then Some (st\<lparr>bs_seed := Some v\<rparr>)
      else if k = ''grant'' then Some (st\<lparr>bs_grants := bs_grants st @ [v]\<rparr>)
      else if k = ''export'' then Some (st\<lparr>bs_exports := bs_exports st @ [v]\<rparr>)
      else None)"

definition bench_finish :: "bench_slots \<Rightarrow> bench_record option" where
  "bench_finish st = do {
     name \<leftarrow> bs_name st; id \<leftarrow> bs_id st; project \<leftarrow> bs_project st; quota \<leftarrow> bs_quota_kib st;
     created \<leftarrow> bs_created st; state \<leftarrow> bs_state st;
     if valid_bench_name name
     then Some \<lparr>bn_name = name, bn_id = id, bn_project = project, bn_quota_kib = quota,
                 bn_created = created, bn_state = state,
                 bn_seed = (case bs_seed st of None \<Rightarrow> ''scratch'' | Some s \<Rightarrow> s),
                 bn_grants = bs_grants st, bn_exports = bs_exports st\<rparr>
     else None }"

definition bench_from_wire :: "string \<Rightarrow> bench_record option" where
  "bench_from_wire body =
     Option.bind (wire_parse ''SHREK-BENCH 1'' bench_step bench_init body) bench_finish"

definition bench_write_record :: "dir \<Rightarrow> bench_record \<Rightarrow> (io_error, dir) result" where
  "bench_write_record d r =
     (if \<not> valid_bench_name (bn_name r) then Inl (InvalidInput ''invalid bench name'')
      else if list_ex (\<lambda>g. nl \<in> set g) (bn_grants r)
      then Inl (InvalidInput ''grant path contains newline'')
      else if list_ex (\<lambda>e. nl \<in> set e) (bn_exports r)
      then Inl (InvalidInput ''export entry contains newline'')
      else atomic_write d (bn_name r) (bench_to_wire r))"

definition bench_load_record :: "dir \<Rightarrow> string \<Rightarrow> bench_record option" where
  "bench_load_record d name =
     (if \<not> valid_bench_name name then None
      else Option.bind (read_to_string d name) bench_from_wire)"

definition bench_remove_record :: "dir \<Rightarrow> string \<Rightarrow> (io_error, dir) result" where
  "bench_remove_record d name =
     (if \<not> valid_bench_name name then Inl (InvalidInput ''invalid bench name'')
      else remove_if_present d name)"

text \<open>The loader's file names are those \<open>read_dir\<close> yields that do not begin with a dot.\<close>

definition bench_list_records :: "dir \<Rightarrow> bench_record list" where
  "bench_list_records d =
     sort_key bn_name (List.map_filter (bench_load_record d)
       (filter (\<lambda>n. \<not> str_starts_with n ''.'') (map fst (d_files d))))"

definition PROJECT_ID_BASE :: u32 where
  "PROJECT_ID_BASE = 100000"

text \<open>
  The search for a free project id: the numbers tried are \<open>PROJECT_ID_BASE, PROJECT_ID_BASE + 1, ..\<close>;
  one more than there are used ids suffices.
\<close>

fun first_unused :: "nat \<Rightarrow> u32 set \<Rightarrow> u32 \<Rightarrow> u32" where
  "first_unused 0 used p = p"
| "first_unused (Suc n) used p = (if p \<in> used then first_unused n used (p + 1) else p)"

definition next_project_id :: "bench_record list \<Rightarrow> u32" where
  "next_project_id rs =
     (let used = set (filter (\<lambda>p. PROJECT_ID_BASE \<le> p) (map bn_project rs))
      in first_unused (length rs) used PROJECT_ID_BASE)"

section \<open>Workshop recipes\<close>

record workshop_record =
  ws_name :: string
  ws_seed :: string
  ws_created :: u64
  ws_source :: string
  ws_apt :: "string list"
  ws_pip :: "string list"
  ws_grants :: "string list"
  ws_exports :: "string list"

definition workshop_fields :: "workshop_record \<Rightarrow> (string \<times> string) list" where
  "workshop_fields r =
     [(''name'', ws_name r), (''seed'', ws_seed r), (''created'', show_uint (ws_created r)),
      (''source'', ws_source r)]
     @ map (Pair ''apt'') (ws_apt r) @ map (Pair ''pip'') (ws_pip r)
     @ map (Pair ''grant'') (ws_grants r) @ map (Pair ''export'') (ws_exports r)"

definition workshop_to_wire :: "workshop_record \<Rightarrow> string" where
  "workshop_to_wire r = wire_body ''SHREK-WORKSHOP 1'' (workshop_fields r)"

record workshop_slots =
  wl_name :: "string option"
  wl_seed :: "string option"
  wl_created :: "u64 option"
  wl_source :: "string option"
  wl_apt :: "string list"
  wl_pip :: "string list"
  wl_grants :: "string list"
  wl_exports :: "string list"

definition workshop_init :: workshop_slots where
  "workshop_init = \<lparr>wl_name = None, wl_seed = None, wl_created = None, wl_source = None,
     wl_apt = [], wl_pip = [], wl_grants = [], wl_exports = []\<rparr>"

definition workshop_step :: "string \<Rightarrow> string \<Rightarrow> workshop_slots \<Rightarrow> workshop_slots option" where
  "workshop_step k v st =
     (if k = ''name'' then Some (st\<lparr>wl_name := Some v\<rparr>)
      else if k = ''seed'' then Some (st\<lparr>wl_seed := Some v\<rparr>)
      else if k = ''created'' then map_option (\<lambda>n. st\<lparr>wl_created := Some n\<rparr>) (parse_uint v)
      else if k = ''source'' then Some (st\<lparr>wl_source := Some v\<rparr>)
      else if k = ''apt'' then
        (if valid_pkg_token v then Some (st\<lparr>wl_apt := wl_apt st @ [v]\<rparr>) else None)
      else if k = ''pip'' then
        (if valid_pkg_token v then Some (st\<lparr>wl_pip := wl_pip st @ [v]\<rparr>) else None)
      else if k = ''grant'' then Some (st\<lparr>wl_grants := wl_grants st @ [v]\<rparr>)
      else if k = ''export'' then Some (st\<lparr>wl_exports := wl_exports st @ [v]\<rparr>)
      else None)"

definition workshop_finish :: "workshop_slots \<Rightarrow> workshop_record option" where
  "workshop_finish st = do {
     name \<leftarrow> wl_name st; seed \<leftarrow> wl_seed st; created \<leftarrow> wl_created st; source \<leftarrow> wl_source st;
     if valid_bench_name name
     then Some \<lparr>ws_name = name, ws_seed = seed, ws_created = created, ws_source = source,
                 ws_apt = wl_apt st, ws_pip = wl_pip st, ws_grants = wl_grants st,
                 ws_exports = wl_exports st\<rparr>
     else None }"

definition workshop_from_wire :: "string \<Rightarrow> workshop_record option" where
  "workshop_from_wire body =
     Option.bind (wire_parse ''SHREK-WORKSHOP 1'' workshop_step workshop_init body) workshop_finish"

definition workshop_write_record :: "dir \<Rightarrow> workshop_record \<Rightarrow> (io_error, dir) result" where
  "workshop_write_record d r =
     (if \<not> valid_bench_name (ws_name r) then Inl (InvalidInput ''invalid workshop name'')
      else if list_ex (\<lambda>p. \<not> valid_pkg_token p) (ws_apt r @ ws_pip r)
      then Inl (InvalidInput ''invalid package token'')
      else if list_ex (\<lambda>l. nl \<in> set l) (ws_grants r @ ws_exports r)
      then Inl (InvalidInput ''grant/export entry contains newline'')
      else atomic_write d (ws_name r) (workshop_to_wire r))"

definition workshop_load_record :: "dir \<Rightarrow> string \<Rightarrow> workshop_record option" where
  "workshop_load_record d name =
     (if \<not> valid_bench_name name then None
      else Option.bind (read_to_string d name) workshop_from_wire)"

definition workshop_remove_record :: "dir \<Rightarrow> string \<Rightarrow> (io_error, dir) result" where
  "workshop_remove_record d name =
     (if \<not> valid_bench_name name then Inl (InvalidInput ''invalid workshop name'')
      else remove_if_present d name)"

definition workshop_list_records :: "dir \<Rightarrow> workshop_record list" where
  "workshop_list_records d =
     sort_key ws_name (List.map_filter (workshop_load_record d)
       (filter (\<lambda>n. \<not> str_starts_with n ''.'') (map fst (d_files d))))"

section \<open>The index of derived images\<close>

record cache_record =
  cr_key :: string
  cr_image :: string
  cr_image_id :: string
  cr_seed_id :: string
  cr_created :: u64
  cr_apt :: "string list"
  cr_pip :: "string list"

definition image_tag :: "string \<Rightarrow> string" where
  "image_tag key = ''localhost/shrek-cache/'' @ (if length key < 12 then key else take 12 key)"

definition cache_line :: "string \<Rightarrow> string \<Rightarrow> string" where
  "cache_line label item = label @ ''='' @ item"

definition canonical_key_input :: "string \<Rightarrow> string list \<Rightarrow> string list \<Rightarrow> string list \<Rightarrow> string" where
  "canonical_key_input seed_id apt pip egress =
     unlines ([''schema=1'', cache_line ''seed'' seed_id]
       @ map (cache_line ''apt'') (sort apt) @ map (cache_line ''pip'') (sort pip)
       @ map (cache_line ''egress'') (sort egress))"

definition cache_fields :: "cache_record \<Rightarrow> (string \<times> string) list" where
  "cache_fields r =
     [(''key'', cr_key r), (''image'', cr_image r), (''image-id'', cr_image_id r),
      (''seed-id'', cr_seed_id r), (''created'', show_uint (cr_created r))]
     @ map (Pair ''apt-resolved'') (cr_apt r) @ map (Pair ''pip-resolved'') (cr_pip r)"

definition cache_to_wire :: "cache_record \<Rightarrow> string" where
  "cache_to_wire r = wire_body ''SHREK-CACHE 1'' (cache_fields r)"

record cache_slots =
  cs_key :: "string option"
  cs_image :: "string option"
  cs_image_id :: "string option"
  cs_seed_id :: "string option"
  cs_created :: "u64 option"
  cs_apt :: "string list"
  cs_pip :: "string list"

definition cache_init :: cache_slots where
  "cache_init = \<lparr>cs_key = None, cs_image = None, cs_image_id = None, cs_seed_id = None,
     cs_created = None, cs_apt = [], cs_pip = []\<rparr>"

definition cache_step :: "string \<Rightarrow> string \<Rightarrow> cache_slots \<Rightarrow> cache_slots option" where
  "cache_step k v st =
     (if k = ''key'' then Some (st\<lparr>cs_key := Some v\<rparr>)
      else if k = ''image'' then Some (st\<lparr>cs_image := Some v\<rparr>)
      else if k = ''image-id'' then Some (st\<lparr>cs_image_id := Some v\<rparr>)
      else if k = ''seed-id'' then Some (st\<lparr>cs_seed_id := Some v\<rparr>)
      else if k = ''created'' then map_option (\<lambda>n. st\<lparr>cs_created := Some n\<rparr>) (parse_uint v)
      else if k = ''apt-resolved'' then Some (st\<lparr>cs_apt := cs_apt st @ [v]\<rparr>)
      else if k = ''pip-resolved'' then Some (st\<lparr>cs_pip := cs_pip st @ [v]\<rparr>)
      else None)"

definition cache_finish :: "cache_slots \<Rightarrow> cache_record option" where
  "cache_finish st = do {
     key \<leftarrow> cs_key st; image \<leftarrow> cs_image st; image_id \<leftarrow> cs_image_id st; seed_id \<leftarrow> cs_seed_id st;
     created \<leftarrow> cs_created st;
     if valid_cache_key key \<and> image \<noteq> [] \<and> image_id \<noteq> []
     then Some \<lparr>cr_key = key, cr_image = image, cr_image_id = image_id, cr_seed_id = seed_id,
                 cr_created = created, cr_apt = cs_apt st, cr_pip = cs_pip st\<rparr>
     else None }"

definition cache_from_wire :: "string \<Rightarrow> cache_record option" where
  "cache_from_wire body =
     Option.bind (wire_parse ''SHREK-CACHE 1'' cache_step cache_init body) cache_finish"

definition cache_write_record :: "dir \<Rightarrow> cache_record \<Rightarrow> (io_error, dir) result" where
  "cache_write_record d r =
     (if \<not> valid_cache_key (cr_key r) then Inl (InvalidInput ''invalid cache key'')
      else if cr_image r = [] \<or> cr_image_id r = []
      then Inl (InvalidInput ''cache record missing image/id'')
      else if list_ex (\<lambda>l. nl \<in> set l) (cr_apt r @ cr_pip r)
      then Inl (InvalidInput ''resolved-version line contains newline'')
      else atomic_write d (cr_key r) (cache_to_wire r))"

definition cache_load_record :: "dir \<Rightarrow> string \<Rightarrow> cache_record option" where
  "cache_load_record d key =
     (if \<not> valid_cache_key key then None
      else do {
        body \<leftarrow> read_to_string d key;
        r \<leftarrow> cache_from_wire body;
        if cr_key r = key then Some r else None })"

definition cache_remove_record :: "dir \<Rightarrow> string \<Rightarrow> (io_error, dir) result" where
  "cache_remove_record d key =
     (if \<not> valid_cache_key key then Inl (InvalidInput ''invalid cache key'')
      else remove_if_present d key)"

section \<open>Facts about the grammars\<close>

definition storable_bench :: "bench_record \<Rightarrow> bool" where
  "storable_bench r \<longleftrightarrow>
     valid_bench_name (bn_name r) \<and> line_ok (bn_id r) \<and> line_ok (bn_state r) \<and> line_ok (bn_seed r)
     \<and> list_all line_ok (bn_grants r) \<and> list_all line_ok (bn_exports r)"

definition storable_workshop :: "workshop_record \<Rightarrow> bool" where
  "storable_workshop r \<longleftrightarrow>
     valid_bench_name (ws_name r) \<and> line_ok (ws_seed r) \<and> line_ok (ws_source r)
     \<and> list_all valid_pkg_token (ws_apt r) \<and> list_all valid_pkg_token (ws_pip r)
     \<and> list_all line_ok (ws_grants r) \<and> list_all line_ok (ws_exports r)"

definition storable_cache :: "cache_record \<Rightarrow> bool" where
  "storable_cache r \<longleftrightarrow>
     valid_cache_key (cr_key r) \<and> cr_image r \<noteq> [] \<and> cr_image_id r \<noteq> [] \<and> line_ok (cr_image r)
     \<and> line_ok (cr_image_id r) \<and> line_ok (cr_seed_id r)
     \<and> list_all line_ok (cr_apt r) \<and> list_all line_ok (cr_pip r)"

lemma field_ok_map:
  "list_all field_ok (map (Pair k) vs) \<longleftrightarrow> (vs = [] \<or> plain_key k) \<and> list_all line_ok vs"
  by (auto simp: field_ok_def list_all_iff neq_Nil_conv)

lemma bench_steps_grant:
  "steps bench_step (map (Pair ''grant'') vs) st = Some (st\<lparr>bs_grants := bs_grants st @ vs\<rparr>)"
  by (induction vs arbitrary: st) (simp_all add: bench_step_def)

lemma bench_steps_export:
  "steps bench_step (map (Pair ''export'') vs) st = Some (st\<lparr>bs_exports := bs_exports st @ vs\<rparr>)"
  by (induction vs arbitrary: st) (simp_all add: bench_step_def)

lemma workshop_steps_apt:
  "list_all valid_pkg_token vs \<Longrightarrow>
     steps workshop_step (map (Pair ''apt'') vs) st = Some (st\<lparr>wl_apt := wl_apt st @ vs\<rparr>)"
  by (induction vs arbitrary: st) (simp_all add: workshop_step_def)

lemma workshop_steps_pip:
  "list_all valid_pkg_token vs \<Longrightarrow>
     steps workshop_step (map (Pair ''pip'') vs) st = Some (st\<lparr>wl_pip := wl_pip st @ vs\<rparr>)"
  by (induction vs arbitrary: st) (simp_all add: workshop_step_def)

lemma workshop_steps_grant:
  "steps workshop_step (map (Pair ''grant'') vs) st = Some (st\<lparr>wl_grants := wl_grants st @ vs\<rparr>)"
  by (induction vs arbitrary: st) (simp_all add: workshop_step_def)

lemma workshop_steps_export:
  "steps workshop_step (map (Pair ''export'') vs) st = Some (st\<lparr>wl_exports := wl_exports st @ vs\<rparr>)"
  by (induction vs arbitrary: st) (simp_all add: workshop_step_def)

lemma cache_steps_apt:
  "steps cache_step (map (Pair ''apt-resolved'') vs) st = Some (st\<lparr>cs_apt := cs_apt st @ vs\<rparr>)"
  by (induction vs arbitrary: st) (simp_all add: cache_step_def)

lemma cache_steps_pip:
  "steps cache_step (map (Pair ''pip-resolved'') vs) st = Some (st\<lparr>cs_pip := cs_pip st @ vs\<rparr>)"
  by (induction vs arbitrary: st) (simp_all add: cache_step_def)

lemmas field_steps = bench_steps_grant bench_steps_export workshop_steps_apt workshop_steps_pip
  workshop_steps_grant workshop_steps_export cache_steps_apt cache_steps_pip

lemma keys_graphic [simp]:
  "plain_key ''name''" "plain_key ''id''" "plain_key ''project''"
  "plain_key ''created''" "plain_key ''state''" "plain_key ''seed''"
  "plain_key ''grant''" "plain_key ''export''" "plain_key ''source''"
  "plain_key ''apt''" "plain_key ''pip''" "plain_key ''key''"
  "plain_key ''image''"
  by code_simp+

lemma keys_graphic_punct [simp]:
  "plain_key ''quota_kib''" "plain_key ''image-id''"
  "plain_key ''seed-id''" "plain_key ''apt-resolved''"
  "plain_key ''pip-resolved''"
  by code_simp+

lemma hdrs_text:
  "text_line ''SHREK-BENCH 1''" "text_line ''SHREK-WORKSHOP 1''" "text_line ''SHREK-CACHE 1''"
  by code_simp+

interpretation benchg: wire_grammar "''SHREK-BENCH 1''" bench_step bench_init bench_finish
  bench_fields storable_bench
proof
  fix r
  assume st: "storable_bench r"
  then show "list_all field_ok (bench_fields r)"
    by (simp add: bench_fields_def storable_bench_def field_ok_map field_ok_def bench_name_line)
  show "Option.bind (steps bench_step (bench_fields r) bench_init) bench_finish = Some r"
    using st
    by (simp add: bench_fields_def steps_append bench_steps_grant bench_steps_export)
      (simp add: bench_step_def bench_init_def bench_finish_def storable_bench_def)
qed (rule hdrs_text)

interpretation workshopg: wire_grammar "''SHREK-WORKSHOP 1''" workshop_step workshop_init
  workshop_finish workshop_fields storable_workshop
proof
  fix r
  assume st: "storable_workshop r"
  then have "list_all line_ok (ws_apt r)" "list_all line_ok (ws_pip r)"
    by (auto simp: storable_workshop_def list_all_iff pkg_token_line)
  with st show "list_all field_ok (workshop_fields r)"
    by (simp add: workshop_fields_def storable_workshop_def field_ok_map field_ok_def bench_name_line)
  show "Option.bind (steps workshop_step (workshop_fields r) workshop_init) workshop_finish = Some r"
    using st
    by (simp add: workshop_fields_def steps_append field_steps storable_workshop_def)
      (simp add: workshop_step_def workshop_init_def workshop_finish_def)
qed (rule hdrs_text)

interpretation cacheg: wire_grammar "''SHREK-CACHE 1''" cache_step cache_init cache_finish
  cache_fields storable_cache
proof
  fix r
  assume st: "storable_cache r"
  then show "list_all field_ok (cache_fields r)"
    by (simp add: cache_fields_def storable_cache_def field_ok_map field_ok_def cache_key_line)
  show "Option.bind (steps cache_step (cache_fields r) cache_init) cache_finish = Some r"
    using st
    by (simp add: cache_fields_def steps_append cache_steps_apt cache_steps_pip)
      (simp add: cache_step_def cache_init_def cache_finish_def storable_cache_def)
qed (rule hdrs_text)

section \<open>The three directories of records\<close>

interpretation benches: record_codec valid_bench_name bench_to_wire "\<lambda>_. bench_from_wire" bn_name
  storable_bench
  by unfold_locales
    (simp_all add: bench_from_wire_def bench_to_wire_def benchg.parse_body benchg.body_utf8
      bench_name_visible, simp add: storable_bench_def)

interpretation workshops: record_codec valid_bench_name workshop_to_wire "\<lambda>_. workshop_from_wire"
  ws_name storable_workshop
  by unfold_locales
    (simp_all add: workshop_from_wire_def workshop_to_wire_def workshopg.parse_body
      workshopg.body_utf8 bench_name_visible, simp add: storable_workshop_def)

definition cache_decode :: "string \<Rightarrow> string \<Rightarrow> cache_record option" where
  "cache_decode key body =
     Option.bind (cache_from_wire body) (\<lambda>r. if cr_key r = key then Some r else None)"

lemma cache_finish_sound:
  "cache_finish st = Some r \<Longrightarrow> valid_cache_key (cr_key r) \<and> cr_image r \<noteq> [] \<and> cr_image_id r \<noteq> []"
  by (auto simp: cache_finish_def Option.bind_eq_Some_conv split: if_splits)

interpretation cache: record_store valid_cache_key cache_to_wire cache_decode cr_key storable_cache
  "\<lambda>r. cr_image r \<noteq> [] \<and> cr_image_id r \<noteq> []"
proof
  fix r
  assume st: "storable_cache r"
  then show "cache_decode (cr_key r) (cache_to_wire r) = Some r"
    by (simp add: cache_decode_def cache_from_wire_def cache_to_wire_def cacheg.parse_body)
  show "utf8_ok (cache_to_wire r)"
    using st by (simp add: cache_to_wire_def cacheg.body_utf8)
  show "valid_cache_key (cr_key r)"
    using st by (simp add: storable_cache_def)
next
  fix k b r
  show "cache_decode k b = Some r \<Longrightarrow> cr_key r = k \<and> cr_image r \<noteq> [] \<and> cr_image_id r \<noteq> []"
    by (auto simp: cache_decode_def cache_from_wire_def Option.bind_eq_Some_conv split: if_splits
        dest!: cache_finish_sound)
qed (rule cache_key_visible)

lemma bench_load_eq: "bench_load_record = rec_load valid_bench_name (\<lambda>_. bench_from_wire)"
  by (intro ext) (simp add: bench_load_record_def rec_load_def)

lemma workshop_load_eq: "workshop_load_record = rec_load valid_bench_name (\<lambda>_. workshop_from_wire)"
  by (intro ext) (simp add: workshop_load_record_def rec_load_def)

lemma cache_load_eq: "cache_load_record = rec_load valid_cache_key cache_decode"
proof (intro ext)
  fix d k
  show "cache_load_record d k = rec_load valid_cache_key cache_decode d k"
    by (simp add: cache_load_record_def rec_load_def cache_decode_def [abs_def])
qed

lemma line_ok_newline: "list_all line_ok vs \<Longrightarrow> \<not> list_ex (\<lambda>v. nl \<in> set v) vs"
  by (auto simp: list_all_iff list_ex_iff line_ok_def)

lemma bench_write_storable:
  "storable_bench r \<Longrightarrow> bench_write_record d r = atomic_write d (bn_name r) (bench_to_wire r)"
  using line_ok_newline by (simp add: bench_write_record_def storable_bench_def)

lemma bench_write_Inr:
  "bench_write_record d r = Inr d' \<Longrightarrow> atomic_write d (bn_name r) (bench_to_wire r) = Inr d' \<and>
     valid_bench_name (bn_name r)"
  by (auto simp: bench_write_record_def split: if_splits)

lemma bench_load_write:
  "storable_bench r \<Longrightarrow> bench_write_record d r = Inr d' \<Longrightarrow>
     bench_load_record d' k = (if k = bn_name r then Some r else bench_load_record d k)"
  unfolding bench_load_eq using benches.load_write_eq by (simp add: bench_write_storable)

text \<open>Whatever is written, no other record is touched.\<close>

lemma bench_load_write_other:
  "bench_write_record d r = Inr d' \<Longrightarrow> k \<noteq> bn_name r \<Longrightarrow> bench_load_record d' k = bench_load_record d k"
  unfolding bench_load_eq by (drule bench_write_Inr) (erule conjE, rule benches.load_write_other)

lemma bench_load_remove:
  "bench_remove_record d n = Inr d' \<Longrightarrow>
     bench_load_record d' k = (if k = n then None else bench_load_record d k)"
  unfolding bench_load_eq using benches.load_remove
  by (auto simp: bench_remove_record_def split: if_splits)

lemma bench_load_name: "bench_load_record d k = Some r \<Longrightarrow> valid_bench_name k \<and> valid_bench_name (bn_name r)"
  by (auto simp: bench_load_record_def bench_from_wire_def bench_finish_def Option.bind_eq_Some_conv
      split: if_splits)

lemma set_map_filter_visible:
  assumes "\<And>k r. f k = Some r \<Longrightarrow> k \<in> set ks"
  shows "set (List.map_filter f ks) = {r. \<exists>k. f k = Some r}"
proof -
  have "set (List.map_filter f ks) = {r. \<exists>k \<in> set ks. f k = Some r}"
    by (induction ks) (auto simp: List.map_filter_simps split: option.splits)
  then show ?thesis
    using assms by blast
qed

lemma bench_load_visible:
  "bench_load_record d k = Some r \<Longrightarrow>
     k \<in> set (filter (\<lambda>n. \<not> str_starts_with n ''.'') (map fst (d_files d)))"
  using bench_name_visible [of k] read_to_string_name [of d k]
  by (auto simp: bench_load_record_def Option.bind_eq_Some_conv split: if_splits)

lemma bench_list_set: "set (bench_list_records d) = {r. \<exists>k. bench_load_record d k = Some r}"
  unfolding bench_list_records_def set_sort by (rule set_map_filter_visible) (rule bench_load_visible)

section \<open>Project ids\<close>

lemma first_unused_range: "\<exists>i \<le> n. first_unused n used p = p + of_nat i"
proof (induction n arbitrary: p)
  case 0
  show ?case by simp
next
  case (Suc n)
  show ?case
  proof (cases "p \<in> used")
    case True
    obtain i where i: "i \<le> n" "first_unused n used (p + 1) = p + 1 + of_nat i"
      using Suc by blast
    have "first_unused (Suc n) used p = p + of_nat (Suc i)"
      using True i(2) by simp
    then show ?thesis
      using i(1) Suc_le_mono by blast
  next
    case False
    then have "first_unused (Suc n) used p = p + of_nat 0" by simp
    then show ?thesis by blast
  qed
qed

lemma first_unused_fresh:
  "first_unused n used p \<in> used \<Longrightarrow> (\<lambda>i. p + of_nat i) ` {..n} \<subseteq> used"
proof (induction n arbitrary: p)
  case (Suc n)
  show ?case
  proof (cases "p \<in> used")
    case True
    then have "(\<lambda>i. p + 1 + of_nat i) ` {..n} \<subseteq> used"
      using Suc by simp
    moreover have "{..Suc n} = insert 0 (Suc ` {..n})"
      by (rule atMost_Suc_eq_insert_0)
    ultimately show ?thesis
      using True by (auto simp: add.assoc image_image)
  qed (use Suc in simp)
qed auto

lemma inj_offset: "n < 2 ^ 32 \<Longrightarrow> inj_on (\<lambda>i. (p :: u32) + of_nat i) {..n}"
proof (rule inj_onI)
  fix i j
  assume n: "n < (2 :: nat) ^ 32" and i: "i \<in> {..n}" "j \<in> {..n}"
    and e: "p + of_nat i = p + (of_nat j :: u32)"
  have "unat (of_nat i :: u32) = i" "unat (of_nat j :: u32) = j"
    using n i by (simp_all add: unat_of_nat)
  then show "i = j" using e by (metis add_left_cancel)
qed

lemma next_project_id_ge:
  "length rs < 2 ^ 32 - 100000 \<Longrightarrow> PROJECT_ID_BASE \<le> next_project_id rs"
proof -
  assume l: "length rs < 2 ^ 32 - 100000"
  obtain i where i: "i \<le> length rs" "next_project_id rs = PROJECT_ID_BASE + of_nat i"
    using first_unused_range by (metis next_project_id_def)
  have "unat (PROJECT_ID_BASE + of_nat i :: u32) = 100000 + i"
    using l i(1) by (simp add: PROJECT_ID_BASE_def unat_word_ariths unat_of_nat)
  then show ?thesis
    by (simp add: i(2) word_le_nat_alt PROJECT_ID_BASE_def)
qed

lemma next_project_id_fresh:
  assumes "length rs < 2 ^ 32 - 100000"
  shows "next_project_id rs \<notin> set (map bn_project rs)"
proof
  let ?used = "set (filter (\<lambda>p. PROJECT_ID_BASE \<le> p) (map bn_project rs))"
  assume "next_project_id rs \<in> set (map bn_project rs)"
  then have "first_unused (length rs) ?used PROJECT_ID_BASE \<in> ?used"
    using next_project_id_ge [OF assms] by (simp add: next_project_id_def Let_def)
  then have "(\<lambda>i. PROJECT_ID_BASE + of_nat i) ` {..length rs} \<subseteq> ?used"
    by (rule first_unused_fresh)
  then have "card ((\<lambda>i. PROJECT_ID_BASE + of_nat i) ` {..length rs}) \<le> card ?used"
    by (rule card_mono [rotated]) simp
  moreover have "card ((\<lambda>i. PROJECT_ID_BASE + of_nat i) ` {..length rs}) = Suc (length rs)"
    using inj_offset [of "length rs" PROJECT_ID_BASE] assms by (simp add: card_image)
  moreover have "card ?used \<le> length (map bn_project rs)"
    by (rule order_trans [OF card_length length_filter_le])
  ultimately show False by simp
qed

section \<open>The cache key\<close>

lemma split_unlines: "(\<forall>l \<in> set ls. nl \<notin> set l) \<Longrightarrow> str_split nl (unlines ls) = ls @ [[]]"
  by (induction ls) simp_all

lemma unlines_inject:
  "(\<forall>l \<in> set xs. nl \<notin> set l) \<Longrightarrow> (\<forall>l \<in> set ys. nl \<notin> set l) \<Longrightarrow> unlines xs = unlines ys \<longleftrightarrow> xs = ys"
  by (metis append_same_eq split_unlines)

lemma sort_eq_mset: "sort xs = sort ys \<longleftrightarrow> mset xs = mset (ys :: string list)"
  by (metis mset_sort properties_for_sort sorted_sort)

lemma cache_line_inject [simp]: "cache_line l x = cache_line l y \<longleftrightarrow> x = y"
  by (simp add: cache_line_def)

lemma cache_line_labels:
  "filter (\<lambda>l. hd l = CHR ''a'') (map (cache_line ''apt'') xs) = map (cache_line ''apt'') xs"
  "filter (\<lambda>l. hd l = CHR ''a'') (map (cache_line ''pip'') xs) = []"
  "filter (\<lambda>l. hd l = CHR ''a'') (map (cache_line ''egress'') xs) = []"
  "filter (\<lambda>l. hd l = CHR ''p'') (map (cache_line ''apt'') xs) = []"
  "filter (\<lambda>l. hd l = CHR ''p'') (map (cache_line ''pip'') xs) = map (cache_line ''pip'') xs"
  "filter (\<lambda>l. hd l = CHR ''p'') (map (cache_line ''egress'') xs) = []"
  "filter (\<lambda>l. hd l = CHR ''e'') (map (cache_line ''apt'') xs) = []"
  "filter (\<lambda>l. hd l = CHR ''e'') (map (cache_line ''pip'') xs) = []"
  "filter (\<lambda>l. hd l = CHR ''e'') (map (cache_line ''egress'') xs) = map (cache_line ''egress'') xs"
  by (simp_all add: cache_line_def filter_empty_conv filter_id_conv)

lemma labelled_inject:
  fixes a p e a' p' e' :: "string list"
  assumes eq: "map (cache_line ''apt'') a @ map (cache_line ''pip'') p @ map (cache_line ''egress'') e
         = map (cache_line ''apt'') a' @ map (cache_line ''pip'') p' @ map (cache_line ''egress'') e'"
  shows "a = a' \<and> p = p' \<and> e = e'"
proof -
  have inj: "inj (cache_line l)" for l by (rule injI) simp
  note part = arg_cong [OF eq, of "filter (\<lambda>l. hd l = c)" for c, unfolded filter_append]
  have "map (cache_line ''apt'') a = map (cache_line ''apt'') a'"
    using part [of "CHR ''a''"] by (simp only: cache_line_labels append_Nil2)
  moreover have "map (cache_line ''pip'') p = map (cache_line ''pip'') p'"
    using part [of "CHR ''p''"] by (simp only: cache_line_labels append_Nil append_Nil2)
  moreover have "map (cache_line ''egress'') e = map (cache_line ''egress'') e'"
    using part [of "CHR ''e''"] by (simp only: cache_line_labels append_Nil)
  ultimately show ?thesis
    using inj_map_eq_map [OF inj] by blast
qed

definition newline_free :: "string list \<Rightarrow> bool" where
  "newline_free vs \<longleftrightarrow> list_all (\<lambda>v. nl \<notin> set v) vs"

lemma key_lines_newline_free:
  "newline_free (seed # apt @ pip @ egress) \<Longrightarrow>
     \<forall>l \<in> set ([''schema=1'', cache_line ''seed'' seed] @ map (cache_line ''apt'') (sort apt)
       @ map (cache_line ''pip'') (sort pip) @ map (cache_line ''egress'') (sort egress)). nl \<notin> set l"
  by (auto simp: newline_free_def list_all_iff cache_line_def)

section \<open>Properties\<close>

text \<open>
  The input of a cache key identifies what was approved: two launches hash the same text exactly
  when they name the same seed image and the same multisets of apt packages, pip packages and egress
  profiles, in whatever order they are declared.
\<close>

theorem cache_key_identifies_inputs:
  assumes "newline_free (seed # apt @ pip @ egress)" "newline_free (seed' # apt' @ pip' @ egress')"
  shows "canonical_key_input seed apt pip egress = canonical_key_input seed' apt' pip' egress' \<longleftrightarrow>
    seed = seed' \<and> mset apt = mset apt' \<and> mset pip = mset pip' \<and> mset egress = mset egress'"
proof -
  have "canonical_key_input seed apt pip egress = canonical_key_input seed' apt' pip' egress' \<longleftrightarrow>
    seed = seed' \<and> map (cache_line ''apt'') (sort apt) @ map (cache_line ''pip'') (sort pip)
        @ map (cache_line ''egress'') (sort egress)
      = map (cache_line ''apt'') (sort apt') @ map (cache_line ''pip'') (sort pip')
        @ map (cache_line ''egress'') (sort egress')"
    unfolding canonical_key_input_def
    by (subst unlines_inject [OF key_lines_newline_free [OF assms(1)] key_lines_newline_free [OF assms(2)]])
      (simp only: append_Cons append_Nil list.inject cache_line_inject simp_thms)
  moreover have "map (cache_line ''apt'') (sort apt) @ map (cache_line ''pip'') (sort pip)
        @ map (cache_line ''egress'') (sort egress)
      = map (cache_line ''apt'') (sort apt') @ map (cache_line ''pip'') (sort pip')
        @ map (cache_line ''egress'') (sort egress')
    \<longleftrightarrow> sort apt = sort apt' \<and> sort pip = sort pip' \<and> sort egress = sort egress'"
    by (rule iffI, erule labelled_inject) (elim conjE, simp only:)
  ultimately show ?thesis
    by (simp only: sort_eq_mset)
qed

theorem cache_key_identifies_inputs_witness:
  "canonical_key_input ''sha'' [''b'', ''a''] [''c''] [] = canonical_key_input ''sha'' [''a'', ''b''] [''c''] []
   \<and> canonical_key_input ''sha'' [''a'', ''b''] [''c''] [] \<noteq> canonical_key_input ''sha'' [''a''] [''b'', ''c''] []"
  using cache_key_identifies_inputs [of "''sha''" "[''b'', ''a'']" "[''c'']" "[]" "''sha''" "[''a'', ''b'']" "[''c'']" "[]"]
    cache_key_identifies_inputs [of "''sha''" "[''a'', ''b'']" "[''c'']" "[]" "''sha''" "[''a'']" "[''b'', ''c'']" "[]"]
  by (simp add: newline_free_def)

text \<open>
  A bench record whose fields hold no line feed and no final carriage return is read back exactly
  as it was written; writing it or removing it leaves every other bench's record as it was.
\<close>

theorem bench_record_write_read:
  assumes "storable_bench r" "bench_write_record d r = Inr d'"
  shows "bench_load_record d' = (bench_load_record d)(bn_name r := Some r)
    \<and> bench_from_wire (bench_to_wire r) = Some r"
  using bench_load_write [OF assms] benches.dec_enc [OF assms(1)] by auto

definition sample_bench :: bench_record where
  "sample_bench = \<lparr>bn_name = ''media'', bn_id = ''media'', bn_project = 100000, bn_quota_kib = 4096,
     bn_created = 7, bn_state = ''created'', bn_seed = ''scratch'',
     bn_grants = [''fs-ro /home/dev/my music'', ''net pypi-https''], bn_exports = []\<rparr>"

lemma sample_storable: "storable_bench sample_bench"
  by code_simp

theorem bench_record_write_read_witness:
  "\<exists>d'. bench_write_record empty_dir sample_bench = Inr d' \<and> bench_load_record d' ''media'' = Some sample_bench"
proof -
  obtain d' where "bench_write_record empty_dir sample_bench = Inr d'"
    using bench_write_storable [OF sample_storable, of empty_dir] by (auto simp: atomic_write_def empty_dir_def)
  then show ?thesis
    using bench_record_write_read [OF sample_storable] by (auto simp: sample_bench_def)
qed

text \<open>
  A new bench never shares the project id (and so the disk quota) of a bench on record: the id
  allocated is at or above the base and differs from every recorded one.
\<close>

theorem project_ids_fresh:
  assumes "length (bench_list_records d) < 2 ^ 32 - 100000"
  shows "next_project_id (bench_list_records d) \<notin> bn_project ` {r. \<exists>k. bench_load_record d k = Some r}
    \<and> PROJECT_ID_BASE \<le> next_project_id (bench_list_records d)"
  using next_project_id_fresh [OF assms] next_project_id_ge [OF assms] by (simp add: bench_list_set)

theorem project_ids_fresh_witness:
  "next_project_id (bench_list_records empty_dir) \<notin> bn_project ` {r. \<exists>k. bench_load_record empty_dir k = Some r}"
  using project_ids_fresh [of empty_dir]
  by (simp add: bench_list_records_def empty_dir_def List.map_filter_simps)

end
