(* ===== verification/Policy_Egress.thy ===== *)
theory Policy_Egress
  imports Rust_Num
begin

text \<open>
  The sealed egress vocabulary of \<open>crates/shrek-policy/src\<close>: the agent profiles
  (\<open>egress.rs\<close>), the desktop profiles with their bless tiers and the raw-destination grammar
  (\<open>desktop_egress.rs\<close>), and the closed set of provider tokens (\<open>provider_bind.rs\<close>).

  Every table of the crate is looked up by name and fails closed. The locale \<open>sealed_table\<close> is
  that contract: rows with distinct names. It is interpreted on each of the tables.
\<close>

section \<open>Tables looked up by name\<close>

definition row_find :: "('a \<Rightarrow> string) \<Rightarrow> 'a list \<Rightarrow> string \<Rightarrow> 'a option" where
  "row_find key rows n = find (\<lambda>p. key p = n) rows"

locale sealed_table =
  fixes rows :: "'a list"
    and key :: "'a \<Rightarrow> string"
  assumes distinct_keys: "distinct (map key rows)"
begin

lemma find_iff: "row_find key rows n = Some p \<longleftrightarrow> p \<in> set rows \<and> key p = n"
  using distinct_keys unfolding row_find_def
  by (induction rows) (auto simp: rev_image_eqI)

lemma find_None: "row_find key rows n = None \<longleftrightarrow> n \<notin> key ` set rows"
  unfolding row_find_def by (auto simp: find_None_iff)

lemma find_row [simp]: "p \<in> set rows \<Longrightarrow> row_find key rows (key p) = Some p"
  by (simp add: find_iff)

end

section \<open>egress.rs: protocols, rules, profiles\<close>

datatype proto = Tcp | Udp

fun proto_rank :: "proto \<Rightarrow> nat" where
  "proto_rank Tcp = 0" | "proto_rank Udp = 1"

lemma proto_rank_inject [simp]: "proto_rank x = proto_rank y \<longleftrightarrow> x = y"
  by (cases x; cases y) simp_all

instantiation proto :: linorder
begin

definition less_eq_proto :: "proto \<Rightarrow> proto \<Rightarrow> bool" where
  "x \<le> y \<longleftrightarrow> proto_rank x \<le> proto_rank y"

definition less_proto :: "proto \<Rightarrow> proto \<Rightarrow> bool" where
  "x < y \<longleftrightarrow> proto_rank x < proto_rank y"

instance
  by standard (auto simp: less_eq_proto_def less_proto_def simp flip: proto_rank_inject)

end

fun proto_label :: "proto \<Rightarrow> string" where
  "proto_label Tcp = ''tcp''"
| "proto_label Udp = ''udp''"

record egress_rule =
  rule_host :: string
  rule_proto :: proto
  rule_port :: u16

record egress_profile =
  prof_name :: string
  prof_rules :: "egress_rule list"

definition mk_rule :: "string \<Rightarrow> proto \<Rightarrow> u16 \<Rightarrow> egress_rule" where
  "mk_rule h p n = \<lparr>rule_host = h, rule_proto = p, rule_port = n\<rparr>"

definition mk_profile :: "string \<Rightarrow> egress_rule list \<Rightarrow> egress_profile" where
  "mk_profile n rs = \<lparr>prof_name = n, prof_rules = rs\<rparr>"

definition prof_allows :: "egress_profile \<Rightarrow> string \<Rightarrow> proto \<Rightarrow> u16 \<Rightarrow> bool" where
  "prof_allows p h pr n \<longleftrightarrow>
     list_ex (\<lambda>r. rule_host r = h \<and> rule_proto r = pr \<and> rule_port r = n) (prof_rules p)"

definition prof_is_empty :: "egress_profile \<Rightarrow> bool" where
  "prof_is_empty p \<longleftrightarrow> prof_rules p = []"

definition SWAMP_QUERY_HOST :: string where
  "SWAMP_QUERY_HOST = ''shrek-swamp-broker''"

definition SWAMP_QUERY_PORT :: u16 where
  "SWAMP_QUERY_PORT = 8400"

definition grants_swamp_query :: "egress_profile \<Rightarrow> bool" where
  "grants_swamp_query p \<longleftrightarrow> prof_allows p SWAMP_QUERY_HOST Tcp SWAMP_QUERY_PORT"

definition GITHUB_HTTPS :: "egress_rule list" where
  "GITHUB_HTTPS = [mk_rule ''github.com'' Tcp 443, mk_rule ''codeload.github.com'' Tcp 443,
     mk_rule ''objects.githubusercontent.com'' Tcp 443]"

definition DEBIAN_APT :: "egress_rule list" where
  "DEBIAN_APT = [mk_rule ''deb.debian.org'' Tcp 443]"

definition PYPI_HTTPS :: "egress_rule list" where
  "PYPI_HTTPS = [mk_rule ''pypi.org'' Tcp 443, mk_rule ''files.pythonhosted.org'' Tcp 443]"

definition RUST_CRATES :: "egress_rule list" where
  "RUST_CRATES = [mk_rule ''crates.io'' Tcp 443, mk_rule ''static.crates.io'' Tcp 443,
     mk_rule ''index.crates.io'' Tcp 443]"

definition MODEL_LOCAL :: "egress_rule list" where
  "MODEL_LOCAL = [mk_rule ''shrek-model'' Tcp 8100]"

definition MODEL_ANTHROPIC :: "egress_rule list" where
  "MODEL_ANTHROPIC = [mk_rule ''shrek-model-proxy'' Tcp 8200]"

definition MODEL_CLAUDE_CLI :: "egress_rule list" where
  "MODEL_CLAUDE_CLI = [mk_rule ''shrek-claude-cli'' Tcp 8300]"

definition MODEL_CODEX_CLI :: "egress_rule list" where
  "MODEL_CODEX_CLI = [mk_rule ''shrek-codex-cli'' Tcp 8301]"

definition SWAMP_QUERY :: "egress_rule list" where
  "SWAMP_QUERY = [mk_rule SWAMP_QUERY_HOST Tcp SWAMP_QUERY_PORT]"

definition EGRESS_PROFILES :: "egress_profile list" where
  "EGRESS_PROFILES =
    [mk_profile ''none'' [],
     mk_profile ''github-https'' GITHUB_HTTPS,
     mk_profile ''debian-apt'' DEBIAN_APT,
     mk_profile ''pypi-https'' PYPI_HTTPS,
     mk_profile ''rust-crates'' RUST_CRATES,
     mk_profile ''model-local'' MODEL_LOCAL,
     mk_profile ''model-anthropic'' MODEL_ANTHROPIC,
     mk_profile ''model-claude-cli'' MODEL_CLAUDE_CLI,
     mk_profile ''model-codex-cli'' MODEL_CODEX_CLI,
     mk_profile ''swamp-query'' SWAMP_QUERY]"

definition resolve :: "string \<Rightarrow> egress_profile option" where
  "resolve name = row_find prof_name EGRESS_PROFILES name"

lemmas agent_tables = EGRESS_PROFILES_def GITHUB_HTTPS_def DEBIAN_APT_def PYPI_HTTPS_def
  RUST_CRATES_def MODEL_LOCAL_def MODEL_ANTHROPIC_def MODEL_CLAUDE_CLI_def MODEL_CODEX_CLI_def
  SWAMP_QUERY_def SWAMP_QUERY_HOST_def SWAMP_QUERY_PORT_def mk_rule_def mk_profile_def

interpretation agent: sealed_table EGRESS_PROFILES prof_name
  by unfold_locales (simp add: EGRESS_PROFILES_def mk_profile_def)

section \<open>desktop_egress.rs: the desktop profiles\<close>

definition DESKTOP_NTP :: "egress_rule list" where
  "DESKTOP_NTP = [mk_rule ''162.159.200.1'' Udp 123, mk_rule ''162.159.200.123'' Udp 123]"

definition DESKTOP_UPDATES :: "egress_rule list" where
  "DESKTOP_UPDATES = [mk_rule ''shrekos-updates.iambu.dev'' Tcp 443]"

definition WEATHER :: "egress_rule list" where
  "WEATHER = [mk_rule ''api.open-meteo.com'' Tcp 443, mk_rule ''geocoding-api.open-meteo.com'' Tcp 443]"

definition WEB_BROWSING :: "egress_rule list" where
  "WEB_BROWSING = []"

definition DESKTOP_EGRESS_PROFILES :: "egress_profile list" where
  "DESKTOP_EGRESS_PROFILES =
    [mk_profile ''desktop-ntp'' DESKTOP_NTP,
     mk_profile ''desktop-updates'' DESKTOP_UPDATES,
     mk_profile ''weather'' WEATHER,
     mk_profile ''web-browsing'' WEB_BROWSING]"

definition resolve_desktop :: "string \<Rightarrow> egress_profile option" where
  "resolve_desktop name = row_find prof_name DESKTOP_EGRESS_PROFILES name"

definition is_baseline_profile :: "string \<Rightarrow> bool" where
  "is_baseline_profile name \<longleftrightarrow> name = ''desktop-ntp'' \<or> name = ''desktop-updates''"

definition is_prepinned_profile :: "string \<Rightarrow> bool" where
  "is_prepinned_profile name \<longleftrightarrow> name = ''desktop-ntp''"

definition is_broad_profile :: "string \<Rightarrow> bool" where
  "is_broad_profile name \<longleftrightarrow> name = ''web-browsing''"

definition is_blessable_desktop_host :: "string \<Rightarrow> bool" where
  "is_blessable_desktop_host h \<longleftrightarrow>
     list_ex (\<lambda>r. rule_host r = h)
       (concat (map prof_rules
          (filter (\<lambda>p. \<not> is_baseline_profile (prof_name p)) DESKTOP_EGRESS_PROFILES)))"

datatype bless_tier = Baseline | TierOneClick | TierCeremony

fun bless_tier_str :: "bless_tier \<Rightarrow> string" where
  "bless_tier_str Baseline = ''baseline''"
| "bless_tier_str TierOneClick = ''one-click''"
| "bless_tier_str TierCeremony = ''ceremony''"

definition bless_tier_of :: "string \<Rightarrow> bless_tier option" where
  "bless_tier_of name =
     (case resolve_desktop name of
        None \<Rightarrow> None
      | Some _ \<Rightarrow>
          Some (if is_baseline_profile name then Baseline
                else if is_broad_profile name then TierCeremony
                else TierOneClick))"

definition admits_socket_bless :: "string \<Rightarrow> bool" where
  "admits_socket_bless name \<longleftrightarrow> bless_tier_of name = Some TierOneClick"

lemmas desktop_tables = DESKTOP_EGRESS_PROFILES_def DESKTOP_NTP_def DESKTOP_UPDATES_def WEATHER_def
  WEB_BROWSING_def mk_rule_def mk_profile_def

interpretation desktop: sealed_table DESKTOP_EGRESS_PROFILES prof_name
  by unfold_locales (simp add: DESKTOP_EGRESS_PROFILES_def mk_profile_def)

section \<open>desktop_egress.rs: raw destinations\<close>

record raw_triple =
  rt_host :: string
  rt_proto :: proto
  rt_port :: u16

definition is_ip_literal :: "raw_triple \<Rightarrow> bool" where
  "is_ip_literal t \<longleftrightarrow> ipv4_parse (rt_host t) \<noteq> None"

definition to_wire :: "raw_triple \<Rightarrow> string" where
  "to_wire t = rt_host t @ '':'' @ proto_label (rt_proto t) @ '':'' @ show_uint (rt_port t)"

definition to_tsv :: "raw_triple \<Rightarrow> string" where
  "to_tsv t = rt_host t @ [tab] @ proto_label (rt_proto t) @ [tab] @ show_uint (rt_port t)"

definition host_byte :: "char \<Rightarrow> bool" where
  "host_byte b \<longleftrightarrow> is_lower b \<or> is_digit b \<or> b = CHR ''-''"

definition valid_host_label :: "string \<Rightarrow> bool" where
  "valid_host_label l \<longleftrightarrow>
     l \<noteq> [] \<and> length l \<le> 63 \<and> \<not> str_starts_with l ''-'' \<and> \<not> str_ends_with l ''-''
     \<and> list_all host_byte l"

definition valid_raw_host :: "string \<Rightarrow> bool" where
  "valid_raw_host h \<longleftrightarrow>
     (if h = [] \<or> 253 < length h \<or> str_starts_with h ''-'' then False
      else if ipv4_parse h \<noteq> None then True
      else (let labels = str_split (CHR ''.'') h
            in if length labels < 2 then False else list_all valid_host_label labels))"

definition parse_proto :: "string \<Rightarrow> proto option" where
  "parse_proto s = (if s = ''tcp'' then Some Tcp else if s = ''udp'' then Some Udp else None)"

definition parse_raw_triple :: "string \<Rightarrow> (string, raw_triple) result" where
  "parse_raw_triple s =
     (if 300 < length s then Inl ''raw destination too long''
      else if list_ex (\<lambda>b. is_ascii_ws b \<or> is_control b) s
        then Inl ''raw destination has whitespace/control''
      else (case str_split (CHR '':'') s of
          [] \<Rightarrow> Inl ''empty raw destination''
        | [_] \<Rightarrow> Inl ''raw destination needs host:proto:port''
        | [_, _] \<Rightarrow> Inl ''raw destination needs host:proto:port''
        | host # pr # port # rest \<Rightarrow>
            if rest \<noteq> [] then Inl (''raw destination has too many '' @ [CHR 0x27, CHR '':'', CHR 0x27] @ '' fields'')
            else rbind (ok_or (parse_proto pr) ''raw proto must be tcp or udp'') (\<lambda>pr.
              rbind (ok_or (parse_uint port) ''raw port not a number'') (\<lambda>(port :: u16).
                if port = 0 then Inl ''raw port must be 1..=65535''
                else if \<not> valid_raw_host host
                  then Inl ''raw host is not a valid IPv4 literal or RFC-1123 hostname''
                else Inr \<lparr>rt_host = host, rt_proto = pr, rt_port = port\<rparr>))))"

section \<open>provider_bind.rs: the closed provider set\<close>

record provider_binding =
  pb_token :: string
  pb_profile :: string
  pb_host :: string

definition mk_binding :: "string \<Rightarrow> string \<Rightarrow> string \<Rightarrow> provider_binding" where
  "mk_binding t p h = \<lparr>pb_token = t, pb_profile = p, pb_host = h\<rparr>"

definition PROVIDER_BINDINGS :: "provider_binding list" where
  "PROVIDER_BINDINGS =
    [mk_binding ''local'' ''model-local'' ''shrek-model'',
     mk_binding ''anthropic'' ''model-anthropic'' ''shrek-model-proxy'',
     mk_binding ''claude'' ''model-claude-cli'' ''shrek-claude-cli'',
     mk_binding ''codex'' ''model-codex-cli'' ''shrek-codex-cli'']"

definition provider_host :: "string \<Rightarrow> string option" where
  "provider_host token = map_option pb_host (row_find pb_token PROVIDER_BINDINGS token)"

definition is_provider_token :: "string \<Rightarrow> bool" where
  "is_provider_token token \<longleftrightarrow> provider_host token \<noteq> None"

definition is_sealed_alias_host :: "string \<Rightarrow> bool" where
  "is_sealed_alias_host h \<longleftrightarrow>
     list_ex (\<lambda>b. pb_host b = h) PROVIDER_BINDINGS \<or> h = SWAMP_QUERY_HOST"

definition valid_bind_addr :: "string \<Rightarrow> ipv4 option" where
  "valid_bind_addr s =
     (if s = [] \<or> \<not> list_all (\<lambda>b. is_digit b \<or> b = CHR ''.'') s then None else ipv4_parse s)"

interpretation provider: sealed_table PROVIDER_BINDINGS pb_token
  by unfold_locales (simp add: PROVIDER_BINDINGS_def mk_binding_def)

interpretation provider_by_host: sealed_table PROVIDER_BINDINGS pb_host
  by unfold_locales (simp add: PROVIDER_BINDINGS_def mk_binding_def)

section \<open>Facts: profiles and tiers\<close>

lemma resolve_desktop_iff:
  "resolve_desktop n = Some p \<longleftrightarrow> p \<in> set DESKTOP_EGRESS_PROFILES \<and> prof_name p = n"
  unfolding resolve_desktop_def by (rule desktop.find_iff)

lemma resolve_desktop_None:
  "resolve_desktop n = None \<longleftrightarrow> n \<notin> {''desktop-ntp'', ''desktop-updates'', ''weather'', ''web-browsing''}"
  unfolding resolve_desktop_def desktop.find_None
  by (simp add: DESKTOP_EGRESS_PROFILES_def mk_profile_def)

lemma admits_socket_bless_iff: "admits_socket_bless n \<longleftrightarrow> n = ''weather''"
proof -
  have "admits_socket_bless n \<longleftrightarrow>
      resolve_desktop n \<noteq> None \<and> \<not> is_baseline_profile n \<and> \<not> is_broad_profile n"
    by (auto simp: admits_socket_bless_def bless_tier_of_def split: option.splits)
  then show ?thesis
    by (auto simp: resolve_desktop_None is_baseline_profile_def is_broad_profile_def)
qed

lemma bless_tier_ceremony_iff: "bless_tier_of n = Some TierCeremony \<longleftrightarrow> n = ''web-browsing''"
proof -
  have "bless_tier_of n = Some TierCeremony \<longleftrightarrow>
      resolve_desktop n \<noteq> None \<and> \<not> is_baseline_profile n \<and> is_broad_profile n"
    by (auto simp: bless_tier_of_def split: option.splits)
  then show ?thesis
    by (auto simp: resolve_desktop_None is_baseline_profile_def is_broad_profile_def)
qed

lemma resolve_weather: "resolve_desktop ''weather'' = Some (mk_profile ''weather'' WEATHER)"
  by (simp add: resolve_desktop_iff) (simp add: DESKTOP_EGRESS_PROFILES_def mk_profile_def)

section \<open>Facts: the raw grammar\<close>

lemma parse_proto_label [simp]: "parse_proto (proto_label p) = Some p"
  by (cases p) (simp_all add: parse_proto_def)

lemma parse_proto_Some: "parse_proto s = Some p \<longleftrightarrow> s = proto_label p"
  by (cases p) (auto simp: parse_proto_def)

lemma host_byte_graphic [ascii_rules]: "host_byte c \<Longrightarrow> is_graphic c"
  unfolding host_byte_def by (auto dest: lower_graphic digit_graphic) (simp add: is_graphic_def)

lemma host_byte_not: "host_byte c \<Longrightarrow> c \<noteq> CHR '':'' \<and> c \<noteq> CHR '','' \<and> c \<noteq> CHR ''/'' "
  by (auto simp: host_byte_def byte_class_defs)

lemma dot_not_colon: "is_digit c \<Longrightarrow> c \<noteq> CHR '':'' \<and> c \<noteq> CHR '','' \<and> c \<noteq> CHR ''/''"
  by (auto simp: is_digit_def)

text \<open>Every byte of an accepted host is a host byte or a dot.\<close>

lemma valid_raw_host_bytes:
  assumes "valid_raw_host h" "c \<in> set h"
  shows "host_byte c \<or> c = CHR ''.''"
proof (cases "ipv4_parse h")
  case (Some a)
  then have "h = ipv4_show a" by (rule ipv4_parse_canonical)
  then show ?thesis using assms(2) ipv4_show_bytes by (auto simp: host_byte_def)
next
  case None
  then have labels: "list_all valid_host_label (str_split (CHR ''.'') h)"
    using assms(1) by (auto simp: valid_raw_host_def Let_def split: if_splits)
  have c: "c \<in> set (str_join ''.'' (str_split (CHR ''.'') h))"
    using assms(2) by simp
  have join: "c \<in> set (str_join d ls) \<Longrightarrow> c \<in> set d \<or> (\<exists>l \<in> set ls. c \<in> set l)" for d ls
    by (induction d ls rule: str_join.induct) auto
  from join [OF c] labels show ?thesis
    by (auto simp: list_all_iff valid_host_label_def)
qed

lemma valid_raw_host_graphic: "valid_raw_host h \<Longrightarrow> c \<in> set h \<Longrightarrow> is_graphic c"
  using valid_raw_host_bytes host_byte_graphic dot_graphic by blast

lemma valid_raw_host_no:
  assumes "valid_raw_host h"
  shows "CHR '':'' \<notin> set h" "CHR '','' \<notin> set h" "tab \<notin> set h" "sp \<notin> set h" "nl \<notin> set h" "h \<noteq> []"
proof -
  show "CHR '':'' \<notin> set h" "CHR '','' \<notin> set h"
    using valid_raw_host_bytes [OF assms] host_byte_not by fastforce+
  show "tab \<notin> set h" "sp \<notin> set h" "nl \<notin> set h"
    using valid_raw_host_graphic [OF assms] graphic_not_special by blast+
  show "h \<noteq> []"
    using assms by (auto simp: valid_raw_host_def)
qed

lemma valid_raw_host_length: "valid_raw_host h \<Longrightarrow> length h \<le> 253"
  by (auto simp: valid_raw_host_def split: if_splits)

lemma valid_raw_host_no_dash: "valid_raw_host h \<Longrightarrow> \<not> str_starts_with h ''-''"
  by (auto simp: valid_raw_host_def split: if_splits)

text \<open>The triples that exist: what the grammar lets through.\<close>

definition wf_triple :: "raw_triple \<Rightarrow> bool" where
  "wf_triple t \<longleftrightarrow> valid_raw_host (rt_host t) \<and> rt_port t \<noteq> 0"

lemma parse_raw_triple_wf: "parse_raw_triple s = Inr t \<Longrightarrow> wf_triple t"
  by (auto simp: parse_raw_triple_def wf_triple_def res_simps split: if_splits list.splits)

lemma proto_label_facts [simp]:
  "length (proto_label p) = 3" "proto_label p \<noteq> []" "CHR '':'' \<notin> set (proto_label p)"
  "tab \<notin> set (proto_label p)" "c \<in> set (proto_label p) \<Longrightarrow> is_graphic c"
  by (cases p; auto simp: is_graphic_def)+

lemma digit_not_special: "is_digit c \<Longrightarrow> c \<noteq> CHR '':'' \<and> c \<noteq> tab \<and> c \<noteq> nl \<and> c \<noteq> sp \<and> c \<noteq> CHR '',''"
  by (auto simp: is_digit_def)

lemma show_uint_no [simp]:
  "CHR '':'' \<notin> set (show_uint w)" "tab \<notin> set (show_uint w)" "sp \<notin> set (show_uint w)"
  "CHR '','' \<notin> set (show_uint w)" "nl \<notin> set (show_uint w)"
  using show_uint_digit digit_not_special by blast+

lemma show_port_length: "length (show_uint (p :: u16)) \<le> 5"
proof -
  have "unat p < 2 ^ LENGTH(16)" by (rule unsigned_less)
  then show ?thesis by (simp add: show_uint_def show_nat_len5)
qed

lemma graphic_not_ws_control: "is_graphic c \<Longrightarrow> \<not> is_ascii_ws c \<and> \<not> is_control c"
  by (auto simp: is_graphic_def is_ascii_ws_def is_control_def less_char_def less_eq_char_def)

lemma colon_graphic [simp]: "is_graphic (CHR '':'')"
  by (simp add: is_graphic_def)

lemma to_wire_graphic: "wf_triple t \<Longrightarrow> c \<in> set (to_wire t) \<Longrightarrow> is_graphic c"
  by (auto simp: to_wire_def wf_triple_def valid_raw_host_graphic)

lemma parse_to_wire [simp]: "wf_triple t \<Longrightarrow> parse_raw_triple (to_wire t) = Inr t"
proof -
  assume wf: "wf_triple t"
  have len: "\<not> 300 < length (to_wire t)"
    using wf valid_raw_host_length [of "rt_host t"] show_port_length [of "rt_port t"]
    by (simp add: wf_triple_def to_wire_def)
  have clean: "\<not> list_ex (\<lambda>b. is_ascii_ws b \<or> is_control b) (to_wire t)"
    using to_wire_graphic [OF wf] graphic_not_ws_control by (auto simp: list_ex_iff)
  have "str_split (CHR '':'') (to_wire t) = [rt_host t, proto_label (rt_proto t), show_uint (rt_port t)]"
    using wf valid_raw_host_no(1) by (simp add: to_wire_def wf_triple_def)
  then show ?thesis
    using len clean wf by (simp add: parse_raw_triple_def wf_triple_def)
qed

lemma parse_wire_iff: "parse_raw_triple (to_wire t) = Inr t \<longleftrightarrow> wf_triple t"
  using parse_to_wire parse_raw_triple_wf by blast

lemma to_wire_inject: "wf_triple t \<Longrightarrow> wf_triple u \<Longrightarrow> to_wire t = to_wire u \<longleftrightarrow> t = u"
  by (metis parse_to_wire sum.inject(2))

section \<open>Facts: bind addresses\<close>

lemma valid_bind_addr_iff [str_simps]: "valid_bind_addr s = Some a \<longleftrightarrow> s = ipv4_show a"
proof -
  have "list_all (\<lambda>b. is_digit b \<or> b = CHR ''.'') (ipv4_show a)"
    using ipv4_show_bytes by (auto simp: list_all_iff)
  then show ?thesis
    using ipv4_show_ne [of a] by (auto simp: valid_bind_addr_def ipv4_parse_iff simp del: ipv4_show_ne)
qed

lemma valid_bind_addr_show [simp]: "valid_bind_addr (ipv4_show a) = Some a"
  by (simp add: valid_bind_addr_iff)

lemma provider_host_Some:
  "provider_host t = Some h \<longleftrightarrow> (\<exists>b \<in> set PROVIDER_BINDINGS. pb_token b = t \<and> pb_host b = h)"
  unfolding provider_host_def by (auto simp: provider.find_iff)

section \<open>Properties\<close>

text \<open>
  the raw destinations some input is accepted as are exactly those whose canonical wire form is
  read back unchanged, and each has a valid host and a port that can be dialled.
\<close>

theorem raw_grammar_canonical:
  "(\<exists>s. parse_raw_triple s = Inr t) \<longleftrightarrow>
     parse_raw_triple (to_wire t) = Inr t \<and> valid_raw_host (rt_host t) \<and> rt_port t \<noteq> 0"
  using parse_raw_triple_wf parse_to_wire by (auto simp: wf_triple_def)

end
