(* ===== verification/Rust_Text.thy ===== *)
theory Rust_Text
  imports Fs_Model
begin

text \<open>
  What the code uses of Rust's characters and paths: the characters of a UTF-8 string, control
  characters, the lossy decoding of bytes, ASCII case, and \<open>Path\<close>, whose comparisons go through its
  components.  A path is a byte string.
\<close>

section \<open>Characters of a string\<close>

function utf8_chars :: "string \<Rightarrow> string list" where
  "utf8_chars s =
     (if s = [] then []
      else (let n = max 1 (utf8_len s) in take n s # utf8_chars (drop n s)))"
  by pat_completeness auto
termination
  by (relation "measure length") (auto simp: neq_Nil_conv Let_def)

declare utf8_chars.simps [simp del]

definition ctl_char :: "string \<Rightarrow> bool" where
  "ctl_char c \<longleftrightarrow>
     (case c of
        [a] \<Rightarrow> is_control a
      | [a, b] \<Rightarrow> a = CHR 0xC2 \<and> CHR 0x80 \<le> b \<and> b \<le> CHR 0x9F
      | _ \<Rightarrow> False)"

text \<open>
  \<open>String::from_utf8_lossy\<close>: every maximal ill-formed part becomes U+FFFD (three bytes).
\<close>

definition bad_len :: "string \<Rightarrow> nat" where
  "bad_len s =
     (case s of
        a # b # r \<Rightarrow>
          if utf8_three a b (CHR 0x80) then 2
          else if utf8_four a b (CHR 0x80) (CHR 0x80)
          then (case r of c # _ \<Rightarrow> if cont_byte c then 3 else 2 | [] \<Rightarrow> 2)
          else 1
      | _ \<Rightarrow> 1)"

lemma bad_len_pos: "0 < bad_len s"
  by (auto simp: bad_len_def split: list.splits)

function utf8_lossy :: "string \<Rightarrow> string" where
  "utf8_lossy s =
     (if s = [] then []
      else if utf8_len s \<noteq> 0 then take (utf8_len s) s @ utf8_lossy (drop (utf8_len s) s)
      else [CHR 0xEF, CHR 0xBF, CHR 0xBD] @ utf8_lossy (drop (bad_len s) s))"
  by pat_completeness auto
termination
  by (relation "measure length") (auto simp: neq_Nil_conv bad_len_pos)

declare utf8_lossy.simps [simp del]

lemma utf8_lossy_ok [simp]: "utf8_ok s \<Longrightarrow> utf8_lossy s = s"
proof (induction s rule: utf8_ok.induct)
  case (1 s)
  show ?case
  proof (cases "s = []")
    case False
    then have "utf8_len s \<noteq> 0" "utf8_ok (drop (utf8_len s) s)"
      using "1.prems" by (simp_all add: utf8_ok.simps [of s] split: if_splits)
    then show ?thesis
      using 1 False by (simp add: utf8_lossy.simps [of s])
  qed (simp add: utf8_lossy.simps)
qed

section \<open>Paths\<close>

definition path_absolute :: "string \<Rightarrow> bool" where
  "path_absolute p \<longleftrightarrow> str_starts_with p ''/''"

definition path_comps :: "string \<Rightarrow> string list" where
  "path_comps p =
     (if path_absolute p then [''/''] else if hd (str_split (CHR ''/'') p) = ''.'' then [''.''] else [])
     @ filter (\<lambda>c. c \<noteq> [] \<and> c \<noteq> ''.'') (str_split (CHR ''/'') p)"

definition path_eq :: "string \<Rightarrow> string \<Rightarrow> bool" where
  "path_eq p q \<longleftrightarrow> path_comps p = path_comps q"

definition path_starts_with :: "string \<Rightarrow> string \<Rightarrow> bool" where
  "path_starts_with p q \<longleftrightarrow> take (length (path_comps q)) (path_comps p) = path_comps q"

definition path_rel :: "string \<Rightarrow> string \<Rightarrow> string list option" where
  "path_rel p q =
     (if path_starts_with p q then Some (drop (length (path_comps q)) (path_comps p)) else None)"

definition normal_comp :: "string \<Rightarrow> bool" where
  "normal_comp c \<longleftrightarrow> c \<noteq> ''/'' \<and> c \<noteq> ''.'' \<and> c \<noteq> ''..''"

definition path_file_name :: "string \<Rightarrow> string option" where
  "path_file_name p =
     (if path_comps p \<noteq> [] \<and> normal_comp (last (path_comps p)) then Some (last (path_comps p)) else None)"

definition path_join :: "string \<Rightarrow> string \<Rightarrow> string" where
  "path_join p q =
     (if path_absolute q then q
      else if p = [] \<or> str_ends_with p ''/'' then p @ q else p @ ''/'' @ q)"

definition ascii_lower :: "char \<Rightarrow> char" where
  "ascii_lower c = (if is_upper c then char_of (of_char c + 32 :: nat) else c)"

section \<open>Facts\<close>

lemma find_SomeD: "find P xs = Some x \<Longrightarrow> x \<in> set xs \<and> P x"
  by (induction xs) (auto split: if_splits)

lemma utf8_chars_Nil [simp]: "utf8_chars [] = []"
  by (simp add: utf8_chars.simps)

lemma concat_utf8_chars [simp]: "concat (utf8_chars s) = s"
proof (induction s rule: utf8_chars.induct)
  case (1 s)
  then show ?case
    by (cases "s = []") (simp_all add: utf8_chars.simps [of s] Let_def)
qed

lemma cont_byte_high: "CHR 0x80 \<le> b \<Longrightarrow> \<not> b < CHR 0x80"
  by (simp add: not_less)

lemma lead_byte: "CHR 0xC2 \<le> a \<Longrightarrow> \<not> cont_byte a \<and> \<not> a < CHR 0x80"
  by (auto simp: cont_byte_def less_eq_char_def less_char_def)

lemma char_le_via: "d \<le> c \<Longrightarrow> e \<le> d \<Longrightarrow> e \<le> (c :: char)"
  by (rule order_trans)

lemma utf8_two_bytes: "utf8_two a b \<Longrightarrow> CHR 0xC2 \<le> a \<and> CHR 0x80 \<le> b"
  by (simp add: utf8_two_def cont_byte_def)

lemma above:
  "CHR 0xA0 \<le> b \<Longrightarrow> CHR 0x80 \<le> b" "CHR 0x90 \<le> b \<Longrightarrow> CHR 0x80 \<le> b"
  "CHR 0xE1 \<le> a \<Longrightarrow> CHR 0xC2 \<le> a" "CHR 0xEE \<le> a \<Longrightarrow> CHR 0xC2 \<le> a"
  "CHR 0xF1 \<le> a \<Longrightarrow> CHR 0xC2 \<le> a" "CHR 0xC2 \<le> a \<Longrightarrow> CHR 0x80 \<le> a"
  by (erule char_le_via, simp)+

lemma utf8_three_bytes:
  "utf8_three a b c \<Longrightarrow> CHR 0xC2 \<le> a \<and> CHR 0x80 \<le> b \<and> CHR 0x80 \<le> c"
  unfolding utf8_three_def cont_byte_def by (elim conjE disjE) (simp_all add: above)

lemma utf8_four_bytes:
  "utf8_four a b c d \<Longrightarrow> CHR 0xC2 \<le> a \<and> CHR 0x80 \<le> b \<and> CHR 0x80 \<le> c \<and> CHR 0x80 \<le> d"
  unfolding utf8_four_def cont_byte_def by (elim conjE disjE) (simp_all add: above)

text \<open>A character is one ASCII byte or all its bytes are above, and it does not begin in the middle.\<close>

lemma utf8_len_cases:
  assumes "utf8_len s \<noteq> 0"
  obtains (one) a where "take (utf8_len s) s = [a]" "a < CHR 0x80"
  | (more) a x where "take (utf8_len s) s = a # x" "CHR 0xC2 \<le> a" "\<forall>b \<in> set x. CHR 0x80 \<le> b"
proof (cases s)
  case (Cons a r)
  consider "a < CHR 0x80" | b r' where "\<not> a < CHR 0x80" "r = b # r'" "utf8_two a b"
    | b c r' where "\<not> a < CHR 0x80" "r = b # c # r'" "\<not> utf8_two a b" "utf8_three a b c"
    | b c d r' where "\<not> a < CHR 0x80" "r = b # c # d # r'" "\<not> utf8_two a b" "\<not> utf8_three a b c"
        "utf8_four a b c d"
    using assms by (auto simp: Cons utf8_len.simps split: list.splits if_splits)
  then show ?thesis
  proof cases
    case 1
    then show ?thesis using one [of a] by (simp add: Cons utf8_len.simps)
  next
    case (2 b r')
    then show ?thesis using more [of a "[b]"] utf8_two_bytes by (simp add: Cons utf8_len.simps)
  next
    case (3 b c r')
    then show ?thesis using more [of a "[b, c]"] utf8_three_bytes by (simp add: Cons utf8_len.simps)
  next
    case (4 b c d r')
    then show ?thesis using more [of a "[b, c, d]"] utf8_four_bytes by (simp add: Cons utf8_len.simps)
  qed
qed (use assms in simp)

lemma utf8_chars_step:
  "utf8_ok s \<Longrightarrow> s \<noteq> [] \<Longrightarrow>
     utf8_chars s = take (utf8_len s) s # utf8_chars (drop (utf8_len s) s)
     \<and> utf8_len s \<noteq> 0 \<and> utf8_ok (drop (utf8_len s) s)"
  by (simp add: utf8_chars.simps [of s] utf8_ok.simps [of s] Let_def max_def split: if_splits)

lemma ascii_not_cont: "a < CHR 0x80 \<Longrightarrow> \<not> cont_byte a"
  by (auto simp: cont_byte_def)

lemma utf8_len_take: "utf8_len s \<noteq> 0 \<Longrightarrow> utf8_len (take (utf8_len s) s) = utf8_len s"
  by (cases s; cases "tl s"; cases "tl (tl s)"; cases "tl (tl (tl s))")
    (simp_all add: utf8_len.simps split: if_splits)

lemma utf8_ok_first: "utf8_len s \<noteq> 0 \<Longrightarrow> utf8_ok (take (utf8_len s) s)"
  using utf8_len_le [of s] by (simp add: utf8_ok.simps [of "take (utf8_len s) s"] utf8_len_take min_def)

lemma line_ends_control: "is_control nl" "is_control cr"
  by (simp_all add: is_control_def less_char_def)

lemma chars_no_newline: "c \<in> set (utf8_chars s) \<Longrightarrow> \<not> ctl_char c \<Longrightarrow> nl \<notin> set c \<and> cr \<notin> set c"
proof (induction s rule: utf8_chars.induct)
  case (1 s)
  show ?case
  proof (cases "s = []")
    case False
    define n where "n = max 1 (utf8_len s)"
    have chars: "utf8_chars s = take n s # utf8_chars (drop n s)"
      using False by (simp add: utf8_chars.simps [of s] n_def Let_def)
    show ?thesis
    proof (cases "c = take n s")
      case True
      show ?thesis
      proof (cases "utf8_len s = 0")
        case zero: True
        then have "c = [hd s]"
          using False True by (cases s) (simp_all add: n_def)
        then show ?thesis
          using "1.prems"(2) line_ends_control by (auto simp: ctl_char_def)
      next
        case pos: False
        then have c: "c = take (utf8_len s) s"
          using True by (simp add: n_def max_def)
        show ?thesis
          using pos
        proof (cases rule: utf8_len_cases)
          case (one a)
          then show ?thesis
            using "1.prems"(2) line_ends_control by (auto simp: c ctl_char_def)
        next
          case (more a x)
          have high: "b \<noteq> nl \<and> b \<noteq> cr" if "CHR 0x80 \<le> b" for b
            using that by (auto simp: less_eq_char_def)
          show ?thesis
            using more(1,3) high above(6) [OF more(2)] by (auto simp: c)
        qed
      qed
    next
      case False
      then show ?thesis
        using "1.IH" [OF \<open>s \<noteq> []\<close> n_def] "1.prems" chars by simp
    qed
  qed (use "1.prems" in simp)
qed

section \<open>Pieces of UTF-8 text\<close>

text \<open>An ASCII byte separates UTF-8 text into UTF-8 texts.\<close>

lemma utf8_ok_split:
  "utf8_ok (a @ c # b) \<Longrightarrow> c < CHR 0x80 \<Longrightarrow> utf8_ok a \<and> utf8_ok b"
proof (induction a rule: length_induct)
  case (1 a)
  let ?s = "a @ c # b"
  have step: "utf8_len ?s \<noteq> 0" "utf8_ok (drop (utf8_len ?s) ?s)"
    using "1.prems"(1) by (simp_all add: utf8_ok.simps [of ?s] split: if_splits)
  show ?case
  proof (cases "a = []")
    case True
    then show ?thesis using "1.prems" by simp
  next
    case False
    have le: "utf8_len ?s \<le> length a"
    proof (rule ccontr)
      assume long: "\<not> utf8_len ?s \<le> length a"
      then have "take (utf8_len ?s) ?s ! length a = c" "length a < length (take (utf8_len ?s) ?s)"
        using utf8_len_le [of ?s] by (simp_all add: nth_append)
      then have c: "c \<in> set (tl (take (utf8_len ?s) ?s))"
        using False by (cases "take (utf8_len ?s) ?s"; cases a) (auto simp: nth_Cons in_set_conv_nth split: nat.splits)
      show False
        using step(1)
      proof (cases rule: utf8_len_cases)
        case (one x)
        then show ?thesis using c by simp
      next
        case (more x xs)
        then show ?thesis using c "1.prems"(2) by (auto simp: not_less [symmetric])
      qed
    qed
    have first: "take (utf8_len ?s) a = take (utf8_len ?s) ?s" "drop (utf8_len ?s) ?s = drop (utf8_len ?s) a @ c # b"
      using le by simp_all
    have "utf8_ok (drop (utf8_len ?s) a) \<and> utf8_ok b"
      using "1.IH" [rule_format, of "drop (utf8_len ?s) a"] step False "1.prems"(2) unfolding first(2)
      by (cases a) auto
    moreover have "utf8_ok (take (utf8_len ?s) a @ drop (utf8_len ?s) a) = utf8_ok (drop (utf8_len ?s) a)"
      using utf8_ok_append [OF utf8_ok_first [OF step(1)]] unfolding first(1) .
    ultimately show ?thesis by simp
  qed
qed

lemma str_split_Cons_sep: "str_split c (a @ c # b) = str_split c a @ str_split c b"
  by (induction a) (auto split: list.splits simp: neq_Nil_conv)

lemma utf8_ok_pieces: "utf8_ok s \<Longrightarrow> c < CHR 0x80 \<Longrightarrow> p \<in> set (str_split c s) \<Longrightarrow> utf8_ok p"
proof (induction s rule: length_induct)
  case (1 s)
  show ?case
  proof (cases "c \<in> set s")
    case True
    then obtain a b where s: "s = a @ c # b"
      by (meson split_list)
    have ok: "utf8_ok a" "utf8_ok b"
      using utf8_ok_split [of a c b] "1.prems"(1,2) by (simp_all add: s)
    have "p \<in> set (str_split c a) \<or> p \<in> set (str_split c b)"
      using "1.prems"(3) by (simp add: s str_split_Cons_sep)
    then show ?thesis
      using "1.IH" [rule_format, of a] "1.IH" [rule_format, of b] ok "1.prems"(2) by (auto simp: s)
  next
    case False
    then show ?thesis using "1.prems" by simp
  qed
qed

lemma utf8_ok_butlast: "utf8_ok s \<Longrightarrow> s \<noteq> [] \<Longrightarrow> last s < CHR 0x80 \<Longrightarrow> utf8_ok (butlast s)"
  using utf8_ok_split [of "butlast s" "last s" "[]"] by simp

lemma utf8_ok_lines: "utf8_ok s \<Longrightarrow> l \<in> set (str_lines s) \<Longrightarrow> utf8_ok l"
proof -
  assume ok: "utf8_ok s" and l: "l \<in> set (str_lines s)"
  have ps: "utf8_ok p" if "p \<in> set (str_split nl s)" for p
    using utf8_ok_pieces [OF ok _ that] by simp
  consider p where "p \<in> set (butlast (str_split nl s))" "l = strip_cr p" | "l = last (str_split nl s)"
    using l by (auto simp: str_lines_def Let_def split: if_splits)
  then show ?thesis
  proof cases
    case 1
    then have "utf8_ok p" using ps in_set_butlastD by fastforce
    then show ?thesis
      using utf8_ok_butlast [of p] by (simp add: 1(2) strip_cr_def)
  next
    case 2
    then show ?thesis using ps by simp
  qed
qed

lemma utf8_ok_split_once:
  "utf8_ok s \<Longrightarrow> c < CHR 0x80 \<Longrightarrow> str_split_once c s = Some (k, v) \<Longrightarrow> utf8_ok k \<and> utf8_ok v"
  using utf8_ok_split [of k c v] by (simp add: str_split_once_iff)

lemma utf8_ok_strip_prefix: "utf8_ok s \<Longrightarrow> utf8_ok p \<Longrightarrow> str_strip_prefix p s = Some r \<Longrightarrow> utf8_ok r"
  by (auto simp: str_strip_prefix_iff utf8_ok_append)

text \<open>A string extended by a slash and more is component-wise below.\<close>

lemma path_comps_below: "p \<noteq> [] \<Longrightarrow> \<exists>t. path_comps (p @ CHR ''/'' # s) = path_comps p @ t"
proof -
  assume "p \<noteq> []"
  then have "path_absolute (p @ CHR ''/'' # s) = path_absolute p"
    by (cases p) (simp_all add: path_absolute_def str_starts_with_def)
  moreover have "hd (str_split (CHR ''/'') p @ xs) = hd (str_split (CHR ''/'') p)" for xs
    by simp
  ultimately show ?thesis
    by (simp add: path_comps_def str_split_Cons_sep)
qed

lemma path_starts_with_refl [simp]: "path_starts_with p p"
  by (simp add: path_starts_with_def)

lemma path_starts_with_iff: "path_starts_with p q \<longleftrightarrow> (\<exists>t. path_comps p = path_comps q @ t)"
  unfolding path_starts_with_def by (metis append_eq_conv_conj append_take_drop_id)

lemma path_starts_with_trans: "path_starts_with p q \<Longrightarrow> path_starts_with q r \<Longrightarrow> path_starts_with p r"
  by (auto simp: path_starts_with_iff)

lemma path_comps_empty [simp]: "path_comps [] = []"
  by (simp add: path_comps_def path_absolute_def str_starts_with_def)

lemma path_starts_with_below: "path_starts_with (p @ CHR ''/'' # s) p"
  using path_comps_below [of p s] by (cases "p = []") (auto simp: path_starts_with_iff)

end
