(* ===== verification/Bench_Grant.thy ===== *)
theory Bench_Grant
  imports Bench_Record Policy_Egress Rust_Text
begin

text \<open>
  The pure part of \<open>bench_plane.rs\<close>: the sealed seed catalog, the grant and export lines of a
  bench record, the percent coding of arguments, the launcher file, the egress set of a bench and the
  argument vectors handed to \<open>podman\<close> and \<open>setquota\<close>.

  A slice of a \<open>str\<close> that is not at a character boundary panics; \<open>pct_decode\<close> and what calls it
  therefore return an option whose \<open>None\<close> is the abort of the process.
\<close>

section \<open>The sealed seed catalog\<close>

record seed =
  seed_name :: string
  seed_image :: string
  seed_tar :: string

definition SEED_CATALOG :: "seed list" where
  "SEED_CATALOG =
     [\<lparr>seed_name = ''scratch'', seed_image = ''localhost/scratch'', seed_tar = ''scratch.tar''\<rparr>,
      \<lparr>seed_name = ''debian'', seed_image = ''localhost/debian'', seed_tar = ''debian.tar''\<rparr>]"

definition seed_lookup :: "string \<Rightarrow> seed option" where
  "seed_lookup name = find (\<lambda>s. seed_name s = name) SEED_CATALOG"

definition valid_seed :: "string \<Rightarrow> bool" where
  "valid_seed name \<longleftrightarrow> seed_lookup name \<noteq> None"

definition seed_image_of :: "string \<Rightarrow> string" where
  "seed_image_of seed = (case seed_lookup seed of Some s \<Rightarrow> seed_image s | None \<Rightarrow> ''localhost/scratch'')"

definition seed_is_fresh :: "string option \<Rightarrow> string \<Rightarrow> bool" where
  "seed_is_fresh want have_id =
     (case want of Some w \<Rightarrow> w \<noteq> [] \<and> have_id = w | None \<Rightarrow> have_id \<noteq> [])"

section \<open>Grant lines\<close>

datatype grant = Fs bool string | Net string

definition grant_mountpoint :: "string \<Rightarrow> string" where
  "grant_mountpoint leaf = ''/grants/'' @ leaf"

definition grant_parse :: "string \<Rightarrow> grant option" where
  "grant_parse s =
     (case str_split_once sp s of
        None \<Rightarrow> None
      | Some (kind, rest) \<Rightarrow>
          if kind = ''fs-rw'' then Some (Fs True rest)
          else if kind = ''fs-ro'' then Some (Fs False rest)
          else if kind = ''net'' then Some (Net rest)
          else None)"

fun grant_encode :: "grant \<Rightarrow> string" where
  "grant_encode (Fs True path) = ''fs-rw '' @ utf8_lossy path"
| "grant_encode (Fs False path) = ''fs-ro '' @ utf8_lossy path"
| "grant_encode (Net profile) = ''net '' @ profile"

definition fs_leaf :: "string \<Rightarrow> string option" where
  "fs_leaf path = do {
     leaf \<leftarrow> path_file_name path;
     if utf8_ok leaf \<and> valid_bench_name leaf then Some leaf else None }"

definition is_fs :: "string \<Rightarrow> bool" where
  "is_fs g \<longleftrightarrow> (case grant_parse g of Some (Fs _ _) \<Rightarrow> True | _ \<Rightarrow> False)"

definition is_net :: "string \<Rightarrow> bool" where
  "is_net g \<longleftrightarrow> (case grant_parse g of Some (Net _) \<Rightarrow> True | _ \<Rightarrow> False)"

definition egress_profiles_from :: "string list \<Rightarrow> string list" where
  "egress_profiles_from gs =
     List.map_filter (\<lambda>g. case grant_parse g of Some (Net p) \<Rightarrow> Some p | _ \<Rightarrow> None) gs"

definition egress_profiles :: "bench_record \<Rightarrow> string list" where
  "egress_profiles r = egress_profiles_from (bn_grants r)"

definition record_has_fs :: "bench_record \<Rightarrow> bool" where
  "record_has_fs r \<longleftrightarrow> list_ex is_fs (bn_grants r)"

section \<open>Percent coding\<close>

definition hex_digit :: "nat \<Rightarrow> char" where
  "hex_digit n = (if n < 10 then char_of (48 + n) else char_of (55 + n))"

definition hex_byte :: "char \<Rightarrow> string" where
  "hex_byte c = [CHR ''%'', hex_digit (of_char c div 16), hex_digit (of_char c mod 16)]"

definition pct_char :: "string \<Rightarrow> string" where
  "pct_char c = (if c = ''%'' \<or> c = [sp] \<or> ctl_char c then concat (map hex_byte c) else c)"

definition pct_encode :: "string \<Rightarrow> string" where
  "pct_encode s = concat (map pct_char (utf8_chars s))"

definition hex_val :: "char \<Rightarrow> nat option" where
  "hex_val c =
     (if is_digit c then Some (of_char c - 48)
      else if CHR ''A'' \<le> c \<and> c \<le> CHR ''F'' then Some (of_char c - 55)
      else if CHR ''a'' \<le> c \<and> c \<le> CHR ''f'' then Some (of_char c - 87)
      else None)"

text \<open>\<open>u8::from_str_radix\<close> on two bytes at radix 16; a leading plus sign is accepted.\<close>

definition radix16 :: "char \<Rightarrow> char \<Rightarrow> char option" where
  "radix16 a b =
     (if a = CHR ''+'' then map_option char_of (hex_val b)
      else do { x \<leftarrow> hex_val a; y \<leftarrow> hex_val b; Some (char_of (16 * x + y)) })"

definition char_boundary :: "string \<Rightarrow> bool" where
  "char_boundary s \<longleftrightarrow> (case s of [] \<Rightarrow> True | c # _ \<Rightarrow> \<not> cont_byte c)"

fun pct_bytes :: "string \<Rightarrow> string option" where
  "pct_bytes (c # a # b # r) =
     (if c = CHR ''%'' then
        (if char_boundary (a # b # r) \<and> char_boundary r then
           (case radix16 a b of
              Some v \<Rightarrow> map_option ((#) v) (pct_bytes r)
            | None \<Rightarrow> map_option ((#) c) (pct_bytes (a # b # r)))
         else None)
      else map_option ((#) c) (pct_bytes (a # b # r)))"
| "pct_bytes [a, b] = Some [a, b]"
| "pct_bytes [a] = Some [a]"
| "pct_bytes [] = Some []"

definition pct_decode :: "string \<Rightarrow> string option" where
  "pct_decode s = map_option utf8_lossy (pct_bytes s)"

section \<open>Exports\<close>

record export =
  ex_key :: string
  ex_file :: string
  ex_icon :: string
  ex_label :: string
  ex_cmd :: "string list"

fun pct_decode_all :: "string list \<Rightarrow> string list option" where
  "pct_decode_all [] = Some []"
| "pct_decode_all (a # as) = do { x \<leftarrow> pct_decode a; xs \<leftarrow> pct_decode_all as; Some (x # xs) }"

definition export_parse :: "string \<Rightarrow> export option option" where
  "export_parse s =
     (case str_split sp s of
        key # file # icon # label # args \<Rightarrow> do {
          l \<leftarrow> pct_decode label;
          cmd \<leftarrow> pct_decode_all args;
          Some (if cmd = [] then None
                else Some \<lparr>ex_key = key, ex_file = file, ex_icon = icon, ex_label = l, ex_cmd = cmd\<rparr>) }
      | _ \<Rightarrow> Some None)"

definition export_encode :: "export \<Rightarrow> string" where
  "export_encode x =
     str_join [sp] ([ex_key x, ex_file x, ex_icon x, pct_encode (ex_label x)] @ map pct_encode (ex_cmd x))"

text \<open>The first export of a record with a given key; the search stops there.\<close>

fun find_export :: "string \<Rightarrow> string list \<Rightarrow> export option option" where
  "find_export key [] = Some None"
| "find_export key (e # es) = do {
     x \<leftarrow> export_parse e;
     (case x of
        Some y \<Rightarrow> if ex_key y = key then Some (Some y) else find_export key es
      | None \<Rightarrow> find_export key es) }"

definition valid_icon :: "string \<Rightarrow> bool" where
  "valid_icon i \<longleftrightarrow>
     i \<noteq> [] \<and> length i \<le> 128 \<and> \<not> str_starts_with i ''.'' \<and> list_all token_byte i"

definition valid_desktop_file :: "string \<Rightarrow> bool" where
  "valid_desktop_file f \<longleftrightarrow>
     str_ends_with f ''.desktop'' \<and> length f \<le> 200 \<and> \<not> str_contains f ''..'' \<and> list_all token_byte f"

definition sanitize_label :: "string option \<Rightarrow> string option" where
  "sanitize_label opt = do {
     s \<leftarrow> opt;
     let t = str_trim (concat (take 64 (filter (\<lambda>c. \<not> ctl_char c) (utf8_chars s))));
     if t = [] then None else Some t }"

definition escape_backslash :: "string \<Rightarrow> string" where
  "escape_backslash s = concat (map (\<lambda>c. if c = CHR 0x5C then [CHR 0x5C, CHR 0x5C] else [c]) s)"

definition desktop_content :: "string \<Rightarrow> string \<Rightarrow> string \<Rightarrow> string \<Rightarrow> string" where
  "desktop_content bench key label icon = unlines
     [''[Desktop Entry]'', ''Version=1.0'', ''Type=Application'', ''Name='' @ escape_backslash label,
      ''GenericName=Shrek Bench app'', ''Comment=Runs in the '' @ bench @ '' Bench (Shrek OS)'',
      ''Exec=/usr/bin/shrek-bench-run '' @ bench @ '' '' @ key, ''Icon='' @ icon, ''Terminal=false'',
      ''Categories=Utility;'', ''X-Shrek-Bench='' @ bench]"

section \<open>The egress set of a bench\<close>

datatype set_error = EmptySet | NoneMixed | FlagInSet string | UnsealedProfile string | DuplicateProfile string

fun profile_set_loop :: "string list \<Rightarrow> string list \<Rightarrow> (set_error, string list) result" where
  "profile_set_loop acc [] = Inr acc"
| "profile_set_loop acc (p # ps) =
     (if str_starts_with p ''-'' then Inl (FlagInSet p)
      else if resolve p = None then Inl (UnsealedProfile p)
      else if p \<in> set acc then Inl (DuplicateProfile p)
      else profile_set_loop (acc @ [p]) ps)"

definition validate_profile_set :: "string list \<Rightarrow> (set_error, string list) result" where
  "validate_profile_set ps =
     (if ps = [] then Inl EmptySet
      else if ''none'' \<in> set ps then (if length ps \<noteq> 1 then Inl NoneMixed else Inr [])
      else profile_set_loop [] ps)"

definition network_profile_rows :: "string list \<Rightarrow> (string \<times> string) list" where
  "network_profile_rows ps = map (\<lambda>p. (''Egress profile'', p)) ps"

definition trifecta_after :: "bool \<Rightarrow> bool \<Rightarrow> bool \<Rightarrow> bool \<Rightarrow> bool" where
  "trifecta_after existing_fs existing_net adding_fs adding_net \<longleftrightarrow>
     (existing_fs \<or> adding_fs) \<and> (existing_net \<or> adding_net)"

section \<open>Argument vectors\<close>

record fs_bind =
  fb_target :: string
  fb_leaf :: string
  fb_rw :: bool

record run_spec =
  rs_name :: string
  rs_data :: string
  rs_image :: string
  rs_interactive :: bool
  rs_detached :: bool
  rs_remove :: bool
  rs_hosts_bind :: "string option"
  rs_fs_binds :: "fs_bind list"
  rs_workload :: "string list"

definition bind_args :: "fs_bind \<Rightarrow> string list" where
  "bind_args b =
     [''-v'', utf8_lossy (fb_target b) @ '':'' @ grant_mountpoint (fb_leaf b) @ '':''
        @ (if fb_rw b then ''rw'' else ''ro'') @ '',noexec,nodev,nosuid'']"

definition podman_run_argv :: "run_spec \<Rightarrow> string list" where
  "podman_run_argv s =
     [''run''] @ (if rs_remove s then [''--rm''] else []) @ (if rs_detached s then [''-d''] else [])
     @ [''--name'', ''shrek-bench-'' @ rs_name s, ''--network=none'', ''--no-hosts'', ''--runtime'',
        ''crun'', ''-v'', utf8_lossy (rs_data s) @ '':/work'', ''-w'', ''/work'']
     @ (case rs_hosts_bind s of None \<Rightarrow> [] | Some h \<Rightarrow> [''-v'', utf8_lossy h @ '':/etc/hosts:ro''])
     @ concat (map bind_args (rs_fs_binds s))
     @ (if rs_interactive s \<and> \<not> rs_detached s then [''-it''] else [])
     @ [rs_image s] @ rs_workload s"

definition podman_exec_argv :: "string \<Rightarrow> bool \<Rightarrow> string list \<Rightarrow> string list" where
  "podman_exec_argv ctr interactive workload =
     [''exec''] @ (if interactive then [''-it''] else []) @ [''--workdir'', ''/work'', ctr] @ workload"

definition setquota_argv :: "u32 \<Rightarrow> u64 \<Rightarrow> string \<Rightarrow> string list" where
  "setquota_argv project kib fs =
     [''-P'', show_uint project, ''0'', show_uint kib, ''0'', ''0'', fs]"

definition derive_run_argv :: "string \<Rightarrow> string \<Rightarrow> string \<Rightarrow> string list" where
  "derive_run_argv name img hosts =
     [''run'', ''-d'', ''--name'', ''shrek-bench-'' @ name, ''--network=none'', ''--no-hosts'',
      ''--runtime'', ''crun'', ''-v'', utf8_lossy hosts @ '':/etc/hosts:ro'', img, ''sleep'', ''infinity'']"

definition derive_exec_argv :: "string \<Rightarrow> string list \<Rightarrow> string list" where
  "derive_exec_argv ctr cmd = [''exec'', ctr] @ cmd"

definition apt_base_name :: "string \<Rightarrow> string" where
  "apt_base_name token = hd (str_split (CHR ''='') token)"

definition pip_norm_name :: "string \<Rightarrow> string" where
  "pip_norm_name s =
     map (\<lambda>c. if c = CHR ''_'' then CHR ''-'' else c)
       (map ascii_lower (str_trim (takeWhile (\<lambda>c. c \<notin> set ''=<>~!@ ['' \<union> {tab}) s)))"

section \<open>Facts about characters and percent coding\<close>

lemma pct_bytes_Cons: "c \<noteq> CHR ''%'' \<Longrightarrow> pct_bytes (c # t) = map_option ((#) c) (pct_bytes t)"
  by (cases t rule: pct_bytes.cases; cases "tl t") auto

lemma pct_bytes_plain:
  "CHR ''%'' \<notin> set c \<Longrightarrow> pct_bytes (c @ t) = map_option ((@) c) (pct_bytes t)"
proof (induction c)
  case Nil
  show ?case by (cases "pct_bytes t") simp_all
next
  case (Cons a c)
  then show ?case by (cases "pct_bytes t") (auto simp: pct_bytes_Cons)
qed

lemma hex_digit_facts:
  assumes "n < 16"
  shows "hex_val (hex_digit n) = Some n" "hex_digit n \<noteq> CHR ''+''" "\<not> cont_byte (hex_digit n)"
    "is_graphic (hex_digit n)"
proof -
  have "list_all (\<lambda>n. hex_val (hex_digit n) = Some n \<and> hex_digit n \<noteq> CHR ''+''
      \<and> \<not> cont_byte (hex_digit n) \<and> is_graphic (hex_digit n)) [0..<16]"
    by code_simp
  then show "hex_val (hex_digit n) = Some n" "hex_digit n \<noteq> CHR ''+''" "\<not> cont_byte (hex_digit n)"
    "is_graphic (hex_digit n)"
    using assms by (auto simp: list_all_iff)
qed

lemma pct_bytes_hex:
  "char_boundary t \<Longrightarrow> pct_bytes (hex_byte b @ t) = map_option ((#) b) (pct_bytes t)"
proof -
  assume t: "char_boundary t"
  define n where "n = (of_char b :: nat)"
  have "n < 256" by (simp add: n_def)
  then have n: "n div 16 < 16" "n mod 16 < 16" "char_of n = b"
    by (simp_all add: n_def less_mult_imp_div_less)
  have "radix16 (hex_digit (n div 16)) (hex_digit (n mod 16)) = Some b"
    using hex_digit_facts [OF n(1)] hex_digit_facts [OF n(2)] n(3) by (simp add: radix16_def)
  then show ?thesis
    using t hex_digit_facts(3) [OF n(1)] by (simp add: hex_byte_def n_def [symmetric] char_boundary_def [of "_ # _"])
qed

lemma hex_bytes_boundary: "char_boundary t \<Longrightarrow> char_boundary (concat (map hex_byte c) @ t)"
  by (cases c) (simp_all add: hex_byte_def char_boundary_def cont_byte_def)

lemma pct_bytes_hexes:
  "char_boundary t \<Longrightarrow> pct_bytes (concat (map hex_byte c) @ t) = map_option ((@) c) (pct_bytes t)"
proof (induction c)
  case Nil
  show ?case by (cases "pct_bytes t") simp_all
next
  case (Cons b c)
  then show ?case
    using pct_bytes_hex [OF hex_bytes_boundary [OF Cons.prems]] by (cases "pct_bytes t") simp_all
qed

lemma percent_high: "CHR 0x80 \<le> c \<Longrightarrow> c \<noteq> CHR ''%''"
  by (auto simp: less_eq_char_def)

text \<open>One character of the input: escaped or not, it is decoded to itself.\<close>

lemma pct_bytes_char:
  assumes c: "c = take (utf8_len s) s" "utf8_len s \<noteq> 0" and t: "char_boundary t"
  shows "pct_bytes (pct_char c @ t) = map_option ((@) c) (pct_bytes t) \<and> char_boundary (pct_char c @ t)"
proof (cases "c = ''%'' \<or> c = [sp] \<or> ctl_char c")
  case True
  then have "pct_char c = concat (map hex_byte c)"
    by (simp add: pct_char_def)
  then show ?thesis
    using pct_bytes_hexes [OF t] hex_bytes_boundary [OF t] by metis
next
  case False
  have "CHR ''%'' \<notin> set c \<and> c \<noteq> [] \<and> \<not> cont_byte (hd c)"
    using c(2)
  proof (cases rule: utf8_len_cases)
    case (one a)
    then show ?thesis using False ascii_not_cont by (auto simp: c(1))
  next
    case (more a x)
    have "CHR 0x80 \<le> a" using more(2) by (rule above)
    then show ?thesis
      using more(1,3) percent_high lead_byte [OF more(2)] unfolding c(1) by auto
  qed
  moreover have "pct_char c = c"
    using False by (simp add: pct_char_def)
  ultimately show ?thesis
    using pct_bytes_plain [of c t] by (cases c) (simp_all add: char_boundary_def)
qed

lemma pct_bytes_encode:
  "utf8_ok s \<Longrightarrow> pct_bytes (pct_encode s) = Some s \<and> char_boundary (pct_encode s)"
proof (induction s rule: utf8_ok.induct)
  case (1 s)
  show ?case
  proof (cases "s = []")
    case True
    then show ?thesis by (simp add: pct_encode_def char_boundary_def)
  next
    case False
    define c where "c = take (utf8_len s) s"
    define t where "t = drop (utf8_len s) s"
    have step: "utf8_chars s = c # utf8_chars t" "utf8_len s \<noteq> 0" "utf8_ok t"
      using utf8_chars_step [OF "1.prems" False] by (simp_all add: c_def t_def)
    have "pct_bytes (pct_encode t) = Some t" "char_boundary (pct_encode t)"
      using "1.IH" [OF False step(2)] step(3) by (simp_all add: t_def)
    moreover have "pct_encode s = pct_char c @ pct_encode t"
      by (simp add: pct_encode_def step(1))
    moreover have "c @ t = s"
      by (simp add: c_def t_def)
    ultimately show ?thesis
      using pct_bytes_char [OF c_def step(2), of "pct_encode t"] by simp
  qed
qed

lemma pct_decode_encode [simp]: "utf8_ok s \<Longrightarrow> pct_decode (pct_encode s) = Some s"
  using pct_bytes_encode [of s] by (simp add: pct_decode_def)

text \<open>What is encoded is one word of a record line: no space, no line feed, no carriage return.\<close>

definition word_byte :: "char \<Rightarrow> bool" where
  "word_byte c \<longleftrightarrow> is_graphic c \<or> CHR 0x80 \<le> c"

lemma word_byte_not: "word_byte c \<Longrightarrow> c \<noteq> sp \<and> c \<noteq> nl \<and> c \<noteq> cr"
  by (auto simp: word_byte_def byte_class_defs less_eq_char_def)

lemma ascii_word_byte:
  "a < CHR 0x80 \<Longrightarrow> \<not> is_control a \<Longrightarrow> a \<noteq> sp \<Longrightarrow> word_byte a"
proof -
  assume a: "a < CHR 0x80" "\<not> is_control a" "a \<noteq> sp"
  define n where "n = (of_char a :: nat)"
  have "n < 128" "32 \<le> n" "n \<noteq> 127"
    using a(1,2) of_char_eq_iff [of a "CHR 0x7F", where 'a = nat]
    by (auto simp: n_def is_control_def less_char_def)
  moreover have "n \<noteq> 32"
    using a(3) of_char_eq_iff [of a sp, where 'a = nat] by (auto simp: n_def)
  ultimately show ?thesis
    by (simp add: word_byte_def is_graphic_def less_eq_char_def n_def [symmetric])
qed

lemma hex_bytes_word: "x \<in> set (concat (map hex_byte c)) \<Longrightarrow> is_graphic x"
proof -
  assume "x \<in> set (concat (map hex_byte c))"
  then obtain b where "x \<in> set (hex_byte b)" by auto
  moreover define n where "n = (of_char b :: nat)"
  moreover have "n < 256" by (simp add: n_def)
  moreover have "is_graphic (CHR ''%'')" by (simp add: is_graphic_def)
  ultimately show ?thesis
    using hex_digit_facts(4) [of "n div 16"] hex_digit_facts(4) [of "n mod 16"]
    by (auto simp: hex_byte_def less_mult_imp_div_less)
qed

lemma pct_char_word:
  assumes "utf8_len s \<noteq> 0" "c = take (utf8_len s) s"
  shows "list_all word_byte (pct_char c) \<and> utf8_ok (pct_char c)"
proof (cases "c = ''%'' \<or> c = [sp] \<or> ctl_char c")
  case True
  then have e: "pct_char c = concat (map hex_byte c)"
    by (simp add: pct_char_def)
  have "\<forall>x \<in> set (pct_char c). is_graphic x"
    unfolding e using hex_bytes_word by blast
  then show ?thesis
    using utf8_ok_graphic by (auto simp: list_all_iff word_byte_def)
next
  case False
  then have e: "pct_char c = c"
    by (simp add: pct_char_def)
  have "list_all word_byte c"
    using assms(1)
  proof (cases rule: utf8_len_cases)
    case (one a)
    then show ?thesis using False ascii_word_byte [of a] by (simp add: assms(2) ctl_char_def)
  next
    case (more a x)
    then show ?thesis using above(6) [OF more(2)] by (simp add: assms(2) list_all_iff word_byte_def)
  qed
  moreover have "utf8_ok c"
    unfolding assms(2) by (rule utf8_ok_first [OF assms(1)])
  ultimately show ?thesis
    unfolding e ..
qed

lemma pct_encode_word:
  "utf8_ok s \<Longrightarrow> list_all word_byte (pct_encode s) \<and> utf8_ok (pct_encode s)"
proof (induction s rule: utf8_ok.induct)
  case (1 s)
  show ?case
  proof (cases "s = []")
    case False
    note step = utf8_chars_step [OF "1.prems" False]
    then have "pct_encode s = pct_char (take (utf8_len s) s) @ pct_encode (drop (utf8_len s) s)"
      by (simp add: pct_encode_def)
    then show ?thesis
      using "1.IH" [OF False] step pct_char_word [OF _ refl, of s] by (simp add: utf8_ok_append)
  qed (simp add: pct_encode_def)
qed

lemma word_line: "list_all word_byte v \<Longrightarrow> utf8_ok v \<Longrightarrow> line_ok v"
  using word_byte_not by (auto simp: line_ok_def list_all_iff)

section \<open>Facts about exports and grants\<close>

definition wf_export :: "export \<Rightarrow> bool" where
  "wf_export x \<longleftrightarrow>
     list_all word_byte (ex_key x) \<and> utf8_ok (ex_key x) \<and> list_all word_byte (ex_file x) \<and> utf8_ok (ex_file x)
     \<and> list_all word_byte (ex_icon x) \<and> utf8_ok (ex_icon x) \<and> utf8_ok (ex_label x)
     \<and> ex_cmd x \<noteq> [] \<and> list_all utf8_ok (ex_cmd x)"

lemma word_no_sp: "list_all word_byte v \<Longrightarrow> sp \<notin> set v"
  using word_byte_not by (auto simp: list_all_iff)

lemma pct_decode_all_encode: "list_all utf8_ok as \<Longrightarrow> pct_decode_all (map pct_encode as) = Some as"
  by (induction as) simp_all

definition export_words :: "export \<Rightarrow> string list" where
  "export_words x = [ex_key x, ex_file x, ex_icon x, pct_encode (ex_label x)] @ map pct_encode (ex_cmd x)"

lemma export_words_ok: "wf_export x \<Longrightarrow> w \<in> set (export_words x) \<Longrightarrow> list_all word_byte w \<and> utf8_ok w"
  using pct_encode_word by (auto simp: export_words_def wf_export_def list_all_iff)

lemma export_parse_encode: "wf_export x \<Longrightarrow> export_parse (export_encode x) = Some (Some x)"
proof -
  assume wf: "wf_export x"
  have "str_split sp (export_encode x) = export_words x"
    unfolding export_encode_def export_words_def [symmetric]
    by (rule str_split_join) (use export_words_ok [OF wf] word_no_sp in \<open>auto simp: export_words_def\<close>)
  then show ?thesis
    using wf pct_decode_all_encode [of "ex_cmd x"]
    by (simp add: export_parse_def export_words_def wf_export_def)
qed

lemma str_join_word:
  "(\<forall>w \<in> set ws. nl \<notin> set w \<and> cr \<notin> set w \<and> utf8_ok w) \<Longrightarrow>
     nl \<notin> set (str_join [sp] ws) \<and> cr \<notin> set (str_join [sp] ws) \<and> utf8_ok (str_join [sp] ws)"
proof (induction ws)
  case (Cons w ws)
  have "sp < CHR 0x80" by (simp add: less_char_def)
  then show ?case
    using Cons by (cases "ws = []") (simp_all add: str_join_Cons_ne utf8_ok_append)
qed simp

lemma export_line_ok: "wf_export x \<Longrightarrow> line_ok (export_encode x)"
proof -
  assume wf: "wf_export x"
  have "\<forall>w \<in> set (export_words x). nl \<notin> set w \<and> cr \<notin> set w \<and> utf8_ok w"
    using export_words_ok [OF wf] word_byte_not by (fastforce simp: list_all_iff)
  moreover have e: "export_encode x = str_join [sp] (export_words x)"
    by (simp only: export_encode_def export_words_def)
  ultimately have "nl \<notin> set (export_encode x) \<and> cr \<notin> set (export_encode x) \<and> utf8_ok (export_encode x)"
    unfolding e by (intro str_join_word)
  then show ?thesis
    unfolding line_ok_def using last_in_set by metis
qed

lemma grant_parse_encode: "utf8_ok path \<Longrightarrow> grant_parse (grant_encode (Fs rw path)) = Some (Fs rw path)"
  by (cases rw) (simp_all add: grant_parse_def)

lemma grant_parse_net: "grant_parse (grant_encode (Net p)) = Some (Net p)"
  by (simp add: grant_parse_def)

lemma profile_set_loop_Inr:
  "profile_set_loop acc ps = Inr out \<longleftrightarrow>
     out = acc @ ps \<and> distinct ps \<and> set ps \<inter> set acc = {}
     \<and> (\<forall>p \<in> set ps. \<not> str_starts_with p ''-'' \<and> resolve p \<noteq> None)"
  by (induction acc ps rule: profile_set_loop.induct) auto

text \<open>Which volumes an argument vector mounts: what follows each \<open>-v\<close>.\<close>

fun volumes :: "string list \<Rightarrow> string list" where
  "volumes (a # v # r) = (if a = ''-v'' then v # volumes r else volumes (v # r))"
| "volumes [a] = []"
| "volumes [] = []"

definition run_opts :: "run_spec \<Rightarrow> string list" where
  "run_opts s =
     [''run''] @ (if rs_remove s then [''--rm''] else []) @ (if rs_detached s then [''-d''] else [])
     @ [''--name'', ''shrek-bench-'' @ rs_name s, ''--network=none'', ''--no-hosts'', ''--runtime'',
        ''crun'', ''-v'', utf8_lossy (rs_data s) @ '':/work'', ''-w'', ''/work'']
     @ (case rs_hosts_bind s of None \<Rightarrow> [] | Some h \<Rightarrow> [''-v'', utf8_lossy h @ '':/etc/hosts:ro''])
     @ concat (map bind_args (rs_fs_binds s))
     @ (if rs_interactive s \<and> \<not> rs_detached s then [''-it''] else [])"

definition bind_volume :: "fs_bind \<Rightarrow> string" where
  "bind_volume b = utf8_lossy (fb_target b) @ '':/grants/'' @ fb_leaf b
     @ (if fb_rw b then '':rw'' else '':ro'') @ '',noexec,nodev,nosuid''"

lemma volumes_bind: "volumes (bind_args b @ r) = bind_volume b # volumes r"
  by (simp add: bind_args_def bind_volume_def grant_mountpoint_def)

lemma volumes_binds: "volumes (concat (map bind_args bs) @ r) = map bind_volume bs @ volumes r"
  by (induction bs) (simp_all add: volumes_bind)

lemma volumes_skip: "a \<noteq> ''-v'' \<Longrightarrow> volumes (a # r) = volumes r"
  by (cases r) simp_all

lemma podman_run_argv_opts: "podman_run_argv s = run_opts s @ rs_image s # rs_workload s"
  by (simp only: podman_run_argv_def run_opts_def append_assoc append_Cons append_Nil)

lemma volumes_run_opts:
  "volumes (run_opts s) =
     (utf8_lossy (rs_data s) @ '':/work'')
     # (case rs_hosts_bind s of None \<Rightarrow> [] | Some h \<Rightarrow> [utf8_lossy h @ '':/etc/hosts:ro''])
     @ map bind_volume (rs_fs_binds s)"
  unfolding run_opts_def
  by (simp add: volumes_skip volumes_binds volumes_binds [where r = "[]", simplified] split: option.splits)

lemma sanitize_label_line: "sanitize_label opt = Some l \<Longrightarrow> nl \<notin> set l \<and> cr \<notin> set l \<and> l \<noteq> []"
proof -
  assume "sanitize_label opt = Some l"
  then obtain s where l: "l = str_trim (concat (take 64 (filter (\<lambda>c. \<not> ctl_char c) (utf8_chars s))))"
    and ne: "l \<noteq> []"
    by (auto simp: sanitize_label_def Option.bind_eq_Some_conv Let_def split: if_splits)
  have "set l \<subseteq> (\<Union>c \<in> {c \<in> set (utf8_chars s). \<not> ctl_char c}. set c)"
    unfolding l by (rule order_trans [OF str_trim_set]) (auto dest!: in_set_takeD)
  then show ?thesis
    using chars_no_newline [of _ s] ne by blast
qed

lemma escape_backslash_set: "set (escape_backslash s) \<subseteq> set s"
  by (auto simp: escape_backslash_def split: if_splits)

section \<open>Properties\<close>

text \<open>
  An export is stored faithfully: whatever text the label and the command hold, the line written
  into the record is a single line and is parsed back to the same export.
\<close>

theorem export_roundtrip:
  assumes "wf_export x"
  shows "export_parse (export_encode x) = Some (Some x) \<and> line_ok (export_encode x)"
  using export_parse_encode [OF assms] export_line_ok [OF assms] ..

theorem export_roundtrip_witness:
  "export_parse (export_encode \<lparr>ex_key = ''k'', ex_file = ''f'', ex_icon = ''i'', ex_label = ''a b'',
     ex_cmd = [''sh'', ''%'']\<rparr>) \<noteq> Some None"
proof -
  have "wf_export \<lparr>ex_key = ''k'', ex_file = ''f'', ex_icon = ''i'', ex_label = ''a b'', ex_cmd = [''sh'', ''%'']\<rparr>"
    by code_simp
  from export_roundtrip [OF this] show ?thesis by simp
qed

text \<open>
  The decoder of the request frames aborts: a percent sign, one ASCII byte and a two byte
  character are valid UTF-8, and slicing two bytes after the percent sign cuts the character, which
  panics (the comment promises that it never does).
\<close>

theorem pct_decode_panics:
  assumes "a < CHR 0x80" "utf8_two b c"
  shows "utf8_ok (CHR ''%'' # a # b # c # t) = utf8_ok t \<and> pct_decode (CHR ''%'' # a # b # c # t) = None"
proof -
  have "CHR ''%'' < CHR 0x80" by (simp add: less_char_def)
  moreover have "\<not> b < CHR 0x80"
    using utf8_two_bytes [OF assms(2)] lead_byte by blast
  then have "utf8_ok (b # c # t) = utf8_ok t"
    using assms(2) by (simp add: utf8_ok.simps [of "b # c # t"] utf8_len.simps)
  moreover have "pct_bytes (CHR ''%'' # a # b # c # t) = None"
    using assms(2) by (simp add: char_boundary_def utf8_two_def)
  ultimately show ?thesis
    using assms(1) by (simp add: pct_decode_def)
qed

theorem pct_decode_panics_witness:
  "utf8_ok [CHR ''%'', CHR ''a'', CHR 0xC3, CHR 0xA9]
   \<and> pct_decode [CHR ''%'', CHR ''a'', CHR 0xC3, CHR 0xA9] = None"
  using pct_decode_panics [of "CHR ''a''" "CHR 0xC3" "CHR 0xA9" "[]"]
  by (simp add: utf8_two_def cont_byte_def less_char_def less_eq_char_def)

text \<open>
  The declared egress set of a bench is accepted exactly when it is \<open>none\<close> alone (and then it is
  empty) or a non-empty list of distinct sealed profiles, and it is then taken as given.
\<close>

theorem profile_set_exact:
  "validate_profile_set ps = Inr out \<longleftrightarrow>
     ps = [''none''] \<and> out = []
     \<or> out = ps \<and> ''none'' \<notin> set ps \<and> ps \<noteq> [] \<and> distinct ps
        \<and> list_all (\<lambda>p. resolve p \<in> range Some \<and> str_starts_with p ''-'' = False) ps"
proof -
  have "resolve p \<noteq> None \<longleftrightarrow> resolve p \<in> range Some" for p by (cases "resolve p") auto
  then show ?thesis
    by (auto simp: validate_profile_set_def profile_set_loop_Inr list_all_iff length_Suc_conv)
qed

text \<open>
  A bench container is started without a network of its own, and the only host paths it sees are
  its data directory, the read-only hosts file of a networked run and the bound grants, each without
  exec, devices or setuid and read-write only for a read-write grant; the workload comes after the
  image, where it cannot add options.
\<close>

theorem run_argv_confined:
  "podman_run_argv s = run_opts s @ rs_image s # rs_workload s
   \<and> ''--network=none'' \<in> set (run_opts s) \<and> ''--no-hosts'' \<in> set (run_opts s)
   \<and> volumes (run_opts s) =
       (utf8_lossy (rs_data s) @ '':/work'')
       # (case rs_hosts_bind s of None \<Rightarrow> [] | Some h \<Rightarrow> [utf8_lossy h @ '':/etc/hosts:ro''])
       @ map bind_volume (rs_fs_binds s)"
  unfolding volumes_run_opts podman_run_argv_opts by (simp add: run_opts_def)

text \<open>
  The launcher file of an export runs the baked wrapper with the bench and the key, whatever label
  was asked for: it has exactly one \<open>Exec\<close> line, and the label cannot add another.
\<close>

theorem launcher_exec_fixed:
  assumes "valid_bench_name bench" "valid_bench_name key" "valid_icon icon" "sanitize_label opt = Some label"
  shows "filter (\<lambda>l. str_starts_with l ''Exec='') (str_lines (desktop_content bench key label icon))
    = [''Exec=/usr/bin/shrek-bench-run '' @ bench @ '' '' @ key]"
proof -
  have "\<forall>c \<in> set icon. is_graphic c"
    using assms(3) by (auto simp: valid_icon_def list_all_iff dest: token_byte_graphic)
  then have plain: "text_line bench" "text_line key" "text_line icon"
    using assms(1,2) by (auto intro!: text_line_graphic bench_name_graphic)
  have "nl \<notin> set (escape_backslash label)" "cr \<notin> set (escape_backslash label)"
    using sanitize_label_line [OF assms(4)] escape_backslash_set by blast+
  then have name: "clean_line (''Name='' @ escape_backslash label)"
    by (intro clean_lineI) simp_all
  have lits: "text_line ''[Desktop Entry]''" "text_line ''Version=1.0''" "text_line ''Type=Application''"
    "text_line ''GenericName=Shrek Bench app''" "text_line ''Comment=Runs in the ''"
    "text_line '' Bench (Shrek OS)''" "text_line ''Exec=/usr/bin/shrek-bench-run ''" "text_line '' ''"
    "text_line ''Icon=''" "text_line ''Terminal=false''" "text_line ''Categories=Utility;''"
    "text_line ''X-Shrek-Bench=''"
    by code_simp+
  define ls where "ls =
     [''[Desktop Entry]'', ''Version=1.0'', ''Type=Application'', ''Name='' @ escape_backslash label,
      ''GenericName=Shrek Bench app'', ''Comment=Runs in the '' @ bench @ '' Bench (Shrek OS)'',
      ''Exec=/usr/bin/shrek-bench-run '' @ bench @ '' '' @ key, ''Icon='' @ icon, ''Terminal=false'',
      ''Categories=Utility;'', ''X-Shrek-Bench='' @ bench]"
  have "list_all (\<lambda>l. text_line l \<or> clean_line l) ls"
    using lits plain name by (simp only: ls_def list.pred_inject text_line_simps(3) simp_thms)
  then have "\<forall>l \<in> set ls. clean_line l"
    using text_line_clean unfolding list_all_iff by blast
  then have "str_lines (desktop_content bench key label icon) = ls"
    by (simp only: desktop_content_def ls_def [symmetric] str_lines_unlines)
  then show ?thesis
    by (simp add: ls_def str_starts_with_def)
qed

theorem launcher_exec_fixed_witness:
  "filter (\<lambda>l. str_starts_with l ''Exec='') (str_lines (desktop_content ''media'' ''k'' ''hi'' ''i''))
    = [''Exec=/usr/bin/shrek-bench-run media k'']"
proof -
  have "valid_bench_name ''media''" "valid_bench_name ''k''" "valid_icon ''i''"
    "sanitize_label (Some ''hi'') = Some ''hi''"
    by code_simp+
  from launcher_exec_fixed [OF this] show ?thesis by simp
qed

end
