(* ===== verification/Authority_Plan.thy ===== *)
theory Authority_Plan
  imports Bench_Grant
begin

text \<open>
  The plan of one authority-increasing request, \<open>AuthorityPlan\<close> and \<open>CommitKind\<close> of
  \<open>bench_plane.rs\<close> and \<open>Op\<close> of \<open>desktop_egress.rs\<close>: what the human is shown (the action line, the
  rows, the warnings), whether the typed code is demanded, and what the commit will do.
\<close>

record ident =
  id_dev_major :: u32
  id_dev_minor :: u32
  id_ino :: u64

datatype op =
    BlessProfile string
  | UnblessProfile string
  | AddRaw string
  | RemoveRaw string
  | ManifestInstall string string
  | ManifestRemove string

datatype commit_kind =
    GrantDir (kd_canonical: string) (kd_leaf: string) (kd_rw: bool) (kd_ident: ident)
  | Network (kd_profiles: "string list")
  | DesktopEgress (kd_op: op) (kd_warnings: "string list")
  | ExportApp (kd_key: string) (kd_file: string) (kd_icon: string) (kd_label: string) (kd_cmd: "string list")
  | Promote (kd_workshop: string) (kd_seed: string) (kd_apt: "string list") (kd_pip: "string list")
      (kd_grants: "string list") (kd_exports: "string list")
  | Launch (kd_lseed: string) (kd_lapt: "string list") (kd_lpip: "string list") (kd_lgrants: "string list")
      (kd_workload: "string list") (kd_refresh: bool) (kd_offline: bool)

record authority_plan =
  ap_bench :: string
  ap_rows :: "(string \<times> string) list"
  ap_trifecta :: bool
  ap_kind :: commit_kind

definition high_authority :: "authority_plan \<Rightarrow> bool" where
  "high_authority plan \<longleftrightarrow>
     (case ap_kind plan of
        ExportApp _ _ _ _ _ \<Rightarrow> True
      | GrantDir _ _ rw _ \<Rightarrow> rw
      | Promote _ _ _ _ _ _ \<Rightarrow> True
      | Launch _ _ _ _ _ _ _ \<Rightarrow> True
      | DesktopEgress _ _ \<Rightarrow> True
      | Network _ \<Rightarrow> False)"

abbreviation quote :: string where
  "quote \<equiv> [CHR 0x27]"

fun op_action :: "op \<Rightarrow> string" where
  "op_action (BlessProfile p) = ''ALLOW broad desktop egress: bless '' @ quote @ p @ quote"
| "op_action (UnblessProfile p) = ''REVOKE desktop egress: unbless '' @ quote @ p @ quote"
| "op_action (AddRaw t) = ''ALLOW a raw desktop destination: '' @ t"
| "op_action (RemoveRaw t) = ''REMOVE a raw desktop destination: '' @ t"
| "op_action (ManifestInstall name text) = ''INSTALL the owner network capability '' @ quote @ name @ quote"
| "op_action (ManifestRemove name) = ''REMOVE the owner network capability '' @ quote @ name @ quote"

definition plan_action :: "authority_plan \<Rightarrow> string" where
  "plan_action plan =
     (let b = quote @ ap_bench plan @ quote in
      case ap_kind plan of
        GrantDir _ _ rw _ \<Rightarrow>
          ''GRANT a host folder ('' @ (if rw then ''read-write'' else ''read-only'') @ '') to bench '' @ b
      | Network _ \<Rightarrow> ''SET the network egress on bench '' @ b
      | ExportApp _ _ _ _ _ \<Rightarrow> ''EXPORT a desktop launcher for bench '' @ b
      | Promote workshop _ _ _ _ _ \<Rightarrow>
          ''PROMOTE bench '' @ b @ '' to the Workshop recipe '' @ quote @ workshop @ quote
      | Launch _ _ _ _ _ _ _ \<Rightarrow>
          ''LAUNCH the Workshop recipe '' @ b @ '' (re-derive its environment + run)''
      | DesktopEgress op _ \<Rightarrow> op_action op)"

definition plan_warnings :: "authority_plan \<Rightarrow> string list" where
  "plan_warnings plan = (case ap_kind plan of DesktopEgress _ ws \<Rightarrow> ws | _ \<Rightarrow> [])"

definition desktop_egress_plan :: "op \<Rightarrow> string \<Rightarrow> (string \<times> string) list \<Rightarrow> bool \<Rightarrow> string list \<Rightarrow> authority_plan" where
  "desktop_egress_plan op subject rows trifecta warnings =
     \<lparr>ap_bench = subject, ap_rows = rows, ap_trifecta = trifecta, ap_kind = DesktopEgress op warnings\<rparr>"

end
