(* ===== verification/Bench_World.thy ===== *)
theory Bench_World
  imports Authority_Plan
begin

text \<open>
  The bench plane of \<open>gatekeeperd\<close>, \<open>bench_plane.rs\<close>: its world and the lifecycle verbs (create,
  run, reset, quota, destroy, run-export, unexport, reissue).

  The world holds what the verbs change: the root-owned records and recipes, the launcher files in
  the desktop user's directory, the bind mounts under \<open>/run\<close>, quotas, data directories, live egress,
  container images, and the log of \<open>podman\<close> calls.  \<open>bw_wiped\<close> is a history variable: the host
  directories whose contents a recursive removal went through a live read-write bind mount.  What the
  kernel, the tools and the file system answer during one verb are fields of the surroundings
  \<open>bench_env\<close>; they may differ from verb to verb, and between a precheck and its commit.

  A verb that decodes export lines returns an option, whose \<open>None\<close> is the abort of the process.
\<close>

section \<open>World\<close>

record bench_env =
  be_now :: u64
  be_canon :: "string \<Rightarrow> string option"
  be_isdir :: "string \<Rightarrow> bool"
  be_anchor :: bool
  be_pin :: "string list \<Rightarrow> (ident \<times> bool) option"
  be_mkdir :: "string \<Rightarrow> bool"
  be_chattr :: "u32 \<Rightarrow> string \<Rightarrow> bool"
  be_chown :: "string \<Rightarrow> bool"
  be_quota :: "u32 \<Rightarrow> u64 \<Rightarrow> bool"
  be_prepare :: "string \<Rightarrow> bool"
  be_relocate :: "bool \<Rightarrow> ident \<Rightarrow> string \<Rightarrow> bool"
  be_umount :: "string \<Rightarrow> bool"
  be_asdev :: bool
  be_seed_tar :: "string \<Rightarrow> bool"
  be_seed_digest :: "string \<Rightarrow> string option"
  be_new_image :: "string \<Rightarrow> string"
  be_resolve :: "string list \<Rightarrow> nat option"
  be_hosts :: "string \<Rightarrow> bool"
  be_podman :: "string list \<Rightarrow> int"
  be_podman_out :: "string list \<Rightarrow> string"
  be_pid :: "string \<Rightarrow> bool"
  be_distinct :: "string \<Rightarrow> bool"
  be_inject :: "string \<Rightarrow> bool"
  be_attached :: "string \<Rightarrow> bool"
  be_sha :: "string \<Rightarrow> string option"
  be_stage :: bool
  be_relay :: "string \<Rightarrow> string \<Rightarrow> int"

record bench_world =
  bw_records :: dir
  bw_workshops :: dir
  bw_cache :: dir
  bw_apps :: dir
  bw_mounts :: "(string \<times> ident \<times> bool) list"
  bw_quota :: "(u32 \<times> u64) list"
  bw_data :: "(string \<times> string list) list"
  bw_net :: "(string \<times> string list) list"
  bw_images :: "(string \<times> string) list"
  bw_log :: "string list list"
  bw_wiped :: "ident list"
  bw_staged :: "(string \<times> string) list"
  bw_relayed :: "(string \<times> string) list"

section \<open>Places\<close>

definition anchor_dir :: string where
  "anchor_dir = ''/home/dev''"

definition data_dir :: "string \<Rightarrow> string" where
  "data_dir name = path_join ''/home/.shrek/benches/b'' name"

definition bench_run_dir :: "string \<Rightarrow> string" where
  "bench_run_dir i = path_join ''/run/shrek/bench'' i"

definition grants_dir :: "string \<Rightarrow> string" where
  "grants_dir i = path_join (bench_run_dir i) ''grants''"

definition hosts_file :: "string \<Rightarrow> string" where
  "hosts_file i = path_join (bench_run_dir i) ''hosts''"

definition net_id :: "string \<Rightarrow> string" where
  "net_id i = ''bench-'' @ i"

section \<open>Small operations\<close>

definition save_record :: "bench_world \<Rightarrow> bench_record \<Rightarrow> bench_world option" where
  "save_record w r =
     (case bench_write_record (bw_records w) r of Inl _ \<Rightarrow> None | Inr d \<Rightarrow> Some (w\<lparr>bw_records := d\<rparr>))"

definition save_ignoring :: "bench_world \<Rightarrow> bench_record \<Rightarrow> bench_world" where
  "save_ignoring w r = (case save_record w r of None \<Rightarrow> w | Some w' \<Rightarrow> w')"

definition load_bench :: "bench_world \<Rightarrow> string \<Rightarrow> bench_record option" where
  "load_bench w name = bench_load_record (bw_records w) name"

definition records :: "bench_world \<Rightarrow> bench_record list" where
  "records w = bench_list_records (bw_records w)"

definition apply_quota :: "bench_env \<Rightarrow> bench_world \<Rightarrow> u32 \<Rightarrow> u64 \<Rightarrow> bool \<times> bench_world" where
  "apply_quota e w p k =
     (if be_quota e p k then (True, w\<lparr>bw_quota := AList.update p k (bw_quota w)\<rparr>) else (False, w))"

definition podman :: "bench_env \<Rightarrow> string list \<Rightarrow> bench_world \<Rightarrow> int \<times> bench_world" where
  "podman e argv w = (be_podman e argv, w\<lparr>bw_log := bw_log w @ [argv]\<rparr>)"

definition podman_rm :: "bench_env \<Rightarrow> string \<Rightarrow> bench_world \<Rightarrow> bench_world" where
  "podman_rm e name w = snd (podman e [''rm'', ''-f'', ''-t'', ''0'', ''shrek-bench-'' @ name] w)"

definition net_down :: "string \<Rightarrow> bench_world \<Rightarrow> bench_world" where
  "net_down i w = w\<lparr>bw_net := AList.delete (net_id i) (bw_net w)\<rparr>"

definition net_up :: "string \<Rightarrow> string list \<Rightarrow> bench_world \<Rightarrow> bench_world" where
  "net_up i ps w = w\<lparr>bw_net := AList.update (net_id i) ps (bw_net w)\<rparr>"

definition podman_image_id :: "bench_world \<Rightarrow> string \<Rightarrow> string option" where
  "podman_image_id w tag =
     Option.bind (map_of (bw_images w) tag) (\<lambda>s. if str_trim s = [] then None else Some (str_trim s))"

definition ensure_seed :: "bench_env \<Rightarrow> string \<Rightarrow> bench_world \<Rightarrow> bench_world" where
  "ensure_seed e seed w =
     (let tar = (case seed_lookup seed of Some s \<Rightarrow> seed_tar s | None \<Rightarrow> ''scratch.tar'') in
      if \<not> be_seed_tar e tar then w
      else
        let want = Option.bind (be_seed_digest e tar)
              (\<lambda>s. if str_trim s = [] then None else Some (str_trim s));
            have_id = (case podman_image_id w (seed_image_of seed) of Some i \<Rightarrow> i | None \<Rightarrow> [])
        in if seed_is_fresh want have_id then w
           else (let (c, w1) = podman e [''load'', ''-i'', ''/usr/share/shrek/bench/seeds/'' @ tar] w in
                 if c = 0
                 then w1\<lparr>bw_images := AList.update (seed_image_of seed) (be_new_image e (seed_image_of seed)) (bw_images w1)\<rparr>
                 else w1))"

definition remove_desktop_as_dev :: "bench_env \<Rightarrow> string \<Rightarrow> bench_world \<Rightarrow> bench_world" where
  "remove_desktop_as_dev e file w =
     (if \<not> valid_desktop_file file \<or> \<not> be_asdev e then w
      else (case remove_if_present (bw_apps w) file of Inl _ \<Rightarrow> w | Inr d \<Rightarrow> w\<lparr>bw_apps := d\<rparr>))"

definition write_desktop_as_dev :: "bench_env \<Rightarrow> string \<Rightarrow> string \<Rightarrow> bench_world \<Rightarrow> bench_world option" where
  "write_desktop_as_dev e file content w =
     (if \<not> be_asdev e \<or> dir_content (bw_apps w) file \<noteq> None then None
      else (case atomic_write (bw_apps w) file content of Inl _ \<Rightarrow> None | Inr d \<Rightarrow> Some (w\<lparr>bw_apps := d\<rparr>)))"

section \<open>Grants\<close>

definition fs_grants :: "string list \<Rightarrow> (bool \<times> string) list" where
  "fs_grants gs = List.map_filter (\<lambda>g. case grant_parse g of Some (Fs rw path) \<Rightarrow> Some (rw, path) | _ \<Rightarrow> None) gs"

definition is_mountpoint :: "bench_world \<Rightarrow> string \<Rightarrow> bool" where
  "is_mountpoint w target \<longleftrightarrow> target \<in> fst ` set (bw_mounts w)"

definition relocate :: "bench_env \<Rightarrow> bench_world \<Rightarrow> bool \<Rightarrow> ident \<Rightarrow> string \<Rightarrow> bench_world option" where
  "relocate e w rw obj target =
     (if be_relocate e rw obj target then Some (w\<lparr>bw_mounts := (target, obj, rw) # bw_mounts w\<rparr>) else None)"

definition pin_target :: "bench_env \<Rightarrow> string \<Rightarrow> (ident \<times> bool) option" where
  "pin_target e src = do {
     rel \<leftarrow> path_rel src anchor_dir;
     if utf8_ok (str_join ''/'' rel) \<and> be_anchor e then be_pin e rel else None }"

definition materialize_one :: "bench_env \<Rightarrow> bench_world \<Rightarrow> bool \<Rightarrow> string \<Rightarrow> string \<Rightarrow> bench_world option" where
  "materialize_one e w rw src target =
     (case pin_target e src of
        None \<Rightarrow> None
      | Some (obj, isdir) \<Rightarrow>
          if \<not> isdir then None
          else if is_mountpoint w target then Some w
          else relocate e w rw obj target)"

fun materialize_loop :: "bench_env \<Rightarrow> string \<Rightarrow> (bool \<times> string) list \<Rightarrow> bench_world \<Rightarrow> bool \<times> bench_world" where
  "materialize_loop e i [] w = (True, w)"
| "materialize_loop e i ((rw, path) # gs) w =
     (case fs_leaf path of
        None \<Rightarrow> (False, w)
      | Some leaf \<Rightarrow>
          (case materialize_one e w rw path (path_join (grants_dir i) leaf) of
             None \<Rightarrow> (False, w)
           | Some w' \<Rightarrow> materialize_loop e i gs w'))"

definition ensure_grants_materialized :: "bench_env \<Rightarrow> bench_record \<Rightarrow> bench_world \<Rightarrow> bool \<times> bench_world" where
  "ensure_grants_materialized e r w =
     (if record_has_fs r \<and> \<not> be_prepare e (bn_id r) then (False, w)
      else materialize_loop e (bn_id r) (fs_grants (bn_grants r)) w)"

definition fs_binds_for :: "bench_record \<Rightarrow> fs_bind list" where
  "fs_binds_for r =
     List.map_filter (\<lambda>(rw, path). case fs_leaf path of
        Some leaf \<Rightarrow> Some \<lparr>fb_target = path_join (grants_dir (bn_id r)) leaf, fb_leaf = leaf, fb_rw = rw\<rparr>
      | None \<Rightarrow> None) (fs_grants (bn_grants r))"

definition unmount_grants :: "bench_env \<Rightarrow> bench_record \<Rightarrow> bench_world \<Rightarrow> bench_world" where
  "unmount_grants e r w =
     w\<lparr>bw_mounts := filter (\<lambda>m. \<not> (fst m \<in> fb_target ` set (fs_binds_for r) \<and> be_umount e (fst m))) (bw_mounts w)\<rparr>"

text \<open>\<open>remove_dir_all\<close> of the run directory: it descends into whatever is mounted below it.\<close>

definition remove_run_dir :: "string \<Rightarrow> bench_world \<Rightarrow> bench_world" where
  "remove_run_dir i w =
     w\<lparr>bw_wiped := bw_wiped w @ map (\<lambda>m. fst (snd m))
         (filter (\<lambda>m. snd (snd m) \<and> path_starts_with (fst m) (bench_run_dir i)) (bw_mounts w))\<rparr>"

section \<open>Lifecycle verbs\<close>

definition create_fail :: "bench_env \<Rightarrow> u32 \<Rightarrow> string \<Rightarrow> bench_world \<Rightarrow> int \<times> bench_world" where
  "create_fail e project data w =
     (let w1 = snd (apply_quota e w project 0) in (1, w1\<lparr>bw_data := AList.delete data (bw_data w1)\<rparr>))"

definition new_bench :: "bench_env \<Rightarrow> string \<Rightarrow> u32 \<Rightarrow> u64 \<Rightarrow> string \<Rightarrow> bench_record" where
  "new_bench e name project quota seed =
     \<lparr>bn_name = name, bn_id = name, bn_project = project, bn_quota_kib = quota, bn_created = be_now e,
      bn_state = ''created'', bn_seed = seed, bn_grants = [], bn_exports = []\<rparr>"

definition create :: "bench_env \<Rightarrow> string \<Rightarrow> u64 \<Rightarrow> string \<Rightarrow> bench_world \<Rightarrow> int \<times> bench_world" where
  "create e name quota seed w =
     (if \<not> valid_bench_name name then (2, w)
      else if \<not> valid_seed seed then (2, w)
      else if load_bench w name \<noteq> None then (1, w)
      else
        let project = next_project_id (records w);
            data = data_dir name
        in if \<not> be_mkdir e data then create_fail e project data w
           else
             let w1 = (if map_of (bw_data w) data = None then w\<lparr>bw_data := (data, []) # bw_data w\<rparr> else w)
             in if \<not> be_chattr e project data then create_fail e project data w1
                else
                  let (ok, w2) = apply_quota e w1 project quota
                  in if \<not> ok \<or> \<not> be_chown e data then create_fail e project data w2
                     else (case save_record w2 (new_bench e name project quota seed) of
                             None \<Rightarrow> create_fail e project data w2
                           | Some w3 \<Rightarrow> (0, w3)))"

definition stop_bench :: "bench_record \<Rightarrow> bench_world \<Rightarrow> bench_world" where
  "stop_bench r w = save_ignoring w (r\<lparr>bn_state := ''stopped''\<rparr>)"

definition net_fail :: "bench_env \<Rightarrow> bench_record \<Rightarrow> bench_world \<Rightarrow> int \<times> bench_world" where
  "net_fail e r w = (-1, stop_bench r (podman_rm e (bn_name r) (net_down (bn_id r) w)))"

definition run_workload :: "bench_env \<Rightarrow> bench_record \<Rightarrow> bool \<Rightarrow> string list \<Rightarrow> bench_world \<Rightarrow> int \<times> bench_world" where
  "run_workload e r interactive wl w =
     (let ctr = ''shrek-bench-'' @ bn_name r;
          (code, w1) =
            (if interactive
             then (0, snd (podman e [''stop'', ''-t'', ''2'', ctr] (snd (podman e (podman_exec_argv ctr True [''/bin/sh'']) w))))
             else podman e (podman_exec_argv ctr False wl) w)
      in (code, stop_bench r (podman_rm e (bn_name r) (net_down (bn_id r) w1))))"

definition run_networked ::
  "bench_env \<Rightarrow> bench_record \<Rightarrow> bool \<Rightarrow> string \<Rightarrow> string \<Rightarrow> string list \<Rightarrow> fs_bind list \<Rightarrow> string list
   \<Rightarrow> bench_world \<Rightarrow> int \<times> bench_world" where
  "run_networked e r interactive data img profiles binds wl w =
     (if list_ex (\<lambda>p. resolve p = None) profiles then (1, w)
      else if be_resolve e profiles = None then (1, w)
      else if \<not> be_prepare e (bn_id r) \<or> \<not> be_hosts e (bn_id r) then (1, w)
      else
        let w1 = save_ignoring (net_down (bn_id r) w) (r\<lparr>bn_state := ''running''\<rparr>);
            spec = \<lparr>rs_name = bn_name r, rs_data = data, rs_image = img, rs_interactive = False,
                    rs_detached = True, rs_remove = False, rs_hosts_bind = Some (hosts_file (bn_id r)),
                    rs_fs_binds = binds, rs_workload = [''sleep'', ''infinity'']\<rparr>;
            (c, w2) = podman e (podman_run_argv spec) w1
        in if c \<noteq> 0 then net_fail e r w2
           else if \<not> be_pid e (bn_name r) then net_fail e r w2
           else if \<not> be_distinct e (bn_name r) then net_fail e r w2
           else if \<not> be_inject e (net_id (bn_id r)) then net_fail e r w2
           else
             let w3 = net_up (bn_id r) profiles w2
             in if \<not> be_attached e (net_id (bn_id r)) then net_fail e r w3
                else run_workload e r interactive wl w3)"

definition run_from ::
  "bench_env \<Rightarrow> string \<Rightarrow> bool \<Rightarrow> string list \<Rightarrow> string option \<Rightarrow> bench_world \<Rightarrow> int \<times> bench_world" where
  "run_from e name interactive workload override w =
     (case load_bench w name of
        None \<Rightarrow> (4, w)
      | Some r \<Rightarrow>
          let w1 = ensure_seed e (bn_seed r) w;
              img = (case override of Some t \<Rightarrow> t | None \<Rightarrow> seed_image_of (bn_seed r));
              (ok, w2) = ensure_grants_materialized e r w1
          in if \<not> ok then (1, w2)
             else
               let binds = fs_binds_for r;
                   wl = (if interactive \<and> workload = [] then [''/bin/sh''] else workload);
                   profiles = egress_profiles r
               in if profiles \<noteq> [] then
                    (if \<not> interactive \<and> wl = [] then (2, w2)
                     else run_networked e r interactive (data_dir name) img profiles binds wl w2)
                  else
                    let spec = \<lparr>rs_name = name, rs_data = data_dir name, rs_image = img,
                                rs_interactive = interactive, rs_detached = False, rs_remove = True,
                                rs_hosts_bind = None, rs_fs_binds = binds, rs_workload = wl\<rparr>;
                        w3 = save_ignoring w2 (r\<lparr>bn_state := ''running''\<rparr>);
                        (code, w4) = podman e (podman_run_argv spec) w3
                    in (code, stop_bench r w4))"

definition run :: "bench_env \<Rightarrow> string \<Rightarrow> bool \<Rightarrow> string list \<Rightarrow> bench_world \<Rightarrow> int \<times> bench_world" where
  "run e name interactive workload w = run_from e name interactive workload None w"

definition reset :: "bench_env \<Rightarrow> string \<Rightarrow> bench_world \<Rightarrow> int \<times> bench_world" where
  "reset e name w =
     (case load_bench w name of
        None \<Rightarrow> (4, w)
      | Some r \<Rightarrow>
          let w1 = net_down (bn_id r) (podman_rm e name w);
              w2 = (if map_of (bw_data w1) (data_dir name) = None then w1
                    else w1\<lparr>bw_data := AList.update (data_dir name) [] (bw_data w1)\<rparr>)
          in (0, w2))"

definition quota :: "bench_env \<Rightarrow> string \<Rightarrow> u64 option \<Rightarrow> bench_world \<Rightarrow> int \<times> bench_world" where
  "quota e name kib w =
     (case load_bench w name of
        None \<Rightarrow> (4, w)
      | Some r \<Rightarrow>
          (case kib of
             Some k \<Rightarrow>
               let (ok, w1) = apply_quota e w (bn_project r) k
               in if \<not> ok then (1, w1) else (0, save_ignoring w1 (r\<lparr>bn_quota_kib := k\<rparr>))
           | None \<Rightarrow> (0, w)))"

fun sweep_exports :: "bench_env \<Rightarrow> string list \<Rightarrow> bench_world \<Rightarrow> bench_world option" where
  "sweep_exports e [] w = Some w"
| "sweep_exports e (l # ls) w = do {
     x \<leftarrow> export_parse l;
     sweep_exports e ls (case x of Some y \<Rightarrow> remove_desktop_as_dev e (ex_file y) w | None \<Rightarrow> w) }"

definition destroy :: "bench_env \<Rightarrow> string \<Rightarrow> bench_world \<Rightarrow> (int \<times> bench_world) option" where
  "destroy e name w =
     (case load_bench w name of
        None \<Rightarrow> Some (4, w)
      | Some r \<Rightarrow> do {
          w1 \<leftarrow> sweep_exports e (bn_exports r) w;
          let w2 = unmount_grants e r (net_down (bn_id r) (podman_rm e name w1));
          let w3 = snd (apply_quota e (remove_run_dir (bn_id r) w2) (bn_project r) 0);
          let w4 = w3\<lparr>bw_data := AList.delete (data_dir name) (bw_data w3)\<rparr>;
          let w5 = (case bench_remove_record (bw_records w4) name of
                      Inl _ \<Rightarrow> w4 | Inr d \<Rightarrow> w4\<lparr>bw_records := d\<rparr>);
          Some (0, w5) })"

definition run_export :: "bench_env \<Rightarrow> string \<Rightarrow> string \<Rightarrow> bench_world \<Rightarrow> (int \<times> bench_world) option" where
  "run_export e name key w =
     (if \<not> valid_bench_name key then Some (2, w)
      else (case load_bench w name of
              None \<Rightarrow> Some (4, w)
            | Some r \<Rightarrow> do {
                found \<leftarrow> find_export key (bn_exports r);
                Some (case found of
                        None \<Rightarrow> (4, w)
                      | Some x \<Rightarrow> run e name False (ex_cmd x) w) }))"

fun retain_exports :: "string \<Rightarrow> string list \<Rightarrow> (string list \<times> string option) option" where
  "retain_exports key [] = Some ([], None)"
| "retain_exports key (l # ls) = do {
     x \<leftarrow> export_parse l;
     (kept, file) \<leftarrow> retain_exports key ls;
     Some (case x of
             Some y \<Rightarrow>
               if ex_key y = key then (kept, if file = None then Some (ex_file y) else file)
               else (l # kept, file)
           | None \<Rightarrow> (l # kept, file)) }"

definition unexport :: "bench_env \<Rightarrow> string \<Rightarrow> string \<Rightarrow> bench_world \<Rightarrow> (int \<times> bench_world) option" where
  "unexport e name key w =
     (case load_bench w name of
        None \<Rightarrow> Some (4, w)
      | Some r \<Rightarrow> do {
          (kept, file) \<leftarrow> retain_exports key (bn_exports r);
          Some (if length kept = length (bn_exports r) then (4, w)
                else
                  let w1 = (case file of Some f \<Rightarrow> remove_desktop_as_dev e f w | None \<Rightarrow> w)
                  in (case save_record w1 (r\<lparr>bn_exports := kept\<rparr>) of
                        None \<Rightarrow> (1, w1)
                      | Some w2 \<Rightarrow> (0, w2))) })"

fun reissue_loop :: "bench_env \<Rightarrow> bench_record list \<Rightarrow> bench_world \<Rightarrow> bench_world" where
  "reissue_loop e [] w = w"
| "reissue_loop e (r # rs) w =
     (let w1 = (if bn_project r \<noteq> 0 then snd (apply_quota e w (bn_project r) (bn_quota_kib r)) else w);
          w2 = snd (ensure_grants_materialized e r w1)
      in reissue_loop e rs (net_down (bn_id r) w2))"

definition reissue :: "bench_env \<Rightarrow> bench_world \<Rightarrow> int \<times> bench_world" where
  "reissue e w = (0, reissue_loop e (records w) w)"

end
