(* ===== verification/Gate_Consent.thy ===== *)
theory Gate_Consent
  imports Authority_Plan
begin

text \<open>
  The console consent ceremony, \<open>consent.rs\<close>: the apply decision, the sanitizer and the screen, the
  ceremony over a console, the escalating cooldown and the socket entry that composes them.

  The console (the \<open>Console\<close> trait: secure attention key, virtual terminal, keyboard) is a script of
  answers, one per stage; what is done to it is recorded as a list of events.  Files under \<open>/proc\<close>,
  \<open>/etc/passwd\<close> and the random device are fields of the surroundings, read before the ceremony and,
  for the start time and the liveness of the peer, again after the answer.  A commit may abort the
  process, which is the outer \<open>None\<close>.
\<close>

section \<open>The apply decision\<close>

datatype deny_reason = NoSak | NoVt | RenderFail | ReadFail | Timeout | Declined | StarttimeChanged
  | PeerGone | Disconnected | NoStarttime

fun deny_tag :: "deny_reason \<Rightarrow> string" where
  "deny_tag NoSak = ''no-sak''"
| "deny_tag NoVt = ''no-vt''"
| "deny_tag RenderFail = ''render-fail''"
| "deny_tag ReadFail = ''read-fail''"
| "deny_tag Timeout = ''timeout''"
| "deny_tag Declined = ''declined''"
| "deny_tag StarttimeChanged = ''starttime-changed''"
| "deny_tag PeerGone = ''peer-gone''"
| "deny_tag Disconnected = ''disconnected''"
| "deny_tag NoStarttime = ''no-starttime''"

record pending =
  pe_nonce :: "128 word"
  pe_uid :: u32
  pe_pid :: u32
  pe_starttime :: u64

record live_facts =
  lf_starttime :: "u64 option"
  lf_alive :: bool

datatype apply_decision = ApplyIt | DenyIt deny_reason

definition decide_apply :: "pending \<Rightarrow> live_facts \<Rightarrow> string \<Rightarrow> string option \<Rightarrow> apply_decision" where
  "decide_apply p live answer code =
     (let affirmative = (case code of Some c \<Rightarrow> str_trim answer = c | None \<Rightarrow> str_trim answer = ''y'') in
      if \<not> affirmative then DenyIt Declined
      else if \<not> lf_alive live then DenyIt Disconnected
      else (case lf_starttime live of
              Some t \<Rightarrow> if t = pe_starttime p then ApplyIt else DenyIt StarttimeChanged
            | None \<Rightarrow> DenyIt PeerGone))"

section \<open>The sanitizer and the screen\<close>

definition code_point :: "string \<Rightarrow> nat" where
  "code_point c =
     (case map of_char c of
        [a] \<Rightarrow> a
      | [a, b] \<Rightarrow> (a mod 32) * 64 + b mod 64
      | [a, b, d] \<Rightarrow> (a mod 16) * 4096 + (b mod 64) * 64 + d mod 64
      | [a, b, d, e] \<Rightarrow> (a mod 8) * 262144 + (b mod 64) * 4096 + (d mod 64) * 64 + e mod 64
      | _ \<Rightarrow> 0)"

fun show_hex :: "nat \<Rightarrow> string" where
  "show_hex n = (if n < 16 then [hex_digit n] else show_hex (n div 16) @ [hex_digit (n mod 16)])"

declare show_hex.simps [simp del]

definition pad_left :: "nat \<Rightarrow> char \<Rightarrow> string \<Rightarrow> string" where
  "pad_left n c s = replicate (n - length s) c @ s"

definition pad_right :: "nat \<Rightarrow> string \<Rightarrow> string" where
  "pad_right n s = s @ replicate (n - length s) sp"

definition sanitize_char :: "string \<Rightarrow> string" where
  "sanitize_char c =
     (if c = [sp] \<or> length c = 1 \<and> is_graphic (hd c) then c
      else [CHR 0x5C] @ ''u{'' @ pad_left 4 (CHR ''0'') (show_hex (code_point c)) @ ''}'')"

definition sanitize_value :: "string \<Rightarrow> string" where
  "sanitize_value s = concat (map sanitize_char (utf8_chars s))"

definition conf_code :: "128 word \<Rightarrow> string" where
  "conf_code nonce = pad_left 6 (CHR ''0'') (show_nat (unat nonce mod 1000000))"

abbreviation crlf :: string where
  "crlf \<equiv> [cr, nl]"

definition esc :: "string \<Rightarrow> string" where
  "esc s = CHR 0x1B # s"

definition em_dash :: string where
  "em_dash = [CHR 0xE2, CHR 0x80, CHR 0x94]"

definition screen_row :: "string \<times> string \<Rightarrow> string" where
  "screen_row kv = ''    '' @ pad_right 20 (sanitize_value (fst kv)) @ '' '' @ sanitize_value (snd kv) @ crlf"

definition screen_warning :: "string \<Rightarrow> string" where
  "screen_warning w = crlf @ ''  !! '' @ sanitize_value w @ crlf"

definition trifecta_warning :: string where
  "trifecta_warning =
     crlf @ ''  !! WARNING: after this, the bench can READ your files'' @ crlf
     @ ''     AND reach the network '' @ em_dash @ '' data could leave this box.'' @ crlf"

definition screen_prompt :: "string option \<Rightarrow> string" where
  "screen_prompt code =
     (case code of
        Some c \<Rightarrow> ''  To APPROVE, type this code then Enter:  '' @ c @ crlf @ ''  Anything else DENIES.'' @ crlf
      | None \<Rightarrow> ''  Type  y  then Enter to APPROVE.  Anything else DENIES.'' @ crlf)"

definition render_screen :: "authority_plan \<Rightarrow> pending \<Rightarrow> string option \<Rightarrow> string" where
  "render_screen plan p code =
     esc ''[0m'' @ esc ''[2J'' @ esc ''[H''
     @ ''========================================================'' @ crlf
     @ ''  SHREK OS  '' @ em_dash @ ''  AUTHORITY CHANGE REQUEST'' @ crlf
     @ ''========================================================'' @ crlf @ crlf
     @ ''  A program running as uid '' @ show_uint (pe_uid p) @ '' (pid '' @ show_uint (pe_pid p)
       @ '') is asking'' @ crlf
     @ ''  to EXPAND its own authority on this machine.'' @ crlf
     @ ''  Approve ONLY if you started this and understand it.'' @ crlf @ crlf
     @ ''  Action:  '' @ sanitize_value (plan_action plan) @ crlf @ crlf
     @ ''  Details:'' @ crlf
     @ concat (map screen_row (ap_rows plan))
     @ (if ap_trifecta plan then trifecta_warning else [])
     @ concat (map screen_warning (plan_warnings plan))
     @ crlf @ ''--------------------------------------------------------'' @ crlf
     @ screen_prompt code"

section \<open>The ceremony\<close>

datatype event = ArmSak | TakeVt | Render string | ReadAnswer | Commit | Restore

record script =
  sc_arm :: "(deny_reason, unit) result"
  sc_vt :: "(deny_reason, unit) result"
  sc_render :: "(deny_reason, unit) result"
  sc_answer :: "(deny_reason, string) result"
  sc_starttime :: "u64 option"
  sc_alive :: bool

datatype outcome = Approved | Denied deny_reason

text \<open>The result of a ceremony: the return code, the outcome, the state after it and the events.\<close>

type_synonym 'w ceremony = "int \<times> outcome \<times> 'w \<times> event list"

definition denied :: "'w \<Rightarrow> event list \<Rightarrow> deny_reason \<Rightarrow> 'w ceremony" where
  "denied w evs r = (1, Denied r, w, evs @ [Restore])"

definition ceremony_code :: "authority_plan \<Rightarrow> pending \<Rightarrow> string option" where
  "ceremony_code plan p = (if high_authority plan then Some (conf_code (pe_nonce p)) else None)"

definition run_ceremony ::
  "authority_plan \<Rightarrow> pending \<Rightarrow> script \<Rightarrow> ('w \<Rightarrow> (int \<times> 'w) option) \<Rightarrow> 'w \<Rightarrow> 'w ceremony option" where
  "run_ceremony plan p sc commit w =
     (case sc_arm sc of
        Inl r \<Rightarrow> Some (denied w [ArmSak] r)
      | Inr _ \<Rightarrow>
          (case sc_vt sc of
             Inl r \<Rightarrow> Some (denied w [ArmSak, TakeVt] r)
           | Inr _ \<Rightarrow>
               (let code = ceremony_code plan p;
                    evs = [ArmSak, TakeVt, Render (render_screen plan p code)] in
                case sc_render sc of
                  Inl r \<Rightarrow> Some (denied w evs r)
                | Inr _ \<Rightarrow>
                    (case sc_answer sc of
                       Inl r \<Rightarrow> Some (denied w (evs @ [ReadAnswer]) r)
                     | Inr answer \<Rightarrow>
                         (case decide_apply p \<lparr>lf_starttime = sc_starttime sc, lf_alive = sc_alive sc\<rparr>
                                 answer code of
                            DenyIt r \<Rightarrow> Some (denied w (evs @ [ReadAnswer]) r)
                          | ApplyIt \<Rightarrow>
                              map_option
                                (\<lambda>(rc, w'). (rc, Approved, w', evs @ [ReadAnswer, Commit, Restore]))
                                (commit w))))))"

text \<open>The answer is the first line of one read of at most 256 bytes.\<close>

definition answer_line :: "string \<Rightarrow> (deny_reason, string) result" where
  "answer_line bytes =
     (if bytes = [] then Inl ReadFail
      else Inr (case str_lines (utf8_lossy (take 256 bytes)) of [] \<Rightarrow> [] | l # _ \<Rightarrow> l))"

section \<open>The cooldown\<close>

record cool_entry =
  ce_until :: u64
  ce_strikes :: u32

type_synonym cooldown = "u32 \<times> string \<Rightarrow> cool_entry option"

definition cooldown_secs :: "u32 \<Rightarrow> u64" where
  "cooldown_secs strikes =
     (let shift = nat (uint (min 6 (max 1 strikes))) - 1 in min (10 * 2 ^ shift) 300)"

definition cooldown_active :: "cooldown \<Rightarrow> u32 \<Rightarrow> string \<Rightarrow> u64 \<Rightarrow> u64 option" where
  "cooldown_active m uid verb now =
     (case m (uid, verb) of
        Some e \<Rightarrow> if now < ce_until e then Some (ce_until e) else None
      | None \<Rightarrow> None)"

definition sat_inc :: "u32 \<Rightarrow> u32" where
  "sat_inc n = (if n = -1 then n else n + 1)"

definition note_deny :: "cooldown \<Rightarrow> u32 \<Rightarrow> string \<Rightarrow> u64 \<Rightarrow> cooldown" where
  "note_deny m uid verb now =
     (let e = (case m (uid, verb) of Some e \<Rightarrow> e | None \<Rightarrow> \<lparr>ce_until = 0, ce_strikes = 0\<rparr>);
          s = sat_inc (ce_strikes e)
      in m((uid, verb) \<mapsto> \<lparr>ce_until = now + cooldown_secs s, ce_strikes = s\<rparr>))"

section \<open>Host facts\<close>

fun str_rsplit :: "char \<Rightarrow> string \<Rightarrow> string option" where
  "str_rsplit c [] = None"
| "str_rsplit c (x # xs) =
     (case str_rsplit c xs of Some r \<Rightarrow> Some r | None \<Rightarrow> if x = c then Some xs else None)"

text \<open>The start time of a \<open>/proc/<pid>/stat\<close>: the twentieth word after the last parenthesis.\<close>

definition stat_starttime :: "string \<Rightarrow> u64 option" where
  "stat_starttime s = do {
     after \<leftarrow> str_rsplit (CHR '')'') s;
     let ws = str_split_ws after;
     if 19 < length ws then parse_uint (ws ! 19) else None }"

fun passwd_uid :: "string list \<Rightarrow> u32 option" where
  "passwd_uid [] = None"
| "passwd_uid (l # ls) =
     (let f = str_split (CHR '':'') l;
          hit = (if 4 \<le> length f \<and> f ! 0 = ''dev'' then parse_uint (f ! 2) else None)
      in case hit of Some n \<Rightarrow> Some n | None \<Rightarrow> passwd_uid ls)"

definition dev_uid :: "string option \<Rightarrow> u32" where
  "dev_uid passwd =
     (case Option.bind passwd (\<lambda>p. passwd_uid (str_lines p)) of Some n \<Rightarrow> n | None \<Rightarrow> 1000)"

section \<open>The socket entry\<close>

record cred =
  cr_pid :: u32
  cr_uid :: u32

record surroundings =
  su_passwd :: "string option"
  su_now :: u64
  su_stat :: "string option"
  su_nonce :: "128 word option"
  su_script :: script

type_synonym reply = "int \<times> string list"

definition refused :: "string \<Rightarrow> string \<Rightarrow> string \<Rightarrow> reply" where
  "refused prefix verb tag = (2, [''RESULT '' @ prefix @ ''-'' @ verb @ '' - refused '' @ tag])"

definition ceremony_refused :: "string \<Rightarrow> string \<Rightarrow> string \<Rightarrow> reply" where
  "ceremony_refused prefix verb tag =
     (1, [''RESULT '' @ prefix @ ''-'' @ verb @ '' - refused ceremony-'' @ tag])"

definition ceremony_result_line :: "string \<Rightarrow> string \<Rightarrow> string \<Rightarrow> int \<Rightarrow> string list" where
  "ceremony_result_line prefix verb subject rc =
     [''RESULT '' @ prefix @ ''-'' @ verb @ '' '' @ subject @ '' '' @ (if rc = 0 then ''ok'' else ''fail'')]"

definition run_socket_consent_with ::
  "surroundings \<Rightarrow> cred \<Rightarrow> string \<Rightarrow> string \<Rightarrow> (int, authority_plan) result option
   \<Rightarrow> (authority_plan \<Rightarrow> 'w \<Rightarrow> (int \<times> 'w) option) \<Rightarrow> cooldown \<times> 'w
   \<Rightarrow> (reply \<times> (cooldown \<times> 'w) \<times> event list) option" where
  "run_socket_consent_with su cred verb prefix precheck commit st =
     (let (m, w) = st in
      if cr_uid cred = 0 then Some (refused prefix verb ''root-uses-cli'', st, [])
      else if cr_uid cred \<noteq> dev_uid (su_passwd su) then Some (refused prefix verb ''not-bench-uid'', st, [])
      else if cooldown_active m (cr_uid cred) verb (su_now su) \<noteq> None
      then Some (refused prefix verb ''cooldown'', st, [])
      else do {
        checked \<leftarrow> precheck;
        (case checked of
           Inl rc \<Rightarrow> Some ((rc, [''RESULT '' @ prefix @ ''-'' @ verb @ '' - refused precheck'']), st, [])
         | Inr plan \<Rightarrow>
             (case Option.bind (su_stat su) stat_starttime of
                None \<Rightarrow>
                  Some (ceremony_refused prefix verb (deny_tag NoStarttime),
                        (note_deny m (cr_uid cred) verb (su_now su), w), [])
              | Some t \<Rightarrow>
                  (case su_nonce su of
                     None \<Rightarrow> Some (ceremony_refused prefix verb ''nonce'', st, [])
                   | Some nonce \<Rightarrow> do {
                       (rc, out, w', evs) \<leftarrow>
                         run_ceremony plan \<lparr>pe_nonce = nonce, pe_uid = cr_uid cred, pe_pid = cr_pid cred,
                             pe_starttime = t\<rparr> (su_script su) (commit plan) w;
                       (case out of
                          Approved \<Rightarrow>
                            Some ((rc, ceremony_result_line prefix verb (ap_bench plan) rc), (m, w'), evs)
                        | Denied r \<Rightarrow>
                            Some (ceremony_refused prefix verb (deny_tag r),
                                  (note_deny m (cr_uid cred) verb (su_now su), w'), evs)) }))) })"

section \<open>Facts about the screen\<close>

lemma show_hex_graphic: "\<forall>c \<in> set (show_hex n). is_graphic c"
proof (induction n rule: show_hex.induct)
  case (1 n)
  then show ?case
    using hex_digit_facts(4) [of n] hex_digit_facts(4) [of "n mod 16"]
    by (cases "n < 16") (auto simp: show_hex.simps [of n])
qed

lemma escape_marks: "text_line ''u{''" "text_line ''}''" "is_graphic (CHR 0x5C)" "is_graphic (CHR ''0'')"
  by code_simp+

lemma pad_left_text: "is_graphic c \<Longrightarrow> text_line s \<Longrightarrow> text_line (pad_left n c s)"
  by (auto simp: pad_left_def text_line_def list_all_iff)

lemma pad_right_text: "text_line s \<Longrightarrow> text_line (pad_right n s)"
  by (auto simp: pad_right_def text_line_def list_all_iff)

lemma sanitize_char_text: "text_line (sanitize_char c)"
proof (cases "c = [sp] \<or> length c = 1 \<and> is_graphic (hd c)")
  case True
  then show ?thesis by (auto simp: sanitize_char_def length_Suc_conv)
next
  case False
  then have e: "sanitize_char c =
    [CHR 0x5C] @ ''u{'' @ pad_left 4 (CHR ''0'') (show_hex (code_point c)) @ ''}''"
    by (simp only: sanitize_char_def if_False)
  have "text_line [CHR 0x5C]" using escape_marks(3) by simp
  then show ?thesis
    using escape_marks(1,2) pad_left_text [OF escape_marks(4) text_line_graphic [OF show_hex_graphic]]
    unfolding e text_line_simps(3) by blast
qed

lemma sanitize_value_text [simp]: "text_line (sanitize_value s)"
proof -
  have "text_line (concat (map sanitize_char cs))" for cs
    by (induction cs) (simp_all add: sanitize_char_text)
  then show ?thesis by (simp add: sanitize_value_def)
qed

lemma conf_code_digits: "list_all is_digit (conf_code n)"
proof -
  have "is_digit (CHR ''0'')" by (simp add: is_digit_def)
  then show ?thesis
    using show_nat_digits by (auto simp: conf_code_def pad_left_def list_all_iff)
qed

lemma conf_code_text: "text_line (conf_code n)"
  using conf_code_digits digits_graphic text_line_graphic by blast

text \<open>Bytes a terminal interprets: the escape byte, line feeds, carriage returns.\<close>

definition ctl_bytes :: "string \<Rightarrow> string" where
  "ctl_bytes s = filter is_control s"

lemma ctl_bytes_append [simp]: "ctl_bytes (a @ b) = ctl_bytes a @ ctl_bytes b"
  by (simp add: ctl_bytes_def)

lemma text_no_control: "text_line s \<Longrightarrow> ctl_bytes s = []"
proof -
  assume "text_line s"
  moreover have "\<not> is_control c" if "is_graphic c \<or> c = sp" for c
  proof
    assume "is_control c"
    then have "(of_char c :: nat) < 32 \<or> (of_char c :: nat) = 127"
      by (auto simp: is_control_def less_char_def)
    moreover have "32 \<le> (of_char c :: nat) \<and> (of_char c :: nat) \<le> 126"
      using that by (auto simp: is_graphic_def less_eq_char_def)
    ultimately show False by linarith
  qed
  ultimately show ?thesis
    by (simp add: ctl_bytes_def filter_empty_conv text_line_def list_all_iff)
qed

lemma ctl_crlf [simp]: "ctl_bytes crlf = crlf"
  by code_simp

lemma ctl_screen_row [simp]: "ctl_bytes (screen_row kv) = crlf"
proof -
  have "text_line (''    '' @ pad_right 20 (sanitize_value (fst kv)) @ '' '' @ sanitize_value (snd kv))"
    by (simp add: pad_right_text)
  then have "ctl_bytes (''    '' @ pad_right 20 (sanitize_value (fst kv)) @ '' '' @ sanitize_value (snd kv)) = []"
    by (rule text_no_control)
  then show ?thesis
    by (simp only: screen_row_def ctl_bytes_append append_is_Nil_conv append_Nil ctl_crlf)
qed

lemma ctl_screen_warning [simp]: "ctl_bytes (screen_warning w) = crlf @ crlf"
proof -
  have "ctl_bytes ''  !! '' = []" by code_simp
  then show ?thesis
    by (simp only: screen_warning_def ctl_bytes_append ctl_crlf append_Nil
        text_no_control [OF sanitize_value_text])
qed

lemma ctl_concat: "(\<And>x. ctl_bytes (f x) = d) \<Longrightarrow> ctl_bytes (concat (map f xs)) = concat (replicate (length xs) d)"
  by (induction xs) (simp_all add: ctl_bytes_def)

lemma ctl_prompt: "list_all is_digit (case code of Some c \<Rightarrow> c | None \<Rightarrow> []) \<Longrightarrow>
  ctl_bytes (screen_prompt code) = crlf @ (if code = None then [] else crlf)"
proof (cases code)
  case None
  have "ctl_bytes (screen_prompt None) = crlf" by code_simp
  then show ?thesis by (simp add: None)
next
  case (Some c)
  assume "list_all is_digit (case code of Some c \<Rightarrow> c | None \<Rightarrow> [])"
  then have "ctl_bytes c = []"
    using Some digits_graphic text_line_graphic text_no_control by simp
  moreover have "ctl_bytes ''  To APPROVE, type this code then Enter:  '' = []"
    "ctl_bytes ''  Anything else DENIES.'' = []"
    by code_simp+
  ultimately show ?thesis
    by (simp only: Some screen_prompt_def option.case ctl_bytes_append ctl_crlf append_Nil) simp
qed

definition crlfs :: "nat \<Rightarrow> string" where
  "crlfs n = concat (replicate n crlf)"

lemma crlfs_add: "crlfs (m + n) = crlfs m @ crlfs n"
  by (simp add: crlfs_def replicate_add)

lemma crlfs_small: "crlfs 0 = []" "crlfs 1 = crlf" "crlfs 2 = crlf @ crlf" "crlfs 3 = crlf @ crlf @ crlf"
  by (simp_all add: crlfs_def numeral_2_eq_2 numeral_3_eq_3)

lemma crlfs_pairs: "concat (replicate n (crlf @ crlf)) = crlfs (2 * n)"
  by (induction n) (simp_all add: crlfs_def)

definition screen_head :: "pending \<Rightarrow> string" where
  "screen_head p =
     esc ''[0m'' @ esc ''[2J'' @ esc ''[H''
     @ ''========================================================'' @ crlf
     @ ''  SHREK OS  '' @ em_dash @ ''  AUTHORITY CHANGE REQUEST'' @ crlf
     @ ''========================================================'' @ crlf @ crlf
     @ ''  A program running as uid '' @ show_uint (pe_uid p) @ '' (pid '' @ show_uint (pe_pid p)
       @ '') is asking'' @ crlf
     @ ''  to EXPAND its own authority on this machine.'' @ crlf
     @ ''  Approve ONLY if you started this and understand it.'' @ crlf @ crlf"

lemma ctl_pieces:
  "ctl_bytes (esc ''[0m'' @ esc ''[2J'' @ esc ''[H'' @ ''========================================================'' @ crlf
     @ ''  SHREK OS  '' @ em_dash @ ''  AUTHORITY CHANGE REQUEST'' @ crlf
     @ ''========================================================'' @ crlf @ crlf
     @ ''  A program running as uid '') = replicate 3 (CHR 0x1B) @ crlfs 4"
  "ctl_bytes '' (pid '' = []"
  "ctl_bytes ('') is asking'' @ crlf @ ''  to EXPAND its own authority on this machine.'' @ crlf
     @ ''  Approve ONLY if you started this and understand it.'' @ crlf @ crlf) = crlfs 4"
  "ctl_bytes ''  Action:  '' = []" "ctl_bytes (crlf @ crlf @ ''  Details:'' @ crlf) = crlfs 3"
  "ctl_bytes trifecta_warning = crlfs 3"
  "ctl_bytes (crlf @ ''--------------------------------------------------------'' @ crlf) = crlfs 2"
  by code_simp+

lemma ctl_screen_head: "ctl_bytes (screen_head p) = replicate 3 (CHR 0x1B) @ crlfs 8"
proof -
  have e: "screen_head p =
     (esc ''[0m'' @ esc ''[2J'' @ esc ''[H'' @ ''========================================================'' @ crlf
     @ ''  SHREK OS  '' @ em_dash @ ''  AUTHORITY CHANGE REQUEST'' @ crlf
     @ ''========================================================'' @ crlf @ crlf
     @ ''  A program running as uid '') @ show_uint (pe_uid p) @ '' (pid '' @ show_uint (pe_pid p)
     @ ('') is asking'' @ crlf @ ''  to EXPAND its own authority on this machine.'' @ crlf
     @ ''  Approve ONLY if you started this and understand it.'' @ crlf @ crlf)"
    by (simp only: screen_head_def append_assoc)
  have "crlfs 8 = crlfs 4 @ crlfs 4" using crlfs_add [of 4 4] by simp
  then show ?thesis
    unfolding e ctl_bytes_append [of "esc ''[0m'' @ _"] ctl_bytes_append [of "show_uint _"]
      ctl_bytes_append [of "'' (pid ''"] ctl_pieces text_no_control [OF text_line_num(1)]
    by simp
qed

section \<open>Facts about the ceremony\<close>

lemma decide_apply_iff:
  "decide_apply p live answer code = ApplyIt \<longleftrightarrow>
     str_trim answer = (case code of Some c \<Rightarrow> c | None \<Rightarrow> ''y'') \<and> lf_alive live
     \<and> lf_starttime live = Some (pe_starttime p)"
  by (auto simp: decide_apply_def Let_def split: option.splits)

definition full_run :: "string \<Rightarrow> event list" where
  "full_run screen = [ArmSak, TakeVt, Render screen, ReadAnswer, Commit]"

text \<open>A ceremony either stops at a stage, with the state as it was, or commits once.\<close>

lemma run_ceremony_cases:
  assumes "run_ceremony plan p sc commit w = Some (rc, out, w', evs)"
  obtains (stopped) k r where "out = Denied r" "rc = 1" "w' = w" "0 < k" "k < 5"
      "evs = take k (full_run (render_screen plan p (ceremony_code plan p))) @ [Restore]"
  | (approved) answer where "out = Approved" "commit w = Some (rc, w')" "sc_answer sc = Inr answer"
      "str_trim answer = (case ceremony_code plan p of Some c \<Rightarrow> c | None \<Rightarrow> ''y'')" "sc_alive sc"
      "sc_starttime sc = Some (pe_starttime p)" "sc_arm sc = Inr ()" "sc_vt sc = Inr ()" "sc_render sc = Inr ()"
      "evs = full_run (render_screen plan p (ceremony_code plan p)) @ [Restore]"
proof (cases "sc_arm sc")
  case (Inl r)
  then show ?thesis
    using assms stopped [of r 1] by (simp add: run_ceremony_def denied_def full_run_def)
next
  case arm: (Inr u1)
  show ?thesis
  proof (cases "sc_vt sc")
    case (Inl r)
    then show ?thesis
      using assms arm stopped [of r 2] by (simp add: run_ceremony_def denied_def full_run_def)
  next
    case vt: (Inr u2)
    show ?thesis
    proof (cases "sc_render sc")
      case (Inl r)
      then show ?thesis
        using assms arm vt stopped [of r 3] by (simp add: run_ceremony_def denied_def full_run_def Let_def)
    next
      case render: (Inr u3)
      show ?thesis
      proof (cases "sc_answer sc")
        case (Inl r)
        then show ?thesis
          using assms arm vt render stopped [of r 4]
          by (simp add: run_ceremony_def denied_def full_run_def Let_def)
      next
        case ans: (Inr answer)
        let ?d = "decide_apply p \<lparr>lf_starttime = sc_starttime sc, lf_alive = sc_alive sc\<rparr> answer (ceremony_code plan p)"
        show ?thesis
        proof (cases ?d)
          case ApplyIt
          have "map_option (\<lambda>(rc, w'). (rc, Approved, w',
              full_run (render_screen plan p (ceremony_code plan p)) @ [Restore])) (commit w)
            = Some (rc, out, w', evs)"
            using assms arm vt render ans ApplyIt by (simp add: run_ceremony_def full_run_def Let_def)
          then have "out = Approved" "commit w = Some (rc, w')"
            "evs = full_run (render_screen plan p (ceremony_code plan p)) @ [Restore]"
            by auto
          then show ?thesis
            using ApplyIt arm vt render ans by (intro approved [of answer]) (simp_all add: decide_apply_iff)
        next
          case (DenyIt r)
          then show ?thesis
            using assms arm vt render ans stopped [of r 4]
            by (simp add: run_ceremony_def denied_def full_run_def Let_def)
        qed
      qed
    qed
  qed
qed

text \<open>What a socket request can come to: no ceremony, a denied ceremony or an approved one.\<close>

lemma socket_consent_cases:
  assumes "run_socket_consent_with su cred verb prefix precheck commit (m, w) = Some (reply, (m', w'), evs)"
  obtains (early) "evs = []" "w' = w"
  | (stopped) plan p r k where "precheck = Some (Inr plan)" "w' = w" "0 < k" "k < 5"
      "evs = take k (full_run (render_screen plan p (ceremony_code plan p))) @ [Restore]"
      "m' = note_deny m (cr_uid cred) verb (su_now su)"
      "reply = ceremony_refused prefix verb (deny_tag r)"
  | (approved) plan t nonce answer rc where "precheck = Some (Inr plan)" "cr_uid cred \<noteq> 0"
      "cr_uid cred = dev_uid (su_passwd su)" "cooldown_active m (cr_uid cred) verb (su_now su) = None"
      "Option.bind (su_stat su) stat_starttime = Some t" "su_nonce su = Some nonce"
      "sc_answer (su_script su) = Inr answer"
      "str_trim answer = (if high_authority plan then conf_code nonce else ''y'')"
      "sc_alive (su_script su)" "sc_starttime (su_script su) = Some t"
      "commit plan w = Some (rc, w')" "fst reply = rc" "m' = m"
      "evs = full_run (render_screen plan \<lparr>pe_nonce = nonce, pe_uid = cr_uid cred, pe_pid = cr_pid cred,
         pe_starttime = t\<rparr> (if high_authority plan then Some (conf_code nonce) else None)) @ [Restore]"
proof (cases "cr_uid cred = 0 \<or> cr_uid cred \<noteq> dev_uid (su_passwd su)
    \<or> cooldown_active m (cr_uid cred) verb (su_now su) \<noteq> None")
  case True
  then show ?thesis
    using assms early by (auto simp: run_socket_consent_with_def split: if_splits)
next
  case gate: False
  then obtain checked where checked: "precheck = Some checked"
    using assms by (cases precheck) (auto simp: run_socket_consent_with_def)
  show ?thesis
  proof (cases checked)
    case (Inl rc)
    then show ?thesis using assms gate checked early by (auto simp: run_socket_consent_with_def)
  next
    case plan: (Inr plan)
    show ?thesis
    proof (cases "Option.bind (su_stat su) stat_starttime")
      case None
      then show ?thesis
        using assms gate checked plan early by (auto simp: run_socket_consent_with_def)
    next
      case stat: (Some t)
      show ?thesis
      proof (cases "su_nonce su")
        case None
        then show ?thesis
          using assms gate checked plan stat early by (auto simp: run_socket_consent_with_def)
      next
        case nonce: (Some nonce)
        let ?p = "\<lparr>pe_nonce = nonce, pe_uid = cr_uid cred, pe_pid = cr_pid cred, pe_starttime = t\<rparr>"
        obtain rc out w2 evs2 where run:
          "run_ceremony plan ?p (su_script su) (commit plan) w = Some (rc, out, w2, evs2)"
          using assms gate checked plan stat nonce
          by (auto simp: run_socket_consent_with_def Option.bind_eq_Some_conv)
        from run show ?thesis
        proof (cases rule: run_ceremony_cases)
          case (stopped k r)
          then show ?thesis
            using assms gate checked plan stat nonce run that(2) [of plan k ?p r]
            by (simp add: run_socket_consent_with_def)
        next
          case (approved answer)
          have "reply = (rc, ceremony_result_line prefix verb (ap_bench plan) rc)" "m' = m" "w2 = w'" "evs2 = evs"
            using assms gate checked plan stat nonce run approved(1)
            by (simp_all add: run_socket_consent_with_def)
          moreover have "ceremony_code plan ?p = (if high_authority plan then Some (conf_code nonce) else None)"
            by (simp add: ceremony_code_def)
          ultimately show ?thesis
            using gate checked plan stat nonce approved by (intro that(3) [of plan t nonce answer rc]) auto
        qed
      qed
    qed
  qed
qed

subsection \<open>The cooldown\<close>

lemma cooldown_secs_nat:
  "unat (cooldown_secs s) = min (10 * 2 ^ (min 6 (max 1 (unat s)) - 1)) 300"
proof -
  define k where "k = min 6 (max 1 (unat s)) - 1"
  have "nat (uint (min 6 (max 1 s))) = min 6 (max 1 (unat s))"
    by (simp add: min_def max_def word_le_nat_alt unat_eq_nat_uint [symmetric])
  then have c: "cooldown_secs s = min (10 * 2 ^ k) 300"
    by (simp add: cooldown_secs_def k_def Let_def)
  have "k \<le> 5" by (simp add: k_def)
  then have "k = 0 \<or> k = 1 \<or> k = 2 \<or> k = 3 \<or> k = 4 \<or> k = 5" by arith
  then show ?thesis
    unfolding c k_def [symmetric] by (elim disjE) (simp_all add: min_def)
qed

lemma cooldown_secs_bounds: "10 \<le> unat (cooldown_secs s)" "unat (cooldown_secs s) \<le> 300"
proof -
  have "(1::nat) \<le> 2 ^ k" for k by simp
  then have "(10::nat) \<le> 10 * 2 ^ k" for k by (metis mult.right_neutral mult_le_mono2)
  then show "10 \<le> unat (cooldown_secs s)" "unat (cooldown_secs s) \<le> 300"
    by (simp_all add: cooldown_secs_nat)
qed

lemma note_deny_active:
  assumes "unat now + 300 < 2 ^ 64" "unat later < unat now + 10"
  shows "cooldown_active (note_deny m uid verb now) uid verb later \<noteq> None"
proof -
  obtain s where e: "note_deny m uid verb now (uid, verb) = Some \<lparr>ce_until = now + cooldown_secs s, ce_strikes = s\<rparr>"
    by (simp add: note_deny_def Let_def)
  have "unat (now + cooldown_secs s) = unat now + unat (cooldown_secs s)"
    using assms(1) cooldown_secs_bounds [of s] by (intro unat_add_lem [THEN iffD1]) simp
  then have "later < now + cooldown_secs s"
    using assms(2) cooldown_secs_bounds [of s] by (simp add: word_less_nat_alt)
  then show ?thesis
    by (simp add: cooldown_active_def e)
qed

section \<open>Properties\<close>

text \<open>
  What a requester controls cannot touch the layout of the consent screen: the only control bytes
  on it are the three escape sequences of the frame and a number of line ends that depends on how many
  rows and warnings there are, never on what they say.
\<close>

theorem screen_controls_fixed:
  "ctl_bytes (render_screen plan p (ceremony_code plan p)) =
     replicate 3 (CHR 0x1B)
     @ crlfs (13 + length (ap_rows plan) + (if ap_trifecta plan then 3 else 0)
         + 2 * length (plan_warnings plan) + (if high_authority plan then 2 else 1))"
proof -
  let ?rows = "concat (map screen_row (ap_rows plan))"
  let ?tri = "if ap_trifecta plan then trifecta_warning else []"
  let ?warn = "concat (map screen_warning (plan_warnings plan))"
  have e: "render_screen plan p code = screen_head p @ ''  Action:  '' @ sanitize_value (plan_action plan)
      @ (crlf @ crlf @ ''  Details:'' @ crlf) @ ?rows @ ?tri @ ?warn
      @ (crlf @ ''--------------------------------------------------------'' @ crlf) @ screen_prompt code" for code
    by (simp only: render_screen_def screen_head_def append_assoc)
  have rows: "ctl_bytes ?rows = crlfs (length (ap_rows plan))"
    unfolding crlfs_def by (rule ctl_concat) (rule ctl_screen_row)
  have warn: "ctl_bytes ?warn = crlfs (2 * length (plan_warnings plan))"
    unfolding crlfs_pairs [symmetric] by (rule ctl_concat) (rule ctl_screen_warning)
  have tri: "ctl_bytes ?tri = crlfs (if ap_trifecta plan then 3 else 0)"
    by (cases "ap_trifecta plan") (simp_all add: ctl_pieces(6), simp add: crlfs_def ctl_bytes_def)
  have prompt: "ctl_bytes (screen_prompt (ceremony_code plan p)) = crlfs (if high_authority plan then 2 else 1)"
    by (subst ctl_prompt)
      (simp_all add: ceremony_code_def conf_code_digits crlfs_small crlfs_small(2) [unfolded One_nat_def])
  have "ctl_bytes (render_screen plan p (ceremony_code plan p)) =
    (replicate 3 (CHR 0x1B) @ crlfs 8) @ [] @ [] @ crlfs 3 @ crlfs (length (ap_rows plan))
    @ crlfs (if ap_trifecta plan then 3 else 0) @ crlfs (2 * length (plan_warnings plan))
    @ crlfs 2 @ crlfs (if high_authority plan then 2 else 1)"
    unfolding e ctl_bytes_append [of "screen_head p"] ctl_bytes_append [of "''  Action:  ''"]
      ctl_bytes_append [of "sanitize_value _"] ctl_bytes_append [of "crlf @ crlf @ ''  Details:'' @ crlf"]
      ctl_bytes_append [of ?rows] ctl_bytes_append [of ?tri] ctl_bytes_append [of ?warn]
      ctl_bytes_append [of "crlf @ ''--------------------------------------------------------'' @ crlf"]
      ctl_screen_head ctl_pieces(4,5,7) rows warn tri prompt text_no_control [OF sanitize_value_text] ..
  moreover have "13 + length (ap_rows plan) + t + w + h = 8 + (3 + (length (ap_rows plan) + (t + (w + (2 + h)))))"
    for t w h :: nat by simp
  ultimately show ?thesis
    by (simp only: crlfs_add append_assoc append_Nil)
qed

text \<open>
  C4: Nothing is committed without the human: if a socket request changes the state, or its commit is
  reached, then the peer is the desktop user, no cooldown was running, the request passed its precheck,
  the screen of that very plan was shown before the answer was read, the answer is the code of the
  screen (for a high-authority plan) or \<open>y\<close>, the peer is still connected and has the start time it
  had, and the plan was committed exactly once, its return code being the reply.
\<close>

theorem consent_commit_needs_approval:
  assumes "run_socket_consent_with su cred verb prefix precheck commit (m, w) = Some (reply, (m', w'), evs)"
    and "w' \<noteq> w \<or> Commit \<in> set evs"
  shows "cr_uid cred \<noteq> 0 \<and> cr_uid cred = dev_uid (su_passwd su)
    \<and> cooldown_active m (cr_uid cred) verb (su_now su) = None
    \<and> (\<exists>plan t nonce answer code. precheck = Some (Inr plan)
        \<and> Option.bind (su_stat su) stat_starttime = Some t \<and> su_nonce su = Some nonce
        \<and> sc_starttime (su_script su) = Some t \<and> sc_alive (su_script su)
        \<and> code = (if high_authority plan then Some (conf_code nonce) else None)
        \<and> evs = [ArmSak, TakeVt,
              Render (render_screen plan \<lparr>pe_nonce = nonce, pe_uid = cr_uid cred, pe_pid = cr_pid cred,
                 pe_starttime = t\<rparr> code), ReadAnswer, Commit, Restore]
        \<and> sc_answer (su_script su) = Inr answer
        \<and> str_trim answer = (case code of Some c \<Rightarrow> c | None \<Rightarrow> ''y'')
        \<and> commit plan w = Some (fst reply, w'))"
  using assms(1)
proof (cases rule: socket_consent_cases)
  case (stopped plan p r k)
  have "Commit \<notin> set (take k (full_run screen))" if "k < 5" for k screen
  proof -
    have "k \<in> {0, 1, 2, 3, 4}" using that by auto
    then show ?thesis by (auto simp: full_run_def)
  qed
  then show ?thesis using assms(2) stopped by auto
next
  case (approved plan t nonce answer rc)
  then show ?thesis by (auto simp: full_run_def)
qed (use assms(2) in simp)

definition yes_script :: script where
  "yes_script = \<lparr>sc_arm = Inr (), sc_vt = Inr (), sc_render = Inr (), sc_answer = Inr ''y'',
     sc_starttime = Some 7, sc_alive = True\<rparr>"

definition no_script :: script where
  "no_script = yes_script\<lparr>sc_answer := Inr ''n''\<rparr>"

definition dev_stat :: string where
  "dev_stat = ''1 (a) b'' @ CHR '')'' # sp # str_join [sp] (''R'' # replicate 18 ''0'' @ [''7'', ''0''])"

definition dev_around :: "script \<Rightarrow> u64 \<Rightarrow> surroundings" where
  "dev_around sc now = \<lparr>su_passwd = None, su_now = now, su_stat = Some dev_stat, su_nonce = Some 5,
     su_script = sc\<rparr>"

definition net_plan :: authority_plan where
  "net_plan = \<lparr>ap_bench = ''media'', ap_rows = [], ap_trifecta = False, ap_kind = Network [''pypi-https'']\<rparr>"

definition dev_cred :: cred where
  "dev_cred = \<lparr>cr_pid = 9, cr_uid = 1000\<rparr>"

lemma str_rsplit_append: "c \<notin> set b \<Longrightarrow> str_rsplit c (a @ c # b) = Some b"
proof -
  assume b: "c \<notin> set b"
  then have "str_rsplit c b = None" by (induction b) auto
  then show ?thesis by (induction a) simp_all
qed

lemma str_split_ws_sp [simp]: "str_split_ws (sp # s) = str_split_ws s"
  by (simp add: str_split_ws_def split_ws_aux_sp)

lemma str_split_ws_join:
  "list_all (\<lambda>w. w \<noteq> [] \<and> (\<forall>c \<in> set w. is_graphic c)) ws \<Longrightarrow> str_split_ws (str_join [sp] ws) = ws"
proof (induction ws)
  case (Cons w ws)
  then show ?case by (cases "ws = []") (simp_all add: str_join_Cons_ne)
qed simp

lemma dev_stat_starttime: "stat_starttime dev_stat = Some 7"
proof -
  define ws where "ws = ''R'' # replicate 18 ''0'' @ [''7'', ''0'']"
  have "list_all (\<lambda>w. w \<noteq> [] \<and> (\<forall>c \<in> set w. is_graphic c)) ws"
    by (simp add: ws_def is_graphic_def list_all_iff)
  then have "str_split_ws (sp # str_join [sp] ws) = ws"
    by (simp add: str_split_ws_join)
  moreover have "CHR '')'' \<notin> set (sp # str_join [sp] ws)"
    by (simp add: ws_def eval_nat_numeral)
  then have "str_rsplit (CHR '')'') dev_stat = Some (sp # str_join [sp] ws)"
    unfolding dev_stat_def ws_def [symmetric] by (rule str_rsplit_append)
  moreover have "length ws = 21" "ws ! 19 = ''7''"
    by (simp_all add: ws_def nth_append)
  moreover have "parse_uint ''7'' = (Some 7 :: u64 option)"
    by (simp add: parse_uint_def strip_plus_def Let_def is_digit_def digits_val_def digit_val_def)
  ultimately show ?thesis
    by (simp add: stat_starttime_def Let_def)
qed

lemma dev_uid_default: "dev_uid None = 1000"
  by (simp add: dev_uid_def)

lemma yes_trim: "str_trim ''y'' = ''y''" "str_trim ''n'' = ''n''"
  by code_simp+

lemma yes_request:
  "\<exists>reply evs. run_socket_consent_with (dev_around yes_script 50) dev_cred ''network'' ''bench'' (Some (Inr net_plan))
     (\<lambda>_ n. Some (0, n + 1)) (Map.empty, 0 :: nat) = Some (reply, (Map.empty, 1), evs)"
  by (simp add: run_socket_consent_with_def dev_around_def dev_cred_def dev_uid_default cooldown_active_def
      dev_stat_starttime run_ceremony_def yes_script_def decide_apply_def ceremony_code_def
      high_authority_def net_plan_def yes_trim Let_def)

theorem consent_commit_needs_approval_witness:
  "\<exists>evs m w reply. run_socket_consent_with (dev_around yes_script 50) dev_cred ''network'' ''bench''
      (Some (Inr net_plan)) (\<lambda>_ n. Some (0, n + 1)) (Map.empty, 0 :: nat) = Some (reply, (m, w), evs)
    \<and> w = 1 \<and> last evs = Restore"
proof -
  obtain reply evs where r: "run_socket_consent_with (dev_around yes_script 50) dev_cred ''network'' ''bench''
      (Some (Inr net_plan)) (\<lambda>_ n. Some (0, n + 1)) (Map.empty, 0 :: nat) = Some (reply, (Map.empty, 1), evs)"
    using yes_request by blast
  have "last evs = Restore"
    using consent_commit_needs_approval [OF r] by auto
  then show ?thesis using r by blast
qed

text \<open>
  Whatever happens, the terminal is given back: a request that touches the console at all ends by
  restoring it, and the stages before are a prefix of the one order (key, terminal, screen, answer,
  commit), so an answer is only ever read under the screen of the plan.
\<close>

theorem terminal_always_restored:
  assumes "run_socket_consent_with su cred verb prefix precheck commit st = Some (reply, st', evs)"
  shows "evs = [] \<or> (\<exists>k plan p. 0 < k
    \<and> evs = take k [ArmSak, TakeVt, Render (render_screen plan p (ceremony_code plan p)), ReadAnswer, Commit]
        @ [Restore])"
proof -
  obtain m w m' w' where st: "st = (m, w)" "st' = (m', w')" by (cases st; cases st')
  from assms show ?thesis unfolding st
  proof (cases rule: socket_consent_cases)
    case (stopped plan p r k)
    then show ?thesis unfolding full_run_def by blast
  next
    case (approved plan t nonce answer rc)
    let ?p = "\<lparr>pe_nonce = nonce, pe_uid = cr_uid cred, pe_pid = cr_pid cred, pe_starttime = t\<rparr>"
    have "evs = take 5 (full_run (render_screen plan ?p (ceremony_code plan ?p))) @ [Restore]"
      using approved by (simp add: full_run_def ceremony_code_def)
    then show ?thesis unfolding full_run_def by (intro disjI2 exI [of _ 5]) auto
  qed simp
qed

theorem terminal_always_restored_witness:
  "\<exists>reply st evs. run_socket_consent_with (dev_around yes_script 50) dev_cred ''network'' ''bench''
      (Some (Inr net_plan)) (\<lambda>_ n. Some (0, n + 1)) (Map.empty, 0 :: nat) = Some (reply, st, evs)
    \<and> (evs = [] \<or> last evs = Restore)"
proof -
  obtain reply evs where r: "run_socket_consent_with (dev_around yes_script 50) dev_cred ''network'' ''bench''
      (Some (Inr net_plan)) (\<lambda>_ n. Some (0, n + 1)) (Map.empty, 0 :: nat) = Some (reply, (Map.empty, 1), evs)"
    using yes_request by blast
  have "evs = [] \<or> last evs = Restore"
    using terminal_always_restored [OF r] by auto
  then show ?thesis using r by blast
qed

text \<open>
  The consent screen cannot be spammed: after a ceremony that ended in a denial, the next request
  of the same peer for the same verb within ten seconds is refused without touching the console or
  the precheck, and changes nothing.
\<close>

theorem denial_arms_cooldown:
  assumes "run_socket_consent_with su cred verb prefix precheck commit (m, w) = Some (reply, (m', w'), evs)"
    and "evs \<noteq> []" "Commit \<notin> set evs"
    and "cr_uid cred' = cr_uid cred" "su_passwd su' = su_passwd su"
    and "unat (su_now su) + 300 < 2 ^ 64" "unat (su_now su') < unat (su_now su) + 10"
  shows "w' = w \<and> (\<exists>tag. run_socket_consent_with su' cred' verb prefix precheck' commit' (m', w'')
    = Some (refused prefix verb tag, (m', w''), []))"
  using assms(1)
proof (cases rule: socket_consent_cases)
  case (stopped plan p r k)
  then have "cooldown_active m' (cr_uid cred') verb (su_now su') \<noteq> None"
    using note_deny_active [OF assms(6,7)] assms(4) by simp
  then show ?thesis
    using stopped(2) by (auto simp: run_socket_consent_with_def)
next
  case (approved plan t nonce answer rc)
  then show ?thesis using assms(3) by (simp add: full_run_def)
qed (use assms(2) in simp)

lemma no_request:
  "\<exists>reply evs m'. run_socket_consent_with (dev_around no_script 50) dev_cred ''network'' ''bench'' (Some (Inr net_plan))
     (\<lambda>_ n. Some (0, n + 1)) (Map.empty, 0 :: nat) = Some (reply, (m', 0), evs) \<and> evs \<noteq> [] \<and> Commit \<notin> set evs"
  by (simp add: run_socket_consent_with_def dev_around_def dev_cred_def dev_uid_default cooldown_active_def
      dev_stat_starttime run_ceremony_def no_script_def yes_script_def decide_apply_def ceremony_code_def
      high_authority_def net_plan_def yes_trim Let_def denied_def)

theorem denial_arms_cooldown_witness:
  "\<exists>m tag. run_socket_consent_with (dev_around yes_script 55) dev_cred ''network'' ''bench'' (Some (Inr net_plan))
     (\<lambda>_ n. Some (0, n + 1)) (m, 0 :: nat) = Some (refused ''bench'' ''network'' tag, (m, 0), [])"
proof -
  obtain reply evs m' where r: "run_socket_consent_with (dev_around no_script 50) dev_cred ''network'' ''bench''
      (Some (Inr net_plan)) (\<lambda>_ n. Some (0, n + 1)) (Map.empty, 0 :: nat) = Some (reply, (m', 0), evs)"
      "evs \<noteq> []" "Commit \<notin> set evs"
    using no_request by blast
  have "unat (su_now (dev_around no_script 50)) + 300 < 2 ^ 64"
    "unat (su_now (dev_around yes_script 55)) < unat (su_now (dev_around no_script 50)) + 10"
    by (simp_all add: dev_around_def)
  from denial_arms_cooldown [where su' = "dev_around yes_script 55", OF r refl _ this] have "\<exists>tag. run_socket_consent_with (dev_around yes_script 55) dev_cred ''network'' ''bench''
      (Some (Inr net_plan)) (\<lambda>_ n. Some (0, n + 1)) (m', 0 :: nat)
    = Some (refused ''bench'' ''network'' tag, (m', 0), [])"
    by (simp add: dev_around_def)
  then show ?thesis by blast
qed

text \<open>
  Repeated denials wait longer: after the n-th denial in a row the requester is blocked for
  10 seconds doubled n - 1 times, and never more than 300, and a denial of one verb or peer leaves the
  cooldown of every other verb and peer alone.
\<close>

fun note_denies :: "cooldown \<Rightarrow> u32 \<Rightarrow> string \<Rightarrow> u64 list \<Rightarrow> cooldown" where
  "note_denies m uid verb [] = m"
| "note_denies m uid verb (t # ts) = note_denies (note_deny m uid verb t) uid verb ts"

lemma note_denies_snoc: "note_denies m uid verb (ts @ [t]) = note_deny (note_denies m uid verb ts) uid verb t"
  by (induction ts arbitrary: m) simp_all

lemma note_denies_strikes:
  "length ts < 2 ^ 32 \<Longrightarrow> ts \<noteq> [] \<Longrightarrow>
     \<exists>s. note_denies Map.empty uid verb ts (uid, verb)
       = Some \<lparr>ce_until = last ts + cooldown_secs s, ce_strikes = s\<rparr> \<and> unat s = length ts"
proof (induction ts rule: rev_induct)
  case (snoc t ts)
  define m where "m = note_denies Map.empty uid verb ts"
  define s where "s = (case m (uid, verb) of Some e \<Rightarrow> ce_strikes e | None \<Rightarrow> 0)"
  have s: "unat s = length ts"
    using snoc by (cases "ts = []") (auto simp: s_def m_def)
  have "s \<noteq> - 1"
  proof
    assume "s = - 1"
    then have "unat s = 2 ^ 32 - 1" by (simp add: unsigned_minus_1_eq_mask mask_eq_exp_minus_1)
    then show False using s snoc.prems by simp
  qed
  then have "sat_inc s = s + 1"
    by (simp add: sat_inc_def)
  moreover have "unat (s + 1) = Suc (length ts)"
    using s snoc.prems by (simp add: unat_word_ariths)
  moreover have "note_deny m uid verb t (uid, verb)
      = Some \<lparr>ce_until = t + cooldown_secs (sat_inc s), ce_strikes = sat_inc s\<rparr>"
    by (auto simp: note_deny_def Let_def s_def split: option.splits)
  ultimately show ?case
    by (auto simp: note_denies_snoc m_def [symmetric])
qed simp

theorem cooldown_escalates:
  assumes "ts \<noteq> []" "length ts < 2 ^ 32" "(u, v) \<noteq> (uid, verb)"
  shows "\<exists>d. unat d = min (10 * 2 ^ (min 6 (length ts) - 1)) 300
    \<and> map_option ce_until (note_denies Map.empty uid verb ts (uid, verb)) = Some (last ts + d)
    \<and> note_denies m uid verb ts (u, v) = m (u, v)"
proof -
  obtain s where s: "note_denies Map.empty uid verb ts (uid, verb)
       = Some \<lparr>ce_until = last ts + cooldown_secs s, ce_strikes = s\<rparr>" "unat s = length ts"
    using note_denies_strikes [OF assms(2,1)] by blast
  have "max 1 (length ts) = length ts"
    using assms(1) by (cases ts) simp_all
  then have "unat (cooldown_secs s) = min (10 * 2 ^ (min 6 (length ts) - 1)) 300"
    by (simp add: cooldown_secs_nat s(2))
  moreover have "note_denies m uid verb ts (u, v) = m (u, v)"
    using assms(3) by (induction ts arbitrary: m) (auto simp: note_deny_def Let_def)
  ultimately show ?thesis
    using s(1) by auto
qed

theorem cooldown_escalates_witness:
  "\<exists>d. unat d = 40 \<and> map_option ce_until (note_denies Map.empty 1000 ''grant'' [1, 20, 60] (1000, ''grant''))
    = Some (60 + d)"
  using cooldown_escalates [of "[1, 20, 60]" 1000 "''export''" 1000 "''grant''" Map.empty] by auto

end
