(* ===== verification/Policy_Capability.thy ===== *)
theory Policy_Capability
  imports Policy_Egress "HOL-Library.Multiset"
begin

text \<open>
  The data-driven capability layer of \<open>crates/shrek-policy/src/egress_capability.rs\<close>: the typed
  manifest errors, the fail-closed whole-file manifest parser, the merged catalog in which sealed
  manifests always win, and the isolation predicates that decide which hosts may enter root name
  resolution and which an owner manifest may not name.
\<close>

section \<open>Errors\<close>

datatype manifest_error =
    BadSchema
  | UnknownKey string
  | MissingKey string
  | DuplicateKey string
  | MalformedLine string
  | BadToken string
  | BadTier string
  | BadDeliver string
  | BadHostRule string
  | OneClickNonTls string
  | NoHostRules

definition SCHEMA_ID :: string where
  "SCHEMA_ID = ''shrek-egress-capability/1''"

definition quoted :: "string \<Rightarrow> string" where
  "quoted s = [CHR 0x60] @ s @ [CHR 0x60]"

fun manifest_reason :: "manifest_error \<Rightarrow> string" where
  "manifest_reason BadSchema = ''first line must be '' @ quoted (''schema '' @ SCHEMA_ID)"
| "manifest_reason (UnknownKey k) = ''unknown key '' @ quoted k"
| "manifest_reason (MissingKey k) = ''missing required key '' @ quoted k"
| "manifest_reason (DuplicateKey k) = ''duplicate key '' @ quoted k"
| "manifest_reason (MalformedLine why) = ''malformed line: '' @ why"
| "manifest_reason (BadToken t) = ''token '' @ quoted t @ '' is not lowercase [a-z0-9-]''"
| "manifest_reason (BadTier t) = ''tier must be one-click|ceremony, got '' @ quoted t"
| "manifest_reason (BadDeliver d) = ''deliver must be hosts|none, got '' @ quoted d"
| "manifest_reason (BadHostRule h) = ''invalid host rule '' @ quoted h"
| "manifest_reason (OneClickNonTls h) =
     ''one-click tier forbids non-tcp/443 host '' @ quoted h @ '' (structurally unclickable)''"
| "manifest_reason NoHostRules = ''no host rules but deliver hosts (or the inverse)''"

section \<open>The manifest\<close>

datatype cap_tier = OneClick | Ceremony

fun cap_tier_str :: "cap_tier \<Rightarrow> string" where
  "cap_tier_str OneClick = ''one-click''"
| "cap_tier_str Ceremony = ''ceremony''"

datatype deliver = DeliverHosts | DeliverNone

record host_rule =
  hr_host :: string
  hr_proto :: proto
  hr_port :: u16

record manifest =
  m_name :: string
  m_title :: string
  m_purpose :: string
  m_feature :: string
  m_tier :: cap_tier
  m_deliver :: deliver
  m_rules :: "host_rule list"

definition manifest_allows :: "manifest \<Rightarrow> string \<Rightarrow> proto \<Rightarrow> u16 \<Rightarrow> bool" where
  "manifest_allows m h p n \<longleftrightarrow>
     list_ex (\<lambda>r. hr_host r = h \<and> hr_proto r = p \<and> hr_port r = n) (m_rules m)"

definition valid_capability_token :: "string \<Rightarrow> bool" where
  "valid_capability_token t \<longleftrightarrow> t \<noteq> [] \<and> \<not> str_starts_with t ''-'' \<and> list_all host_byte t"

definition valid_feature :: "string \<Rightarrow> bool" where
  "valid_feature t =
     (case str_split (CHR '':'') t of
        [a] \<Rightarrow> valid_capability_token a
      | [a, b] \<Rightarrow> valid_capability_token a \<and> valid_capability_token b
      | _ \<Rightarrow> False)"

section \<open>The parser\<close>

definition parse_host_rule :: "string \<Rightarrow> (manifest_error, host_rule) result" where
  "parse_host_rule value =
     (case filter (\<lambda>f. f \<noteq> []) (str_split sp value) of
        [host, pr, port] \<Rightarrow>
          if \<not> valid_raw_host host then Inl (BadHostRule (''invalid host '' @ quoted host))
          else (case parse_raw_triple (host @ '':'' @ pr @ '':'' @ port) of
                  Inl _ \<Rightarrow> Inl (BadHostRule (host @ '' '' @ pr @ '' '' @ port))
                | Inr t \<Rightarrow> Inr \<lparr>hr_host = rt_host t, hr_proto = rt_proto t, hr_port = rt_port t\<rparr>)
      | _ \<Rightarrow> Inl (BadHostRule
               (''expected '' @ quoted ''<name> <proto> <port>'' @ '', got '' @ quoted value)))"

text \<open>The mutable slots of the parser's loop.\<close>

record slots =
  s_name :: "string option"
  s_title :: "string option"
  s_purpose :: "string option"
  s_feature :: "string option"
  s_tier :: "cap_tier option"
  s_deliver :: "deliver option"
  s_rules :: "host_rule list"

definition empty_slots :: slots where
  "empty_slots = \<lparr>s_name = None, s_title = None, s_purpose = None, s_feature = None,
     s_tier = None, s_deliver = None, s_rules = []\<rparr>"

definition set_once :: "'a option \<Rightarrow> 'a \<Rightarrow> string \<Rightarrow> (manifest_error, 'a option) result" where
  "set_once slot val key = (if slot \<noteq> None then Inl (DuplicateKey key) else Inr (Some val))"

definition parse_tier_value :: "string \<Rightarrow> (manifest_error, cap_tier) result" where
  "parse_tier_value v =
     (if v = ''one-click'' then Inr OneClick
      else if v = ''ceremony'' then Inr Ceremony else Inl (BadTier v))"

definition parse_deliver_value :: "string \<Rightarrow> (manifest_error, deliver) result" where
  "parse_deliver_value v =
     (if v = ''hosts'' then Inr DeliverHosts
      else if v = ''none'' then Inr DeliverNone else Inl (BadDeliver v))"

definition parse_key :: "slots \<Rightarrow> string \<Rightarrow> string \<Rightarrow> (manifest_error, slots) result" where
  "parse_key st key value =
     (if key = ''name'' then
        (if \<not> valid_capability_token value then Inl (BadToken value)
         else rbind (set_once (s_name st) value ''name'') (\<lambda>x. Inr (st\<lparr>s_name := x\<rparr>)))
      else if key = ''title'' then
        rbind (set_once (s_title st) value ''title'') (\<lambda>x. Inr (st\<lparr>s_title := x\<rparr>))
      else if key = ''purpose'' then
        rbind (set_once (s_purpose st) value ''purpose'') (\<lambda>x. Inr (st\<lparr>s_purpose := x\<rparr>))
      else if key = ''feature'' then
        (if \<not> valid_feature value then Inl (BadToken value)
         else rbind (set_once (s_feature st) value ''feature'') (\<lambda>x. Inr (st\<lparr>s_feature := x\<rparr>)))
      else if key = ''tier'' then
        rbind (parse_tier_value value) (\<lambda>t.
          rbind (set_once (s_tier st) t ''tier'') (\<lambda>x. Inr (st\<lparr>s_tier := x\<rparr>)))
      else if key = ''deliver'' then
        rbind (parse_deliver_value value) (\<lambda>d.
          rbind (set_once (s_deliver st) d ''deliver'') (\<lambda>x. Inr (st\<lparr>s_deliver := x\<rparr>)))
      else if key = ''host'' then
        rbind (parse_host_rule value) (\<lambda>r. Inr (st\<lparr>s_rules := s_rules st @ [r]\<rparr>))
      else Inl (UnknownKey key))"

definition parse_line :: "string \<Rightarrow> slots \<Rightarrow> string \<Rightarrow> (manifest_error, slots) result" where
  "parse_line first st raw =
     (let line = trim_end_matches {sp, tab} raw in
      if str_trim line = [] then Inr st
      else if line = first \<or> str_strip_prefix ''schema '' line \<noteq> None then Inl (DuplicateKey ''schema'')
      else (case str_split_once sp line of
              None \<Rightarrow> Inl (MalformedLine (''no value for '' @ quoted line))
            | Some (key, v) \<Rightarrow>
                let value = str_trim v in
                if value = [] then Inl (MalformedLine (''empty value for '' @ quoted key))
                else parse_key st key value))"

fun parse_body :: "string \<Rightarrow> slots \<Rightarrow> string list \<Rightarrow> (manifest_error, slots) result" where
  "parse_body first st [] = Inr st"
| "parse_body first st (l # ls) = rbind (parse_line first st l) (\<lambda>st'. parse_body first st' ls)"

definition one_click_violation :: "host_rule list \<Rightarrow> host_rule option" where
  "one_click_violation rs = find (\<lambda>r. hr_proto r \<noteq> Tcp \<or> hr_port r \<noteq> 443) rs"

definition finish_manifest :: "slots \<Rightarrow> (manifest_error, manifest) result" where
  "finish_manifest st =
     rbind (ok_or (s_name st) (MissingKey ''name'')) (\<lambda>name.
     rbind (ok_or (s_title st) (MissingKey ''title'')) (\<lambda>title.
     rbind (ok_or (s_purpose st) (MissingKey ''purpose'')) (\<lambda>purpose.
     rbind (ok_or (s_feature st) (MissingKey ''feature'')) (\<lambda>feature.
     rbind (ok_or (s_tier st) (MissingKey ''tier'')) (\<lambda>tier.
     rbind (ok_or (s_deliver st) (MissingKey ''deliver'')) (\<lambda>deliver.
       if s_rules st = [] then Inl NoHostRules
       else (case (if tier = OneClick then one_click_violation (s_rules st) else None) of
               Some r \<Rightarrow> Inl (OneClickNonTls (hr_host r @ '' '' @ proto_label (hr_proto r)
                                @ '' '' @ show_uint (hr_port r)))
             | None \<Rightarrow> Inr \<lparr>m_name = name, m_title = title, m_purpose = purpose,
                 m_feature = feature, m_tier = tier, m_deliver = deliver, m_rules = s_rules st\<rparr>)))))))"

definition parse_manifest :: "string \<Rightarrow> (manifest_error, manifest) result" where
  "parse_manifest text =
     (if list_ex (\<lambda>b. b \<noteq> nl \<and> b \<noteq> tab \<and> is_control b) text
      then Inl (MalformedLine ''control byte in manifest'')
      else (case dropWhile (\<lambda>l. str_trim l = []) (str_lines text) of
              [] \<Rightarrow> Inl BadSchema
            | first # rest \<Rightarrow>
                if map_option str_trim (str_strip_prefix ''schema '' first) = Some SCHEMA_ID
                then rbind (parse_body first empty_slots rest) finish_manifest
                else Inl BadSchema))"

section \<open>The catalog\<close>

datatype source = Sealed | Owner

record capability_entry =
  ce_manifest :: manifest
  ce_source :: source
  ce_fault :: "string option"

record catalog =
  cat_entries :: "capability_entry list"
  cat_faulted :: "capability_entry list"

definition empty_catalog :: catalog where
  "empty_catalog = \<lparr>cat_entries = [], cat_faulted = []\<rparr>"

definition mk_entry :: "manifest \<Rightarrow> source \<Rightarrow> string option \<Rightarrow> capability_entry" where
  "mk_entry m s f = \<lparr>ce_manifest = m, ce_source = s, ce_fault = f\<rparr>"

abbreviation ce_name :: "capability_entry \<Rightarrow> string" where
  "ce_name e \<equiv> m_name (ce_manifest e)"

definition catalog_get :: "catalog \<Rightarrow> string \<Rightarrow> capability_entry option" where
  "catalog_get c name = row_find (\<lambda>e. ce_name e) (cat_entries c) name"

definition sealed_entries :: "catalog \<Rightarrow> capability_entry list" where
  "sealed_entries c = filter (\<lambda>e. ce_source e = Sealed) (cat_entries c)"

text \<open>
  The two loops of \<open>build_catalog\<close>: the state is the active entries, the faulted entries and the
  names seen in this pass.
\<close>

fun sealed_pass :: "manifest list \<Rightarrow> capability_entry list \<Rightarrow> capability_entry list \<Rightarrow> string list
    \<Rightarrow> capability_entry list \<times> capability_entry list \<times> string list" where
  "sealed_pass [] es fs names = (es, fs, names)"
| "sealed_pass (m # ms) es fs names =
     (if m_name m \<in> set names
      then sealed_pass ms es
             (fs @ [mk_entry m Sealed (Some (''duplicate sealed name '' @ quoted (m_name m)))]) names
      else sealed_pass ms (es @ [mk_entry m Sealed None]) fs (names @ [m_name m]))"

fun owner_pass :: "string list \<Rightarrow> manifest list \<Rightarrow> capability_entry list \<Rightarrow> capability_entry list
    \<Rightarrow> string list \<Rightarrow> capability_entry list \<times> capability_entry list \<times> string list" where
  "owner_pass sealed_names [] es fs names = (es, fs, names)"
| "owner_pass sealed_names (m # ms) es fs names =
     (if m_name m \<in> set sealed_names
      then owner_pass sealed_names ms es
             (fs @ [mk_entry m Owner (Some (''owner capability '' @ quoted (m_name m)
                      @ '' shadows a sealed capability (sealed wins)''))]) names
      else if m_name m \<in> set names
      then owner_pass sealed_names ms es
             (fs @ [mk_entry m Owner (Some (''duplicate owner name '' @ quoted (m_name m)))]) names
      else owner_pass sealed_names ms (es @ [mk_entry m Owner None]) fs (names @ [m_name m]))"

definition build_catalog :: "manifest list \<Rightarrow> manifest list \<Rightarrow> catalog" where
  "build_catalog sealed owner =
     (case sealed_pass sealed [] [] [] of (es, fs, sealed_names) \<Rightarrow>
      case owner_pass sealed_names owner es fs [] of (es', fs', _) \<Rightarrow>
        \<lparr>cat_entries = es', cat_faulted = fs'\<rparr>)"

section \<open>The isolation predicates\<close>

definition is_compiled_baseline_host :: "string \<Rightarrow> bool" where
  "is_compiled_baseline_host h \<longleftrightarrow>
     list_ex (\<lambda>r. rule_host r = h)
       (concat (map prof_rules
          (filter (\<lambda>p. is_baseline_profile (prof_name p)) DESKTOP_EGRESS_PROFILES)))"

definition is_sealed_deliverable_host :: "catalog \<Rightarrow> string \<Rightarrow> bool" where
  "is_sealed_deliverable_host c h \<longleftrightarrow>
     (if is_compiled_baseline_host h then False
      else list_ex (\<lambda>e. list_ex (\<lambda>r. hr_host r = h) (m_rules (ce_manifest e)))
             (filter (\<lambda>e. m_deliver (ce_manifest e) = DeliverHosts) (sealed_entries c)))"

definition is_system_reserved_host :: "string \<Rightarrow> bool" where
  "is_system_reserved_host h \<longleftrightarrow>
     (if list_ex (\<lambda>r. rule_host r = h) (concat (map prof_rules EGRESS_PROFILES)) then True
      else if is_sealed_alias_host h then True
      else list_ex (\<lambda>r. rule_host r = h) (concat (map prof_rules DESKTOP_EGRESS_PROFILES)))"

definition STORAGE_HOST_SUFFIXES :: "string list" where
  "STORAGE_HOST_SUFFIXES =
    [''s3.amazonaws.com'', ''r2.cloudflarestorage.com'', ''blob.core.windows.net'',
     ''storage.googleapis.com'', ''digitaloceanspaces.com'', ''backblazeb2.com'', ''wasabisys.com'',
     ''raw.githubusercontent.com'', ''gist.githubusercontent.com'', ''raw.githack.com'',
     ''cdn.discordapp.com'', ''media.discordapp.net'', ''files.catbox.moe'',
     ''pastebin.com'', ''hastebin.com'', ''ghostbin.com'', ''paste.ee'', ''transfer.sh'',
     ''0x0.st'', ''file.io'', ''anonfiles.com'']"

definition is_storage_host :: "string \<Rightarrow> bool" where
  "is_storage_host h \<longleftrightarrow> list_ex (\<lambda>s. h = s \<or> str_ends_with h (''.'' @ s)) STORAGE_HOST_SUFFIXES"

definition WEATHER_MANIFEST :: string where
  "WEATHER_MANIFEST = unlines
    [''schema shrek-egress-capability/1'',
     ''name weather'',
     ''title Weather'',
     ''purpose Local forecast and location search'',
     ''feature dms:weather'',
     ''tier one-click'',
     ''deliver hosts'',
     ''host api.open-meteo.com tcp 443'',
     ''host geocoding-api.open-meteo.com tcp 443'']"

section \<open>Facts: the parser\<close>

text \<open>What every manifest that exists satisfies.\<close>

definition wf_rule :: "host_rule \<Rightarrow> bool" where
  "wf_rule r \<longleftrightarrow> valid_raw_host (hr_host r) \<and> hr_port r \<noteq> 0"

definition tls_rule :: "host_rule \<Rightarrow> bool" where
  "tls_rule r \<longleftrightarrow> hr_proto r = Tcp \<and> hr_port r = 443"

definition plain_byte :: "char \<Rightarrow> bool" where
  "plain_byte b \<longleftrightarrow> b = tab \<or> \<not> is_control b"

definition wf_text :: "string \<Rightarrow> bool" where
  "wf_text t \<longleftrightarrow> t \<noteq> [] \<and> list_all plain_byte t"

definition wf_manifest :: "manifest \<Rightarrow> bool" where
  "wf_manifest m \<longleftrightarrow>
     valid_capability_token (m_name m) \<and> wf_text (m_title m) \<and> wf_text (m_purpose m)
     \<and> valid_feature (m_feature m) \<and> m_rules m \<noteq> [] \<and> list_all wf_rule (m_rules m)
     \<and> (m_tier m = OneClick \<longrightarrow> list_all tls_rule (m_rules m))"

definition slots_ok :: "slots \<Rightarrow> bool" where
  "slots_ok st \<longleftrightarrow>
     pred_option valid_capability_token (s_name st) \<and> pred_option wf_text (s_title st)
     \<and> pred_option wf_text (s_purpose st) \<and> pred_option valid_feature (s_feature st)
     \<and> list_all wf_rule (s_rules st)"

lemma set_once_Inr [res_simps]: "set_once slot v k = Inr x \<longleftrightarrow> slot = None \<and> x = Some v"
  by (auto simp: set_once_def)

lemma set_once_None [simp]: "set_once None v k = Inr (Some v)"
  by (simp add: set_once_def)

lemma parse_host_rule_wf: "parse_host_rule v = Inr r \<Longrightarrow> wf_rule r"
  by (auto simp: parse_host_rule_def wf_rule_def wf_triple_def dest!: parse_raw_triple_wf
      split: list.splits if_splits sum.splits)

lemma parse_key_ok:
  "parse_key st k v = Inr st' \<Longrightarrow> slots_ok st \<Longrightarrow> wf_text v \<Longrightarrow> slots_ok st'"
  by (auto simp: parse_key_def slots_ok_def res_simps dest: parse_host_rule_wf split: if_splits)

lemma parse_line_ok:
  assumes "parse_line first st l = Inr st'" "slots_ok st" "list_all plain_byte l"
  shows "slots_ok st'"
proof -
  let ?line = "trim_end_matches {sp, tab} l"
  consider "st' = st" | k v where "str_split_once sp ?line = Some (k, v)" "str_trim v \<noteq> []"
      "parse_key st k (str_trim v) = Inr st'"
    using assms(1) by (auto simp: parse_line_def Let_def split: if_splits option.splits)
  then show ?thesis
  proof cases
    case 1
    with assms(2) show ?thesis by simp
  next
    case (2 k v)
    have "set v \<subseteq> set ?line"
      using str_split_once_Some [OF 2(1)] by auto
    then have "set (str_trim v) \<subseteq> set l"
      using str_trim_set [of v] trim_end_matches_set [of "{sp, tab}" l] by blast
    then have "wf_text (str_trim v)"
      using assms(3) 2(2) by (auto simp: wf_text_def list_all_iff)
    with 2(3) assms(2) show ?thesis by (rule parse_key_ok)
  qed
qed

lemma parse_body_ok:
  "parse_body first st ls = Inr st' \<Longrightarrow> slots_ok st \<Longrightarrow> (\<forall>l \<in> set ls. list_all plain_byte l)
   \<Longrightarrow> slots_ok st'"
  by (induction ls arbitrary: st) (auto simp: res_simps dest: parse_line_ok)

lemma one_click_violation_None: "one_click_violation rs = None \<longleftrightarrow> list_all tls_rule rs"
  by (auto simp: one_click_violation_def find_None_iff tls_rule_def list_all_iff)

lemma finish_manifest_wf: "finish_manifest st = Inr m \<Longrightarrow> slots_ok st \<Longrightarrow> wf_manifest m"
  by (auto simp: finish_manifest_def slots_ok_def wf_manifest_def res_simps
      one_click_violation_None split: if_splits option.splits)

lemma slots_ok_empty [simp]: "slots_ok empty_slots"
  by (simp add: slots_ok_def empty_slots_def)

lemma parse_manifest_wf: "parse_manifest text = Inr m \<Longrightarrow> wf_manifest m"
proof -
  assume p: "parse_manifest text = Inr m"
  then obtain first rest st where
    clean: "\<not> list_ex (\<lambda>b. b \<noteq> nl \<and> b \<noteq> tab \<and> is_control b) text"
    and ls: "dropWhile (\<lambda>l. str_trim l = []) (str_lines text) = first # rest"
    and body: "parse_body first empty_slots rest = Inr st" and fin: "finish_manifest st = Inr m"
    by (auto simp: parse_manifest_def res_simps split: if_splits list.splits)
  have "list_all plain_byte l" if "l \<in> set rest" for l
  proof -
    have "l \<in> set (dropWhile (\<lambda>l. str_trim l = []) (str_lines text))"
      using that ls by simp
    then have "l \<in> set (str_lines text)"
      by (auto dest: set_dropWhileD)
    then have l: "nl \<notin> set l" "set l \<subseteq> set text"
      using str_lines_elem by blast+
    have plain: "c = nl \<or> plain_byte c" if "c \<in> set text" for c
      using clean that unfolding list_ex_iff plain_byte_def by metis
    show ?thesis
      unfolding list_all_iff using plain l by (metis subsetD)
  qed
  with body have "slots_ok st"
    using parse_body_ok slots_ok_empty by blast
  with fin show ?thesis by (rule finish_manifest_wf)
qed

subsection \<open>The flat rendering of a manifest, and the parser's completeness\<close>

text \<open>
  The listing form the schema documents: one key per line, the hosts last. A manifest with plain
  card text is recovered from its rendering, so the grammar loses nothing.
\<close>

fun cap_deliver_str :: "deliver \<Rightarrow> string" where
  "cap_deliver_str DeliverHosts = ''hosts''"
| "cap_deliver_str DeliverNone = ''none''"

definition render_rule :: "host_rule \<Rightarrow> string" where
  "render_rule r = hr_host r @ '' '' @ proto_label (hr_proto r) @ '' '' @ show_uint (hr_port r)"

definition render_manifest :: "manifest \<Rightarrow> string" where
  "render_manifest m = unlines
     ((''schema '' @ SCHEMA_ID) # (''name '' @ m_name m) # (''title '' @ m_title m)
      # (''purpose '' @ m_purpose m) # (''feature '' @ m_feature m)
      # (''tier '' @ cap_tier_str (m_tier m)) # (''deliver '' @ cap_deliver_str (m_deliver m))
      # map (\<lambda>r. ''host '' @ render_rule r) (m_rules m))"

text \<open>Card text that survives the trimming: printable, and no blank at either end.\<close>

definition plain_text :: "string \<Rightarrow> bool" where
  "plain_text t \<longleftrightarrow> t \<noteq> [] \<and> is_graphic (hd t) \<and> is_graphic (last t)
     \<and> list_all (\<lambda>c. is_graphic c \<or> c = sp) t"

lemma graphics_plain: "t \<noteq> [] \<Longrightarrow> (\<forall>c \<in> set t. is_graphic c) \<Longrightarrow> plain_text t"
  by (simp add: plain_text_def list_all_iff)

lemma plain_text_last: "plain_text t \<Longrightarrow> last t \<notin> {sp, tab}"
  by (auto simp: plain_text_def dest: graphic_not_special)

lemma plain_text_trim [simp]: "plain_text t \<Longrightarrow> str_trim t = t"
  by (simp add: plain_text_def str_trim_graphic)

lemma plain_text_clean: "plain_text t \<Longrightarrow> clean_line t"
  by (rule clean_lineI) (auto simp: plain_text_def list_all_iff dest!: bspec graphic_not_special)

lemma parse_line_key:
  assumes v: "plain_text v" and k: "k \<noteq> []" "\<forall>c \<in> set k. is_graphic c" "k \<noteq> ''schema''"
    and first: "first = ''schema '' @ w"
  shows "parse_line first st (k @ sp # v) = parse_key st k v"
proof -
  have ks: "sp \<notin> set k"
    using k(2) graphic_not_special by blast
  have "last (k @ sp # v) \<notin> {sp, tab}"
    using plain_text_last [OF v] v by (simp add: plain_text_def)
  then have line: "trim_end_matches {sp, tab} (k @ sp # v) = k @ sp # v"
    by (rule trim_end_matches_last [rotated]) simp
  have "str_trim (k @ sp # v) = k @ sp # v"
    using k(1,2) v by (intro str_trim_graphic) (simp_all add: plain_text_def)
  moreover have no: "str_strip_prefix ''schema '' (k @ sp # v) = None"
  proof (rule ccontr)
    assume "str_strip_prefix ''schema '' (k @ sp # v) \<noteq> None"
    then obtain r where "k @ sp # v = ''schema'' @ sp # r"
      by (auto simp: str_strip_prefix_iff)
    then have "str_split_once sp (k @ sp # v) = str_split_once sp (''schema'' @ sp # r)"
      by (rule arg_cong)
    then show False
      using k(3) ks str_split_once_append [of sp "''schema''" r] by simp
  qed
  moreover have "k @ sp # v \<noteq> first"
    using no by (auto simp: first)
  ultimately show ?thesis
    using v ks by (simp add: parse_line_def line) (simp add: plain_text_def)
qed

lemma token_graphics: "valid_capability_token t \<Longrightarrow> \<forall>c \<in> set t. is_graphic c"
  by (auto simp: valid_capability_token_def list_all_iff host_byte_graphic)

lemma token_plain: "valid_capability_token t \<Longrightarrow> plain_text t"
  using token_graphics by (intro graphics_plain) (auto simp: valid_capability_token_def)

lemma feature_plain: "valid_feature t \<Longrightarrow> plain_text t"
proof -
  assume f: "valid_feature t"
  have j: "t = str_join '':'' (str_split (CHR '':'') t)"
    by simp
  from f consider a where "str_split (CHR '':'') t = [a]" "valid_capability_token a"
    | a b where "str_split (CHR '':'') t = [a, b]" "valid_capability_token a" "valid_capability_token b"
    by (auto simp: valid_feature_def split: list.splits)
  then show ?thesis
  proof cases
    case (1 a)
    with j show ?thesis using token_plain by simp
  next
    case (2 a b)
    then have "t = a @ '':'' @ b" using j by simp
    then show ?thesis
      using 2 token_graphics by (intro graphics_plain) (auto simp: valid_capability_token_def)
  qed
qed

lemma render_rule_plain: "wf_rule r \<Longrightarrow> plain_text (render_rule r)"
  unfolding plain_text_def wf_rule_def render_rule_def list_all_iff
  using valid_raw_host_graphic valid_raw_host_no(6) by (auto simp: hd_append show_uint_graphic [OF last_in_set [OF show_uint_ne]])

lemma parse_host_rule_render: "wf_rule r \<Longrightarrow> parse_host_rule (render_rule r) = Inr r"
proof -
  assume wf: "wf_rule r"
  let ?t = "\<lparr>rt_host = hr_host r, rt_proto = hr_proto r, rt_port = hr_port r\<rparr>"
  have "parse_raw_triple (to_wire ?t) = Inr ?t"
    using wf by (intro parse_to_wire) (simp add: wf_rule_def wf_triple_def)
  moreover have "sp \<notin> set (proto_label (hr_proto r))"
    by (cases "hr_proto r") simp_all
  then have "str_split sp (render_rule r)
      = [hr_host r, proto_label (hr_proto r), show_uint (hr_port r)]"
    using wf valid_raw_host_no(4) [of "hr_host r"] by (simp add: render_rule_def wf_rule_def)
  ultimately show ?thesis
    using wf valid_raw_host_no(6) [of "hr_host r"]
    by (simp add: parse_host_rule_def to_wire_def wf_rule_def)
qed

lemma parse_line_literal:
  assumes "plain_text v" "first = ''schema '' @ w"
  shows "parse_line first st (''name '' @ v) = parse_key st ''name'' v"
    "parse_line first st (''title '' @ v) = parse_key st ''title'' v"
    "parse_line first st (''purpose '' @ v) = parse_key st ''purpose'' v"
    "parse_line first st (''feature '' @ v) = parse_key st ''feature'' v"
    "parse_line first st (''tier '' @ v) = parse_key st ''tier'' v"
    "parse_line first st (''deliver '' @ v) = parse_key st ''deliver'' v"
    "parse_line first st (''host '' @ v) = parse_key st ''host'' v"
  using parse_line_key [OF assms(1) _ _ _ assms(2), of "''name''" st]
    parse_line_key [OF assms(1) _ _ _ assms(2), of "''title''" st]
    parse_line_key [OF assms(1) _ _ _ assms(2), of "''purpose''" st]
    parse_line_key [OF assms(1) _ _ _ assms(2), of "''feature''" st]
    parse_line_key [OF assms(1) _ _ _ assms(2), of "''tier''" st]
    parse_line_key [OF assms(1) _ _ _ assms(2), of "''deliver''" st]
    parse_line_key [OF assms(1) _ _ _ assms(2), of "''host''" st]
  by (simp_all add: is_graphic_def)

lemma parse_body_hosts:
  "list_all wf_rule rs \<Longrightarrow> first = ''schema '' @ w \<Longrightarrow>
   parse_body first st (map (\<lambda>r. ''host '' @ render_rule r) rs) = Inr (st\<lparr>s_rules := s_rules st @ rs\<rparr>)"
proof (induction rs arbitrary: st)
  case (Cons r rs)
  then show ?case
    using parse_line_literal(7) [OF render_rule_plain [of r] Cons.prems(2), of st]
    by (simp add: parse_key_def parse_host_rule_render)
qed simp

lemma tier_value_plain:
  "plain_text (cap_tier_str t)" "plain_text (cap_deliver_str d)"
  "parse_tier_value (cap_tier_str t) = Inr t" "parse_deliver_value (cap_deliver_str d) = Inr d"
  by (cases t; cases d; simp add: plain_text_def is_graphic_def parse_tier_value_def
      parse_deliver_value_def)+

lemma schema_line_plain: "plain_text (''schema '' @ SCHEMA_ID)"
  by (simp add: plain_text_def SCHEMA_ID_def is_graphic_def)

lemma schema_id_trim: "str_trim SCHEMA_ID = SCHEMA_ID"
  by (rule str_trim_graphic) (simp_all add: SCHEMA_ID_def is_graphic_def)

lemma plain_line:
  "plain_text v \<Longrightarrow> \<forall>c \<in> set k. is_graphic c \<or> c = sp \<Longrightarrow> clean_line (k @ v) \<and> list_all plain_byte (k @ v)"
proof
  assume v: "plain_text v" and k: "\<forall>c \<in> set k. is_graphic c \<or> c = sp"
  have sp: "\<not> is_control sp" by (simp add: is_control_def)
  have "\<forall>c \<in> set (k @ v). is_graphic c \<or> c = sp"
    using v k by (auto simp: plain_text_def list_all_iff)
  moreover have "c \<noteq> nl \<and> c \<noteq> cr \<and> plain_byte c" if "is_graphic c \<or> c = sp" for c
    using that graphic_not_special [of c] graphic_not_ws_control [of c] sp
    by (elim disjE) (simp_all add: plain_byte_def)
  ultimately have all: "\<forall>c \<in> set (k @ v). c \<noteq> nl \<and> c \<noteq> cr \<and> plain_byte c"
    by simp
  show "clean_line (k @ v)"
    by (rule clean_lineI) (use all in blast)+
  show "list_all plain_byte (k @ v)"
    unfolding list_all_iff using all by simp
qed

lemma render_lines:
  assumes "wf_manifest m" "plain_text (m_title m)" "plain_text (m_purpose m)"
    and "l \<in> set ((''schema '' @ SCHEMA_ID) # (''name '' @ m_name m) # (''title '' @ m_title m)
      # (''purpose '' @ m_purpose m) # (''feature '' @ m_feature m)
      # (''tier '' @ cap_tier_str (m_tier m)) # (''deliver '' @ cap_deliver_str (m_deliver m))
      # map (\<lambda>r. ''host '' @ render_rule r) (m_rules m))"
  shows "clean_line l \<and> list_all plain_byte l"
proof -
  have k: "\<forall>c \<in> set ''name ''. is_graphic c \<or> c = sp" "\<forall>c \<in> set ''title ''. is_graphic c \<or> c = sp"
    "\<forall>c \<in> set ''purpose ''. is_graphic c \<or> c = sp" "\<forall>c \<in> set ''feature ''. is_graphic c \<or> c = sp"
    "\<forall>c \<in> set ''tier ''. is_graphic c \<or> c = sp" "\<forall>c \<in> set ''deliver ''. is_graphic c \<or> c = sp"
    "\<forall>c \<in> set ''host ''. is_graphic c \<or> c = sp"
    by (simp_all add: is_graphic_def)
  have m: "plain_text (m_name m)" "plain_text (m_feature m)" "\<forall>r \<in> set (m_rules m). plain_text (render_rule r)"
    using assms(1) token_plain feature_plain render_rule_plain
    by (auto simp: wf_manifest_def list_all_iff)
  have s: "clean_line (''schema '' @ SCHEMA_ID) \<and> list_all plain_byte (''schema '' @ SCHEMA_ID)"
    using plain_line [OF schema_line_plain, of "[]"] by simp
  note pl = plain_line [OF m(1) k(1)] plain_line [OF assms(2) k(2)] plain_line [OF assms(3) k(3)]
    plain_line [OF m(2) k(4)] plain_line [OF tier_value_plain(1) k(5)]
    plain_line [OF tier_value_plain(2) k(6)]
  consider "l = ''schema '' @ SCHEMA_ID" | "l = ''name '' @ m_name m" | "l = ''title '' @ m_title m"
    | "l = ''purpose '' @ m_purpose m" | "l = ''feature '' @ m_feature m"
    | "l = ''tier '' @ cap_tier_str (m_tier m)" | "l = ''deliver '' @ cap_deliver_str (m_deliver m)"
    | r where "r \<in> set (m_rules m)" "l = ''host '' @ render_rule r"
    using assms(4) unfolding list.set set_map by blast
  then show ?thesis
    by cases (use pl s m(3) plain_line k(7) in blast)+
qed

lemma parse_render_manifest:
  assumes "wf_manifest m" "plain_text (m_title m)" "plain_text (m_purpose m)"
  shows "parse_manifest (render_manifest m) = Inr m"
proof -
  let ?first = "''schema '' @ SCHEMA_ID"
  let ?rest = "(''name '' @ m_name m) # (''title '' @ m_title m)
      # (''purpose '' @ m_purpose m) # (''feature '' @ m_feature m)
      # (''tier '' @ cap_tier_str (m_tier m)) # (''deliver '' @ cap_deliver_str (m_deliver m))
      # map (\<lambda>r. ''host '' @ render_rule r) (m_rules m)"
  note rl = render_lines [OF assms]
  have lines: "str_lines (render_manifest m) = ?first # ?rest"
    unfolding render_manifest_def using rl by (intro str_lines_unlines) blast
  have "c = nl \<or> plain_byte c" if "c \<in> set (render_manifest m)" for c
  proof -
    from that consider "c = nl" | l where "l \<in> set (?first # ?rest)" "c \<in> set l"
      unfolding render_manifest_def using unlines_elem by blast
    then show ?thesis
      by cases (use rl in \<open>unfold list_all_iff, blast\<close>)+
  qed
  then have clean: "\<not> list_ex (\<lambda>b. b \<noteq> nl \<and> b \<noteq> tab \<and> is_control b) (render_manifest m)"
    unfolding list_ex_iff plain_byte_def by blast
  have "str_trim ?first \<noteq> []"
    using schema_line_plain by simp
  then have first: "dropWhile (\<lambda>l. str_trim l = []) (str_lines (render_manifest m)) = ?first # ?rest"
    by (simp add: lines)
  have plain: "plain_text (m_name m)" "plain_text (m_feature m)"
    using assms(1) token_plain feature_plain by (auto simp: wf_manifest_def)
  define F where F: "F = ''schema '' @ SCHEMA_ID"
  note lit = parse_line_literal(1) [OF plain(1) F, simplified]
    parse_line_literal(2) [OF assms(2) F, simplified] parse_line_literal(3) [OF assms(3) F, simplified]
    parse_line_literal(4) [OF plain(2) F, simplified]
    parse_line_literal(5) [OF tier_value_plain(1) F, simplified]
    parse_line_literal(6) [OF tier_value_plain(2) F, simplified]
  have "parse_body F empty_slots ?rest = Inr \<lparr>s_name = Some (m_name m),
      s_title = Some (m_title m), s_purpose = Some (m_purpose m), s_feature = Some (m_feature m),
      s_tier = Some (m_tier m), s_deliver = Some (m_deliver m), s_rules = m_rules m\<rparr>"
    using assms(1) parse_body_hosts [of "m_rules m" F SCHEMA_ID, OF _ F, simplified]
    by (simp add: lit parse_key_def tier_value_plain empty_slots_def wf_manifest_def)
  moreover have "finish_manifest \<lparr>s_name = Some (m_name m),
      s_title = Some (m_title m), s_purpose = Some (m_purpose m), s_feature = Some (m_feature m),
      s_tier = Some (m_tier m), s_deliver = Some (m_deliver m), s_rules = m_rules m\<rparr> = Inr m"
    using assms(1)
    by (auto simp: finish_manifest_def wf_manifest_def one_click_violation_None [THEN iffD2])
  moreover have "map_option str_trim (str_strip_prefix ''schema '' F) = Some SCHEMA_ID"
    by (simp only: F str_strip_prefix_append option.map schema_id_trim)
  moreover have "dropWhile (\<lambda>l. str_trim l = []) (str_lines (render_manifest m)) = F # ?rest"
    by (simp only: first F)
  ultimately show ?thesis
    unfolding parse_manifest_def if_not_P [OF clean]
    by (simp add: Let_def del: append.simps)
qed

section \<open>Facts: the catalog\<close>

lemma mk_entry_sel [simp]:
  "ce_manifest (mk_entry m s f) = m" "ce_source (mk_entry m s f) = s" "ce_fault (mk_entry m s f) = f"
  by (simp_all add: mk_entry_def)

text \<open>The names a list of manifests brings, each at its first occurrence.\<close>

fun firsts :: "string list \<Rightarrow> manifest list \<Rightarrow> manifest list" where
  "firsts seen [] = []"
| "firsts seen (m # ms) =
     (if m_name m \<in> set seen then firsts seen ms else m # firsts (seen @ [m_name m]) ms)"

lemma firsts_names:
  "m \<in> set (firsts seen ms) \<Longrightarrow> m \<in> set ms \<and> m_name m \<notin> set seen"
  by (induction ms arbitrary: seen) (fastforce split: if_splits)+

lemma firsts_cover: "m_name ` set (firsts seen ms) = m_name ` set ms - set seen"
proof (induction ms arbitrary: seen)
  case (Cons m ms)
  then show ?case by (cases "m_name m \<in> set seen") auto
qed simp

lemma firsts_distinct: "distinct (map m_name (firsts seen ms))"
proof (induction ms arbitrary: seen)
  case (Cons m ms)
  then show ?case by (simp add: firsts_cover)
qed simp

lemma sealed_pass_fst:
  "sealed_pass ms es fs names = (es', fs', names') \<Longrightarrow>
     es' = es @ map (\<lambda>m. mk_entry m Sealed None) (firsts names ms)
     \<and> set names' = set names \<union> m_name ` set ms"
proof (induction ms arbitrary: es fs names)
  case (Cons m ms)
  show ?case
    by (cases "m_name m \<in> set names") (use Cons.prems in \<open>auto dest!: Cons.IH\<close>)
qed simp

lemma owner_pass_fst:
  "owner_pass sn ms es fs names = (es', fs', names') \<Longrightarrow>
     es' = es @ map (\<lambda>m. mk_entry m Owner None)
                   (firsts names (filter (\<lambda>m. m_name m \<notin> set sn) ms))"
proof (induction ms arbitrary: es fs names)
  case (Cons m ms)
  show ?case
    by (cases "m_name m \<in> set sn"; cases "m_name m \<in> set names")
      (use Cons.prems in \<open>auto dest!: Cons.IH\<close>)
qed simp

text \<open>The active entries, in closed form.\<close>

lemma cat_entries_build:
  "cat_entries (build_catalog sealed owner) =
     map (\<lambda>m. mk_entry m Sealed None) (firsts [] sealed) @
     map (\<lambda>m. mk_entry m Owner None)
       (firsts [] (filter (\<lambda>m. m_name m \<notin> m_name ` set sealed) owner))"
proof -
  obtain es fs names where s: "sealed_pass sealed [] [] [] = (es, fs, names)"
    by (metis prod_cases3)
  obtain es' fs' names' where o: "owner_pass names owner es fs [] = (es', fs', names')"
    by (metis prod_cases3)
  have "cat_entries (build_catalog sealed owner) = es'"
    by (simp add: build_catalog_def s o)
  then show ?thesis
    using sealed_pass_fst [OF s] owner_pass_fst [OF o] by simp
qed

lemma catalog_distinct: "distinct (map ce_name (cat_entries (build_catalog sealed owner)))"
proof -
  let ?s = "firsts [] sealed"
  let ?o = "firsts [] (filter (\<lambda>m. m_name m \<notin> m_name ` set sealed) owner)"
  have "m_name ` set ?s \<inter> m_name ` set ?o = {}"
    unfolding firsts_cover by (auto simp: image_iff)
  then have "distinct (map m_name ?s @ map m_name ?o)"
    unfolding distinct_append set_map using firsts_distinct by blast
  moreover have "map ce_name (cat_entries (build_catalog sealed owner)) = map m_name ?s @ map m_name ?o"
    by (simp add: cat_entries_build comp_def)
  ultimately show ?thesis by simp
qed

lemma sealed_entries_build:
  "sealed_entries (build_catalog sealed owner) = map (\<lambda>m. mk_entry m Sealed None) (firsts [] sealed)"
  by (simp add: sealed_entries_def cat_entries_build filter_map comp_def)

lemma sealed_pass_mset:
  "sealed_pass ms es fs names = (es', fs', names') \<Longrightarrow>
     mset (map ce_manifest (es' @ fs')) = mset (map ce_manifest (es @ fs)) + mset ms"
proof (induction ms arbitrary: es fs names)
  case (Cons m ms)
  show ?case
    by (cases "m_name m \<in> set names") (use Cons.prems in \<open>auto dest!: Cons.IH\<close>)
qed simp

lemma owner_pass_mset:
  "owner_pass sn ms es fs names = (es', fs', names') \<Longrightarrow>
     mset (map ce_manifest (es' @ fs')) = mset (map ce_manifest (es @ fs)) + mset ms"
proof (induction ms arbitrary: es fs names)
  case (Cons m ms)
  show ?case
    by (cases "m_name m \<in> set sn"; cases "m_name m \<in> set names")
      (use Cons.prems in \<open>auto dest!: Cons.IH\<close>)
qed simp

lemma catalog_mset:
  "mset (map ce_manifest (cat_entries (build_catalog s ow) @ cat_faulted (build_catalog s ow)))
     = mset s + mset ow"
proof -
  obtain es fs names where s: "sealed_pass s [] [] [] = (es, fs, names)"
    by (metis prod_cases3)
  obtain es' fs' names' where o: "owner_pass names ow es fs [] = (es', fs', names')"
    by (metis prod_cases3)
  show ?thesis
    using sealed_pass_mset [OF s] owner_pass_mset [OF o] by (simp add: build_catalog_def s o)
qed

lemma catalog_get_iff:
  "distinct (map ce_name (cat_entries c)) \<Longrightarrow>
   catalog_get c n = Some e \<longleftrightarrow> e \<in> set (cat_entries c) \<and> ce_name e = n"
  unfolding catalog_get_def
  by (rule sealed_table.find_iff) (simp add: sealed_table_def)

lemma is_sealed_deliverable_owner:
  "is_sealed_deliverable_host (build_catalog s ow) h = is_sealed_deliverable_host (build_catalog s []) h"
  by (simp add: is_sealed_deliverable_host_def sealed_entries_build)

lemma is_sealed_deliverable_elim:
  "is_sealed_deliverable_host c h \<Longrightarrow>
     \<exists>e \<in> set (cat_entries c). ce_source e = Sealed \<and> m_deliver (ce_manifest e) = DeliverHosts
       \<and> (\<exists>r \<in> set (m_rules (ce_manifest e)). hr_host r = h)"
  by (auto simp: is_sealed_deliverable_host_def sealed_entries_def list_ex_iff split: if_splits)

section \<open>Properties\<close>

text \<open>The shipped capability, as data.\<close>

definition weather_manifest :: manifest where
  "weather_manifest = \<lparr>m_name = ''weather'', m_title = ''Weather'',
     m_purpose = ''Local forecast and location search'', m_feature = ''dms:weather'',
     m_tier = OneClick, m_deliver = DeliverHosts,
     m_rules = [\<lparr>hr_host = ''api.open-meteo.com'', hr_proto = Tcp, hr_port = 443\<rparr>,
                \<lparr>hr_host = ''geocoding-api.open-meteo.com'', hr_proto = Tcp, hr_port = 443\<rparr>]\<rparr>"

lemma weather_wf: "wf_manifest weather_manifest" "plain_text (m_title weather_manifest)"
  "plain_text (m_purpose weather_manifest)"
  by code_simp+

lemma weather_rendered: "render_manifest weather_manifest = WEATHER_MANIFEST"
  by code_simp

lemma weather_parses: "parse_manifest WEATHER_MANIFEST = Inr weather_manifest"
  using parse_render_manifest [OF weather_wf] by (simp add: weather_rendered)

text \<open>
  C36: a manifest that parses is one the rest of the system may rely on: a safe name, at least one
  rule, every rule a valid host and a port that can be dialled, and no one-click manifest reaches
  anything but TLS on port 443.
\<close>

theorem parsed_manifest_sound:
  assumes "parse_manifest s = Inr m"
  shows "valid_capability_token (m_name m) \<and> m_rules m \<noteq> []
    \<and> list_all (\<lambda>r. valid_raw_host (hr_host r) \<and> hr_port r \<noteq> 0
         \<and> (m_tier m = Ceremony \<or> hr_proto r = Tcp \<and> hr_port r = 443)) (m_rules m)"
  using parse_manifest_wf [OF assms] cap_tier.exhaust [of "m_tier m"]
  by (auto simp: wf_manifest_def wf_rule_def tls_rule_def list_all_iff)

theorem parsed_manifest_sound_witness:
  "list_all (\<lambda>r. valid_raw_host (hr_host r) \<and> hr_port r \<noteq> 0
     \<and> (m_tier weather_manifest = Ceremony \<or> hr_proto r = Tcp \<and> hr_port r = 443)) (m_rules weather_manifest)"
  using parsed_manifest_sound [OF weather_parses] by blast

text \<open>
  every well-formed capability whose texts carry no outer blanks can be written down and read
  back unchanged.
\<close>

theorem manifest_roundtrip:
  assumes "wf_manifest m" "plain_text (m_title m)" "plain_text (m_purpose m)"
  shows "parse_manifest (render_manifest m) = Inr m"
  using assms by (rule parse_render_manifest)

theorem manifest_roundtrip_witness:
  "parse_manifest (render_manifest weather_manifest) = Inr weather_manifest"
  by (rule manifest_roundtrip [OF weather_wf])

text \<open>
  a name a sealed manifest carries is looked up as that sealed manifest, whatever the owner has
  installed, and the lookup of any name does not depend on owner manifests of sealed names.
\<close>

theorem sealed_always_wins:
  assumes "n \<in> m_name ` set sealed"
  shows "catalog_get (build_catalog sealed owner) n = catalog_get (build_catalog sealed []) n
    \<and> (\<exists>m. m \<in> set sealed \<and> catalog_get (build_catalog sealed owner) n = Some (mk_entry m Sealed None))"
proof -
  have "n \<in> m_name ` set (firsts [] sealed)"
    using assms by (simp add: firsts_cover)
  then obtain m where m: "m \<in> set (firsts [] sealed)" "m_name m = n" by auto
  have "catalog_get (build_catalog sealed ow) n = Some (mk_entry m Sealed None)" for ow
    unfolding catalog_get_iff [OF catalog_distinct] cat_entries_build using m by auto
  then show ?thesis using m firsts_names by metis
qed

theorem sealed_always_wins_witness:
  "\<exists>m. m \<in> set [weather_manifest] \<and> catalog_get (build_catalog [weather_manifest]
       [weather_manifest\<lparr>m_deliver := DeliverNone\<rparr>]) ''weather'' = Some (mk_entry m Sealed None)"
proof -
  have "''weather'' \<in> m_name ` set [weather_manifest]" by (simp add: weather_manifest_def)
  then show ?thesis using sealed_always_wins by blast
qed

text \<open>
  building the catalog loses nothing and invents nothing: every manifest read from either
  directory is either an active entry or a faulted one, and active names are unique.
\<close>

theorem catalog_accounts_for_all:
  "mset (map ce_manifest (cat_entries (build_catalog sealed owner) @ cat_faulted (build_catalog sealed owner)))
     = mset sealed + mset owner
   \<and> distinct (map ce_name (cat_entries (build_catalog sealed owner)))"
  using catalog_mset catalog_distinct by blast

end
