(* ===== verification/Bench_Authority.thy ===== *)
theory Bench_Authority
  imports Bench_World Gate_Consent Policy_Capability
begin

text \<open>
  The authority-increasing verbs of the bench plane: the in-process forms root uses (\<open>grant\<close>,
  \<open>network\<close>, \<open>export\<close>), the prechecks that turn a socket request into a plan before any human is
  asked, and the commits that apply an approved plan, with the derivation of a workshop's image and
  its cache.  \<open>desktop_egress.rs\<close> contributes the plans and commits of the desktop egress ceremony.

  A precheck answers a return code (its message only goes to the journal) or a plan.
\<close>

section \<open>Grant targets\<close>

definition dot_comp :: "string \<Rightarrow> bool" where
  "dot_comp c \<longleftrightarrow> normal_comp c \<and> str_starts_with c ''.''"

text \<open>The canonical path and the mount leaf of a grant request, or the return code.\<close>

definition grant_target :: "bench_env \<Rightarrow> string \<Rightarrow> (int, string \<times> string) result" where
  "grant_target e path =
     (case be_canon e path of
        None \<Rightarrow> Inl 2
      | Some canonical \<Rightarrow>
          if path_eq canonical anchor_dir \<or> \<not> path_starts_with canonical anchor_dir then Inl 2
          else if (case path_rel canonical anchor_dir of Some rel \<Rightarrow> list_ex dot_comp rel | None \<Rightarrow> False) then Inl 2
          else if \<not> be_isdir e canonical then Inl 2
          else (case fs_leaf canonical of None \<Rightarrow> Inl 2 | Some leaf \<Rightarrow> Inr (canonical, leaf)))"

definition grant_collides :: "bench_record \<Rightarrow> string \<Rightarrow> string \<Rightarrow> bool" where
  "grant_collides r canonical leaf \<longleftrightarrow>
     list_ex (\<lambda>(_, path). path_eq path canonical \<or> fs_leaf path = Some leaf) (fs_grants (bn_grants r))"

definition push_grant :: "bench_record \<Rightarrow> grant \<Rightarrow> bench_record" where
  "push_grant r g = r\<lparr>bn_grants := bn_grants r @ [grant_encode g]\<rparr>"

definition set_network :: "bench_record \<Rightarrow> string list \<Rightarrow> bench_record" where
  "set_network r ps =
     r\<lparr>bn_grants := filter (\<lambda>g. \<not> is_net g) (bn_grants r) @ map (\<lambda>p. grant_encode (Net p)) ps\<rparr>"

definition push_export :: "bench_record \<Rightarrow> export \<Rightarrow> bench_record" where
  "push_export r x = r\<lparr>bn_exports := bn_exports r @ [export_encode x]\<rparr>"

definition write_or :: "bench_world \<Rightarrow> bench_record \<Rightarrow> int \<times> bench_world" where
  "write_or w r = (case save_record w r of None \<Rightarrow> (1, w) | Some w' \<Rightarrow> (0, w'))"

section \<open>The in-process verbs\<close>

definition grant :: "bench_env \<Rightarrow> string \<Rightarrow> string \<Rightarrow> bool \<Rightarrow> bench_world \<Rightarrow> int \<times> bench_world" where
  "grant e name path rw w =
     (case load_bench w name of
        None \<Rightarrow> (4, w)
      | Some r \<Rightarrow>
          (case grant_target e path of
             Inl rc \<Rightarrow> (rc, w)
           | Inr (canonical, leaf) \<Rightarrow>
               if \<not> be_prepare e (bn_id r) then (1, w)
               else if grant_collides r canonical leaf then (1, w)
               else (case materialize_one e w rw canonical (path_join (grants_dir (bn_id r)) leaf) of
                       None \<Rightarrow> (1, w)
                     | Some w1 \<Rightarrow> write_or w1 (push_grant r (Fs rw canonical)))))"

definition network :: "string \<Rightarrow> string list \<Rightarrow> bench_world \<Rightarrow> int \<times> bench_world" where
  "network name ps w =
     (case load_bench w name of
        None \<Rightarrow> (4, w)
      | Some r \<Rightarrow>
          (case validate_profile_set ps of
             Inl _ \<Rightarrow> (2, w)
           | Inr out \<Rightarrow> write_or w (set_network r out)))"

definition export_file :: "string \<Rightarrow> string \<Rightarrow> string" where
  "export_file name key = ''shrek-bench-'' @ name @ ''-'' @ key @ ''.desktop''"

definition export_label :: "string \<Rightarrow> string \<Rightarrow> string option \<Rightarrow> string" where
  "export_label name key opt =
     (case sanitize_label opt of Some l \<Rightarrow> l | None \<Rightarrow> name @ '': '' @ key)"

definition export_icon :: "string option \<Rightarrow> string" where
  "export_icon opt =
     (case opt of Some i \<Rightarrow> if valid_icon i then i else ''application-x-executable''
      | None \<Rightarrow> ''application-x-executable'')"

definition publish_export :: "bench_env \<Rightarrow> bench_record \<Rightarrow> string \<Rightarrow> export \<Rightarrow> bench_world \<Rightarrow> int \<times> bench_world" where
  "publish_export e r bench x w =
     (case write_desktop_as_dev e (ex_file x) (desktop_content bench (ex_key x) (ex_label x) (ex_icon x)) w of
        None \<Rightarrow> (1, w)
      | Some w1 \<Rightarrow>
          (case save_record w1 (push_export r x) of
             None \<Rightarrow> (1, remove_desktop_as_dev e (ex_file x) w1)
           | Some w2 \<Rightarrow> (0, w2)))"

text \<open>The checks of an export request against the record: a return code, or the export.\<close>

definition export_check ::
  "bench_record \<Rightarrow> string \<Rightarrow> string \<Rightarrow> string option \<Rightarrow> string option \<Rightarrow> string list \<Rightarrow> (int, export) result option" where
  "export_check r name key label icon workload =
     (if \<not> valid_bench_name key then Some (Inl 2)
      else if workload = [] then Some (Inl 2)
      else if list_ex (\<lambda>a. nl \<in> set a) workload then Some (Inl 2)
      else do {
        found \<leftarrow> find_export key (bn_exports r);
        Some (if found \<noteq> None then Inl 1
              else if \<not> valid_desktop_file (export_file name key) then Inl 2
              else Inr \<lparr>ex_key = key, ex_file = export_file name key, ex_icon = export_icon icon,
                        ex_label = export_label name key label, ex_cmd = workload\<rparr>) })"

definition export_app ::
  "bench_env \<Rightarrow> string \<Rightarrow> string \<Rightarrow> string option \<Rightarrow> string option \<Rightarrow> string list \<Rightarrow> bench_world
   \<Rightarrow> (int \<times> bench_world) option" where
  "export_app e name key label icon workload w =
     (case load_bench w name of
        None \<Rightarrow> Some (4, w)
      | Some r \<Rightarrow> do {
          checked \<leftarrow> export_check r name key label icon workload;
          Some (case checked of
                  Inl rc \<Rightarrow> (rc, w)
                | Inr x \<Rightarrow> publish_export e r name x w) })"

section \<open>Argument lists\<close>

definition is_flag :: "string \<Rightarrow> bool" where
  "is_flag a \<longleftrightarrow> str_starts_with a ''-''"

text \<open>A loop over the arguments answers what it collected, or the argument it does not take.\<close>

fun grant_args :: "string option \<Rightarrow> string option \<Rightarrow> bool \<Rightarrow> string list
    \<Rightarrow> (string, string option \<times> string option \<times> bool) result" where
  "grant_args name path rw [] = Inr (name, path, rw)"
| "grant_args name path rw (a # as) =
     (if a = ''--rw'' then grant_args name path True as
      else if a = ''--ro'' then grant_args name path False as
      else if \<not> is_flag a \<and> name = None then grant_args (Some a) path rw as
      else if \<not> is_flag a \<and> path = None then grant_args name (Some a) rw as
      else Inl a)"

record export_request =
  er_name :: "string option"
  er_key :: "string option"
  er_label :: "string option"
  er_icon :: "string option"
  er_workload :: "string list"

fun export_args :: "export_request \<Rightarrow> string list \<Rightarrow> (string, export_request) result" where
  "export_args q [] = Inr q"
| "export_args q (a # as) =
     (if a = ''--'' then Inr (q\<lparr>er_workload := as\<rparr>)
      else if a = ''--label'' then
        (case as of [] \<Rightarrow> Inr (q\<lparr>er_label := None\<rparr>) | v # r \<Rightarrow> export_args (q\<lparr>er_label := Some v\<rparr>) r)
      else if a = ''--icon'' then
        (case as of [] \<Rightarrow> Inr (q\<lparr>er_icon := None\<rparr>) | v # r \<Rightarrow> export_args (q\<lparr>er_icon := Some v\<rparr>) r)
      else if \<not> is_flag a \<and> er_name q = None then export_args (q\<lparr>er_name := Some a\<rparr>) as
      else if \<not> is_flag a \<and> er_key q = None then export_args (q\<lparr>er_key := Some a\<rparr>) as
      else Inl a)"

definition no_export :: export_request where
  "no_export = \<lparr>er_name = None, er_key = None, er_label = None, er_icon = None, er_workload = []\<rparr>"

record promote_request =
  pq_bench :: "string option"
  pq_ws :: "string option"
  pq_apt :: "string list"
  pq_pip :: "string list"

fun promote_args :: "promote_request \<Rightarrow> string list \<Rightarrow> (string, promote_request) result" where
  "promote_args q [] = Inr q"
| "promote_args q (a # as) =
     (if a = ''--name'' then
        (case as of [] \<Rightarrow> Inr (q\<lparr>pq_ws := None\<rparr>) | v # r \<Rightarrow> promote_args (q\<lparr>pq_ws := Some v\<rparr>) r)
      else if a = ''--apt'' then
        (case as of [] \<Rightarrow> Inl a | v # r \<Rightarrow> promote_args (q\<lparr>pq_apt := pq_apt q @ [v]\<rparr>) r)
      else if a = ''--pip'' then
        (case as of [] \<Rightarrow> Inl a | v # r \<Rightarrow> promote_args (q\<lparr>pq_pip := pq_pip q @ [v]\<rparr>) r)
      else if \<not> is_flag a \<and> pq_bench q = None then promote_args (q\<lparr>pq_bench := Some a\<rparr>) as
      else Inl a)"

definition no_promote :: promote_request where
  "no_promote = \<lparr>pq_bench = None, pq_ws = None, pq_apt = [], pq_pip = []\<rparr>"

record launch_request =
  lq_ws :: "string option"
  lq_workload :: "string list"
  lq_refresh :: bool
  lq_offline :: bool

fun launch_args :: "launch_request \<Rightarrow> string list \<Rightarrow> (string, launch_request) result" where
  "launch_args q [] = Inr q"
| "launch_args q (a # as) =
     (if a = ''--'' then Inr (q\<lparr>lq_workload := as\<rparr>)
      else if a = ''--refresh'' then launch_args (q\<lparr>lq_refresh := True\<rparr>) as
      else if a = ''--offline'' then launch_args (q\<lparr>lq_offline := True\<rparr>) as
      else if \<not> is_flag a \<and> lq_ws q = None then launch_args (q\<lparr>lq_ws := Some a\<rparr>) as
      else Inl a)"

definition no_launch :: launch_request where
  "no_launch = \<lparr>lq_ws = None, lq_workload = [], lq_refresh = False, lq_offline = False\<rparr>"

section \<open>Prechecks\<close>

type_synonym checked = "(int, authority_plan) result"

definition spaced :: "string list \<Rightarrow> string" where
  "spaced ws = str_join '' '' ws"

definition precheck_grant :: "bench_env \<Rightarrow> bench_world \<Rightarrow> string list \<Rightarrow> checked" where
  "precheck_grant e w rest =
     (case grant_args None None False rest of
        Inl _ \<Rightarrow> Inl 2
      | Inr (name_opt, path_opt, rw) \<Rightarrow>
          (case (name_opt, path_opt) of
             (Some name, Some path) \<Rightarrow>
               (case load_bench w name of
                  None \<Rightarrow> Inl 4
                | Some r \<Rightarrow>
                    (case grant_target e path of
                       Inl rc \<Rightarrow> Inl rc
                     | Inr (canonical, leaf) \<Rightarrow>
                         if grant_collides r canonical leaf then Inl 1
                         else (case path_rel canonical anchor_dir of
                                 None \<Rightarrow> Inl 2
                               | Some rel \<Rightarrow>
                                   if \<not> utf8_ok (str_join ''/'' rel) then Inl 2
                                   else if \<not> be_anchor e then Inl 1
                                   else (case be_pin e rel of
                                           None \<Rightarrow> Inl 2
                                         | Some (obj, isdir) \<Rightarrow>
                                             if \<not> isdir then Inl 2
                                             else Inr \<lparr>ap_bench = name,
                                               ap_rows = [(''Grant path'', utf8_lossy canonical),
                                                 (''Access'', if rw then ''READ-WRITE'' else ''read-only''),
                                                 (''Mounts in bench at'', grant_mountpoint leaf)],
                                               ap_trifecta = trifecta_after (record_has_fs r) (egress_profiles r \<noteq> []) True False,
                                               ap_kind = GrantDir canonical leaf rw obj\<rparr>))))
           | _ \<Rightarrow> Inl 2))"

definition precheck_network :: "bench_env \<Rightarrow> bench_world \<Rightarrow> string list \<Rightarrow> checked" where
  "precheck_network e w rest =
     (case rest of
        [] \<Rightarrow> Inl 2
      | name # ps \<Rightarrow>
          if ''none'' \<in> set ps then Inl 2
          else (case validate_profile_set ps of
                  Inl _ \<Rightarrow> Inl 2
                | Inr out \<Rightarrow>
                    (case load_bench w name of
                       None \<Rightarrow> Inl 4
                     | Some r \<Rightarrow>
                         if list_ex (\<lambda>p. resolve p = None) out then Inl 2
                         else Inr \<lparr>ap_bench = name,
                           ap_rows = network_profile_rows out
                             @ (case be_resolve e out of Some n \<Rightarrow> [(''Allowed endpoints'', show_nat n)] | None \<Rightarrow> [])
                             @ (if egress_profiles r \<noteq> [] then [(''Replaces egress'', str_join '', '' (egress_profiles r))] else []),
                           ap_trifecta = trifecta_after (record_has_fs r) False False True,
                           ap_kind = Network out\<rparr>)))"

definition precheck_export :: "bench_world \<Rightarrow> string list \<Rightarrow> checked option" where
  "precheck_export w rest =
     (case export_args no_export rest of
        Inl _ \<Rightarrow> Some (Inl 2)
      | Inr q \<Rightarrow>
          (case (er_name q, er_key q) of
             (Some name, Some key) \<Rightarrow>
               (case load_bench w name of
                  None \<Rightarrow> Some (Inl 4)
                | Some r \<Rightarrow> do {
                    c \<leftarrow> export_check r name key (er_label q) (er_icon q) (er_workload q);
                    Some (case c of
                            Inl rc \<Rightarrow> Inl rc
                          | Inr x \<Rightarrow>
                              Inr \<lparr>ap_bench = name,
                                ap_rows = [(''Launcher key'', key), (''Runs command'', spaced (er_workload q)),
                                  (''Shown as'', ex_label x)],
                                ap_trifecta = trifecta_after (record_has_fs r) (egress_profiles r \<noteq> []) False False,
                                ap_kind = ExportApp key (ex_file x) (ex_icon x) (ex_label x) (er_workload q)\<rparr>) })
           | _ \<Rightarrow> Some (Inl 2)))"

fun has_duplicate :: "string list \<Rightarrow> bool" where
  "has_duplicate [] = False"
| "has_duplicate (x # xs) = (x \<in> set xs \<or> has_duplicate xs)"

fun launcher_rows :: "string list \<Rightarrow> (string \<times> string) list option" where
  "launcher_rows [] = Some []"
| "launcher_rows (l # ls) = do {
     x \<leftarrow> export_parse l;
     rows \<leftarrow> launcher_rows ls;
     Some ((case x of
              Some y \<Rightarrow> [(''Carries launcher'', ex_key y @ '' -> '' @ spaced (ex_cmd y))]
            | None \<Rightarrow> []) @ rows) }"

definition none_or :: "string list \<Rightarrow> string" where
  "none_or ps = (if ps = [] then ''(none)'' else spaced ps)"

definition precheck_promote :: "bench_world \<Rightarrow> string list \<Rightarrow> checked option" where
  "precheck_promote w rest =
     (case promote_args no_promote rest of
        Inl _ \<Rightarrow> Some (Inl 2)
      | Inr q \<Rightarrow>
          (case (pq_bench q, pq_ws q) of
             (Some bench, Some ws) \<Rightarrow>
               if \<not> valid_bench_name ws then Some (Inl 2)
               else if list_ex (\<lambda>p. \<not> valid_pkg_token p) (pq_apt q @ pq_pip q) then Some (Inl 2)
               else if has_duplicate (pq_apt q) \<or> has_duplicate (pq_pip q) then Some (Inl 1)
               else (case load_bench w bench of
                       None \<Rightarrow> Some (Inl 4)
                     | Some r \<Rightarrow>
                         if \<not> valid_seed (bn_seed r) then Some (Inl 2)
                         else do {
                           launchers \<leftarrow> launcher_rows (bn_exports r);
                           Some (Inr \<lparr>ap_bench = bench,
                             ap_rows = [(''From bench'', bench), (''Base seed'', bn_seed r),
                                 (''apt packages'', none_or (pq_apt q)), (''pip packages'', none_or (pq_pip q))]
                               @ map (Pair ''Declares grant'') (bn_grants r) @ launchers
                               @ (if workshop_load_record (bw_workshops w) ws \<noteq> None then [(''Replaces recipe'', ws)] else []),
                             ap_trifecta = trifecta_after (record_has_fs r) (egress_profiles r \<noteq> []) False False,
                             ap_kind = Promote ws (bn_seed r) (pq_apt q) (pq_pip q) (bn_grants r) (bn_exports r)\<rparr>) })
           | _ \<Rightarrow> Some (Inl 2)))"

definition precheck_launch :: "bench_world \<Rightarrow> string list \<Rightarrow> checked" where
  "precheck_launch w rest =
     (case launch_args no_launch rest of
        Inl _ \<Rightarrow> Inl 2
      | Inr q \<Rightarrow>
          (case lq_ws q of
             None \<Rightarrow> Inl 2
           | Some ws \<Rightarrow>
               if list_ex (\<lambda>a. nl \<in> set a) (lq_workload q) then Inl 2
               else (case workshop_load_record (bw_workshops w) ws of
                       None \<Rightarrow> Inl 4
                     | Some r \<Rightarrow>
                         let net = egress_profiles_from (ws_grants r) in
                         if \<not> valid_seed (ws_seed r) then Inl 2
                         else if list_ex (\<lambda>p. \<not> valid_pkg_token p) (ws_apt r @ ws_pip r) then Inl 2
                         else if list_ex (\<lambda>p. resolve p = None) net then Inl 2
                         else if ws_apt r \<noteq> [] \<and> ''debian-apt'' \<notin> set net then Inl 2
                         else if ws_pip r \<noteq> [] \<and> ''pypi-https'' \<notin> set net then Inl 2
                         else Inr \<lparr>ap_bench = ws,
                           ap_rows = [(''Base seed'', ws_seed r), (''apt packages'', none_or (ws_apt r)),
                               (''pip packages'', none_or (ws_pip r))]
                             @ map (Pair ''Activates grant'') (ws_grants r)
                             @ [(''Runs'', if lq_workload q = [] then ''(recipe default)'' else spaced (lq_workload q))]
                             @ (if lq_refresh q then [(''Cache'', ''--refresh (force re-derive)'')] else [])
                             @ (if lq_offline q then [(''Cache'', ''--offline (no egress; cached derivation only)'')] else []),
                           ap_trifecta = trifecta_after (list_ex is_fs (ws_grants r)) (net \<noteq> []) False False,
                           ap_kind = Launch (ws_seed r) (ws_apt r) (ws_pip r) (ws_grants r) (lq_workload q)
                             (lq_refresh q) (lq_offline q)\<rparr>)))"

definition precheck_authority :: "bench_env \<Rightarrow> bench_world \<Rightarrow> string \<Rightarrow> string list \<Rightarrow> checked option" where
  "precheck_authority e w verb rest =
     (if verb = ''grant'' then Some (precheck_grant e w rest)
      else if verb = ''network'' then Some (precheck_network e w rest)
      else if verb = ''export'' then precheck_export w rest
      else if verb = ''promote'' then precheck_promote w rest
      else if verb = ''launch'' then Some (precheck_launch w rest)
      else Some (Inl 2))"

section \<open>Commits\<close>

definition commit_grant ::
  "bench_env \<Rightarrow> string \<Rightarrow> string \<Rightarrow> string \<Rightarrow> bool \<Rightarrow> ident \<Rightarrow> bench_world \<Rightarrow> int \<times> bench_world" where
  "commit_grant e bench canonical leaf rw expected w =
     (case load_bench w bench of
        None \<Rightarrow> (4, w)
      | Some r \<Rightarrow>
          (case path_rel canonical anchor_dir of
             None \<Rightarrow> (2, w)
           | Some rel \<Rightarrow>
               if \<not> utf8_ok (str_join ''/'' rel) then (2, w)
               else if \<not> be_anchor e then (1, w)
               else (case be_pin e rel of
                       None \<Rightarrow> (1, w)
                     | Some (obj, isdir) \<Rightarrow>
                         if \<not> isdir \<or> obj \<noteq> expected then (1, w)
                         else if \<not> be_prepare e (bn_id r) then (1, w)
                         else
                           let target = path_join (grants_dir (bn_id r)) leaf;
                               mounted = (if is_mountpoint w target then Some w else relocate e w rw obj target)
                           in (case mounted of
                                 None \<Rightarrow> (1, w)
                               | Some w1 \<Rightarrow> write_or w1 (push_grant r (Fs rw canonical))))))"

definition commit_network :: "string \<Rightarrow> string list \<Rightarrow> bench_world \<Rightarrow> int \<times> bench_world" where
  "commit_network bench ps w =
     (case load_bench w bench of
        None \<Rightarrow> (4, w)
      | Some r \<Rightarrow>
          if list_ex (\<lambda>p. resolve p = None) ps then (2, w)
          else write_or w (set_network r ps))"

definition commit_export :: "bench_env \<Rightarrow> string \<Rightarrow> export \<Rightarrow> bench_world \<Rightarrow> (int \<times> bench_world) option" where
  "commit_export e bench x w =
     (case load_bench w bench of
        None \<Rightarrow> Some (4, w)
      | Some r \<Rightarrow> do {
          found \<leftarrow> find_export (ex_key x) (bn_exports r);
          Some (if found \<noteq> None then (1, w) else publish_export e r bench x w) })"

definition commit_promote ::
  "bench_env \<Rightarrow> string \<Rightarrow> string \<Rightarrow> string \<Rightarrow> string list \<Rightarrow> string list \<Rightarrow> string list \<Rightarrow> string list
   \<Rightarrow> bench_world \<Rightarrow> int \<times> bench_world" where
  "commit_promote e source workshop seed apt pip grants exports w =
     (if \<not> valid_seed seed then (2, w)
      else (case workshop_write_record (bw_workshops w)
                   \<lparr>ws_name = workshop, ws_seed = seed, ws_created = be_now e, ws_source = source,
                    ws_apt = apt, ws_pip = pip, ws_grants = grants, ws_exports = exports\<rparr> of
              Inl _ \<Rightarrow> (1, w)
            | Inr d \<Rightarrow> (0, w\<lparr>bw_workshops := d\<rparr>)))"

section \<open>Deriving an image\<close>

definition derive_cleanup :: "bench_env \<Rightarrow> string \<Rightarrow> bench_world \<Rightarrow> bench_world" where
  "derive_cleanup e dname w = remove_run_dir dname (podman_rm e dname (net_down dname w))"

text \<open>A sequence of \<open>podman\<close> calls that stops at the first one that fails.\<close>

fun podman_all :: "bench_env \<Rightarrow> string list list \<Rightarrow> bench_world \<Rightarrow> bool \<times> bench_world" where
  "podman_all e [] w = (True, w)"
| "podman_all e (a # as) w = (let (c, w1) = podman e a w in if c = 0 then podman_all e as w1 else (False, w1))"

definition derive_installs :: "string \<Rightarrow> string list \<Rightarrow> string list \<Rightarrow> string list list" where
  "derive_installs ctr apt pip =
     (if apt = [] then [] else
        [derive_exec_argv ctr [''apt-get'', ''update''],
         derive_exec_argv ctr ([''apt-get'', ''install'', ''-y'', ''--no-install-recommends''] @ apt)])
     @ (if pip = [] then [] else
        [derive_exec_argv ctr ([''python3'', ''-m'', ''pip'', ''install'', ''--no-cache-dir'',
           ''--break-system-packages''] @ pip)])"

definition out_lines :: "string \<Rightarrow> string list" where
  "out_lines s = map str_trim (str_lines s)"

definition apt_resolved :: "bench_env \<Rightarrow> string \<Rightarrow> string list \<Rightarrow> string list" where
  "apt_resolved e ctr apt =
     (if apt = [] then []
      else filter (\<lambda>l. l \<noteq> []) (out_lines (be_podman_out e (derive_exec_argv ctr
             ([''dpkg-query'', ''-W'', ''-f'', ''${Package}=${Version}'' @ [CHR 0x5C, CHR ''n'']] @ map apt_base_name apt)))))"

definition pip_resolved :: "bench_env \<Rightarrow> string \<Rightarrow> string list \<Rightarrow> string list" where
  "pip_resolved e ctr pip =
     (if pip = [] then []
      else filter (\<lambda>l. pip_norm_name l \<in> set (map pip_norm_name pip))
             (out_lines (be_podman_out e (derive_exec_argv ctr [''python3'', ''-m'', ''pip'', ''freeze'']))))"

definition derive_pristine ::
  "bench_env \<Rightarrow> string \<Rightarrow> string \<Rightarrow> string list \<Rightarrow> string list \<Rightarrow> string list \<Rightarrow> string \<Rightarrow> bench_world
   \<Rightarrow> (string list \<times> string list) option \<times> bench_world" where
  "derive_pristine e workshop seed apt pip net tag w =
     (let w0 = ensure_seed e seed w;
          dname = ''derive-'' @ workshop;
          ctr = ''shrek-bench-'' @ dname
      in if list_ex (\<lambda>p. resolve p = None) net then (None, w0)
         else if be_resolve e net = None then (None, w0)
         else if \<not> be_prepare e dname \<or> \<not> be_hosts e dname then (None, w0)
         else
           let (c, w1) = podman e (derive_run_argv dname (seed_image_of seed) (hosts_file dname)) (net_down dname w0)
           in if c \<noteq> 0 \<or> \<not> be_pid e dname \<or> \<not> be_distinct e dname \<or> \<not> be_inject e (net_id dname)
              then (None, derive_cleanup e dname w1)
              else
                let w2 = net_up dname net w1
                in if \<not> be_attached e (net_id dname) then (None, derive_cleanup e dname w2)
                   else
                     let (ok, w3) = podman_all e (derive_installs ctr apt pip) w2
                     in if \<not> ok then (None, derive_cleanup e dname w3)
                        else
                          let got = (apt_resolved e ctr apt, pip_resolved e ctr pip);
                              (cc, w4) = podman e [''commit'', ctr, tag] w3
                          in if cc \<noteq> 0 then (None, derive_cleanup e dname w4)
                             else (Some got, derive_cleanup e dname
                                     (w4\<lparr>bw_images := AList.update tag (be_new_image e tag) (bw_images w4)\<rparr>)))"

definition cache_lookup :: "string \<Rightarrow> bench_world \<Rightarrow> cache_record option \<times> bench_world" where
  "cache_lookup key w =
     (case cache_load_record (bw_cache w) key of
        None \<Rightarrow> (None, w)
      | Some r \<Rightarrow>
          if podman_image_id w (cr_image r) = Some (cr_image_id r) then (Some r, w)
          else (None, case cache_remove_record (bw_cache w) key of Inl _ \<Rightarrow> w | Inr d \<Rightarrow> w\<lparr>bw_cache := d\<rparr>))"

definition cache_store ::
  "bench_env \<Rightarrow> string \<Rightarrow> string \<Rightarrow> string \<Rightarrow> string list \<Rightarrow> string list \<Rightarrow> bench_world \<Rightarrow> bench_world" where
  "cache_store e key tag seed_id apt pip w =
     (case podman_image_id w tag of
        None \<Rightarrow> w
      | Some image_id \<Rightarrow>
          (case cache_write_record (bw_cache w)
                  \<lparr>cr_key = key, cr_image = tag, cr_image_id = image_id, cr_seed_id = seed_id,
                   cr_created = be_now e, cr_apt = apt, cr_pip = pip\<rparr> of
             Inl _ \<Rightarrow> w
           | Inr d \<Rightarrow> w\<lparr>bw_cache := d\<rparr>))"

definition podman_rmi :: "bench_env \<Rightarrow> string \<Rightarrow> bench_world \<Rightarrow> bench_world" where
  "podman_rmi e tag w =
     (let (c, w1) = podman e [''rmi'', ''-f'', tag] w in
      if c = 0 then w1\<lparr>bw_images := AList.delete tag (bw_images w1)\<rparr> else w1)"

definition run_launch_workload ::
  "bench_env \<Rightarrow> string \<Rightarrow> string \<Rightarrow> string list \<Rightarrow> string option \<Rightarrow> string list \<Rightarrow> bench_world
   \<Rightarrow> int \<times> bench_world" where
  "run_launch_workload e lname seed grants override workload w =
     (let (rc, w1) = create e lname 4194304 seed w in
      if rc \<noteq> 0 then (rc, w1)
      else (case load_bench w1 lname of
              None \<Rightarrow> (1, w1)
            | Some r \<Rightarrow>
                (case save_record w1 (r\<lparr>bn_grants := grants\<rparr>) of
                   None \<Rightarrow> (1, w1)
                 | Some w2 \<Rightarrow> run_from e lname False workload override w2)))"

text \<open>The cache key of a recipe, and the eviction a forced refresh starts with.\<close>

definition launch_key ::
  "bench_env \<Rightarrow> string option \<Rightarrow> string list \<Rightarrow> string list \<Rightarrow> string list \<Rightarrow> string option" where
  "launch_key e seed_id apt pip net = do {
     i \<leftarrow> seed_id;
     k \<leftarrow> be_sha e (canonical_key_input i apt pip net);
     if valid_cache_key k then Some k else None }"

definition evict :: "bench_env \<Rightarrow> string \<Rightarrow> bench_world \<Rightarrow> bench_world" where
  "evict e k w =
     (let w1 = (case cache_load_record (bw_cache w) k of Some old \<Rightarrow> podman_rmi e (cr_image old) w | None \<Rightarrow> w) in
      case cache_remove_record (bw_cache w1) k of Inl _ \<Rightarrow> w1 | Inr d \<Rightarrow> w1\<lparr>bw_cache := d\<rparr>)"

text \<open>
  Phase A of a launch: \<open>Inl\<close> the return code, or the image to run from (none: the seed itself) and the
  tag to delete afterwards.
\<close>

definition launch_image ::
  "bench_env \<Rightarrow> string \<Rightarrow> string \<Rightarrow> string list \<Rightarrow> string list \<Rightarrow> string list \<Rightarrow> bool \<Rightarrow> bool \<Rightarrow> bench_world
   \<Rightarrow> (int, string option \<times> string option) result \<times> bench_world" where
  "launch_image e workshop seed apt pip net refresh offline w =
     (if apt = [] \<and> pip = [] then (Inr (None, None), w)
      else
        let w0 = ensure_seed e seed w;
            seed_id = podman_image_id w0 (seed_image_of seed);
            key = launch_key e seed_id apt pip net;
            w1 = (case key of Some k \<Rightarrow> if refresh then evict e k w0 else w0 | None \<Rightarrow> w0);
            (hit, w2) = (case key of
                           Some k \<Rightarrow> if refresh then (None, w1) else cache_lookup k w1
                         | None \<Rightarrow> (None, w1))
        in case hit of
             Some r \<Rightarrow> (Inr (Some (cr_image r), None), w2)
           | None \<Rightarrow>
               if offline then (Inl 1, w2)
               else
                 let tag = (case key of Some k \<Rightarrow> image_tag k | None \<Rightarrow> ''localhost/shrek-derive-'' @ workshop);
                     (got, w3) = derive_pristine e workshop seed apt pip net tag w2
                 in (case got of
                       None \<Rightarrow> (Inl 1, w3)
                     | Some (ar, pr) \<Rightarrow>
                         (case key of
                            Some k \<Rightarrow>
                              (Inr (Some tag, None),
                               cache_store e k tag (case seed_id of Some i \<Rightarrow> i | None \<Rightarrow> []) ar pr w3)
                          | None \<Rightarrow> (Inr (Some tag, Some tag), w3))))"

definition launch_name :: "string \<Rightarrow> string" where
  "launch_name workshop = ''wl-'' @ workshop"

definition commit_launch ::
  "bench_env \<Rightarrow> string \<Rightarrow> string \<Rightarrow> string list \<Rightarrow> string list \<Rightarrow> string list \<Rightarrow> string list \<Rightarrow> bool \<Rightarrow> bool
   \<Rightarrow> bench_world \<Rightarrow> (int \<times> bench_world) option" where
  "commit_launch e workshop seed apt pip grants workload refresh offline w =
     (if \<not> valid_seed seed then Some (2, w)
      else if workload = [] then Some (2, w)
      else if \<not> valid_bench_name (launch_name workshop) then Some (2, w)
      else
        let (phase, w1) = launch_image e workshop seed apt pip (egress_profiles_from grants) refresh offline w
        in case phase of
             Inl rc \<Rightarrow> Some (rc, w1)
           | Inr (derived, transient) \<Rightarrow> do {
               let run_grants = (if offline then filter (\<lambda>g. \<not> is_net g) grants else grants);
               (_, w2) \<leftarrow> destroy e (launch_name workshop) w1;
               let (rc, w3) = run_launch_workload e (launch_name workshop) seed run_grants derived workload w2;
               (_, w4) \<leftarrow> destroy e (launch_name workshop) w3;
               Some (rc, case transient of Some tag \<Rightarrow> podman_rmi e tag w4 | None \<Rightarrow> w4) })"

section \<open>The desktop egress ceremony\<close>

definition op_request :: "op \<Rightarrow> string \<times> string" where
  "op_request op =
     (case op of
        BlessProfile p \<Rightarrow> (''confirmed-bless'', p)
      | UnblessProfile p \<Rightarrow> (''confirmed-unbless'', p)
      | AddRaw t \<Rightarrow> (''confirmed-add-raw'', t)
      | RemoveRaw t \<Rightarrow> (''confirmed-remove-raw'', t)
      | ManifestInstall name _ \<Rightarrow> (''confirmed-manifest-install'', name)
      | ManifestRemove name \<Rightarrow> (''confirmed-manifest-remove'', name))"

definition relay :: "bench_env \<Rightarrow> string \<times> string \<Rightarrow> bench_world \<Rightarrow> int \<times> bench_world" where
  "relay e rq w = (be_relay e (fst rq) (snd rq), w\<lparr>bw_relayed := bw_relayed w @ [rq]\<rparr>)"

definition desktop_commit :: "bench_env \<Rightarrow> op \<Rightarrow> bench_world \<Rightarrow> int \<times> bench_world" where
  "desktop_commit e op w =
     (case op of
        ManifestInstall name text \<Rightarrow>
          if \<not> be_stage e then (1, w)
          else relay e (op_request op) (w\<lparr>bw_staged := AList.update name text (bw_staged w)\<rparr>)
      | _ \<Rightarrow> relay e (op_request op) w)"

definition toggle_warning :: string where
  "toggle_warning =
     ''After install, this can be switched on with ONE click '' @ em_dash
     @ '' including by a program in your session, not only by you. A toggle is not proof a human is here.''"

definition storage_warning :: "string \<Rightarrow> string" where
  "storage_warning host =
     quote @ host @ quote @ '' is a general-purpose upload/download host '' @ em_dash
     @ '' anything with this capability could use it to move data off this box.''"

definition manifest_install_precheck :: "string \<Rightarrow> string option \<Rightarrow> checked" where
  "manifest_install_precheck name text_opt =
     (if \<not> valid_capability_token name then Inl 2
      else (case text_opt of
              None \<Rightarrow> Inl 2
            | Some text \<Rightarrow>
                (case parse_manifest text of
                   Inl _ \<Rightarrow> Inl 2
                 | Inr m \<Rightarrow>
                     if m_name m \<noteq> name then Inl 2
                     else if m_deliver m = DeliverHosts then Inl 2
                     else if list_ex (\<lambda>r. is_system_reserved_host (hr_host r)) (m_rules m) then Inl 2
                     else Inr (desktop_egress_plan (ManifestInstall (m_name m) text) (m_name m)
                       ([(''Capability'', m_name m), (''Title'', m_title m), (''Purpose'', m_purpose m),
                         (''Feature'', m_feature m), (''Tier'', cap_tier_str (m_tier m))]
                        @ map (\<lambda>r. (''Reaches'', hr_host r @ '' '' @ proto_label (hr_proto r) @ ''/'' @ show_uint (hr_port r)))
                            (m_rules m))
                       False
                       (toggle_warning # map storage_warning (filter is_storage_host (map hr_host (m_rules m))))))))"

definition desktop_precheck :: "string \<Rightarrow> string list \<Rightarrow> checked" where
  "desktop_precheck verb rest =
     (let arg = (case rest of [] \<Rightarrow> [] | a # _ \<Rightarrow> a) in
      if arg = [] then Inl 2
      else if verb = ''bless'' \<or> verb = ''unbless'' then
        (if bless_tier_of arg \<noteq> Some TierCeremony then Inl 2
         else Inr (desktop_egress_plan (if verb = ''bless'' then BlessProfile arg else UnblessProfile arg) arg
                [(''Profile'', arg),
                 (''Effect'', ''opens BROAD internet access for the browser '' @ em_dash @ '' it can reach ANY host'')]
                True []))
      else if verb = ''add-raw'' \<or> verb = ''remove-raw'' then
        (case parse_raw_triple arg of
           Inl _ \<Rightarrow> Inl 2
         | Inr t \<Rightarrow>
             Inr (desktop_egress_plan (if verb = ''add-raw'' then AddRaw (to_wire t) else RemoveRaw (to_wire t)) (to_wire t)
               [(''Host'', rt_host t), (''Protocol'', proto_label (rt_proto t)), (''Port'', show_uint (rt_port t))]
               True []))
      else if verb = ''manifest-install'' then
        manifest_install_precheck arg (case rest of _ # t # _ \<Rightarrow> Some t | _ \<Rightarrow> None)
      else if verb = ''manifest-remove'' then
        (if \<not> valid_capability_token arg then Inl 2
         else Inr (desktop_egress_plan (ManifestRemove arg) arg [(''Capability'', arg)] False []))
      else Inl 2)"

section \<open>The commit of an approved plan\<close>

definition commit_authority :: "bench_env \<Rightarrow> authority_plan \<Rightarrow> bench_world \<Rightarrow> (int \<times> bench_world) option" where
  "commit_authority e plan w =
     (case ap_kind plan of
        GrantDir canonical leaf rw obj \<Rightarrow> Some (commit_grant e (ap_bench plan) canonical leaf rw obj w)
      | Network ps \<Rightarrow> Some (commit_network (ap_bench plan) ps w)
      | ExportApp key file icon label cmd \<Rightarrow>
          commit_export e (ap_bench plan)
            \<lparr>ex_key = key, ex_file = file, ex_icon = icon, ex_label = label, ex_cmd = cmd\<rparr> w
      | Promote workshop seed apt pip grants exports \<Rightarrow>
          Some (commit_promote e (ap_bench plan) workshop seed apt pip grants exports w)
      | Launch seed apt pip grants workload refresh offline \<Rightarrow>
          commit_launch e (ap_bench plan) seed apt pip grants workload refresh offline w
      | DesktopEgress op _ \<Rightarrow> Some (desktop_commit e op w))"

end
