(* ===== verification/Bench_Socket.thy ===== *)
theory Bench_Socket
  imports Bench_Authority
begin

text \<open>
  The two front ends of the bench plane, \<open>cli\<close> (root, in process) and \<open>dispatch_socket\<close> (a peer of
  the gatekeeper socket), the desktop egress socket entry, and the framed requests of
  \<open>gatekeeperd/src/main.rs\<close>.

  The surroundings are given twice: what the system answers while the request is checked and what it
  answers when an approved plan is committed, since a human sits between the two.
\<close>

section \<open>Argument lists of the neutral verbs\<close>

datatype create_error = SeedNeedsValue | BadArg string

fun create_args :: "string option \<Rightarrow> u64 \<Rightarrow> string \<Rightarrow> string list
    \<Rightarrow> (create_error, string option \<times> u64 \<times> string) result" where
  "create_args name q seed [] = Inr (name, q, seed)"
| "create_args name q seed (a # as) =
     (if a = ''--quota'' then
        (case as of
           [] \<Rightarrow> Inr (name, q, seed)
         | v # r \<Rightarrow> create_args name (case parse_uint v of Some n \<Rightarrow> n | None \<Rightarrow> q) seed r)
      else if a = ''--seed'' then
        (case as of [] \<Rightarrow> Inl SeedNeedsValue | v # r \<Rightarrow> create_args name q v r)
      else if \<not> is_flag a \<and> name = None then create_args (Some a) q seed as
      else Inl (BadArg a))"

definition DEFAULT_QUOTA_KIB :: u64 where
  "DEFAULT_QUOTA_KIB = 4194304"

fun run_args :: "string option \<Rightarrow> string list \<Rightarrow> (string, string option \<times> string list) result" where
  "run_args name [] = Inr (name, [])"
| "run_args name (a # as) =
     (if a = ''--'' then Inr (name, as)
      else if name = None \<and> \<not> is_flag a then run_args (Some a) as
      else Inl a)"

section \<open>The in-process front end\<close>

definition cli :: "bench_env \<Rightarrow> string list \<Rightarrow> bench_world \<Rightarrow> (int \<times> bench_world) option" where
  "cli e args w =
     (case args of
        [] \<Rightarrow> Some (2, w)
      | verb # rest \<Rightarrow>
          if verb = ''create'' then
            (case create_args None DEFAULT_QUOTA_KIB ''scratch'' rest of
               Inr (Some n, q, seed) \<Rightarrow> Some (create e n q seed w)
             | _ \<Rightarrow> Some (2, w))
          else if verb = ''run'' \<or> verb = ''enter'' then
            (case run_args None rest of
               Inr (Some n, wl) \<Rightarrow> Some (run e n (verb = ''enter'') wl w)
             | _ \<Rightarrow> Some (2, w))
          else if verb = ''reset'' then
            (case rest of [] \<Rightarrow> Some (2, w) | n # _ \<Rightarrow> Some (reset e n w))
          else if verb = ''destroy'' then
            (case rest of [] \<Rightarrow> Some (2, w) | n # _ \<Rightarrow> destroy e n w)
          else if verb = ''quota'' then
            (case rest of
               [] \<Rightarrow> Some (2, w)
             | [n] \<Rightarrow> Some (quota e n None w)
             | n # k # _ \<Rightarrow> Some (quota e n (parse_uint k) w))
          else if verb = ''list'' then Some (0, w)
          else if verb = ''reissue'' then Some (reissue e w)
          else if verb = ''grant'' then
            (case grant_args None None False rest of
               Inr (Some n, Some p, rw) \<Rightarrow> Some (grant e n p rw w)
             | _ \<Rightarrow> Some (2, w))
          else if verb = ''network'' then
            (case rest of [] \<Rightarrow> Some (2, w) | n # ps \<Rightarrow> Some (network n ps w))
          else if verb = ''export'' then
            (case export_args no_export rest of
               Inl _ \<Rightarrow> Some (2, w)
             | Inr q \<Rightarrow>
                 (case (er_name q, er_key q) of
                    (Some n, Some k) \<Rightarrow> export_app e n k (er_label q) (er_icon q) (er_workload q) w
                  | _ \<Rightarrow> Some (2, w)))
          else if verb = ''run-export'' then
            (case rest of n # k # _ \<Rightarrow> run_export e n k w | _ \<Rightarrow> Some (2, w))
          else if verb = ''unexport'' then
            (case rest of n # k # _ \<Rightarrow> unexport e n k w | _ \<Rightarrow> Some (2, w))
          else if verb = ''promote'' \<or> verb = ''workshop-launch'' then do {
            c \<leftarrow> precheck_authority e w (if verb = ''promote'' then ''promote'' else ''launch'') rest;
            (case c of Inl rc \<Rightarrow> Some (rc, w) | Inr plan \<Rightarrow> commit_authority e plan w) }
          else if verb = ''workshop-list'' then Some (0, w)
          else if verb = ''workshop-show'' then
            (case rest of
               [] \<Rightarrow> Some (2, w)
             | n # _ \<Rightarrow> Some (if workshop_load_record (bw_workshops w) n = None then 4 else 0, w))
          else Some (2, w))"

section \<open>The socket front end\<close>

type_synonym gk_state = "cooldown \<times> bench_world"
type_synonym response = "(reply \<times> gk_state \<times> event list) option"

definition summ :: "string \<Rightarrow> string \<Rightarrow> int \<Rightarrow> string list" where
  "summ v name rc =
     [''RESULT bench-'' @ v @ '' '' @ name @ '' '' @ (if rc = 0 then ''ok'' else ''fail'')]"

text \<open>A verb that needs no ceremony, and an answer that changes nothing.\<close>

definition plainly :: "string \<Rightarrow> string \<Rightarrow> cooldown \<Rightarrow> (int \<times> bench_world) option \<Rightarrow> response" where
  "plainly v name m r = map_option (\<lambda>(rc, w'). ((rc, summ v name rc), (m, w'), [])) r"

definition answer :: "gk_state \<Rightarrow> int \<Rightarrow> string list \<Rightarrow> response" where
  "answer st rc ls = Some ((rc, ls), st, [])"

definition bench_consent ::
  "bench_env \<Rightarrow> bench_env \<Rightarrow> surroundings \<Rightarrow> cred \<Rightarrow> string \<Rightarrow> string list \<Rightarrow> gk_state \<Rightarrow> response" where
  "bench_consent e e' su cred verb rest st =
     run_socket_consent_with su cred verb ''bench'' (precheck_authority e (snd st) verb rest)
       (commit_authority e') st"

definition dispatch_create :: "bench_env \<Rightarrow> string list \<Rightarrow> gk_state \<Rightarrow> response" where
  "dispatch_create e rest st =
     (case create_args None DEFAULT_QUOTA_KIB ''scratch'' rest of
        Inr (Some n, q, seed) \<Rightarrow> plainly ''create'' n (fst st) (Some (create e n q seed (snd st)))
      | Inr (None, _) \<Rightarrow> answer st 2 [''RESULT bench-create - usage'']
      | Inl SeedNeedsValue \<Rightarrow> answer st 2 [''RESULT bench-create - refused seed-needs-value'']
      | Inl (BadArg a) \<Rightarrow> answer st 2 [''RESULT bench-create - refused bad-arg-'' @ a])"

definition dispatch_run :: "bench_env \<Rightarrow> string list \<Rightarrow> gk_state \<Rightarrow> response" where
  "dispatch_run e rest st =
     (case run_args None rest of
        Inr (Some n, wl) \<Rightarrow> plainly ''run'' n (fst st) (Some (run e n False wl (snd st)))
      | Inr (None, _) \<Rightarrow> answer st 2 [''RESULT bench-run - usage'']
      | Inl a \<Rightarrow> answer st 2 [''RESULT bench-run - refused bad-arg-'' @ a])"

definition dispatch_quota :: "bench_env \<Rightarrow> string list \<Rightarrow> gk_state \<Rightarrow> response" where
  "dispatch_quota e rest st =
     (case rest of
        [] \<Rightarrow> answer st 2 [''RESULT bench-quota - usage'']
      | n # ks \<Rightarrow>
          let (rc, w') = quota e n (case ks of [] \<Rightarrow> None | k # _ \<Rightarrow> parse_uint k) (snd st);
              val = (case load_bench w' n of Some r \<Rightarrow> show_uint (bn_quota_kib r) | None \<Rightarrow> ''-'')
          in Some ((rc, [''RESULT bench-quota '' @ n @ '' quota_kib='' @ val]), (fst st, w'), []))"

definition bench_line :: "bench_record \<Rightarrow> string" where
  "bench_line r =
     ''RESULT bench '' @ bn_name r @ '' state='' @ bn_state r @ '' project='' @ show_uint (bn_project r)
     @ '' quota_kib='' @ show_uint (bn_quota_kib r)"

definition or_none :: "string \<Rightarrow> string list \<Rightarrow> string list" where
  "or_none l ls = (if ls = [] then [l] else ls)"

definition workshop_line :: "workshop_record \<Rightarrow> string" where
  "workshop_line r =
     ''RESULT workshop '' @ ws_name r @ '' seed='' @ ws_seed r @ '' apt='' @ show_nat (length (ws_apt r))
     @ '' pip='' @ show_nat (length (ws_pip r)) @ '' source='' @ ws_source r"

definition workshop_lines :: "workshop_record \<Rightarrow> string list" where
  "workshop_lines r =
     [''RESULT workshop '' @ ws_name r @ '' seed='' @ ws_seed r @ '' source='' @ ws_source r
        @ '' created='' @ show_uint (ws_created r),
      ''RESULT workshop-apt '' @ spaced (ws_apt r), ''RESULT workshop-pip '' @ spaced (ws_pip r)]
     @ map (\<lambda>g. ''RESULT workshop-grant '' @ g) (ws_grants r)
     @ map (\<lambda>x. ''RESULT workshop-export '' @ x) (ws_exports r)"

definition dispatch_socket ::
  "bench_env \<Rightarrow> bench_env \<Rightarrow> surroundings \<Rightarrow> cred \<Rightarrow> string list \<Rightarrow> gk_state \<Rightarrow> response" where
  "dispatch_socket e e' su cred argv st =
     (let verb = (case argv of [] \<Rightarrow> [] | v # _ \<Rightarrow> v);
          rest = tl argv; m = fst st; w = snd st in
      if verb = ''create'' then dispatch_create e rest st
      else if verb = ''run'' then dispatch_run e rest st
      else if verb = ''enter'' then answer st 2 [''RESULT bench-enter - refused interactive-not-over-socket'']
      else if verb = ''run-export'' then
        (case rest of
           n # k # _ \<Rightarrow> plainly ''run-export'' n m (run_export e n k w)
         | _ \<Rightarrow> answer st 2 [''RESULT bench-run-export - usage''])
      else if verb = ''unexport'' then
        (case rest of
           n # k # _ \<Rightarrow> plainly ''unexport'' n m (unexport e n k w)
         | _ \<Rightarrow> answer st 2 [''RESULT bench-unexport - usage''])
      else if verb = ''reset'' then
        (case rest of
           n # _ \<Rightarrow> plainly ''reset'' n m (Some (reset e n w))
         | [] \<Rightarrow> answer st 2 [''RESULT bench-reset - usage''])
      else if verb = ''destroy'' then
        (case rest of
           n # _ \<Rightarrow> plainly ''destroy'' n m (destroy e n w)
         | [] \<Rightarrow> answer st 2 [''RESULT bench-destroy - usage''])
      else if verb = ''quota'' then dispatch_quota e rest st
      else if verb = ''list'' then
        answer st 0 (or_none ''RESULT bench - none'' (map bench_line (records w)))
      else if verb = ''reissue'' then plainly ''reissue'' ''-'' m (Some (reissue e w))
      else if verb = ''grant'' \<or> verb = ''export'' then bench_consent e e' su cred verb rest st
      else if verb = ''network'' then
        (case rest of
           [n, p] \<Rightarrow>
             if p = ''none'' then plainly ''network'' n m (Some (network n [p] w))
             else bench_consent e e' su cred ''network'' rest st
         | _ \<Rightarrow> bench_consent e e' su cred ''network'' rest st)
      else if verb = ''promote'' then bench_consent e e' su cred ''promote'' rest st
      else if verb = ''workshop-launch'' then bench_consent e e' su cred ''launch'' rest st
      else if verb = ''workshop-list'' then
        answer st 0 (or_none ''RESULT workshop - none''
          (map workshop_line (workshop_list_records (bw_workshops w))))
      else if verb = ''workshop-show'' then
        (case rest of
           [] \<Rightarrow> answer st 2 [''RESULT workshop-show - usage'']
         | n # _ \<Rightarrow>
             (case workshop_load_record (bw_workshops w) n of
                Some r \<Rightarrow> answer st 0 (workshop_lines r)
              | None \<Rightarrow> answer st 4 [''RESULT workshop-show '' @ n @ '' fail'']))
      else if verb = [] then answer st 2 [''RESULT bench - usage'']
      else answer st 2 [''RESULT bench-'' @ verb @ '' - refused unknown-verb''])"

definition desktop_dispatch_socket ::
  "bench_env \<Rightarrow> surroundings \<Rightarrow> cred \<Rightarrow> string list \<Rightarrow> gk_state \<Rightarrow> response" where
  "desktop_dispatch_socket e' su cred argv st =
     (let verb = (case argv of [] \<Rightarrow> [] | v # _ \<Rightarrow> v) in
      if verb \<in> {''bless'', ''unbless'', ''add-raw'', ''remove-raw'', ''manifest-install'', ''manifest-remove''}
      then run_socket_consent_with su cred verb ''desktop-egress'' (Some (desktop_precheck verb (tl argv)))
             (commit_authority e') st
      else answer st 2 [''RESULT desktop-egress-'' @ verb @ '' - refused unknown-verb''])"

section \<open>Framed requests\<close>

text \<open>
  The arguments of a frame, one encoded argument per line: aborted (\<open>None\<close>), short (\<open>Some None\<close>), or
  the decoded arguments.
\<close>

fun frame_args :: "nat \<Rightarrow> string list \<Rightarrow> string list option option" where
  "frame_args 0 ls = Some (Some [])"
| "frame_args (Suc n) [] = Some None"
| "frame_args (Suc n) (l # ls) =
     (if \<not> utf8_ok l then Some None
      else do {
        a \<leftarrow> pct_decode l;
        xs \<leftarrow> frame_args n ls;
        Some (map_option ((#) a) xs) })"

definition frame_count :: "string list \<Rightarrow> nat option" where
  "frame_count tok =
     (case tok of
        [] \<Rightarrow> None
      | n # _ \<Rightarrow> map_option (unat :: u64 \<Rightarrow> nat) (parse_uint n))"

definition handle_frame ::
  "bench_env \<Rightarrow> bench_env \<Rightarrow> surroundings \<Rightarrow> cred \<Rightarrow> string list \<Rightarrow> string list \<Rightarrow> gk_state
   \<Rightarrow> (string list \<times> gk_state \<times> event list) option" where
  "handle_frame e e' su cred tok ls st =
     (let verb = (case tok of [] \<Rightarrow> [] | v # _ \<Rightarrow> v);
          sub = (case tok of _ # s # _ \<Rightarrow> s | _ \<Rightarrow> []);
          limit = (if verb = ''BENCH'' then 64 else 8);
          name = (if verb = ''BENCH'' then ''bench'' else ''desktop-egress'');
          ret = (\<lambda>ls' st' evs. Some (ls', st', evs))
      in case frame_count (drop 2 tok) of
           None \<Rightarrow> ret [''END 1 malformed-'' @ name @ ''-frame''] st []
         | Some argc \<Rightarrow>
             if sub = [] \<or> limit < argc then ret [''END 1 malformed-'' @ name @ ''-frame''] st []
             else do {
               args \<leftarrow> frame_args argc ls;
               (case args of
                  None \<Rightarrow> ret [''END 1 short-'' @ name @ ''-frame''] st []
                | Some as \<Rightarrow> do {
                    ((rc, lines), st', evs) \<leftarrow>
                      (if verb = ''BENCH'' then dispatch_socket e e' su cred (sub # as) st
                       else desktop_dispatch_socket e' su cred (sub # as) st);
                    ret (lines @ [''END '' @ (if rc < 0 then ''-'' else []) @ show_nat (nat \<bar>rc\<bar>) @ '' -'']) st' evs }) })"

end
