(* ===== verification/Bench_Safety.thy ===== *)
theory Bench_Safety
  imports Bench_Socket
begin

text \<open>
  What the verbs of the bench plane keep: the records stay readable, filed under their own names and
  with distinct project ids; and authority (the grants and exports on record, the recipes, what is
  staged and relayed to the egress daemon) only grows through an approved ceremony or root's own call.

  \<open>core\<close> is the part of the world authority depends on; \<open>same_auth\<close> relates worlds that differ in
  nothing of it but the volatile fields of a record; \<open>quiet\<close> relates a world to one with no more
  authority.  Both are reflexive and transitive, so a verb is a chain of small steps.
\<close>

section \<open>Authority\<close>

definition grants_of :: "bench_world \<Rightarrow> string \<Rightarrow> string set" where
  "grants_of w k = (case load_bench w k of Some r \<Rightarrow> set (bn_grants r) | None \<Rightarrow> {})"

definition exports_of :: "bench_world \<Rightarrow> string \<Rightarrow> string set" where
  "exports_of w k = (case load_bench w k of Some r \<Rightarrow> set (bn_exports r) | None \<Rightarrow> {})"

definition standing :: "bench_world \<Rightarrow> dir \<times> (string \<times> string) list \<times> (string \<times> string) list" where
  "standing w = (bw_workshops w, bw_staged w, bw_relayed w)"

definition core :: "bench_world \<Rightarrow> dir \<times> dir \<times> (string \<times> string) list \<times> (string \<times> string) list" where
  "core w = (bw_records w, standing w)"

definition auth_part :: "bench_record \<Rightarrow> string \<times> u32 \<times> string list \<times> string list" where
  "auth_part r = (bn_name r, bn_project r, bn_grants r, bn_exports r)"

definition wf_records :: "bench_world \<Rightarrow> bool" where
  "wf_records w \<longleftrightarrow>
     (\<forall>k r. load_bench w k = Some r \<longrightarrow> bn_name r = k \<and> storable_bench r)
     \<and> (\<forall>k l r s. load_bench w k = Some r \<longrightarrow> load_bench w l = Some s \<longrightarrow> bn_project r = bn_project s \<longrightarrow> k = l)"

definition same_auth :: "bench_world \<Rightarrow> bench_world \<Rightarrow> bool" where
  "same_auth w w' \<longleftrightarrow>
     standing w' = standing w
     \<and> (wf_records w \<longrightarrow> wf_records w'
          \<and> (\<forall>k. map_option auth_part (load_bench w' k) = map_option auth_part (load_bench w k)))"

definition quiet :: "bench_world \<Rightarrow> bench_world \<Rightarrow> bool" where
  "quiet w w' \<longleftrightarrow>
     standing w' = standing w
     \<and> (wf_records w \<longrightarrow> wf_records w'
          \<and> (\<forall>k. grants_of w' k \<subseteq> grants_of w k \<and> exports_of w' k \<subseteq> exports_of w k))"

lemma same_auth_refl [simp]: "same_auth w w"
  by (simp add: same_auth_def)

lemma same_auth_trans [trans]: "same_auth u v \<Longrightarrow> same_auth v w \<Longrightarrow> same_auth u w"
  by (simp add: same_auth_def)

lemma quiet_refl [simp]: "quiet w w"
  by (simp add: quiet_def)

lemma quiet_trans [trans]: "quiet u v \<Longrightarrow> quiet v w \<Longrightarrow> quiet u w"
  unfolding quiet_def by (metis order_trans)

lemma same_auth_quiet: "same_auth w w' \<Longrightarrow> quiet w w'"
proof -
  assume s: "same_auth w w'"
  have "grants_of w' k \<subseteq> grants_of w k \<and> exports_of w' k \<subseteq> exports_of w k"
    if "map_option auth_part (load_bench w' k) = map_option auth_part (load_bench w k)" for k
    using that by (auto simp: grants_of_def exports_of_def auth_part_def split: option.splits)
  then show ?thesis
    using s by (simp add: same_auth_def quiet_def)
qed

lemma load_bench_core: "core w' = core w \<Longrightarrow> load_bench w' = load_bench w"
  by (intro ext) (simp add: core_def load_bench_def)

lemma core_same: "core w' = core w \<Longrightarrow> same_auth w w'"
  using load_bench_core [of w' w] by (simp add: same_auth_def wf_records_def core_def)

section \<open>Steps that do not touch the records\<close>

named_theorems core_simps \<open>operations that leave the records, recipes and relays alone\<close>

lemma core_update [core_simps]:
  "core (w\<lparr>bw_mounts := a\<rparr>) = core w" "core (w\<lparr>bw_quota := b\<rparr>) = core w"
  "core (w\<lparr>bw_data := c\<rparr>) = core w" "core (w\<lparr>bw_net := d\<rparr>) = core w"
  "core (w\<lparr>bw_images := f\<rparr>) = core w" "core (w\<lparr>bw_log := g\<rparr>) = core w"
  "core (w\<lparr>bw_wiped := h\<rparr>) = core w" "core (w\<lparr>bw_apps := i\<rparr>) = core w"
  "core (w\<lparr>bw_cache := j\<rparr>) = core w"
  by (simp_all add: core_def standing_def)

lemma core_ops [core_simps]:
  "core (snd (apply_quota e w p k)) = core w" "core (snd (podman e argv w)) = core w"
  "core (podman_rm e n w) = core w" "core (net_down i w) = core w" "core (net_up i ps w) = core w"
  "core (remove_desktop_as_dev e f w) = core w" "core (unmount_grants e r w) = core w"
  "core (remove_run_dir i w) = core w"
  by (simp_all add: apply_quota_def podman_def podman_rm_def net_down_def net_up_def
      remove_desktop_as_dev_def unmount_grants_def remove_run_dir_def core_simps split: sum.splits)

lemma core_ensure_seed [core_simps]: "core (ensure_seed e s w) = core w"
  by (simp add: ensure_seed_def Let_def podman_def core_simps)

lemma core_write_desktop: "write_desktop_as_dev e f c w = Some w' \<Longrightarrow> core w' = core w"
  by (auto simp: write_desktop_as_dev_def core_simps split: if_splits sum.splits)

lemma core_relocate: "relocate e w rw obj t = Some w' \<Longrightarrow> core w' = core w"
  by (auto simp: relocate_def core_simps split: if_splits)

lemma core_materialize_one: "materialize_one e w rw src t = Some w' \<Longrightarrow> core w' = core w"
  by (auto simp: materialize_one_def dest: core_relocate split: option.splits if_splits prod.splits)

lemma core_materialize_loop: "core (snd (materialize_loop e i gs w)) = core w"
  by (induction e i gs w rule: materialize_loop.induct)
    (auto dest: core_materialize_one split: option.splits)

lemma core_ensure_grants [core_simps]: "core (snd (ensure_grants_materialized e r w)) = core w"
  by (simp add: ensure_grants_materialized_def core_materialize_loop)

lemma core_sweep: "sweep_exports e ls w = Some w' \<Longrightarrow> core w' = core w"
  by (induction e ls w rule: sweep_exports.induct)
    (auto simp: Option.bind_eq_Some_conv core_simps split: option.splits)

section \<open>Saving a record\<close>

lemma save_record_load:
  assumes "save_record w r = Some w'" "storable_bench r"
  shows "load_bench w' = (load_bench w)(bn_name r := Some r)" "standing w' = standing w"
proof -
  obtain d where d: "bench_write_record (bw_records w) r = Inr d" and w': "w' = w\<lparr>bw_records := d\<rparr>"
    using assms(1) by (auto simp: save_record_def split: sum.splits)
  show "load_bench w' = (load_bench w)(bn_name r := Some r)"
    using bench_load_write [OF assms(2) d] by (intro ext) (simp add: load_bench_def w')
  show "standing w' = standing w"
    by (simp add: w' standing_def)
qed

lemma wf_recordsD:
  assumes "wf_records w" "load_bench w k = Some r"
  shows "bn_name r = k" "storable_bench r"
  using assms by (auto simp: wf_records_def)

text \<open>Overwriting a record by one with the same project and no more authority.\<close>

lemma wf_overwrite:
  assumes wf: "wf_records w" and k: "load_bench w k = Some r0"
    and r: "bn_name r = k" "storable_bench r" "bn_project r = bn_project r0"
    and l: "load_bench w' = (load_bench w)(k := Some r)"
  shows "wf_records w'"
proof -
  have before: "\<exists>s. load_bench w i = Some s \<and> bn_project s = bn_project q" if "load_bench w' i = Some q" for i q
    using that k r(3) by (cases "i = k") (auto simp: l)
  have distinct: "i = j" if "load_bench w i = Some q" "load_bench w j = Some s" "bn_project q = bn_project s" for i j q s
    using wf that unfolding wf_records_def by blast
  have "i = j" if q: "load_bench w' i = Some q" "load_bench w' j = Some s" "bn_project q = bn_project s" for i j q s
    using before [OF q(1)] before [OF q(2)] q(3) distinct by (elim exE conjE) simp
  moreover have "bn_name q = i \<and> storable_bench q" if "load_bench w' i = Some q" for i q
    using that wf_recordsD [OF wf] r by (auto simp: l split: if_splits)
  ultimately show ?thesis
    unfolding wf_records_def by blast
qed

lemma save_quiet:
  assumes "save_record w r = Some w'" "load_bench w k = Some r0"
    and "bn_name r = bn_name r0" "bn_project r = bn_project r0"
    and "set (bn_grants r) \<subseteq> set (bn_grants r0)" "set (bn_exports r) \<subseteq> set (bn_exports r0)"
    and "storable_bench r0 \<Longrightarrow> storable_bench r"
  shows "quiet w w'"
proof -
  have "wf_records w' \<and> (\<forall>i. grants_of w' i \<subseteq> grants_of w i \<and> exports_of w' i \<subseteq> exports_of w i)"
    if wf: "wf_records w"
  proof -
    have r: "bn_name r = k" "storable_bench r"
      using wf_recordsD [OF wf assms(2)] assms(3,7) by simp_all
    note l = save_record_load [OF assms(1) r(2)]
    have "wf_records w'"
      by (rule wf_overwrite [OF wf assms(2) r assms(4)]) (simp add: l(1) r(1))
    then show ?thesis
      using assms(2,5,6) by (auto simp: grants_of_def exports_of_def l(1) r(1))
  qed
  moreover have "standing w' = standing w"
    using assms(1) by (auto simp: save_record_def standing_def split: sum.splits)
  ultimately show ?thesis by (simp add: quiet_def)
qed

lemma save_same:
  assumes "save_record w r = Some w'" "load_bench w k = Some r0" "auth_part r = auth_part r0"
    and "storable_bench r0 \<Longrightarrow> storable_bench r"
  shows "same_auth w w'"
proof -
  have p: "bn_name r = bn_name r0" "bn_project r = bn_project r0"
    using assms(3) by (simp_all add: auth_part_def)
  have "wf_records w' \<and> (\<forall>i. map_option auth_part (load_bench w' i) = map_option auth_part (load_bench w i))"
    if wf: "wf_records w"
  proof -
    have r: "bn_name r = k" "storable_bench r"
      using wf_recordsD [OF wf assms(2)] p(1) assms(4) by simp_all
    note l = save_record_load [OF assms(1) r(2)]
    have "wf_records w'"
      by (rule wf_overwrite [OF wf assms(2) r p(2)]) (simp add: l(1) r(1))
    then show ?thesis
      using assms(2,3) by (auto simp: l(1) r(1))
  qed
  moreover have "standing w' = standing w"
    using assms(1) by (auto simp: save_record_def standing_def split: sum.splits)
  ultimately show ?thesis by (simp add: same_auth_def)
qed

lemma same_auth_core: "same_auth w0 w \<Longrightarrow> core w' = core w \<Longrightarrow> same_auth w0 w'"
  using same_auth_trans core_same by blast

lemma quiet_core: "quiet w0 w \<Longrightarrow> core w' = core w \<Longrightarrow> quiet w0 w'"
  using quiet_trans core_same same_auth_quiet by blast

lemma quiet_same: "quiet w0 w \<Longrightarrow> same_auth w w' \<Longrightarrow> quiet w0 w'"
  using quiet_trans same_auth_quiet by blast

lemma core_podman: "podman e a w = (c, w') \<Longrightarrow> core w' = core w"
  using core_ops(2) [of e a w] by simp

lemma core_quota: "apply_quota e w p k = (ok, w') \<Longrightarrow> core w' = core w"
  using core_ops(1) [of e w p k] by simp

lemma core_grants: "ensure_grants_materialized e r w = (ok, w') \<Longrightarrow> core w' = core w"
  using core_ensure_grants [of e r w] by simp

lemma resave_same:
  assumes "same_auth w0 w" "load_bench w0 k = Some r0" "auth_part r = auth_part r0"
    and "storable_bench r0 \<Longrightarrow> storable_bench r"
  shows "same_auth w0 (save_ignoring w r)"
proof (cases "save_record w r")
  case None
  then show ?thesis using assms(1) by (simp add: save_ignoring_def)
next
  case (Some w')
  then have s: "save_ignoring w r = w'" by (simp add: save_ignoring_def)
  show ?thesis
  proof (cases "wf_records w0")
    case True
    then have "map_option auth_part (load_bench w k) = Some (auth_part r)"
      using assms(1-3) by (simp add: same_auth_def)
    then obtain r1 where "load_bench w k = Some r1" "auth_part r = auth_part r1"
      by auto
    moreover have "storable_bench r"
      using assms(4) wf_recordsD(2) [OF True assms(2)] by blast
    ultimately have "same_auth w w'"
      using save_same [OF Some] by blast
    then show ?thesis
      using assms(1) same_auth_trans unfolding s by blast
  next
    case False
    have "standing w' = standing w"
      using Some by (auto simp: save_record_def standing_def split: sum.splits)
    then show ?thesis
      using False assms(1) by (simp add: same_auth_def s)
  qed
qed

lemma state_lines [simp]: "line_ok ''stopped''" "line_ok ''running''" "line_ok ''created''"
  by (rule line_ok_graphic, simp add: is_graphic_def)+

lemma restate_same:
  assumes "load_bench w0 k = Some r" "same_auth w0 w" "line_ok s"
  shows "same_auth w0 (save_ignoring w (r\<lparr>bn_state := s\<rparr>))"
  by (rule resave_same [OF assms(2,1)]) (use assms(3) in \<open>simp_all add: auth_part_def storable_bench_def\<close>)

lemma stop_same: "load_bench w0 k = Some r \<Longrightarrow> same_auth w0 w \<Longrightarrow> same_auth w0 (stop_bench r w)"
  unfolding stop_bench_def by (rule restate_same) simp_all

section \<open>The lifecycle verbs\<close>

lemma net_fail_same:
  "load_bench w0 k = Some r \<Longrightarrow> same_auth w0 w \<Longrightarrow> same_auth w0 (snd (net_fail e r w))"
  unfolding net_fail_def snd_conv
  by (rule stop_same, assumption, erule same_auth_core) (simp add: core_simps)

lemma run_workload_same:
  "load_bench w0 k = Some r \<Longrightarrow> same_auth w0 w \<Longrightarrow> same_auth w0 (snd (run_workload e r i wl w))"
proof -
  assume l: "load_bench w0 k = Some r" and s: "same_auth w0 w"
  obtain c w1 where c: "(if i then (0, snd (podman e [''stop'', ''-t'', ''2'', ''shrek-bench-'' @ bn_name r]
        (snd (podman e (podman_exec_argv (''shrek-bench-'' @ bn_name r) True [''/bin/sh'']) w))))
      else podman e (podman_exec_argv (''shrek-bench-'' @ bn_name r) False wl) w) = (c, w1)"
    by (rule prod.exhaust)
  have "core w1 = core w"
    using c core_podman by (cases i) (auto simp: core_simps)
  then have "same_auth w0 (podman_rm e (bn_name r) (net_down (bn_id r) w1))"
    by (intro same_auth_core [OF s]) (simp add: core_simps)
  then have "same_auth w0 (stop_bench r (podman_rm e (bn_name r) (net_down (bn_id r) w1)))"
    by (rule stop_same [OF l])
  then show ?thesis
    unfolding run_workload_def Let_def c by simp
qed

lemma run_networked_same:
  assumes "load_bench w0 k = Some r" "same_auth w0 w"
  shows "same_auth w0 (snd (run_networked e r i data img ps binds wl w))"
proof -
  define w1 where "w1 = save_ignoring (net_down (bn_id r) w) (r\<lparr>bn_state := ''running''\<rparr>)"
  have w1: "same_auth w0 w1"
    unfolding w1_def by (rule restate_same [OF assms(1) same_auth_core [OF assms(2)]]) (simp_all add: core_simps)
  obtain c w2 where c: "podman e (podman_run_argv \<lparr>rs_name = bn_name r, rs_data = data, rs_image = img,
      rs_interactive = False, rs_detached = True, rs_remove = False, rs_hosts_bind = Some (hosts_file (bn_id r)),
      rs_fs_binds = binds, rs_workload = [''sleep'', ''infinity'']\<rparr>) w1 = (c, w2)"
    by (rule prod.exhaust)
  have w2: "same_auth w0 w2"
    by (rule same_auth_core [OF w1 core_podman [OF c]])
  have w3: "same_auth w0 (net_up (bn_id r) ps w2)"
    by (rule same_auth_core [OF w2]) (simp add: core_simps)
  show ?thesis
    using assms(2) net_fail_same [OF assms(1) w2] net_fail_same [OF assms(1) w3]
      run_workload_same [OF assms(1) w3]
    by (simp add: run_networked_def w1_def [symmetric] c Let_def)
qed

lemma run_from_same: "same_auth w (snd (run_from e name i wl override w))"
proof (cases "load_bench w name")
  case (Some r)
  obtain ok w2 where g: "ensure_grants_materialized e r (ensure_seed e (bn_seed r) w) = (ok, w2)"
    by (rule prod.exhaust)
  have w2: "same_auth w w2"
    by (rule same_auth_core [OF same_auth_refl]) (simp add: core_grants [OF g] core_simps)
  have run: "same_auth w (save_ignoring w2 (r\<lparr>bn_state := ''running''\<rparr>))"
    by (rule restate_same [OF Some w2]) simp
  have stop: "same_auth w (stop_bench r w')"
    if "podman e a (save_ignoring w2 (r\<lparr>bn_state := ''running''\<rparr>)) = (c, w')" for a c w'
    by (rule stop_same [OF Some same_auth_core [OF run core_podman [OF that]]])
  show ?thesis
    using w2 run_networked_same [OF Some w2] stop
    by (simp add: run_from_def Some g Let_def split: prod.splits)
qed (simp add: run_from_def)

lemma reset_same: "same_auth w (snd (reset e n w))"
  by (rule same_auth_core [OF same_auth_refl])
    (simp add: reset_def Let_def core_simps split: option.splits)

lemma quota_same: "same_auth w (snd (quota e n k w))"
proof (cases "load_bench w n")
  case (Some r)
  show ?thesis
  proof (cases k)
    case k: (Some b)
    obtain ok w1 where q: "apply_quota e w (bn_project r) b = (ok, w1)" by (rule prod.exhaust)
    have w1: "same_auth w w1"
      by (rule same_auth_core [OF same_auth_refl core_quota [OF q]])
    have "same_auth w (save_ignoring w1 (r\<lparr>bn_quota_kib := b\<rparr>))"
      by (rule resave_same [OF w1 Some]) (simp_all add: auth_part_def storable_bench_def)
    then show ?thesis using w1 by (simp add: quota_def Some k q)
  qed (simp add: quota_def Some)
qed (simp add: quota_def)

lemma core_reissue: "core (reissue_loop e rs w) = core w"
  by (induction e rs w rule: reissue_loop.induct) (simp add: core_simps Let_def)+

lemma reissue_same: "same_auth w (snd (reissue e w))"
  by (rule core_same) (simp add: reissue_def core_reissue)

lemma run_export_same: "run_export e n k w = Some (rc, w') \<Longrightarrow> same_auth w w'"
  using run_from_same [of w e n False _ None]
  by (auto simp: run_export_def run_def Option.bind_eq_Some_conv split: if_splits option.splits)
    (metis snd_conv)

lemma quiet_delete:
  assumes "load_bench w' = (load_bench w)(k := None)" "standing w' = standing w"
  shows "quiet w w'"
  using assms(2) unfolding quiet_def wf_records_def grants_of_def exports_of_def assms(1)
  by (auto split: option.splits)

lemma destroy_quiet: "destroy e n w = Some (rc, w') \<Longrightarrow> quiet w w'"
proof (cases "load_bench w n")
  case None
  then show "destroy e n w = Some (rc, w') \<Longrightarrow> quiet w w'" by (simp add: destroy_def)
next
  case (Some r)
  assume d: "destroy e n w = Some (rc, w')"
  then obtain w1 where w1: "sweep_exports e (bn_exports r) w = Some w1"
    by (auto simp: destroy_def Some Option.bind_eq_Some_conv)
  define w4 where "w4 = (let w3 = snd (apply_quota e (remove_run_dir (bn_id r)
      (unmount_grants e r (net_down (bn_id r) (podman_rm e n w1)))) (bn_project r) 0)
    in w3\<lparr>bw_data := AList.delete (data_dir n) (bw_data w3)\<rparr>)"
  have c: "core w4 = core w"
    by (simp add: w4_def Let_def core_simps core_sweep [OF w1])
  have w': "w' = (case bench_remove_record (bw_records w4) n of Inl _ \<Rightarrow> w4 | Inr d \<Rightarrow> w4\<lparr>bw_records := d\<rparr>)"
    using d unfolding destroy_def Some Let_def w4_def by (auto simp: w1)
  show ?thesis
  proof (cases "bench_remove_record (bw_records w4) n")
    case (Inl x)
    then show ?thesis using core_same [OF c] same_auth_quiet w' by simp
  next
    case (Inr dd)
    have "load_bench w' = (load_bench w4)(n := None)"
      using bench_load_remove [OF Inr] by (intro ext) (simp add: load_bench_def w' Inr)
    then have "quiet w4 w'"
      by (rule quiet_delete) (simp add: w' Inr standing_def)
    then show ?thesis
      using core_same [OF c] same_auth_quiet quiet_trans by blast
  qed
qed

lemma retain_subset: "retain_exports key ls = Some (kept, f) \<Longrightarrow> set kept \<subseteq> set ls"
proof (induction ls arbitrary: kept f)
  case (Cons a ls)
  from Cons.prems obtain x where x: "export_parse a = Some x"
    by (auto simp: Option.bind_eq_Some_conv)
  from Cons.prems obtain k0 f0 where k0: "retain_exports key ls = Some (k0, f0)"
    by (auto simp: Option.bind_eq_Some_conv)
  have "set k0 \<subseteq> set ls" by (rule Cons.IH [OF k0])
  moreover have "kept = k0 \<or> kept = a # k0"
    using Cons.prems by (auto simp: x k0 split: option.splits if_splits)
  ultimately show ?case by auto
qed simp

lemma unexport_quiet: "unexport e n key w = Some (rc, w') \<Longrightarrow> quiet w w'"
proof (cases "load_bench w n")
  case None
  then show "unexport e n key w = Some (rc, w') \<Longrightarrow> quiet w w'" by (simp add: unexport_def)
next
  case (Some r)
  assume u: "unexport e n key w = Some (rc, w')"
  then obtain kept f where k: "retain_exports key (bn_exports r) = Some (kept, f)"
    by (auto simp: unexport_def Some Option.bind_eq_Some_conv)
  define w1 where "w1 = (case f of Some f \<Rightarrow> remove_desktop_as_dev e f w | None \<Rightarrow> w)"
  have c: "core w1 = core w"
    by (simp add: w1_def core_simps split: option.splits)
  have sub: "set kept \<subseteq> set (bn_exports r)" by (rule retain_subset [OF k])
  have save: "quiet w w2" if sv: "save_record w1 (r\<lparr>bn_exports := kept\<rparr>) = Some w2" for w2
  proof -
    have "load_bench w1 n = Some r" using load_bench_core [OF c] Some by simp
    then have "quiet w1 w2"
      by (rule save_quiet [OF sv]) (use sub in \<open>auto simp: storable_bench_def list_all_iff\<close>)
    then show ?thesis
      using core_same [OF c] same_auth_quiet quiet_trans by blast
  qed
  show ?thesis
    using u save quiet_core [OF quiet_refl c]
    by (auto simp: unexport_def Some k w1_def Let_def split: if_splits option.splits)
qed

end
