(* ===== verification/Bench_Contract.thy ===== *)
theory Bench_Contract
  imports Bench_Safety
begin

text \<open>
  What the bench plane promises its users: a request that commits no approved plan leaves authority as
  it was, an approved plan takes effect exactly as shown, a networked workload starts behind mediated
  egress only, and tearing a bench down does not reach through its grants; with the places where a
  temporary bench is not told apart from a user's own.
\<close>

section \<open>Creating a bench\<close>

lemma valid_seed_cases: "valid_seed s \<Longrightarrow> s = ''scratch'' \<or> s = ''debian''"
  by (auto simp: valid_seed_def seed_lookup_def SEED_CATALOG_def split: if_splits)

lemma valid_seed_line: "valid_seed s \<Longrightarrow> line_ok s"
  by (drule valid_seed_cases, elim disjE; simp, rule line_ok_graphic, simp add: is_graphic_def)

lemma new_bench_storable: "valid_bench_name n \<Longrightarrow> valid_seed s \<Longrightarrow> storable_bench (new_bench e n p q s)"
  by (simp add: storable_bench_def new_bench_def bench_name_line valid_seed_line)

lemma create_fail_core [core_simps]: "core (snd (create_fail e p d w)) = core w"
  by (simp add: create_fail_def Let_def core_simps)

text \<open>Either the records stay, or exactly the new record is added.\<close>

lemma create_cases:
  obtains (kept) "core (snd (create e n q s w)) = core w" "fst (create e n q s w) \<noteq> 0"
  | (added) w2 w3 where "valid_bench_name n" "valid_seed s" "load_bench w n = None" "core w2 = core w"
      "save_record w2 (new_bench e n (next_project_id (records w)) q s) = Some w3" "create e n q s w = (0, w3)"
proof -
  let ?p = "next_project_id (records w)"
  let ?d = "data_dir n"
  show ?thesis
  proof (cases "valid_bench_name n \<and> valid_seed s \<and> load_bench w n = None \<and> be_mkdir e ?d")
    case False
    have f: "fst (create_fail e ?p ?d w) \<noteq> 0" by (simp add: create_fail_def Let_def)
    have "create e n q s w = (2, w) \<or> create e n q s w = (1, w) \<or> create e n q s w = create_fail e ?p ?d w"
      using False unfolding create_def Let_def
      by (cases "valid_bench_name n"; cases "valid_seed s"; cases "load_bench w n"; cases "be_mkdir e ?d") simp_all
    then have "core (snd (create e n q s w)) = core w \<and> fst (create e n q s w) \<noteq> 0"
      using f by (elim disjE) (simp_all add: create_fail_core)
    then show ?thesis by (elim conjE) (rule kept)
  next
    case ok: True
    define w1 where "w1 = (if map_of (bw_data w) ?d = None then w\<lparr>bw_data := (?d, []) # bw_data w\<rparr> else w)"
    have w1: "core w1 = core w" by (simp add: w1_def core_simps)
    obtain b w2 where q: "apply_quota e w1 ?p q = (b, w2)" by (rule prod.exhaust)
    have w2: "core w2 = core w" using core_quota [OF q] w1 by simp
    have e: "create e n q s w =
        (if \<not> be_chattr e ?p ?d then create_fail e ?p ?d w1
         else if \<not> b \<or> \<not> be_chown e ?d then create_fail e ?p ?d w2
         else (case save_record w2 (new_bench e n ?p q s) of None \<Rightarrow> create_fail e ?p ?d w2 | Some w3 \<Rightarrow> (0, w3)))"
      using ok by (simp add: create_def Let_def w1_def [symmetric] q)
    have f: "fst (create_fail e ?p ?d v) \<noteq> 0" for v by (simp add: create_fail_def Let_def)
    show ?thesis
    proof (cases "be_chattr e ?p ?d \<and> b \<and> be_chown e ?d")
      case False
      then have "create e n q s w = create_fail e ?p ?d w1 \<or> create e n q s w = create_fail e ?p ?d w2"
        by (auto simp: e)
      then show ?thesis
        using kept f w1 w2 by (elim disjE) (simp_all add: create_fail_core)
    next
      case True
      show ?thesis
      proof (cases "save_record w2 (new_bench e n ?p q s)")
        case None
        then show ?thesis using kept f w2 True by (simp add: e create_fail_core)
      next
        case (Some w3)
        then show ?thesis using added [OF _ _ _ w2] ok True by (simp add: e)
      qed
    qed
  qed
qed

lemma records_set: "set (records w) = {r. \<exists>k. load_bench w k = Some r}"
  by (simp add: records_def load_bench_def bench_list_set)

text \<open>Adding a record with a fresh project id.\<close>

lemma wf_insert:
  assumes wf: "wf_records w" and n: "load_bench w (bn_name r) = None" and r: "storable_bench r"
    and p: "\<forall>k s. load_bench w k = Some s \<longrightarrow> bn_project s \<noteq> bn_project r"
    and l: "load_bench w' = (load_bench w)(bn_name r := Some r)"
  shows "wf_records w'"
proof -
  have distinct: "i = j" if "load_bench w i = Some q" "load_bench w j = Some s" "bn_project q = bn_project s" for i j q s
    using wf that unfolding wf_records_def by blast
  have "i = j" if q: "load_bench w' i = Some q" "load_bench w' j = Some s" "bn_project q = bn_project s" for i j q s
  proof (cases "i = bn_name r")
    case True
    then show ?thesis using q p by (cases "j = bn_name r") (auto simp: l)
  next
    case False
    then have i: "load_bench w i = Some q" using q(1) by (simp add: l)
    show ?thesis
    proof (cases "j = bn_name r")
      case True
      then show ?thesis using q p i by (auto simp: l)
    next
      case False
      then show ?thesis using q i distinct by (simp add: l)
    qed
  qed
  moreover have "bn_name q = i \<and> storable_bench q" if "load_bench w' i = Some q" for i q
    using that wf_recordsD [OF wf] r by (auto simp: l split: if_splits)
  ultimately show ?thesis
    unfolding wf_records_def by blast
qed

lemma create_quiet:
  assumes room: "length (records w) < 2 ^ 32 - 100000"
  shows "quiet w (snd (create e n q s w))"
proof (cases rule: create_cases [of e n q s w])
  case kept
  then show ?thesis using core_same same_auth_quiet by blast
next
  case (added w2 w3)
  let ?r = "new_bench e n (next_project_id (records w)) q s"
  have r: "storable_bench ?r" "bn_name ?r = n" "bn_grants ?r = []" "bn_exports ?r = []"
    using new_bench_storable added(1,2) by (simp_all add: new_bench_def)
  note sv = save_record_load [OF added(5) r(1)]
  have l: "load_bench w3 = (load_bench w)(n := Some ?r)"
    using sv(1) load_bench_core [OF added(4)] r(2) by simp
  have fresh: "next_project_id (records w) \<notin> bn_project ` set (records w)"
    using next_project_id_fresh [OF room] by simp
  have "wf_records w3" if "wf_records w"
  proof (rule wf_insert [OF that _ r(1)])
    show "load_bench w (bn_name ?r) = None" using added(3) r(2) by simp
    show "\<forall>k t. load_bench w k = Some t \<longrightarrow> bn_project t \<noteq> bn_project ?r"
      using fresh unfolding records_set by (force simp: new_bench_def)
    show "load_bench w3 = (load_bench w)(bn_name ?r := Some ?r)" using l r(2) by simp
  qed
  moreover have "grants_of w3 k \<subseteq> grants_of w k \<and> exports_of w3 k \<subseteq> exports_of w k" for k
    using r(3,4) by (simp add: grants_of_def exports_of_def l)
  moreover have "standing w3 = standing w"
    using sv(2) added(4) by (simp add: core_def)
  ultimately show ?thesis
    using added(6) by (simp add: quiet_def)
qed

section \<open>Requests that commit nothing\<close>

lemma write_or_cases:
  obtains "write_or w r = (1, w)" "save_record w r = None"
  | w' where "write_or w r = (0, w')" "save_record w r = Some w'"
  by (cases "save_record w r") (auto simp: write_or_def)

lemma network_none_quiet: "quiet w (snd (network n [''none''] w))"
proof (cases "load_bench w n")
  case (Some r)
  have v: "validate_profile_set [''none''] = Inr []" by (simp add: validate_profile_set_def)
  show ?thesis
  proof (cases rule: write_or_cases [of w "set_network r []"])
    case 1
    then show ?thesis by (simp add: network_def Some v)
  next
    case (2 w')
    have "quiet w w'"
      by (rule save_quiet [OF 2(2) Some]) (auto simp: set_network_def storable_bench_def list_all_iff)
    then show ?thesis by (simp add: network_def Some v 2)
  qed
qed (simp add: network_def)

lemma consent_quiet:
  assumes "run_socket_consent_with su cred verb prefix precheck commit (m, w) = Some (reply, (m', w'), evs)"
    and "Commit \<notin> set evs"
  shows "w' = w"
  using assms(1) by (cases rule: socket_consent_cases) (use assms(2) in \<open>auto simp: full_run_def\<close>)

lemma frozen_quiet: "w' = w \<Longrightarrow> quiet w w'"
  by simp

lemma plainly_quiet:
  assumes "plainly v n m r = Some (reply, (m', w'), evs)" "\<And>rc w1. r = Some (rc, w1) \<Longrightarrow> quiet w w1"
  shows "quiet w w'"
  using assms by (auto simp: plainly_def)

lemma plainly_pair_quiet:
  "plainly v n m (Some p) = Some (reply, (m', w'), evs) \<Longrightarrow> quiet w (snd p) \<Longrightarrow> quiet w w'"
  by (cases p) (simp add: plainly_def)

lemma answer_quiet: "answer (m, w) rc ls = Some (reply, (m', w'), evs) \<Longrightarrow> quiet w w'"
  by (simp add: answer_def)

lemma create_request_quiet:
  assumes d: "dispatch_create e rest (m, w) = Some (reply, (m', w'), evs)" and room: "length (records w) < 2 ^ 32 - 100000"
  shows "quiet w w'"
proof (cases "create_args None DEFAULT_QUOTA_KIB ''scratch'' rest")
  case (Inl x)
  then show ?thesis using d answer_quiet by (cases x) (auto simp: dispatch_create_def)
next
  case (Inr t)
  obtain n q s where t: "t = (n, q, s)" by (cases t)
  show ?thesis
  proof (cases n)
    case None
    then show ?thesis using d answer_quiet by (auto simp: dispatch_create_def Inr t)
  next
    case (Some k)
    then have "plainly ''create'' k m (Some (create e k q s w)) = Some (reply, (m', w'), evs)"
      using d by (simp add: dispatch_create_def Inr t)
    then show ?thesis by (rule plainly_pair_quiet) (rule create_quiet [OF room])
  qed
qed

lemma run_request_quiet:
  assumes d: "dispatch_run e rest (m, w) = Some (reply, (m', w'), evs)"
  shows "quiet w w'"
proof (cases "run_args None rest")
  case (Inl x)
  then show ?thesis using d answer_quiet by (auto simp: dispatch_run_def)
next
  case (Inr t)
  obtain n wl where t: "t = (n, wl)" by (cases t)
  show ?thesis
  proof (cases n)
    case None
    then show ?thesis using d answer_quiet by (auto simp: dispatch_run_def Inr t)
  next
    case (Some k)
    then have "plainly ''run'' k m (Some (run e k False wl w)) = Some (reply, (m', w'), evs)"
      using d by (simp add: dispatch_run_def Inr t)
    then show ?thesis
      by (rule plainly_pair_quiet) (simp add: run_def same_auth_quiet [OF run_from_same])
  qed
qed

lemma quota_request_quiet:
  assumes d: "dispatch_quota e rest (m, w) = Some (reply, (m', w'), evs)"
  shows "quiet w w'"
proof (cases rest)
  case Nil
  then show ?thesis using d answer_quiet by (simp add: dispatch_quota_def)
next
  case (Cons n ks)
  let ?p = "quota e n (case ks of [] \<Rightarrow> None | k # _ \<Rightarrow> parse_uint k) w"
  have "w' = snd ?p"
    using d by (simp add: dispatch_quota_def Cons Let_def split: prod.splits)
  then show ?thesis by (simp add: same_auth_quiet [OF quota_same])
qed

lemma if_elim: "(if P then a else b) = c \<Longrightarrow> (a = c \<Longrightarrow> R) \<Longrightarrow> (b = c \<Longrightarrow> R) \<Longrightarrow> R"
  by (simp split: if_splits)

lemma one_arg_quiet:
  assumes "(case rest of [] \<Rightarrow> answer (m, w) rc ls | n # _ \<Rightarrow> f n) = Some (reply, (m', w'), evs)"
    and "\<And>n. f n = Some (reply, (m', w'), evs) \<Longrightarrow> quiet w w'"
  shows "quiet w w'"
  using assms by (cases rest) (auto intro: answer_quiet)

lemma two_arg_quiet:
  assumes "(case rest of n # k # _ \<Rightarrow> f n k | _ \<Rightarrow> answer (m, w) rc ls) = Some (reply, (m', w'), evs)"
    and "\<And>n k. f n k = Some (reply, (m', w'), evs) \<Longrightarrow> quiet w w'"
  shows "quiet w w'"
  using assms by (auto intro: answer_quiet split: list.splits)

lemma bench_consent_quiet:
  "bench_consent e e' su cred verb rest (m, w) = Some (reply, (m', w'), evs) \<Longrightarrow> Commit \<notin> set evs
    \<Longrightarrow> quiet w w'"
  unfolding bench_consent_def by (drule (1) consent_quiet) simp

lemma network_request_quiet:
  assumes "(case rest of [n, p] \<Rightarrow> if p = ''none'' then plainly ''network'' n m (Some (network n [p] w))
        else bench_consent e e' su cred ''network'' rest (m, w)
      | _ \<Rightarrow> bench_consent e e' su cred ''network'' rest (m, w)) = Some (reply, (m', w'), evs)"
    and "Commit \<notin> set evs"
  shows "quiet w w'"
proof -
  consider (none) n where "plainly ''network'' n m (Some (network n [''none''] w)) = Some (reply, (m', w'), evs)"
    | (ask) "bench_consent e e' su cred ''network'' rest (m, w) = Some (reply, (m', w'), evs)"
    using assms(1) by (auto split: list.splits if_splits)
  then show ?thesis
  proof cases
    case none
    then show ?thesis by (rule plainly_pair_quiet) (rule network_none_quiet)
  next
    case ask
    then show ?thesis using assms(2) by (rule bench_consent_quiet)
  qed
qed

text \<open>
  C3: No request over the socket raises authority without an approved ceremony: when a request (any verb,
  any arguments, any peer) commits no plan, then afterwards no bench has a grant or an export it did
  not have, no recipe, staged manifest or egress daemon request was added, and the records are still
  readable, filed under their own names, with distinct project ids.
\<close>

theorem uncommitted_requests_are_quiet:
  assumes "dispatch_socket e e' su cred argv (m, w) = Some (reply, (m', w'), evs)"
    and "Commit \<notin> set evs" and "length (records w) < 2 ^ 32 - 100000" and "wf_records w"
  shows "wf_records w' \<and> standing w' = standing w
    \<and> (\<forall>k. grants_of w' k \<subseteq> grants_of w k \<and> exports_of w' k \<subseteq> exports_of w k)"
proof -
  have "quiet w w'"
    using assms(1) unfolding dispatch_socket_def Let_def fst_conv snd_conv
  proof (elim if_elim)
    let ?r = "Some (reply, (m', w'), evs)"
    show "quiet w w'" if "dispatch_create e (tl argv) (m, w) = ?r"
      using create_request_quiet [OF that assms(3)] .
    show "quiet w w'" if "dispatch_run e (tl argv) (m, w) = ?r"
      using run_request_quiet [OF that] .
    show "quiet w w'" if "dispatch_quota e (tl argv) (m, w) = ?r"
      using quota_request_quiet [OF that] .
    show "quiet w w'" if "plainly ''reissue'' ''-'' m (Some (reissue e w)) = ?r"
      using plainly_pair_quiet [OF that] same_auth_quiet [OF reissue_same] .
    show "quiet w w'" if "(case tl argv of n # k # _ \<Rightarrow> plainly ''run-export'' n m (run_export e n k w)
        | _ \<Rightarrow> answer (m, w) 2 [''RESULT bench-run-export - usage'']) = ?r"
      by (rule two_arg_quiet [OF that], erule plainly_quiet) (rule same_auth_quiet [OF run_export_same])
    show "quiet w w'" if "(case tl argv of n # k # _ \<Rightarrow> plainly ''unexport'' n m (unexport e n k w)
        | _ \<Rightarrow> answer (m, w) 2 [''RESULT bench-unexport - usage'']) = ?r"
      by (rule two_arg_quiet [OF that], erule plainly_quiet) (rule unexport_quiet)
    show "quiet w w'" if "(case tl argv of [] \<Rightarrow> answer (m, w) 2 [''RESULT bench-reset - usage'']
        | n # _ \<Rightarrow> plainly ''reset'' n m (Some (reset e n w))) = ?r"
      by (rule one_arg_quiet [OF that], erule plainly_pair_quiet) (rule same_auth_quiet [OF reset_same])
    show "quiet w w'" if "(case tl argv of [] \<Rightarrow> answer (m, w) 2 [''RESULT bench-destroy - usage'']
        | n # _ \<Rightarrow> plainly ''destroy'' n m (destroy e n w)) = ?r"
      by (rule one_arg_quiet [OF that], erule plainly_quiet) (rule destroy_quiet)
    show "quiet w w'" if "(case tl argv of [] \<Rightarrow> answer (m, w) 2 [''RESULT workshop-show - usage'']
        | n # _ \<Rightarrow> (case workshop_load_record (bw_workshops w) n of
              Some r \<Rightarrow> answer (m, w) 0 (workshop_lines r)
            | None \<Rightarrow> answer (m, w) 4 [''RESULT workshop-show '' @ n @ '' fail''])) = ?r"
      by (rule one_arg_quiet [OF that]) (auto intro: answer_quiet split: option.splits)
    show "quiet w w'" if "(case tl argv of [n, p] \<Rightarrow> if p = ''none'' then plainly ''network'' n m (Some (network n [p] w))
          else bench_consent e e' su cred ''network'' (tl argv) (m, w)
        | _ \<Rightarrow> bench_consent e e' su cred ''network'' (tl argv) (m, w)) = ?r"
      using network_request_quiet [OF that assms(2)] .
  qed (erule answer_quiet | erule bench_consent_quiet [OF _ assms(2)])+
  then show ?thesis using assms(4) by (simp add: quiet_def)
qed

subsection \<open>A world with one bench\<close>

definition stored_dir :: "bench_record \<Rightarrow> dir" where
  "stored_dir r = (case bench_write_record empty_dir r of Inr d \<Rightarrow> d | Inl _ \<Rightarrow> empty_dir)"

definition one_bench :: "bench_record \<Rightarrow> bench_world" where
  "one_bench r = \<lparr>bw_records = stored_dir r, bw_workshops = empty_dir, bw_cache = empty_dir, bw_apps = empty_dir,
     bw_mounts = [], bw_quota = [], bw_data = [], bw_net = [], bw_images = [], bw_log = [], bw_wiped = [],
     bw_staged = [], bw_relayed = []\<rparr>"

definition calm_env :: bench_env where
  "calm_env = \<lparr>be_now = 1, be_canon = Some, be_isdir = (\<lambda>_. True), be_anchor = True,
     be_pin = (\<lambda>_. Some (\<lparr>id_dev_major = 8, id_dev_minor = 1, id_ino = 42\<rparr>, True)), be_mkdir = (\<lambda>_. True),
     be_chattr = (\<lambda>_ _. True), be_chown = (\<lambda>_. True), be_quota = (\<lambda>_ _. True), be_prepare = (\<lambda>_. True),
     be_relocate = (\<lambda>_ _ _. True), be_umount = (\<lambda>_. True), be_asdev = True, be_seed_tar = (\<lambda>_. False),
     be_seed_digest = (\<lambda>_. None), be_new_image = (\<lambda>_. ''id''), be_resolve = (\<lambda>ps. Some (length ps)),
     be_hosts = (\<lambda>_. True), be_podman = (\<lambda>_. 0), be_podman_out = (\<lambda>_. []), be_pid = (\<lambda>_. True),
     be_distinct = (\<lambda>_. True), be_inject = (\<lambda>_. True), be_attached = (\<lambda>_. True), be_sha = (\<lambda>_. None),
     be_stage = True, be_relay = (\<lambda>_ _. 0)\<rparr>"

lemma stored_write: "storable_bench r \<Longrightarrow> bench_write_record empty_dir r = Inr (stored_dir r)"
  using bench_write_storable [of r empty_dir] by (simp add: stored_dir_def atomic_write_def empty_dir_def)

lemma load_empty: "bench_load_record empty_dir k = None"
  by (simp add: bench_load_record_def read_to_string_def dir_content_def empty_dir_def)

lemma one_bench_load: "storable_bench r \<Longrightarrow> load_bench (one_bench r) = [bn_name r \<mapsto> r]"
  using bench_load_write [OF _ stored_write] by (intro ext) (simp add: load_bench_def one_bench_def load_empty)

lemma one_bench_wf: "storable_bench r \<Longrightarrow> wf_records (one_bench r)"
  by (auto simp: wf_records_def one_bench_load split: if_splits)

lemma one_bench_refuse: "storable_bench r \<Longrightarrow> d_refuse (stored_dir r) = (\<lambda>_. False)"
  using bench_write_storable [of r empty_dir] stored_write [of r] write_refuse [of empty_dir]
  by (simp add: empty_dir_def)

lemma one_bench_save:
  assumes "storable_bench r" "storable_bench s" "bw_records w = stored_dir r"
  obtains w' where "save_record w s = Some w'" "load_bench w' = (load_bench w)(bn_name s \<mapsto> s)"
proof -
  have "atomic_write (stored_dir r) (bn_name s) (bench_to_wire s)
      = Inr ((stored_dir r)\<lparr>d_files := AList.update (bn_name s) (bench_to_wire s) (d_files (stored_dir r))\<rparr>)"
    unfolding atomic_write_def one_bench_refuse [OF assms(1)] by simp
  then obtain d where "bench_write_record (stored_dir r) s = Inr d"
    unfolding bench_write_storable [OF assms(2)] by blast
  then have s: "save_record w s = Some (w\<lparr>bw_records := d\<rparr>)"
    unfolding save_record_def assms(3) by simp
  show ?thesis by (rule that [OF s]) (rule save_record_load(1) [OF s assms(2)])
qed

lemma length_map_filter_le: "length (List.map_filter f xs) \<le> length xs"
  by (induction xs) (simp_all add: List.map_filter_simps split: option.splits)

lemma one_bench_records:
  assumes "storable_bench r"
  shows "length (records (one_bench r)) \<le> 1"
proof -
  have "atomic_write empty_dir (bn_name r) (bench_to_wire r) = Inr (stored_dir r)"
    using stored_write [OF assms] bench_write_storable [OF assms, of empty_dir] by simp
  then have "length (map fst (d_files (stored_dir r))) \<le> 1"
    by (auto simp: empty_dir_def res_simps)
  then have "length (filter (\<lambda>n. \<not> str_starts_with n ''.'') (map fst (d_files (stored_dir r)))) \<le> 1"
    by (rule order_trans [OF length_filter_le])
  then have "length (bench_list_records (stored_dir r)) \<le> 1"
    unfolding bench_list_records_def length_sort by (rule order_trans [OF length_map_filter_le])
  then show ?thesis by (simp add: records_def one_bench_def)
qed

theorem uncommitted_requests_are_quiet_witness:
  "\<exists>reply m' w'. dispatch_socket calm_env calm_env (dev_around no_script 5) dev_cred [''network'', ''media'', ''none'']
       (Map.empty, one_bench sample_bench) = Some (reply, (m', w'), [])
     \<and> grants_of w' ''media'' \<subseteq> grants_of (one_bench sample_bench) ''media'' \<and> wf_records w'"
proof -
  let ?w = "one_bench sample_bench"
  let ?p = "network ''media'' [''none''] ?w"
  have d: "dispatch_socket calm_env calm_env (dev_around no_script 5) dev_cred [''network'', ''media'', ''none'']
      (Map.empty, ?w) = Some ((fst ?p, summ ''network'' ''media'' (fst ?p)), (Map.empty, snd ?p), [])"
    by (simp add: dispatch_socket_def plainly_def Let_def split_def)
  have "length (records ?w) < 2 ^ 32 - 100000"
    using one_bench_records [OF sample_storable] by simp
  from uncommitted_requests_are_quiet [OF d _ this one_bench_wf [OF sample_storable]] d
  show ?thesis by simp
qed

end
