(* ===== verification/Bench_Commit.thy ===== *)
theory Bench_Commit
  imports Bench_Contract
begin

text \<open>
  The commits: an approved plan changes the record it was shown for, in the way it was shown, and
  nothing else; what the socket entry of the desktop egress ceremony relays; and what a launch and a
  derivation do to benches that are not theirs.
\<close>

section \<open>Approved plans take effect as shown\<close>

lemma write_or_saved: "write_or w r = (0, w') \<Longrightarrow> save_record w r = Some w'"
  by (simp add: write_or_def split: option.splits)

lemma resolve_graphic: "resolve p \<noteq> None \<Longrightarrow> \<forall>c \<in> set p. is_graphic c"
proof -
  assume "resolve p \<noteq> None"
  then have "p \<in> prof_name ` set EGRESS_PROFILES"
    unfolding resolve_def agent.find_None not_not .
  then obtain x where "x \<in> set EGRESS_PROFILES" "prof_name x = p" by (elim imageE) simp
  moreover have "list_all (\<lambda>x. list_all is_graphic (prof_name x)) EGRESS_PROFILES"
    by code_simp
  ultimately show ?thesis by (auto simp: list_all_iff)
qed

lemma net_line: "resolve p \<noteq> None \<Longrightarrow> line_ok (grant_encode (Net p))"
proof -
  assume "resolve p \<noteq> None"
  then have "text_line p" by (simp add: text_line_graphic resolve_graphic)
  moreover have "text_line ''net ''" by code_simp
  ultimately have "text_line (grant_encode (Net p))" by (simp only: grant_encode.simps text_line_simps)
  from text_line_clean [OF this] show ?thesis by (auto simp: line_ok_def clean_line_def)
qed

lemma set_network_storable:
  "storable_bench r \<Longrightarrow> \<forall>p \<in> set ps. resolve p \<noteq> None \<Longrightarrow> storable_bench (set_network r ps)"
  using net_line by (auto simp: storable_bench_def set_network_def list_all_iff)

lemma map_filter_none: "(\<And>x. x \<in> set xs \<Longrightarrow> f x = None) \<Longrightarrow> List.map_filter f xs = []"
  by (induction xs) (simp_all add: List.map_filter_simps)

lemma map_filter_drop: "(\<And>x. \<not> P x \<Longrightarrow> f x = None) \<Longrightarrow> List.map_filter f (filter P xs) = List.map_filter f xs"
  by (induction xs) (simp_all add: List.map_filter_simps split: option.splits)

lemma set_network_parts:
  "egress_profiles (set_network r ps) = ps" "fs_grants (bn_grants (set_network r ps)) = fs_grants (bn_grants r)"
proof -
  let ?net = "\<lambda>g. case grant_parse g of Some (Net p) \<Rightarrow> Some p | _ \<Rightarrow> None"
  let ?fs = "\<lambda>g. case grant_parse g of Some (Fs rw path) \<Rightarrow> Some (rw, path) | _ \<Rightarrow> None"
  have "List.map_filter ?net (filter (\<lambda>g. \<not> is_net g) gs) = []" for gs
    by (rule map_filter_none) (auto simp: is_net_def split: option.splits grant.splits)
  moreover have "List.map_filter ?net (map (\<lambda>p. grant_encode (Net p)) ps) = ps"
    by (induction ps) (simp_all add: List.map_filter_simps grant_parse_net del: grant_encode.simps)
  ultimately show "egress_profiles (set_network r ps) = ps"
    by (simp add: egress_profiles_def egress_profiles_from_def set_network_def map_filter_append)
  have "List.map_filter ?fs (filter (\<lambda>g. \<not> is_net g) gs) = List.map_filter ?fs gs" for gs
    by (rule map_filter_drop) (auto simp: is_net_def split: option.splits grant.splits)
  moreover have "List.map_filter ?fs (map (\<lambda>p. grant_encode (Net p)) ps) = []"
    by (rule map_filter_none) (auto simp: grant_parse_net simp del: grant_encode.simps)
  ultimately show "fs_grants (bn_grants (set_network r ps)) = fs_grants (bn_grants r)"
    by (simp add: fs_grants_def set_network_def map_filter_append)
qed

lemma commit_network_saved:
  assumes c: "commit_network n ps w = (0, w')" and wf: "wf_records w"
  obtains r where "load_bench w n = Some r" "load_bench w' = (load_bench w)(n \<mapsto> set_network r ps)"
proof -
  from c obtain r where r: "load_bench w n = Some r"
    by (auto simp: commit_network_def split: option.splits)
  have ps: "\<forall>p \<in> set ps. resolve p \<noteq> None"
    using c r by (auto simp: commit_network_def list_ex_iff split: if_splits)
  have sv: "save_record w (set_network r ps) = Some w'"
    using c r by (auto simp: commit_network_def dest: write_or_saved split: if_splits)
  have "storable_bench (set_network r ps)" "bn_name (set_network r ps) = n"
    using set_network_storable [OF _ ps] wf_recordsD [OF wf r] by (simp_all add: set_network_def)
  then show ?thesis
    using save_record_load(1) [OF sv] that [OF r] by simp
qed

lemma profile_loop_all: "profile_set_loop acc ps = Inr out \<Longrightarrow> out = acc @ ps"
  by (simp add: profile_set_loop_Inr)

lemma precheck_network_kind:
  assumes "precheck_network e w (n # ps) = Inr plan"
  shows "ap_bench plan = n" "ap_kind plan = Network ps" "take (length ps) (ap_rows plan) = network_profile_rows ps"
proof -
  have none: "''none'' \<notin> set ps" using assms by (auto simp: precheck_network_def)
  then obtain out where out: "validate_profile_set ps = Inr out"
    using assms by (auto simp: precheck_network_def split: sum.splits)
  then have "out = ps"
    using none profile_loop_all [of "[]" ps out] by (simp add: validate_profile_set_def split: if_splits)
  then have v: "validate_profile_set ps = Inr ps" using out by simp
  show "ap_bench plan = n" "ap_kind plan = Network ps" "take (length ps) (ap_rows plan) = network_profile_rows ps"
    using assms unfolding precheck_network_def list.case v sum.case
    by (cases "load_bench w n"; cases "list_ex (\<lambda>p. resolve p = None) ps";
        clarsimp simp: none network_profile_rows_def)+
qed

text \<open>
  C24: An approved egress change gives the bench exactly the profiles the human was shown, whatever it
  reached before: they head the rows of the screen, they are its whole egress set afterwards, its
  folder grants and exports are as they were, and no other bench is touched.
\<close>

theorem network_commit_exact:
  assumes "precheck_authority e w ''network'' (n # ps) = Some (Inr plan)"
    and "commit_authority e' plan w1 = Some (0, w2)" and "wf_records w1"
  shows "take (length ps) (ap_rows plan) = map (\<lambda>p. (''Egress profile'', p)) ps
    \<and> (\<exists>r r'. load_bench w1 n = Some r \<and> load_bench w2 = (load_bench w1)(n \<mapsto> r') \<and> egress_profiles r' = ps
        \<and> fs_grants (bn_grants r') = fs_grants (bn_grants r) \<and> bn_exports r' = bn_exports r)"
proof -
  have pre: "precheck_network e w (n # ps) = Inr plan"
    using assms(1) by (simp add: precheck_authority_def)
  note plan = precheck_network_kind [OF pre]
  have "commit_network n ps w1 = (0, w2)"
    using assms(2) by (simp add: commit_authority_def plan(1,2))
  then obtain r where "load_bench w1 n = Some r" "load_bench w2 = (load_bench w1)(n \<mapsto> set_network r ps)"
    by (rule commit_network_saved) (rule assms(3))
  moreover have "bn_exports (set_network r ps) = bn_exports r" for r
    by (simp add: set_network_def)
  ultimately show ?thesis
    using plan(3) set_network_parts by (auto simp: network_profile_rows_def)
qed

lemma grant_target_Inr:
  assumes "grant_target e path = Inr (canonical, leaf)"
  shows "be_canon e path = Some canonical" "path_starts_with canonical anchor_dir" "\<not> path_eq canonical anchor_dir"
    "\<And>rel. path_rel canonical anchor_dir = Some rel \<Longrightarrow> \<not> list_ex dot_comp rel"
    "fs_leaf canonical = Some leaf"
  using assms by (auto simp: grant_target_def split: option.splits if_splits)

lemma precheck_grant_Inr:
  assumes "precheck_grant e w rest = Inr plan"
  obtains path canonical leaf rw obj rel r where
    "grant_target e path = Inr (canonical, leaf)" "path_rel canonical anchor_dir = Some rel"
    "load_bench w (ap_bench plan) = Some r" "\<not> grant_collides r canonical leaf"
    "be_pin e rel = Some (obj, True)" "ap_kind plan = GrantDir canonical leaf rw obj"
    "take 2 (ap_rows plan) = [(''Grant path'', utf8_lossy canonical),
       (''Access'', if rw then ''READ-WRITE'' else ''read-only'')]"
proof -
  from assms obtain name path rw where a: "grant_args None None False rest = Inr (Some name, Some path, rw)"
    by (auto simp: precheck_grant_def split: sum.splits option.splits)
  from assms obtain r where r: "load_bench w name = Some r"
    by (auto simp: precheck_grant_def a split: option.splits)
  from assms obtain canonical leaf where t: "grant_target e path = Inr (canonical, leaf)"
    by (auto simp: precheck_grant_def a r split: sum.splits)
  have nc: "\<not> grant_collides r canonical leaf"
    using assms by (auto simp: precheck_grant_def a r t)
  from assms obtain rel where rel: "path_rel canonical anchor_dir = Some rel"
    by (auto simp: precheck_grant_def a r t nc split: option.splits)
  have u: "utf8_ok (str_join ''/'' rel)" "be_anchor e"
    using assms by (auto simp: precheck_grant_def a r t nc rel split: if_splits)
  from assms u obtain obj isdir where pin: "be_pin e rel = Some (obj, isdir)"
    by (cases "be_pin e rel") (auto simp: precheck_grant_def a r t nc rel)
  have d: "isdir" using assms u by (cases isdir) (simp_all add: precheck_grant_def a r t nc rel pin)
  have p: "plan = \<lparr>ap_bench = name,
      ap_rows = [(''Grant path'', utf8_lossy canonical), (''Access'', if rw then ''READ-WRITE'' else ''read-only''),
        (''Mounts in bench at'', grant_mountpoint leaf)],
      ap_trifecta = trifecta_after (record_has_fs r) (egress_profiles r \<noteq> []) True False,
      ap_kind = GrantDir canonical leaf rw obj\<rparr>"
    using assms nc u d
    by (simp only: precheck_grant_def a r t rel pin sum.case prod.case option.case if_False if_True
        not_True_eq_False not_False_eq_True sum.inject simp_thms)
  show ?thesis
  proof (rule that)
    show "grant_target e path = Inr (canonical, leaf)" by (rule t)
    show "path_rel canonical anchor_dir = Some rel" by (rule rel)
    show "load_bench w (ap_bench plan) = Some r" by (simp add: p r)
    show "\<not> grant_collides r canonical leaf" by (rule nc)
    show "be_pin e rel = Some (obj, True)" using pin d by simp
    show "ap_kind plan = GrantDir canonical leaf rw obj" by (simp add: p)
    show "take 2 (ap_rows plan) = [(''Grant path'', utf8_lossy canonical),
       (''Access'', if rw then ''READ-WRITE'' else ''read-only'')]" unfolding p by simp
  qed
qed

lemma grant_line:
  assumes "line_ok path"
  shows "line_ok (grant_encode (Fs rw path))"
proof -
  have h: "text_line ''fs-rw ''" "text_line ''fs-ro ''" by code_simp+
  have "line_ok (a @ path)" if "text_line a" "a \<noteq> []" "last a = sp" for a
    using text_line_clean [OF that(1)] that assms
    by (auto simp: line_ok_def clean_line_def utf8_ok_append last_append)
  then show ?thesis
    using h assms by (cases rw) (simp_all add: line_ok_def [of path] del: append_Cons append.simps)
qed

lemma push_grant_storable:
  "storable_bench r \<Longrightarrow> line_ok path \<Longrightarrow> storable_bench (push_grant r (Fs rw path))"
  using grant_line by (simp add: storable_bench_def push_grant_def)

lemma relocate_records: "relocate e w rw obj t = Some w' \<Longrightarrow> load_bench w' = load_bench w"
  by (rule load_bench_core) (rule core_relocate)

lemma commit_grant_saved:
  assumes c: "commit_grant e n canonical leaf rw expected w = (0, w')" and wf: "wf_records w" and l: "line_ok canonical"
  obtains r rel where "load_bench w n = Some r" "path_rel canonical anchor_dir = Some rel"
    "be_pin e rel = Some (expected, True)"
    "load_bench w' = (load_bench w)(n \<mapsto> push_grant r (Fs rw canonical))"
    "path_join (grants_dir (bn_id r)) leaf \<in> fst ` set (bw_mounts w')"
proof -
  from c obtain r where r: "load_bench w n = Some r"
    by (auto simp: commit_grant_def split: option.splits)
  from c obtain rel where rel: "path_rel canonical anchor_dir = Some rel"
    by (auto simp: commit_grant_def r split: option.splits)
  from c obtain obj isdir where pin: "be_pin e rel = Some (obj, isdir)"
    by (auto simp: commit_grant_def r rel split: if_splits option.splits)
  have obj: "obj = expected" "isdir"
    using c by (auto simp: commit_grant_def r rel pin split: if_splits)
  let ?t = "path_join (grants_dir (bn_id r)) leaf"
  obtain w1 where w1: "(if is_mountpoint w ?t then Some w else relocate e w rw obj ?t) = Some w1"
      "write_or w1 (push_grant r (Fs rw canonical)) = (0, w')"
    using c by (auto simp: commit_grant_def r rel pin Let_def split: if_splits option.splits)
  have m: "?t \<in> fst ` set (bw_mounts w1)" "load_bench w1 = load_bench w"
    using w1(1) relocate_records [of e w rw obj ?t w1]
    by (auto simp: is_mountpoint_def relocate_def split: if_splits)
  note sv = write_or_saved [OF w1(2)]
  have "storable_bench (push_grant r (Fs rw canonical))" "bn_name (push_grant r (Fs rw canonical)) = n"
    using push_grant_storable [OF _ l] wf_recordsD [OF wf r] by (simp_all add: push_grant_def)
  then have "load_bench w' = (load_bench w)(n \<mapsto> push_grant r (Fs rw canonical))"
    using save_record_load(1) [OF sv] m(2) by simp
  moreover have "bw_mounts w' = bw_mounts w1"
    using sv by (auto simp: save_record_def split: sum.splits)
  ultimately show ?thesis
    using that [OF r rel] pin obj m(1) by simp
qed

lemma path_rel_nonempty: "path_rel p q = Some rel \<Longrightarrow> \<not> path_eq p q \<Longrightarrow> rel \<noteq> []"
  by (auto simp: path_rel_def path_eq_def path_starts_with_def split: if_splits)


lemma find_export_append:
  "find_export k es = Some None \<Longrightarrow> export_parse l = Some (Some x) \<Longrightarrow> ex_key x = k \<Longrightarrow>
     find_export k (es @ [l]) = Some (Some x)"
  by (induction es) (auto simp: Option.bind_eq_Some_conv split: option.splits if_splits)

lemma publish_export_saved:
  assumes "publish_export e r bench x w = (0, w')"
  obtains w1 where "write_desktop_as_dev e (ex_file x) (desktop_content bench (ex_key x) (ex_label x) (ex_icon x)) w = Some w1"
    "save_record w1 (push_export r x) = Some w'"
  using assms that by (auto simp: publish_export_def split: option.splits)

lemma push_export_storable: "storable_bench r \<Longrightarrow> wf_export x \<Longrightarrow> storable_bench (push_export r x)"
  using export_line_ok by (simp add: storable_bench_def push_export_def)

lemma commit_export_saved:
  assumes c: "commit_export e n x w = Some (0, w')" and wf: "wf_records w" and x: "wf_export x"
  obtains r where "load_bench w n = Some r" "find_export (ex_key x) (bn_exports r) = Some None"
    "load_bench w' = (load_bench w)(n \<mapsto> push_export r x)"
    "dir_content (bw_apps w') (ex_file x) = Some (desktop_content n (ex_key x) (ex_label x) (ex_icon x))"
proof -
  from c obtain r where r: "load_bench w n = Some r"
    by (auto simp: commit_export_def split: option.splits)
  from c obtain found where f: "find_export (ex_key x) (bn_exports r) = Some found"
    by (auto simp: commit_export_def r Option.bind_eq_Some_conv)
  have n: "found = None" "publish_export e r n x w = (0, w')"
    using c by (auto simp: commit_export_def r f split: if_splits)
  from n(2) obtain w1 where
    d: "write_desktop_as_dev e (ex_file x) (desktop_content n (ex_key x) (ex_label x) (ex_icon x)) w = Some w1"
    and sv: "save_record w1 (push_export r x) = Some w'"
    by (rule publish_export_saved)
  have "storable_bench (push_export r x)" "bn_name (push_export r x) = n"
    using push_export_storable [OF _ x] wf_recordsD [OF wf r] by (simp_all add: push_export_def)
  then have "load_bench w' = (load_bench w)(n \<mapsto> push_export r x)"
    using save_record_load(1) [OF sv] load_bench_core [OF core_write_desktop [OF d]] by simp
  moreover have "dir_content (bw_apps w1) (ex_file x)
      = Some (desktop_content n (ex_key x) (ex_label x) (ex_icon x))"
    using d dir_content_write
    by (force simp: write_desktop_as_dev_def split: if_splits sum.splits)
  moreover have "bw_apps w' = bw_apps w1"
    using sv by (auto simp: save_record_def split: sum.splits)
  ultimately show ?thesis
    using that [OF r] f n(1) by simp
qed

lemma export_check_Inr:
  assumes "export_check r name key label icon workload = Some (Inr x)"
  shows "valid_bench_name key" "ex_key x = key" "ex_cmd x = workload" "ex_file x = export_file name key"
  using assms by (auto simp: export_check_def Option.bind_eq_Some_conv split: if_splits)

lemma precheck_export_Inr:
  assumes "precheck_export w rest = Some (Inr plan)"
  obtains key df icon label cmd where "ap_kind plan = ExportApp key df icon label cmd" "valid_bench_name key"
    "take 2 (ap_rows plan) = [(''Launcher key'', key), (''Runs command'', spaced cmd)]"
    "df = export_file (ap_bench plan) key"
proof -
  from assms obtain q where q: "export_args no_export rest = Inr q"
    by (auto simp: precheck_export_def split: sum.splits)
  from assms obtain name key where k: "er_name q = Some name" "er_key q = Some key"
    by (auto simp: precheck_export_def q split: option.splits)
  from assms obtain r where r: "load_bench w name = Some r"
    by (auto simp: precheck_export_def q k split: option.splits)
  from assms obtain c where c: "export_check r name key (er_label q) (er_icon q) (er_workload q) = Some c"
    by (auto simp: precheck_export_def q k r Option.bind_eq_Some_conv)
  from assms obtain x where x: "c = Inr x"
    by (cases c) (auto simp: precheck_export_def q k r c)
  note v = export_check_Inr [OF c [unfolded x]]
  have "plan = \<lparr>ap_bench = name,
      ap_rows = [(''Launcher key'', key), (''Runs command'', spaced (er_workload q)), (''Shown as'', ex_label x)],
      ap_trifecta = trifecta_after (record_has_fs r) (egress_profiles r \<noteq> []) False False,
      ap_kind = ExportApp key (ex_file x) (ex_icon x) (ex_label x) (er_workload q)\<rparr>"
    using assms by (simp only: precheck_export_def q k r c x sum.case prod.case option.case
        Option.bind.simps sum.inject option.inject)
  then show ?thesis
    using that v by simp
qed

text \<open>
  C26: An approved launcher runs what the human was shown, whenever it is clicked: the command of the
  screen is stored under its key, and running that export later runs exactly that command in that
  bench; the desktop file is the one rendered for it, and no other bench is touched.
\<close>

theorem export_commit_exact:
  assumes "precheck_authority e w ''export'' rest = Some (Inr plan)"
    and "commit_authority e' plan w1 = Some (0, w2)" and "wf_records w1"
    and "ap_kind plan = ExportApp key file icon label cmd"
    and "wf_export \<lparr>ex_key = key, ex_file = file, ex_icon = icon, ex_label = label, ex_cmd = cmd\<rparr>"
  shows "take 2 (ap_rows plan) = [(''Launcher key'', key), (''Runs command'', spaced cmd)]
    \<and> run_export e2 (ap_bench plan) key w2 = Some (run e2 (ap_bench plan) False cmd w2)
    \<and> dir_content (bw_apps w2) file = Some (desktop_content (ap_bench plan) key label icon)
    \<and> (\<forall>k. k = ap_bench plan \<or> load_bench w2 k = load_bench w1 k)"
proof -
  let ?x = "\<lparr>ex_key = key, ex_file = file, ex_icon = icon, ex_label = label, ex_cmd = cmd\<rparr>"
  have "precheck_export w rest = Some (Inr plan)"
    using assms(1) by (simp add: precheck_authority_def)
  then have k: "valid_bench_name key"
    "take 2 (ap_rows plan) = [(''Launcher key'', key), (''Runs command'', spaced cmd)]"
    by (rule precheck_export_Inr; use assms(4) in simp)+
  have "commit_export e' (ap_bench plan) ?x w1 = Some (0, w2)"
    using assms(2,4) by (simp add: commit_authority_def)
  then obtain r where r: "find_export (ex_key ?x) (bn_exports r) = Some None"
    "load_bench w2 = (load_bench w1)(ap_bench plan \<mapsto> push_export r ?x)"
    "dir_content (bw_apps w2) (ex_file ?x) = Some (desktop_content (ap_bench plan) (ex_key ?x) (ex_label ?x) (ex_icon ?x))"
    by (rule commit_export_saved [OF _ assms(3,5)])
  have "find_export key (bn_exports r @ [export_encode ?x]) = Some (Some ?x)"
    by (rule find_export_append) (use r(1) export_parse_encode [OF assms(5)] in simp_all)
  then have "run_export e2 (ap_bench plan) key w2 = Some (run e2 (ap_bench plan) False cmd w2)"
    using k(1) r(2) by (simp add: run_export_def push_export_def)
  then show ?thesis
    using k(2) r by simp
qed

subsection \<open>The approved plans on one bench\<close>

lemma sample_load: "load_bench (one_bench sample_bench) = [''media'' \<mapsto> sample_bench]"
  using one_bench_load [OF sample_storable] by (simp add: sample_bench_def)

lemma one_bench_parts [simp]: "bw_records (one_bench r) = stored_dir r" "bw_mounts (one_bench r) = []"
  "bw_apps (one_bench r) = empty_dir"
  by (simp_all add: one_bench_def)

lemma sample_save:
  assumes "storable_bench s" "bw_records w = stored_dir sample_bench"
  obtains w' where "write_or w s = (0, w')"
  using one_bench_save [OF sample_storable assms] that by (metis write_or_def option.case(2))

lemma sample_args: "valid_bench_name ''player''" "resolve ''pypi-https'' \<noteq> None"
  "validate_profile_set [''pypi-https''] = Inr [''pypi-https'']"
  "grant_target calm_env ''/home/dev/docs'' = Inr (''/home/dev/docs'', ''docs'')"
  "path_rel ''/home/dev/docs'' anchor_dir = Some [''docs'']" "line_ok ''/home/dev/docs''"
  "utf8_ok (str_join ''/'' [''docs''])" "\<not> grant_collides sample_bench ''/home/dev/docs'' ''docs''"
  "grant_args None None False [''media'', ''/home/dev/docs'', ''--rw''] = Inr (Some ''media'', Some ''/home/dev/docs'', True)"
  by code_simp+

theorem network_commit_exact_witness:
  "\<exists>plan w2 r. precheck_authority calm_env (one_bench sample_bench) ''network'' [''media'', ''pypi-https''] = Some (Inr plan)
     \<and> commit_authority calm_env plan (one_bench sample_bench) = Some (0, w2)
     \<and> load_bench w2 ''media'' = Some r \<and> egress_profiles r = [''pypi-https'']"
proof -
  let ?w = "one_bench sample_bench"
  obtain plan where pre: "precheck_network calm_env ?w [''media'', ''pypi-https''] = Inr plan"
    by (simp add: precheck_network_def sample_args sample_load)
  have st: "storable_bench (set_network sample_bench [''pypi-https''])"
    by (rule set_network_storable [OF sample_storable]) (simp add: sample_args)
  obtain w2 where "write_or ?w (set_network sample_bench [''pypi-https'']) = (0, w2)"
    by (rule sample_save [OF st, of ?w]) simp
  then have c: "commit_authority calm_env plan ?w = Some (0, w2)"
    using precheck_network_kind [OF pre]
    by (simp add: commit_authority_def commit_network_def sample_load sample_args)
  have p: "precheck_authority calm_env ?w ''network'' [''media'', ''pypi-https''] = Some (Inr plan)"
    by (simp add: precheck_authority_def pre)
  from network_commit_exact [OF p c one_bench_wf [OF sample_storable]] p c show ?thesis by auto
qed

lemma calm: "be_anchor calm_env" "be_prepare calm_env i" "be_asdev calm_env"
  "be_pin calm_env rel = Some (\<lparr>id_dev_major = 8, id_dev_minor = 1, id_ino = 42\<rparr>, True)"
  "be_relocate calm_env rw obj t"
  by (simp_all add: calm_env_def)


lemma player_args:
  "export_args no_export [''media'', ''player'', ''--'', ''mpv'', ''a b''] =
     Inr \<lparr>er_name = Some ''media'', er_key = Some ''player'', er_label = None, er_icon = None, er_workload = [''mpv'', ''a b'']\<rparr>"
  "export_check sample_bench ''media'' ''player'' None None [''mpv'', ''a b''] =
     Some (Inr \<lparr>ex_key = ''player'', ex_file = ''shrek-bench-media-player.desktop'', ex_icon = ''application-x-executable'',
       ex_label = ''media: player'', ex_cmd = [''mpv'', ''a b'']\<rparr>)"
  "wf_export \<lparr>ex_key = ''player'', ex_file = ''shrek-bench-media-player.desktop'', ex_icon = ''application-x-executable'',
       ex_label = ''media: player'', ex_cmd = [''mpv'', ''a b'']\<rparr>"
  "find_export ''player'' (bn_exports sample_bench) = Some None"
  by code_simp+

theorem export_commit_exact_witness:
  "\<exists>plan w2. precheck_authority calm_env (one_bench sample_bench) ''export'' [''media'', ''player'', ''--'', ''mpv'', ''a b''] = Some (Inr plan)
     \<and> commit_authority calm_env plan (one_bench sample_bench) = Some (0, w2)
     \<and> run_export calm_env ''media'' ''player'' w2 = Some (run calm_env ''media'' False [''mpv'', ''a b''] w2)"
proof -
  let ?w = "one_bench sample_bench"
  let ?x = "\<lparr>ex_key = ''player'', ex_file = ''shrek-bench-media-player.desktop'', ex_icon = ''application-x-executable'',
       ex_label = ''media: player'', ex_cmd = [''mpv'', ''a b'']\<rparr>"
  have "\<exists>plan. precheck_export ?w [''media'', ''player'', ''--'', ''mpv'', ''a b''] = Some (Inr plan)
      \<and> ap_bench plan = ''media'' \<and> ap_kind plan = ExportApp ''player'' ''shrek-bench-media-player.desktop''
        ''application-x-executable'' ''media: player'' [''mpv'', ''a b'']"
    by (simp only: precheck_export_def player_args sample_load sum.case prod.case option.case
        Option.bind.simps fun_upd_same export_request.select_convs export.select_convs
        sum.inject option.inject) simp
  then obtain plan where pre: "precheck_export ?w [''media'', ''player'', ''--'', ''mpv'', ''a b''] = Some (Inr plan)"
    and k: "ap_bench plan = ''media''" "ap_kind plan = ExportApp ''player'' ''shrek-bench-media-player.desktop''
        ''application-x-executable'' ''media: player'' [''mpv'', ''a b'']"
    by (elim exE conjE)
  let ?d = "(empty_dir\<lparr>d_files := [(ex_file ?x, desktop_content ''media'' (ex_key ?x) (ex_label ?x) (ex_icon ?x))]\<rparr>)"
  let ?w1 = "?w\<lparr>bw_apps := ?d\<rparr>"
  have st: "storable_bench (push_export sample_bench ?x)"
    by (rule push_export_storable [OF sample_storable player_args(3)])
  obtain w2 where "write_or ?w1 (push_export sample_bench ?x) = (0, w2)"
    by (rule sample_save [OF st, of ?w1]) simp
  then have sv: "save_record ?w1 (push_export sample_bench ?x) = Some w2"
    by (rule write_or_saved)
  have wd: "write_desktop_as_dev calm_env (ex_file ?x)
      (desktop_content ''media'' (ex_key ?x) (ex_label ?x) (ex_icon ?x)) ?w = Some ?w1"
    unfolding write_desktop_as_dev_def calm one_bench_parts
    by (simp add: calm empty_dir_def dir_content_def atomic_write_def)
  have "publish_export calm_env sample_bench ''media'' ?x ?w = (0, w2)"
    unfolding publish_export_def wd option.case sv ..
  then have c: "commit_authority calm_env plan ?w = Some (0, w2)"
    by (simp only: commit_authority_def k commit_kind.case commit_export_def sample_load fun_upd_same option.case
        export.select_convs player_args(4) Option.bind.simps simp_thms if_False)
  have p: "precheck_authority calm_env ?w ''export'' [''media'', ''player'', ''--'', ''mpv'', ''a b''] = Some (Inr plan)"
    by (simp add: precheck_authority_def pre)
  from export_commit_exact [OF p c one_bench_wf [OF sample_storable] k(2) player_args(3), of calm_env] p c k(1)
  show ?thesis by auto
qed

end
