(* ===== verification/Bench_Teardown.thy ===== *)
theory Bench_Teardown
  imports Bench_Commit
begin

text \<open>
  What a run starts and what tearing down reaches: the commands of a networked run and the gates in
  front of them, the grants a destroyed bench leaves alone, and the ephemeral benches of the workshop
  plane, whose names are not kept apart from the names users choose.
\<close>

section \<open>The commands of a networked run\<close>

lemma podman_log: "podman e a w = (c, w1) \<Longrightarrow> bw_log w1 = bw_log w @ [a]"
  by (auto simp: podman_def)

lemma save_ignoring_parts [simp]:
  "bw_log (save_ignoring w r) = bw_log w" "bw_net (save_ignoring w r) = bw_net w"
  "bw_data (save_ignoring w r) = bw_data w" "bw_mounts (save_ignoring w r) = bw_mounts w"
  "bw_wiped (save_ignoring w r) = bw_wiped w"
  by (simp_all add: save_ignoring_def save_record_def split: sum.splits)

lemma stop_bench_parts [simp]:
  "bw_log (stop_bench r w) = bw_log w" "bw_net (stop_bench r w) = bw_net w" "bw_data (stop_bench r w) = bw_data w"
  by (simp_all add: stop_bench_def)

lemma net_parts [simp]:
  "bw_log (net_down i w) = bw_log w" "bw_log (net_up i ps w) = bw_log w"
  "bw_data (net_down i w) = bw_data w" "bw_data (net_up i ps w) = bw_data w"
  "map_of (bw_net (net_down i w)) (net_id i) = None"
  by (simp_all add: net_down_def net_up_def delete_conv)

lemma podman_parts [simp]:
  "bw_log (podman_rm e n w) = bw_log w @ [[''rm'', ''-f'', ''-t'', ''0'', ''shrek-bench-'' @ n]]"
  "bw_log (snd (podman e a w)) = bw_log w @ [a]" "fst (podman e a w) = be_podman e a"
  "bw_net (podman_rm e n w) = bw_net w" "bw_net (snd (podman e a w)) = bw_net w"
  "bw_data (podman_rm e n w) = bw_data w" "bw_data (snd (podman e a w)) = bw_data w"
  "bw_mounts (podman_rm e n w) = bw_mounts w" "bw_mounts (snd (podman e a w)) = bw_mounts w"
  "bw_wiped (podman_rm e n w) = bw_wiped w" "bw_wiped (snd (podman e a w)) = bw_wiped w"
  by (simp_all add: podman_rm_def podman_def)

definition idle_run :: "bench_record \<Rightarrow> string \<Rightarrow> fs_bind list \<Rightarrow> string list" where
  "idle_run r img binds =
     podman_run_argv \<lparr>rs_name = bn_name r, rs_data = data_dir (bn_name r), rs_image = img, rs_interactive = False,
       rs_detached = True, rs_remove = False, rs_hosts_bind = Some (hosts_file (bn_id r)), rs_fs_binds = binds,
       rs_workload = [''sleep'', ''infinity'']\<rparr>"

definition rm_run :: "bench_record \<Rightarrow> string list" where
  "rm_run r = [''rm'', ''-f'', ''-t'', ''0'', ''shrek-bench-'' @ bn_name r]"

definition workload_runs :: "bench_record \<Rightarrow> bool \<Rightarrow> string list \<Rightarrow> string list list" where
  "workload_runs r interactive wl =
     (let ctr = ''shrek-bench-'' @ bn_name r in
      if interactive then [podman_exec_argv ctr True [''/bin/sh''], [''stop'', ''-t'', ''2'', ctr]]
      else [podman_exec_argv ctr False wl])"

definition mediated :: "bench_env \<Rightarrow> bench_record \<Rightarrow> bool" where
  "mediated e r \<longleftrightarrow>
     \<not> list_ex (\<lambda>p. resolve p = None) (egress_profiles r) \<and> be_resolve e (egress_profiles r) \<noteq> None
     \<and> be_hosts e (bn_id r) \<and> be_pid e (bn_name r) \<and> be_distinct e (bn_name r)
     \<and> be_inject e (net_id (bn_id r)) \<and> be_attached e (net_id (bn_id r))"

lemma run_workload_log:
  "bw_log (snd (run_workload e r i wl w)) = bw_log w @ workload_runs r i wl @ [rm_run r]
   \<and> map_of (bw_net (snd (run_workload e r i wl w))) (net_id (bn_id r)) = None
   \<and> bw_data (snd (run_workload e r i wl w)) = bw_data w"
  by (cases i) (simp_all add: run_workload_def workload_runs_def rm_run_def Let_def split_def)

lemma net_fail_log:
  "bw_log (snd (net_fail e r w)) = bw_log w @ [rm_run r]
   \<and> map_of (bw_net (snd (net_fail e r w))) (net_id (bn_id r)) = None
   \<and> bw_data (snd (net_fail e r w)) = bw_data w"
  by (simp add: net_fail_def rm_run_def)

lemma run_networked_log:
  fixes e r i img ps binds wl w
  defines "w' \<equiv> snd (run_networked e r i (data_dir (bn_name r)) img ps binds wl w)"
  assumes "ps = egress_profiles r"
  shows "bw_log w' \<in> {bw_log w, bw_log w @ [idle_run r img binds, rm_run r]}
     \<and> map_of (bw_net w') (net_id (bn_id r)) \<in> {None, map_of (bw_net w) (net_id (bn_id r))}
    \<or> mediated e r \<and> bw_log w' = bw_log w @ [idle_run r img binds] @ workload_runs r i wl @ [rm_run r]
     \<and> map_of (bw_net w') (net_id (bn_id r)) = None"
proof -
  let ?a = "idle_run r img binds"
  define v where "v = save_ignoring (net_down (bn_id r) w) (r\<lparr>bn_state := ''running''\<rparr>)"
  define w2 where "w2 = snd (podman e ?a v)"
  have eq: "run_networked e r i (data_dir (bn_name r)) img ps binds wl w =
     (if list_ex (\<lambda>p. resolve p = None) ps then (1, w)
      else if be_resolve e ps = None then (1, w)
      else if \<not> be_prepare e (bn_id r) \<or> \<not> be_hosts e (bn_id r) then (1, w)
      else if be_podman e ?a \<noteq> 0 then net_fail e r w2
      else if \<not> be_pid e (bn_name r) then net_fail e r w2
      else if \<not> be_distinct e (bn_name r) then net_fail e r w2
      else if \<not> be_inject e (net_id (bn_id r)) then net_fail e r w2
      else if \<not> be_attached e (net_id (bn_id r)) then net_fail e r (net_up (bn_id r) ps w2)
      else run_workload e r i wl (net_up (bn_id r) ps w2))"
    unfolding run_networked_def Let_def idle_run_def [symmetric] v_def [symmetric] split_def w2_def podman_parts ..
  have l: "bw_log w2 = bw_log w @ [?a]" by (simp add: w2_def v_def)
  show ?thesis
    unfolding w'_def eq unfolding assms(2) by (simp add: net_fail_log run_workload_log mediated_def l)
qed

lemma relocate_mounts: "relocate e w rw obj t = Some w' \<Longrightarrow> \<exists>ms. w' = w\<lparr>bw_mounts := ms\<rparr>"
  by (auto simp: relocate_def split: if_splits)

lemma materialize_one_mounts: "materialize_one e w rw src t = Some w' \<Longrightarrow> \<exists>ms. w' = w\<lparr>bw_mounts := ms\<rparr>"
  using relocate_mounts [of e w rw _ t w']
  by (fastforce simp: materialize_one_def split: option.splits if_splits prod.splits
      intro: exI [of _ "bw_mounts w"])

lemma materialize_loop_mounts: "\<exists>ms. snd (materialize_loop e i gs w) = w\<lparr>bw_mounts := ms\<rparr>"
proof (induction e i gs w rule: materialize_loop.induct)
  case (2 e i rw path gs w)
  have same: "\<exists>ms. w = w\<lparr>bw_mounts := ms\<rparr>" by (rule exI [of _ "bw_mounts w"]) simp
  show ?case
  proof (cases "fs_leaf path")
    case (Some leaf)
    show ?thesis
    proof (cases "materialize_one e w rw path (path_join (grants_dir i) leaf)")
      case None
      then show ?thesis using same Some by simp
    next
      case m: (Some w1)
      obtain ms where "w1 = w\<lparr>bw_mounts := ms\<rparr>" using materialize_one_mounts [OF m] ..
      then show ?thesis using "2.IH" [OF Some m] by (auto simp: Some m)
    qed
  qed (use same in simp)
next
  case (1 e i w)
  show ?case by (rule exI [of _ "bw_mounts w"]) simp
qed

lemma ensure_grants_mounts:
  obtains ms where "snd (ensure_grants_materialized e r w) = w\<lparr>bw_mounts := ms\<rparr>"
proof (cases "record_has_fs r \<and> \<not> be_prepare e (bn_id r)")
  case True
  then show ?thesis using that [of "bw_mounts w"] by (simp add: ensure_grants_materialized_def)
next
  case False
  then show ?thesis
    using that materialize_loop_mounts [of e "bn_id r" "fs_grants (bn_grants r)" w]
    by (auto simp: ensure_grants_materialized_def)
qed

definition seed_loads :: "string \<Rightarrow> string list list" where
  "seed_loads seed =
     [[''load'', ''-i'', ''/usr/share/shrek/bench/seeds/''
        @ (case seed_lookup seed of Some s \<Rightarrow> seed_tar s | None \<Rightarrow> ''scratch.tar'')]]"

lemma ensure_seed_parts:
  "bw_log (ensure_seed e s w) \<in> {bw_log w, bw_log w @ seed_loads s}"
  "bw_net (ensure_seed e s w) = bw_net w" "bw_data (ensure_seed e s w) = bw_data w"
  "bw_mounts (ensure_seed e s w) = bw_mounts w" "bw_wiped (ensure_seed e s w) = bw_wiped w"
  by (auto simp: ensure_seed_def Let_def podman_def seed_loads_def)


definition web_bench :: bench_record where
  "web_bench = sample_bench\<lparr>bn_grants := [''net pypi-https'']\<rparr>"

lemma web_storable: "storable_bench web_bench" "egress_profiles web_bench = [''pypi-https'']"
  by code_simp+


section \<open>Destroying a bench\<close>

lemma quota_parts [simp]:
  "bw_wiped (snd (apply_quota e w p k)) = bw_wiped w" "bw_mounts (snd (apply_quota e w p k)) = bw_mounts w"
  "bw_data (snd (apply_quota e w p k)) = bw_data w" "bw_records (snd (apply_quota e w p k)) = bw_records w"
  by (simp_all add: apply_quota_def)

lemma net_mounts [simp]:
  "bw_mounts (net_down i w) = bw_mounts w" "bw_wiped (net_down i w) = bw_wiped w"
  by (simp_all add: net_down_def)

lemma remove_desktop_parts [simp]:
  "bw_mounts (remove_desktop_as_dev e f w) = bw_mounts w" "bw_wiped (remove_desktop_as_dev e f w) = bw_wiped w"
  "bw_data (remove_desktop_as_dev e f w) = bw_data w"
  by (simp_all add: remove_desktop_as_dev_def split: sum.splits)

lemma sweep_parts:
  "sweep_exports e ls w = Some w' \<Longrightarrow> bw_mounts w' = bw_mounts w \<and> bw_wiped w' = bw_wiped w \<and> bw_data w' = bw_data w"
proof (induction e ls w rule: sweep_exports.induct)
  case (2 e l ls w)
  then obtain x where x: "export_parse l = Some x" by (auto simp: Option.bind_eq_Some_conv)
  then show ?case using 2 by (cases x) simp_all
qed simp

lemma destroy_steps:
  assumes "destroy e n w = Some (rc, w')" "load_bench w n = Some r"
  obtains w1 where "bw_mounts w1 = bw_mounts w" "bw_wiped w1 = bw_wiped w" "bw_data w1 = bw_data w"
    "bw_wiped w' = bw_wiped (remove_run_dir (bn_id r) (unmount_grants e r w1))"
    "bw_mounts w' = bw_mounts (unmount_grants e r w1)"
    "bw_data w' = AList.delete (data_dir n) (bw_data w)"
proof -
  obtain w0 where w0: "sweep_exports e (bn_exports r) w = Some w0"
    using assms by (auto simp: destroy_def Option.bind_eq_Some_conv)
  define w1 where "w1 = net_down (bn_id r) (podman_rm e n w0)"
  define w3 where "w3 = snd (apply_quota e (remove_run_dir (bn_id r) (unmount_grants e r w1)) (bn_project r) 0)"
  define w4 where "w4 = w3\<lparr>bw_data := AList.delete (data_dir n) (bw_data w3)\<rparr>"
  have w': "w' = (case bench_remove_record (bw_records w4) n of Inl _ \<Rightarrow> w4 | Inr d \<Rightarrow> w4\<lparr>bw_records := d\<rparr>)"
    using assms(1) by (simp only: destroy_def assms(2) option.case w0 Option.bind.simps Let_def option.inject prod.inject
        w1_def w3_def w4_def)
  have d: "bw_data (unmount_grants e r v) = bw_data v" "bw_data (remove_run_dir i v) = bw_data v"
    "bw_mounts (remove_run_dir i v) = bw_mounts v" for v i
    by (simp_all add: unmount_grants_def remove_run_dir_def)
  note s = sweep_parts [OF w0]
  show ?thesis
    by (rule that [of w1])
      (simp_all add: w' w4_def w3_def w1_def s d split: sum.splits)
qed

text \<open>
  Destroying a bench does not reach through its grants: when what is mounted below its run
  directory are its own grants and the kernel lets them be detached, the recursive removal of that
  directory empties no host directory, and no mount of the bench is left.
\<close>

theorem destroy_spares_granted_directories:
  assumes "destroy e n w = Some (rc, w')" "load_bench w n = Some r"
    and "\<forall>m \<in> set (bw_mounts w). path_starts_with (fst m) (bench_run_dir (bn_id r))
          \<longrightarrow> fst m \<in> fb_target ` set (fs_binds_for r) \<and> be_umount e (fst m)"
  shows "bw_wiped w' = bw_wiped w
    \<and> filter (\<lambda>m. path_starts_with (fst m) (bench_run_dir (bn_id r))) (bw_mounts w') = []"
proof -
  from destroy_steps [OF assms(1,2)] obtain w1 where w1: "bw_mounts w1 = bw_mounts w" "bw_wiped w1 = bw_wiped w"
    "bw_wiped w' = bw_wiped (remove_run_dir (bn_id r) (unmount_grants e r w1))"
    "bw_mounts w' = bw_mounts (unmount_grants e r w1)" .
  have none: "filter (\<lambda>m. path_starts_with (fst m) (bench_run_dir (bn_id r))) (bw_mounts (unmount_grants e r w1)) = []"
    using assms(3) w1(1) by (auto simp: unmount_grants_def filter_empty_conv)
  then have "filter (\<lambda>m. snd (snd m) \<and> path_starts_with (fst m) (bench_run_dir (bn_id r))) (bw_mounts (unmount_grants e r w1)) = []"
    by (auto simp: filter_empty_conv)
  moreover have "bw_wiped (unmount_grants e r w1) = bw_wiped w"
    by (simp add: unmount_grants_def w1(2))
  ultimately show ?thesis
    using none by (simp only: w1(3,4) remove_run_dir_def bench_world.simps) simp
qed

definition docs_bench :: bench_record where
  "docs_bench = sample_bench\<lparr>bn_grants := [''fs-rw /home/dev/docs'']\<rparr>"

definition docs_mount :: "string \<times> ident \<times> bool" where
  "docs_mount = (path_join (grants_dir ''media'') ''docs'', \<lparr>id_dev_major = 8, id_dev_minor = 1, id_ino = 42\<rparr>, True)"

lemma docs_facts: "storable_bench docs_bench" "fst docs_mount \<in> fb_target ` set (fs_binds_for docs_bench)"
  "path_starts_with (fst docs_mount) (bench_run_dir ''media'')"
  by code_simp+

lemma docs_load: "load_bench (one_bench docs_bench\<lparr>bw_mounts := ms\<rparr>) = [''media'' \<mapsto> docs_bench]"
  using one_bench_load [OF docs_facts(1)]
    load_bench_core [of "one_bench docs_bench\<lparr>bw_mounts := ms\<rparr>" "one_bench docs_bench", OF core_update(1)]
  by (simp add: docs_bench_def sample_bench_def)

theorem destroy_spares_granted_directories_witness:
  "\<exists>rc w'. destroy calm_env ''media'' (one_bench docs_bench\<lparr>bw_mounts := [docs_mount]\<rparr>) = Some (rc, w')
     \<and> bw_wiped w' = [] \<and> docs_mount \<notin> set (bw_mounts w')"
proof -
  let ?w = "one_bench docs_bench\<lparr>bw_mounts := [docs_mount]\<rparr>"
  have l: "load_bench ?w ''media'' = Some docs_bench" by (simp add: docs_load)
  have "bn_exports docs_bench = []" by (simp add: docs_bench_def sample_bench_def)
  then obtain rc w' where d: "destroy calm_env ''media'' ?w = Some (rc, w')"
    by (simp add: destroy_def l Let_def)
  have i: "bn_id docs_bench = ''media''" by (simp add: docs_bench_def sample_bench_def)
  have "\<forall>m \<in> set (bw_mounts ?w). path_starts_with (fst m) (bench_run_dir (bn_id docs_bench))
      \<longrightarrow> fst m \<in> fb_target ` set (fs_binds_for docs_bench) \<and> be_umount calm_env (fst m)"
    using docs_facts(2) by (simp add: calm_env_def)
  from destroy_spares_granted_directories [OF d l this] docs_facts(3) d
  show ?thesis by (auto simp: filter_empty_conv i one_bench_def)
qed

section \<open>Ephemeral benches\<close>

lemma materialize_data: "bw_data (snd (ensure_grants_materialized e r w)) = bw_data w"
proof -
  obtain ms where "snd (ensure_grants_materialized e r w) = w\<lparr>bw_mounts := ms\<rparr>"
    by (rule ensure_grants_mounts)
  then show ?thesis by simp
qed

lemma run_networked_data: "bw_data (snd (run_networked e r i d img ps binds wl w)) = bw_data w"
  by (simp add: run_networked_def Let_def split_def net_fail_log run_workload_log)

lemma run_from_data: "bw_data (snd (run_from e n i wl override w)) = bw_data w"
proof (cases "load_bench w n")
  case (Some r)
  obtain ok w2 where g: "ensure_grants_materialized e r (ensure_seed e (bn_seed r) w) = (ok, w2)"
    by (rule prod.exhaust)
  have "bw_data w2 = bw_data w"
    using materialize_data [of e r "ensure_seed e (bn_seed r) w"] g by (simp add: ensure_seed_parts)
  then show ?thesis
    by (simp add: run_from_def Some Let_def g run_networked_data split_def)
qed (simp add: run_from_def)

definition no_files :: "bench_world \<Rightarrow> string \<Rightarrow> bool" where
  "no_files w d \<longleftrightarrow> map_of (bw_data w) d \<in> {None, Some []}"

lemma create_fail_data: "no_files w d \<Longrightarrow> no_files (snd (create_fail e p d w)) d"
  by (simp add: no_files_def create_fail_def Let_def delete_conv)

lemma save_record_data: "save_record w r = Some w' \<Longrightarrow> bw_data w' = bw_data w"
  by (auto simp: save_record_def split: sum.splits)

lemma create_data: "no_files w (data_dir n) \<Longrightarrow> no_files (snd (create e n q s w)) (data_dir n)"
proof -
  assume nf: "no_files w (data_dir n)"
  define w1 where "w1 = (if map_of (bw_data w) (data_dir n) = None then w\<lparr>bw_data := (data_dir n, []) # bw_data w\<rparr> else w)"
  obtain ok w2 where q: "apply_quota e w1 (next_project_id (records w)) q = (ok, w2)" by (rule prod.exhaust)
  have w1: "no_files w1 (data_dir n)" using nf by (simp add: w1_def no_files_def)
  then have w2: "no_files w2 (data_dir n)"
    using quota_parts(3) [of e w1 "next_project_id (records w)" q] q by (simp add: no_files_def)
  have w3: "no_files w3 (data_dir n)" if "save_record w2 r = Some w3" for r w3
    using w2 save_record_data [OF that] by (simp add: no_files_def)
  show ?thesis
    unfolding create_def Let_def w1_def [symmetric] q
    by (simp add: nf create_fail_data w1 w2 w3 split: option.splits)
qed

lemma launch_workload_data:
  "no_files w (data_dir n) \<Longrightarrow> no_files (snd (run_launch_workload e n s gs ov wl w)) (data_dir n)"
proof -
  assume nf: "no_files w (data_dir n)"
  obtain rc w1 where c: "create e n 4194304 s w = (rc, w1)" by (rule prod.exhaust)
  have w1: "no_files w1 (data_dir n)" using create_data [OF nf, of e 4194304 s] c by simp
  have "no_files (snd (run_from e n False wl ov w2)) (data_dir n)" if "save_record w1 r = Some w2" for r w2
    using w1 save_record_data [OF that] by (simp add: no_files_def run_from_data)
  then show ?thesis
    by (simp add: run_launch_workload_def Let_def c w1 split: option.splits)
qed

lemma destroy_data:
  assumes "destroy e n w = Some (rc, w')" "load_bench w n \<noteq> None \<or> no_files w (data_dir n)"
  shows "no_files w' (data_dir n)"
proof (cases "load_bench w n")
  case None
  then show ?thesis using assms by (simp add: destroy_def)
next
  case (Some r)
  from destroy_steps [OF assms(1) Some] show ?thesis
    by (metis (no_types, lifting) delete_conv fun_upd_same insertI1 no_files_def)
qed

text \<open>
  A launch takes the bench named \<open>wl-\<close> and the workshop's name for its own: a bench the user
  created under that name is destroyed before the workload runs and again after it, and nothing of its
  files is left.  Creating a bench of such a name is not refused.
\<close>

theorem launch_erases_a_users_bench:
  assumes "load_bench w (''wl-'' @ ws) = Some r" "map_of (bw_data w) (data_dir (''wl-'' @ ws)) = Some files"
    and "valid_seed s" "workload \<noteq> []"
    and "commit_launch e ws s [] [] grants workload refresh offline w = Some (rc, w')"
  shows "map_of (bw_data w') (data_dir (''wl-'' @ ws)) \<in> {None, Some []}"
proof -
  let ?n = "launch_name ws"
  let ?g = "if offline then filter (\<lambda>g. \<not> is_net g) grants else grants"
  have n: "''wl-'' @ ws = ?n" by (simp only: launch_name_def)
  have v: "valid_bench_name ?n"
    using assms(1) bench_load_name unfolding n load_bench_def by blast
  from assms(5) obtain r2 w2 where d1: "destroy e ?n w = Some (r2, w2)"
    using v assms(3,4) by (auto simp: commit_launch_def launch_image_def Option.bind_eq_Some_conv)
  obtain rc3 w3 where l: "run_launch_workload e ?n s ?g None workload w2 = (rc3, w3)" by (rule prod.exhaust)
  obtain r4 w4 where d2: "destroy e ?n w3 = Some (r4, w4)" and w': "w' = w4"
    using assms(5) v assms(3,4) by (auto simp: commit_launch_def launch_image_def d1 l Option.bind_eq_Some_conv)
  have "no_files w2 (data_dir ?n)" using destroy_data [OF d1] assms(1) unfolding n by simp
  then have "no_files w3 (data_dir ?n)" using launch_workload_data l by (metis snd_conv)
  then have "no_files w4 (data_dir ?n)" using destroy_data [OF d2] by simp
  then show ?thesis unfolding n w' no_files_def .
qed

lemma destroy_no_exports: "exports_of w n = {} \<Longrightarrow> \<exists>rc w'. destroy e n w = Some (rc, w')"
  by (auto simp: destroy_def exports_of_def Let_def split: option.splits)

definition tex_bench :: bench_record where
  "tex_bench = docs_bench\<lparr>bn_name := ''wl-tex'', bn_id := ''wl-tex''\<rparr>"

definition tex_world :: bench_world where
  "tex_world = one_bench tex_bench\<lparr>bw_data := [(data_dir ''wl-tex'', [''thesis.tex''])]\<rparr>"

lemma tex_facts: "storable_bench tex_bench" "bn_name tex_bench = ''wl-tex''" "bn_exports tex_bench = []"
  "valid_bench_name ''wl-tex''" "valid_seed ''scratch''"
  by code_simp+

lemma tex_load: "load_bench tex_world = [''wl-tex'' \<mapsto> tex_bench]" "wf_records tex_world"
proof -
  have c: "core tex_world = core (one_bench tex_bench)"
    unfolding tex_world_def by (rule core_update)
  show "load_bench tex_world = [''wl-tex'' \<mapsto> tex_bench]"
    using load_bench_core [OF c] one_bench_load [OF tex_facts(1)] tex_facts(2) by simp
  show "wf_records tex_world"
    using core_same [OF c] one_bench_wf [OF tex_facts(1)] by (simp add: same_auth_def)
qed

theorem launch_erases_a_users_bench_witness:
  "\<exists>rc w'. commit_launch (calm_env\<lparr>be_mkdir := (\<lambda>_. False)\<rparr>) ''tex'' ''scratch'' [] [] [] [''true''] False False tex_world
       = Some (rc, w')
     \<and> map_of (bw_data tex_world) (data_dir ''wl-tex'') = Some [''thesis.tex'']
     \<and> map_of (bw_data w') (data_dir ''wl-tex'') \<in> {None, Some []}"
proof -
  let ?e = "calm_env\<lparr>be_mkdir := (\<lambda>_. False)\<rparr>"
  have n: "launch_name ''tex'' = ''wl-tex''" by (simp add: launch_name_def)
  have "exports_of tex_world ''wl-tex'' = {}" by (simp add: exports_of_def tex_load(1) tex_facts(3))
  then obtain r2 w2 where d1: "destroy ?e ''wl-tex'' tex_world = Some (r2, w2)"
    using destroy_no_exports by blast
  have e2: "exports_of w2 ''wl-tex'' = {}"
    using destroy_quiet [OF d1] tex_load(2) \<open>exports_of tex_world ''wl-tex'' = {}\<close>
    by (auto simp: quiet_def)
  have "core (snd (create ?e ''wl-tex'' 4194304 ''scratch'' w2)) = core w2
      \<and> fst (create ?e ''wl-tex'' 4194304 ''scratch'' w2) \<noteq> 0"
    by (simp add: create_def tex_facts Let_def create_fail_core) (simp add: create_fail_def Let_def)
  then obtain r3 w3 where l: "run_launch_workload ?e ''wl-tex'' ''scratch'' [] None [''true''] w2 = (r3, w3)"
      and c: "core w3 = core w2"
    by (cases "create ?e ''wl-tex'' 4194304 ''scratch'' w2") (simp add: run_launch_workload_def)
  have "exports_of w3 ''wl-tex'' = {}" using e2 load_bench_core [OF c] by (simp add: exports_of_def)
  then obtain r4 w4 where d2: "destroy ?e ''wl-tex'' w3 = Some (r4, w4)"
    using destroy_no_exports by blast
  have cl: "commit_launch ?e ''tex'' ''scratch'' [] [] [] [''true''] False False tex_world = Some (r3, w4)"
    by (simp add: commit_launch_def launch_image_def n tex_facts d1 l d2)
  have x: "''wl-'' @ ''tex'' = ''wl-tex''" by simp
  have f: "map_of (bw_data tex_world) (data_dir ''wl-tex'') = Some [''thesis.tex'']"
    by (simp add: tex_world_def)
  have "load_bench tex_world ''wl-tex'' = Some tex_bench" by (simp add: tex_load(1))
  from launch_erases_a_users_bench [where ws = "''tex''", unfolded x, OF this f tex_facts(5) _ cl] cl f
  show ?thesis by simp
qed

end
