(* ===== verification/Bench_Workshop.thy ===== *)
theory Bench_Workshop
  imports Bench_Teardown
begin

text \<open>
  Recipes and desktop egress requests: what a promotion records, what a launch of it asks for, what a
  derivation reaches, and what an approved owner manifest becomes.
\<close>

section \<open>Promoting a bench\<close>

lemma workshop_write_storable:
  "storable_workshop r \<Longrightarrow> workshop_write_record d r = atomic_write d (ws_name r) (workshop_to_wire r)"
proof -
  assume st: "storable_workshop r"
  have "\<not> list_ex (\<lambda>v. nl \<in> set v) (ws_grants r @ ws_exports r)"
    using st by (intro line_ok_newline) (simp add: storable_workshop_def)
  moreover have "\<not> list_ex (\<lambda>p. \<not> valid_pkg_token p) (ws_apt r @ ws_pip r)"
    using st by (auto simp: storable_workshop_def list_ex_iff list_all_iff)
  ultimately show ?thesis
    using st by (simp add: workshop_write_record_def storable_workshop_def del: list_ex_append)
qed

lemma workshop_load_write:
  "storable_workshop r \<Longrightarrow> workshop_write_record d r = Inr d' \<Longrightarrow>
     workshop_load_record d' k = (if k = ws_name r then Some r else workshop_load_record d k)"
  unfolding workshop_load_eq using workshops.load_write_eq by (simp add: workshop_write_storable)

lemma precheck_promote_Inr:
  assumes "precheck_promote w rest = Some (Inr plan)"
  obtains ws apt pip r where "valid_bench_name ws" "list_all valid_pkg_token apt" "list_all valid_pkg_token pip"
    "load_bench w (ap_bench plan) = Some r" "valid_seed (bn_seed r)"
    "ap_kind plan = Promote ws (bn_seed r) apt pip (bn_grants r) (bn_exports r)"
proof -
  from assms obtain q where q: "promote_args no_promote rest = Inr q"
    by (auto simp: precheck_promote_def split: sum.splits)
  from assms obtain bench ws where k: "pq_bench q = Some bench" "pq_ws q = Some ws"
    by (auto simp: precheck_promote_def q split: option.splits)
  have v: "valid_bench_name ws"
    using assms by (cases "valid_bench_name ws") (simp_all add: precheck_promote_def q k)
  have t: "\<not> list_ex (\<lambda>p. \<not> valid_pkg_token p) (pq_apt q @ pq_pip q)"
    using assms by (cases "list_ex (\<lambda>p. \<not> valid_pkg_token p) (pq_apt q @ pq_pip q)")
      (simp_all only: precheck_promote_def q k v sum.case prod.case option.case simp_thms if_True if_False
        option.inject sum.distinct)
  have u: "\<not> (has_duplicate (pq_apt q) \<or> has_duplicate (pq_pip q))"
    using assms by (cases "has_duplicate (pq_apt q) \<or> has_duplicate (pq_pip q)")
      (simp_all only: precheck_promote_def q k v t sum.case prod.case option.case simp_thms if_True if_False
        option.inject sum.distinct)
  from assms obtain r where r: "load_bench w bench = Some r"
    by (cases "load_bench w bench") (simp_all only: precheck_promote_def q k v t u sum.case prod.case option.case
        simp_thms if_True if_False option.inject sum.distinct)
  have s: "valid_seed (bn_seed r)"
    using assms by (cases "valid_seed (bn_seed r)")
      (simp_all only: precheck_promote_def q k v t u r sum.case prod.case option.case
        simp_thms if_True if_False option.inject sum.distinct)
  from assms obtain ls where l: "launcher_rows (bn_exports r) = Some ls"
    by (cases "launcher_rows (bn_exports r)") (simp_all only: precheck_promote_def q k v t u r s sum.case
        prod.case option.case simp_thms if_True if_False Option.bind.simps option.distinct)
  have "ap_bench plan = bench \<and> ap_kind plan = Promote ws (bn_seed r) (pq_apt q) (pq_pip q) (bn_grants r) (bn_exports r)"
    using assms
    by (simp only: precheck_promote_def q k v t u r s l sum.case prod.case option.case simp_thms if_True if_False
        Option.bind.simps option.inject sum.inject) auto
  then show ?thesis
    using that [OF v _ _ _ s] r t by (auto simp: list_ex_iff list_all_iff)
qed

text \<open>
  Promoting a bench records a recipe and gives nothing: the recipe loads back with the seed, the
  grants and the exports of the bench and the packages named, every other recipe is as it was, and
  no bench record changes.
\<close>

theorem promote_commit_exact:
  assumes "precheck_authority e w ''promote'' rest = Some (Inr plan)" and "wf_records w"
    and "commit_authority e' plan w1 = Some (0, w2)"
  shows "\<exists>ws apt pip r. load_bench w (ap_bench plan) = Some r
    \<and> workshop_load_record (bw_workshops w2) = (workshop_load_record (bw_workshops w1))
        (ws \<mapsto> \<lparr>ws_name = ws, ws_seed = bn_seed r, ws_created = be_now e', ws_source = ap_bench plan,
           ws_apt = apt, ws_pip = pip, ws_grants = bn_grants r, ws_exports = bn_exports r\<rparr>)
    \<and> load_bench w2 = load_bench w1"
proof -
  have "precheck_promote w rest = Some (Inr plan)"
    using assms(1) by (simp add: precheck_authority_def)
  then obtain ws apt pip r where p: "valid_bench_name ws" "list_all valid_pkg_token apt" "list_all valid_pkg_token pip"
    "load_bench w (ap_bench plan) = Some r" "valid_seed (bn_seed r)"
    "ap_kind plan = Promote ws (bn_seed r) apt pip (bn_grants r) (bn_exports r)"
    by (rule precheck_promote_Inr)
  let ?x = "\<lparr>ws_name = ws, ws_seed = bn_seed r, ws_created = be_now e', ws_source = ap_bench plan,
       ws_apt = apt, ws_pip = pip, ws_grants = bn_grants r, ws_exports = bn_exports r\<rparr>"
  have "bn_name r = ap_bench plan" "storable_bench r" using wf_recordsD [OF assms(2) p(4)] .
  then have st: "storable_workshop ?x"
    using p by (auto simp: storable_workshop_def storable_bench_def valid_seed_line bench_name_line)
  have "commit_promote e' (ap_bench plan) ws (bn_seed r) apt pip (bn_grants r) (bn_exports r) w1 = (0, w2)"
    using assms(3) by (simp add: commit_authority_def p(6))
  then obtain d where d: "workshop_write_record (bw_workshops w1) ?x = Inr d" "w2 = w1\<lparr>bw_workshops := d\<rparr>"
    by (auto simp: commit_promote_def split: if_splits sum.splits)
  have "workshop_load_record (bw_workshops w2) = (workshop_load_record (bw_workshops w1))(ws \<mapsto> ?x)"
    using workshop_load_write [OF st d(1)] by (intro ext) (simp add: d(2))
  moreover have "load_bench w2 = load_bench w1"
    by (intro ext) (simp add: load_bench_def d(2))
  ultimately show ?thesis using p(4) by blast
qed

lemma web_promote:
  "promote_args no_promote [''media'', ''--name'', ''tools'', ''--apt'', ''jq''] =
     Inr \<lparr>pq_bench = Some ''media'', pq_ws = Some ''tools'', pq_apt = [''jq''], pq_pip = []\<rparr>"
  "valid_bench_name ''tools''" "list_ex (\<lambda>p. \<not> valid_pkg_token p) ([''jq''] @ []) = False"
  "has_duplicate [''jq'']= False" "has_duplicate [] = False" "bn_seed web_bench = ''scratch''" "bn_exports web_bench = []"
  "bn_name web_bench = ''media''"
  by code_simp+

lemma web_load: "load_bench (one_bench web_bench) = [''media'' \<mapsto> web_bench]"
  using one_bench_load [OF web_storable(1)] web_promote(8) by simp

theorem promote_commit_exact_witness:
  "\<exists>plan w2. precheck_authority calm_env (one_bench web_bench) ''promote'' [''media'', ''--name'', ''tools'', ''--apt'', ''jq'']
       = Some (Inr plan)
     \<and> commit_authority calm_env plan (one_bench web_bench) = Some (0, w2)
     \<and> load_bench w2 = load_bench (one_bench web_bench)
     \<and> workshop_load_record (bw_workshops w2) \<noteq> workshop_load_record empty_dir"
proof -
  let ?w = "one_bench web_bench"
  let ?x = "\<lparr>ws_name = ''tools'', ws_seed = ''scratch'', ws_created = 1, ws_source = ''media'', ws_apt = [''jq''],
      ws_pip = [], ws_grants = bn_grants web_bench, ws_exports = []\<rparr>"
  have "\<exists>plan. precheck_promote ?w [''media'', ''--name'', ''tools'', ''--apt'', ''jq''] = Some (Inr plan)
      \<and> ap_bench plan = ''media''
      \<and> ap_kind plan = Promote ''tools'' ''scratch'' [''jq''] [] (bn_grants web_bench) []"
    by (simp only: precheck_promote_def web_promote web_load tex_facts(5) launcher_rows.simps sum.case prod.case option.case
        promote_request.select_convs fun_upd_same simp_thms if_True if_False Option.bind.simps option.inject sum.inject)
      simp
  then obtain plan where pre: "precheck_promote ?w [''media'', ''--name'', ''tools'', ''--apt'', ''jq''] = Some (Inr plan)"
    and k: "ap_bench plan = ''media''" "ap_kind plan = Promote ''tools'' ''scratch'' [''jq''] [] (bn_grants web_bench) []"
    by (elim exE conjE)
  have st: "storable_workshop ?x" by code_simp
  define d where "d = empty_dir\<lparr>d_files := [(''tools'', workshop_to_wire ?x)]\<rparr>"
  have "workshop_write_record empty_dir ?x = Inr d"
    unfolding workshop_write_storable [OF st] by (simp add: atomic_write_def empty_dir_def d_def)
  then have c: "commit_authority calm_env plan ?w = Some (0, ?w\<lparr>bw_workshops := d\<rparr>)"
    using tex_facts(5)
    by (simp add: commit_authority_def k commit_promote_def one_bench_def calm_env_def)
  have p: "precheck_authority calm_env ?w ''promote'' [''media'', ''--name'', ''tools'', ''--apt'', ''jq''] = Some (Inr plan)"
    by (simp add: precheck_authority_def pre)
  have "workshop_load_record empty_dir k = None" for k
    by (simp add: workshop_load_record_def read_to_string_def dir_content_def empty_dir_def)
  moreover have "bw_workshops ?w = empty_dir" by (simp add: one_bench_def)
  ultimately have e: "workshop_load_record (bw_workshops ?w) = Map.empty" "workshop_load_record empty_dir = Map.empty" by auto
  from promote_commit_exact [OF p one_bench_wf [OF web_storable(1)] c] p c
  show ?thesis unfolding e by (metis map_upd_nonempty)
qed

section \<open>Asking for a launch\<close>

lemma precheck_launch_Inr:
  assumes "precheck_launch w rest = Inr plan"
  obtains q r where "launch_args no_launch rest = Inr q" "lq_ws q = Some (ap_bench plan)"
    "workshop_load_record (bw_workshops w) (ap_bench plan) = Some r"
    "list_all valid_pkg_token (ws_apt r @ ws_pip r)" "valid_seed (ws_seed r)"
    "list_all (\<lambda>p. resolve p \<in> range Some) (egress_profiles_from (ws_grants r))"
    "ap_kind plan = Launch (ws_seed r) (ws_apt r) (ws_pip r) (ws_grants r) (lq_workload q) (lq_refresh q) (lq_offline q)"
    "(''Runs'', if lq_workload q = [] then ''(recipe default)'' else spaced (lq_workload q)) \<in> set (ap_rows plan)"
    "Pair ''Activates grant'' ` set (ws_grants r) \<subseteq> set (ap_rows plan)"
proof -
  from assms obtain q where q: "launch_args no_launch rest = Inr q"
    by (cases "launch_args no_launch rest") (simp_all only: precheck_launch_def sum.case sum.distinct)
  from assms obtain ws where k: "lq_ws q = Some ws"
    by (cases "lq_ws q") (simp_all only: precheck_launch_def q sum.case option.case sum.distinct)
  have a: "list_ex (\<lambda>a. nl \<in> set a) (lq_workload q) = False"
    using assms by (cases "list_ex (\<lambda>a. nl \<in> set a) (lq_workload q)")
      (simp_all only: precheck_launch_def q k sum.case option.case if_True sum.distinct)
  from assms obtain r where r: "workshop_load_record (bw_workshops w) ws = Some r"
    by (cases "workshop_load_record (bw_workshops w) ws")
      (simp_all only: precheck_launch_def q k a sum.case option.case if_False sum.distinct)
  let ?net = "egress_profiles_from (ws_grants r)"
  have s: "valid_seed (ws_seed r) = True"
    using assms by (cases "valid_seed (ws_seed r)")
      (simp_all only: precheck_launch_def q k a r Let_def sum.case option.case if_False if_True simp_thms sum.distinct)
  have t: "list_ex (\<lambda>p. \<not> valid_pkg_token p) (ws_apt r @ ws_pip r) = False"
    using assms by (cases "list_ex (\<lambda>p. \<not> valid_pkg_token p) (ws_apt r @ ws_pip r)")
      (simp_all only: precheck_launch_def q k a r s Let_def sum.case option.case if_False if_True simp_thms sum.distinct)
  have n: "list_ex (\<lambda>p. resolve p = None) ?net = False"
    using assms by (cases "list_ex (\<lambda>p. resolve p = None) ?net")
      (simp_all only: precheck_launch_def q k a r s t Let_def sum.case option.case if_False if_True simp_thms sum.distinct)
  have u: "(ws_apt r \<noteq> [] \<and> ''debian-apt'' \<notin> set ?net) = False"
    using assms by (cases "ws_apt r \<noteq> [] \<and> ''debian-apt'' \<notin> set ?net")
      (simp_all only: precheck_launch_def q k a r s t n Let_def sum.case option.case if_False if_True simp_thms sum.distinct)
  have v: "(ws_pip r \<noteq> [] \<and> ''pypi-https'' \<notin> set ?net) = False"
    using assms by (cases "ws_pip r \<noteq> [] \<and> ''pypi-https'' \<notin> set ?net")
      (simp_all only: precheck_launch_def q k a r s t n u Let_def sum.case option.case if_False if_True simp_thms sum.distinct)
  have p: "ap_bench plan = ws \<and> ap_kind plan = Launch (ws_seed r) (ws_apt r) (ws_pip r) (ws_grants r) (lq_workload q)
        (lq_refresh q) (lq_offline q)
      \<and> (''Runs'', if lq_workload q = [] then ''(recipe default)'' else spaced (lq_workload q)) \<in> set (ap_rows plan)
      \<and> Pair ''Activates grant'' ` set (ws_grants r) \<subseteq> set (ap_rows plan)"
    using assms by (simp only: precheck_launch_def q k a r s t n u v Let_def sum.case option.case if_False simp_thms
        sum.inject) auto
  have "list_all (\<lambda>p. resolve p \<in> range Some) ?net"
    using n by (auto simp: list_ex_iff list_all_iff image_iff)
  then show ?thesis
    using that [OF q] p k r s t by (auto simp: list_ex_iff list_all_iff)
qed

text \<open>
  A launch asks for what the recipe declares: the plan put before the human carries the seed, the
  packages and every grant of the stored recipe (each grant is a row of the screen), the recipe's
  packages are safe tokens and its egress profiles are all sealed.
\<close>

theorem launch_asks_for_recipe:
  assumes "precheck_authority e w ''launch'' rest = Some (Inr plan)"
  shows "\<exists>r wl refresh offline. workshop_load_record (bw_workshops w) (ap_bench plan) = Some r
    \<and> ap_kind plan = Launch (ws_seed r) (ws_apt r) (ws_pip r) (ws_grants r) wl refresh offline
    \<and> Pair ''Activates grant'' ` set (ws_grants r) \<subseteq> set (ap_rows plan)
    \<and> valid_seed (ws_seed r) \<and> list_all valid_pkg_token (ws_apt r @ ws_pip r)
    \<and> list_all (\<lambda>p. resolve p \<in> range Some) (egress_profiles_from (ws_grants r))"
proof -
  have "precheck_launch w rest = Inr plan" using assms by (simp add: precheck_authority_def)
  then show ?thesis by (rule precheck_launch_Inr) blast
qed

lemma launch_args_one: "launch_args no_launch [ws] = Inr q \<Longrightarrow> lq_workload q = []"
  by (auto simp: no_launch_def split: if_splits)

text \<open>
  A launch without a command reaches the human as a run of the recipe's default and is then refused
  whatever the human answers: the plan shows \<open>(recipe default)\<close>, and its commit always fails with
  code 2 and changes nothing.
\<close>

theorem bare_launch_is_shown_and_refused:
  assumes "precheck_authority e w ''launch'' [ws] = Some (Inr plan)"
  shows "(''Runs'', ''(recipe default)'') \<in> set (ap_rows plan) \<and> commit_authority e' plan w1 = Some (2, w1)"
proof -
  have "precheck_launch w [ws] = Inr plan" using assms by (simp add: precheck_authority_def)
  then show ?thesis
  proof (rule precheck_launch_Inr)
    fix q r
    assume q: "launch_args no_launch [ws] = Inr q"
      and k: "ap_kind plan = Launch (ws_seed r) (ws_apt r) (ws_pip r) (ws_grants r) (lq_workload q) (lq_refresh q) (lq_offline q)"
      and runs: "(''Runs'', if lq_workload q = [] then ''(recipe default)'' else spaced (lq_workload q)) \<in> set (ap_rows plan)"
    show ?thesis
      using runs launch_args_one [OF q] by (simp add: k commit_authority_def commit_launch_def)
  qed
qed

definition tools_recipe :: workshop_record where
  "tools_recipe = \<lparr>ws_name = ''tools'', ws_seed = ''scratch'', ws_created = 1, ws_source = ''media'', ws_apt = [],
     ws_pip = [], ws_grants = [''net pypi-https''], ws_exports = []\<rparr>"

definition tools_world :: bench_world where
  "tools_world = one_bench web_bench\<lparr>bw_workshops := empty_dir\<lparr>d_files := [(''tools'', workshop_to_wire tools_recipe)]\<rparr>\<rparr>"

lemma tools_load: "workshop_load_record (bw_workshops tools_world) ''tools'' = Some tools_recipe"
proof -
  have st: "storable_workshop tools_recipe" by code_simp
  have n: "ws_name tools_recipe = ''tools''" by (simp add: tools_recipe_def)
  have "workshop_write_record empty_dir tools_recipe = Inr (bw_workshops tools_world)"
    unfolding workshop_write_storable [OF st] n
    by (simp add: atomic_write_def empty_dir_def tools_world_def)
  from workshop_load_write [OF st this] show ?thesis by (simp add: n)
qed

lemma tools_args: "launch_args no_launch [''tools''] = Inr (no_launch\<lparr>lq_ws := Some ''tools''\<rparr>)"
  "egress_profiles_from (ws_grants tools_recipe) = [''pypi-https'']" "valid_seed (ws_seed tools_recipe)"
  "ws_apt tools_recipe = []" "ws_pip tools_recipe = []" "lq_workload no_launch = []" "lq_refresh no_launch = False"
  "lq_offline no_launch = False"
  by code_simp+

lemma tools_plan: "\<exists>plan. precheck_authority calm_env tools_world ''launch'' [''tools''] = Some (Inr plan)
    \<and> ap_bench plan = ''tools''"
  using sample_args(2)
  by (simp add: precheck_authority_def precheck_launch_def tools_args tools_load Let_def
      del: launch_args.simps)

theorem launch_asks_for_recipe_witness:
  "\<exists>plan. precheck_authority calm_env tools_world ''launch'' [''tools''] = Some (Inr plan)
     \<and> (''Activates grant'', ''net pypi-https'') \<in> set (ap_rows plan)"
proof -
  obtain plan where p: "precheck_authority calm_env tools_world ''launch'' [''tools''] = Some (Inr plan)"
    and b: "ap_bench plan = ''tools''"
    using tools_plan by (elim exE conjE)
  have "ws_grants tools_recipe = [''net pypi-https'']" by (simp add: tools_recipe_def)
  with launch_asks_for_recipe [OF p] p show ?thesis
    unfolding b tools_load by auto
qed

theorem bare_launch_is_shown_and_refused_witness:
  "\<exists>plan. precheck_authority calm_env tools_world ''launch'' [''tools''] = Some (Inr plan)
     \<and> commit_authority calm_env plan tools_world = Some (2, tools_world)"
  using tools_plan bare_launch_is_shown_and_refused by blast

section \<open>Deriving an image\<close>

lemma net_up_parts [simp]: "bw_mounts (net_up i ps w) = bw_mounts w"
  by (simp add: net_up_def)

lemma podman_all_mounts [simp]: "bw_mounts (snd (podman_all e as w)) = bw_mounts w"
  by (induction as arbitrary: w) (simp_all add: split_def Let_def)

lemma derive_ends_in_cleanup:
  assumes "derive_pristine e ws s apt pip net tag w = (Some got, w')"
  obtains w4 where "w' = derive_cleanup e (''derive-'' @ ws) w4" "bw_mounts w4 = bw_mounts w"
proof -
  define dname where "dname = ''derive-'' @ ws"
  define ctr where "ctr = ''shrek-bench-'' @ dname"
  define w0 where "w0 = net_down dname (ensure_seed e s w)"
  obtain c w1 where c: "podman e (derive_run_argv dname (seed_image_of s) (hosts_file dname)) w0 = (c, w1)"
    by (rule prod.exhaust)
  obtain ok w3 where ok: "podman_all e (derive_installs ctr apt pip) (net_up dname net w1) = (ok, w3)"
    by (rule prod.exhaust)
  obtain cc w4 where cc: "podman e [''commit'', ctr, tag] w3 = (cc, w4)" by (rule prod.exhaust)
  have "bw_mounts w1 = bw_mounts w"
    using podman_parts(9) [of e _ w0] c by (metis ensure_seed_parts(4) net_mounts(1) snd_conv w0_def)
  then have m: "bw_mounts w4 = bw_mounts w"
    using podman_all_mounts [of e _ "net_up dname net w1"] ok podman_parts(9) [of e _ w3] cc
    by (metis net_up_parts snd_conv)
  have "w' = derive_cleanup e dname (w4\<lparr>bw_images := AList.update tag (be_new_image e tag) (bw_images w4)\<rparr>)"
    using assms unfolding derive_pristine_def Let_def dname_def [symmetric] ctr_def [symmetric] w0_def [symmetric]
    by (simp add: c ok cc split: if_splits)
  then show ?thesis
    using m that [of "w4\<lparr>bw_images := AList.update tag (be_new_image e tag) (bw_images w4)\<rparr>"]
    by (simp add: dname_def)
qed

text \<open>
  A derivation takes the run directory of the bench named \<open>derive-\<close> and the workshop's name for
  its own: when a user's bench of that name has a folder mounted there read-write, a derivation that
  succeeds removes the contents of that host folder and kills that bench's container.
\<close>

theorem derivation_wipes_through_grants:
  assumes "derive_pristine e ws s apt pip net tag w = (Some got, w')"
    and "(t, obj, True) \<in> set (bw_mounts w)" "path_starts_with t (bench_run_dir (''derive-'' @ ws))"
  shows "obj \<in> set (bw_wiped w')
    \<and> [''rm'', ''-f'', ''-t'', ''0'', ''shrek-bench-'' @ ''derive-'' @ ws] \<in> set (bw_log w')"
proof -
  obtain w4 where w4: "w' = derive_cleanup e (''derive-'' @ ws) w4" "bw_mounts w4 = bw_mounts w"
    using derive_ends_in_cleanup [OF assms(1)] .
  have "obj \<in> (\<lambda>m. fst (snd m)) ` set (filter (\<lambda>m. snd (snd m)
      \<and> path_starts_with (fst m) (bench_run_dir (''derive-'' @ ws))) (bw_mounts w4))"
    using assms(2,3) w4(2) by (intro image_eqI [of _ _ "(t, obj, True)"]) simp_all
  then show ?thesis
    unfolding w4(1) derive_cleanup_def remove_run_dir_def by simp
qed

definition shadow_world :: bench_world where
  "shadow_world = one_bench docs_bench\<lparr>bw_mounts := [(path_join (grants_dir ''derive-tex'') ''docs'', snd docs_mount)]\<rparr>"

lemma calm_tools: "be_resolve calm_env ps = Some (length ps)" "be_hosts calm_env i" "be_pid calm_env i"
  "be_distinct calm_env i" "be_inject calm_env i" "be_attached calm_env i" "be_podman calm_env a = 0"
  by (simp_all add: calm_env_def)

lemma calm_podman: "podman calm_env a w = (0, w\<lparr>bw_log := bw_log w @ [a]\<rparr>)"
  by (simp add: podman_def calm_tools)

lemma calm_podman_all: "podman_all calm_env as w = (True, snd (podman_all calm_env as w))"
  by (induction as arbitrary: w) (simp_all add: calm_podman Let_def)

lemma calm_derives:
  assumes "list_ex (\<lambda>p. resolve p = None) net = False"
  shows "\<exists>got w'. derive_pristine calm_env ws s apt pip net tag w = (Some got, w')"
proof -
  obtain w3 where w3: "podman_all calm_env (derive_installs (''shrek-bench-'' @ ''derive-'' @ ws) apt pip)
      (net_up (''derive-'' @ ws) net (snd (podman calm_env (derive_run_argv (''derive-'' @ ws) (seed_image_of s)
         (hosts_file (''derive-'' @ ws))) (net_down (''derive-'' @ ws) (ensure_seed calm_env s w))))) = (True, w3)"
    using calm_podman_all by blast
  show ?thesis
    unfolding derive_pristine_def Let_def using w3
    by (simp only: assms calm_podman calm_tools calm prod.case snd_conv if_False if_True simp_thms option.distinct
        not_True_eq_False not_False_eq_True Pair_inject option.inject) blast
qed

theorem derivation_wipes_through_grants_witness:
  "\<exists>got w'. derive_pristine calm_env ''tex'' ''scratch'' [] [] [''debian-apt''] ''t'' shadow_world = (Some got, w')
     \<and> fst (snd docs_mount) \<in> set (bw_wiped w')"
proof -
  have r1: "resolve ''debian-apt'' \<noteq> None" by code_simp
  have c: "path_comps ''/run/shrek/bench/derive-tex'' = [''/'', ''run'', ''shrek'', ''bench'', ''derive-tex'']"
    "path_comps ''/run/shrek/bench/derive-tex/grants/docs''
       = [''/'', ''run'', ''shrek'', ''bench'', ''derive-tex'', ''grants'', ''docs'']"
    "path_join (grants_dir ''derive-tex'') ''docs'' = ''/run/shrek/bench/derive-tex/grants/docs''"
    "bench_run_dir ''derive-tex'' = ''/run/shrek/bench/derive-tex''"
    by code_simp+
  have "''derive-'' @ ''tex'' = ''derive-tex''" by simp
  then have r2: "path_starts_with (path_join (grants_dir ''derive-tex'') ''docs'') (bench_run_dir (''derive-'' @ ''tex''))"
    by (simp only: path_starts_with_def c) simp
  have "\<exists>got w'. derive_pristine calm_env ''tex'' ''scratch'' [] [] [''debian-apt''] ''t'' shadow_world = (Some got, w')"
    by (rule calm_derives) (use r1 in simp)
  then obtain got w' where d: "derive_pristine calm_env ''tex'' ''scratch'' [] [] [''debian-apt''] ''t'' shadow_world = (Some got, w')"
    by (elim exE)
  have "(path_join (grants_dir ''derive-tex'') ''docs'', fst (snd docs_mount), True) \<in> set (bw_mounts shadow_world)"
    by (simp add: shadow_world_def docs_mount_def)
  from derivation_wipes_through_grants [OF d this r2] d show ?thesis by blast
qed

section \<open>Framed requests\<close>



end
