(* ===== verification/Egress_Store.thy ===== *)
theory Egress_Store
  imports Policy_Capability Fs_Model
begin

text \<open>
  The durable store of the desktop egress supervisor, \<open>crates/egressd/src/store.rs\<close>: blesses, pins,
  the applied marker and faults, one record per file; the raw destinations and their resolved cache,
  one file each; and the three projections into the world-readable run directory.

  A function that returns \<open>io::Result\<close> returns \<open>(io_error, store) result\<close>: the new store, or the
  error, in which case the store is the one it was called with.  \<open>None\<close> around such a result is a
  panic (\<open>String::truncate\<close> inside a character).
\<close>

section \<open>State\<close>

record store =
  st_blessed :: dir
  st_pinned :: dir
  st_applied :: dir
  st_fault :: dir
  st_root :: dir
  st_lockable :: bool

definition empty_store :: store where
  "empty_store = \<lparr>st_blessed = empty_dir, st_pinned = empty_dir, st_applied = empty_dir,
     st_fault = empty_dir, st_root = empty_dir, st_lockable = True\<rparr>"

definition wf_store :: "store \<Rightarrow> bool" where
  "wf_store s \<longleftrightarrow> wf_dir (st_blessed s) \<and> wf_dir (st_pinned s) \<and> wf_dir (st_applied s)
     \<and> wf_dir (st_fault s) \<and> wf_dir (st_root s)"

definition put_blessed :: "store \<Rightarrow> (io_error, dir) result \<Rightarrow> (io_error, store) result" where
  "put_blessed s r = map_sum id (\<lambda>d. s\<lparr>st_blessed := d\<rparr>) r"

definition put_pinned :: "store \<Rightarrow> (io_error, dir) result \<Rightarrow> (io_error, store) result" where
  "put_pinned s r = map_sum id (\<lambda>d. s\<lparr>st_pinned := d\<rparr>) r"

definition put_applied :: "store \<Rightarrow> (io_error, dir) result \<Rightarrow> (io_error, store) result" where
  "put_applied s r = map_sum id (\<lambda>d. s\<lparr>st_applied := d\<rparr>) r"

definition put_fault :: "store \<Rightarrow> (io_error, dir) result \<Rightarrow> (io_error, store) result" where
  "put_fault s r = map_sum id (\<lambda>d. s\<lparr>st_fault := d\<rparr>) r"

definition put_root :: "store \<Rightarrow> (io_error, dir) result \<Rightarrow> (io_error, store) result" where
  "put_root s r = map_sum id (\<lambda>d. s\<lparr>st_root := d\<rparr>) r"

lemmas put_defs = put_blessed_def put_pinned_def put_applied_def put_fault_def put_root_def

section \<open>Names\<close>

definition valid_token :: "string \<Rightarrow> bool" where
  "valid_token name \<longleftrightarrow>
     name \<noteq> [] \<and> name \<noteq> ''.'' \<and> name \<noteq> ''..'' \<and> length name \<le> 64
     \<and> \<not> str_starts_with name ''.'' \<and> list_all token_byte name"

definition is_sealed_profile :: "string \<Rightarrow> bool" where
  "is_sealed_profile name \<longleftrightarrow> resolve_desktop name \<noteq> None"

definition sealed_hosts :: "string \<Rightarrow> string list" where
  "sealed_hosts profile =
     (case resolve_desktop profile of None \<Rightarrow> [] | Some p \<Rightarrow> map rule_host (prof_rules p))"

text \<open>
  \<open>one_line\<close>: every control character (U+0000 .. U+001F, U+007F, and U+0080 .. U+009F in two bytes)
  becomes a space; the result is cut at 200 bytes, which panics when byte 200 lies inside a
  character; then it is trimmed.
\<close>

fun ctl_to_space :: "string \<Rightarrow> string" where
  "ctl_to_space [] = []"
| "ctl_to_space [a] = [if is_control a then sp else a]"
| "ctl_to_space (a # b # r) =
     (if is_control a then sp # ctl_to_space (b # r)
      else if a = CHR 0xC2 \<and> CHR 0x80 \<le> b \<and> b \<le> CHR 0x9F then sp # ctl_to_space r
      else a # ctl_to_space (b # r))"

definition str_truncate :: "nat \<Rightarrow> string \<Rightarrow> string option" where
  "str_truncate n s =
     (if n < length s then (if cont_byte (s ! n) then None else Some (take n s)) else Some s)"

definition one_line :: "string \<Rightarrow> string option" where
  "one_line s = map_option str_trim (str_truncate 200 (ctl_to_space s))"

section \<open>Bless records\<close>

record bless_record =
  br_profile :: string
  br_tier :: string
  br_blessed :: u64

definition bless_body :: "bless_record \<Rightarrow> string" where
  "bless_body r = unlines
     [''SHREK-EGRESS-BLESS 1'', ''profile '' @ br_profile r, ''tier '' @ br_tier r,
      ''blessed '' @ show_uint (br_blessed r), ''END'']"

definition write_bless :: "store \<Rightarrow> bless_record \<Rightarrow> (io_error, store) result" where
  "write_bless s r =
     (if \<not> valid_token (br_profile r) \<or> \<not> is_sealed_profile (br_profile r)
      then Inl (InvalidInput ''unsealed/unsafe profile'')
      else if \<not> valid_token (br_tier r) then Inl (InvalidInput ''invalid tier token'')
      else put_blessed s (atomic_write (st_blessed s) (br_profile r) (bless_body r)))"

definition decode_bless :: "string \<Rightarrow> string \<Rightarrow> bless_record option" where
  "decode_bless profile body =
     (case str_lines body of
        h # pl # tierl # bl # e # _ \<Rightarrow>
          if h \<noteq> ''SHREK-EGRESS-BLESS 1'' then None
          else do {
            p \<leftarrow> str_strip_prefix ''profile '' pl;
            tier \<leftarrow> str_strip_prefix ''tier '' tierl;
            b \<leftarrow> str_strip_prefix ''blessed '' bl;
            blessed \<leftarrow> parse_uint b;
            if e \<noteq> ''END'' then None
            else if p \<noteq> profile \<or> \<not> is_sealed_profile p \<or> \<not> valid_token tier then None
            else Some \<lparr>br_profile = p, br_tier = tier, br_blessed = blessed\<rparr>
          }
      | _ \<Rightarrow> None)"

definition load_bless :: "store \<Rightarrow> string \<Rightarrow> bless_record option" where
  "load_bless s profile =
     (if \<not> valid_token profile then None
      else Option.bind (read_to_string (st_blessed s) profile) (decode_bless profile))"

definition list_bless :: "store \<Rightarrow> bless_record list" where
  "list_bless s =
     sort_key br_profile (List.map_filter (load_bless s) (read_names (st_blessed s)))"

definition remove_bless :: "store \<Rightarrow> string \<Rightarrow> (io_error, store) result" where
  "remove_bless s profile =
     (if \<not> valid_token profile then Inl (InvalidInput ''invalid profile token'')
      else put_blessed s (remove_if_present (st_blessed s) profile))"

section \<open>Pin records\<close>

record pin =
  pin_name :: string
  pin_addr :: ipv4

record pin_record =
  pr_profile :: string
  pr_pins :: "pin list"
  pr_resolved :: u64

definition pin_line :: "pin \<Rightarrow> string" where
  "pin_line p = ''pin '' @ pin_name p @ [sp] @ ipv4_show (pin_addr p)"

definition pin_body :: "pin_record \<Rightarrow> string" where
  "pin_body r = unlines
     ([''SHREK-EGRESS-PIN 1'', ''profile '' @ pr_profile r] @ map pin_line (pr_pins r)
      @ [''resolved '' @ show_uint (pr_resolved r), ''END''])"

definition write_pin :: "store \<Rightarrow> pin_record \<Rightarrow> (io_error, store) result" where
  "write_pin s r =
     (if \<not> valid_token (pr_profile r) \<or> \<not> is_sealed_profile (pr_profile r)
      then Inl (InvalidInput ''unsealed/unsafe profile'')
      else if is_broad_profile (pr_profile r)
      then Inl (InvalidInput ''broad profile is not pinnable'')
      else if \<not> list_all (\<lambda>p. List.member (sealed_hosts (pr_profile r)) (pin_name p)) (pr_pins r)
      then Inl (InvalidInput ''pin name not in sealed profile'')
      else put_pinned s (atomic_write (st_pinned s) (pr_profile r) (pin_body r)))"

text \<open>The loop over the lines after the profile line; a return leaves it at \<open>END\<close>.\<close>

fun pin_lines :: "string list \<Rightarrow> string list \<Rightarrow> pin list \<Rightarrow> u64 option \<Rightarrow> (pin list \<times> u64) option" where
  "pin_lines hosts [] pins resolved = None"
| "pin_lines hosts (l # ls) pins resolved =
     (if l = ''END'' then map_option (\<lambda>r. (pins, r)) resolved
      else case str_strip_prefix ''pin '' l of
        Some rest \<Rightarrow> do {
            (name, a) \<leftarrow> str_split_once sp rest;
            addr \<leftarrow> ipv4_parse a;
            if \<not> List.member hosts name then None
            else pin_lines hosts ls (pins @ [\<lparr>pin_name = name, pin_addr = addr\<rparr>]) resolved
          }
      | None \<Rightarrow>
          (case str_strip_prefix ''resolved '' l of
             Some rest \<Rightarrow> do { r \<leftarrow> parse_uint rest; pin_lines hosts ls pins (Some r) }
           | None \<Rightarrow> None))"

definition decode_pin :: "string \<Rightarrow> string \<Rightarrow> pin_record option" where
  "decode_pin profile body =
     (case str_lines body of
        h # pl # rest \<Rightarrow>
          if h \<noteq> ''SHREK-EGRESS-PIN 1'' then None
          else do {
            p \<leftarrow> str_strip_prefix ''profile '' pl;
            if p \<noteq> profile \<or> \<not> is_sealed_profile p \<or> is_broad_profile p then None
            else do {
              (pins, r) \<leftarrow> pin_lines (sealed_hosts p) rest [] None;
              Some \<lparr>pr_profile = p, pr_pins = pins, pr_resolved = r\<rparr>
            }
          }
      | _ \<Rightarrow> None)"

definition load_pin :: "store \<Rightarrow> string \<Rightarrow> pin_record option" where
  "load_pin s profile =
     (if \<not> valid_token profile then None
      else Option.bind (read_to_string (st_pinned s) profile) (decode_pin profile))"

definition list_pins :: "store \<Rightarrow> pin_record list" where
  "list_pins s = sort_key pr_profile (List.map_filter (load_pin s) (read_names (st_pinned s)))"

definition remove_pin :: "store \<Rightarrow> string \<Rightarrow> (io_error, store) result" where
  "remove_pin s profile =
     (if \<not> valid_token profile then Inl (InvalidInput ''invalid profile token'')
      else put_pinned s (remove_if_present (st_pinned s) profile))"

section \<open>The applied marker\<close>

definition applied_body :: "string \<Rightarrow> ipv4 list \<Rightarrow> string" where
  "applied_body profile addrs = unlines
     ([''SHREK-EGRESS-APPLIED 1'', ''profile '' @ profile] @ map (\<lambda>a. ''addr '' @ ipv4_show a) addrs
      @ [''END''])"

definition write_applied :: "store \<Rightarrow> string \<Rightarrow> ipv4 list \<Rightarrow> (io_error, store) result" where
  "write_applied s profile addrs =
     (if \<not> valid_token profile then Inl (InvalidInput ''invalid profile token'')
      else put_applied s
             (atomic_write (st_applied s) profile (applied_body profile (remdups_adj (sort addrs)))))"

fun applied_lines :: "string list \<Rightarrow> ipv4 list \<Rightarrow> ipv4 list" where
  "applied_lines [] acc = []"
| "applied_lines (l # ls) acc =
     (if l = ''END'' then acc
      else case str_strip_prefix ''addr '' l of
        Some rest \<Rightarrow> (case ipv4_parse rest of Some a \<Rightarrow> applied_lines ls (acc @ [a]) | None \<Rightarrow> [])
      | None \<Rightarrow> [])"

definition load_applied :: "store \<Rightarrow> string \<Rightarrow> ipv4 list" where
  "load_applied s profile =
     (if \<not> valid_token profile then []
      else case read_to_string (st_applied s) profile of
        None \<Rightarrow> []
      | Some body \<Rightarrow>
          (case str_lines body of
             h # pl # rest \<Rightarrow>
               if h \<noteq> ''SHREK-EGRESS-APPLIED 1'' then []
               else if str_strip_prefix ''profile '' pl \<noteq> Some profile then []
               else applied_lines rest []
           | _ \<Rightarrow> []))"

definition clear_applied :: "store \<Rightarrow> string \<Rightarrow> (io_error, store) result" where
  "clear_applied s profile =
     (if \<not> valid_token profile then Inl (InvalidInput ''invalid profile token'')
      else put_applied s (remove_if_present (st_applied s) profile))"

section \<open>Fault records\<close>

datatype fault_kind = UnknownProfile | ResolveFail | ApplyFail | Quarantined

fun fault_kind_str :: "fault_kind \<Rightarrow> string" where
  "fault_kind_str UnknownProfile = ''unknown-profile''"
| "fault_kind_str ResolveFail = ''resolve-fail''"
| "fault_kind_str ApplyFail = ''apply-fail''"
| "fault_kind_str Quarantined = ''quarantined''"

definition fault_kind_from_str :: "string \<Rightarrow> fault_kind option" where
  "fault_kind_from_str s =
     (if s = ''unknown-profile'' then Some UnknownProfile
      else if s = ''resolve-fail'' then Some ResolveFail
      else if s = ''apply-fail'' then Some ApplyFail
      else if s = ''quarantined'' then Some Quarantined
      else None)"

record fault_record =
  fr_profile :: string
  fr_kind :: fault_kind
  fr_reason :: string
  fr_at :: u64

definition fault_body :: "fault_record \<Rightarrow> string" where
  "fault_body r = unlines
     [''SHREK-EGRESS-FAULT 1'', ''profile '' @ fr_profile r, ''kind '' @ fault_kind_str (fr_kind r),
      ''reason '' @ fr_reason r, ''at '' @ show_uint (fr_at r), ''END'']"

definition write_fault :: "store \<Rightarrow> string \<Rightarrow> fault_kind \<Rightarrow> string \<Rightarrow> u64
    \<Rightarrow> (io_error, store) result option" where
  "write_fault s profile kind reason at =
     (if \<not> valid_token profile then Some (Inl (InvalidInput ''invalid profile token''))
      else do {
        line \<leftarrow> one_line reason;
        Some (put_fault s (atomic_write (st_fault s) profile
          (fault_body \<lparr>fr_profile = profile, fr_kind = kind, fr_reason = line, fr_at = at\<rparr>)))
      })"

definition decode_fault :: "string \<Rightarrow> string \<Rightarrow> fault_record option" where
  "decode_fault profile body =
     (case str_lines body of
        h # pl # kl # rl # al # e # _ \<Rightarrow>
          if h \<noteq> ''SHREK-EGRESS-FAULT 1'' then None
          else do {
            p \<leftarrow> str_strip_prefix ''profile '' pl;
            k \<leftarrow> str_strip_prefix ''kind '' kl;
            kind \<leftarrow> fault_kind_from_str k;
            reason \<leftarrow> str_strip_prefix ''reason '' rl;
            a \<leftarrow> str_strip_prefix ''at '' al;
            at \<leftarrow> parse_uint a;
            if e \<noteq> ''END'' \<or> p \<noteq> profile then None
            else Some \<lparr>fr_profile = p, fr_kind = kind, fr_reason = reason, fr_at = at\<rparr>
          }
      | _ \<Rightarrow> None)"

definition load_fault :: "store \<Rightarrow> string \<Rightarrow> fault_record option" where
  "load_fault s profile =
     (if \<not> valid_token profile then None
      else Option.bind (read_to_string (st_fault s) profile) (decode_fault profile))"

definition clear_fault :: "store \<Rightarrow> string \<Rightarrow> (io_error, store) result" where
  "clear_fault s profile =
     (if \<not> valid_token profile then Inl (InvalidInput ''invalid profile token'')
      else put_fault s (remove_if_present (st_fault s) profile))"

section \<open>Facts: names\<close>

lemma valid_token_text: "valid_token t \<Longrightarrow> text_line t"
  by (rule text_line_graphic) (auto simp: valid_token_def list_all_iff token_byte_graphic)

lemma valid_token_visible: "valid_token t \<Longrightarrow> \<not> str_starts_with t ''.''"
  by (simp add: valid_token_def)

lemma sealed_hosts_text: "h \<in> set (sealed_hosts p) \<Longrightarrow> text_line h \<and> sp \<notin> set h"
proof -
  have "\<forall>q \<in> set DESKTOP_EGRESS_PROFILES. \<forall>r \<in> set (prof_rules q).
      text_line (rule_host r) \<and> sp \<notin> set (rule_host r)"
    by (simp add: desktop_tables is_graphic_def)
  then show "h \<in> set (sealed_hosts p) \<Longrightarrow> ?thesis"
    by (cases "resolve_desktop p") (auto simp: sealed_hosts_def resolve_desktop_iff)
qed

section \<open>Facts: the record kinds\<close>

definition storable_bless :: "bless_record \<Rightarrow> bool" where
  "storable_bless r \<longleftrightarrow>
     valid_token (br_profile r) \<and> is_sealed_profile (br_profile r) \<and> valid_token (br_tier r)"

definition storable_pin :: "pin_record \<Rightarrow> bool" where
  "storable_pin r \<longleftrightarrow>
     valid_token (pr_profile r) \<and> is_sealed_profile (pr_profile r) \<and> \<not> is_broad_profile (pr_profile r)
     \<and> (\<forall>p \<in> set (pr_pins r). pin_name p \<in> set (sealed_hosts (pr_profile r)))"

definition storable_fault :: "fault_record \<Rightarrow> bool" where
  "storable_fault r \<longleftrightarrow> valid_token (fr_profile r) \<and> clean_line (fr_reason r) \<and> utf8_ok (fr_reason r)"

definition sound_bless :: "bless_record \<Rightarrow> bool" where
  "sound_bless r \<longleftrightarrow> is_sealed_profile (br_profile r) \<and> valid_token (br_tier r)"

definition sound_pin :: "pin_record \<Rightarrow> bool" where
  "sound_pin r \<longleftrightarrow>
     is_sealed_profile (pr_profile r) \<and> \<not> is_broad_profile (pr_profile r)
     \<and> (\<forall>p \<in> set (pr_pins r). pin_name p \<in> set (sealed_hosts (pr_profile r)))"

lemma decode_bless_body: "storable_bless r \<Longrightarrow> decode_bless (br_profile r) (bless_body r) = Some r"
  by (simp add: storable_bless_def decode_bless_def bless_body_def valid_token_text is_graphic_def
      del: unlines_simps append.simps)

lemma pin_lines_body:
  "\<forall>p \<in> set pins. pin_name p \<in> set hosts \<and> sp \<notin> set (pin_name p) \<Longrightarrow>
   pin_lines hosts (map pin_line pins @ [''resolved '' @ show_uint r, ''END'']) acc x
     = Some (acc @ pins, r)"
proof (induction pins arbitrary: acc)
  case (Cons p pins)
  then show ?case by (simp add: pin_line_def List.member_iff)
qed simp

lemma decode_pin_body: "storable_pin r \<Longrightarrow> decode_pin (pr_profile r) (pin_body r) = Some r"
proof -
  assume r: "storable_pin r"
  let ?rest = "map pin_line (pr_pins r) @ [''resolved '' @ show_uint (pr_resolved r), ''END'']"
  have hosts: "\<forall>p \<in> set (pr_pins r). text_line (pin_name p) \<and> sp \<notin> set (pin_name p)"
    using r sealed_hosts_text unfolding storable_pin_def by blast
  have "str_lines (pin_body r) = ''SHREK-EGRESS-PIN 1'' # (''profile '' @ pr_profile r) # ?rest"
    unfolding pin_body_def
    by (subst lines_text)
      (use r hosts in \<open>auto simp: storable_pin_def pin_line_def valid_token_text is_graphic_def
        simp del: append.simps(2)\<close>)
  moreover have "pin_lines (sealed_hosts (pr_profile r)) ?rest [] None
      = Some (pr_pins r, pr_resolved r)"
    using pin_lines_body [of "pr_pins r" _ _ "[]"] r hosts by (simp add: storable_pin_def)
  ultimately show ?thesis
    using r by (simp add: decode_pin_def storable_pin_def)
qed

lemma pin_body_utf8: "storable_pin r \<Longrightarrow> utf8_ok (pin_body r)"
  unfolding pin_body_def using sealed_hosts_text
  by (intro lines_text(2)) (auto simp: storable_pin_def pin_line_def valid_token_text is_graphic_def)

lemma fault_kind_round [simp]: "fault_kind_from_str (fault_kind_str k) = Some k"
  by (cases k) (simp_all add: fault_kind_from_str_def)

lemma fault_kind_text [simp]: "text_line (fault_kind_str k)"
  by (cases k) (simp_all add: is_graphic_def)

lemma fault_lines:
  assumes "storable_fault r"
    and "l \<in> set [''SHREK-EGRESS-FAULT 1'', ''profile '' @ fr_profile r,
      ''kind '' @ fault_kind_str (fr_kind r), ''reason '' @ fr_reason r,
      ''at '' @ show_uint (fr_at r), ''END'']"
  shows "clean_line l \<and> utf8_ok l"
proof (cases "l = ''reason '' @ fr_reason r")
  case True
  have "clean_line (''reason '' @ fr_reason r)"
    using assms(1) clean_line_append [of "''reason ''" "fr_reason r"]
    by (cases "fr_reason r = []") (auto simp: storable_fault_def)
  moreover have "utf8_ok ''reason ''"
    using text_line_clean [of "''reason ''"] by (simp add: is_graphic_def)
  ultimately show ?thesis
    using True assms(1) by (simp add: storable_fault_def utf8_ok_append del: append.simps)
next
  case False
  then have "text_line l"
    using assms by (auto simp: storable_fault_def valid_token_text is_graphic_def)
  then show ?thesis by (rule text_line_clean)
qed

lemma decode_fault_body: "storable_fault r \<Longrightarrow> decode_fault (fr_profile r) (fault_body r) = Some r"
proof -
  assume r: "storable_fault r"
  have "str_lines (fault_body r) = [''SHREK-EGRESS-FAULT 1'', ''profile '' @ fr_profile r,
      ''kind '' @ fault_kind_str (fr_kind r), ''reason '' @ fr_reason r,
      ''at '' @ show_uint (fr_at r), ''END'']"
    unfolding fault_body_def using fault_lines [OF r] by (intro str_lines_unlines) blast
  then show ?thesis by (simp add: decode_fault_def)
qed

lemma fault_body_utf8: "storable_fault r \<Longrightarrow> utf8_ok (fault_body r)"
  unfolding fault_body_def using fault_lines by (intro utf8_ok_unlines) blast

lemma bless_body_utf8: "storable_bless r \<Longrightarrow> utf8_ok (bless_body r)"
  unfolding bless_body_def
  by (intro lines_text(2)) (auto simp: storable_bless_def valid_token_text is_graphic_def)

lemma decode_bless_Some:
  "decode_bless k b = Some r \<Longrightarrow> br_profile r = k \<and> sound_bless r"
  by (auto simp: decode_bless_def sound_bless_def bind_eq_Some_conv split: list.splits if_splits)

lemma pin_lines_hosts:
  "pin_lines hosts ls acc x = Some (pins, r) \<Longrightarrow> (\<forall>p \<in> set acc. pin_name p \<in> set hosts) \<Longrightarrow>
   \<forall>p \<in> set pins. pin_name p \<in> set hosts"
proof (induction hosts ls acc x rule: pin_lines.induct)
  case (2 hosts l ls acc x)
  show ?case
    using "2.prems" "2.IH"
    by (fastforce simp: bind_eq_Some_conv List.member_iff split: if_splits option.splits)
qed simp

lemma decode_pin_Some: "decode_pin k b = Some r \<Longrightarrow> pr_profile r = k \<and> sound_pin r"
  by (auto simp: decode_pin_def sound_pin_def bind_eq_Some_conv dest!: pin_lines_hosts
      split: list.splits if_splits)

lemma decode_fault_Some: "decode_fault k b = Some r \<Longrightarrow> fr_profile r = k"
  by (auto simp: decode_fault_def bind_eq_Some_conv split: list.splits if_splits)

interpretation bless: record_store valid_token bless_body decode_bless br_profile
  storable_bless sound_bless
  by unfold_locales
    (auto simp: decode_bless_body bless_body_utf8 valid_token_visible dest: decode_bless_Some,
      simp add: storable_bless_def)

interpretation pins: record_store valid_token pin_body decode_pin pr_profile storable_pin sound_pin
  by unfold_locales
    (auto simp: decode_pin_body pin_body_utf8 valid_token_visible dest: decode_pin_Some,
      simp add: storable_pin_def)

interpretation fault: record_store valid_token fault_body decode_fault fr_profile
  storable_fault "\<lambda>_. True"
  by unfold_locales
    (auto simp: decode_fault_body fault_body_utf8 valid_token_visible dest: decode_fault_Some,
      simp add: storable_fault_def)

section \<open>Facts: the store operations\<close>

lemma load_bless_rec: "load_bless s = rec_load valid_token decode_bless (st_blessed s)"
  by (simp add: fun_eq_iff load_bless_def rec_load_def)

lemma load_pin_rec: "load_pin s = rec_load valid_token decode_pin (st_pinned s)"
  by (simp add: fun_eq_iff load_pin_def rec_load_def)

lemma load_fault_rec: "load_fault s = rec_load valid_token decode_fault (st_fault s)"
  by (simp add: fun_eq_iff load_fault_def rec_load_def)

lemma list_bless_rec: "list_bless s = rec_list valid_token decode_bless br_profile (st_blessed s)"
  by (simp add: list_bless_def rec_list_def load_bless_rec)

lemma list_pins_rec: "list_pins s = rec_list valid_token decode_pin pr_profile (st_pinned s)"
  by (simp add: list_pins_def rec_list_def load_pin_rec)

lemma map_sum_Inr: "map_sum id f r = Inr y \<longleftrightarrow> (\<exists>x. r = Inr x \<and> y = f x)"
  by (cases r) auto

lemma put_Inr [res_simps]:
  "put_blessed s r = Inr s' \<longleftrightarrow> (\<exists>d. r = Inr d \<and> s' = s\<lparr>st_blessed := d\<rparr>)"
  "put_pinned s r = Inr s' \<longleftrightarrow> (\<exists>d. r = Inr d \<and> s' = s\<lparr>st_pinned := d\<rparr>)"
  "put_applied s r = Inr s' \<longleftrightarrow> (\<exists>d. r = Inr d \<and> s' = s\<lparr>st_applied := d\<rparr>)"
  "put_fault s r = Inr s' \<longleftrightarrow> (\<exists>d. r = Inr d \<and> s' = s\<lparr>st_fault := d\<rparr>)"
  "put_root s r = Inr s' \<longleftrightarrow> (\<exists>d. r = Inr d \<and> s' = s\<lparr>st_root := d\<rparr>)"
  by (simp_all add: put_defs map_sum_Inr)

lemma write_bless_Inr:
  "write_bless s r = Inr s' \<longleftrightarrow>
     storable_bless r \<and> (\<exists>d. atomic_write (st_blessed s) (br_profile r) (bless_body r) = Inr d
       \<and> s' = s\<lparr>st_blessed := d\<rparr>)"
  unfolding write_bless_def storable_bless_def put_Inr [symmetric] by auto

lemma write_pin_Inr:
  "write_pin s r = Inr s' \<longleftrightarrow>
     storable_pin r \<and> (\<exists>d. atomic_write (st_pinned s) (pr_profile r) (pin_body r) = Inr d
       \<and> s' = s\<lparr>st_pinned := d\<rparr>)"
  unfolding write_pin_def storable_pin_def put_Inr [symmetric]
  by (auto simp: list_all_iff List.member_iff)

lemma remove_bless_Inr:
  "remove_bless s p = Inr s' \<longleftrightarrow>
     valid_token p \<and> (\<exists>d. remove_if_present (st_blessed s) p = Inr d \<and> s' = s\<lparr>st_blessed := d\<rparr>)"
  unfolding remove_bless_def put_Inr [symmetric] by auto

lemma remove_pin_Inr:
  "remove_pin s p = Inr s' \<longleftrightarrow>
     valid_token p \<and> (\<exists>d. remove_if_present (st_pinned s) p = Inr d \<and> s' = s\<lparr>st_pinned := d\<rparr>)"
  unfolding remove_pin_def put_Inr [symmetric] by auto

lemma list_bless_member: "r \<in> set (list_bless s) \<longleftrightarrow> load_bless s (br_profile r) = Some r"
  unfolding list_bless_rec load_bless_rec by (rule bless.list_member)

lemma load_bless_sound:
  "load_bless s p = Some r \<Longrightarrow> br_profile r = p \<and> sound_bless r \<and> valid_token p"
  unfolding load_bless_rec by (rule bless.load_sound)

lemma load_pin_sound:
  "load_pin s p = Some r \<Longrightarrow> pr_profile r = p \<and> sound_pin r \<and> valid_token p"
  unfolding load_pin_rec by (rule pins.load_sound)

lemma put_wf:
  "wf_store s \<Longrightarrow> wf_dir d \<Longrightarrow> wf_store (s\<lparr>st_blessed := d\<rparr>)"
  "wf_store s \<Longrightarrow> wf_dir d \<Longrightarrow> wf_store (s\<lparr>st_pinned := d\<rparr>)"
  "wf_store s \<Longrightarrow> wf_dir d \<Longrightarrow> wf_store (s\<lparr>st_applied := d\<rparr>)"
  "wf_store s \<Longrightarrow> wf_dir d \<Longrightarrow> wf_store (s\<lparr>st_fault := d\<rparr>)"
  "wf_store s \<Longrightarrow> wf_dir d \<Longrightarrow> wf_store (s\<lparr>st_root := d\<rparr>)"
  by (simp_all add: wf_store_def)

text \<open>The applied marker: what loads is the sorted set that was written.\<close>

lemma applied_lines_body:
  "applied_lines (map (\<lambda>a. ''addr '' @ ipv4_show a) xs @ [''END'']) acc = acc @ xs"
  by (induction xs arbitrary: acc) simp_all

lemma load_write_applied:
  "write_applied s p addrs = Inr s' \<Longrightarrow> load_applied s' p = remdups_adj (sort addrs)"
proof -
  let ?xs = "remdups_adj (sort addrs)"
  assume w: "write_applied s p addrs = Inr s'"
  then obtain d where d: "valid_token p"
      "atomic_write (st_applied s) p (applied_body p ?xs) = Inr d" "st_applied s' = d"
    by (auto simp: write_applied_def res_simps split: if_splits)
  have lt: "\<forall>l \<in> set ([''SHREK-EGRESS-APPLIED 1'', ''profile '' @ p]
      @ map (\<lambda>a. ''addr '' @ ipv4_show a) ?xs @ [''END'']). text_line l"
    using d(1) by (auto simp: valid_token_text is_graphic_def)
  have "read_to_string d p = Some (applied_body p ?xs)"
    by (rule read_write [OF d(2)]) (simp only: applied_body_def lines_text(2) [OF lt])
  moreover have "str_lines (applied_body p ?xs) = ''SHREK-EGRESS-APPLIED 1'' # (''profile '' @ p)
      # map (\<lambda>a. ''addr '' @ ipv4_show a) ?xs @ [''END'']"
    by (simp only: applied_body_def lines_text(1) [OF lt]) simp
  ultimately show ?thesis
    using d applied_lines_body [of ?xs "[]"] by (simp add: load_applied_def)
qed

section \<open>Facts: reasons\<close>

lemma ctl_to_space_no_control: "c \<in> set (ctl_to_space s) \<Longrightarrow> \<not> is_control c"
  by (induction s rule: ctl_to_space.induct) (auto simp: is_control_def split: if_splits)

lemma one_line_clean: "one_line s = Some t \<Longrightarrow> length t \<le> 200 \<and> clean_line t"
proof -
  assume "one_line s = Some t"
  then obtain u where u: "str_truncate 200 (ctl_to_space s) = Some u" "t = str_trim u"
    by (auto simp: one_line_def)
  have "set u \<subseteq> set (ctl_to_space s)"
    using u(1) by (auto simp: str_truncate_def split: if_splits dest: in_set_takeD)
  then have "\<forall>c \<in> set t. \<not> is_control c"
    using u(2) str_trim_set ctl_to_space_no_control by blast
  moreover have "is_control nl" "is_control cr"
    by (simp_all add: is_control_def)
  moreover have "length t \<le> length u"
    using u(2) by (simp add: str_trim_length)
  moreover have "length u \<le> 200"
    using u(1) by (auto simp: str_truncate_def split: if_splits)
  ultimately show ?thesis
    using clean_lineI [of t] by (meson le_trans)
qed

text \<open>An ASCII reason never panics.\<close>

lemma ctl_to_space_ascii: "\<forall>c \<in> set s. c < CHR 0x80 \<Longrightarrow> \<forall>c \<in> set (ctl_to_space s). c < CHR 0x80"
  by (induction s rule: ctl_to_space.induct) (auto simp: less_char_def)

lemma one_line_ascii: "\<forall>c \<in> set s. c < CHR 0x80 \<Longrightarrow> one_line s \<noteq> None"
proof -
  assume "\<forall>c \<in> set s. c < CHR 0x80"
  then have "\<forall>c \<in> set (ctl_to_space s). c < CHR 0x80"
    by (rule ctl_to_space_ascii)
  then show ?thesis
    by (auto simp: one_line_def str_truncate_def cont_byte_def less_le_not_le dest!: nth_mem)
qed

section \<open>Properties\<close>

definition weather_bless :: bless_record where
  "weather_bless = \<lparr>br_profile = ''weather'', br_tier = ''one-click'', br_blessed = 7\<rparr>"

definition weather_pins :: pin_record where
  "weather_pins = \<lparr>pr_profile = ''weather'',
     pr_pins = [\<lparr>pin_name = ''api.open-meteo.com'', pin_addr = Ipv4 1 2 3 4\<rparr>], pr_resolved = 7\<rparr>"

lemma weather_storable: "storable_bless weather_bless" "storable_pin weather_pins"
  by code_simp+

text \<open>Stores that accept the two records.\<close>

lemma empty_store_accepts:
  "storable_bless r \<Longrightarrow> \<exists>s'. write_bless empty_store r = Inr s'"
  "storable_pin q \<Longrightarrow> \<exists>s'. write_pin empty_store q = Inr s'"
  by (simp_all add: write_bless_Inr write_pin_Inr empty_store_def empty_dir_def atomic_write_Inr)

text \<open>
  a bless that is written is read back exactly, and no other profile's bless is affected.
\<close>

theorem bless_write_read:
  assumes "write_bless s r = Inr s'"
  shows "load_bless s' = (load_bless s)(br_profile r := Some r)"
proof -
  obtain d where d: "storable_bless r" "atomic_write (st_blessed s) (br_profile r) (bless_body r) = Inr d"
      "s' = s\<lparr>st_blessed := d\<rparr>"
    using assms unfolding write_bless_Inr by blast
  show ?thesis
    using bless.load_write [OF d(1,2)] bless.load_write_other [OF d(2)]
    by (auto simp: fun_eq_iff load_bless_rec d(3))
qed

theorem bless_write_read_witness:
  "\<exists>s'. load_bless s' = (load_bless empty_store)(''weather'' := Some weather_bless)"
  using empty_store_accepts(1) [OF weather_storable(1)] bless_write_read [of empty_store weather_bless]
  by (auto simp: weather_bless_def)

text \<open>
  a pin record that is written is read back exactly, and no other profile's pins are affected.
\<close>

theorem pins_write_read:
  assumes "write_pin s r = Inr s'"
  shows "load_pin s' = (load_pin s)(pr_profile r := Some r)"
proof -
  obtain d where d: "storable_pin r" "atomic_write (st_pinned s) (pr_profile r) (pin_body r) = Inr d"
      "s' = s\<lparr>st_pinned := d\<rparr>"
    using assms unfolding write_pin_Inr by blast
  show ?thesis
    using pins.load_write [OF d(1,2)] pins.load_write_other [OF d(2)]
    by (auto simp: fun_eq_iff load_pin_rec d(3))
qed

lemma weather_pins_written: "\<exists>s'. write_pin empty_store weather_pins = Inr s'"
  by (rule empty_store_accepts(2) [OF weather_storable(2)])

theorem pins_write_read_witness:
  "\<exists>s'. load_pin s' = (load_pin empty_store)(''weather'' := Some weather_pins)"
proof -
  obtain s' where s': "write_pin empty_store weather_pins = Inr s'"
    using weather_pins_written by blast
  have "pr_profile weather_pins = ''weather''" by (simp add: weather_pins_def)
  then show ?thesis using pins_write_read [OF s'] by metis
qed

text \<open>
  whatever bytes lie in the store, a pin record that loads is of a sealed profile that may be
  pinned, carries the name it was asked for, and names only hosts of that profile.
\<close>

theorem loaded_pins_sealed:
  assumes "load_pin s n = Some r"
  shows "is_sealed_profile n \<and> \<not> is_broad_profile n \<and> pr_profile r = n
    \<and> pin_name ` set (pr_pins r) \<subseteq> set (sealed_hosts n)"
  using load_pin_sound [OF assms] by (auto simp: sound_pin_def)

theorem loaded_pins_sealed_witness:
  "pin_name ` set (pr_pins weather_pins) \<subseteq> set (sealed_hosts ''weather'')"
proof -
  obtain s' d where s': "s' = empty_store\<lparr>st_pinned := d\<rparr>"
      "atomic_write (st_pinned empty_store) (pr_profile weather_pins) (pin_body weather_pins) = Inr d"
    using weather_pins_written unfolding write_pin_Inr by blast
  have "load_pin s' ''weather'' = Some weather_pins"
    using pins.load_write [OF weather_storable(2) s'(2)] by (simp add: load_pin_rec s'(1) weather_pins_def)
  then show ?thesis by (rule loaded_pins_sealed [THEN conjunct2, THEN conjunct2, THEN conjunct2])
qed

text \<open>
  flattening a diagnostic to one line can stop the daemon: a text whose 200th byte lies inside
  a character makes \<open>String::truncate\<close> panic, so the fault is never written.
\<close>

theorem one_line_panics:
  "one_line (replicate 199 (CHR ''a'') @ [CHR 0xC3, CHR 0xA9]) = None
   \<and> write_fault empty_store ''weather'' ApplyFail (replicate 199 (CHR ''a'') @ [CHR 0xC3, CHR 0xA9]) at = None"
proof -
  have plain: "ctl_to_space (c # s) = c # ctl_to_space s" if "\<not> is_control c" "c \<noteq> CHR 0xC2" for c s
    using that by (cases s) simp_all
  have "ctl_to_space (replicate n (CHR ''a'') @ [CHR 0xC3, CHR 0xA9])
      = replicate n (CHR ''a'') @ [CHR 0xC3, CHR 0xA9]" for n
    by (induction n) (simp_all add: plain byte_class_defs)
  moreover have "cont_byte (CHR 0xA9)" by code_simp
  ultimately have "one_line (replicate 199 (CHR ''a'') @ [CHR 0xC3, CHR 0xA9]) = None"
    by (simp add: one_line_def str_truncate_def nth_append)
  moreover have "valid_token ''weather''" by code_simp
  ultimately show ?thesis by (simp add: write_fault_def)
qed

end
