(* ===== verification/Egress_Protocol.thy ===== *)
theory Egress_Protocol
  imports Egress_Store
begin

text \<open>
  The front door of the supervisor, \<open>crates/egressd/src/supervisor.rs\<close>: the requests, their
  fail-closed parser, the bounded read of one line from a stream that delivers it in pieces, the
  identity-then-authority gate and the sliding-window rate limiter.  An \<open>Instant\<close> is a number of
  nanoseconds; \<open>duration_since\<close> saturates at zero, as subtraction of naturals does.
\<close>

section \<open>Requests\<close>

definition REQ_MAX :: nat where "REQ_MAX = 128"
definition REQ_MAX_PRIV :: nat where "REQ_MAX_PRIV = 384"
definition DESKTOP_UID :: u32 where "DESKTOP_UID = 1000"
definition RATE_MAX :: nat where "RATE_MAX = 6"
definition RATE_WINDOW :: nat where "RATE_WINDOW = 30 * 1000000000"

datatype request =
    Status
  | Bless string
  | Unbless string
  | Repin string
  | BrowserUp
  | Bind string string
  | Unbind string
  | Want string
  | ConfirmedBless string
  | ConfirmedUnbless string
  | ConfirmedAddRaw string
  | ConfirmedRemoveRaw string
  | ConfirmedManifestInstall string
  | ConfirmedManifestRemove string

definition is_mutating :: "request \<Rightarrow> bool" where
  "is_mutating r \<longleftrightarrow> r \<noteq> Status"

fun is_privileged :: "request \<Rightarrow> bool" where
  "is_privileged (ConfirmedBless _) = True"
| "is_privileged (ConfirmedUnbless _) = True"
| "is_privileged (ConfirmedAddRaw _) = True"
| "is_privileged (ConfirmedRemoveRaw _) = True"
| "is_privileged (ConfirmedManifestInstall _) = True"
| "is_privileged (ConfirmedManifestRemove _) = True"
| "is_privileged _ = False"

fun is_hosts :: "request \<Rightarrow> bool" where
  "is_hosts (Bind _ _) = True"
| "is_hosts (Unbind _) = True"
| "is_hosts _ = False"

fun verb_of :: "request \<Rightarrow> string" where
  "verb_of Status = ''status''"
| "verb_of (Bless _) = ''bless''"
| "verb_of (Unbless _) = ''unbless''"
| "verb_of (Repin _) = ''repin''"
| "verb_of BrowserUp = ''browser-up''"
| "verb_of (Bind _ _) = ''bind''"
| "verb_of (Unbind _) = ''unbind''"
| "verb_of (Want _) = ''want''"
| "verb_of (ConfirmedBless _) = ''confirmed-bless''"
| "verb_of (ConfirmedUnbless _) = ''confirmed-unbless''"
| "verb_of (ConfirmedAddRaw _) = ''confirmed-add-raw''"
| "verb_of (ConfirmedRemoveRaw _) = ''confirmed-remove-raw''"
| "verb_of (ConfirmedManifestInstall _) = ''confirmed-manifest-install''"
| "verb_of (ConfirmedManifestRemove _) = ''confirmed-manifest-remove''"

fun request_profile :: "request \<Rightarrow> string" where
  "request_profile Status = ''-''"
| "request_profile BrowserUp = ''-''"
| "request_profile (Bless p) = p"
| "request_profile (Unbless p) = p"
| "request_profile (Repin p) = p"
| "request_profile (Bind t _) = t"
| "request_profile (Unbind t) = t"
| "request_profile (Want t) = t"
| "request_profile (ConfirmedManifestInstall n) = n"
| "request_profile (ConfirmedManifestRemove n) = n"
| "request_profile (ConfirmedBless p) = p"
| "request_profile (ConfirmedUnbless p) = p"
| "request_profile (ConfirmedAddRaw _) = ''raw''"
| "request_profile (ConfirmedRemoveRaw _) = ''raw''"

section \<open>The parser\<close>

definition want_profile :: "string option \<Rightarrow> (string, string) result" where
  "want_profile p =
     (case p of
        None \<Rightarrow> Inl ''verb needs a profile''
      | Some t \<Rightarrow> if \<not> valid_token t then Inl ''invalid profile token'' else Inr t)"

definition want_raw :: "string option \<Rightarrow> (string, string) result" where
  "want_raw p =
     (case p of
        None \<Rightarrow> Inl ''verb needs a destination''
      | Some d \<Rightarrow> rbind (parse_raw_triple d) (\<lambda>t. Inr (to_wire t)))"

definition provider_token_ok :: "string \<Rightarrow> bool" where
  "provider_token_ok t \<longleftrightarrow> \<not> (\<not> valid_token t \<or> provider_host t = None)"

definition parse_bind :: "string option \<Rightarrow> string option \<Rightarrow> (string, request) result" where
  "parse_bind a b =
     (case a of
        None \<Rightarrow> Inl ''bind needs a provider token''
      | Some token \<Rightarrow>
          (case b of
             None \<Rightarrow> Inl ''bind needs an address''
           | Some addr \<Rightarrow>
               if \<not> provider_token_ok token then Inl ''unknown provider token''
               else case valid_bind_addr addr of
                 None \<Rightarrow> Inl ''address must be an IPv4 literal''
               | Some ip \<Rightarrow> Inr (Bind token (ipv4_show ip))))"

definition parse_unbind :: "string option \<Rightarrow> (string, request) result" where
  "parse_unbind a =
     (case a of
        None \<Rightarrow> Inl ''unbind needs a provider token''
      | Some token \<Rightarrow>
          if \<not> provider_token_ok token then Inl ''unknown provider token'' else Inr (Unbind token))"

definition parse_verb :: "string \<Rightarrow> string option \<Rightarrow> string option \<Rightarrow> (string, request) result" where
  "parse_verb verb a b =
     (if verb = ''status''
      then (if a \<noteq> None then Inl ''status takes no argument'' else Inr Status)
      else if verb = ''bless'' then rbind (want_profile a) (\<lambda>p. Inr (Bless p))
      else if verb = ''unbless'' then rbind (want_profile a) (\<lambda>p. Inr (Unbless p))
      else if verb = ''repin'' then rbind (want_profile a) (\<lambda>p. Inr (Repin p))
      else if verb = ''browser-up''
      then (if a \<noteq> None then Inl ''browser-up takes no argument'' else Inr BrowserUp)
      else if verb = ''bind'' then parse_bind a b
      else if verb = ''unbind'' then parse_unbind a
      else if verb = ''want'' then rbind (want_profile a) (\<lambda>p. Inr (Want p))
      else if verb = ''confirmed-bless'' then rbind (want_profile a) (\<lambda>p. Inr (ConfirmedBless p))
      else if verb = ''confirmed-unbless'' then rbind (want_profile a) (\<lambda>p. Inr (ConfirmedUnbless p))
      else if verb = ''confirmed-add-raw'' then rbind (want_raw a) (\<lambda>w. Inr (ConfirmedAddRaw w))
      else if verb = ''confirmed-remove-raw'' then rbind (want_raw a) (\<lambda>w. Inr (ConfirmedRemoveRaw w))
      else if verb = ''confirmed-manifest-install''
      then rbind (want_profile a) (\<lambda>p. Inr (ConfirmedManifestInstall p))
      else if verb = ''confirmed-manifest-remove''
      then rbind (want_profile a) (\<lambda>p. Inr (ConfirmedManifestRemove p))
      else Inl ''unknown verb'')"

text \<open>The \<open>i\<close>-th of the fields \<open>tok.next()\<close> delivers.\<close>

definition field :: "string list \<Rightarrow> nat \<Rightarrow> string option" where
  "field ts i = (if i < length ts then Some (ts ! i) else None)"

definition parse_request :: "string \<Rightarrow> (string, request) result" where
  "parse_request raw =
     (if REQ_MAX_PRIV < length raw then Inl ''request too large''
      else let line = trim_end_matches {cr, nl} raw in
        if list_ex is_control line then Inl ''control character in request''
        else let ts = str_split_ws line in
          (case field ts 0 of
             None \<Rightarrow> Inl ''empty request''
           | Some verb \<Rightarrow>
               if verb \<noteq> ''bind'' \<and> field ts 2 \<noteq> None then Inl ''too many fields''
               else if verb = ''bind'' \<and> field ts 3 \<noteq> None then Inl ''too many fields''
               else parse_verb verb (field ts 1) (field ts 2)))"

section \<open>Reading one line\<close>

text \<open>What the stream delivers: a piece, an interruption, or an error; nothing left is the end.\<close>

datatype read_event = Piece string | Interrupted | Broken

text \<open>The position of the first line feed.\<close>

definition nl_pos :: "string \<Rightarrow> nat option" where
  "nl_pos s = (if nl \<in> set s then Some (length (takeWhile (\<lambda>c. c \<noteq> nl) s)) else None)"

fun event_size :: "read_event \<Rightarrow> nat" where
  "event_size (Piece s) = Suc (length s)"
| "event_size Interrupted = 1"
| "event_size Broken = 1"

function read_loop :: "read_event list \<Rightarrow> nat \<Rightarrow> string \<Rightarrow> (string, string) result" where
  "read_loop evs cap buf =
     (if REQ_MAX_PRIV + 1 \<le> length buf then Inl ''request too large''
      else case evs of
        [] \<Rightarrow> Inl ''disconnected before newline''
      | Interrupted # es \<Rightarrow> read_loop es cap buf
      | Broken # es \<Rightarrow> Inl ''read error''
      | Piece s # es \<Rightarrow>
          (if s = [] then Inl ''disconnected before newline''
           else let k = min (length s) (REQ_MAX_PRIV + 1 - length buf); got = take k s in
             case nl_pos got of
               Some rel \<Rightarrow>
                 (let end = length buf + rel in
                  if cap < end then Inl ''request too large''
                  else if utf8_ok (take end (buf @ got)) then Inr (take end (buf @ got))
                  else Inl ''non-utf8 request'')
             | None \<Rightarrow>
                 (if cap < length buf + k then Inl ''request too large''
                  else read_loop (if k < length s then Piece (drop k s) # es else es) cap (buf @ got))))"
  by pat_completeness auto
termination
  by (relation "measure (\<lambda>(evs, cap, buf). sum_list (map event_size evs))")
    (auto simp: min_def neq_Nil_conv split: if_splits)

declare read_loop.simps [simp del]

definition read_request :: "read_event list \<Rightarrow> nat \<Rightarrow> (string, string) result" where
  "read_request evs limit = read_loop evs (min limit REQ_MAX_PRIV) []"

section \<open>Authorization\<close>

datatype decision = Allow | Deny string

definition authorize :: "u32 \<Rightarrow> request \<Rightarrow> u32 \<Rightarrow> decision" where
  "authorize peer_uid req desktop_uid =
     (if is_privileged req
      then (if peer_uid = 0 then Allow
            else Deny ''ceremony-commit is root-only (bypasses the console ceremony)'')
      else if peer_uid \<noteq> desktop_uid then Deny ''peer is not the desktop user''
      else case req of
        Status \<Rightarrow> Allow
      | BrowserUp \<Rightarrow> Allow
      | Bless p \<Rightarrow> (if admits_socket_bless p then Allow
                    else Deny ''profile not one-click blessable (baseline/broad/unknown)'')
      | Repin p \<Rightarrow> (if admits_socket_bless p then Allow
                    else Deny ''profile not one-click blessable (baseline/broad/unknown)'')
      | Unbless p \<Rightarrow> (if admits_socket_bless p then Allow
                      else Deny ''profile not one-click blessable (baseline/broad/unknown)'')
      | Bind _ _ \<Rightarrow> Allow
      | Unbind _ \<Rightarrow> Allow
      | Want _ \<Rightarrow> Allow
      | _ \<Rightarrow> Deny ''unexpected verb'')"

section \<open>Rate limiting\<close>

record rate_limiter =
  rl_window :: nat
  rl_max :: nat
  rl_hits :: "nat list"

definition new_limiter :: "nat \<Rightarrow> nat \<Rightarrow> rate_limiter" where
  "new_limiter window m = \<lparr>rl_window = window, rl_max = m, rl_hits = []\<rparr>"

fun prune :: "nat \<Rightarrow> nat \<Rightarrow> nat list \<Rightarrow> nat list" where
  "prune window now [] = []"
| "prune window now (front # hits) =
     (if window < now - front then prune window now hits else front # hits)"

definition rl_check :: "rate_limiter \<Rightarrow> nat \<Rightarrow> bool \<times> rate_limiter" where
  "rl_check l now =
     (let hits = prune (rl_window l) now (rl_hits l) in
      if rl_max l \<le> length hits then (False, l\<lparr>rl_hits := hits\<rparr>)
      else (True, l\<lparr>rl_hits := hits @ [now]\<rparr>))"

section \<open>Facts: authorization\<close>

lemma authorize_iff:
  "authorize u r d = Allow \<longleftrightarrow>
     (if is_privileged r then u = 0
      else u = d \<and> (\<forall>p. r \<in> {Bless p, Repin p, Unbless p} \<longrightarrow> p = ''weather''))"
  by (cases r) (auto simp: authorize_def admits_socket_bless_iff)

section \<open>Facts: the parser\<close>

fun wf_request :: "request \<Rightarrow> bool" where
  "wf_request Status = True"
| "wf_request BrowserUp = True"
| "wf_request (Bind t a) = (provider_token_ok t \<and> (\<exists>ip. a = ipv4_show ip))"
| "wf_request (Unbind t) = provider_token_ok t"
| "wf_request (ConfirmedAddRaw w) = (\<exists>t. wf_triple t \<and> w = to_wire t)"
| "wf_request (ConfirmedRemoveRaw w) = (\<exists>t. wf_triple t \<and> w = to_wire t)"
| "wf_request r = valid_token (request_profile r)"

lemma want_profile_Inr [res_simps]: "want_profile a = Inr p \<longleftrightarrow> a = Some p \<and> valid_token p"
  by (auto simp: want_profile_def split: option.splits)

lemma want_raw_Inr: "want_raw a = Inr w \<Longrightarrow> \<exists>t. wf_triple t \<and> w = to_wire t"
  by (auto simp: want_raw_def res_simps dest: parse_raw_triple_wf split: option.splits)

lemma parse_verb_wf: "parse_verb v a b = Inr r \<Longrightarrow> wf_request r \<and> verb_of r = v"
  by (auto simp: parse_verb_def parse_bind_def parse_unbind_def res_simps dest: want_raw_Inr
      split: if_splits option.splits)

lemma parse_request_elim:
  assumes "parse_request raw = Inr r"
  obtains ts where "str_split_ws (trim_end_matches {cr, nl} raw) = ts" "field ts 0 = Some (verb_of r)"
    "parse_verb (verb_of r) (field ts 1) (field ts 2) = Inr r" "wf_request r"
    "verb_of r \<noteq> ''bind'' \<longrightarrow> length ts \<le> 2" "length ts \<le> 3"
proof -
  let ?ts = "str_split_ws (trim_end_matches {cr, nl} raw)"
  from assms obtain v where v: "field ?ts 0 = Some v" "parse_verb v (field ?ts 1) (field ?ts 2) = Inr r"
      "\<not> (v \<noteq> ''bind'' \<and> field ?ts 2 \<noteq> None)" "\<not> (v = ''bind'' \<and> field ?ts 3 \<noteq> None)"
    unfolding parse_request_def Let_def by (auto split: if_splits option.splits)
  moreover have "verb_of r = v" "wf_request r"
    using parse_verb_wf [OF v(2)] by simp_all
  ultimately show ?thesis
    by (intro that [of ?ts]) (auto simp: field_def split: if_splits)
qed

text \<open>The line a client writes for a request.\<close>

fun request_args :: "request \<Rightarrow> string list" where
  "request_args Status = []"
| "request_args BrowserUp = []"
| "request_args (Bind t a) = [t, a]"
| "request_args (Unbind t) = [t]"
| "request_args (ConfirmedAddRaw w) = [w]"
| "request_args (ConfirmedRemoveRaw w) = [w]"
| "request_args r = [request_profile r]"

definition render_request :: "request \<Rightarrow> string" where
  "render_request r = str_join [sp] (verb_of r # request_args r)"

lemma verb_graphic: "verb_of r \<noteq> [] \<and> (\<forall>c \<in> set (verb_of r). is_graphic c) \<and> length (verb_of r) \<le> 26"
  by (cases r) (simp_all add: is_graphic_def)

lemma valid_token_graphic: "valid_token t \<Longrightarrow> t \<noteq> [] \<and> (\<forall>c \<in> set t. is_graphic c) \<and> length t \<le> 64"
  by (auto simp: valid_token_def list_all_iff token_byte_graphic)

lemma to_wire_ok: "wf_triple t \<Longrightarrow> to_wire t \<noteq> [] \<and> (\<forall>c \<in> set (to_wire t). is_graphic c) \<and> length (to_wire t) \<le> 300"
  using to_wire_graphic [of t] valid_raw_host_length [of "rt_host t"] show_port_length [of "rt_port t"]
  by (auto simp: to_wire_def wf_triple_def)

lemma args_graphic:
  assumes "wf_request r" "a \<in> set (request_args r)"
  shows "a \<noteq> [] \<and> (\<forall>c \<in> set a. is_graphic c) \<and> length a \<le> 300"
proof -
  consider "valid_token a" | ip where "a = ipv4_show ip" | t where "wf_triple t" "a = to_wire t"
    using assms by (cases r) (auto simp: provider_token_ok_def)
  then show ?thesis
  proof cases
    case 1
    then show ?thesis using valid_token_graphic [of a] by simp
  next
    case (2 ip)
    then show ?thesis using ipv4_show_length [of ip] by simp
  next
    case (3 t)
    then show ?thesis using to_wire_ok [of t] by simp
  qed
qed

lemma request_args_length: "length (request_args r) \<le> (if verb_of r = ''bind'' then 2 else 1)"
  by (cases r) simp_all

lemma render_length: "wf_request r \<Longrightarrow> length (render_request r) \<le> REQ_MAX_PRIV"
proof (cases "\<exists>t a. r = Bind t a")
  case True
  assume "wf_request r"
  with True obtain t ip where "r = Bind t (ipv4_show ip)" "valid_token t"
    by (auto simp: provider_token_ok_def)
  then show ?thesis
    using valid_token_graphic [of t] ipv4_show_length [of ip]
    by (simp add: render_request_def REQ_MAX_PRIV_def)
next
  case False
  assume wf: "wf_request r"
  from False have "request_args r = [] \<or> (\<exists>a. request_args r = [a])" by (cases r) auto
  then show ?thesis
    using args_graphic [OF wf] verb_graphic [of r]
    by (auto simp: render_request_def REQ_MAX_PRIV_def)
qed

lemma join_tokens:
  "\<forall>t \<in> set ts. t \<noteq> [] \<and> (\<forall>c \<in> set t. is_graphic c) \<Longrightarrow> ts \<noteq> [] \<Longrightarrow>
     str_split_ws (str_join [sp] ts) = ts \<and> str_join [sp] ts \<noteq> []
     \<and> is_graphic (last (str_join [sp] ts)) \<and> (\<forall>c \<in> set (str_join [sp] ts). is_graphic c \<or> c = sp)"
proof (induction ts rule: induct_list012)
  case (3 x y zs)
  then show ?case by auto
qed auto

lemma parse_verb_args:
  "wf_request r \<Longrightarrow> parse_verb (verb_of r) (field (verb_of r # request_args r) 1)
     (field (verb_of r # request_args r) 2) = Inr r"
  by (cases r) (auto simp: parse_verb_def field_def want_profile_def want_raw_def parse_bind_def
      parse_unbind_def)

lemma parse_render_request: "wf_request r \<Longrightarrow> parse_request (render_request r) = Inr r"
proof -
  assume wf: "wf_request r"
  let ?ts = "verb_of r # request_args r"
  have toks: "\<forall>t \<in> set ?ts. t \<noteq> [] \<and> (\<forall>c \<in> set t. is_graphic c)"
    using args_graphic [OF wf] verb_graphic [of r] by auto
  note j = join_tokens [OF toks, simplified, folded render_request_def]
  have "last (render_request r) \<notin> {cr, nl}"
    using j graphic_not_special by blast
  then have line: "trim_end_matches {cr, nl} (render_request r) = render_request r"
    using j by (intro trim_end_matches_last) simp_all
  have "\<not> is_control c" if "c \<in> set (render_request r)" for c
    using that j graphic_not_ws_control [of c] by (auto simp: is_control_def)
  then have "\<not> list_ex is_control (render_request r)"
    by (auto simp: list_ex_iff)
  moreover have "verb_of r = ''bind'' \<or> field ?ts 2 = None" "field ?ts 3 = None"
    using request_args_length [of r] by (auto simp: field_def split: if_splits)
  moreover have "field ?ts 0 = Some (verb_of r)"
    by (simp add: field_def)
  moreover have "\<not> REQ_MAX_PRIV < length (render_request r)"
    using render_length [OF wf] by simp
  moreover have "str_split_ws (render_request r) = ?ts"
    using j by blast
  ultimately show ?thesis
    unfolding parse_request_def Let_def line using parse_verb_args [OF wf]
    by (simp del: One_nat_def)
qed

section \<open>Facts: reading a line\<close>

fun stream_bytes :: "read_event list \<Rightarrow> string" where
  "stream_bytes [] = []"
| "stream_bytes (Interrupted # es) = stream_bytes es"
| "stream_bytes (Broken # es) = []"
| "stream_bytes (Piece s # es) = (if s = [] then [] else s @ stream_bytes es)"

lemma nl_pos_append: "nl \<notin> set a \<Longrightarrow> nl_pos (a @ nl # b) = Some (length a)"
  by (induction a) (auto simp: nl_pos_def)

lemma nl_pos_None: "nl \<notin> set a \<Longrightarrow> nl_pos a = None"
  by (simp add: nl_pos_def)

lemma first_nl_unique: "a @ nl # b = s @ nl # r \<Longrightarrow> nl \<notin> set a \<Longrightarrow> nl \<notin> set s \<Longrightarrow> a = s"
proof (induction a arbitrary: s)
  case Nil
  then show ?case by (cases s) auto
next
  case (Cons c a)
  then show ?case by (cases s) auto
qed

text \<open>
  One step of the loop on a piece: \<open>got\<close> is what fits, \<open>es'\<close> what is left of the stream.
\<close>

lemma piece_step:
  assumes "s \<noteq> []" "length buf < REQ_MAX_PRIV + 1"
  obtains got es' where "got \<noteq> []" "stream_bytes (Piece s # es) = got @ stream_bytes es'"
    "\<And>cap. read_loop (Piece s # es) cap buf =
       (case nl_pos got of
          Some rel \<Rightarrow>
            (if cap < length buf + rel then Inl ''request too large''
             else if utf8_ok (take (length buf + rel) (buf @ got))
             then Inr (take (length buf + rel) (buf @ got)) else Inl ''non-utf8 request'')
        | None \<Rightarrow> (if cap < length buf + length got then Inl ''request too large''
                   else read_loop es' cap (buf @ got)))"
    "sum_list (map event_size es') < sum_list (map event_size (Piece s # es))"
proof -
  let ?k = "min (length s) (REQ_MAX_PRIV + 1 - length buf)"
  let ?got = "take ?k s"
  let ?es = "if ?k < length s then Piece (drop ?k s) # es else es"
  have k: "0 < ?k" using assms by simp
  then have "?got \<noteq> []" using assms(1) by simp
  moreover have "stream_bytes (Piece s # es) = ?got @ stream_bytes ?es"
    using assms(1) by auto
  moreover have "sum_list (map event_size ?es) < sum_list (map event_size (Piece s # es))"
    using k assms(1) by auto
  moreover have "length ?got = ?k" by simp
  ultimately show ?thesis
    using assms
    by (intro that [of ?got ?es]) (simp_all add: read_loop.simps [of "Piece s # es"] Let_def split: option.split)
qed

lemma read_loop_steps:
  "length buf < REQ_MAX_PRIV + 1 \<Longrightarrow> read_loop (Interrupted # es) cap buf = read_loop es cap buf"
  "length buf < REQ_MAX_PRIV + 1 \<Longrightarrow> read_loop (Broken # es) cap buf = Inl ''read error''"
  "length buf < REQ_MAX_PRIV + 1 \<Longrightarrow> read_loop [] cap buf = Inl ''disconnected before newline''"
  "length buf < REQ_MAX_PRIV + 1 \<Longrightarrow> read_loop (Piece [] # es) cap buf = Inl ''disconnected before newline''"
  by (subst read_loop.simps, simp)+

lemma read_loop_line:
  "stream_bytes evs = l @ nl # rest \<Longrightarrow> nl \<notin> set l \<Longrightarrow> length buf \<le> cap \<Longrightarrow> cap \<le> REQ_MAX_PRIV \<Longrightarrow>
   read_loop evs cap buf =
     (if cap < length buf + length l then Inl ''request too large''
      else if utf8_ok (buf @ l) then Inr (buf @ l) else Inl ''non-utf8 request'')"
proof (induction "sum_list (map event_size evs)" arbitrary: evs buf l rule: less_induct)
  case less
  have small: "length buf < REQ_MAX_PRIV + 1" using less.prems by simp
  show ?case
  proof (cases evs)
    case Nil
    then show ?thesis using less.prems by simp
  next
    case (Cons e es)
    show ?thesis
    proof (cases e)
      case (Piece s)
      have "s \<noteq> []" using less.prems(1) Cons Piece by (cases "s = []") auto
      then obtain got es' where g: "got \<noteq> []" "stream_bytes evs = got @ stream_bytes es'"
        and step: "\<And>cap. read_loop evs cap buf =
         (case nl_pos got of
            Some rel \<Rightarrow>
              (if cap < length buf + rel then Inl ''request too large''
               else if utf8_ok (take (length buf + rel) (buf @ got))
               then Inr (take (length buf + rel) (buf @ got)) else Inl ''non-utf8 request'')
          | None \<Rightarrow> (if cap < length buf + length got then Inl ''request too large''
                     else read_loop es' cap (buf @ got)))"
        and smaller: "sum_list (map event_size es') < sum_list (map event_size evs)"
        using piece_step [of s buf es thesis] small Cons Piece by blast
      show ?thesis
      proof (cases "nl \<in> set got")
        case True
        then obtain a b where ab: "got = a @ nl # b" "nl \<notin> set a"
          using split_list_first by fastforce
        then have "a = l"
          using first_nl_unique [of a "b @ stream_bytes es'" l rest] g(2) less.prems(1,2) by simp
        then show ?thesis
          using step ab by (simp add: nl_pos_append)
      next
        case False
        then obtain l' where l': "l = got @ l'" "stream_bytes es' = l' @ nl # rest"
          using g(2) less.prems(1) by (auto simp: append_eq_append_conv2 Cons_eq_append_conv)
        have "read_loop es' cap (buf @ got) =
            (if cap < length (buf @ got) + length l' then Inl ''request too large''
             else if utf8_ok ((buf @ got) @ l') then Inr ((buf @ got) @ l') else Inl ''non-utf8 request'')"
          if "length (buf @ got) \<le> cap"
          using less.hyps [OF smaller l'(2) _ that] less.prems l'(1) by simp
        then show ?thesis
          using step l'(1) by (simp add: nl_pos_None [OF False])
      qed
    next
      case Interrupted
      then show ?thesis
        using less.hyps [of es l buf] less.prems Cons small
        by (simp add: read_loop_steps)
    next
      case Broken
      then show ?thesis using less.prems Cons by simp
    qed
  qed
qed

lemma read_loop_no_line:
  "nl \<notin> set (stream_bytes evs) \<Longrightarrow> \<exists>e. read_loop evs cap buf = Inl e"
proof (induction "sum_list (map event_size evs)" arbitrary: evs buf rule: less_induct)
  case less
  show ?case
  proof (cases "length buf < REQ_MAX_PRIV + 1")
    case small: True
    show ?thesis
    proof (cases evs)
      case Nil
      then show ?thesis using small by (simp add: read_loop_steps)
    next
      case (Cons e es)
      show ?thesis
      proof (cases e)
        case (Piece s)
        show ?thesis
        proof (cases "s = []")
          case True
          then show ?thesis using Cons Piece small by (simp add: read_loop_steps)
        next
          case False
          obtain got es' where g: "stream_bytes evs = got @ stream_bytes es'"
            and step: "\<And>cap. read_loop evs cap buf =
             (case nl_pos got of
                Some rel \<Rightarrow>
                  (if cap < length buf + rel then Inl ''request too large''
                   else if utf8_ok (take (length buf + rel) (buf @ got))
                   then Inr (take (length buf + rel) (buf @ got)) else Inl ''non-utf8 request'')
              | None \<Rightarrow> (if cap < length buf + length got then Inl ''request too large''
                         else read_loop es' cap (buf @ got)))"
            and smaller: "sum_list (map event_size es') < sum_list (map event_size evs)"
            using piece_step [of s buf es thesis] False small Cons Piece by blast
          then show ?thesis
            using less.hyps [OF smaller, of "buf @ got"] less.prems by (simp add: nl_pos_None)
        qed
      next
        case Interrupted
        then show ?thesis
          using less.hyps [of es buf] less.prems Cons small by (simp add: read_loop_steps)
      next
        case Broken
        then show ?thesis using Cons small by (simp add: read_loop_steps)
      qed
    qed
  next
    case False
    then show ?thesis by (subst read_loop.simps) simp
  qed
qed

lemma read_request_iff:
  "read_request evs limit = Inr l \<longleftrightarrow>
     (\<exists>rest. stream_bytes evs = l @ nl # rest) \<and> nl \<notin> set l \<and> utf8_ok l
     \<and> length l \<le> min limit REQ_MAX_PRIV"
proof (cases "nl \<in> set (stream_bytes evs)")
  case True
  then obtain a rest where a: "stream_bytes evs = a @ nl # rest" "nl \<notin> set a"
    using split_list_first by fastforce
  have "read_request evs limit =
      (if min limit REQ_MAX_PRIV < length a then Inl ''request too large''
       else if utf8_ok a then Inr a else Inl ''non-utf8 request'')"
    using read_loop_line [OF a, of "[]" "min limit REQ_MAX_PRIV"] by (simp add: read_request_def)
  then show ?thesis
    using a first_nl_unique [of a rest l] by (auto split: if_splits)
next
  case False
  then show ?thesis
    using read_loop_no_line [OF False, of "min limit REQ_MAX_PRIV" "[]"] by (auto simp: read_request_def)
qed

section \<open>Facts: the rate limiter\<close>

text \<open>The accepted ones of a sequence of attempts.\<close>

fun rl_accepts :: "rate_limiter \<Rightarrow> nat list \<Rightarrow> nat list" where
  "rl_accepts l [] = []"
| "rl_accepts l (t # ts) =
     (case rl_check l t of (ok, l') \<Rightarrow> (if ok then t # rl_accepts l' ts else rl_accepts l' ts))"

definition spaced :: "nat \<Rightarrow> nat \<Rightarrow> nat list \<Rightarrow> bool" where
  "spaced window m xs \<longleftrightarrow> (\<forall>i. i + m < length xs \<longrightarrow> window < xs ! (i + m) - xs ! i)"

lemma prune_suffix:
  "\<exists>pre. hits = pre @ prune w now hits \<and> (\<forall>x \<in> set pre. w < now - x)"
proof (induction hits)
  case (Cons x hits)
  then obtain pre where "hits = pre @ prune w now hits" "\<forall>x \<in> set pre. w < now - x" by blast
  then show ?case
    by (cases "w < now - x") (intro exI [of _ "x # pre"], simp, intro exI [of _ "[]"], simp)
qed simp

lemma spaced_snoc:
  assumes "spaced w m (gone @ hits)" "length hits < m" "\<forall>x \<in> set gone. w < t - x"
  shows "spaced w m (gone @ hits @ [t])"
proof -
  have "w < (gone @ hits @ [t]) ! (i + m) - (gone @ hits @ [t]) ! i"
    if i: "i + m < length (gone @ hits @ [t])" for i
  proof (cases "i + m = length (gone @ hits)")
    case True
    then have "i < length gone" using assms(2) by simp
    moreover have "(gone @ hits @ [t]) ! (i + m) = t"
      using True by (metis append.assoc nth_append_length)
    ultimately show ?thesis
      using assms(3) by (simp add: nth_append)
  next
    case False
    then have "i + m < length (gone @ hits)" using i by simp
    then have "w < (gone @ hits) ! (i + m) - (gone @ hits) ! i"
      using assms(1) unfolding spaced_def by blast
    moreover have "(gone @ hits @ [t]) ! j = (gone @ hits) ! j" if "j < length (gone @ hits)" for j
      using that nth_append [of "gone @ hits" "[t]" j] by simp
    ultimately show ?thesis
      using \<open>i + m < length (gone @ hits)\<close> by simp
  qed
  then show ?thesis by (simp add: spaced_def)
qed

lemma rl_accepts_spaced:
  "sorted ts \<Longrightarrow> spaced (rl_window l) (rl_max l) (gone @ rl_hits l) \<Longrightarrow>
   \<forall>x \<in> set gone. \<forall>t \<in> set ts. rl_window l < t - x \<Longrightarrow>
   spaced (rl_window l) (rl_max l) (gone @ rl_hits l @ rl_accepts l ts)"
proof (induction ts arbitrary: l gone)
  case (Cons t ts)
  obtain pre where pre: "rl_hits l = pre @ prune (rl_window l) t (rl_hits l)"
      "\<forall>x \<in> set pre. rl_window l < t - x"
    using prune_suffix by blast
  let ?hits = "prune (rl_window l) t (rl_hits l)"
  have gone: "\<forall>x \<in> set (gone @ pre). \<forall>u \<in> set (t # ts). rl_window l < u - x"
    using Cons.prems pre(2) by (fastforce simp: less_diff_conv)
  have sp: "spaced (rl_window l) (rl_max l) ((gone @ pre) @ ?hits)"
    using Cons.prems(2) pre(1) by simp
  show ?case
  proof (cases "rl_max l \<le> length ?hits")
    case True
    let ?l = "l\<lparr>rl_hits := ?hits\<rparr>"
    have "spaced (rl_window l) (rl_max l) ((gone @ pre) @ ?hits @ rl_accepts ?l ts)"
      using Cons.IH [of ?l "gone @ pre"] Cons.prems(1) sp gone by simp
    then show ?thesis
      using True pre(1) by (simp add: rl_check_def Let_def) (metis append.assoc)
  next
    case False
    let ?l = "l\<lparr>rl_hits := ?hits @ [t]\<rparr>"
    have "spaced (rl_window l) (rl_max l) ((gone @ pre) @ ?hits @ [t])"
      using spaced_snoc [OF sp] False gone by simp
    then have "spaced (rl_window l) (rl_max l) ((gone @ pre) @ (?hits @ [t]) @ rl_accepts ?l ts)"
      using Cons.IH [of ?l "gone @ pre"] Cons.prems(1) gone by simp
    then show ?thesis
      using False pre(1) by (simp add: rl_check_def Let_def) (metis append.assoc)
  qed
qed simp

section \<open>Properties\<close>

text \<open>
  who may do what, exactly: a ceremony commit needs the root peer; anything else needs the
  desktop user, and a grant or revocation over the socket names the one profile that is one click
  away.
\<close>

theorem authorize_exactly:
  "authorize u r d = Allow \<longleftrightarrow>
     (if is_privileged r then u = 0
      else u = d \<and> r \<in> - (range Bless \<union> range Repin \<union> range Unbless)
                          \<union> {Bless ''weather'', Repin ''weather'', Unbless ''weather''})"
  unfolding authorize_iff by (cases r) auto

text \<open>
  the request grammar: whatever line parses, parses to a request whose own rendering parses to
  it again, so no line smuggles a parameter the request does not show.
\<close>

theorem request_grammar:
  "(\<exists>raw. parse_request raw = Inr r) \<longleftrightarrow> wf_request r \<and> parse_request (render_request r) = Inr r"
  using parse_request_elim parse_render_request by metis

text \<open>
  a request line is read the same however the stream is cut into pieces and wherever reads are
  interrupted: accepted exactly when it is the first line, valid UTF-8 and within the peer's limit.
\<close>

theorem read_request_chunk_independent:
  "read_request evs limit = Inr l \<longleftrightarrow>
     (\<exists>rest. stream_bytes evs = l @ nl # rest) \<and> nl \<notin> set l \<and> utf8_ok l \<and> length l \<le> min limit REQ_MAX_PRIV"
  by (rule read_request_iff)

text \<open>
  a limiter that starts empty never accepts more than its maximum within one window: of the
  accepted attempts, any one and the one \<open>max\<close> places later lie more than a window apart.
\<close>

theorem rate_limit_holds:
  assumes "sorted ts"
  shows "spaced w m (rl_accepts (new_limiter w m) ts)"
  using rl_accepts_spaced [OF assms, of "new_limiter w m" "[]"] by (simp add: new_limiter_def spaced_def)

theorem rate_limit_holds_witness:
  "spaced 30 2 (rl_accepts (new_limiter 30 2) [0, 1, 5, 40])
   \<and> rl_accepts (new_limiter 30 2) [0, 1, 5, 40] = [0, 1, 40]"
proof
  show "spaced 30 2 (rl_accepts (new_limiter 30 2) [0, 1, 5, 40])"
    by (rule rate_limit_holds) simp
  show "rl_accepts (new_limiter 30 2) [0, 1, 5, 40] = [0, 1, 40]" by code_simp
qed

end
