(* ===== verification/Egress_Client.thy ===== *)
theory Egress_Client
  imports Egress_Protocol
begin

text \<open>
  The capless client of \<open>egressd\<close>, \<open>client.rs\<close>: the one line it builds for a verb and its arguments, and
  the exit code it makes of the reply.  Connecting, writing and reading are parameters: an operation that
  fails is a missing reply.
\<close>

definition LINE_MAX :: nat where "LINE_MAX = 128"
definition LINE_MAX_PRIV :: nat where "LINE_MAX_PRIV = 384"

definition valid_client_token :: "string \<Rightarrow> bool" where
  "valid_client_token p \<longleftrightarrow>
     p \<noteq> [] \<and> length p \<le> 64 \<and> p \<noteq> ''.'' \<and> p \<noteq> ''..'' \<and> \<not> str_starts_with p ''.'' \<and> list_all token_byte p"

definition bounded_line :: "nat \<Rightarrow> string list \<Rightarrow> (string, string) result" where
  "bounded_line n ws =
     (let line = str_join [sp] ws @ [nl] in
      if n < length line then Inl ''request too large'' else Inr line)"

text \<open>The verbs that take one token and nothing else.\<close>

definition token_line :: "string \<Rightarrow> string option \<Rightarrow> string \<Rightarrow> string \<Rightarrow> (string, string) result" where
  "token_line verb a missing invalid =
     (case a of
        None \<Rightarrow> Inl missing
      | Some p \<Rightarrow> if \<not> valid_client_token p then Inl invalid else bounded_line LINE_MAX [verb, p])"

definition bind_line :: "string option \<Rightarrow> string option \<Rightarrow> (string, string) result" where
  "bind_line a b =
     (case a of
        None \<Rightarrow> Inl ''bind needs a provider''
      | Some p \<Rightarrow>
          (case b of
             None \<Rightarrow> Inl ''bind needs an address''
           | Some addr \<Rightarrow>
               if \<not> valid_client_token p then Inl ''invalid provider token''
               else if valid_bind_addr addr = None then Inl ''address must be an IPv4 literal''
               else bounded_line LINE_MAX [''bind'', p, addr]))"

definition raw_line :: "string \<Rightarrow> string option \<Rightarrow> (string, string) result" where
  "raw_line verb a =
     (case a of
        None \<Rightarrow> Inl (verb @ '' needs a host:proto:port destination'')
      | Some p \<Rightarrow>
          (case parse_raw_triple p of
             Inl e \<Rightarrow> Inl (''invalid destination: '' @ e)
           | Inr t \<Rightarrow> bounded_line LINE_MAX_PRIV [verb, to_wire t]))"

definition build_line :: "string \<Rightarrow> string option \<Rightarrow> string option \<Rightarrow> (string, string) result" where
  "build_line verb a b =
     (if verb \<noteq> ''bind'' \<and> b \<noteq> None then Inl (verb @ '' takes at most one argument'')
      else if verb = ''status'' then (if a \<noteq> None then Inl ''status takes no profile'' else Inr (''status'' @ [nl]))
      else if verb = ''bind'' then bind_line a b
      else if verb = ''unbind'' then token_line verb a ''unbind needs a provider'' ''invalid provider token''
      else if verb = ''browser-up''
      then (if a \<noteq> None then Inl ''browser-up takes no argument'' else Inr (''browser-up'' @ [nl]))
      else if verb = ''bless'' \<or> verb = ''unbless'' \<or> verb = ''repin''
      then token_line verb a (verb @ '' needs a profile'') ''invalid profile token''
      else if verb = ''want'' then token_line verb a ''want needs a capability token'' ''invalid capability token''
      else if verb = ''confirmed-manifest-install'' \<or> verb = ''confirmed-manifest-remove''
      then token_line verb a (verb @ '' needs a capability name'') ''invalid capability name''
      else if verb = ''confirmed-bless'' \<or> verb = ''confirmed-unbless''
      then token_line verb a (verb @ '' needs a profile'') ''invalid profile token''
      else if verb = ''confirmed-add-raw'' \<or> verb = ''confirmed-remove-raw'' then raw_line verb a
      else Inl (''unknown verb '' @ verb))"

text \<open>
  The exit code of \<open>ask\<close>: the daemon is a function from the line to the bytes it answers with, if the
  exchange works at all.  At most the bytes up to the first piece that holds a line feed are looked at.
\<close>

definition reply_code :: "string \<Rightarrow> int" where
  "reply_code buf =
     (let reply = trim_end_matches {cr, nl} buf in
      if reply = [] then 2 else if str_starts_with reply ''OK'' then 0 else 1)"

definition ask :: "(string \<Rightarrow> string option) \<Rightarrow> string list \<Rightarrow> int" where
  "ask daemon args =
     (case args of
        [] \<Rightarrow> 2
      | verb # rest \<Rightarrow>
          (case build_line verb (case rest of [] \<Rightarrow> None | a # _ \<Rightarrow> Some a)
                  (case rest of _ # b # _ \<Rightarrow> Some b | _ \<Rightarrow> None) of
             Inl _ \<Rightarrow> 2
           | Inr line \<Rightarrow> (case daemon line of None \<Rightarrow> 2 | Some buf \<Rightarrow> reply_code buf)))"

section \<open>The client and the daemon speak the same grammar\<close>

lemma client_token_eq: "valid_client_token = valid_token"
  by (rule ext) (auto simp: valid_client_token_def valid_token_def)

lemma bounded_line_two: "length v \<le> 26 \<Longrightarrow> length p \<le> 64 \<Longrightarrow>
    bounded_line LINE_MAX [v, p] = Inr (str_join [sp] [v, p] @ [nl])"
  by (simp add: bounded_line_def LINE_MAX_def)

lemma token_line_ok:
  "valid_token p \<Longrightarrow> length v \<le> 26 \<Longrightarrow> token_line v (Some p) x y = Inr (str_join [sp] [v, p] @ [nl])"
  using valid_token_graphic [of p] by (simp add: token_line_def client_token_eq bounded_line_two del: str_join.simps)

lemma raw_line_ok:
  "wf_triple t \<Longrightarrow> length v \<le> 26 \<Longrightarrow> raw_line v (Some (to_wire t)) = Inr (str_join [sp] [v, to_wire t] @ [nl])"
  using to_wire_ok [of t] by (simp add: raw_line_def bounded_line_def LINE_MAX_PRIV_def)

lemma bind_line_ok:
  "valid_token t \<Longrightarrow> bind_line (Some t) (Some (ipv4_show ip)) = Inr (str_join [sp] [''bind'', t, ipv4_show ip] @ [nl])"
  using valid_token_graphic [of t] ipv4_show_length [of ip]
  by (simp add: bind_line_def client_token_eq bounded_line_def LINE_MAX_def)

definition arg :: "request \<Rightarrow> nat \<Rightarrow> string option" where
  "arg r n = field (request_args r) n"

lemma client_line:
  assumes "wf_request r"
  shows "build_line (verb_of r) (arg r 0) (arg r 1) = Inr (render_request r @ [nl])"
proof (cases r)
  case (Bind t a)
  then obtain ip where "a = ipv4_show ip" "valid_token t" using assms by (auto simp: provider_token_ok_def)
  then show ?thesis
    by (simp add: Bind build_line_def arg_def field_def bind_line_ok render_request_def del: str_join.simps)
next
  case (Unbind t)
  then show ?thesis using assms
    by (simp add: build_line_def arg_def field_def token_line_ok render_request_def provider_token_ok_def del: str_join.simps)
next
  case (ConfirmedAddRaw w)
  then show ?thesis using assms
    by (auto simp: build_line_def arg_def field_def raw_line_ok render_request_def simp del: str_join.simps)
next
  case (ConfirmedRemoveRaw w)
  then show ?thesis using assms
    by (auto simp: build_line_def arg_def field_def raw_line_ok render_request_def simp del: str_join.simps)
qed (use assms in \<open>simp_all add: build_line_def arg_def field_def token_line_ok render_request_def del: str_join.simps\<close>,
    simp_all)

text \<open>
  Client and daemon agree on the protocol: for every request the daemon's parser can yield, the
  client builds a line from its verb and arguments, and the daemon parses that line back to the
  request, the raw destinations with ports and hosts of any length included.
\<close>

theorem client_speaks_protocol:
  assumes "wf_request r"
  shows "build_line (verb_of r) (arg r 0) (arg r 1) = Inr (render_request r @ [nl])
    \<and> parse_request (render_request r) = Inr r"
  using client_line [OF assms] parse_render_request [OF assms] ..

theorem client_speaks_protocol_witness:
  "build_line ''confirmed-bless'' (Some ''web-browsing'') None = Inr (''confirmed-bless web-browsing'' @ [nl])"
proof -
  have "valid_token ''web-browsing''" by code_simp
  then have "wf_request (ConfirmedBless ''web-browsing'')" by simp
  from client_speaks_protocol [OF this] show ?thesis
    by (simp add: arg_def field_def render_request_def)
qed

end
