(* ===== verification/Egress_Raw.thy ===== *)
theory Egress_Raw
  imports Egress_Store
begin

text \<open>
  The rest of \<open>crates/egressd/src/store.rs\<close>: the raw destinations of the ceremony tier and their
  resolved cache (one tab separated file each, rewritten as a whole), and the projections into the
  world-readable run directory: the pinned map, the state view and the bounded inbox of requests.
\<close>

section \<open>Raw destinations\<close>

definition tabs_to_colons :: "string \<Rightarrow> string" where
  "tabs_to_colons l = map (\<lambda>c. if c = tab then CHR '':'' else c) l"

definition raw_push :: "raw_triple list \<Rightarrow> string \<Rightarrow> raw_triple list" where
  "raw_push out raw =
     (let line = str_trim raw in
      if line = [] then out
      else case parse_raw_triple (tabs_to_colons line) of
        Inr t \<Rightarrow> (if List.member out t then out else out @ [t])
      | Inl _ \<Rightarrow> out)"

definition list_raw :: "store \<Rightarrow> raw_triple list" where
  "list_raw s =
     (case read_to_string (st_root s) ''raw'' of
        None \<Rightarrow> []
      | Some body \<Rightarrow> foldl raw_push [] (str_lines body))"

definition lines_body :: "string list \<Rightarrow> string" where
  "lines_body ls = (if ls = [] then [] else str_join [nl] ls @ [nl])"

definition write_raw_all :: "store \<Rightarrow> raw_triple list \<Rightarrow> (io_error, store) result" where
  "write_raw_all s ts =
     (let lines = remdups_adj (sort (map to_tsv ts))
      in put_root s (atomic_write (st_root s) ''raw'' (lines_body lines)))"

definition add_raw :: "store \<Rightarrow> raw_triple \<Rightarrow> (io_error, store) result" where
  "add_raw s t =
     (if parse_raw_triple (to_wire t) \<noteq> Inr t then Inl (InvalidInput ''invalid raw triple'')
      else write_raw_all s
             (if List.member (list_raw s) t then list_raw s else list_raw s @ [t]))"

definition remove_raw :: "store \<Rightarrow> raw_triple \<Rightarrow> (io_error, store) result" where
  "remove_raw s t = write_raw_all s (filter (\<lambda>x. x \<noteq> t) (list_raw s))"

section \<open>The resolved cache of the raw destinations\<close>

record raw_pin =
  rp_triple :: raw_triple
  rp_pins :: "ipv4 list"
  rp_resolved :: u64

definition ips_str :: "ipv4 list \<Rightarrow> string" where
  "ips_str xs = str_join '','' (map ipv4_show xs)"

definition raw_pin_line :: "raw_pin \<Rightarrow> string" where
  "raw_pin_line e =
     to_tsv (rp_triple e) @ [tab] @ ips_str (rp_pins e) @ [tab] @ show_uint (rp_resolved e)"

definition write_raw_pins :: "store \<Rightarrow> raw_pin list \<Rightarrow> (io_error, store) result" where
  "write_raw_pins s entries =
     (let kept = filter (\<lambda>e. \<not> (rp_pins e = []
                   \<or> parse_raw_triple (to_wire (rp_triple e)) \<noteq> Inr (rp_triple e))) entries;
          lines = remdups_adj (sort (map raw_pin_line kept))
      in put_root s (atomic_write (st_root s) ''raw-pins'' (lines_body lines)))"

definition parse_raw_pin :: "string \<Rightarrow> raw_pin option" where
  "parse_raw_pin line =
     (case str_split tab line of
        [h, p, n, ips, at] \<Rightarrow>
          (case parse_raw_triple (h @ '':'' @ p @ '':'' @ n) of
             Inl _ \<Rightarrow> None
           | Inr t \<Rightarrow>
               (let pins = List.map_filter ipv4_parse (str_split (CHR '','') ips) in
                case parse_uint at of
                  None \<Rightarrow> None
                | Some r \<Rightarrow>
                    if pins \<noteq> []
                    then Some \<lparr>rp_triple = t, rp_pins = pins, rp_resolved = r\<rparr> else None))
      | _ \<Rightarrow> None)"

definition list_raw_pins :: "store \<Rightarrow> raw_pin list" where
  "list_raw_pins s =
     (case read_to_string (st_root s) ''raw-pins'' of
        None \<Rightarrow> []
      | Some body \<Rightarrow> List.map_filter parse_raw_pin (str_lines body))"

section \<open>Projections\<close>

definition project_pinned :: "store \<Rightarrow> dir \<Rightarrow> (io_error, dir) result" where
  "project_pinned s run =
     (let rows = concat (map (\<lambda>rec. map (\<lambda>p. (pin_name p, pin_addr p)) (pr_pins rec)) (list_pins s));
          sorted_rows = remdups_adj (sort rows)
      in atomic_write run ''pinned''
           (unlines (map (\<lambda>(name, addr). name @ [sp] @ ipv4_show addr) sorted_rows)))"

fun src_token :: "source \<Rightarrow> string" where
  "src_token Sealed = ''sealed''"
| "src_token Owner = ''owner''"

definition pins_or_dash :: "ipv4 list \<Rightarrow> string" where
  "pins_or_dash pins = (if pins = [] then ''-'' else ips_str pins)"

definition uint_or_dash :: "u64 option \<Rightarrow> string" where
  "uint_or_dash x = (case x of None \<Rightarrow> ''-'' | Some t \<Rightarrow> show_uint t)"

definition fault_or_dash :: "store \<Rightarrow> string \<Rightarrow> string" where
  "fault_or_dash s name =
     (case load_fault s name of None \<Rightarrow> ''-'' | Some f \<Rightarrow> fault_kind_str (fr_kind f))"

definition profile_pins :: "store \<Rightarrow> egress_profile \<Rightarrow> ipv4 list \<times> u64 option" where
  "profile_pins s prof =
     (if is_prepinned_profile (prof_name prof)
      then (List.map_filter (\<lambda>r. ipv4_parse (rule_host r)) (prof_rules prof), None)
      else (case load_pin s (prof_name prof) of
              Some rec \<Rightarrow> (if pr_pins rec \<noteq> [] then (map pin_addr (pr_pins rec), Some (pr_resolved rec))
                          else ([], None))
            | None \<Rightarrow> ([], None)))"

definition profile_line :: "store \<Rightarrow> catalog \<Rightarrow> egress_profile \<Rightarrow> string" where
  "profile_line s cat prof =
     (let name = prof_name prof;
          tier = (case bless_tier_of name of Some t \<Rightarrow> bless_tier_str t | None \<Rightarrow> ''unknown'');
          blessed = (if load_bless s name \<noteq> None then ''1'' else ''0'')
      in case profile_pins s prof of (pins, refreshed) \<Rightarrow>
           ''profile '' @ name @ '' tier='' @ tier @ '' blessed='' @ blessed
           @ '' pins='' @ pins_or_dash pins @ '' refreshed='' @ uint_or_dash refreshed
           @ '' fault='' @ fault_or_dash s name
           @ (case catalog_get cat name of
                None \<Rightarrow> []
              | Some e \<Rightarrow> '' source='' @ src_token (ce_source e)
                         @ '' feature='' @ m_feature (ce_manifest e)))"

definition card_lines :: "string \<Rightarrow> capability_entry \<Rightarrow> string list" where
  "card_lines name e =
     [''title '' @ name @ [sp] @ m_title (ce_manifest e),
      ''purpose '' @ name @ [sp] @ m_purpose (ce_manifest e)]"

definition profile_cards :: "catalog \<Rightarrow> egress_profile \<Rightarrow> string list" where
  "profile_cards cat prof =
     (case catalog_get cat (prof_name prof) of
        None \<Rightarrow> [] | Some e \<Rightarrow> card_lines (prof_name prof) e)"

definition display_entries :: "catalog \<Rightarrow> capability_entry list" where
  "display_entries cat = filter (\<lambda>e. resolve_desktop (ce_name e) = None) (cat_entries cat)"

definition entry_line :: "store \<Rightarrow> capability_entry \<Rightarrow> string" where
  "entry_line s e =
     ''profile '' @ ce_name e @ '' tier='' @ cap_tier_str (m_tier (ce_manifest e))
     @ '' blessed=0 pins=- refreshed=- fault='' @ fault_or_dash s (ce_name e)
     @ '' source='' @ src_token (ce_source e) @ '' feature='' @ m_feature (ce_manifest e)"

definition capfault_line :: "capability_entry \<Rightarrow> string" where
  "capfault_line e =
     ''capfault '' @ ce_name e @ '' source='' @ src_token (ce_source e) @ [sp]
     @ (case ce_fault e of Some r \<Rightarrow> r | None \<Rightarrow> ''disabled'')"

definition raw_line :: "raw_pin list \<Rightarrow> raw_triple \<Rightarrow> string" where
  "raw_line cache t =
     (let rp = find (\<lambda>r. rp_triple r = t) cache in
      ''raw host='' @ rt_host t @ '' proto='' @ proto_label (rt_proto t)
      @ '' port='' @ show_uint (rt_port t) @ '' blessed=1 pins=''
      @ (case rp of Some r \<Rightarrow> pins_or_dash (rp_pins r) | None \<Rightarrow> ''-'')
      @ '' refreshed='' @ uint_or_dash (map_option rp_resolved rp))"

definition state_lines :: "store \<Rightarrow> catalog \<Rightarrow> string list" where
  "state_lines s cat =
     [''schema shrek-egress-state/1'']
     @ map (profile_line s cat) DESKTOP_EGRESS_PROFILES
     @ map (entry_line s) (display_entries cat)
     @ concat (map (profile_cards cat) DESKTOP_EGRESS_PROFILES)
     @ concat (map (\<lambda>e. card_lines (ce_name e) e) (display_entries cat))
     @ map capfault_line (cat_faulted cat)
     @ sort (map (raw_line (list_raw_pins s)) (list_raw s))"

definition project_state :: "store \<Rightarrow> dir \<Rightarrow> catalog \<Rightarrow> (io_error, dir) result" where
  "project_state s run cat = atomic_write run ''state'' (unlines (state_lines s cat))"

section \<open>The request inbox\<close>

definition WANTS_KEEP :: nat where
  "WANTS_KEEP = 20"

definition parse_want :: "string \<Rightarrow> (string \<times> u64) option" where
  "parse_want line =
     (case str_split_ws line of
        [w, tok, ts] \<Rightarrow>
          if w = ''want'' then Option.bind (parse_uint ts) (\<lambda>t. Some (tok, t)) else None
      | _ \<Rightarrow> None)"

definition read_wants :: "dir \<Rightarrow> string \<Rightarrow> (string \<times> u64) list" where
  "read_wants run token =
     (case read_to_string run ''wants'' of
        None \<Rightarrow> []
      | Some body \<Rightarrow>
          filter (\<lambda>(tok, t). valid_token tok \<and> tok \<noteq> token)
            (List.map_filter parse_want (str_lines body)))"

text \<open>A stable sort with the largest first.\<close>

definition sort_desc :: "('a \<Rightarrow> 'b::linorder) \<Rightarrow> 'a list \<Rightarrow> 'a list" where
  "sort_desc f xs = rev (sort_key f (rev xs))"

definition want_entries :: "dir \<Rightarrow> string \<Rightarrow> u64 \<Rightarrow> (string \<times> u64) list" where
  "want_entries run token at =
     sort_key fst (take WANTS_KEEP (sort_desc snd (read_wants run token @ [(token, at)])))"

definition record_want :: "dir \<Rightarrow> string \<Rightarrow> u64 \<Rightarrow> (io_error, dir) result" where
  "record_want run token at =
     (if \<not> valid_token token then Inl (InvalidInput ''invalid want token'')
      else atomic_write run ''wants''
             (unlines (map (\<lambda>(t, ts). ''want '' @ t @ [sp] @ show_uint ts) (want_entries run token at))))"

section \<open>Facts: tab separated lines\<close>

definition tsv_line :: "string \<Rightarrow> bool" where
  "tsv_line l \<longleftrightarrow> (\<forall>c \<in> set l. is_graphic c \<or> c = tab)"

lemma tsv_line_clean: "tsv_line l \<Longrightarrow> clean_line l \<and> utf8_ok l"
proof -
  assume t: "tsv_line l"
  have "c \<noteq> nl \<and> c \<noteq> cr \<and> c < CHR 0x80" if "c \<in> set l" for c
  proof -
    from t that consider "is_graphic c" | "c = tab"
      unfolding tsv_line_def by blast
    then show ?thesis
      by cases (use graphic_not_special [of c] graphic_ascii [of c] in \<open>auto simp: less_char_def\<close>)
  qed
  then show ?thesis
    using clean_lineI [of l] utf8_ok_ascii [of l] by blast
qed

lemma lines_body_unlines: "lines_body ls = unlines ls"
proof (induction ls)
  case (Cons l ls)
  then show ?case by (cases ls) (simp_all add: lines_body_def)
qed (simp add: lines_body_def)

lemma lines_body_tsv:
  assumes "\<forall>l \<in> set ls. tsv_line l"
  shows "str_lines (lines_body ls) = ls" "utf8_ok (lines_body ls)"
  using assms tsv_line_clean by (simp_all add: lines_body_unlines utf8_ok_unlines)

lemma to_tsv_tsv: "wf_triple t \<Longrightarrow> tsv_line (to_tsv t)"
  by (auto simp: tsv_line_def to_tsv_def wf_triple_def valid_raw_host_graphic)

lemma to_tsv_trim: "wf_triple t \<Longrightarrow> str_trim (to_tsv t) = to_tsv t \<and> to_tsv t \<noteq> []"
proof -
  assume "wf_triple t"
  then have v: "valid_raw_host (rt_host t)"
    by (simp add: wf_triple_def)
  then have h: "rt_host t \<noteq> []"
    by (auto simp: valid_raw_host_def)
  then have "is_graphic (hd (rt_host t))"
    using valid_raw_host_graphic [OF v] by simp
  then have "is_graphic (hd (to_tsv t))" "is_graphic (last (to_tsv t))"
    using h show_uint_graphic [OF last_in_set [OF show_uint_ne]] by (simp_all add: to_tsv_def)
  with h show ?thesis
    by (simp add: str_trim_graphic to_tsv_def)
qed

lemma map_char_id: "c \<notin> set s \<Longrightarrow> map (\<lambda>x. if x = c then d else x) s = s"
  by (induction s) auto

lemma tabs_to_colons_tsv: "wf_triple t \<Longrightarrow> tabs_to_colons (to_tsv t) = to_wire t"
  using valid_raw_host_no [of "rt_host t"]
  by (simp add: tabs_to_colons_def to_tsv_def to_wire_def wf_triple_def map_char_id)

section \<open>Facts: the raw file\<close>

lemma raw_push_tsv:
  "wf_triple t \<Longrightarrow> raw_push out (to_tsv t) = (if t \<in> set out then out else out @ [t])"
  by (simp add: raw_push_def to_tsv_trim tabs_to_colons_tsv List.member_iff Let_def)

lemma raw_push_inv:
  "\<forall>t \<in> set out. wf_triple t \<Longrightarrow> distinct out \<Longrightarrow>
   (\<forall>t \<in> set (raw_push out l). wf_triple t) \<and> distinct (raw_push out l)"
  by (auto simp: raw_push_def Let_def List.member_iff split: sum.splits dest: parse_raw_triple_wf)

lemma foldl_raw_push_inv:
  "\<forall>t \<in> set out. wf_triple t \<Longrightarrow> distinct out \<Longrightarrow>
   (\<forall>t \<in> set (foldl raw_push out ls). wf_triple t) \<and> distinct (foldl raw_push out ls)"
proof (induction ls arbitrary: out)
  case (Cons l ls)
  note r = raw_push_inv [OF Cons.prems]
  show ?case
    unfolding foldl.simps by (rule Cons.IH) (use r in blast)+
qed simp

lemma list_raw_inv: "(\<forall>t \<in> set (list_raw s). wf_triple t) \<and> distinct (list_raw s)"
proof (cases "read_to_string (st_root s) ''raw''")
  case (Some body)
  show ?thesis
    unfolding list_raw_def Some option.case by (rule foldl_raw_push_inv) simp_all
qed (simp add: list_raw_def)

lemma list_raw_wf: "t \<in> set (list_raw s) \<Longrightarrow> wf_triple t"
  using list_raw_inv by blast

lemma list_raw_distinct: "distinct (list_raw s)"
  using list_raw_inv by blast

lemma foldl_raw_push_tsv:
  "\<forall>t \<in> set ts. wf_triple t \<Longrightarrow> distinct (out @ ts) \<Longrightarrow>
   foldl raw_push out (map to_tsv ts) = out @ ts"
proof (induction ts arbitrary: out)
  case (Cons t ts)
  have "raw_push out (to_tsv t) = out @ [t]"
    using Cons.prems by (simp add: raw_push_tsv)
  then show ?case
    using Cons.IH [of "out @ [t]"] Cons.prems by simp
qed simp

lemma tsv_inverse: "wf_triple t \<Longrightarrow> projr (parse_raw_triple (tabs_to_colons (to_tsv t))) = t"
  by (simp add: tabs_to_colons_tsv)

lemma write_raw_all_list:
  assumes "write_raw_all s ts = Inr s'" "\<forall>t \<in> set ts. wf_triple t"
  shows "set (list_raw s') = set ts \<and> map to_tsv (list_raw s') = remdups_adj (sort (map to_tsv ts))"
proof -
  let ?lines = "remdups_adj (sort (map to_tsv ts))"
  define us where "us = map (\<lambda>l. projr (parse_raw_triple (tabs_to_colons l))) ?lines"
  have inv: "\<exists>t \<in> set ts. l = to_tsv t \<and> projr (parse_raw_triple (tabs_to_colons l)) = t"
    if "l \<in> set ?lines" for l
    using that assms(2) tsv_inverse by auto
  have lines: "map to_tsv us = ?lines"
    unfolding us_def map_map by (rule map_idI) (use inv in fastforce)
  have us: "set us = set ts"
  proof
    show "set us \<subseteq> set ts" using inv by (auto simp: us_def)
    show "set ts \<subseteq> set us" using assms(2) tsv_inverse by (force simp: us_def image_image)
  qed
  have "distinct ?lines"
    by (rule sorted_remdups_adj_distinct) simp
  then have "distinct us"
    using lines by (metis distinct_map)
  then have fold: "foldl raw_push [] ?lines = us"
    using foldl_raw_push_tsv [of us "[]"] us assms(2) by (simp add: lines)
  have tsv: "\<forall>l \<in> set ?lines. tsv_line l"
    using assms(2) to_tsv_tsv by auto
  from assms(1) obtain d where d: "atomic_write (st_root s) ''raw'' (lines_body ?lines) = Inr d"
      "s' = s\<lparr>st_root := d\<rparr>"
    by (auto simp: write_raw_all_def res_simps Let_def)
  have "list_raw s' = us"
    using read_write [OF d(1) lines_body_tsv(2) [OF tsv]] lines_body_tsv(1) [OF tsv] fold d(2)
    by (simp add: list_raw_def)
  with us lines show ?thesis by simp
qed

lemma add_raw_list:
  "add_raw s t = Inr s' \<Longrightarrow> wf_triple t \<and> set (list_raw s') = insert t (set (list_raw s))"
proof -
  assume a: "add_raw s t = Inr s'"
  then have t: "wf_triple t"
    by (auto simp: add_raw_def parse_wire_iff split: if_splits)
  let ?ts = "if t \<in> set (list_raw s) then list_raw s else list_raw s @ [t]"
  from a have "write_raw_all s ?ts = Inr s'"
    by (auto simp: add_raw_def List.member_iff split: if_splits)
  moreover have "\<forall>u \<in> set ?ts. wf_triple u"
    using t list_raw_wf by auto
  ultimately have "set (list_raw s') = set ?ts"
    using write_raw_all_list by blast
  with t show ?thesis by auto
qed

lemma remove_raw_list:
  "remove_raw s t = Inr s' \<Longrightarrow> set (list_raw s') = set (list_raw s) - {t}"
proof -
  let ?ts = "filter (\<lambda>x. x \<noteq> t) (list_raw s)"
  assume "remove_raw s t = Inr s'"
  moreover have "\<forall>u \<in> set ?ts. wf_triple u"
    using list_raw_wf by auto
  ultimately have "set (list_raw s') = set ?ts"
    unfolding remove_raw_def using write_raw_all_list by blast
  then show ?thesis by auto
qed

lemma write_raw_all_frame:
  "write_raw_all s ts = Inr s' \<Longrightarrow> \<exists>d. s' = s\<lparr>st_root := d\<rparr>"
  by (auto simp: write_raw_all_def res_simps Let_def)

lemma add_raw_frame: "add_raw s t = Inr s' \<Longrightarrow> \<exists>d. s' = s\<lparr>st_root := d\<rparr>"
  by (auto simp: add_raw_def dest: write_raw_all_frame split: if_splits)

lemma remove_raw_frame: "remove_raw s t = Inr s' \<Longrightarrow> \<exists>d. s' = s\<lparr>st_root := d\<rparr>"
  by (auto simp: remove_raw_def dest: write_raw_all_frame)

lemma raw_pins_of_write_raw:
  "write_raw_all s ts = Inr s' \<Longrightarrow> list_raw_pins s' = list_raw_pins s"
  by (auto simp: write_raw_all_def res_simps Let_def list_raw_pins_def read_to_string_def
      dir_content_def update_conv')

section \<open>Facts: the resolved cache\<close>

definition wf_raw_pin :: "raw_pin \<Rightarrow> bool" where
  "wf_raw_pin e \<longleftrightarrow> rp_pins e \<noteq> [] \<and> wf_triple (rp_triple e)"

lemma ips_str_graphic: "c \<in> set (ips_str xs) \<Longrightarrow> is_graphic c"
proof (unfold ips_str_def, induction xs rule: induct_list012)
  case (3 x y zs)
  then show ?case by (auto simp: is_graphic_def [of "CHR '',''"])
qed simp_all

lemma comma_notin_ipv4: "CHR '','' \<notin> set (ipv4_show a)"
  using ipv4_show_bytes [of "CHR '',''" a] by (auto simp: is_digit_def)

lemma tab_not_graphic: "\<not> is_graphic tab"
  by (simp add: is_graphic_def less_char_def)

lemma map_filter_parse_show: "List.map_filter ipv4_parse (map ipv4_show xs) = xs"
  by (induction xs) (simp_all add: List.map_filter_def)

lemma raw_pin_line_parse: "wf_raw_pin e \<Longrightarrow> parse_raw_pin (raw_pin_line e) = Some e"
proof -
  assume e: "wf_raw_pin e"
  let ?t = "rp_triple e"
  have wf: "wf_triple ?t" and ne: "rp_pins e \<noteq> []"
    using e by (simp_all add: wf_raw_pin_def)
  have no: "tab \<notin> set (rt_host ?t)" "tab \<notin> set (ips_str (rp_pins e))"
    using wf valid_raw_host_graphic ips_str_graphic tab_not_graphic by (auto simp: wf_triple_def)
  have split: "str_split tab (raw_pin_line e)
      = [rt_host ?t, proto_label (rt_proto ?t), show_uint (rt_port ?t), ips_str (rp_pins e),
         show_uint (rp_resolved e)]"
    using no by (simp add: raw_pin_line_def to_tsv_def)
  have "str_split (CHR '','') (ips_str (rp_pins e)) = map ipv4_show (rp_pins e)"
    unfolding ips_str_def using ne comma_notin_ipv4 by (intro str_split_join) simp_all
  then have ips: "List.map_filter ipv4_parse (str_split (CHR '','') (ips_str (rp_pins e))) = rp_pins e"
    by (simp add: map_filter_parse_show)
  have "parse_raw_triple (rt_host ?t @ '':'' @ proto_label (rt_proto ?t) @ '':'' @ show_uint (rt_port ?t))
      = Inr ?t"
    using parse_to_wire [OF wf] by (simp add: to_wire_def)
  then show ?thesis
    using split ips ne by (simp add: parse_raw_pin_def Let_def)
qed

lemma raw_pin_line_tsv: "wf_raw_pin e \<Longrightarrow> tsv_line (raw_pin_line e)"
  using to_tsv_tsv [of "rp_triple e"] ips_str_graphic
  by (auto simp: tsv_line_def raw_pin_line_def wf_raw_pin_def)

lemma parse_raw_pin_wf: "parse_raw_pin l = Some e \<Longrightarrow> wf_raw_pin e"
  by (auto simp: parse_raw_pin_def wf_raw_pin_def Let_def dest: parse_raw_triple_wf
      split: list.splits sum.splits option.splits if_splits)

lemma list_raw_pins_wf: "e \<in> set (list_raw_pins s) \<Longrightarrow> wf_raw_pin e"
  by (auto simp: list_raw_pins_def List.map_filter_def dest: parse_raw_pin_wf split: option.splits)

lemma map_filter_inverse:
  "\<forall>x \<in> A. f (g x) = Some x \<Longrightarrow> set ls = g ` A \<Longrightarrow> set (List.map_filter f ls) = A"
  by (force simp: List.map_filter_def)

lemma write_raw_pins_list:
  assumes "write_raw_pins s es = Inr s'"
  shows "set (list_raw_pins s') = {e \<in> set es. wf_raw_pin e}"
proof -
  let ?kept = "filter (\<lambda>e. \<not> (rp_pins e = []
      \<or> parse_raw_triple (to_wire (rp_triple e)) \<noteq> Inr (rp_triple e))) es"
  let ?lines = "remdups_adj (sort (map raw_pin_line ?kept))"
  have kept: "set ?kept = {e \<in> set es. wf_raw_pin e}"
    by (auto simp: wf_raw_pin_def parse_wire_iff)
  have lines: "set ?lines = raw_pin_line ` {e \<in> set es. wf_raw_pin e}"
    unfolding kept [symmetric] by (simp only: remdups_adj_set set_sort set_map)
  then have tsv: "\<forall>l \<in> set ?lines. tsv_line l"
    using raw_pin_line_tsv by (simp only:) blast
  from assms obtain d where d: "atomic_write (st_root s) ''raw-pins'' (lines_body ?lines) = Inr d"
      "s' = s\<lparr>st_root := d\<rparr>"
    by (auto simp only: write_raw_pins_def res_simps Let_def)
  have "list_raw_pins s' = List.map_filter parse_raw_pin ?lines"
    using read_write [OF d(1) lines_body_tsv(2) [OF tsv]] lines_body_tsv(1) [OF tsv] d(2)
    by (simp add: list_raw_pins_def)
  then show ?thesis
    using map_filter_inverse [OF _ lines, of parse_raw_pin] raw_pin_line_parse by simp
qed

lemma raw_of_write_raw_pins: "write_raw_pins s es = Inr s' \<Longrightarrow> list_raw s' = list_raw s"
  by (auto simp: write_raw_pins_def res_simps Let_def list_raw_def read_to_string_def
      dir_content_def update_conv')

lemma write_raw_pins_frame: "write_raw_pins s es = Inr s' \<Longrightarrow> \<exists>d. s' = s\<lparr>st_root := d\<rparr>"
  by (auto simp: write_raw_pins_def res_simps Let_def)

section \<open>Facts: the inbox\<close>

lemma sort_desc_mset [simp]: "mset (sort_desc f xs) = mset xs"
  by (simp add: sort_desc_def)

lemma sort_desc_set [simp]: "set (sort_desc f xs) = set xs"
  by (simp add: sort_desc_def)

lemma sort_desc_sorted: "sorted (rev (map f (sort_desc f xs)))"
  by (simp add: sort_desc_def rev_map)

lemma take_largest:
  assumes "x \<in> set (take k (sort_desc f xs))" "y \<in> set (drop k (sort_desc f xs))"
  shows "f y \<le> f x"
proof -
  have "sorted (rev (map f (take k (sort_desc f xs) @ drop k (sort_desc f xs))))"
    using sort_desc_sorted [of f xs] by simp
  then show ?thesis
    using assms unfolding map_append rev_append sorted_append by auto
qed

definition inbox :: "dir \<Rightarrow> (string \<times> u64) list" where
  "inbox run = read_wants run []"

lemma valid_token_nonempty [simp]: "\<not> valid_token []"
  by (simp add: valid_token_def)

lemma read_wants_inbox: "read_wants run tok = filter (\<lambda>e. fst e \<noteq> tok) (inbox run)"
proof -
  have "filter (\<lambda>(t, _). valid_token t \<and> t \<noteq> tok) es
      = filter (\<lambda>e. fst e \<noteq> tok) (filter (\<lambda>(t, _). valid_token t \<and> t \<noteq> []) es)" for es :: "(string \<times> u64) list"
    by (auto intro!: filter_cong)
  then show ?thesis
    by (simp add: inbox_def read_wants_def split: option.split)
qed

lemma inbox_valid: "e \<in> set (inbox run) \<Longrightarrow> valid_token (fst e)"
  by (auto simp: inbox_def read_wants_def split: option.splits)

lemma parse_want_line: "valid_token t \<Longrightarrow> parse_want (''want '' @ t @ [sp] @ show_uint ts) = Some (t, ts)"
proof -
  assume t: "valid_token t"
  have g: "\<forall>c \<in> set t. is_graphic c" "t \<noteq> []"
    using t by (auto simp: valid_token_def list_all_iff token_byte_graphic)
  have "str_split_ws (''want'' @ sp # t @ sp # show_uint ts) = ''want'' # str_split_ws (t @ sp # show_uint ts)"
    by (rule str_split_ws_cons) (simp_all add: is_graphic_def)
  also have "str_split_ws (t @ sp # show_uint ts) = [t, show_uint ts]"
    using g by simp
  finally have "str_split_ws (''want '' @ t @ [sp] @ show_uint ts) = [''want'', t, show_uint ts]"
    by simp
  then show ?thesis by (simp add: parse_want_def)
qed

lemma record_want_inbox:
  assumes "record_want run tok at = Inr run'"
  shows "inbox run' = want_entries run tok at \<and> valid_token tok"
proof -
  let ?es = "want_entries run tok at"
  let ?line = "\<lambda>(t, ts). ''want '' @ t @ [sp] @ show_uint ts"
  from assms have tok: "valid_token tok"
    and w: "atomic_write run ''wants'' (unlines (map ?line ?es)) = Inr run'"
    by (auto simp: record_want_def split: if_splits)
  have valid: "valid_token (fst e)" if "e \<in> set ?es" for e
  proof -
    have "e \<in> set (read_wants run tok @ [(tok, at)])"
      using that in_set_takeD unfolding want_entries_def set_sort by fastforce
    then show ?thesis
      using tok inbox_valid [of e run] by (auto simp: read_wants_inbox)
  qed
  have lt: "\<forall>l \<in> set (map ?line ?es). text_line l"
    using valid valid_token_text by (auto simp: is_graphic_def)
  have "List.map_filter parse_want (map ?line es) = es" if "\<forall>e \<in> set es. valid_token (fst e)" for es
    using that
  proof (induction es)
    case (Cons e es)
    then show ?case
      using parse_want_line [of "fst e" "snd e"] by (cases e) (simp add: List.map_filter_def)
  qed (simp add: List.map_filter_def)
  then have "List.map_filter parse_want (map ?line ?es) = ?es"
    using valid by blast
  moreover have "filter (\<lambda>(t, _). valid_token t \<and> t \<noteq> []) ?es = ?es"
    using valid by (force simp: filter_id_conv)
  ultimately show ?thesis
    using read_write [OF w lines_text(2) [OF lt]] lines_text(1) [OF lt] tok
    by (simp add: inbox_def read_wants_def)
qed

lemma want_entries_distinct:
  assumes "distinct (map fst (inbox run))"
  shows "distinct (map fst (want_entries run tok at))"
proof -
  let ?xs = "read_wants run tok @ [(tok, at)]"
  have "distinct (map fst ?xs)"
    using assms by (auto simp: read_wants_inbox distinct_map intro: inj_on_subset)
  moreover have "mset (map fst (sort_desc snd ?xs)) = mset (map fst ?xs)"
    by simp
  ultimately have "distinct (map fst (sort_desc snd ?xs))"
    using mset_eq_imp_distinct_iff by blast
  then have "distinct (map fst (take WANTS_KEEP (sort_desc snd ?xs)))"
    by (simp add: distinct_take flip: take_map)
  moreover have "mset (map fst (want_entries run tok at)) = mset (map fst (take WANTS_KEEP (sort_desc snd ?xs)))"
    by (simp add: want_entries_def)
  ultimately show ?thesis
    using mset_eq_imp_distinct_iff by blast
qed

lemma want_entries_length: "length (want_entries run tok at) \<le> WANTS_KEEP"
  by (simp add: want_entries_def)

section \<open>Properties\<close>

text \<open>
  the intent file of raw destinations is a set: adding puts in exactly the one destination,
  which must be well formed, removing takes out exactly the one, and no line is ever doubled.
\<close>

theorem raw_file_is_a_set:
  assumes "add_raw s t = Inr a" "remove_raw s t = Inr r"
  shows "set (list_raw a) = insert t (set (list_raw s)) \<and> set (list_raw r) = set (list_raw s) - {t}
    \<and> distinct (list_raw a) \<and> distinct (list_raw r) \<and> valid_raw_host (rt_host t)"
  using add_raw_list [OF assms(1)] remove_raw_list [OF assms(2)]
  by (simp add: list_raw_distinct wf_triple_def)

definition mail_triple :: raw_triple where
  "mail_triple = \<lparr>rt_host = ''mail.example.org'', rt_proto = Tcp, rt_port = 993\<rparr>"

lemma mail_wf: "wf_triple mail_triple"
  by code_simp

lemma empty_store_raw: "\<exists>s'. write_raw_all empty_store ts = Inr s'"
  by (simp add: write_raw_all_def put_root_def empty_store_def empty_dir_def atomic_write_def)

lemma mail_added: "\<exists>s'. add_raw empty_store mail_triple = Inr s'"
  using empty_store_raw by (simp add: add_raw_def parse_to_wire [OF mail_wf] Let_def)

lemma list_raw_empty: "list_raw empty_store = []"
  by (simp add: list_raw_def read_to_string_def dir_content_def empty_store_def empty_dir_def)

theorem raw_file_is_a_set_witness: "\<exists>s. set (list_raw s) = {mail_triple}"
proof -
  obtain a where a: "add_raw empty_store mail_triple = Inr a" using mail_added by blast
  obtain r where r: "remove_raw empty_store mail_triple = Inr r"
    using empty_store_raw by (auto simp: remove_raw_def)
  show ?thesis using raw_file_is_a_set [OF a r] by (intro exI [of _ a]) (simp add: list_raw_empty)
qed

text \<open>
  The resolved cache keeps every entry it is given that has an address and a well-formed
  destination, and nothing else.
\<close>

lemma raw_cache_roundtrip:
  assumes "write_raw_pins s es = Inr s'"
  shows "set (list_raw_pins s') = {e \<in> set es. wf_raw_pin e} \<and> list_raw s' = list_raw s"
  using write_raw_pins_list [OF assms] raw_of_write_raw_pins [OF assms] by blast

text \<open>
  the request inbox stays small and keeps one line per capability: after a request it holds at
  most twenty, no name twice, and if it had room the new request is in it with its time.
\<close>

theorem want_inbox_bounded:
  assumes "record_want run tok at = Inr run'" "distinct (map fst (inbox run))"
  shows "length (inbox run') \<le> WANTS_KEEP \<and> distinct (map fst (inbox run'))
    \<and> (WANTS_KEEP \<le> length (read_wants run tok) \<or> (tok, at) \<in> set (inbox run'))"
proof -
  have "(tok, at) \<in> set (want_entries run tok at)" if "length (read_wants run tok) < WANTS_KEEP"
  proof -
    have "length (sort_desc snd (read_wants run tok @ [(tok, at)])) \<le> WANTS_KEEP"
      using that mset_eq_length [OF sort_desc_mset, of snd "read_wants run tok @ [(tok, at)]"] by simp
    then show ?thesis by (simp add: want_entries_def sort_desc_set)
  qed
  then show ?thesis
    using record_want_inbox [OF assms(1)] want_entries_length want_entries_distinct [OF assms(2)]
    by (metis not_le)
qed

theorem want_inbox_bounded_witness:
  "\<exists>run. record_want empty_dir ''weather'' 5 = Inr run \<and> (''weather'', 5) \<in> set (inbox run)"
proof -
  have no: "read_wants empty_dir t = []" for t
    by (simp add: read_wants_def read_to_string_def dir_content_def empty_dir_def)
  have "valid_token ''weather''" by code_simp
  then have "\<exists>run. record_want empty_dir ''weather'' 5 = Inr run"
    by (simp add: record_want_def empty_dir_def atomic_write_def)
  then obtain run where run: "record_want empty_dir ''weather'' 5 = Inr run" by blast
  have "distinct (map fst (inbox empty_dir))" by (simp add: inbox_def no)
  from want_inbox_bounded [OF run this] run show ?thesis
    by (auto simp: no WANTS_KEEP_def)
qed

end
