(* ===== verification/Egress_Apply.thy ===== *)
theory Egress_Apply
  imports Policy_Egress Fs_Model
begin

text \<open>
  The element-only applier of \<open>crates/egressd/src/apply.rs\<close>: every \<open>nft\<close> command the daemon can emit
  as an argument vector, the parsers of what \<open>nft\<close> prints, and the reconciliation of the live set
  \<open>@cap_pinned\<close> with the desired one.

  \<open>nft\<close> itself is not code of this repository: it is the parameter \<open>run\<close> of the operations, a
  function from a command and the kernel's state to the answer and the new state (the trait
  \<open>NftExec\<close>).  The locale \<open>cap_kernel\<close> states what the applier relies on: a listing shows the
  elements, a successful \<open>add\<close> or \<open>delete\<close> changes exactly its element, and a failed command
  changes nothing.  The in-memory kernel at the end provides it, printing its listings as text the
  parser has to read.
\<close>

section \<open>Commands\<close>

type_synonym nft_cmd = "string list"
type_synonym cap_tuple = "ipv4 \<times> proto \<times> u16"
type_synonym 'k nft = "nft_cmd \<Rightarrow> 'k \<Rightarrow> (string, string) result \<times> 'k"

definition CAP_SET :: string where
  "CAP_SET = ''cap_pinned''"

definition table_parts :: "string list" where
  "table_parts = str_split sp ''inet shrek_desktop_egress''"

definition is_read_only :: "nft_cmd \<Rightarrow> bool" where
  "is_read_only c \<longleftrightarrow> (case c of [] \<Rightarrow> False | w # _ \<Rightarrow> w = ''list'' \<or> w = ''-a'')"

definition list_set :: "string \<Rightarrow> nft_cmd" where
  "list_set s = [''list'', ''set''] @ table_parts @ [s]"

fun cap_element_cmd :: "string \<Rightarrow> cap_tuple \<Rightarrow> nft_cmd" where
  "cap_element_cmd op (addr, pr, port) =
     [op, ''element''] @ table_parts @ [CAP_SET]
     @ [''{'', ipv4_show addr, ''.'', proto_label pr, ''.'', show_uint port, ''}'']"

definition add_cap_element :: "cap_tuple \<Rightarrow> nft_cmd" where
  "add_cap_element t = cap_element_cmd ''add'' t"

definition del_cap_element :: "cap_tuple \<Rightarrow> nft_cmd" where
  "del_cap_element t = cap_element_cmd ''delete'' t"

definition list_chain :: nft_cmd where
  "list_chain = [''-a'', ''list'', ''chain''] @ table_parts @ [''output'']"

definition double_quoted :: "string \<Rightarrow> string" where
  "double_quoted p = [CHR 0x22] @ p @ [CHR 0x22]"

definition browser_stub_accept :: "u32 \<Rightarrow> string \<Rightarrow> u32 \<Rightarrow> nft_cmd" where
  "browser_stub_accept rule0_handle path level =
     [''insert'', ''rule''] @ table_parts
     @ [''output'', ''handle'', show_uint rule0_handle]
     @ [''meta'', ''skuid'', ''1000'', ''socket'', ''cgroupv2'', ''level'', show_uint level,
        double_quoted path]
     @ [''ip'', ''daddr'', ''{'', ''127.0.0.53,'', ''127.0.0.54'', ''}'', ''th'', ''dport'', ''53'',
        ''accept'']"

definition browser_broad_accept :: "u32 \<Rightarrow> string \<Rightarrow> u32 \<Rightarrow> nft_cmd" where
  "browser_broad_accept rule0_handle path level =
     [''insert'', ''rule''] @ table_parts
     @ [''output'', ''handle'', show_uint rule0_handle]
     @ [''meta'', ''skuid'', ''1000'', ''socket'', ''cgroupv2'', ''level'', show_uint level,
        double_quoted path, ''accept'']"

definition delete_rule :: "u32 \<Rightarrow> nft_cmd" where
  "delete_rule h = [''delete'', ''rule''] @ table_parts @ [''output'', ''handle'', show_uint h]"

section \<open>Parsers\<close>

text \<open>A \<open>BTreeSet\<close>: its elements in ascending order.\<close>

definition btree :: "'a::linorder list \<Rightarrow> 'a list" where
  "btree xs = remdups_adj (sort xs)"

definition parse_element :: "string \<Rightarrow> cap_tuple option" where
  "parse_element e =
     (case map str_trim (str_split_pat '' . '' (str_trim e)) of
        [a, p, n] \<Rightarrow> do {
          ip \<leftarrow> ipv4_parse a;
          port \<leftarrow> parse_uint n;
          pr \<leftarrow> parse_proto p;
          Some (ip, pr, port)
        }
      | _ \<Rightarrow> None)"

definition parse_cap_set_elements :: "string \<Rightarrow> cap_tuple list" where
  "parse_cap_set_elements listing =
     (case str_find ''elements'' listing of
        None \<Rightarrow> []
      | Some open \<Rightarrow>
          (let tail = drop open listing in
           case (str_find ''{'' tail, str_find ''}'' tail) of
             (Some lb, Some rb) \<Rightarrow>
               if rb \<le> lb then []
               else btree (List.map_filter parse_element
                      (str_split (CHR '','') (take (rb - (lb + 1)) (drop (lb + 1) tail))))
           | _ \<Rightarrow> []))"

definition handle_of_line :: "string \<Rightarrow> u32 option" where
  "handle_of_line line =
     (case str_find ''# handle '' line of
        None \<Rightarrow> None
      | Some idx \<Rightarrow> parse_uint (str_trim (drop (idx + length ''# handle '') line)))"

definition is_browser_line :: "string \<Rightarrow> bool" where
  "is_browser_line line \<longleftrightarrow>
     str_contains line ''cgroupv2'' \<and> str_contains line ''skuid 1000'' \<and> str_contains line ''accept''"

definition parse_browser_handles :: "string \<Rightarrow> u32 list" where
  "parse_browser_handles listing =
     List.map_filter (\<lambda>l. if is_browser_line l then handle_of_line l else None) (str_lines listing)"

definition is_rule0_line :: "string \<Rightarrow> bool" where
  "is_rule0_line line \<longleftrightarrow>
     str_contains line ''skuid 1000'' \<and> str_contains line ''th dport 53 drop''
     \<and> str_contains line ''127.0.0.53''"

text \<open>The first matching line that has a handle marker decides, parsable or not.\<close>

definition parse_rule0_handle :: "string \<Rightarrow> u32 option" where
  "parse_rule0_handle listing =
     (case find (\<lambda>l. is_rule0_line l \<and> str_find ''# handle '' l \<noteq> None) (str_lines listing) of
        None \<Rightarrow> None
      | Some l \<Rightarrow> handle_of_line l)"

section \<open>Orchestration\<close>

fun cap_show :: "cap_tuple \<Rightarrow> string" where
  "cap_show (ip, pr, port) = ipv4_show ip @ ''.'' @ proto_label pr @ ''.'' @ show_uint port"

text \<open>The rollback: best effort, every answer ignored.\<close>

fun rollback :: "'k nft \<Rightarrow> cap_tuple list \<Rightarrow> 'k \<Rightarrow> 'k" where
  "rollback run [] k = k"
| "rollback run (t # ts) k = rollback run ts (snd (run (del_cap_element t) k))"

fun add_all :: "'k nft \<Rightarrow> cap_tuple list \<Rightarrow> cap_tuple list \<Rightarrow> 'k \<Rightarrow> (string, unit) result \<times> 'k" where
  "add_all run added [] k = (Inr (), k)"
| "add_all run added (t # ts) k =
     (case run (add_cap_element t) k of
        (Inl e, k') \<Rightarrow> (Inl (''add cap '' @ cap_show t @ '': '' @ e), rollback run added k')
      | (Inr _, k') \<Rightarrow> add_all run (added @ [t]) ts k')"

fun del_all :: "'k nft \<Rightarrow> cap_tuple list \<Rightarrow> 'k \<Rightarrow> (string, unit) result \<times> 'k" where
  "del_all run [] k = (Inr (), k)"
| "del_all run (t # ts) k =
     (case run (del_cap_element t) k of
        (Inl e, k') \<Rightarrow> (Inl (''delete cap '' @ cap_show t @ '': '' @ e), k')
      | (Inr _, k') \<Rightarrow> del_all run ts k')"

definition apply_cap :: "'k nft \<Rightarrow> cap_tuple list \<Rightarrow> 'k \<Rightarrow> (string, cap_tuple list) result \<times> 'k" where
  "apply_cap run desired k =
     (let want = btree desired in
      case run (list_set CAP_SET) k of
        (Inl e, k') \<Rightarrow> (Inl e, k')
      | (Inr out, k') \<Rightarrow>
          (let live = parse_cap_set_elements out;
               to_add = filter (\<lambda>t. t \<notin> set live) want;
               to_del = filter (\<lambda>t. t \<notin> set want) live in
           case add_all run [] to_add k' of
             (Inl e, k'') \<Rightarrow> (Inl e, k'')
           | (Inr _, k'') \<Rightarrow>
               (case del_all run to_del k'' of
                  (Inl e, k3) \<Rightarrow> (Inl e, k3)
                | (Inr _, k3) \<Rightarrow> (Inr want, k3))))"

definition install_browser_rules :: "'k nft \<Rightarrow> string \<Rightarrow> u32 \<Rightarrow> 'k \<Rightarrow> (string, unit) result \<times> 'k" where
  "install_browser_rules run path level k =
     (case run list_chain k of
        (Inl e, k1) \<Rightarrow> (Inl e, k1)
      | (Inr listing, k1) \<Rightarrow>
          (case parse_rule0_handle listing of
             None \<Rightarrow> (Inl ''rule-0 stub-drop anchor not found; refusing insert'', k1)
           | Some h \<Rightarrow>
               (case run (browser_broad_accept h path level) k1 of
                  (Inl e, k2) \<Rightarrow> (Inl e, k2)
                | (Inr _, k2) \<Rightarrow>
                    (case run (browser_stub_accept h path level) k2 of
                       (Inl e, k3) \<Rightarrow> (Inl e, k3)
                     | (Inr _, k3) \<Rightarrow> (Inr (), k3)))))"

fun delete_rules :: "'k nft \<Rightarrow> u32 list \<Rightarrow> nat \<Rightarrow> 'k \<Rightarrow> (string, nat) result \<times> 'k" where
  "delete_rules run [] removed k = (Inr removed, k)"
| "delete_rules run (h # hs) removed k =
     (case run (delete_rule h) k of
        (Inl e, k') \<Rightarrow> (Inl e, k')
      | (Inr _, k') \<Rightarrow> delete_rules run hs (removed + 1) k')"

definition uninstall_browser_rules :: "'k nft \<Rightarrow> 'k \<Rightarrow> (string, nat) result \<times> 'k" where
  "uninstall_browser_rules run k =
     (case run list_chain k of
        (Inl e, k') \<Rightarrow> (Inl e, k')
      | (Inr listing, k') \<Rightarrow> delete_rules run (parse_browser_handles listing) 0 k')"

section \<open>What the applier issues\<close>

definition element_cmd :: "nft_cmd \<Rightarrow> bool" where
  "element_cmd c \<longleftrightarrow> take 2 c = [''list'', ''set''] \<or>
     (take 2 c = [''add'', ''element''] \<or> take 2 c = [''delete'', ''element'']) \<and> c ! 4 = CAP_SET"

lemma table_parts_eq: "table_parts = [''inet'', ''shrek_desktop_egress'']"
  by (simp add: table_parts_def)

lemma element_cmds [simp]:
  "element_cmd (list_set x)" "element_cmd (add_cap_element t)" "element_cmd (del_cap_element t)"
  by (cases t; simp add: element_cmd_def list_set_def add_cap_element_def del_cap_element_def
      table_parts_eq)+

text \<open>An invariant every element command keeps is kept by the applier, on every path.\<close>

lemma rollback_inv:
  "(\<And>c k. element_cmd c \<Longrightarrow> I k \<Longrightarrow> I (snd (run c k))) \<Longrightarrow> I k \<Longrightarrow> I (rollback run ts k)"
  by (induction run ts k rule: rollback.induct) simp_all

lemma add_all_inv:
  assumes step: "\<And>c k. element_cmd c \<Longrightarrow> I k \<Longrightarrow> I (snd (run c k))"
  shows "I k \<Longrightarrow> I (snd (add_all run added ts k))"
proof (induction ts arbitrary: added k)
  case (Cons t ts)
  obtain r k' where r: "run (add_cap_element t) k = (r, k')" by (cases "run (add_cap_element t) k")
  have "I k'" using step [OF _ Cons.prems, of "add_cap_element t"] r by simp
  then show ?case
    using r Cons.IH [of k'] rollback_inv [of I run k' added] step by (cases r) simp_all
qed simp

lemma del_all_inv:
  assumes step: "\<And>c k. element_cmd c \<Longrightarrow> I k \<Longrightarrow> I (snd (run c k))"
  shows "I k \<Longrightarrow> I (snd (del_all run ts k))"
proof (induction ts arbitrary: k)
  case (Cons t ts)
  obtain r k' where r: "run (del_cap_element t) k = (r, k')" by (cases "run (del_cap_element t) k")
  have "I k'" using step [OF _ Cons.prems, of "del_cap_element t"] r by simp
  then show ?case
    using r Cons.IH [of k'] by (cases r) simp_all
qed simp

lemma apply_cap_inv:
  assumes step: "\<And>c k. element_cmd c \<Longrightarrow> I k \<Longrightarrow> I (snd (run c k))" and k: "I k"
  shows "I (snd (apply_cap run desired k))"
proof -
  obtain r k1 where r: "run (list_set CAP_SET) k = (r, k1)" by (cases "run (list_set CAP_SET) k")
  have k1: "I k1" using step [OF _ k, of "list_set CAP_SET"] r by simp
  show ?thesis
  proof (cases r)
    case (Inr out)
    let ?live = "parse_cap_set_elements out"
    let ?add = "filter (\<lambda>t. t \<notin> set ?live) (btree desired)"
    let ?del = "filter (\<lambda>t. t \<notin> set (btree desired)) ?live"
    obtain ra k2 where a: "add_all run [] ?add k1 = (ra, k2)" by (cases "add_all run [] ?add k1")
    obtain rd k3 where d: "del_all run ?del k2 = (rd, k3)" by (cases "del_all run ?del k2")
    have "I k2" using add_all_inv [of I run k1 "[]" ?add] step k1 a by simp
    moreover from this have "I k3" using del_all_inv [of I run k2 ?del] step d by simp
    ultimately show ?thesis
      using a d k1 by (cases ra; cases rd) (simp_all add: apply_cap_def Let_def r Inr)
  qed (simp add: apply_cap_def Let_def r k1)
qed

text \<open>The commands as they are issued.\<close>

definition logged :: "'k nft \<Rightarrow> ('k \<times> nft_cmd list) nft" where
  "logged run c s = (case run c (fst s) of (r, k') \<Rightarrow> (r, (k', snd s @ [c])))"

section \<open>The contract of the kernel\<close>

lemma btree_set [simp]: "set (btree xs) = set xs"
  by (simp add: btree_def)

lemma btree_sorted: "sorted (btree xs)"
  unfolding btree_def by (rule sorted_remdups_adj) simp

lemma btree_distinct: "distinct (btree xs)"
  unfolding btree_def by (rule sorted_remdups_adj_distinct) simp

lemma parse_cap_set_distinct: "distinct (parse_cap_set_elements s)"
  by (simp add: parse_cap_set_elements_def Let_def btree_distinct split: option.split)

text \<open>Deletions of what is there succeed: enough for a rollback to be exact.\<close>

definition deletes_present :: "'k nft \<Rightarrow> ('k \<Rightarrow> cap_tuple set) \<Rightarrow> bool" where
  "deletes_present run elems \<longleftrightarrow>
     (\<forall>t k. t \<in> elems k \<longrightarrow> (\<exists>out k'. run (del_cap_element t) k = (Inr out, k')))"

locale cap_kernel =
  fixes run :: "'k nft"
    and elems :: "'k \<Rightarrow> cap_tuple set"
  assumes list_ok: "run (list_set CAP_SET) k = (Inr out, k') \<Longrightarrow>
      elems k' = elems k \<and> set (parse_cap_set_elements out) = elems k"
    and add_ok: "run (add_cap_element t) k = (Inr out, k') \<Longrightarrow> elems k' = insert t (elems k)"
    and del_ok: "run (del_cap_element t) k = (Inr out, k') \<Longrightarrow> elems k' = elems k - {t}"
    and failed: "run c k = (Inl e, k') \<Longrightarrow> elems k' = elems k"
    and other: "\<not> element_cmd c \<Longrightarrow> elems (snd (run c k)) = elems k"
begin

lemma del_step: "elems k - {t} \<subseteq> elems (snd (run (del_cap_element t) k))
    \<and> elems (snd (run (del_cap_element t) k)) \<subseteq> elems k"
proof -
  obtain r k' where r: "run (del_cap_element t) k = (r, k')" by (cases "run (del_cap_element t) k")
  then show ?thesis
    using del_ok [of t k _ k'] failed [of "del_cap_element t" k _ k'] by (cases r) auto
qed

lemma rollback_elems:
  "elems k - set ts \<subseteq> elems (rollback run ts k) \<and> elems (rollback run ts k) \<subseteq> elems k"
proof (induction ts arbitrary: k)
  case (Cons t ts)
  show ?case
    unfolding rollback.simps list.set
    using Cons.IH [of "snd (run (del_cap_element t) k)"] del_step [of k t] by blast
qed simp

lemma del_exact: "deletes_present run elems \<Longrightarrow> elems (snd (run (del_cap_element t) k)) = elems k - {t}"
proof -
  assume ok: "deletes_present run elems"
  obtain r k' where r: "run (del_cap_element t) k = (r, k')" by (cases "run (del_cap_element t) k")
  then show ?thesis
    using ok del_ok [of t k _ k'] failed [of _ k _ k']
    by (cases r) (fastforce simp: deletes_present_def)+
qed

lemma rollback_exact: "deletes_present run elems \<Longrightarrow> elems (rollback run ts k) = elems k - set ts"
  by (induction ts arbitrary: k) (auto simp: del_exact)

lemma del_all_exact:
  "deletes_present run elems \<Longrightarrow> distinct ds \<Longrightarrow> set ds \<subseteq> elems k \<Longrightarrow> \<exists>k'. del_all run ds k = (Inr (), k')"
proof (induction ds arbitrary: k)
  case (Cons d ds)
  obtain out k' where k': "run (del_cap_element d) k = (Inr out, k')"
    using Cons.prems(1,3) unfolding deletes_present_def by (meson list.set_intros(1) subsetD)
  then have "set ds \<subseteq> elems k'" using Cons.prems(2,3) del_ok [OF k'] by auto
  then show ?case using Cons.IH [of k'] Cons.prems(1,2) k' by simp
qed simp

lemma add_all_ok: "add_all run added ts k = (Inr u, k') \<Longrightarrow> elems k' = elems k \<union> set ts"
proof (induction ts arbitrary: added k)
  case (Cons t ts)
  then show ?case
    by (auto split: prod.splits sum.splits dest!: add_ok Cons.IH)
qed simp

lemma add_all_err:
  "add_all run added ts k = (Inl e, k') \<Longrightarrow>
     elems k' \<subseteq> elems k \<union> set ts \<and> elems k - set added - set ts \<subseteq> elems k'"
proof (induction ts arbitrary: added k)
  case (Cons t ts)
  obtain r k1 where r: "run (add_cap_element t) k = (r, k1)" by (cases "run (add_cap_element t) k")
  show ?case
  proof (cases r)
    case (Inl x)
    then show ?thesis
      using Cons.prems r rollback_elems [of k1 added] failed [OF r [unfolded Inl]] by auto
  next
    case (Inr x)
    then show ?thesis
      using Cons.prems Cons.IH [of "added @ [t]" k1] r add_ok [OF r [unfolded Inr]] by auto
  qed
qed simp

lemma add_all_rollback:
  assumes "deletes_present run elems"
  shows "add_all run added ts k = (Inl e, k') \<Longrightarrow> set ts \<inter> base = {} \<Longrightarrow> set added \<inter> base = {} \<Longrightarrow>
     elems k = base \<union> set added \<Longrightarrow> elems k' = base"
proof (induction ts arbitrary: added k)
  case (Cons t ts)
  obtain r k1 where r: "run (add_cap_element t) k = (r, k1)" by (cases "run (add_cap_element t) k")
  show ?case
  proof (cases r)
    case (Inl x)
    then show ?thesis
      using Cons.prems r rollback_exact [OF assms, of added k1] failed [OF r [unfolded Inl]] by auto
  next
    case (Inr x)
    have "elems k1 = base \<union> set (added @ [t])"
      using add_ok [OF r [unfolded Inr]] Cons.prems(4) by auto
    then show ?thesis
      using Cons.prems Cons.IH [of "added @ [t]" k1] r Inr by auto
  qed
qed simp

lemma del_all_ok: "del_all run ts k = (Inr u, k') \<Longrightarrow> elems k' = elems k - set ts"
proof (induction ts arbitrary: k)
  case (Cons t ts)
  then show ?case
    by (auto split: prod.splits sum.splits dest!: del_ok Cons.IH)
qed simp

lemma del_all_err:
  "del_all run ts k = (Inl e, k') \<Longrightarrow> elems k' \<subseteq> elems k \<and> elems k - set ts \<subseteq> elems k'"
proof (induction ts arbitrary: k)
  case (Cons t ts)
  obtain r k1 where r: "run (del_cap_element t) k = (r, k1)" by (cases "run (del_cap_element t) k")
  then show ?case
    using Cons.prems Cons.IH [of k1] del_step [of k t] by (cases r) auto
qed simp

lemma apply_cap_elim:
  assumes "apply_cap run desired k = (r, k')"
  obtains (list_fail) e where "run (list_set CAP_SET) k = (Inl e, k')" "r = Inl e" "elems k' = elems k"
  | (add_fail) e k1 where "elems k1 = elems k" "r = Inl e"
      "add_all run [] (filter (\<lambda>t. t \<notin> elems k) (btree desired)) k1 = (Inl e, k')"
  | (del_fail) e k2 ds where "elems k2 = elems k \<union> set desired" "r = Inl e"
      "set ds = elems k - set desired" "distinct ds" "del_all run ds k2 = (Inl e, k')"
  | (converged) k2 ds where "elems k2 = elems k \<union> set desired" "r = Inr (btree desired)"
      "set ds = elems k - set desired" "del_all run ds k2 = (Inr (), k')"
proof -
  obtain r0 k1 where r0: "run (list_set CAP_SET) k = (r0, k1)" by (cases "run (list_set CAP_SET) k")
  show ?thesis
  proof (cases r0)
    case (Inl e)
    then show ?thesis
      using assms r0 list_fail failed [of _ k e k1] by (auto simp: apply_cap_def)
  next
    case (Inr out)
    let ?live = "parse_cap_set_elements out"
    have live: "set ?live = elems k" "elems k1 = elems k"
      using list_ok [OF r0 [unfolded Inr]] by auto
    let ?add = "filter (\<lambda>t. t \<notin> elems k) (btree desired)"
    let ?del = "filter (\<lambda>t. t \<notin> set (btree desired)) ?live"
    have step: "apply_cap run desired k =
        (case add_all run [] ?add k1 of (Inl e, k'') \<Rightarrow> (Inl e, k'')
         | (Inr _, k'') \<Rightarrow> (case del_all run ?del k'' of
              (Inl e, k3) \<Rightarrow> (Inl e, k3) | (Inr _, k3) \<Rightarrow> (Inr (btree desired), k3)))"
      by (simp add: apply_cap_def Let_def r0 Inr live)
    obtain ra k2 where a: "add_all run [] ?add k1 = (ra, k2)" by (cases "add_all run [] ?add k1")
    show ?thesis
    proof (cases ra)
      case (Inl e)
      then show ?thesis using add_fail [OF live(2)] assms step a by auto
    next
      case ok: (Inr u)
      obtain rd k3 where d: "del_all run ?del k2 = (rd, k3)" by (cases "del_all run ?del k2")
      have k2: "elems k2 = elems k \<union> set desired"
        using add_all_ok [OF a [unfolded ok]] live by auto
      have del: "set ?del = elems k - set desired" using live by auto
      show ?thesis
      proof (cases rd)
        case (Inl e)
        then show ?thesis
          using del_fail [OF k2 _ del] parse_cap_set_distinct [of out] assms step a ok d by auto
      next
        case (Inr u)
        then show ?thesis using converged [OF k2 _ del] assms step a ok d by auto
      qed
    qed
  qed
qed

lemma apply_cap_ok:
  "apply_cap run desired k = (Inr ts, k') \<Longrightarrow> elems k' = set desired \<and> ts = btree desired"
  by (erule apply_cap_elim) (auto dest: del_all_ok)

lemma apply_cap_err:
  "apply_cap run desired k = (Inl e, k') \<Longrightarrow>
     elems k' \<subseteq> elems k \<union> set desired \<and> elems k \<inter> set desired \<subseteq> elems k'"
  by (erule apply_cap_elim) (auto dest!: add_all_err del_all_err)

lemma apply_cap_rollback:
  assumes "deletes_present run elems" and "apply_cap run desired k = (Inl e, k')"
  shows "elems k' = elems k"
  using assms(2)
proof (cases rule: apply_cap_elim)
  case (add_fail e' k1)
  show ?thesis
    by (rule add_all_rollback [OF assms(1) add_fail(3)]) (use add_fail(1) in auto)
next
  case (del_fail e' k2 ds)
  then show ?thesis using del_all_exact [OF assms(1), of ds k2] by auto
qed simp_all

end

lemma chain_cmds [simp]:
  "\<not> element_cmd list_chain" "\<not> element_cmd (browser_stub_accept h p l)"
  "\<not> element_cmd (browser_broad_accept h p l)" "\<not> element_cmd (delete_rule h)"
  by (simp_all add: element_cmd_def list_chain_def browser_stub_accept_def browser_broad_accept_def
      delete_rule_def table_parts_eq)

context cap_kernel
begin

lemma chain_elems [simp]:
  "run list_chain k = (r, k') \<Longrightarrow> elems k' = elems k"
  "run (browser_stub_accept h p l) k = (r, k') \<Longrightarrow> elems k' = elems k"
  "run (browser_broad_accept h p l) k = (r, k') \<Longrightarrow> elems k' = elems k"
  "run (delete_rule h) k = (r, k') \<Longrightarrow> elems k' = elems k"
  using other [of list_chain k] other [of "browser_stub_accept h p l" k]
    other [of "browser_broad_accept h p l" k] other [of "delete_rule h" k] by simp_all

lemma install_elems: "install_browser_rules run p l k = (r, k') \<Longrightarrow> elems k' = elems k"
  by (auto simp: install_browser_rules_def split: prod.splits sum.splits option.splits)

lemma delete_rules_elems: "delete_rules run hs n k = (r, k') \<Longrightarrow> elems k' = elems k"
proof (induction hs arbitrary: n k)
  case (Cons h hs)
  obtain r1 k1 where k1: "run (delete_rule h) k = (r1, k1)" by (cases "run (delete_rule h) k")
  then show ?case
    using Cons.prems Cons.IH [of "n + 1" k1] by (cases r1) auto
qed simp

lemma uninstall_elems: "uninstall_browser_rules run k = (r, k') \<Longrightarrow> elems k' = elems k"
  by (auto simp: uninstall_browser_rules_def split: prod.splits sum.splits dest: delete_rules_elems)

end

section \<open>The contract of the chain\<close>

text \<open>\<open>handles\<close>: the browser rules of the chain, as a listing shows them.\<close>

locale chain_kernel =
  fixes run :: "'k nft"
    and handles :: "'k \<Rightarrow> u32 list"
  assumes list_ok: "run list_chain k = (Inr out, k') \<Longrightarrow>
      handles k' = handles k \<and> parse_browser_handles out = handles k"
    and del_ok: "run (delete_rule h) k = (Inr out, k') \<Longrightarrow> handles k' = filter (\<lambda>x. x \<noteq> h) (handles k)"
    and failed: "run c k = (Inl e, k') \<Longrightarrow> handles k' = handles k"
begin

lemma delete_rules_ok:
  "delete_rules run hs n k = (Inr m, k') \<Longrightarrow>
     handles k' = filter (\<lambda>x. x \<notin> set hs) (handles k) \<and> m = n + length hs"
proof (induction hs arbitrary: n k)
  case (Cons h hs)
  obtain r k1 where r: "run (delete_rule h) k = (r, k1)" by (cases "run (delete_rule h) k")
  then show ?case
    using Cons.prems Cons.IH [of "n + 1" k1] del_ok [of h k _ k1]
    by (cases r) (auto intro!: filter_cong)
qed simp

lemma delete_rules_err:
  "delete_rules run hs n k = (Inl e, k') \<Longrightarrow> set (handles k') \<subseteq> set (handles k)"
proof (induction hs arbitrary: n k)
  case (Cons h hs)
  obtain r k1 where r: "run (delete_rule h) k = (r, k1)" by (cases "run (delete_rule h) k")
  then show ?case
    using Cons.prems Cons.IH [of "n + 1" k1] del_ok [of h k _ k1] failed [of "delete_rule h" k _ k1]
    by (cases r) auto
qed simp

lemma uninstall_ok:
  "uninstall_browser_rules run k = (Inr n, k') \<Longrightarrow> handles k' = [] \<and> n = length (handles k)"
proof -
  assume u: "uninstall_browser_rules run k = (Inr n, k')"
  obtain r k1 where r: "run list_chain k = (r, k1)" by (cases "run list_chain k")
  with u obtain out where out: "r = Inr out"
    by (cases r) (simp_all add: uninstall_browser_rules_def)
  have h: "handles k1 = handles k" "parse_browser_handles out = handles k"
    using list_ok [OF r [unfolded out]] by auto
  have "delete_rules run (handles k) 0 k1 = (Inr n, k')"
    using u r out h by (simp add: uninstall_browser_rules_def)
  from delete_rules_ok [OF this] h show ?thesis by simp
qed

lemma uninstall_err:
  "uninstall_browser_rules run k = (Inl e, k') \<Longrightarrow> set (handles k') \<subseteq> set (handles k)"
proof -
  assume u: "uninstall_browser_rules run k = (Inl e, k')"
  obtain r k1 where r: "run list_chain k = (r, k1)" by (cases "run list_chain k")
  show ?thesis
  proof (cases r)
    case (Inl x)
    then show ?thesis using u r failed [of list_chain k x k1] by (simp add: uninstall_browser_rules_def)
  next
    case (Inr out)
    then have "delete_rules run (parse_browser_handles out) 0 k1 = (Inl e, k')"
      using u r by (simp add: uninstall_browser_rules_def)
    then show ?thesis
      using delete_rules_err list_ok [OF r [unfolded Inr]] by metis
  qed
qed

end

section \<open>A kernel in memory\<close>

text \<open>
  The set and the chain of \<open>inet shrek_desktop_egress\<close>, driven by argument vectors and printing
  what \<open>nft\<close> prints.  \<open>mn_fail\<close> says which commands fail.  A rule is its text and its handle; a rule
  is inserted above the handle it names.
\<close>

record mem_nft =
  mn_elems :: "cap_tuple list"
  mn_rules :: "(string \<times> u32) list"
  mn_next :: u32
  mn_fail :: "nft_cmd \<Rightarrow> bool"

fun print_element :: "cap_tuple \<Rightarrow> string" where
  "print_element (ip, pr, port) = ipv4_show ip @ '' . '' @ proto_label pr @ '' . '' @ show_uint port"

definition print_set :: "mem_nft \<Rightarrow> string" where
  "print_set k =
     ''set cap_pinned { type ipv4_addr . inet_proto . inet_service''
     @ (if mn_elems k = [] then [] else
          '' elements = '' @ ''{ '' @ str_join '', '' (map print_element (mn_elems k)) @ '' }'') @ '' }''"

definition print_rule :: "string \<times> u32 \<Rightarrow> string" where
  "print_rule r =
     filter (\<lambda>c. (is_graphic c \<or> c = sp) \<and> c \<noteq> CHR ''#'') (fst r) @ '' # handle '' @ show_uint (snd r)"

definition print_chain :: "mem_nft \<Rightarrow> string" where
  "print_chain k = unlines (''chain output {'' # map print_rule (mn_rules k) @ [''}''])"

definition decode_element :: "nft_cmd \<Rightarrow> cap_tuple option" where
  "decode_element ws =
     (case ws of
        [ob, a, d, p, d', n, c] \<Rightarrow>
          (if ob = ''{'' \<and> d = ''.'' \<and> d' = ''.'' \<and> c = ''}'' then do {
             ip \<leftarrow> ipv4_parse a; pr \<leftarrow> parse_proto p; port \<leftarrow> parse_uint n; Some (ip, pr, port) }
           else None)
      | _ \<Rightarrow> None)"

fun insert_above :: "u32 \<Rightarrow> string \<times> u32 \<Rightarrow> (string \<times> u32) list \<Rightarrow> (string \<times> u32) list option" where
  "insert_above h x [] = None"
| "insert_above h x (r # rs) =
     (if snd r = h then Some (x # r # rs) else map_option (\<lambda>l. r # l) (insert_above h x rs))"

definition mem_do :: "nft_cmd \<Rightarrow> mem_nft \<Rightarrow> (string \<times> mem_nft) option" where
  "mem_do c k =
     (if c = list_set CAP_SET then Some (print_set k, k)
      else if c = list_chain then Some (print_chain k, k)
      else if take 5 c = [''add'', ''element''] @ table_parts @ [CAP_SET]
      then map_option (\<lambda>t. ([], k\<lparr>mn_elems := mn_elems k @ [t]\<rparr>)) (decode_element (drop 5 c))
      else if take 5 c = [''delete'', ''element''] @ table_parts @ [CAP_SET]
      then Option.bind (decode_element (drop 5 c)) (\<lambda>t.
             if t \<in> set (mn_elems k)
             then Some ([], k\<lparr>mn_elems := filter (\<lambda>x. x \<noteq> t) (mn_elems k)\<rparr>) else None)
      else if take 6 c = [''delete'', ''rule''] @ table_parts @ [''output'', ''handle''] \<and> length c = 7
      then Option.bind (parse_uint (c ! 6)) (\<lambda>h.
             Some ([], k\<lparr>mn_rules := filter (\<lambda>r. snd r \<noteq> h) (mn_rules k)\<rparr>))
      else if take 6 c = [''insert'', ''rule''] @ table_parts @ [''output'', ''handle''] \<and> 7 \<le> length c
      then Option.bind (parse_uint (c ! 6)) (\<lambda>h.
             map_option (\<lambda>rs. ([], k\<lparr>mn_rules := rs, mn_next := mn_next k + 1\<rparr>))
               (insert_above h (str_join [sp] (drop 7 c), mn_next k) (mn_rules k)))
      else None)"

definition mem_run :: "mem_nft nft" where
  "mem_run c k =
     (if mn_fail k c then (Inl ''nft failed'', k)
      else case mem_do c k of None \<Rightarrow> (Inl ''nft: rejected'', k) | Some (out, k') \<Rightarrow> (Inr out, k'))"

definition mem_handles :: "mem_nft \<Rightarrow> u32 list" where
  "mem_handles k = map snd (filter (\<lambda>r. is_browser_line (print_rule r)) (mn_rules k))"

subsection \<open>What it prints is what the parsers read\<close>

lemma trim_space_front: "s \<noteq> [] \<Longrightarrow> is_graphic (hd s) \<Longrightarrow> is_graphic (last s) \<Longrightarrow> str_trim (sp # s) = s"
  using str_trim_graphic [of s]
  by (simp add: str_trim_def str_trim_start.simps [of "sp # s"])

lemma trim_space_back: "s \<noteq> [] \<Longrightarrow> is_graphic (hd s) \<Longrightarrow> is_graphic (last s) \<Longrightarrow> str_trim (s @ [sp]) = s"
proof -
  assume s: "s \<noteq> []" "is_graphic (hd s)" "is_graphic (last s)"
  have "ws_len_rev (sp # rev s) = 1"
    by (cases "rev s" rule: ws_len_rev.cases; cases "tl (rev s)") (auto simp: ws1_def)
  then have "trim_rev (sp # rev s) = trim_rev (rev s)"
    by (simp add: trim_rev.simps [of "sp # rev s"])
  moreover obtain c r where "s = c # r" using s(1) by (cases s) auto
  ultimately show ?thesis
    using s str_trim_graphic [of s] by (simp add: str_trim_def str_trim_end_def)
qed

lemma print_element_ends:
  "print_element t \<noteq> []" "is_graphic (hd (print_element t))" "is_graphic (last (print_element t))"
  by (cases t; simp add: ipv4_show_graphic [OF hd_in_set] hd_append show_uint_graphic [OF last_in_set])+

lemma print_element_chars:
  "CHR '','' \<notin> set (print_element t)" "CHR ''{'' \<notin> set (print_element t)"
  "CHR ''}'' \<notin> set (print_element t)"
proof -
  obtain ip pr port where t: "t = (ip, pr, port)" by (cases t)
  have "c \<noteq> CHR '','' \<and> c \<noteq> CHR ''{'' \<and> c \<noteq> CHR ''}''" if "c \<in> set (print_element t)" for c
  proof -
    have "is_digit c \<or> c \<in> set ''. tcpud''"
      using that ipv4_show_bytes [of c ip] show_uint_digit [of c port]
      by (cases pr) (auto simp: t)
    then show ?thesis by (auto simp: is_digit_def)
  qed
  then show "CHR '','' \<notin> set (print_element t)" "CHR ''{'' \<notin> set (print_element t)"
    "CHR ''}'' \<notin> set (print_element t)" by blast+
qed

lemma parse_print_element: "str_trim e = print_element t \<Longrightarrow> parse_element e = Some t"
proof -
  assume e: "str_trim e = print_element t"
  obtain ip pr port where t: "t = (ip, pr, port)" by (cases t)
  have no: "sp \<notin> set (ipv4_show ip)" "sp \<notin> set (proto_label pr)"
    using ipv4_show_bytes [of sp ip] by (auto simp: is_digit_def) (cases pr; simp)
  have "str_split_pat '' . '' (print_element t) = [ipv4_show ip, proto_label pr, show_uint port]"
    using str_split_pat_first [OF no(1), of "''. ''"] str_split_pat_first [OF no(2), of "''. ''"]
      str_split_pat_none [of sp "show_uint port" "''. ''"]
    by (simp add: t)
  moreover have "str_trim x = x" if "x \<noteq> []" "\<forall>c \<in> set x. is_graphic c" for x
    using that by (intro str_trim_graphic) auto
  ultimately show ?thesis
    by (simp add: parse_element_def e t)
qed

lemma trim_space_both:
  "s \<noteq> [] \<Longrightarrow> is_graphic (hd s) \<Longrightarrow> is_graphic (last s) \<Longrightarrow> str_trim (sp # s @ [sp]) = s"
  using trim_space_back [of s] by (simp add: str_trim_def str_trim_start.simps [of "sp # s @ [sp]"])

lemma split_elements:
  "ts \<noteq> [] \<Longrightarrow> map str_trim (str_split (CHR '','') (sp # str_join '', '' (map print_element ts) @ [sp]))
     = map print_element ts"
proof (induction ts rule: induct_list012)
  case (2 t)
  then show ?case
    using trim_space_both [OF print_element_ends] print_element_chars(1) [of t] by simp
next
  case (3 t u ts)
  have "str_split (CHR '','') ((sp # print_element t) @ CHR '','' # sp # str_join '', '' (map print_element (u # ts)) @ [sp])
      = (sp # print_element t) # str_split (CHR '','') (sp # str_join '', '' (map print_element (u # ts)) @ [sp])"
    using print_element_chars(1) [of t] by (intro str_split_append) simp
  then show ?case
    using 3 trim_space_front [OF print_element_ends] by simp
qed simp

lemma parse_elements:
  "map str_trim ls = map print_element ts \<Longrightarrow> List.map_filter parse_element ls = ts"
proof (induction ts arbitrary: ls)
  case (Cons t ts)
  then show ?case by (auto simp: List.map_filter_simps parse_print_element)
qed (simp add: List.map_filter_simps)

lemma join_no_brace: "CHR ''}'' \<notin> set (str_join '', '' (map print_element ts))"
  using print_element_chars(3) by (induction ts rule: induct_list012) simp_all

lemma parse_print_set: "set (parse_cap_set_elements (print_set k)) = set (mn_elems k)"
proof (cases "mn_elems k = []")
  case True
  then show ?thesis
    by (simp add: print_set_def parse_cap_set_elements_def str_starts_with_def)
next
  case False
  let ?j = "str_join '', '' (map print_element (mn_elems k))"
  let ?tail = "''elements = { '' @ ?j @ '' } }''"
  have find: "str_find ''elements'' (print_set k) = Some 60"
    using False by (simp add: print_set_def str_starts_with_def)
  have tail: "drop 60 (print_set k) = ?tail"
    using False by (simp add: print_set_def)
  have lb: "str_find ''{'' ?tail = Some 11"
    by (simp add: str_starts_with_def)
  have "str_find ''}'' ((''elements = { '' @ ?j @ '' '') @ CHR ''}'' # [] @ '' }'') = Some (length (''elements = { '' @ ?j @ '' ''))"
    by (rule str_find_first) (use join_no_brace in simp)
  then have rb: "str_find ''}'' ?tail = Some (14 + length ?j)"
    by simp
  have mid: "take (14 + length ?j - (11 + 1)) (drop (11 + 1) ?tail) = sp # ?j @ [sp]"
    by simp
  show ?thesis
    unfolding parse_cap_set_elements_def find option.case tail Let_def lb rb prod.case mid
    using parse_elements [OF split_elements [OF False]] by simp
qed

lemma mem_do_add: "mem_do (add_cap_element t) k = Some ([], k\<lparr>mn_elems := mn_elems k @ [t]\<rparr>)"
  by (cases t) (simp add: mem_do_def add_cap_element_def list_set_def list_chain_def table_parts_eq
      decode_element_def CAP_SET_def)

lemma mem_do_del: "mem_do (del_cap_element t) k =
    (if t \<in> set (mn_elems k) then Some ([], k\<lparr>mn_elems := filter (\<lambda>x. x \<noteq> t) (mn_elems k)\<rparr>) else None)"
  by (cases t) (simp add: mem_do_def del_cap_element_def list_set_def list_chain_def table_parts_eq
      decode_element_def CAP_SET_def)

lemma mem_do_list: "mem_do (list_set CAP_SET) k = Some (print_set k, k)"
  by (simp add: mem_do_def)

lemma mem_do_chain: "mem_do list_chain k = Some (print_chain k, k)"
  by (simp add: mem_do_def list_chain_def list_set_def table_parts_eq)

lemma mem_do_delete_rule: "mem_do (delete_rule h) k =
    Some ([], k\<lparr>mn_rules := filter (\<lambda>r. snd r \<noteq> h) (mn_rules k)\<rparr>)"
  by (simp add: mem_do_def delete_rule_def list_chain_def list_set_def table_parts_eq CAP_SET_def)

lemma mem_run_Inr:
  "mem_run c k = (Inr out, k') \<longleftrightarrow> \<not> mn_fail k c \<and> mem_do c k = Some (out, k')"
  by (auto simp: mem_run_def split: option.splits)

lemma mem_run_Inl: "mem_run c k = (Inl e, k') \<Longrightarrow> k' = k"
  by (auto simp: mem_run_def split: if_splits option.splits)

lemma mem_do_other:
  assumes "\<not> element_cmd c" "mem_do c k = Some (out, k')"
  shows "mn_elems k' = mn_elems k"
proof -
  have "take 5 c \<noteq> [x, ''element''] @ table_parts @ [CAP_SET]" if x: "x = ''add'' \<or> x = ''delete''" for x
  proof
    assume eq: "take 5 c = [x, ''element''] @ table_parts @ [CAP_SET]"
    have "take 2 c = take 2 (take 5 c)" by simp
    also have "\<dots> = [x, ''element'']" unfolding eq by simp
    finally have "take 2 c = [x, ''element'']" .
    moreover have "c ! 4 = CAP_SET"
      using eq nth_take [of 4 5 c] by (simp add: table_parts_eq)
    ultimately show False using assms(1) x by (auto simp: element_cmd_def)
  qed
  then show ?thesis
    using assms(2) by (auto simp: mem_do_def bind_eq_Some_conv split: if_splits)
qed

interpretation mem_cap: cap_kernel mem_run "\<lambda>k. set (mn_elems k)"
proof unfold_locales
  fix c k assume "\<not> element_cmd c"
  note other = mem_do_other [OF this]
  show "set (mn_elems (snd (mem_run c k))) = set (mn_elems k)"
  proof (cases "mem_do c k")
    case (Some x)
    then obtain out k' where "mem_do c k = Some (out, k')" by (cases x) simp
    then show ?thesis using other [of k out k'] by (simp add: mem_run_def)
  qed (simp add: mem_run_def)
qed (auto simp: mem_run_Inr mem_do_add mem_do_del mem_do_list parse_print_set dest: mem_run_Inl
      split: if_splits)

lemma handle_of_print: "handle_of_line (print_rule r) = Some (snd r)"
proof -
  let ?t = "filter (\<lambda>c. (is_graphic c \<or> c = sp) \<and> c \<noteq> CHR ''#'') (fst r)"
  have "str_find ''# handle '' ((?t @ [sp]) @ CHR ''#'' # '' handle '' @ show_uint (snd r))
      = Some (length (?t @ [sp]))"
    by (rule str_find_first) simp
  then have "str_find ''# handle '' (print_rule r) = Some (length (?t @ [sp]))"
    by (simp add: print_rule_def)
  moreover have "str_trim (show_uint (snd r)) = show_uint (snd r)"
    by (intro str_trim_graphic) (simp_all add: show_uint_graphic [OF hd_in_set] show_uint_graphic [OF last_in_set])
  ultimately show ?thesis
    by (simp add: handle_of_line_def print_rule_def)
qed

lemma print_rule_text: "text_line (print_rule r)"
proof -
  have "text_line (filter (\<lambda>c. (is_graphic c \<or> c = sp) \<and> c \<noteq> CHR ''#'') t)" for t
    by (simp add: text_line_def list_all_iff)
  moreover have "text_line '' # handle ''"
    by (simp add: is_graphic_def)
  ultimately show ?thesis
    by (simp only: print_rule_def text_line_simps(3) text_line_num simp_thms)
qed

lemma parse_print_chain: "parse_browser_handles (print_chain k) = mem_handles k"
proof -
  have lt: "\<forall>l \<in> set (''chain output {'' # map print_rule (mn_rules k) @ [''}'']). text_line l"
    using print_rule_text by (auto simp: is_graphic_def)
  have ends: "\<not> is_browser_line ''chain output {''" "\<not> is_browser_line ''}''"
    by (simp_all add: is_browser_line_def str_contains_def str_starts_with_def)
  have "List.map_filter (\<lambda>l. if is_browser_line l then handle_of_line l else None) (map print_rule rs)
      = map snd (filter (\<lambda>r. is_browser_line (print_rule r)) rs)" for rs
    by (induction rs) (simp_all add: List.map_filter_simps handle_of_print)
  then show ?thesis
    using ends unfolding parse_browser_handles_def print_chain_def lines_text(1) [OF lt]
    by (simp add: List.map_filter_def mem_handles_def)
qed

interpretation mem_chain: chain_kernel mem_run mem_handles
  by unfold_locales
    (auto simp: mem_run_Inr mem_do_chain mem_do_delete_rule parse_print_chain dest: mem_run_Inl,
      simp add: mem_handles_def filter_map comp_def conj_commute)

section \<open>Properties\<close>

text \<open>
  C32: reconciling the live set, over any kernel that keeps its contract: on success the set is
  exactly the desired one, and on any failure nothing was opened that is not desired and nothing
  desired was closed.
\<close>

theorem apply_cap_exact:
  assumes "cap_kernel run elems" "apply_cap run desired k = (r, k')"
  shows "case r of Inr ts \<Rightarrow> elems k' = set desired \<and> ts = btree desired
    | Inl e \<Rightarrow> elems k' \<subseteq> elems k \<union> set desired \<and> elems k \<inter> set desired \<subseteq> elems k'"
  using cap_kernel.apply_cap_ok [OF assms(1)] cap_kernel.apply_cap_err [OF assms(1)] assms(2)
  by (cases r) auto

definition quiet_nft :: mem_nft where
  "quiet_nft = \<lparr>mn_elems = [], mn_rules = [(''meta skuid 1000 th dport 53 drop'', 4)], mn_next = 5,
     mn_fail = (\<lambda>c. False)\<rparr>"

theorem apply_cap_exact_witness:
  "\<exists>r k'. apply_cap mem_run [(Ipv4 1 2 3 4, Tcp, 443)] quiet_nft = (r, k')
     \<and> (case r of Inr ts \<Rightarrow> set (mn_elems k') = {(Ipv4 1 2 3 4, Tcp, 443)}
        | Inl e \<Rightarrow> set (mn_elems k') \<subseteq> {(Ipv4 1 2 3 4, Tcp, 443)})"
proof -
  obtain r k' where r: "apply_cap mem_run [(Ipv4 1 2 3 4, Tcp, 443)] quiet_nft = (r, k')"
    by (cases "apply_cap mem_run [(Ipv4 1 2 3 4, Tcp, 443)] quiet_nft")
  show ?thesis
    using apply_cap_exact [OF mem_cap.cap_kernel_axioms r] r
    by (cases r) (auto simp: quiet_nft_def)
qed

text \<open>
  with a kernel that deletes what is there, a reconcile that fails leaves the live set exactly
  as it was: no bless half-opens.
\<close>

theorem apply_cap_rolls_back:
  assumes "cap_kernel run elems" "deletes_present run elems" "apply_cap run desired k = (Inl e, k')"
  shows "elems k' = elems k"
  using assms by (rule cap_kernel.apply_cap_rollback)

text \<open>The in-memory kernel with the commands it refuses fixed beforehand.\<close>

definition fixed_run :: "(nft_cmd \<Rightarrow> bool) \<Rightarrow> mem_nft nft" where
  "fixed_run f c k = mem_run c (k\<lparr>mn_fail := f\<rparr>)"

interpretation fixed_cap: cap_kernel "fixed_run f" "\<lambda>k. set (mn_elems k)" for f
  by unfold_locales
    (use mem_cap.list_ok mem_cap.add_ok mem_cap.del_ok mem_cap.failed mem_cap.other in \<open>fastforce simp: fixed_run_def\<close>)+

definition no_adds :: "nft_cmd \<Rightarrow> bool" where
  "no_adds c \<longleftrightarrow> take 2 c = [''add'', ''element'']"

lemma no_adds_deletes: "deletes_present (fixed_run no_adds) (\<lambda>k. set (mn_elems k))"
proof -
  have "\<not> no_adds (del_cap_element t)" for t
    by (cases t) (simp add: no_adds_def del_cap_element_def)
  then show ?thesis
    unfolding deletes_present_def by (simp add: fixed_run_def mem_run_def mem_do_del)
qed

lemma no_adds_empty: "mn_elems k = [] \<Longrightarrow> mn_elems (snd (fixed_run no_adds c k)) = []"
proof -
  assume k: "mn_elems k = []"
  have "take 5 c \<noteq> [''add'', ''element''] @ table_parts @ [CAP_SET]" if "\<not> no_adds c"
  proof
    assume eq: "take 5 c = [''add'', ''element''] @ table_parts @ [CAP_SET]"
    have "take 2 c = take 2 (take 5 c)" by simp
    then show False using that unfolding eq by (simp add: no_adds_def)
  qed
  then show ?thesis
    using k by (auto simp: fixed_run_def mem_run_def mem_do_def split: option.splits bind_splits)
qed

lemma no_adds_fails:
  "\<exists>e k'. apply_cap (fixed_run no_adds) [(Ipv4 1 2 3 4, Tcp, 443)] quiet_nft = (Inl e, k')"
proof -
  obtain r k' where r: "apply_cap (fixed_run no_adds) [(Ipv4 1 2 3 4, Tcp, 443)] quiet_nft = (r, k')"
    by (cases "apply_cap (fixed_run no_adds) [(Ipv4 1 2 3 4, Tcp, 443)] quiet_nft")
  have "mn_elems (snd (apply_cap (fixed_run no_adds) [(Ipv4 1 2 3 4, Tcp, 443)] quiet_nft)) = []"
    by (rule apply_cap_inv [where I = "\<lambda>k. mn_elems k = []"]) (simp_all add: no_adds_empty quiet_nft_def)
  then show ?thesis
    using r fixed_cap.apply_cap_ok [of no_adds "[(Ipv4 1 2 3 4, Tcp, 443)]" quiet_nft _ k'] by (cases r) auto
qed

theorem apply_cap_rolls_back_witness:
  "\<exists>k'. mn_elems k' = [] \<and> k' = snd (apply_cap (fixed_run no_adds) [(Ipv4 1 2 3 4, Tcp, 443)] quiet_nft)"
proof -
  obtain e k' where k': "apply_cap (fixed_run no_adds) [(Ipv4 1 2 3 4, Tcp, 443)] quiet_nft = (Inl e, k')"
    using no_adds_fails by blast
  show ?thesis
    using apply_cap_rolls_back [OF fixed_cap.cap_kernel_axioms no_adds_deletes k'] k'
    by (simp add: quiet_nft_def)
qed

text \<open>
  reconciling touches the capability set and nothing else: every command it issues lists a set,
  or adds or deletes an element of that one set.  It never changes a rule.
\<close>

theorem apply_cap_element_only:
  "list_all element_cmd (drop (length log) (snd (snd (apply_cap (logged run) desired (k, log)))))"
proof -
  have "length log \<le> length (snd (snd (apply_cap (logged run) desired (k, log))))
      \<and> list_all element_cmd (drop (length log) (snd (snd (apply_cap (logged run) desired (k, log)))))"
    by (rule apply_cap_inv [where I = "\<lambda>s. length log \<le> length (snd s) \<and> list_all element_cmd (drop (length log) (snd s))"])
      (auto simp: logged_def split: prod.split)
  then show ?thesis by blast
qed

text \<open>
  tearing down web browsing removes every browser rule of the chain and reports how many; when
  a deletion fails, no rule was added.
\<close>

theorem uninstall_complete:
  assumes "chain_kernel run handles" "uninstall_browser_rules run k = (r, k')"
  shows "case r of Inr n \<Rightarrow> handles k' = [] \<and> n = length (handles k)
    | Inl e \<Rightarrow> set (handles k') \<subseteq> set (handles k)"
  using chain_kernel.uninstall_ok [OF assms(1)] chain_kernel.uninstall_err [OF assms(1)] assms(2)
  by (cases r) auto

definition browsing_nft :: mem_nft where
  "browsing_nft = \<lparr>mn_elems = [],
     mn_rules = [(''meta skuid 1000 socket cgroupv2 level 4 accept'', 7), (''meta skuid 1000 th dport 53 drop'', 4)],
     mn_next = 8, mn_fail = (\<lambda>c. False)\<rparr>"

theorem uninstall_complete_witness:
  "\<exists>r k'. uninstall_browser_rules mem_run browsing_nft = (r, k')
     \<and> (case r of Inr n \<Rightarrow> mem_handles k' = [] \<and> n = 1
        | Inl e \<Rightarrow> set (mem_handles k') \<subseteq> {7})"
proof -
  obtain r k' where r: "uninstall_browser_rules mem_run browsing_nft = (r, k')"
    by (cases "uninstall_browser_rules mem_run browsing_nft")
  have "mem_handles browsing_nft = [7]" by code_simp
  then show ?thesis
    using uninstall_complete [OF mem_chain.chain_kernel_axioms r] r by (cases r) auto
qed

definition floor_nft :: mem_nft where
  "floor_nft = \<lparr>mn_elems = [],
     mn_rules = [(''meta skuid 1000 ip daddr 127.0.0.53 th dport 53 drop'', 4)], mn_next = 5, mn_fail = (\<lambda>c. False)\<rparr>"

lemma show_four: "show_uint (4 :: u32) = ''4''"
  by (simp add: show_uint_def show_nat.simps digit_char_def char_of_def bit_Suc_0_iff)
lemma parse_four: "parse_uint ''4'' = Some (4 :: u32)"
  using parse_show_uint [of "4 :: u32"] by (simp add: show_four)

lemma floor_anchor: "parse_rule0_handle (print_chain floor_nft) = Some 4"
proof -
  let ?r = "(''meta skuid 1000 ip daddr 127.0.0.53 th dport 53 drop'', 4)"
  have lt: "\<forall>l \<in> set [''chain output {'', print_rule ?r, ''}'']. text_line l"
    using print_rule_text by (auto simp: is_graphic_def)
  have "\<not> is_rule0_line ''chain output {''" "is_rule0_line (print_rule ?r)"
    by code_simp+
  moreover have "str_lines (print_chain floor_nft) = [''chain output {'', print_rule ?r, ''}'']"
    using lines_text(1) [OF lt] by (simp del: unlines_def print_rule_def add: print_chain_def floor_nft_def)
  moreover have "handle_of_line (print_rule ?r) = Some 4" "str_find ''# handle '' (print_rule ?r) \<noteq> None"
    using handle_of_print [of ?r] by (auto simp: handle_of_line_def split: option.splits)
  ultimately show ?thesis
    unfolding parse_rule0_handle_def by (simp only: find.simps) simp
qed

definition broad_nft :: mem_nft where
  "broad_nft = floor_nft\<lparr>mn_rules := (''meta skuid 1000 socket cgroupv2 level 4 '' @ double_quoted ''p'' @ '' accept'', 5) # mn_rules floor_nft,
     mn_next := 6, mn_fail := (\<lambda>c. c = browser_stub_accept 4 ''p'' 4)\<rparr>"

lemma broad_inserted:
  "fixed_run (\<lambda>c. c = browser_stub_accept 4 ''p'' 4) (browser_broad_accept 4 ''p'' 4)
     (floor_nft\<lparr>mn_fail := (\<lambda>c. c = browser_stub_accept 4 ''p'' 4)\<rparr>) = (Inr [], broad_nft)"
  by (simp add: fixed_run_def mem_run_def mem_do_def browser_broad_accept_def browser_stub_accept_def list_set_def
      list_chain_def table_parts_eq floor_nft_def CAP_SET_def show_four parse_four broad_nft_def)

lemma chain_not_stub: "list_chain \<noteq> browser_stub_accept h p l"
  by (simp add: list_chain_def browser_stub_accept_def)

text \<open>
  installing the browser pair is not atomic: when the second insertion is refused, the call
  answers an error and the broad accept stays in the chain.
\<close>

theorem install_leaves_broad_rule:
  "install_browser_rules (fixed_run (\<lambda>c. c = browser_stub_accept 4 ''p'' 4)) ''p'' 4 floor_nft = (Inl ''nft failed'', broad_nft)
   \<and> mem_handles broad_nft = [5]"
proof
  have "fixed_run (\<lambda>c. c = browser_stub_accept 4 ''p'' 4) list_chain floor_nft
      = (Inr (print_chain floor_nft), floor_nft\<lparr>mn_fail := (\<lambda>c. c = browser_stub_accept 4 ''p'' 4)\<rparr>)"
    using chain_not_stub by (simp add: fixed_run_def mem_run_def mem_do_chain print_chain_def)
  moreover have "fixed_run (\<lambda>c. c = browser_stub_accept 4 ''p'' 4) (browser_stub_accept 4 ''p'' 4) broad_nft = (Inl ''nft failed'', broad_nft)"
    by (simp add: fixed_run_def mem_run_def broad_nft_def)
  ultimately show "install_browser_rules (fixed_run (\<lambda>c. c = browser_stub_accept 4 ''p'' 4)) ''p'' 4 floor_nft = (Inl ''nft failed'', broad_nft)"
    by (simp add: install_browser_rules_def floor_anchor broad_inserted)
  have "is_browser_line (print_rule (''meta skuid 1000 socket cgroupv2 level 4 '' @ double_quoted ''p'' @ '' accept'', 5))"
    "\<not> is_browser_line (print_rule (''meta skuid 1000 ip daddr 127.0.0.53 th dport 53 drop'', 4))"
    by code_simp+
  then show "mem_handles broad_nft = [5]"
    by (simp add: mem_handles_def broad_nft_def floor_nft_def)
qed

subsection \<open>A kernel that refuses nothing\<close>

text \<open>A kernel that refuses no listing, no addition and no deletion of what is there.\<close>

definition obliging :: "'k nft \<Rightarrow> ('k \<Rightarrow> cap_tuple set) \<Rightarrow> bool" where
  "obliging run elems \<longleftrightarrow> deletes_present run elems
     \<and> (\<forall>k. \<exists>out k'. run (list_set CAP_SET) k = (Inr out, k'))
     \<and> (\<forall>t k. \<exists>out k'. run (add_cap_element t) k = (Inr out, k'))"

lemma add_all_obliging: "obliging run elems \<Longrightarrow> \<exists>k'. add_all run added ts k = (Inr (), k')"
proof (induction ts arbitrary: added k)
  case (Cons t ts)
  obtain out k' where "run (add_cap_element t) k = (Inr out, k')"
    using Cons.prems unfolding obliging_def by blast
  then show ?case using Cons by simp
qed simp

context cap_kernel
begin

lemma apply_cap_obliging: "obliging run elems \<Longrightarrow> \<exists>k'. apply_cap run desired k = (Inr (btree desired), k')"
proof -
  assume ok: "obliging run elems"
  obtain r k' where r: "apply_cap run desired k = (r, k')" by (cases "apply_cap run desired k")
  then show ?thesis
  proof (cases rule: apply_cap_elim)
    case (list_fail e)
    obtain out k1 where "run (list_set CAP_SET) k = (Inr out, k1)"
      using ok unfolding obliging_def by blast
    then show ?thesis using list_fail by simp
  next
    case (add_fail e k1)
    then show ?thesis using add_all_obliging [OF ok] by (metis old.sum.distinct(1) prod.inject)
  next
    case (del_fail e k2 ds)
    then show ?thesis
      using del_all_exact [of ds k2] ok by (auto simp: obliging_def)
  qed (use r in auto)
qed

end

lemma fixed_obliging: "obliging (fixed_run (\<lambda>_. False)) (\<lambda>k. set (mn_elems k))"
  unfolding obliging_def deletes_present_def
  by (simp add: fixed_run_def mem_run_def mem_do_add mem_do_del mem_do_list)

end
