(* ===== verification/Egress_Confirmed.thy ===== *)
theory Egress_Confirmed
  imports Egress_Raw Egress_Apply
begin

text \<open>
  The reconcile engine of \<open>crates/egressd/src/confirmed.rs\<close>: resolving the raw destinations into
  their cache, the desired union of the set \<open>@cap_pinned\<close> computed from the store alone, and the
  two reconciliations.  Resolvers are parameters: \<open>resolver i host\<close> is the answer to the \<open>i\<close>-th
  lookup of the call.
\<close>

section \<open>Definitions\<close>

text \<open>\<open>let _ = f(store)\<close>: the error is dropped and the store stays as it was.\<close>

definition ignoring :: "'s \<Rightarrow> ('e, 's) result \<Rightarrow> 's" where
  "ignoring s r = (case r of Inl _ \<Rightarrow> s | Inr s' \<Rightarrow> s')"

type_synonym raw_resolver = "nat \<Rightarrow> string \<Rightarrow> (string, ipv4 list) result"

definition dot_raw_resolver :: "raw_resolver \<Rightarrow> raw_resolver" where
  "dot_raw_resolver dot i host =
     (case ipv4_parse host of Some ip \<Rightarrow> Inr [ip] | None \<Rightarrow> dot i host)"

definition browser_cgroup :: "u32 \<Rightarrow> string \<times> u32" where
  "browser_cgroup uid =
     (''user.slice/user-'' @ show_uint uid @ ''.slice/user@'' @ show_uint uid
        @ ''.service/shrekbrowser.slice'', 4)"

definition resolve_triple :: "raw_resolver \<Rightarrow> nat \<Rightarrow> raw_triple \<Rightarrow> (string, ipv4 list) result" where
  "resolve_triple resolver i t =
     (if is_ip_literal t
      then (case ipv4_parse (rt_host t) of Some ip \<Rightarrow> Inr [ip] | None \<Rightarrow> Inl ''bad literal'')
      else resolver i (rt_host t))"

fun resolve_loop :: "raw_resolver \<Rightarrow> u64 \<Rightarrow> nat \<Rightarrow> raw_triple list \<Rightarrow> raw_pin list \<Rightarrow> nat
    \<Rightarrow> raw_pin list \<times> nat" where
  "resolve_loop resolver at i [] cache pending = (cache, pending)"
| "resolve_loop resolver at i (t # ts) cache pending =
     (case resolve_triple resolver i t of
        Inr ips \<Rightarrow>
          (if ips \<noteq> []
           then resolve_loop resolver at (i + 1) ts
                  (cache @ [\<lparr>rp_triple = t, rp_pins = ips, rp_resolved = at\<rparr>]) pending
           else resolve_loop resolver at (i + 1) ts cache (pending + 1))
      | Inl _ \<Rightarrow> resolve_loop resolver at (i + 1) ts cache (pending + 1))"

definition resolve_raw :: "raw_resolver \<Rightarrow> store \<Rightarrow> u64 \<Rightarrow> store \<times> nat \<times> nat" where
  "resolve_raw resolver s at =
     (case resolve_loop resolver at 0 (list_raw s) [] 0 of
        (cache, pending) \<Rightarrow> (ignoring s (write_raw_pins s cache), length cache, pending))"

definition bless_tuples :: "store \<Rightarrow> string option \<Rightarrow> bless_record \<Rightarrow> cap_tuple list" where
  "bless_tuples s exclude b =
     (if \<not> admits_socket_bless (br_profile b) then []
      else if exclude = Some (br_profile b) then []
      else case resolve_desktop (br_profile b) of
        None \<Rightarrow> []
      | Some prof \<Rightarrow>
          (case load_pin s (br_profile b) of
             None \<Rightarrow> []
           | Some rec \<Rightarrow>
               List.map_filter (\<lambda>p. map_option (\<lambda>r. (pin_addr p, rule_proto r, rule_port r))
                   (find (\<lambda>r. rule_host r = pin_name p) (prof_rules prof))) (pr_pins rec)))"

definition raw_tuples :: "raw_pin \<Rightarrow> cap_tuple list" where
  "raw_tuples rp = map (\<lambda>ip. (ip, rt_proto (rp_triple rp), rt_port (rp_triple rp))) (rp_pins rp)"

definition desired_cap_union :: "store \<Rightarrow> string option \<Rightarrow> cap_tuple list" where
  "desired_cap_union s exclude =
     btree (concat (map (bless_tuples s exclude) (list_bless s))
            @ concat (map raw_tuples (list_raw_pins s)))"

definition reconcile_cap :: "'k nft \<Rightarrow> store \<Rightarrow> 'k \<Rightarrow> (string, cap_tuple list) result \<times> 'k" where
  "reconcile_cap run s k = apply_cap run (desired_cap_union s None) k"

definition reconcile_web_browsing :: "'k nft \<Rightarrow> (u32 \<Rightarrow> bool) \<Rightarrow> store \<Rightarrow> u32 \<Rightarrow> 'k
    \<Rightarrow> (string, bool) result \<times> 'k" where
  "reconcile_web_browsing run slice_exists s uid k =
     (if load_bless s ''web-browsing'' = None then (Inr False, k)
      else if \<not> slice_exists uid then (Inr False, k)
      else case run list_chain k of
        (Inl e, k1) \<Rightarrow> (Inl e, k1)
      | (Inr listing, k1) \<Rightarrow>
          (if parse_browser_handles listing \<noteq> [] then (Inr False, k1)
           else case browser_cgroup uid of (path, level) \<Rightarrow>
             (case install_browser_rules run path level k1 of
                (Inl e, k2) \<Rightarrow> (Inl e, k2)
              | (Inr _, k2) \<Rightarrow> (Inr True, k2))))"

section \<open>Facts: resolving\<close>

lemma resolve_loop_spec:
  "resolve_loop res at i ts cache pending = (cache', pending') \<Longrightarrow>
     length cache' + pending' = length cache + pending + length ts
     \<and> set cache \<subseteq> set cache'
     \<and> (\<forall>e \<in> set cache'. e \<in> set cache \<or> rp_triple e \<in> set ts \<and> rp_pins e \<noteq> [] \<and> rp_resolved e = at
          \<and> (\<exists>j. resolve_triple res j (rp_triple e) = Inr (rp_pins e)))"
proof (induction res at i ts cache pending rule: resolve_loop.induct)
  case (2 res at i t ts cache pending)
  show ?case
    using "2.prems" "2.IH"
    by (cases "resolve_triple res i t") (fastforce split: if_splits)+
qed simp

lemma resolve_raw_frame:
  "resolve_raw res s at = (s', n, p) \<Longrightarrow> \<exists>d. s' = s\<lparr>st_root := d\<rparr>"
proof -
  assume "resolve_raw res s at = (s', n, p)"
  then obtain c where "s' = ignoring s (write_raw_pins s c)"
    unfolding resolve_raw_def by (cases "resolve_loop res at 0 (list_raw s) [] 0") auto
  then show ?thesis
    by (cases "write_raw_pins s c") (auto simp: ignoring_def dest: write_raw_pins_frame intro: exI [of _ "st_root s"])
qed

lemma resolve_raw_counts:
  "resolve_raw res s at = (s', n, p) \<Longrightarrow> n + p = length (list_raw s)"
  by (auto simp: resolve_raw_def dest!: resolve_loop_spec split: prod.splits)

lemma resolve_raw_keeps_intent: "resolve_raw res s at = (s', n, p) \<Longrightarrow> list_raw s' = list_raw s"
proof -
  assume "resolve_raw res s at = (s', n, p)"
  then obtain c where "s' = ignoring s (write_raw_pins s c)"
    unfolding resolve_raw_def by (cases "resolve_loop res at 0 (list_raw s) [] 0") auto
  then show ?thesis
    by (cases "write_raw_pins s c") (auto simp: ignoring_def dest: raw_of_write_raw_pins)
qed

text \<open>When the cache can be written it covers only present destinations.\<close>

lemma resolve_raw_cache:
  assumes "resolve_raw res s at = (s', n, p)" "\<not> d_refuse (st_root s) ''raw-pins''"
    and "e \<in> set (list_raw_pins s')"
  shows "rp_triple e \<in> set (list_raw s) \<and> rp_resolved e = at
     \<and> (\<exists>j. resolve_triple res j (rp_triple e) = Inr (rp_pins e))"
proof -
  obtain cache pending where c: "resolve_loop res at 0 (list_raw s) [] 0 = (cache, pending)"
    by (cases "resolve_loop res at 0 (list_raw s) [] 0")
  obtain s2 where w: "write_raw_pins s cache = Inr s2"
    using assms(2) unfolding write_raw_pins_def Let_def atomic_write_def put_root_def by simp
  with assms(1) c have "s' = s2"
    by (simp add: resolve_raw_def ignoring_def)
  then have "e \<in> set cache"
    using assms(3) write_raw_pins_list [OF w] by auto
  then show ?thesis
    using resolve_loop_spec [OF c] by auto
qed

section \<open>Facts: the desired union\<close>

text \<open>A blessed one-click capability authorises a tuple through its own sealed rule.\<close>

definition cap_grants :: "store \<Rightarrow> string \<Rightarrow> cap_tuple \<Rightarrow> bool" where
  "cap_grants s name t \<longleftrightarrow>
     admits_socket_bless name \<and> load_bless s name \<noteq> None \<and>
     (\<exists>rec p prof r. load_pin s name = Some rec \<and> p \<in> set (pr_pins rec)
        \<and> resolve_desktop name = Some prof \<and> r \<in> set (prof_rules prof)
        \<and> rule_host r = pin_name p \<and> t = (pin_addr p, rule_proto r, rule_port r))"

definition raw_grants :: "store \<Rightarrow> cap_tuple \<Rightarrow> bool" where
  "raw_grants s t \<longleftrightarrow>
     (\<exists>e \<in> set (list_raw_pins s). \<exists>ip \<in> set (rp_pins e).
        t = (ip, rt_proto (rp_triple e), rt_port (rp_triple e)))"

text \<open>No sealed profile names a host twice, so the rule a pin selects is the only candidate.\<close>

lemma sealed_hosts_distinct:
  "resolve_desktop name = Some prof \<Longrightarrow> distinct (map rule_host (prof_rules prof))"
proof -
  have "\<forall>q \<in> set DESKTOP_EGRESS_PROFILES. distinct (map rule_host (prof_rules q))"
    by (simp add: desktop_tables)
  then show "resolve_desktop name = Some prof \<Longrightarrow> ?thesis"
    by (auto simp: resolve_desktop_iff)
qed

lemma find_host_iff:
  "distinct (map rule_host rs) \<Longrightarrow>
     find (\<lambda>x. rule_host x = h) rs = Some r \<longleftrightarrow> r \<in> set rs \<and> rule_host r = h"
  by (induction rs) auto

lemma bless_tuples_iff:
  "t \<in> set (bless_tuples s ex b) \<and> load_bless s (br_profile b) \<noteq> None \<longleftrightarrow>
     cap_grants s (br_profile b) t \<and> ex \<noteq> Some (br_profile b)"
proof (cases "resolve_desktop (br_profile b)")
  case (Some prof)
  show ?thesis
  proof (cases "load_pin s (br_profile b)")
    case pin: (Some rec)
    have "t \<in> set (List.map_filter (\<lambda>p. map_option (\<lambda>r. (pin_addr p, rule_proto r, rule_port r))
          (find (\<lambda>r. rule_host r = pin_name p) (prof_rules prof))) (pr_pins rec)) \<longleftrightarrow>
        (\<exists>p \<in> set (pr_pins rec). \<exists>r \<in> set (prof_rules prof).
          rule_host r = pin_name p \<and> t = (pin_addr p, rule_proto r, rule_port r))"
      unfolding set_map_filter by (simp add: find_host_iff [OF sealed_hosts_distinct [OF Some]]) blast
    then show ?thesis
      unfolding bless_tuples_def cap_grants_def using Some pin by auto
  qed (simp add: bless_tuples_def cap_grants_def Some)
qed (simp add: bless_tuples_def cap_grants_def)

lemma desired_cap_union_iff:
  "t \<in> set (desired_cap_union s ex) \<longleftrightarrow>
     (\<exists>name. ex \<noteq> Some name \<and> cap_grants s name t) \<or> raw_grants s t"
proof -
  have cap: "(\<exists>b \<in> set (list_bless s). t \<in> set (bless_tuples s ex b)) \<longleftrightarrow>
      (\<exists>name. ex \<noteq> Some name \<and> cap_grants s name t)"
  proof
    assume "\<exists>b \<in> set (list_bless s). t \<in> set (bless_tuples s ex b)"
    then obtain b where b: "load_bless s (br_profile b) = Some b" "t \<in> set (bless_tuples s ex b)"
      unfolding list_bless_member [symmetric] by blast
    then have "cap_grants s (br_profile b) t \<and> ex \<noteq> Some (br_profile b)"
      by (subst bless_tuples_iff [symmetric]) simp
    then show "\<exists>name. ex \<noteq> Some name \<and> cap_grants s name t" by blast
  next
    assume "\<exists>name. ex \<noteq> Some name \<and> cap_grants s name t"
    then obtain name where n: "ex \<noteq> Some name" "cap_grants s name t" by blast
    then obtain b where b: "ex \<noteq> Some name" "cap_grants s name t" "load_bless s name = Some b"
      unfolding cap_grants_def by blast
    then have "br_profile b = name"
      using load_bless_sound by blast
    with b have "b \<in> set (list_bless s)" "t \<in> set (bless_tuples s ex b)"
      using bless_tuples_iff [of t s ex b] by (simp_all add: list_bless_member)
    then show "\<exists>b \<in> set (list_bless s). t \<in> set (bless_tuples s ex b)" by blast
  qed
  have raw: "(\<exists>e \<in> set (list_raw_pins s). t \<in> set (raw_tuples e)) \<longleftrightarrow> raw_grants s t"
    by (auto simp: raw_grants_def raw_tuples_def)
  show ?thesis
    unfolding desired_cap_union_def using cap raw by auto
qed

section \<open>Properties\<close>

text \<open>
  the set the kernel is asked for is exactly what the store grants: the pinned addresses of each
  blessed one-click profile at the port its sealed rule names (one profile may be left out), and the
  cached addresses of the raw destinations.
\<close>

theorem union_is_what_is_granted:
  "t \<in> set (desired_cap_union s ex) \<longleftrightarrow> (\<exists>name. ex \<noteq> Some name \<and> cap_grants s name t) \<or> raw_grants s t"
  by (rule desired_cap_union_iff)

text \<open>
  a re-resolution never invents an address: after it, every cached entry belongs to a stored
  destination, carries the time of the pass and exactly the answer of a resolver (or the literal
  itself), and the pass accounts for every stored destination and changes none.
\<close>

theorem resolve_raw_faithful:
  assumes "resolve_raw res s at = (s', n, p)" "\<not> d_refuse (st_root s) ''raw-pins''"
  shows "n + p = length (list_raw s) \<and> list_raw s' = list_raw s
    \<and> set (list_raw_pins s') \<subseteq>
        {e. rp_triple e \<in> set (list_raw s) \<and> rp_resolved e = at
            \<and> (\<exists>j. resolve_triple res j (rp_triple e) = Inr (rp_pins e))}"
  using resolve_raw_counts [OF assms(1)] resolve_raw_keeps_intent [OF assms(1)]
    resolve_raw_cache [OF assms] by blast

theorem resolve_raw_faithful_witness:
  "\<exists>s n p. resolve_raw (\<lambda>i h. Inl ''down'') empty_store 9 = (s, n, p) \<and> n + p = 0"
proof -
  obtain s n p where r: "resolve_raw (\<lambda>i h. Inl ''down'') empty_store 9 = (s, n, p)"
    by (metis prod_cases3)
  have "\<not> d_refuse (st_root empty_store) ''raw-pins''" by (simp add: empty_store_def empty_dir_def)
  moreover have "list_raw empty_store = []"
    by (simp add: list_raw_def read_to_string_def dir_content_def empty_store_def empty_dir_def)
  ultimately show ?thesis using resolve_raw_faithful [OF r] r by auto
qed

end
