(* ===== verification/Egress_Catalog.thy ===== *)
theory Egress_Catalog
  imports Policy_Capability Fs_Model
begin

text \<open>
  The two-directory manifest loader of \<open>crates/egressd/src/catalog.rs\<close>: the bounded defensive read,
  the fail-closed scan of a directory, the merged and the sealed catalog, the refusals of an owner
  install, and the writers of the staging and owner directories.  A \<open>dir\<close> holds regular files only:
  what the defensive read rejects (symbolic links, pipes, devices) is absent from it.
\<close>

section \<open>Definitions\<close>

definition MAX_MANIFEST_BYTES :: nat where
  "MAX_MANIFEST_BYTES = 8 * 1024"

definition CAP_SUFFIX :: string where
  "CAP_SUFFIX = ''.capability''"

definition manifest_path :: "string \<Rightarrow> string" where
  "manifest_path name = name @ CAP_SUFFIX"

text \<open>A bounded read stops at the limit, whatever follows.\<close>

definition bounded_read :: "nat \<Rightarrow> dir \<Rightarrow> string \<Rightarrow> string option" where
  "bounded_read limit d leaf =
     Option.bind (dir_content d leaf) (\<lambda>b. if utf8_ok (take limit b) then Some (take limit b) else None)"

definition cap_defensive_read :: "dir \<Rightarrow> string \<Rightarrow> string option" where
  "cap_defensive_read d leaf = bounded_read MAX_MANIFEST_BYTES d leaf"

definition manifest_names :: "dir \<Rightarrow> string list" where
  "manifest_names d =
     sort (filter (\<lambda>n. str_ends_with n CAP_SUFFIX \<and> \<not> str_starts_with n ''.'') (map fst (d_files d)))"

definition read_manifest :: "dir \<Rightarrow> string \<Rightarrow> manifest option" where
  "read_manifest d n =
     (case cap_defensive_read d n of
        None \<Rightarrow> None
      | Some body \<Rightarrow> (case parse_manifest body of Inr m \<Rightarrow> Some m | Inl _ \<Rightarrow> None))"

definition read_manifest_dir :: "dir \<Rightarrow> manifest list" where
  "read_manifest_dir d = List.map_filter (read_manifest d) (manifest_names d)"

definition load_catalog_from :: "dir \<Rightarrow> dir \<Rightarrow> catalog" where
  "load_catalog_from sealed_dir owner_dir =
     build_catalog (read_manifest_dir sealed_dir) (read_manifest_dir owner_dir)"

definition load_sealed_catalog :: "dir \<Rightarrow> catalog" where
  "load_sealed_catalog sealed_dir = build_catalog (read_manifest_dir sealed_dir) []"

definition read_staged :: "dir \<Rightarrow> string \<Rightarrow> string option" where
  "read_staged staging name = cap_defensive_read staging (manifest_path name)"

definition clear_staged :: "dir \<Rightarrow> string \<Rightarrow> (io_error, dir) result" where
  "clear_staged staging name = remove_if_present staging (manifest_path name)"

definition host_reserved_by_system :: "string \<Rightarrow> catalog \<Rightarrow> bool" where
  "host_reserved_by_system host sealed \<longleftrightarrow>
     is_system_reserved_host host
     \<or> list_ex (\<lambda>e. list_ex (\<lambda>r. hr_host r = host) (m_rules (ce_manifest e))) (cat_entries sealed)"

definition validate_owner_install :: "manifest \<Rightarrow> catalog \<Rightarrow> (string, unit) result" where
  "validate_owner_install m sealed =
     (if catalog_get sealed (m_name m) \<noteq> None
      then Inl (quoted (m_name m) @ '' shadows a sealed capability (sealed always wins)'')
      else if m_deliver m = DeliverHosts
      then Inl (quoted ''deliver hosts''
                @ '' is a sealed-only affordance; an owner manifest must use '' @ quoted ''deliver none'')
      else case find (\<lambda>r. host_reserved_by_system (hr_host r) sealed) (m_rules m) of
        Some r \<Rightarrow> Inl (''host '' @ quoted (hr_host r) @ '' is reserved by sealed/system machinery'')
      | None \<Rightarrow> Inr ())"

definition write_owner_manifest :: "dir \<Rightarrow> string \<Rightarrow> string \<Rightarrow> (io_error, dir) result" where
  "write_owner_manifest owner name body = atomic_write owner (manifest_path name) body"

definition remove_owner_manifest :: "dir \<Rightarrow> string \<Rightarrow> (io_error, dir) result" where
  "remove_owner_manifest owner name = remove_if_present owner (manifest_path name)"

section \<open>Facts\<close>

lemma bounded_read_some: "bounded_read n d k = Some b \<Longrightarrow> length b \<le> n \<and> utf8_ok b"
  by (auto simp: bounded_read_def bind_eq_Some_conv split: if_splits)

lemma bounded_read_write:
  "atomic_write d leaf body = Inr d' \<Longrightarrow> utf8_ok body \<Longrightarrow> length body \<le> n \<Longrightarrow>
     bounded_read n d' leaf = Some body"
  by (simp add: bounded_read_def dir_content_write)

lemma read_manifest_wf: "read_manifest d n = Some m \<Longrightarrow> wf_manifest m"
  by (auto simp: read_manifest_def dest: parse_manifest_wf split: option.splits sum.splits)

lemma read_manifest_dir_wf: "m \<in> set (read_manifest_dir d) \<Longrightarrow> wf_manifest m"
  by (auto simp: read_manifest_dir_def List.map_filter_def dest: read_manifest_wf)

lemma build_catalog_manifest:
  "e \<in> set (cat_entries (build_catalog s ow)) \<Longrightarrow> ce_manifest e \<in> set s \<union> set ow"
  by (auto simp: cat_entries_build dest: firsts_names)

lemma build_catalog_sealed_source:
  "e \<in> set (cat_entries (build_catalog s ow)) \<Longrightarrow> ce_source e = Sealed \<Longrightarrow> ce_manifest e \<in> set s"
  by (auto simp: cat_entries_build dest: firsts_names)

lemma catalog_get_None:
  "catalog_get c n = None \<longleftrightarrow> n \<notin> ce_name ` set (cat_entries c)"
  by (auto simp: catalog_get_def row_find_def find_None_iff)

lemma sealed_catalog_names:
  "ce_name ` set (cat_entries (build_catalog s [])) = m_name ` set s"
proof -
  have "m_name ` set (firsts [] s) = m_name ` set s"
    by (simp add: firsts_cover)
  then show ?thesis
    by (simp add: cat_entries_build image_image)
qed

lemma validate_owner_install_Inr:
  "validate_owner_install m sealed = Inr u \<longleftrightarrow>
     catalog_get sealed (m_name m) = None \<and> m_deliver m = DeliverNone
     \<and> (\<forall>r \<in> set (m_rules m). \<not> host_reserved_by_system (hr_host r) sealed)"
  by (cases "m_deliver m")
    (auto simp: validate_owner_install_def find_None_iff find_Some_iff split: option.splits)

end
