(* ===== verification/Egress_Hosts.thy ===== *)
theory Egress_Hosts
  imports Egress_Raw Egress_Catalog
begin

text \<open>
  The composition of the hosts file in \<open>crates/egressd/src/hosts.rs\<close>: the provider bindings
  (\<open>token address\<close> lines in the root-owned directory), the migration of the legacy file, the lift of
  the blessed pins, and \<open>compose_hosts\<close>, which every reader of \<open>/etc/hosts\<close> sees.
\<close>

section \<open>Definitions\<close>

definition MAX_READ_BYTES :: nat where
  "MAX_READ_BYTES = 64 * 1024"

definition HOSTS_BASELINE :: string where
  "HOSTS_BASELINE = unlines [''127.0.0.1 localhost'', ''::1 localhost'']"

record binding =
  bd_token :: string
  bd_addr :: ipv4

definition token_for_host :: "string \<Rightarrow> string option" where
  "token_for_host h = map_option pb_token (row_find pb_host PROVIDER_BINDINGS h)"

definition hosts_defensive_read :: "dir \<Rightarrow> string \<Rightarrow> string option" where
  "hosts_defensive_read d leaf = bounded_read MAX_READ_BYTES d leaf"

definition binding_push :: "binding list \<Rightarrow> string \<Rightarrow> binding list" where
  "binding_push out line =
     (case str_split_ws line of
        [tok, a] \<Rightarrow>
          (if provider_host tok = None then out
           else case valid_bind_addr a of
             None \<Rightarrow> out
           | Some addr \<Rightarrow>
               if list_ex (\<lambda>b. bd_token b = tok) out then out
               else out @ [\<lparr>bd_token = tok, bd_addr = addr\<rparr>])
      | _ \<Rightarrow> out)"

definition read_bindings :: "dir \<Rightarrow> binding list" where
  "read_bindings home =
     (case hosts_defensive_read home ''hosts-bindings'' of
        None \<Rightarrow> []
      | Some body \<Rightarrow> foldl binding_push [] (str_lines body))"

definition binding_line :: "binding \<Rightarrow> string" where
  "binding_line b = bd_token b @ [sp] @ ipv4_show (bd_addr b)"

definition write_bindings_all :: "dir \<Rightarrow> binding list \<Rightarrow> (io_error, dir) result" where
  "write_bindings_all home bs =
     atomic_write home ''hosts-bindings'' (lines_body (remdups_adj (sort (map binding_line bs))))"

definition write_binding :: "dir \<Rightarrow> string \<Rightarrow> string \<Rightarrow> (io_error, dir \<times> ipv4) result" where
  "write_binding home token addr_str =
     (if provider_host token = None then Inl (InvalidInput ''not a sealed provider token'')
      else case valid_bind_addr addr_str of
        None \<Rightarrow> Inl (InvalidInput ''address must be an IPv4 literal'')
      | Some addr \<Rightarrow>
          rbind (write_bindings_all home
                   (filter (\<lambda>b. bd_token b \<noteq> token) (read_bindings home)
                    @ [\<lparr>bd_token = token, bd_addr = addr\<rparr>]))
            (\<lambda>home'. Inr (home', addr)))"

definition remove_binding :: "dir \<Rightarrow> string \<Rightarrow> (io_error, dir) result" where
  "remove_binding home token =
     (if provider_host token = None then Inl (InvalidInput ''not a sealed provider token'')
      else write_bindings_all home (filter (\<lambda>b. bd_token b \<noteq> token) (read_bindings home)))"

definition absorb_host :: "ipv4 \<Rightarrow> binding list \<Rightarrow> string \<Rightarrow> binding list" where
  "absorb_host addr out host =
     (case token_for_host host of
        None \<Rightarrow> out
      | Some token \<Rightarrow>
          if list_ex (\<lambda>b. bd_token b = token) out then out
          else out @ [\<lparr>bd_token = token, bd_addr = addr\<rparr>])"

definition extract_line :: "binding list \<Rightarrow> string \<Rightarrow> binding list" where
  "extract_line out raw =
     (let line = str_trim (case str_split (CHR ''#'') raw of a # _ \<Rightarrow> a | [] \<Rightarrow> []) in
      if line = [] then out
      else case str_split_ws line of
        [] \<Rightarrow> out
      | a # hosts \<Rightarrow>
          (case valid_bind_addr a of
             None \<Rightarrow> out
           | Some addr \<Rightarrow> foldl (absorb_host addr) out hosts))"

definition extract_model_bindings :: "string \<Rightarrow> binding list" where
  "extract_model_bindings body = foldl extract_line [] (str_lines body)"

definition absorb_binding :: "binding list \<Rightarrow> binding \<Rightarrow> binding list" where
  "absorb_binding out b =
     (if list_ex (\<lambda>x. bd_token x = bd_token b) out then out else out @ [b])"

text \<open>An error leaves what was written before it.\<close>

definition migrate_legacy :: "dir \<Rightarrow> dir \<times> (io_error, unit) result" where
  "migrate_legacy home =
     (let absorbed =
        (case hosts_defensive_read home ''hosts'' of
           None \<Rightarrow> Inr home
         | Some body \<Rightarrow>
             (let extracted = extract_model_bindings body in
              if extracted = [] then Inr home
              else write_bindings_all home (foldl absorb_binding (read_bindings home) extracted)))
      in case absorbed of
           Inl e \<Rightarrow> (home, Inl e)
         | Inr home1 \<Rightarrow>
             (case atomic_write home1 ''hosts'' HOSTS_BASELINE of
                Inl e \<Rightarrow> (home1, Inl e)
              | Inr home2 \<Rightarrow> (home2, Inr ())))"

definition egress_push :: "catalog \<Rightarrow> (string \<times> ipv4) list \<Rightarrow> string \<Rightarrow> (string \<times> ipv4) list" where
  "egress_push cat out line =
     (case str_split_ws line of
        [name, a] \<Rightarrow>
          (if \<not> is_sealed_deliverable_host cat name then out
           else case valid_bind_addr a of
             None \<Rightarrow> out
           | Some addr \<Rightarrow>
               if list_ex (\<lambda>(n, _). n = name) out then out else out @ [(name, addr)])
      | _ \<Rightarrow> out)"

text \<open>\<open>run\<close> is the egress run directory, \<open>{run}/egress\<close> of the hosts run directory.\<close>

definition read_egress_pins :: "dir \<Rightarrow> catalog \<Rightarrow> (string \<times> ipv4) list" where
  "read_egress_pins run cat =
     (case hosts_defensive_read run ''pinned'' of
        None \<Rightarrow> []
      | Some body \<Rightarrow> foldl (egress_push cat) [] (str_lines body))"

definition provider_lines :: "binding list \<Rightarrow> string list" where
  "provider_lines bs =
     List.map_filter (\<lambda>b. map_option (\<lambda>h. ipv4_show (bd_addr b) @ [sp] @ h) (provider_host (bd_token b))) bs"

definition hosts_body :: "binding list \<Rightarrow> (string \<times> ipv4) list \<Rightarrow> string" where
  "hosts_body bs pins =
     HOSTS_BASELINE @ unlines (provider_lines bs)
     @ unlines (map (\<lambda>(name, addr). ipv4_show addr @ [sp] @ name) (sort pins))"

text \<open>The result: the hosts directory after the migration, and the projection's directory.\<close>

definition compose_hosts :: "dir \<Rightarrow> dir \<Rightarrow> dir \<Rightarrow> catalog \<Rightarrow> dir \<times> (io_error, dir) result" where
  "compose_hosts home hosts_run run cat =
     (case migrate_legacy home of
        (home', _) \<Rightarrow>
          (home', atomic_write hosts_run ''hosts''
                    (hosts_body (read_bindings home') (read_egress_pins run cat))))"

section \<open>Facts: bindings\<close>

definition wf_bindings :: "binding list \<Rightarrow> bool" where
  "wf_bindings bs \<longleftrightarrow> distinct (map bd_token bs) \<and> (\<forall>b \<in> set bs. provider_host (bd_token b) \<noteq> None)"

lemma binding_push_wf: "wf_bindings out \<Longrightarrow> wf_bindings (binding_push out l)"
  by (auto simp: wf_bindings_def binding_push_def list_ex_iff split: list.splits option.splits)

lemma foldl_inv: "P x \<Longrightarrow> (\<And>x l. P x \<Longrightarrow> P (f x l)) \<Longrightarrow> P (foldl f x ls)"
  by (induction ls arbitrary: x) simp_all

lemma read_bindings_wf: "wf_bindings (read_bindings home)"
proof (cases "hosts_defensive_read home ''hosts-bindings''")
  case (Some body)
  have "wf_bindings (foldl binding_push [] (str_lines body))"
    by (rule foldl_inv) (simp_all only: binding_push_wf, simp add: wf_bindings_def)
  with Some show ?thesis
    by (simp add: read_bindings_def)
qed (simp add: read_bindings_def wf_bindings_def)

lemma provider_tokens:
  "provider_host t = Some h \<Longrightarrow> text_line t \<and> text_line h \<and> t \<noteq> [] \<and> h \<noteq> []
     \<and> (\<forall>c \<in> set t. is_graphic c) \<and> (\<forall>c \<in> set h. is_graphic c) \<and> length t \<le> 9"
proof -
  have "\<forall>b \<in> set PROVIDER_BINDINGS. text_line (pb_token b) \<and> text_line (pb_host b)
      \<and> pb_token b \<noteq> [] \<and> pb_host b \<noteq> [] \<and> (\<forall>c \<in> set (pb_token b). is_graphic c)
      \<and> (\<forall>c \<in> set (pb_host b). is_graphic c) \<and> length (pb_token b) \<le> 9"
    by (simp add: PROVIDER_BINDINGS_def mk_binding_def is_graphic_def)
  then show "provider_host t = Some h \<Longrightarrow> ?thesis"
    by (auto simp: provider_host_Some)
qed

lemma wf_bindings_length: "wf_bindings bs \<Longrightarrow> length bs \<le> 4"
proof -
  assume wf: "wf_bindings bs"
  then have "set (map bd_token bs) \<subseteq> pb_token ` set PROVIDER_BINDINGS"
    by (auto simp: wf_bindings_def provider_host_Some image_iff) metis
  then have "card (set (map bd_token bs)) \<le> card (pb_token ` set PROVIDER_BINDINGS)"
    by (intro card_mono) simp_all
  also have "\<dots> \<le> 4"
    by (rule order.trans [OF card_image_le]) (simp_all add: PROVIDER_BINDINGS_def card_insert_if)
  finally show ?thesis
    using wf distinct_card [of "map bd_token bs"] by (simp add: wf_bindings_def)
qed

lemma binding_push_line:
  "provider_host (bd_token b) \<noteq> None \<Longrightarrow>
     binding_push out (binding_line b) =
       (if \<exists>x \<in> set out. bd_token x = bd_token b then out else out @ [b])"
proof -
  assume "provider_host (bd_token b) \<noteq> None"
  then obtain h where h: "provider_host (bd_token b) = Some h" by blast
  have "str_split_ws (binding_line b) = [bd_token b, ipv4_show (bd_addr b)]"
    using provider_tokens [OF h] by (simp add: binding_line_def)
  then show ?thesis
    using h by (simp add: binding_push_def list_ex_iff)
qed

lemma foldl_binding_lines:
  "wf_bindings (out @ bs) \<Longrightarrow> foldl binding_push out (map binding_line bs) = out @ bs"
proof (induction bs arbitrary: out)
  case (Cons b bs)
  then have "\<not> (\<exists>x \<in> set out. bd_token x = bd_token b)" "provider_host (bd_token b) \<noteq> None"
    by (auto simp: wf_bindings_def) (metis imageI)
  then have "binding_push out (binding_line b) = out @ [b]"
    by (simp add: binding_push_line)
  then show ?case
    using Cons.IH [of "out @ [b]"] Cons.prems by simp
qed simp

lemma length_unlines: "\<forall>l \<in> set ls. length l \<le> k \<Longrightarrow> length (unlines ls) \<le> length ls * (k + 1)"
  by (induction ls) fastforce+

lemma binding_line_text: "provider_host (bd_token b) \<noteq> None \<Longrightarrow> text_line (binding_line b)"
  using provider_tokens by (auto simp: binding_line_def)

lemma binding_line_inject:
  "provider_host (bd_token a) \<noteq> None \<Longrightarrow> provider_host (bd_token b) \<noteq> None \<Longrightarrow>
     binding_line a = binding_line b \<Longrightarrow> a = b"
proof -
  assume p: "provider_host (bd_token a) \<noteq> None" "provider_host (bd_token b) \<noteq> None"
    and eq: "binding_line a = binding_line b"
  have "binding_push [] (binding_line a) = [a]" "binding_push [] (binding_line b) = [b]"
    unfolding binding_push_line [OF p(1)] binding_push_line [OF p(2)] by simp_all
  with eq show "a = b" by (metis list.inject)
qed

lemma write_bindings_all_read:
  assumes "write_bindings_all home bs = Inr home'" "wf_bindings bs"
  shows "set (read_bindings home') = set bs \<and> sorted (map binding_line (read_bindings home'))"
proof -
  let ?cs = "sort_key binding_line bs"
  have inj: "inj_on binding_line (set bs)"
    using assms(2) binding_line_inject unfolding inj_on_def wf_bindings_def by blast
  have "sort (map binding_line bs) = map binding_line ?cs"
    by (rule properties_for_sort) simp_all
  moreover have "distinct bs"
    using assms(2) by (simp add: wf_bindings_def distinct_map)
  then have "distinct (sort (map binding_line bs))"
    using inj by (simp add: distinct_map)
  ultimately have lines: "remdups_adj (sort (map binding_line bs)) = map binding_line ?cs"
    by (simp add: remdups_adj_distinct)
  have wf: "wf_bindings ?cs"
    using assms(2) by (simp add: wf_bindings_def distinct_map)
  have lt: "\<forall>l \<in> set (map binding_line ?cs). text_line l"
    using assms(2) binding_line_text by (auto simp: wf_bindings_def)
  have len: "length (unlines (map binding_line ?cs)) \<le> MAX_READ_BYTES"
  proof -
    have "\<forall>l \<in> set (map binding_line ?cs). length l \<le> 25"
    proof
      fix l assume "l \<in> set (map binding_line ?cs)"
      then obtain b h where "l = binding_line b" "provider_host (bd_token b) = Some h"
        using assms(2) by (auto simp: wf_bindings_def)
      then show "length l \<le> 25"
        using provider_tokens [of "bd_token b" h] ipv4_show_length [of "bd_addr b"]
        by (simp add: binding_line_def)
    qed
    from length_unlines [OF this] show ?thesis
      using wf_bindings_length [OF wf] by (simp add: MAX_READ_BYTES_def)
  qed
  have "hosts_defensive_read home' ''hosts-bindings'' = Some (unlines (map binding_line ?cs))"
    unfolding hosts_defensive_read_def
    by (rule bounded_read_write [OF assms(1) [unfolded write_bindings_all_def lines lines_body_unlines]])
      (use lt len in simp_all)
  then have "read_bindings home' = ?cs"
    using foldl_binding_lines [of "[]" ?cs] wf lt by (simp add: read_bindings_def)
  then show ?thesis by simp
qed

lemma write_binding_read:
  assumes "write_binding home tok a = Inr (home', addr)"
  shows "a = ipv4_show addr \<and> provider_host tok \<noteq> None
     \<and> set (read_bindings home')
         = insert \<lparr>bd_token = tok, bd_addr = addr\<rparr> {b \<in> set (read_bindings home). bd_token b \<noteq> tok}"
proof -
  let ?bs = "filter (\<lambda>b. bd_token b \<noteq> tok) (read_bindings home) @ [\<lparr>bd_token = tok, bd_addr = addr\<rparr>]"
  from assms have p: "provider_host tok \<noteq> None" "valid_bind_addr a = Some addr"
      "write_bindings_all home ?bs = Inr home'"
    by (auto simp: write_binding_def res_simps split: if_splits option.splits)
  have "wf_bindings ?bs"
    using read_bindings_wf [of home] p(1) by (auto simp: wf_bindings_def distinct_map_filter)
  then have "set (read_bindings home') = set ?bs"
    using write_bindings_all_read [OF p(3)] by blast
  then show ?thesis
    using p by (auto simp: valid_bind_addr_iff)
qed

lemma remove_binding_read:
  assumes "remove_binding home tok = Inr home'"
  shows "set (read_bindings home') = {b \<in> set (read_bindings home). bd_token b \<noteq> tok}"
proof -
  let ?bs = "filter (\<lambda>b. bd_token b \<noteq> tok) (read_bindings home)"
  from assms have p: "write_bindings_all home ?bs = Inr home'"
    by (auto simp: remove_binding_def split: if_splits)
  have "wf_bindings ?bs"
    using read_bindings_wf [of home] by (auto simp: wf_bindings_def distinct_map_filter)
  then show ?thesis
    using write_bindings_all_read [OF p] by auto
qed

section \<open>Facts: migration\<close>

lemma absorb_binding_wf:
  "wf_bindings out \<Longrightarrow> provider_host (bd_token b) \<noteq> None \<Longrightarrow>
     wf_bindings (absorb_binding out b) \<and> set out \<subseteq> set (absorb_binding out b)"
  by (auto simp: wf_bindings_def absorb_binding_def list_ex_iff)

lemma foldl_absorb:
  "wf_bindings out \<Longrightarrow> \<forall>b \<in> set bs. provider_host (bd_token b) \<noteq> None \<Longrightarrow>
     wf_bindings (foldl absorb_binding out bs) \<and> set out \<subseteq> set (foldl absorb_binding out bs)"
proof (induction bs arbitrary: out)
  case (Cons b bs)
  have step: "wf_bindings (absorb_binding out b) \<and> set out \<subseteq> set (absorb_binding out b)"
    using Cons.prems by (intro absorb_binding_wf) simp_all
  then have "wf_bindings (foldl absorb_binding (absorb_binding out b) bs)
      \<and> set (absorb_binding out b) \<subseteq> set (foldl absorb_binding (absorb_binding out b) bs)"
    using Cons.prems by (intro Cons.IH) simp_all
  with step show ?case
    unfolding foldl.simps by blast
qed simp

lemma token_for_host_provider: "token_for_host h = Some t \<Longrightarrow> provider_host t = Some h"
  by (auto simp: token_for_host_def provider_by_host.find_iff provider_host_Some)

lemma absorb_host_wf: "wf_bindings out \<Longrightarrow> wf_bindings (absorb_host a out h)"
  by (auto simp: wf_bindings_def absorb_host_def list_ex_iff dest: token_for_host_provider split: option.splits)

lemma extract_line_wf: "wf_bindings out \<Longrightarrow> wf_bindings (extract_line out l)"
  by (auto simp: extract_line_def Let_def intro!: foldl_inv absorb_host_wf split: list.split option.split)

lemma extract_wf: "wf_bindings (extract_model_bindings body)"
  unfolding extract_model_bindings_def
  by (rule foldl_inv) (simp_all only: extract_line_wf, simp add: wf_bindings_def)

lemma read_bindings_frame:
  "atomic_write home leaf b = Inr home' \<Longrightarrow> leaf \<noteq> ''hosts-bindings'' \<Longrightarrow>
     read_bindings home' = read_bindings home"
  by (simp add: read_bindings_def hosts_defensive_read_def bounded_read_def dir_content_write)

lemma migrate_keeps: "migrate_legacy home = (home', r) \<Longrightarrow> set (read_bindings home) \<subseteq> set (read_bindings home')"
proof -
  assume m: "migrate_legacy home = (home', r)"
  have absorb: "set (read_bindings home) \<subseteq> set (read_bindings home1)"
    if "write_bindings_all home (foldl absorb_binding (read_bindings home) (extract_model_bindings body)) = Inr home1"
    for body home1
  proof -
    have "wf_bindings (foldl absorb_binding (read_bindings home) (extract_model_bindings body))
        \<and> set (read_bindings home) \<subseteq> set (foldl absorb_binding (read_bindings home) (extract_model_bindings body))"
      using extract_wf [of body] by (intro foldl_absorb read_bindings_wf) (simp add: wf_bindings_def)
    then show ?thesis
      using write_bindings_all_read [OF that] by blast
  qed
  have keep: "read_bindings home2 = read_bindings home1"
    if "atomic_write home1 ''hosts'' HOSTS_BASELINE = Inr home2" for home1 home2
    by (rule read_bindings_frame [OF that]) simp
  show ?thesis
    using m absorb keep
    by (auto simp: migrate_legacy_def Let_def split: option.splits sum.splits if_splits)
qed

section \<open>Facts: the composed file\<close>

definition wf_catalog :: "catalog \<Rightarrow> bool" where
  "wf_catalog c \<longleftrightarrow> (\<forall>e \<in> set (cat_entries c). wf_manifest (ce_manifest e))"

lemma load_catalog_wf: "wf_catalog (load_catalog_from sd od)"
  unfolding wf_catalog_def load_catalog_from_def
  by (blast dest: build_catalog_manifest intro: read_manifest_dir_wf)

lemma deliverable_graphic:
  "wf_catalog c \<Longrightarrow> is_sealed_deliverable_host c h \<Longrightarrow> h \<noteq> [] \<and> (\<forall>x \<in> set h. is_graphic x)"
proof -
  assume c: "wf_catalog c" "is_sealed_deliverable_host c h"
  then have v: "valid_raw_host h"
    by (auto simp: wf_catalog_def wf_manifest_def wf_rule_def list_all_iff dest!: is_sealed_deliverable_elim)
  then have "h \<noteq> []" by (auto simp: valid_raw_host_def)
  with v show ?thesis using valid_raw_host_graphic by blast
qed

lemma egress_push_deliverable:
  "(\<forall>p \<in> set out. is_sealed_deliverable_host cat (fst p)) \<and> distinct (map fst out) \<Longrightarrow>
   (\<forall>p \<in> set (egress_push cat out l). is_sealed_deliverable_host cat (fst p))
     \<and> distinct (map fst (egress_push cat out l))"
  by (auto simp: egress_push_def list_ex_iff split: list.splits option.splits if_splits)

lemma read_egress_pins_deliverable:
  "(\<forall>p \<in> set (read_egress_pins run cat). is_sealed_deliverable_host cat (fst p))
     \<and> distinct (map fst (read_egress_pins run cat))"
proof (cases "hosts_defensive_read run ''pinned''")
  case (Some body)
  have "(\<forall>p \<in> set (foldl (egress_push cat) [] (str_lines body)). is_sealed_deliverable_host cat (fst p))
      \<and> distinct (map fst (foldl (egress_push cat) [] (str_lines body)))"
    by (rule foldl_inv, simp, rule egress_push_deliverable)
  with Some show ?thesis by (simp add: read_egress_pins_def)
qed (simp add: read_egress_pins_def)

definition pin_host_lines :: "(string \<times> ipv4) list \<Rightarrow> string list" where
  "pin_host_lines pins = map (\<lambda>p. ipv4_show (snd p) @ [sp] @ fst p) (sort pins)"

lemma hosts_body_lines:
  assumes "\<forall>p \<in> set pins. \<forall>x \<in> set (fst p). is_graphic x"
  shows "str_lines (hosts_body bs pins)
     = [''127.0.0.1 localhost'', ''::1 localhost''] @ provider_lines bs @ pin_host_lines pins"
proof -
  have "\<forall>l \<in> set (provider_lines bs). text_line l"
    using provider_tokens by (auto simp: provider_lines_def List.map_filter_def)
  moreover have "\<forall>l \<in> set (pin_host_lines pins). text_line l"
    using assms by (auto simp: pin_host_lines_def text_line_graphic)
  ultimately have lt: "\<forall>l \<in> set ([''127.0.0.1 localhost'', ''::1 localhost''] @ provider_lines bs @ pin_host_lines pins).
      text_line l"
    by (auto simp: is_graphic_def)
  have "hosts_body bs pins
      = unlines ([''127.0.0.1 localhost'', ''::1 localhost''] @ provider_lines bs @ pin_host_lines pins)"
    by (simp add: hosts_body_def HOSTS_BASELINE_def pin_host_lines_def case_prod_beta')
  then show ?thesis
    using lines_text(1) [OF lt] by simp
qed

text \<open>
  How the \<open>files\<close> service reads the composed file: the first line that lists the name gives the
  address.
\<close>

definition line_names :: "string \<Rightarrow> string list" where
  "line_names l = tl (str_split_ws l)"

definition nss_lookup :: "string \<Rightarrow> string \<Rightarrow> string option" where
  "nss_lookup body name =
     map_option (\<lambda>l. hd (str_split_ws l)) (find (\<lambda>l. name \<in> set (line_names l)) (str_lines body))"

lemma split_host_line:
  "h \<noteq> [] \<Longrightarrow> (\<forall>x \<in> set h. is_graphic x) \<Longrightarrow> str_split_ws (ipv4_show a @ [sp] @ h) = [ipv4_show a, h]"
  by simp

lemma baseline_split: "str_split_ws ''127.0.0.1 localhost'' = [''127.0.0.1'', ''localhost'']"
    "str_split_ws ''::1 localhost'' = [''::1'', ''localhost'']"
  using str_split_ws_cons [of "''127.0.0.1''" "''localhost''"] str_split_ws_cons [of "''::1''" "''localhost''"]
  by (simp_all add: is_graphic_def)

lemma hosts_body_names:
  assumes "wf_catalog cat" "l \<in> set (str_lines (hosts_body bs (read_egress_pins run cat)))" "h \<in> set (line_names l)"
  shows "h = ''localhost'' \<or> (\<exists>b \<in> set bs. provider_host (bd_token b) = Some h)
     \<or> is_sealed_deliverable_host cat h"
proof -
  note pins = read_egress_pins_deliverable [of run cat]
  have g: "\<forall>p \<in> set (read_egress_pins run cat). fst p \<noteq> [] \<and> (\<forall>x \<in> set (fst p). is_graphic x)"
    using pins deliverable_graphic [OF assms(1)] by blast
  then have "l \<in> set ([''127.0.0.1 localhost'', ''::1 localhost''] @ provider_lines bs
      @ pin_host_lines (read_egress_pins run cat))"
    using assms(2) by (subst (asm) hosts_body_lines) auto
  then consider "l = ''127.0.0.1 localhost''" | "l = ''::1 localhost''"
    | b x where "b \<in> set bs" "provider_host (bd_token b) = Some x" "l = ipv4_show (bd_addr b) @ [sp] @ x"
    | p where "p \<in> set (read_egress_pins run cat)" "l = ipv4_show (snd p) @ [sp] @ fst p"
    by (auto simp: provider_lines_def List.map_filter_def pin_host_lines_def)
  then show ?thesis
  proof cases
    case 3
    then show ?thesis
      using assms(3) provider_tokens [OF 3(2)] by (auto simp: line_names_def)
  next
    case 4
    then show ?thesis
      using assms(3) g pins by (auto simp: line_names_def)
  qed (use assms(3) baseline_split in \<open>auto simp: line_names_def\<close>)
qed

section \<open>Properties\<close>

lemma egress_push_cong:
  assumes "is_sealed_deliverable_host c = is_sealed_deliverable_host c'"
  shows "read_egress_pins run c = read_egress_pins run c'"
proof -
  have "egress_push c = egress_push c'"
    unfolding egress_push_def [abs_def] assms by (rule refl)
  then show ?thesis unfolding read_egress_pins_def by (rule arg_cong)
qed

text \<open>
  no owner manifest can influence name resolution: the hosts file composed with any owner
  directory is the one composed with any other, empty included.
\<close>

theorem owner_manifests_do_not_resolve:
  "compose_hosts home hosts_run run (load_catalog_from sealed owner)
     = compose_hosts home hosts_run run (load_catalog_from sealed owner')"
proof -
  have "is_sealed_deliverable_host (load_catalog_from sealed x)
      = is_sealed_deliverable_host (build_catalog (read_manifest_dir sealed) [])" for x
    using is_sealed_deliverable_owner by (intro ext) (simp add: load_catalog_from_def)
  then have "read_egress_pins run (load_catalog_from sealed owner)
      = read_egress_pins run (load_catalog_from sealed owner')"
    by (intro egress_push_cong) simp
  then show ?thesis by (simp add: compose_hosts_def)
qed



text \<open>
  binding a provider replaces exactly its own binding, unbinding removes exactly it, and the
  address stored is the canonical one.
\<close>

theorem bind_replaces_one:
  assumes "write_binding home tok a = Inr (home', addr)" "remove_binding home' tok = Inr home''"
  shows "set (read_bindings home') = insert \<lparr>bd_token = tok, bd_addr = addr\<rparr> {b \<in> set (read_bindings home). bd_token b \<noteq> tok}
    \<and> set (read_bindings home'') = {b \<in> set (read_bindings home). bd_token b \<noteq> tok}
    \<and> a = ipv4_show addr \<and> provider_host tok \<noteq> None"
  using write_binding_read [OF assms(1)] remove_binding_read [OF assms(2)] by auto

lemma claude_provider: "provider_host ''claude'' \<noteq> None"
  by code_simp

theorem bind_replaces_one_witness:
  "\<exists>home. set (read_bindings home) = {\<lparr>bd_token = ''claude'', bd_addr = Ipv4 10 0 0 2\<rparr>}"
proof -
  have no: "read_bindings empty_dir = []"
    by (simp add: read_bindings_def hosts_defensive_read_def bounded_read_def dir_content_def empty_dir_def)
  have w: "d_refuse d = (\<lambda>_. False) \<Longrightarrow> \<exists>d'. write_bindings_all d bs = Inr d' \<and> d_refuse d' = (\<lambda>_. False)" for d bs
    unfolding write_bindings_all_def Let_def atomic_write_def by (simp only: if_False) simp
  obtain h where "write_bindings_all empty_dir [\<lparr>bd_token = ''claude'', bd_addr = Ipv4 10 0 0 2\<rparr>] = Inr h"
      and refuse: "d_refuse h = (\<lambda>_. False)"
    using w [of empty_dir] by (auto simp: empty_dir_def)
  then have h: "write_binding empty_dir ''claude'' (ipv4_show (Ipv4 10 0 0 2)) = Inr (h, Ipv4 10 0 0 2)"
    unfolding write_binding_def valid_bind_addr_show no using claude_provider by simp
  obtain h' where "remove_binding h ''claude'' = Inr h'"
    using w [OF refuse] claude_provider by (auto simp: remove_binding_def)
  from bind_replaces_one [OF h this] show ?thesis by (auto simp: no)
qed

end
