(* ===== verification/Egress_Supervisor.thy ===== *)
theory Egress_Supervisor
  imports Egress_Protocol Egress_Confirmed Egress_Hosts
begin

text \<open>
  The handlers of the supervisor, \<open>crates/egressd/src/supervisor.rs\<close>, with the profile resolver of
  \<open>crates/egressd/src/dot.rs\<close>.

  The \<open>world\<close> is everything a handler reads or writes: the store, the directories of manifests, of
  the hosts composition and of the projections, the state of the kernel (of any type), and the
  limiter.  The \<open>env\<close> is what a call is given: the \<open>nft\<close> executor, the answers of the resolvers (the
  \<open>i\<close>-th lookup of the call), and whether a user's browser slice exists.  A handler returns the new
  world and its answer, or \<open>None\<close> when it panics, which ends the daemon (\<open>panic = abort\<close>).  The
  journal on standard error is not modelled.  The store lock serialises whole handlers, so one
  handler is one step; taking it is best effort and its failure changes nothing else.
\<close>

section \<open>State\<close>

record 'k world =
  w_store :: store
  w_run :: dir
  w_sealed :: dir
  w_owner :: dir
  w_staging :: dir
  w_home :: dir
  w_hosts_run :: dir
  w_hosts_lockable :: bool
  w_kernel :: 'k
  w_limiter :: rate_limiter
  w_desktop_uid :: u32

record 'k env =
  e_nft :: "'k nft"
  e_resolve :: "nat \<Rightarrow> string \<Rightarrow> (string, pin list \<times> string) result"
  e_dot :: raw_resolver
  e_slice :: "u32 \<Rightarrow> bool"

definition w_catalog :: "'k world \<Rightarrow> catalog" where
  "w_catalog w = load_catalog_from (w_sealed w) (w_owner w)"

definition w_sealed_catalog :: "'k world \<Rightarrow> catalog" where
  "w_sealed_catalog w = load_sealed_catalog (w_sealed w)"

definition with_store :: "(store \<Rightarrow> (io_error, store) result) \<Rightarrow> 'k world \<Rightarrow> 'k world" where
  "with_store f w = w\<lparr>w_store := ignoring (w_store w) (f (w_store w))\<rparr>"

section \<open>Resolving a profile\<close>

text \<open>The loop of \<open>resolve_profile_pins_logged\<close>: any host that does not resolve fails the profile.\<close>

fun resolve_hosts :: "(nat \<Rightarrow> string \<Rightarrow> (string, ipv4 list \<times> ipv4) result) \<Rightarrow> nat \<Rightarrow> egress_rule list
    \<Rightarrow> pin list \<Rightarrow> ipv4 option \<Rightarrow> (string, pin list \<times> ipv4 option) result" where
  "resolve_hosts dot i [] pins used = Inr (pins, used)"
| "resolve_hosts dot i (r # rs) pins used =
     rbind (dot i (rule_host r)) (\<lambda>(addrs, resolver).
       resolve_hosts dot (i + 1) rs
         (pins @ map (\<lambda>a. \<lparr>pin_name = rule_host r, pin_addr = a\<rparr>) addrs)
         (case used of None \<Rightarrow> Some resolver | Some u \<Rightarrow> Some u))"

definition resolve_profile_pins_logged ::
    "(nat \<Rightarrow> string \<Rightarrow> (string, ipv4 list \<times> ipv4) result) \<Rightarrow> string
     \<Rightarrow> (string, pin list \<times> ipv4 option) result" where
  "resolve_profile_pins_logged dot profile =
     (case resolve_desktop profile of
        None \<Rightarrow> Inl profile
      | Some prof \<Rightarrow>
          if is_broad_profile profile \<or> is_prepinned_profile profile \<or> prof_is_empty prof
          then Inl (profile @ '' is not DoT-resolvable'')
          else resolve_hosts dot 0 (prof_rules prof) [] None)"

definition dot_resolve ::
    "(nat \<Rightarrow> string \<Rightarrow> (string, ipv4 list \<times> ipv4) result) \<Rightarrow> string
     \<Rightarrow> (string, pin list \<times> string) result" where
  "dot_resolve dot profile =
     rbind (resolve_profile_pins_logged dot profile) (\<lambda>(pins, resolver).
       Inr (pins, case resolver of Some r \<Rightarrow> ipv4_show r | None \<Rightarrow> ''-''))"

section \<open>Texts\<close>

definition hex_char :: "nat \<Rightarrow> char" where
  "hex_char n = (if n < 10 then digit_char n else char_of (87 + n))"

text \<open>
  \<open>{:?}\<close> of a string, byte-wise: exact for ASCII; printable characters beyond it are copied, as
  Rust does.
\<close>

definition debug_byte :: "char \<Rightarrow> string" where
  "debug_byte c =
     (if c = CHR 0x22 then [CHR 0x5C, CHR 0x22]
      else if c = CHR 0x5C then [CHR 0x5C, CHR 0x5C]
      else if c = nl then [CHR 0x5C, CHR ''n'']
      else if c = cr then [CHR 0x5C, CHR ''r'']
      else if c = tab then [CHR 0x5C, CHR ''t'']
      else if c = CHR 0x00 then [CHR 0x5C, CHR ''0'']
      else if is_control c
      then (let n = of_char c :: nat in
            [CHR 0x5C] @ ''u{'' @ (if 16 \<le> n then [hex_char (n div 16)] else []) @ [hex_char (n mod 16)] @ ''}'')
      else [c])"

definition debug_nft :: "string \<Rightarrow> string" where
  "debug_nft e = ''Nft('' @ [CHR 0x22] @ concat (map debug_byte e) @ [CHR 0x22] @ '')''"

fun io_error_str :: "io_error \<Rightarrow> string" where
  "io_error_str (InvalidInput s) = s"
| "io_error_str OsError = ''os error''"

section \<open>Events and projections\<close>

definition EVENT_KEEP :: nat where "EVENT_KEEP = 50"

definition append_event :: "dir \<Rightarrow> u64 \<Rightarrow> string \<Rightarrow> string \<Rightarrow> string \<Rightarrow> (io_error, dir) result" where
  "append_event run at verb profile result =
     (let lines = (case read_to_string run ''events'' of None \<Rightarrow> [] | Some s \<Rightarrow> str_lines s)
                  @ [show_uint at @ [sp] @ verb @ [sp] @ profile @ [sp] @ ctl_to_space result];
          start = length lines - EVENT_KEEP
      in atomic_write run ''events'' (str_join [nl] (drop start lines) @ [nl]))"

definition note_event :: "u64 \<Rightarrow> string \<Rightarrow> string \<Rightarrow> string \<Rightarrow> 'k world \<Rightarrow> 'k world" where
  "note_event at verb profile result w =
     w\<lparr>w_run := ignoring (w_run w) (append_event (w_run w) at verb profile result)\<rparr>"

definition recompose :: "catalog \<Rightarrow> 'k world \<Rightarrow> 'k world" where
  "recompose cat w =
     (case compose_hosts (w_home w) (w_hosts_run w) (w_run w) cat of
        (home, r) \<Rightarrow> w\<lparr>w_home := home, w_hosts_run := ignoring (w_hosts_run w) r\<rparr>)"

definition project :: "catalog \<Rightarrow> 'k world \<Rightarrow> 'k world" where
  "project cat w =
     (let run1 = ignoring (w_run w) (project_pinned (w_store w) (w_run w));
          run2 = ignoring run1 (project_state (w_store w) run1 cat)
      in w\<lparr>w_run := run2\<rparr>)"

definition reproject :: "'k world \<Rightarrow> 'k world" where
  "reproject w =
     (let cat = w_catalog w; w1 = project cat w
      in if w_hosts_lockable w then recompose cat w1 else w1)"

text \<open>\<open>let _ = write_fault(..)\<close>: an I/O error is dropped, a panic is not.\<close>

definition park :: "string \<Rightarrow> fault_kind \<Rightarrow> string \<Rightarrow> u64 \<Rightarrow> 'k world \<Rightarrow> 'k world option" where
  "park name kind reason at w =
     map_option (\<lambda>r. w\<lparr>w_store := ignoring (w_store w) r\<rparr>)
       (write_fault (w_store w) name kind reason at)"

section \<open>The one-click handlers\<close>

definition sup_bless :: "'k env \<Rightarrow> string \<Rightarrow> u64 \<Rightarrow> bool \<Rightarrow> 'k world \<Rightarrow> ('k world \<times> string) option" where
  "sup_bless env profile at repin w =
     (let verb = (if repin then ''repin'' else ''bless'');
          w1 = with_store (\<lambda>s. write_bless s
                 \<lparr>br_profile = profile, br_tier = ''one-click'', br_blessed = at\<rparr>) w in
      case e_resolve env 0 profile of
        Inl e \<Rightarrow> do {
          w2 \<leftarrow> park profile ResolveFail e at w1;
          Some (note_event at verb profile ''resolve-failed'' (reproject w2), ''ERR resolve-failed'')
        }
      | Inr (pins, _) \<Rightarrow>
          (case write_pin (w_store w1) \<lparr>pr_profile = profile, pr_pins = pins, pr_resolved = at\<rparr> of
             Inl e \<Rightarrow> do {
               w2 \<leftarrow> park profile ResolveFail (''store: '' @ io_error_str e) at w1;
               Some (reproject w2, ''ERR store'')
             }
           | Inr s \<Rightarrow>
               (let w2 = w1\<lparr>w_store := s\<rparr> in
                case reconcile_cap (e_nft env) s (w_kernel w2) of
                  (Inr _, k) \<Rightarrow>
                    (let w3 = reproject (with_store (\<lambda>s. clear_fault s profile) (w2\<lparr>w_kernel := k\<rparr>));
                         detail = show_nat (length pins) @ '' ip(s)''
                     in Some (note_event at verb profile detail w3,
                              ''OK '' @ verb @ [sp] @ profile @ [sp] @ show_nat (length pins)))
                | (Inl e, k) \<Rightarrow> do {
                    w3 \<leftarrow> park profile ApplyFail (debug_nft e) at (w2\<lparr>w_kernel := k\<rparr>);
                    Some (note_event at verb profile ''apply-failed'' (reproject w3), ''ERR apply-failed'')
                  })))"

definition sup_unbless :: "'k env \<Rightarrow> string \<Rightarrow> u64 \<Rightarrow> 'k world \<Rightarrow> ('k world \<times> string) option" where
  "sup_unbless env profile at w =
     (case apply_cap (e_nft env) (desired_cap_union (w_store w) (Some profile)) (w_kernel w) of
        (Inr _, k) \<Rightarrow>
          (let w1 = with_store (\<lambda>s. remove_bless s profile) (w\<lparr>w_kernel := k\<rparr>);
               w2 = with_store (\<lambda>s. remove_pin s profile) w1;
               w3 = with_store (\<lambda>s. clear_fault s profile) w2
           in Some (note_event at ''unbless'' profile ''revoked'' (reproject w3), ''OK unbless '' @ profile))
      | (Inl e, k) \<Rightarrow> do {
          w1 \<leftarrow> park profile ApplyFail (debug_nft e) at (w\<lparr>w_kernel := k\<rparr>);
          Some (reproject w1, ''ERR apply-failed'')
        })"

definition browser_up :: "'k env \<Rightarrow> u64 \<Rightarrow> 'k world \<Rightarrow> ('k world \<times> string) option" where
  "browser_up env at w =
     (if load_bless (w_store w) ''web-browsing'' = None then Some (w, ''OK browser-up not-blessed'')
      else case reconcile_web_browsing (e_nft env) (e_slice env) (w_store w) (w_desktop_uid w) (w_kernel w) of
        (Inr True, k) \<Rightarrow>
          (let w1 = w\<lparr>w_kernel := k\<rparr>;
               w2 = w1\<lparr>w_run := ignoring (w_run w1) (project_state (w_store w1) (w_run w1) (w_catalog w1))\<rparr>
           in Some (note_event at ''browser-up'' ''web-browsing'' ''live'' w2, ''OK browser-up live''))
      | (Inr False, k) \<Rightarrow> Some (w\<lparr>w_kernel := k\<rparr>, ''OK browser-up pending'')
      | (Inl e, k) \<Rightarrow> Some (w\<lparr>w_kernel := k\<rparr>, ''ERR apply-failed''))"

section \<open>The hosts handlers and the inbox\<close>

definition do_bind :: "string \<Rightarrow> string \<Rightarrow> u64 \<Rightarrow> 'k world \<Rightarrow> 'k world \<times> string" where
  "do_bind token addr at w =
     (case write_binding (w_home w) token addr of
        Inr (home, ip) \<Rightarrow>
          (let w1 = recompose (w_catalog w) (w\<lparr>w_home := home\<rparr>)
           in (note_event at ''bind'' token (ipv4_show ip) w1,
               ''OK bind '' @ token @ [sp] @ ipv4_show ip))
      | Inl _ \<Rightarrow> (w, ''ERR store''))"

definition do_unbind :: "string \<Rightarrow> u64 \<Rightarrow> 'k world \<Rightarrow> 'k world \<times> string" where
  "do_unbind token at w =
     (case remove_binding (w_home w) token of
        Inr home \<Rightarrow>
          (let w1 = recompose (w_catalog w) (w\<lparr>w_home := home\<rparr>)
           in (note_event at ''unbind'' token ''unbound'' w1, ''OK unbind '' @ token))
      | Inl _ \<Rightarrow> (w, ''ERR store''))"

definition do_want :: "string \<Rightarrow> u64 \<Rightarrow> 'k world \<Rightarrow> 'k world \<times> string" where
  "do_want token at w =
     (if catalog_get (w_catalog w) token = None then (w, ''ERR unknown-capability'')
      else case record_want (w_run w) token at of
        Inr run \<Rightarrow> (note_event at ''want'' token ''requested'' (w\<lparr>w_run := run\<rparr>), ''OK want '' @ token)
      | Inl _ \<Rightarrow> (w, ''ERR store''))"

section \<open>The ceremony-commit handlers\<close>

definition drop_staged :: "string \<Rightarrow> 'k world \<Rightarrow> 'k world" where
  "drop_staged name w = w\<lparr>w_staging := ignoring (w_staging w) (clear_staged (w_staging w) name)\<rparr>"

definition confirmed_manifest_install :: "string \<Rightarrow> u64 \<Rightarrow> 'k world \<Rightarrow> 'k world \<times> string" where
  "confirmed_manifest_install name at w =
     (case read_staged (w_staging w) name of
        None \<Rightarrow> (w, ''ERR no-staged-candidate'')
      | Some body \<Rightarrow>
          (case parse_manifest body of
             Inl e \<Rightarrow> (drop_staged name w, ''ERR invalid-manifest: '' @ manifest_reason e)
           | Inr m \<Rightarrow>
               if m_name m \<noteq> name then (drop_staged name w, ''ERR name-mismatch'')
               else (case validate_owner_install m (w_sealed_catalog w) of
                 Inl reason \<Rightarrow> (drop_staged name w, ''ERR refused: '' @ reason)
               | Inr _ \<Rightarrow>
                   (case write_owner_manifest (w_owner w) name body of
                      Inl _ \<Rightarrow> (w, ''ERR store'')
                    | Inr owner \<Rightarrow>
                        (note_event at ''manifest-install'' name ''installed''
                           (reproject (drop_staged name (w\<lparr>w_owner := owner\<rparr>))),
                         ''OK confirmed-manifest-install '' @ name)))))"

definition confirmed_manifest_remove :: "'k env \<Rightarrow> string \<Rightarrow> u64 \<Rightarrow> 'k world \<Rightarrow> 'k world \<times> string" where
  "confirmed_manifest_remove env name at w =
     (case remove_owner_manifest (w_owner w) name of
        Inl _ \<Rightarrow> (w, ''ERR store'')
      | Inr owner \<Rightarrow>
          (let w1 = with_store (\<lambda>s. remove_bless s name) (w\<lparr>w_owner := owner\<rparr>);
               w2 = with_store (\<lambda>s. remove_pin s name) w1;
               w3 = with_store (\<lambda>s. clear_fault s name) w2 in
           case reconcile_cap (e_nft env) (w_store w3) (w_kernel w3) of
             (Inl e, k) \<Rightarrow> (reproject (w3\<lparr>w_kernel := k\<rparr>), ''ERR apply-failed'')
           | (Inr _, k) \<Rightarrow>
               (note_event at ''manifest-remove'' name ''removed'' (reproject (w3\<lparr>w_kernel := k\<rparr>)),
                ''OK confirmed-manifest-remove '' @ name)))"

definition confirmed_bless :: "'k env \<Rightarrow> string \<Rightarrow> u64 \<Rightarrow> 'k world \<Rightarrow> 'k world \<times> string" where
  "confirmed_bless env profile at w =
     (if bless_tier_of profile \<noteq> Some TierCeremony \<or> \<not> is_broad_profile profile
      then (w, ''ERR not-ceremony-tier'')
      else case write_bless (w_store w)
                  \<lparr>br_profile = profile, br_tier = ''ceremony'', br_blessed = at\<rparr> of
        Inl _ \<Rightarrow> (w, ''ERR store'')
      | Inr s \<Rightarrow>
          (let w1 = with_store (\<lambda>s. clear_fault s profile) (w\<lparr>w_store := s\<rparr>) in
           case reconcile_web_browsing (e_nft env) (e_slice env) (w_store w1) (w_desktop_uid w1) (w_kernel w1) of
             (r, k) \<Rightarrow>
               (let installed = (case r of Inr b \<Rightarrow> b | Inl _ \<Rightarrow> False);
                    w2 = reproject (w1\<lparr>w_kernel := k\<rparr>)
                in (note_event at ''bless'' profile
                      (if installed then ''enabled'' else ''enabled (pending browser)'') w2,
                    ''OK confirmed-bless '' @ profile @ [sp] @ (if installed then ''live'' else ''pending'')))))"

definition confirmed_unbless :: "'k env \<Rightarrow> string \<Rightarrow> u64 \<Rightarrow> 'k world \<Rightarrow> ('k world \<times> string) option" where
  "confirmed_unbless env profile at w =
     (if bless_tier_of profile \<noteq> Some TierCeremony then Some (w, ''ERR not-ceremony-tier'')
      else case uninstall_browser_rules (e_nft env) (w_kernel w) of
        (Inl e, k) \<Rightarrow> do {
          w1 \<leftarrow> park profile ApplyFail (debug_nft e) at (w\<lparr>w_kernel := k\<rparr>);
          Some (reproject w1, ''ERR apply-failed'')
        }
      | (Inr _, k) \<Rightarrow>
          (let w1 = with_store (\<lambda>s. remove_bless s profile) (w\<lparr>w_kernel := k\<rparr>);
               w2 = with_store (\<lambda>s. clear_fault s profile) w1
           in Some (note_event at ''unbless'' profile ''revoked'' (reproject w2),
                    ''OK confirmed-unbless '' @ profile)))"

definition confirmed_add_raw :: "'k env \<Rightarrow> string \<Rightarrow> u64 \<Rightarrow> 'k world \<Rightarrow> 'k world \<times> string" where
  "confirmed_add_raw env wire at w =
     (case parse_raw_triple wire of
        Inl e \<Rightarrow> (w, ''ERR bad-destination: '' @ e)
      | Inr t \<Rightarrow>
          (case add_raw (w_store w) t of
             Inl _ \<Rightarrow> (w, ''ERR store'')
           | Inr s \<Rightarrow>
               (case resolve_raw (dot_raw_resolver (e_dot env)) s at of
                  (s', _, pending) \<Rightarrow>
                    (case reconcile_cap (e_nft env) s' (w_kernel w) of
                       (Inr _, k) \<Rightarrow>
                         (let w1 = reproject (w\<lparr>w_store := s', w_kernel := k\<rparr>);
                              live = list_ex (\<lambda>r. rp_triple r = t) (list_raw_pins (w_store w1))
                          in (note_event at ''add-raw'' ''raw'' (if live then ''pinned'' else ''pending'') w1,
                              ''OK confirmed-add-raw '' @ to_wire t @
                              (if live then '' live''
                               else '' pending ('' @ show_nat pending @ '' pending total)'')))
                     | (Inl _, k) \<Rightarrow>
                         (note_event at ''add-raw'' ''raw'' ''apply-failed''
                            (reproject (w\<lparr>w_store := s', w_kernel := k\<rparr>)),
                          ''ERR apply-failed'')))))"

definition confirmed_remove_raw :: "'k env \<Rightarrow> string \<Rightarrow> u64 \<Rightarrow> 'k world \<Rightarrow> 'k world \<times> string" where
  "confirmed_remove_raw env wire at w =
     (case parse_raw_triple wire of
        Inl e \<Rightarrow> (w, ''ERR bad-destination: '' @ e)
      | Inr t \<Rightarrow>
          (case remove_raw (w_store w) t of
             Inl _ \<Rightarrow> (w, ''ERR store'')
           | Inr s \<Rightarrow>
               (case resolve_raw (dot_raw_resolver (e_dot env)) s at of
                  (s', _, _) \<Rightarrow>
                    (case reconcile_cap (e_nft env) s' (w_kernel w) of
                       (Inr _, k) \<Rightarrow>
                         (note_event at ''remove-raw'' ''raw'' ''revoked''
                            (reproject (w\<lparr>w_store := s', w_kernel := k\<rparr>)),
                          ''OK confirmed-remove-raw '' @ to_wire t)
                     | (Inl _, k) \<Rightarrow>
                         (reproject (w\<lparr>w_store := s', w_kernel := k\<rparr>), ''ERR apply-failed'')))))"

section \<open>Dispatch\<close>

definition execute :: "'k env \<Rightarrow> request \<Rightarrow> u64 \<Rightarrow> 'k world \<Rightarrow> ('k world \<times> string) option" where
  "execute env req at w =
     (case req of
        Status \<Rightarrow>
          Some (w, ''OK status blessed='' @ show_nat (length (list_bless (w_store w)))
                   @ '' pinned='' @ show_nat (length (list_pins (w_store w))))
      | Bless p \<Rightarrow> sup_bless env p at False w
      | Repin p \<Rightarrow>
          (if load_bless (w_store w) p = None then Some (w, ''ERR not-blessed'')
           else sup_bless env p at True w)
      | Unbless p \<Rightarrow> sup_unbless env p at w
      | BrowserUp \<Rightarrow> browser_up env at w
      | Bind token addr \<Rightarrow> Some (do_bind token addr at w)
      | Unbind token \<Rightarrow> Some (do_unbind token at w)
      | Want token \<Rightarrow> Some (do_want token at w)
      | ConfirmedManifestInstall name \<Rightarrow> Some (confirmed_manifest_install name at w)
      | ConfirmedManifestRemove name \<Rightarrow> Some (confirmed_manifest_remove env name at w)
      | ConfirmedBless p \<Rightarrow> Some (confirmed_bless env p at w)
      | ConfirmedUnbless p \<Rightarrow> confirmed_unbless env p at w
      | ConfirmedAddRaw d \<Rightarrow> Some (confirmed_add_raw env d at w)
      | ConfirmedRemoveRaw d \<Rightarrow> Some (confirmed_remove_raw env d at w))"

definition handle :: "'k env \<Rightarrow> u32 \<Rightarrow> string \<Rightarrow> nat \<Rightarrow> u64 \<Rightarrow> 'k world \<Rightarrow> ('k world \<times> string) option" where
  "handle env peer_uid raw now at w =
     (case parse_request raw of
        Inl e \<Rightarrow> Some (w, ''ERR bad-request: '' @ e)
      | Inr req \<Rightarrow>
          (case (if is_mutating req \<and> \<not> is_privileged req then rl_check (w_limiter w) now
                 else (True, w_limiter w)) of
             (ok, limiter) \<Rightarrow>
               (let w1 = w\<lparr>w_limiter := limiter\<rparr> in
                if \<not> ok then Some (w1, ''ERR rate-limited'')
                else case authorize peer_uid req (w_desktop_uid w1) of
                  Deny reason \<Rightarrow> Some (w1, ''ERR denied: '' @ reason)
                | Allow \<Rightarrow> execute env req at w1)))"

text \<open>One connection of the accept loop.\<close>

definition serve_conn :: "'k env \<Rightarrow> u32 \<Rightarrow> read_event list \<Rightarrow> nat \<Rightarrow> u64 \<Rightarrow> 'k world
    \<Rightarrow> ('k world \<times> string) option" where
  "serve_conn env peer_uid evs now at w =
     (case read_request evs (if peer_uid = 0 then REQ_MAX_PRIV else REQ_MAX) of
        Inr line \<Rightarrow> handle env peer_uid line now at w
      | Inl e \<Rightarrow> Some (w, ''ERR '' @ e))"

section \<open>Startup\<close>

definition quarantine_entry :: "catalog \<Rightarrow> u64 \<Rightarrow> capability_entry \<Rightarrow> store \<Rightarrow> (store \<times> nat) option" where
  "quarantine_entry sealed at e s =
     (if ce_source e \<noteq> Owner then Some (s, 0)
      else case find (\<lambda>r. host_reserved_by_system (hr_host r) sealed) (m_rules (ce_manifest e)) of
        None \<Rightarrow> Some (s, 0)
      | Some bad \<Rightarrow>
          (let name = ce_name e;
               s1 = ignoring s (remove_bless s name);
               s2 = ignoring s1 (remove_pin s1 name);
               reason = ''host '' @ quoted (hr_host bad) @ '' became reserved by a system update''
           in map_option (\<lambda>r. (ignoring s2 r, 1)) (write_fault s2 name Quarantined reason at)))"

fun quarantine_loop :: "catalog \<Rightarrow> u64 \<Rightarrow> capability_entry list \<Rightarrow> store \<Rightarrow> nat \<Rightarrow> (store \<times> nat) option" where
  "quarantine_loop sealed at [] s n = Some (s, n)"
| "quarantine_loop sealed at (e # es) s n =
     Option.bind (quarantine_entry sealed at e s) (\<lambda>(s', k). quarantine_loop sealed at es s' (n + k))"

definition quarantine_scan :: "store \<Rightarrow> catalog \<Rightarrow> catalog \<Rightarrow> u64 \<Rightarrow> (store \<times> nat) option" where
  "quarantine_scan s cat sealed at = quarantine_loop sealed at (cat_entries cat) s 0"

text \<open>The self-heal of a blessed profile without pins; \<open>i\<close> counts the lookups.\<close>

fun heal_loop :: "'k env \<Rightarrow> u64 \<Rightarrow> nat \<Rightarrow> bless_record list \<Rightarrow> store \<Rightarrow> nat \<Rightarrow> (store \<times> nat) option" where
  "heal_loop env at i [] s healed = Some (s, healed)"
| "heal_loop env at i (b # bs) s healed =
     (if \<not> admits_socket_bless (br_profile b) then heal_loop env at i bs s healed
      else if (case load_pin s (br_profile b) of Some r \<Rightarrow> pr_pins r \<noteq> [] | None \<Rightarrow> False)
      then heal_loop env at i bs s healed
      else case e_resolve env i (br_profile b) of
        Inr (pins, _) \<Rightarrow>
          (if pins \<noteq> []
           then (case write_pin s \<lparr>pr_profile = br_profile b, pr_pins = pins, pr_resolved = at\<rparr> of
                   Inr s1 \<Rightarrow> heal_loop env at (i + 1) bs
                               (ignoring s1 (clear_fault s1 (br_profile b))) (healed + 1)
                 | Inl _ \<Rightarrow> heal_loop env at (i + 1) bs s healed)
           else Option.bind (write_fault s (br_profile b) ResolveFail ''reconcile: deferred'' at)
                  (\<lambda>r. heal_loop env at (i + 1) bs (ignoring s r) healed))
      | Inl _ \<Rightarrow>
          Option.bind (write_fault s (br_profile b) ResolveFail ''reconcile: deferred'' at)
            (\<lambda>r. heal_loop env at (i + 1) bs (ignoring s r) healed))"

record summary =
  sum_cap :: nat
  sum_healed :: nat
  sum_quarantined :: nat
  sum_raw_ok :: nat
  sum_raw_pending :: nat
  sum_browser :: bool

definition summary_str :: "summary \<Rightarrow> string" where
  "summary_str x =
     ''reconcile: '' @ show_nat (sum_cap x) @ '' cap element(s), '' @ show_nat (sum_healed x)
     @ '' re-resolved, '' @ show_nat (sum_quarantined x) @ '' quarantined; raw ''
     @ show_nat (sum_raw_ok x) @ '' pinned/'' @ show_nat (sum_raw_pending x) @ '' pending; browser ''
     @ (if sum_browser x then ''installed'' else ''pending/na'')"

definition reconcile :: "'k env \<Rightarrow> u64 \<Rightarrow> 'k world \<Rightarrow> ('k world \<times> summary) option" where
  "reconcile env at w =
     do {
       (s1, quarantined) \<leftarrow> quarantine_scan (w_store w) (w_catalog w) (w_sealed_catalog w) at;
       (s2, healed) \<leftarrow> heal_loop env at 0 (list_bless s1) s1 0;
       let (s3, raw_ok, raw_pending) = resolve_raw (dot_raw_resolver (e_dot env)) s2 at;
       let (r, k1) = reconcile_cap (e_nft env) s3 (w_kernel w);
       let cap = (case r of Inr present \<Rightarrow> length present | Inl _ \<Rightarrow> 0);
       let (rb, k2) = reconcile_web_browsing (e_nft env) (e_slice env) s3 (w_desktop_uid w) k1;
       let browser = (case rb of Inr b \<Rightarrow> b | Inl _ \<Rightarrow> False);
       Some (reproject (w\<lparr>w_store := s3, w_kernel := k2\<rparr>),
             \<lparr>sum_cap = cap, sum_healed = healed, sum_quarantined = quarantined,
              sum_raw_ok = raw_ok, sum_raw_pending = raw_pending, sum_browser = browser\<rparr>)
     }"

end
