(* ===== verification/Egress_Authority.thy ===== *)
theory Egress_Authority
  imports Egress_Supervisor
begin

text \<open>
  What each handler of the supervisor may touch: the frame of every step, the parts of the store an
  operation leaves alone, and the bound on a request of the desktop user (the bless, the pins and
  the faults of the profile it names, nothing else of the authority state).
\<close>

section \<open>Facts: frames\<close>

named_theorems frame_simps \<open>what an operation leaves alone\<close>

lemma recompose_frame [frame_simps]:
  "w_store (recompose c w) = w_store w" "w_run (recompose c w) = w_run w"
  "w_sealed (recompose c w) = w_sealed w" "w_owner (recompose c w) = w_owner w"
  "w_staging (recompose c w) = w_staging w" "w_kernel (recompose c w) = w_kernel w"
  "w_limiter (recompose c w) = w_limiter w" "w_desktop_uid (recompose c w) = w_desktop_uid w"
  by (simp_all add: recompose_def split: prod.split)

lemma project_frame [frame_simps]:
  "w_store (project c w) = w_store w" "w_home (project c w) = w_home w"
  "w_sealed (project c w) = w_sealed w" "w_owner (project c w) = w_owner w"
  "w_staging (project c w) = w_staging w" "w_kernel (project c w) = w_kernel w"
  "w_limiter (project c w) = w_limiter w" "w_desktop_uid (project c w) = w_desktop_uid w"
  by (simp_all add: project_def Let_def)

lemma reproject_frame [frame_simps]:
  "w_store (reproject w) = w_store w" "w_sealed (reproject w) = w_sealed w"
  "w_owner (reproject w) = w_owner w" "w_staging (reproject w) = w_staging w"
  "w_kernel (reproject w) = w_kernel w" "w_limiter (reproject w) = w_limiter w"
  "w_desktop_uid (reproject w) = w_desktop_uid w"
  by (simp_all add: reproject_def Let_def recompose_frame project_frame)

lemma note_event_frame [frame_simps]:
  "w_store (note_event at v p r w) = w_store w" "w_sealed (note_event at v p r w) = w_sealed w"
  "w_owner (note_event at v p r w) = w_owner w" "w_staging (note_event at v p r w) = w_staging w"
  "w_kernel (note_event at v p r w) = w_kernel w" "w_limiter (note_event at v p r w) = w_limiter w"
  "w_desktop_uid (note_event at v p r w) = w_desktop_uid w"
  "w_home (note_event at v p r w) = w_home w" "w_hosts_run (note_event at v p r w) = w_hosts_run w"
  by (simp_all add: note_event_def)

lemma with_store_frame [frame_simps]:
  "w_store (with_store f w) = ignoring (w_store w) (f (w_store w))"
  "w_sealed (with_store f w) = w_sealed w" "w_owner (with_store f w) = w_owner w"
  "w_staging (with_store f w) = w_staging w" "w_kernel (with_store f w) = w_kernel w"
  "w_limiter (with_store f w) = w_limiter w" "w_desktop_uid (with_store f w) = w_desktop_uid w"
  "w_run (with_store f w) = w_run w" "w_home (with_store f w) = w_home w"
  by (simp_all add: with_store_def)

lemma drop_staged_frame [frame_simps]:
  "w_store (drop_staged n w) = w_store w" "w_owner (drop_staged n w) = w_owner w"
  "w_sealed (drop_staged n w) = w_sealed w" "w_kernel (drop_staged n w) = w_kernel w"
  "w_limiter (drop_staged n w) = w_limiter w"
  by (simp_all add: drop_staged_def)

lemma park_frame:
  "park n kd r at w = Some w' \<Longrightarrow> \<exists>d. w' = w\<lparr>w_store := (w_store w)\<lparr>st_fault := d\<rparr>\<rparr>"
proof -
  assume "park n kd r at w = Some w'"
  then obtain x where x: "write_fault (w_store w) n kd r at = Some x"
      "w' = w\<lparr>w_store := ignoring (w_store w) x\<rparr>"
    by (auto simp: park_def)
  have "\<exists>d. ignoring (w_store w) x = (w_store w)\<lparr>st_fault := d\<rparr>"
    using x(1) by (cases x) (auto simp: write_fault_def ignoring_def bind_eq_Some_conv res_simps
        intro: exI [of _ "st_fault (w_store w)"] split: if_splits)
  then obtain d where "ignoring (w_store w) x = (w_store w)\<lparr>st_fault := d\<rparr>" by blast
  with x(2) show ?thesis by (intro exI [of _ d]) simp
qed

text \<open>What the store operations touch, one sub-directory each.\<close>

lemma store_frames:
  "write_bless s r = Inr s' \<Longrightarrow> \<exists>d. s' = s\<lparr>st_blessed := d\<rparr>"
  "remove_bless s n = Inr s' \<Longrightarrow> \<exists>d. s' = s\<lparr>st_blessed := d\<rparr>"
  "write_pin s pr = Inr s' \<Longrightarrow> \<exists>d. s' = s\<lparr>st_pinned := d\<rparr>"
  "remove_pin s n = Inr s' \<Longrightarrow> \<exists>d. s' = s\<lparr>st_pinned := d\<rparr>"
  "clear_fault s n = Inr s' \<Longrightarrow> \<exists>d. s' = s\<lparr>st_fault := d\<rparr>"
  by (auto simp: write_bless_Inr remove_bless_Inr write_pin_Inr remove_pin_Inr clear_fault_def
      res_simps split: if_splits)

lemma ignoring_simps [simp]: "ignoring s (Inl e) = s" "ignoring s (Inr s') = s'"
  by (simp_all add: ignoring_def)

lemma ignoring_ex:
  "(\<And>s'. r = Inr s' \<Longrightarrow> \<exists>d. s' = f d) \<Longrightarrow> s = f d0 \<Longrightarrow> \<exists>d. ignoring s r = f d"
  by (cases r) auto

lemma store_self:
  "s = s\<lparr>st_blessed := st_blessed s\<rparr>" "s = s\<lparr>st_pinned := st_pinned s\<rparr>"
  "s = s\<lparr>st_fault := st_fault s\<rparr>"
  by simp_all

lemma ignoring_frames:
  "\<exists>d. ignoring s (write_bless s r) = s\<lparr>st_blessed := d\<rparr>"
  "\<exists>d. ignoring s (remove_bless s n) = s\<lparr>st_blessed := d\<rparr>"
  "\<exists>d. ignoring s (remove_pin s n) = s\<lparr>st_pinned := d\<rparr>"
  "\<exists>d. ignoring s (clear_fault s n) = s\<lparr>st_fault := d\<rparr>"
  by (rule ignoring_ex, erule store_frames, rule store_self)+

text \<open>Reads of a part the operation does not touch.\<close>

lemma reads_frame [frame_simps]:
  "list_raw (s\<lparr>st_blessed := d\<rparr>) = list_raw s" "list_raw (s\<lparr>st_pinned := d\<rparr>) = list_raw s"
  "list_raw (s\<lparr>st_fault := d\<rparr>) = list_raw s"
  "list_raw_pins (s\<lparr>st_blessed := d\<rparr>) = list_raw_pins s"
  "list_raw_pins (s\<lparr>st_pinned := d\<rparr>) = list_raw_pins s"
  "list_raw_pins (s\<lparr>st_fault := d\<rparr>) = list_raw_pins s"
  "load_bless (s\<lparr>st_pinned := d\<rparr>) = load_bless s" "load_bless (s\<lparr>st_fault := d\<rparr>) = load_bless s"
  "load_bless (s\<lparr>st_root := d\<rparr>) = load_bless s"
  "load_pin (s\<lparr>st_blessed := d\<rparr>) = load_pin s" "load_pin (s\<lparr>st_fault := d\<rparr>) = load_pin s"
  "load_pin (s\<lparr>st_root := d\<rparr>) = load_pin s"
  by (simp_all add: list_raw_def list_raw_pins_def load_bless_rec load_pin_rec)

lemma union_fault [frame_simps]: "desired_cap_union (s\<lparr>st_fault := d\<rparr>) x = desired_cap_union s x"
proof -
  have "bless_tuples (s\<lparr>st_fault := d\<rparr>) x = bless_tuples s x"
    by (rule ext) (simp add: bless_tuples_def reads_frame cong: option.case_cong)
  then show ?thesis
    by (simp add: desired_cap_union_def list_bless_rec reads_frame)
qed

text \<open>A later load after a dropped-error write or removal.\<close>

lemma load_bless_other:
  "n \<noteq> br_profile r \<Longrightarrow> load_bless (ignoring s (write_bless s r)) n = load_bless s n"
proof (cases "write_bless s r")
  case (Inr s')
  assume "n \<noteq> br_profile r"
  with Inr show ?thesis
    unfolding Inr ignoring_simps using Inr [unfolded write_bless_Inr]
    by (auto simp: load_bless_rec intro: bless.load_write_other)
qed simp

lemma load_bless_removed:
  "load_bless (ignoring s (remove_bless s p)) n =
     (if n = p \<and> (\<exists>s'. remove_bless s p = Inr s') then None else load_bless s n)"
proof (cases "remove_bless s p")
  case (Inr s')
  then obtain d where "remove_if_present (st_blessed s) p = Inr d" "s' = s\<lparr>st_blessed := d\<rparr>"
    unfolding remove_bless_Inr by blast
  then show ?thesis
    by (simp add: Inr load_bless_rec bless.load_remove)
qed simp

lemma load_pin_removed:
  "load_pin (ignoring s (remove_pin s p)) n =
     (if n = p \<and> (\<exists>s'. remove_pin s p = Inr s') then None else load_pin s n)"
proof (cases "remove_pin s p")
  case (Inr s')
  then obtain d where "remove_if_present (st_pinned s) p = Inr d" "s' = s\<lparr>st_pinned := d\<rparr>"
    unfolding remove_pin_Inr by blast
  then show ?thesis
    by (simp add: Inr load_pin_rec pins.load_remove)
qed simp

lemma load_bless_written:
  "write_bless s r = Inr s' \<Longrightarrow> load_bless s' (br_profile r) = Some r"
  by (auto simp: write_bless_Inr load_bless_rec intro: bless.load_write)

lemma load_pin_written:
  "write_pin s r = Inr s' \<Longrightarrow> load_pin s' (pr_profile r) = Some r"
  by (auto simp: write_pin_Inr load_pin_rec intro: pins.load_write)

section \<open>Facts: what a desktop request may touch\<close>

text \<open>Two stores that differ at most in the bless, the pins and the faults of one profile.\<close>

definition same_but :: "string \<Rightarrow> store \<Rightarrow> store \<Rightarrow> bool" where
  "same_but p s s' \<longleftrightarrow>
     list_raw s' = list_raw s \<and> list_raw_pins s' = list_raw_pins s
     \<and> (\<forall>n. n \<noteq> p \<longrightarrow> load_bless s' n = load_bless s n \<and> load_pin s' n = load_pin s n)"

lemma same_but_refl [simp]: "same_but p s s"
  by (simp add: same_but_def)

lemma same_but_trans: "same_but p s s' \<Longrightarrow> same_but p s' s'' \<Longrightarrow> same_but p s s''"
  by (simp add: same_but_def)

lemma same_but_fault [simp]: "same_but p s (s\<lparr>st_fault := d\<rparr>)"
  by (simp add: same_but_def reads_frame)

lemma same_but_clear_fault: "same_but p s (ignoring s (clear_fault s n))"
  using ignoring_frames(4) [of s n] same_but_fault by metis

lemma same_but_write_bless: "br_profile r = p \<Longrightarrow> same_but p s (ignoring s (write_bless s r))"
proof -
  assume "br_profile r = p"
  moreover obtain d where "ignoring s (write_bless s r) = s\<lparr>st_blessed := d\<rparr>"
    using ignoring_frames(1) by blast
  ultimately show ?thesis
    using load_bless_other [of _ r s] unfolding same_but_def by (auto simp: reads_frame)
qed

lemma same_but_remove_bless: "same_but p s (ignoring s (remove_bless s p))"
proof -
  obtain d where "ignoring s (remove_bless s p) = s\<lparr>st_blessed := d\<rparr>"
    using ignoring_frames(2) by blast
  then show ?thesis
    using load_bless_removed [of s p] unfolding same_but_def by (auto simp: reads_frame)
qed

lemma same_but_remove_pin: "same_but p s (ignoring s (remove_pin s p))"
proof -
  obtain d where "ignoring s (remove_pin s p) = s\<lparr>st_pinned := d\<rparr>"
    using ignoring_frames(3) by blast
  then show ?thesis
    using load_pin_removed [of s p] unfolding same_but_def by (auto simp: reads_frame)
qed

lemma same_but_write_pin: "write_pin s r = Inr s' \<Longrightarrow> pr_profile r = p \<Longrightarrow> same_but p s s'"
  unfolding same_but_def write_pin_Inr
  by (auto simp: reads_frame) (auto simp: load_pin_rec intro: pins.load_write_other)

lemma same_but_park: "park n kd r at w = Some w' \<Longrightarrow> same_but p (w_store w) (w_store w')"
  by (drule park_frame) auto

definition authority_frame :: "string \<Rightarrow> 'k world \<Rightarrow> 'k world \<Rightarrow> bool" where
  "authority_frame p w w' \<longleftrightarrow>
     w_sealed w' = w_sealed w \<and> w_owner w' = w_owner w \<and> w_staging w' = w_staging w
     \<and> w_desktop_uid w' = w_desktop_uid w \<and> same_but p (w_store w) (w_store w')"

lemma park_authority: "park n kd r at w = Some w' \<Longrightarrow> authority_frame p w w'"
  using same_but_park [of n kd r at w w' p] park_frame [of n kd r at w w']
  by (auto simp: authority_frame_def)

lemma authority_trans: "authority_frame p w w' \<Longrightarrow> authority_frame p w' w'' \<Longrightarrow> authority_frame p w w''"
  by (auto simp: authority_frame_def intro: same_but_trans)

lemma park_authority_trans:
  "authority_frame p w w1 \<Longrightarrow> park n kd r at w1 = Some y \<Longrightarrow> authority_frame p w y"
  by (rule authority_trans [OF _ park_authority])

lemma authority_refl [simp]: "authority_frame p w w"
  by (simp add: authority_frame_def)

lemma authority_steps:
  "authority_frame p w (note_event at v q r w') \<longleftrightarrow> authority_frame p w w'"
  "authority_frame p w (reproject w') \<longleftrightarrow> authority_frame p w w'"
  "authority_frame p w (w'\<lparr>w_kernel := k\<rparr>) \<longleftrightarrow> authority_frame p w w'"
  "authority_frame p w (w'\<lparr>w_run := d\<rparr>) \<longleftrightarrow> authority_frame p w w'"
  "authority_frame p w (w'\<lparr>w_limiter := l\<rparr>) \<longleftrightarrow> authority_frame p w w'"
  "authority_frame p w (recompose c w') \<longleftrightarrow> authority_frame p w w'"
  "authority_frame p w (w'\<lparr>w_home := d\<rparr>) \<longleftrightarrow> authority_frame p w w'"
  by (simp_all add: authority_frame_def frame_simps)

lemma authority_with_store:
  "same_but p (w_store w) (ignoring (w_store w) (f (w_store w))) \<Longrightarrow> authority_frame p w (with_store f w)"
  by (simp add: authority_frame_def frame_simps)

lemma sup_bless_authority:
  assumes "sup_bless env p at rp w = Some (w', a)"
  shows "authority_frame p w w'"
proof -
  let ?r = "\<lparr>br_profile = p, br_tier = ''one-click'', br_blessed = at\<rparr>"
  define w1 where "w1 = with_store (\<lambda>s. write_bless s ?r) w"
  have w1: "authority_frame p w w1"
    unfolding w1_def by (intro authority_with_store same_but_write_bless) simp
  note body = assms [unfolded sup_bless_def Let_def, folded w1_def]
  show ?thesis
  proof (cases "e_resolve env 0 p")
    case (Inl e)
    with body show ?thesis
      by (auto simp: bind_eq_Some_conv authority_steps intro: park_authority_trans [OF w1])
  next
    case res: (Inr x)
    obtain pins rip where x: "x = (pins, rip)" by (cases x)
    let ?pr = "\<lparr>pr_profile = p, pr_pins = pins, pr_resolved = at\<rparr>"
    show ?thesis
    proof (cases "write_pin (w_store w1) ?pr")
      case (Inl e)
      with body res x show ?thesis
        by (auto simp: bind_eq_Some_conv authority_steps intro: park_authority_trans [OF w1])
    next
      case (Inr s)
      have w2: "authority_frame p w (w1\<lparr>w_store := s\<rparr>)"
        using w1 same_but_write_pin [OF Inr, of p]
        by (auto simp: authority_frame_def intro: same_but_trans)
      obtain q k where k: "reconcile_cap (e_nft env) s (w_kernel w1) = (q, k)"
        by (cases "reconcile_cap (e_nft env) s (w_kernel w1)")
      have w2k: "authority_frame p w (w1\<lparr>w_store := s, w_kernel := k\<rparr>)"
        using w2 by (simp add: authority_steps)
      show ?thesis
      proof (cases q)
        case err: (Inl e)
        from body res x Inr k err show ?thesis
          by (auto simp: bind_eq_Some_conv authority_steps
              intro: park_authority_trans [OF w2k])
      next
        case ok: (Inr u)
        have "authority_frame p w (with_store (\<lambda>s. clear_fault s p) (w1\<lparr>w_store := s, w_kernel := k\<rparr>))"
          by (rule authority_trans [OF w2k])
            (simp add: authority_with_store same_but_clear_fault)
        with body res x Inr k ok show ?thesis
          by (auto simp: authority_steps)
      qed
    qed
  qed
qed

lemma sup_unbless_authority:
  assumes "sup_unbless env p at w = Some (w', a)"
  shows "authority_frame p w w'"
proof -
  obtain q k where k: "apply_cap (e_nft env) (desired_cap_union (w_store w) (Some p)) (w_kernel w) = (q, k)"
    by (cases "apply_cap (e_nft env) (desired_cap_union (w_store w) (Some p)) (w_kernel w)")
  show ?thesis
  proof (cases q)
    case (Inl e)
    with assms k show ?thesis
      by (auto simp: sup_unbless_def bind_eq_Some_conv authority_steps dest!: park_authority [where p = p])
        (auto simp: authority_frame_def)
  next
    case (Inr u)
    define w1 where "w1 = with_store (\<lambda>s. remove_bless s p) (w\<lparr>w_kernel := k\<rparr>)"
    define w2 where "w2 = with_store (\<lambda>s. remove_pin s p) w1"
    have "authority_frame p (w\<lparr>w_kernel := k\<rparr>) w1" "authority_frame p w1 w2"
      "authority_frame p w2 (with_store (\<lambda>s. clear_fault s p) w2)"
      unfolding w1_def w2_def
      by (intro authority_with_store same_but_remove_bless same_but_remove_pin same_but_clear_fault)+
    then have "authority_frame p w (with_store (\<lambda>s. clear_fault s p) w2)"
      using authority_trans authority_steps(3) authority_refl by metis
    with assms k Inr show ?thesis
      by (auto simp: sup_unbless_def Let_def authority_steps w1_def w2_def)
  qed
qed

lemma store_only_authority: "w_store w' = w_store w \<Longrightarrow> w_sealed w' = w_sealed w \<Longrightarrow>
    w_owner w' = w_owner w \<Longrightarrow> w_staging w' = w_staging w \<Longrightarrow> w_desktop_uid w' = w_desktop_uid w
    \<Longrightarrow> authority_frame p w w'"
  by (simp add: authority_frame_def)

lemma browser_up_store:
  "browser_up env at w = Some (w', a) \<Longrightarrow> w_store w' = w_store w \<and> w_sealed w' = w_sealed w
     \<and> w_owner w' = w_owner w \<and> w_staging w' = w_staging w \<and> w_desktop_uid w' = w_desktop_uid w"
  by (auto simp: browser_up_def Let_def frame_simps split: if_splits prod.splits sum.splits bool.splits)

lemma do_bind_store:
  "do_bind t x at w = (w', a) \<Longrightarrow> w_store w' = w_store w \<and> w_sealed w' = w_sealed w
     \<and> w_owner w' = w_owner w \<and> w_staging w' = w_staging w \<and> w_desktop_uid w' = w_desktop_uid w
     \<and> w_kernel w' = w_kernel w"
  by (auto simp: do_bind_def Let_def frame_simps split: sum.splits prod.splits)

lemma do_unbind_store:
  "do_unbind t at w = (w', a) \<Longrightarrow> w_store w' = w_store w \<and> w_sealed w' = w_sealed w
     \<and> w_owner w' = w_owner w \<and> w_staging w' = w_staging w \<and> w_desktop_uid w' = w_desktop_uid w
     \<and> w_kernel w' = w_kernel w"
  by (auto simp: do_unbind_def Let_def frame_simps split: sum.splits)

lemma do_want_store:
  "do_want t at w = (w', a) \<Longrightarrow> w_store w' = w_store w \<and> w_sealed w' = w_sealed w
     \<and> w_owner w' = w_owner w \<and> w_staging w' = w_staging w \<and> w_desktop_uid w' = w_desktop_uid w
     \<and> w_kernel w' = w_kernel w"
  by (auto simp: do_want_def Let_def frame_simps split: sum.splits if_splits)

lemma execute_authority:
  assumes "execute env r at w = Some (w', a)" "authorize u r d = Allow" "\<not> is_privileged r"
  shows "authority_frame ''weather'' w w'"
proof -
  have w: "p = ''weather''" if "r \<in> {Bless p, Repin p, Unbless p}" for p
    using assms(2,3) that by (auto simp: authorize_iff)
  show ?thesis
  proof (cases r)
    case (Bless p)
    then show ?thesis using assms(1) w [of p] by (auto simp: execute_def intro: sup_bless_authority)
  next
    case (Repin p)
    then show ?thesis
      using assms(1) w [of p] by (auto simp: execute_def intro: sup_bless_authority split: if_splits)
  next
    case (Unbless p)
    then show ?thesis using assms(1) w [of p] by (auto simp: execute_def intro: sup_unbless_authority)
  next
    case BrowserUp
    then show ?thesis
      using assms(1) browser_up_store [of env at w w' a] by (auto simp: execute_def intro: store_only_authority)
  next
    case (Bind t x)
    then show ?thesis
      using assms(1) do_bind_store [of t x at w w' a] by (auto simp: execute_def intro: store_only_authority)
  next
    case (Unbind t)
    then show ?thesis
      using assms(1) do_unbind_store [of t at w w' a] by (auto simp: execute_def intro: store_only_authority)
  next
    case (Want t)
    then show ?thesis
      using assms(1) do_want_store [of t at w w' a] by (auto simp: execute_def intro: store_only_authority)
  qed (use assms in \<open>simp_all add: execute_def\<close>)
qed

text \<open>What \<open>handle\<close> does, path by path.\<close>

lemma handle_elim:
  assumes "handle env u raw now at w = Some (w', a)"
  obtains (bad) e where "parse_request raw = Inl e" "w' = w" "a = ''ERR bad-request: '' @ e"
  | (refused) r l where "parse_request raw = Inr r" "w' = w\<lparr>w_limiter := l\<rparr>"
      "a = ''ERR rate-limited'' \<or> (\<exists>e. authorize u r (w_desktop_uid w) = Deny e \<and> a = ''ERR denied: '' @ e)"
  | (executed) r l where "parse_request raw = Inr r" "authorize u r (w_desktop_uid w) = Allow"
      "execute env r at (w\<lparr>w_limiter := l\<rparr>) = Some (w', a)"
proof (cases "parse_request raw")
  case (Inl e)
  with assms show ?thesis by (intro bad) (auto simp: handle_def)
next
  case (Inr r)
  obtain ok l where l: "(if is_mutating r \<and> \<not> is_privileged r then rl_check (w_limiter w) now
      else (True, w_limiter w)) = (ok, l)"
    by fastforce
  show ?thesis
  proof (cases "ok \<and> authorize u r (w_desktop_uid w) = Allow")
    case True
    with assms Inr l show ?thesis
      by (intro executed [of r l]) (simp_all add: handle_def Let_def)
  next
    case False
    with assms Inr l show ?thesis
      by (intro refused [of r l]) (auto simp: handle_def Let_def split: if_splits decision.splits)
  qed
qed

lemma handle_nonroot:
  assumes "handle env u raw now at w = Some (w', a)" "u \<noteq> 0"
  shows "authority_frame ''weather'' w w'"
  using assms(1)
proof (cases rule: handle_elim)
  case (refused r l)
  then show ?thesis by (simp add: authority_steps)
next
  case (executed r l)
  moreover have "\<not> is_privileged r"
    using executed(2) assms(2) by (auto simp: authorize_iff)
  ultimately have "authority_frame ''weather'' (w\<lparr>w_limiter := l\<rparr>) w'"
    using execute_authority by blast
  then show ?thesis by (simp add: authority_frame_def)
qed simp

lemma handle_stranger:
  assumes "handle env u raw now at w = Some (w', a)" "u \<noteq> 0" "u \<noteq> w_desktop_uid w"
  shows "\<exists>l. w' = w\<lparr>w_limiter := l\<rparr>"
  using assms(1)
proof (cases rule: handle_elim)
  case bad
  then show ?thesis by (intro exI [of _ "w_limiter w"]) simp
next
  case (executed r l)
  then show ?thesis using assms(2,3) by (auto simp: authorize_iff split: if_splits)
qed auto

section \<open>Properties\<close>

text \<open>
  C33: a peer that is not root, whatever it sends, leaves alone the sealed and the owner manifests,
  the staging directory, the raw destinations and every grant but the one of the one-click profile;
  and a peer that is not even the desktop user can at most spend the rate limit.
\<close>

theorem unprivileged_peer_frame:
  assumes "handle env u raw now at w = Some (w', a)" "u \<noteq> 0"
  shows "w_sealed w' = w_sealed w \<and> w_owner w' = w_owner w \<and> w_staging w' = w_staging w
    \<and> list_raw (w_store w') = list_raw (w_store w) \<and> list_raw_pins (w_store w') = list_raw_pins (w_store w)
    \<and> (n = ''weather'' \<or> load_bless (w_store w') n = load_bless (w_store w) n
         \<and> load_pin (w_store w') n = load_pin (w_store w) n)
    \<and> (u = w_desktop_uid w \<or> (\<exists>l. w' = w\<lparr>w_limiter := l\<rparr>))"
  using handle_nonroot [OF assms] handle_stranger [OF assms]
  unfolding authority_frame_def same_but_def by blast

definition idle_env :: "mem_nft env" where
  "idle_env = \<lparr>e_nft = mem_run, e_resolve = (\<lambda>i p. Inl ''down''), e_dot = (\<lambda>i h. Inl ''down''),
     e_slice = (\<lambda>u. False)\<rparr>"

definition idle_world :: "mem_nft world" where
  "idle_world = \<lparr>w_store = empty_store, w_run = empty_dir, w_sealed = empty_dir, w_owner = empty_dir,
     w_staging = empty_dir, w_home = empty_dir, w_hosts_run = empty_dir, w_hosts_lockable = True,
     w_kernel = \<lparr>mn_elems = [], mn_rules = [], mn_next = 1, mn_fail = (\<lambda>c. False)\<rparr>,
     w_limiter = new_limiter RATE_WINDOW RATE_MAX, w_desktop_uid = 1000\<rparr>"

lemma status_answered: "\<exists>a. handle idle_env u ''status'' now at idle_world = Some (idle_world, a) \<or> u \<noteq> 1000"
proof -
  have "parse_request ''status'' = Inr Status" by code_simp
  then show ?thesis
    by (simp add: handle_def is_mutating_def authorize_def execute_def idle_world_def)
qed

theorem unprivileged_peer_frame_witness:
  "\<exists>w' a. handle idle_env 1000 ''status'' 0 0 idle_world = Some (w', a) \<and> w_owner w' = w_owner idle_world"
proof -
  obtain a where a: "handle idle_env 1000 ''status'' 0 0 idle_world = Some (idle_world, a)"
    using status_answered [of 1000] by auto
  show ?thesis using unprivileged_peer_frame [OF a] a by auto
qed

end
