(* ===== verification/Egress_Failclosed.thy ===== *)
theory Egress_Failclosed
  imports Egress_Authority
begin

text \<open>
  The kernel set against the store: whatever a handler does and however it fails, the live set never
  gains a tuple the store does not grant afterwards, and an answer of OK means the set is the union.
\<close>

section \<open>Facts: the kernel set\<close>

text \<open>Nothing enters the live set that the store does not grant afterwards.\<close>

definition fail_closed :: "('k \<Rightarrow> cap_tuple set) \<Rightarrow> 'k world \<Rightarrow> 'k world \<Rightarrow> bool" where
  "fail_closed elems w w' \<longleftrightarrow>
     elems (w_kernel w') \<subseteq> elems (w_kernel w) \<union> set (desired_cap_union (w_store w') None)"

definition converged :: "('k \<Rightarrow> cap_tuple set) \<Rightarrow> 'k world \<Rightarrow> bool" where
  "converged elems w \<longleftrightarrow> elems (w_kernel w) = set (desired_cap_union (w_store w) None)"

lemma same_but_grants:
  assumes "same_but p s s'"
  shows "n \<noteq> p \<Longrightarrow> cap_grants s' n t = cap_grants s n t" "raw_grants s' t = raw_grants s t"
  using assms by (simp_all add: same_but_def cap_grants_def raw_grants_def)

lemma union_mono_removed:
  "same_but p s s' \<Longrightarrow> set (desired_cap_union s (Some p)) \<subseteq> set (desired_cap_union s' None)"
proof
  fix t assume s: "same_but p s s'" and "t \<in> set (desired_cap_union s (Some p))"
  then consider n where "p \<noteq> n" "cap_grants s n t" | "raw_grants s t"
    unfolding desired_cap_union_iff by auto
  then show "t \<in> set (desired_cap_union s' None)"
  proof cases
    case (1 n)
    then have "cap_grants s' n t" using same_but_grants(1) [OF s, of n t] by simp
    then show ?thesis unfolding desired_cap_union_iff by auto
  next
    case 2
    then show ?thesis unfolding desired_cap_union_iff using same_but_grants(2) [OF s] by simp
  qed
qed

lemma union_removed:
  "same_but p s s' \<Longrightarrow> load_bless s' p = None \<Longrightarrow>
     set (desired_cap_union s' None) = set (desired_cap_union s (Some p))"
proof
  assume s: "same_but p s s'" and p: "load_bless s' p = None"
  show "set (desired_cap_union s (Some p)) \<subseteq> set (desired_cap_union s' None)"
    by (rule union_mono_removed [OF s])
  show "set (desired_cap_union s' None) \<subseteq> set (desired_cap_union s (Some p))"
  proof
    fix t assume "t \<in> set (desired_cap_union s' None)"
    then consider n where "cap_grants s' n t" | "raw_grants s' t"
      unfolding desired_cap_union_iff by auto
    then show "t \<in> set (desired_cap_union s (Some p))"
    proof cases
      case (1 n)
      then have n: "n \<noteq> p" using p by (auto simp: cap_grants_def)
      then have "cap_grants s n t" using 1 same_but_grants(1) [OF s] by simp
      then show ?thesis
        unfolding desired_cap_union_iff using n by auto
    next
      case 2
      then show ?thesis
        unfolding desired_cap_union_iff using same_but_grants(2) [OF s] by simp
    qed
  qed
qed

context cap_kernel
begin

lemma reconcile_ok:
  "reconcile_cap run s k = (Inr ts, k') \<Longrightarrow> elems k' = set (desired_cap_union s None)"
  unfolding reconcile_cap_def by (drule apply_cap_ok) simp

lemma reconcile_err:
  "reconcile_cap run s k = (Inl e, k') \<Longrightarrow> elems k' \<subseteq> elems k \<union> set (desired_cap_union s None)"
  unfolding reconcile_cap_def by (drule apply_cap_err) simp

lemma web_elems: "reconcile_web_browsing run sl s u k = (r, k') \<Longrightarrow> elems k' = elems k"
  by (auto simp: reconcile_web_browsing_def dest: chain_elems install_elems
      split: if_splits prod.splits sum.splits)

end

lemma same_union_fault:
  "park n kd r at w = Some w' \<Longrightarrow>
     desired_cap_union (w_store w') x = desired_cap_union (w_store w) x \<and> w_kernel w' = w_kernel w"
  by (drule park_frame) (auto simp: frame_simps)

lemma clear_fault_union:
  "desired_cap_union (ignoring s (clear_fault s n)) x = desired_cap_union s x"
  using ignoring_frames(4) [of s n] by (metis union_fault)

lemma sup_bless_kernel:
  assumes ck: "cap_kernel (e_nft env) elems"
    and run: "sup_bless env p at rp w = Some (w', a)"
  shows "fail_closed elems w w' \<and> (str_starts_with a ''OK'' \<longrightarrow> converged elems w')"
proof -
  let ?r = "\<lparr>br_profile = p, br_tier = ''one-click'', br_blessed = at\<rparr>"
  define w1 where "w1 = with_store (\<lambda>s. write_bless s ?r) w"
  have k1: "w_kernel w1 = w_kernel w" by (simp add: w1_def frame_simps)
  note body = run [unfolded sup_bless_def Let_def, folded w1_def]
  have err: "\<not> str_starts_with ''ERR resolve-failed'' ''OK''" "\<not> str_starts_with ''ERR store'' ''OK''"
    "\<not> str_starts_with ''ERR apply-failed'' ''OK''"
    by (simp_all add: str_starts_with_def)
  show ?thesis
  proof (cases "e_resolve env 0 p")
    case (Inl e)
    with body show ?thesis
      using k1 err by (auto simp: bind_eq_Some_conv frame_simps fail_closed_def dest!: same_union_fault [where x = None])
  next
    case res: (Inr x)
    obtain pins rip where x: "x = (pins, rip)" by (cases x)
    show ?thesis
    proof (cases "write_pin (w_store w1) \<lparr>pr_profile = p, pr_pins = pins, pr_resolved = at\<rparr>")
      case (Inl e)
      with body res x show ?thesis
        using k1 err by (auto simp: bind_eq_Some_conv frame_simps fail_closed_def dest!: same_union_fault [where x = None])
    next
      case (Inr s)
      obtain q k where k: "reconcile_cap (e_nft env) s (w_kernel w1) = (q, k)"
        by (cases "reconcile_cap (e_nft env) s (w_kernel w1)")
      show ?thesis
      proof (cases q)
        case e: (Inl e)
        then have "elems k \<subseteq> elems (w_kernel w) \<union> set (desired_cap_union s None)"
          using cap_kernel.reconcile_err [OF ck] k k1 by metis
        with body res x Inr k e show ?thesis
          using err by (auto simp: bind_eq_Some_conv frame_simps fail_closed_def dest!: same_union_fault [where x = None])
      next
        case ok: (Inr u)
        then have "elems k = set (desired_cap_union s None)"
          using cap_kernel.reconcile_ok [OF ck] k by metis
        with body res x Inr k ok show ?thesis
          by (auto simp: frame_simps fail_closed_def converged_def clear_fault_union)
      qed
    qed
  qed
qed

lemma fail_closed_same: "w_kernel w' = w_kernel w \<Longrightarrow> fail_closed elems w w'"
  by (simp add: fail_closed_def)

lemma fail_closed_elems: "elems (w_kernel w') = elems (w_kernel w) \<Longrightarrow> fail_closed elems w w'"
  by (simp add: fail_closed_def)

lemma fail_closed_steps [simp]:
  "fail_closed elems w (note_event at v q r w') \<longleftrightarrow> fail_closed elems w w'"
  "fail_closed elems w (reproject w') \<longleftrightarrow> fail_closed elems w w'"
  "converged elems (note_event at v q r w') \<longleftrightarrow> converged elems w'"
  "converged elems (reproject w') \<longleftrightarrow> converged elems w'"
  by (simp_all add: fail_closed_def converged_def frame_simps)

text \<open>The three removals of a revocation.\<close>

definition revoke :: "string \<Rightarrow> 'k world \<Rightarrow> 'k world" where
  "revoke p w = with_store (\<lambda>s. clear_fault s p) (with_store (\<lambda>s. remove_pin s p) (with_store (\<lambda>s. remove_bless s p) w))"

lemma revoke_frame: "authority_frame p w (revoke p w)" "w_kernel (revoke p w) = w_kernel w"
proof -
  define w1 where "w1 = with_store (\<lambda>s. remove_bless s p) w"
  define w2 where "w2 = with_store (\<lambda>s. remove_pin s p) w1"
  have "authority_frame p w w1"
    unfolding w1_def by (rule authority_with_store) (rule same_but_remove_bless)
  moreover have "authority_frame p w1 w2"
    unfolding w2_def by (rule authority_with_store) (rule same_but_remove_pin)
  moreover have "authority_frame p w2 (with_store (\<lambda>s. clear_fault s p) w2)"
    by (rule authority_with_store) (rule same_but_clear_fault)
  ultimately show "authority_frame p w (revoke p w)"
    unfolding revoke_def w1_def [symmetric] w2_def [symmetric] by (blast intro: authority_trans)
qed (simp add: revoke_def frame_simps)

lemma revoke_bless:
  assumes "\<not> d_refuse (st_blessed (w_store w)) p" "valid_token p"
  shows "load_bless (w_store (revoke p w)) p = None"
proof -
  let ?s = "ignoring (w_store w) (remove_bless (w_store w) p)"
  obtain d where d: "ignoring ?s (remove_pin ?s p) = ?s\<lparr>st_pinned := d\<rparr>"
    using ignoring_frames(3) [of ?s p] by blast
  obtain d' where d': "ignoring (?s\<lparr>st_pinned := d\<rparr>) (clear_fault (?s\<lparr>st_pinned := d\<rparr>) p)
      = (?s\<lparr>st_pinned := d\<rparr>)\<lparr>st_fault := d'\<rparr>"
    using ignoring_frames(4) [of "?s\<lparr>st_pinned := d\<rparr>" p] by blast
  have "\<exists>s'. remove_bless (w_store w) p = Inr s'"
    unfolding remove_bless_def remove_if_present_def put_blessed_def using assms by simp
  then have "load_bless ?s p = None"
    using load_bless_removed [of "w_store w" p p] by simp
  moreover have "w_store (revoke p w) = (?s\<lparr>st_pinned := d\<rparr>)\<lparr>st_fault := d'\<rparr>"
    unfolding revoke_def with_store_frame(1) d d' by (rule refl)
  ultimately show ?thesis
    by (simp only: reads_frame)
qed

lemma sup_unbless_ok:
  assumes "sup_unbless env p at w = Some (w', a)"
  shows "(\<exists>k ts. apply_cap (e_nft env) (desired_cap_union (w_store w) (Some p)) (w_kernel w) = (Inr ts, k)
            \<and> w' = note_event at ''unbless'' p ''revoked'' (reproject (revoke p (w\<lparr>w_kernel := k\<rparr>)))
            \<and> a = ''OK unbless '' @ p)
       \<or> (\<exists>k e w1. apply_cap (e_nft env) (desired_cap_union (w_store w) (Some p)) (w_kernel w) = (Inl e, k)
            \<and> park p ApplyFail (debug_nft e) at (w\<lparr>w_kernel := k\<rparr>) = Some w1
            \<and> w' = reproject w1 \<and> a = ''ERR apply-failed'')"
proof -
  obtain q k where k: "apply_cap (e_nft env) (desired_cap_union (w_store w) (Some p)) (w_kernel w) = (q, k)"
    by (cases "apply_cap (e_nft env) (desired_cap_union (w_store w) (Some p)) (w_kernel w)")
  then show ?thesis
    using assms by (cases q) (auto simp: sup_unbless_def revoke_def Let_def bind_eq_Some_conv)
qed

lemma sup_unbless_kernel:
  assumes ck: "cap_kernel (e_nft env) elems"
    and run: "sup_unbless env p at w = Some (w', a)"
  shows "fail_closed elems w w'"
  using sup_unbless_ok [OF run]
proof (elim disjE exE conjE)
  fix k ts
  assume k: "apply_cap (e_nft env) (desired_cap_union (w_store w) (Some p)) (w_kernel w) = (Inr ts, k)"
    and w': "w' = note_event at ''unbless'' p ''revoked'' (reproject (revoke p (w\<lparr>w_kernel := k\<rparr>)))"
  have "elems k = set (desired_cap_union (w_store w) (Some p))"
    using cap_kernel.apply_cap_ok [OF ck k] by simp
  moreover have "same_but p (w_store w) (w_store (revoke p (w\<lparr>w_kernel := k\<rparr>)))"
    using revoke_frame(1) [of p "w\<lparr>w_kernel := k\<rparr>"] by (simp add: authority_frame_def)
  ultimately show ?thesis
    using union_mono_removed [of p "w_store w" "w_store (revoke p (w\<lparr>w_kernel := k\<rparr>))"]
    unfolding w' fail_closed_def by (simp add: revoke_frame note_event_frame reproject_frame le_supI2)
next
  fix k e w1
  assume k: "apply_cap (e_nft env) (desired_cap_union (w_store w) (Some p)) (w_kernel w) = (Inl e, k)"
    and w1: "park p ApplyFail (debug_nft e) at (w\<lparr>w_kernel := k\<rparr>) = Some w1" "w' = reproject w1"
  have "elems k \<subseteq> elems (w_kernel w) \<union> set (desired_cap_union (w_store w) (Some p))"
    using cap_kernel.apply_cap_err [OF ck k] by simp
  moreover have "set (desired_cap_union (w_store w) (Some p)) \<subseteq> set (desired_cap_union (w_store w) None)"
    by (rule union_mono_removed) simp
  ultimately show ?thesis
    using same_union_fault [OF w1(1), of None] by (auto simp: w1(2) fail_closed_def frame_simps)
qed

lemma raw_reconcile_kernel:
  assumes ck: "cap_kernel (e_nft env) elems"
    and k: "reconcile_cap (e_nft env) s (w_kernel w) = (q, k)"
  shows "elems k \<subseteq> elems (w_kernel w) \<union> set (desired_cap_union s None)"
    "q = Inr u \<Longrightarrow> elems k = set (desired_cap_union s None)"
  using cap_kernel.reconcile_ok [OF ck, of s "w_kernel w" _ k]
    cap_kernel.reconcile_err [OF ck, of s "w_kernel w" _ k] k
  by (cases q; auto)+

lemma confirmed_add_raw_elim:
  assumes "confirmed_add_raw env d at w = (w', a)"
  obtains (kept) "w' = w" "\<not> str_starts_with a ''OK''"
  | (ran) t s s' n p q k where "parse_raw_triple d = Inr t" "add_raw (w_store w) t = Inr s"
      "resolve_raw (dot_raw_resolver (e_dot env)) s at = (s', n, p)"
      "reconcile_cap (e_nft env) s' (w_kernel w) = (q, k)"
      "w_store w' = s'" "w_kernel w' = k" "str_starts_with a ''OK'' \<longrightarrow> (\<exists>u. q = Inr u)"
      "w_owner w' = w_owner w"
proof (cases "parse_raw_triple d")
  case (Inl e)
  with assms show ?thesis
    by (intro kept) (auto simp: confirmed_add_raw_def str_starts_with_def)
next
  case t: (Inr t)
  show ?thesis
  proof (cases "add_raw (w_store w) t")
    case (Inl e)
    with assms t show ?thesis
      by (intro kept) (auto simp: confirmed_add_raw_def str_starts_with_def)
  next
    case s: (Inr s)
    obtain s' n p where r: "resolve_raw (dot_raw_resolver (e_dot env)) s at = (s', n, p)"
      by (metis prod_cases3)
    obtain q k where k: "reconcile_cap (e_nft env) s' (w_kernel w) = (q, k)"
      by (cases "reconcile_cap (e_nft env) s' (w_kernel w)")
    show ?thesis
      using assms t s r k
      by (intro ran [OF t s r k]; cases q)
        (auto simp: confirmed_add_raw_def Let_def frame_simps str_starts_with_def)
  qed
qed

lemma confirmed_remove_raw_elim:
  assumes "confirmed_remove_raw env d at w = (w', a)"
  obtains (kept) "w' = w" "\<not> str_starts_with a ''OK''"
  | (ran) t s s' n p q k where "parse_raw_triple d = Inr t" "remove_raw (w_store w) t = Inr s"
      "resolve_raw (dot_raw_resolver (e_dot env)) s at = (s', n, p)"
      "reconcile_cap (e_nft env) s' (w_kernel w) = (q, k)"
      "w_store w' = s'" "w_kernel w' = k" "str_starts_with a ''OK'' \<longrightarrow> (\<exists>u. q = Inr u)"
      "w_owner w' = w_owner w"
proof (cases "parse_raw_triple d")
  case (Inl e)
  with assms show ?thesis
    by (intro kept) (auto simp: confirmed_remove_raw_def str_starts_with_def)
next
  case t: (Inr t)
  show ?thesis
  proof (cases "remove_raw (w_store w) t")
    case (Inl e)
    with assms t show ?thesis
      by (intro kept) (auto simp: confirmed_remove_raw_def str_starts_with_def)
  next
    case s: (Inr s)
    obtain s' n p where r: "resolve_raw (dot_raw_resolver (e_dot env)) s at = (s', n, p)"
      by (metis prod_cases3)
    obtain q k where k: "reconcile_cap (e_nft env) s' (w_kernel w) = (q, k)"
      by (cases "reconcile_cap (e_nft env) s' (w_kernel w)")
    show ?thesis
      using assms t s r k
      by (intro ran [OF t s r k]; cases q)
        (auto simp: confirmed_remove_raw_def Let_def frame_simps str_starts_with_def)
  qed
qed

lemma fail_closed_reconcile:
  assumes "cap_kernel (e_nft env) elems" "reconcile_cap (e_nft env) s (w_kernel w) = (q, k)"
    "w_store w' = s" "w_kernel w' = k"
  shows "fail_closed elems w w'"
  using raw_reconcile_kernel(1) [OF assms(1,2)] assms(3,4) by (simp add: fail_closed_def)

lemma converged_reconcile:
  assumes "cap_kernel (e_nft env) elems" "reconcile_cap (e_nft env) s (w_kernel w) = (Inr u, k)"
    "w_store w' = s" "w_kernel w' = k"
  shows "converged elems w'"
  using raw_reconcile_kernel(2) [OF assms(1,2)] assms(3,4) by (simp add: converged_def)

lemma confirmed_manifest_remove_kernel:
  assumes ck: "cap_kernel (e_nft env) elems"
    and run: "confirmed_manifest_remove env n at w = (w', a)"
  shows "fail_closed elems w w' \<and> (str_starts_with a ''OK'' \<longrightarrow> converged elems w')"
proof (cases "remove_owner_manifest (w_owner w) n")
  case (Inl e)
  with run show ?thesis
    by (auto simp: confirmed_manifest_remove_def str_starts_with_def fail_closed_same)
next
  case (Inr ow)
  define w3 where "w3 = revoke n (w\<lparr>w_owner := ow\<rparr>)"
  obtain q k where k: "reconcile_cap (e_nft env) (w_store w3) (w_kernel w3) = (q, k)"
    by (cases "reconcile_cap (e_nft env) (w_store w3) (w_kernel w3)")
  have k3: "w_kernel w3 = w_kernel w" by (simp add: w3_def revoke_frame)
  have fc: "fail_closed elems w (w3\<lparr>w_kernel := k\<rparr>)"
    using k [unfolded k3] by (intro fail_closed_reconcile [OF ck]) auto
  note body = run [unfolded confirmed_manifest_remove_def Let_def Inr sum.case, folded revoke_def, folded w3_def,
      unfolded k prod.case]
  show ?thesis
  proof (cases q)
    case (Inl e)
    with body fc show ?thesis by (auto simp: str_starts_with_def)
  next
    case (Inr u)
    with body fc converged_reconcile [OF ck, of "w_store w3" w u k "w3\<lparr>w_kernel := k\<rparr>"] k [unfolded k3]
    show ?thesis by auto
  qed
qed

lemma confirmed_bless_elems:
  assumes "cap_kernel (e_nft env) elems" "confirmed_bless env p at w = (w', a)"
  shows "elems (w_kernel w') = elems (w_kernel w)"
  using assms(2) cap_kernel.web_elems [OF assms(1)]
  by (auto simp: confirmed_bless_def Let_def frame_simps split: if_splits sum.splits prod.splits)

lemma browser_up_elems:
  assumes "cap_kernel (e_nft env) elems" "browser_up env at w = Some (w', a)"
  shows "elems (w_kernel w') = elems (w_kernel w)"
  using assms(2) cap_kernel.web_elems [OF assms(1)]
  by (auto simp: browser_up_def Let_def frame_simps split: if_splits sum.splits prod.splits bool.splits)

lemma confirmed_unbless_elim:
  assumes "confirmed_unbless env p at w = Some (w', a)"
  obtains (refused) "w' = w" "a = ''ERR not-ceremony-tier''"
  | (failed) e k w1 where "uninstall_browser_rules (e_nft env) (w_kernel w) = (Inl e, k)"
      "park p ApplyFail (debug_nft e) at (w\<lparr>w_kernel := k\<rparr>) = Some w1"
      "w' = reproject w1" "a = ''ERR apply-failed''"
  | (ok) u k where "uninstall_browser_rules (e_nft env) (w_kernel w) = (Inr u, k)"
      "w' = note_event at ''unbless'' p ''revoked'' (reproject
              (with_store (\<lambda>s. clear_fault s p) (with_store (\<lambda>s. remove_bless s p) (w\<lparr>w_kernel := k\<rparr>))))"
      "a = ''OK confirmed-unbless '' @ p"
proof (cases "bless_tier_of p \<noteq> Some TierCeremony")
  case True
  with assms refused show ?thesis by (simp add: confirmed_unbless_def)
next
  case False
  obtain q k where k: "uninstall_browser_rules (e_nft env) (w_kernel w) = (q, k)"
    by (cases "uninstall_browser_rules (e_nft env) (w_kernel w)")
  note body = assms [unfolded confirmed_unbless_def Let_def k prod.case if_not_P [OF False]]
  show ?thesis
  proof (cases q)
    case (Inl e)
    with body obtain w1 where "park p ApplyFail (debug_nft e) at (w\<lparr>w_kernel := k\<rparr>) = Some w1"
        "w' = reproject w1" "a = ''ERR apply-failed''"
      by (auto simp: bind_eq_Some_conv)
    with k Inl show ?thesis by (intro failed [of e k w1]) simp_all
  next
    case (Inr u)
    with body k show ?thesis by (intro ok [of u k]) simp_all
  qed
qed

lemma confirmed_unbless_elems:
  assumes ck: "cap_kernel (e_nft env) elems" and run: "confirmed_unbless env p at w = Some (w', a)"
  shows "elems (w_kernel w') = elems (w_kernel w)"
  using run
proof (cases rule: confirmed_unbless_elim)
  case (failed e k w1)
  then have "w_kernel w' = k"
    using same_union_fault [OF failed(2), of None] by (simp add: reproject_frame)
  then show ?thesis using cap_kernel.uninstall_elems [OF ck failed(1)] by simp
next
  case (ok u k)
  then show ?thesis
    using cap_kernel.uninstall_elems [OF ck ok(1)] by (simp add: frame_simps)
qed simp

lemma confirmed_add_raw_kernel:
  assumes ck: "cap_kernel (e_nft env) elems" and run: "confirmed_add_raw env d at w = (w', a)"
  shows "fail_closed elems w w' \<and> (str_starts_with a ''OK'' \<longrightarrow> converged elems w')"
  using run
proof (cases rule: confirmed_add_raw_elim)
  case (ran t s s' n p q k)
  then show ?thesis
    using fail_closed_reconcile [OF ck ran(4-6)] converged_reconcile [OF ck _ ran(5,6)] by blast
qed (simp add: fail_closed_same)

lemma confirmed_remove_raw_kernel:
  assumes ck: "cap_kernel (e_nft env) elems" and run: "confirmed_remove_raw env d at w = (w', a)"
  shows "fail_closed elems w w' \<and> (str_starts_with a ''OK'' \<longrightarrow> converged elems w')"
  using run
proof (cases rule: confirmed_remove_raw_elim)
  case (ran t s s' n p q k)
  then show ?thesis
    using fail_closed_reconcile [OF ck ran(4-6)] converged_reconcile [OF ck _ ran(5,6)] by blast
qed (simp add: fail_closed_same)

lemma execute_fail_closed:
  assumes ck: "cap_kernel (e_nft env) elems" and run: "execute env r at w = Some (w', a)"
  shows "fail_closed elems w w'"
proof (cases r)
  case (Bless p)
  with run show ?thesis using sup_bless_kernel [OF ck] by (auto simp: execute_def)
next
  case (Repin p)
  with run show ?thesis using sup_bless_kernel [OF ck] by (auto simp: execute_def fail_closed_same split: if_splits)
next
  case (Unbless p)
  with run show ?thesis using sup_unbless_kernel [OF ck] by (simp add: execute_def)
next
  case BrowserUp
  with run show ?thesis using browser_up_elems [OF ck] by (auto simp: execute_def intro: fail_closed_elems)
next
  case (Bind t i)
  with run show ?thesis
    by (auto simp: execute_def do_bind_def Let_def frame_simps fail_closed_same split: sum.splits)
next
  case (Unbind t)
  with run show ?thesis
    by (auto simp: execute_def do_unbind_def Let_def frame_simps fail_closed_same split: sum.splits)
next
  case (Want t)
  with run show ?thesis
    by (auto simp: execute_def do_want_def frame_simps fail_closed_same split: if_splits sum.splits)
next
  case (ConfirmedManifestInstall n)
  with run show ?thesis
    by (auto simp: execute_def confirmed_manifest_install_def frame_simps fail_closed_same
        split: option.splits sum.splits if_splits)
next
  case (ConfirmedManifestRemove n)
  with run show ?thesis using confirmed_manifest_remove_kernel [OF ck] by (auto simp: execute_def)
next
  case (ConfirmedBless p)
  with run show ?thesis using confirmed_bless_elems [OF ck] by (auto simp: execute_def intro: fail_closed_elems)
next
  case (ConfirmedUnbless p)
  with run show ?thesis using confirmed_unbless_elems [OF ck] by (auto simp: execute_def intro: fail_closed_elems)
next
  case (ConfirmedAddRaw d)
  with run show ?thesis using confirmed_add_raw_kernel [OF ck] by (auto simp: execute_def)
next
  case (ConfirmedRemoveRaw d)
  with run show ?thesis using confirmed_remove_raw_kernel [OF ck] by (auto simp: execute_def)
qed (use run in \<open>simp add: execute_def fail_closed_same\<close>)

lemma handle_fail_closed:
  assumes ck: "cap_kernel (e_nft env) elems" and run: "handle env u raw now at w = Some (w', a)"
  shows "fail_closed elems w w'"
  using run
proof (cases rule: handle_elim)
  case (executed r l)
  then show ?thesis
    using execute_fail_closed [OF ck, of r at "w\<lparr>w_limiter := l\<rparr>" w' a] by (simp add: fail_closed_def)
qed (simp_all add: fail_closed_same)

section \<open>Facts: startup\<close>

lemma reconcile_elim:
  assumes "reconcile env at w = Some (w', x)"
  obtains s3 q k1 rb k2 where
      "reconcile_cap (e_nft env) s3 (w_kernel w) = (q, k1)"
      "reconcile_web_browsing (e_nft env) (e_slice env) s3 (w_desktop_uid w) k1 = (rb, k2)"
      "w_store w' = s3" "w_kernel w' = k2" "w_owner w' = w_owner w" "w_sealed w' = w_sealed w"
proof -
  from assms obtain s1 n s2 h where s1: "quarantine_scan (w_store w) (w_catalog w) (w_sealed_catalog w) at = Some (s1, n)"
    and s2: "heal_loop env at 0 (list_bless s1) s1 0 = Some (s2, h)"
    by (auto simp: reconcile_def bind_eq_Some_conv)
  obtain s3 ok pend where s3: "resolve_raw (dot_raw_resolver (e_dot env)) s2 at = (s3, ok, pend)"
    by (metis prod_cases3)
  obtain q k1 where k1: "reconcile_cap (e_nft env) s3 (w_kernel w) = (q, k1)"
    by fastforce
  obtain rb k2 where k2: "reconcile_web_browsing (e_nft env) (e_slice env) s3 (w_desktop_uid w) k1 = (rb, k2)"
    by fastforce
  show ?thesis
    using assms by (intro that [OF k1 k2]) (auto simp: reconcile_def s1 s2 s3 k1 k2 frame_simps)
qed

lemma reconcile_kernel:
  assumes ck: "cap_kernel (e_nft env) elems" and run: "reconcile env at w = Some (w', x)"
  shows "fail_closed elems w w'"
  using run
proof (cases rule: reconcile_elim)
  case (1 s3 q k1 rb k2)
  then have "elems (w_kernel w') = elems k1"
    using cap_kernel.web_elems [OF ck 1(2)] by simp
  then show ?thesis
    using raw_reconcile_kernel(1) [OF ck 1(1)] 1(3) by (auto simp: fail_closed_def)
qed

section \<open>Properties\<close>

text \<open>
  C2: fail closed: whatever request any peer sends, and however the kernel, the resolvers or the
  disk fail on the way, a tuple that is live afterwards was live before or is granted by the store
  as it then is.
\<close>

theorem every_request_fails_closed:
  assumes "cap_kernel (e_nft env) elems" "handle env u raw now at w = Some (w', a)"
  shows "elems (w_kernel w') \<subseteq> elems (w_kernel w) \<union> set (desired_cap_union (w_store w') None)"
  using handle_fail_closed [OF assms] by (simp add: fail_closed_def)

theorem every_request_fails_closed_witness:
  "\<exists>w' a. handle idle_env 1000 ''status'' 0 0 idle_world = Some (w', a)
     \<and> set (mn_elems (w_kernel w')) \<subseteq> set (desired_cap_union (w_store w') None)"
proof -
  obtain a where a: "handle idle_env 1000 ''status'' 0 0 idle_world = Some (idle_world, a)"
    using status_answered [of 1000] by auto
  have "cap_kernel (e_nft idle_env) (\<lambda>k. set (mn_elems k))"
    using mem_cap.cap_kernel_axioms by (simp add: idle_env_def)
  from every_request_fails_closed [OF this a] a show ?thesis by (auto simp: idle_world_def)
qed

definition live_env :: "mem_nft env" where
  "live_env = idle_env\<lparr>e_nft := fixed_run (\<lambda>_. False),
     e_resolve := (\<lambda>i p. Inr ([\<lparr>pin_name = ''api.open-meteo.com'', pin_addr = Ipv4 1 2 3 4\<rparr>], ''9.9.9.9''))\<rparr>"

lemma live_cap: "cap_kernel (e_nft live_env) (\<lambda>k. set (mn_elems k))"
  using fixed_cap.cap_kernel_axioms by (simp add: live_env_def)

lemma live_obliging: "obliging (e_nft live_env) (\<lambda>k. set (mn_elems k))"
  using fixed_obliging by (simp add: live_env_def)

lemma weather_sealed_rule:
  "h \<in> set (sealed_hosts ''weather'') \<Longrightarrow>
     \<exists>r \<in> set WEATHER. rule_host r = h \<and> rule_proto r = Tcp \<and> rule_port r = 443"
  by (auto simp: sealed_hosts_def resolve_weather mk_profile_def WEATHER_def mk_rule_def)

lemma weather_granted:
  assumes "load_bless s ''weather'' \<noteq> None" "load_pin s ''weather'' = Some rec" "p \<in> set (pr_pins rec)"
    "pin_name p \<in> set (sealed_hosts ''weather'')"
  shows "(pin_addr p, Tcp, 443) \<in> set (desired_cap_union s None)"
proof -
  obtain r where "r \<in> set WEATHER" "rule_host r = pin_name p" "rule_proto r = Tcp" "rule_port r = 443"
    using weather_sealed_rule [OF assms(4)] by blast
  then have "cap_grants s ''weather'' (pin_addr p, Tcp, 443)"
    using assms(1-3) by (auto simp: cap_grants_def admits_socket_bless_iff resolve_weather mk_profile_def) metis
  then show ?thesis by (auto simp: desired_cap_union_iff)
qed

text \<open>
  C31: a click goes live: when the resolver answers with addresses of the profile's sealed hosts,
  the two records can be written and the kernel refuses nothing, the bless is answered OK and every
  address is reachable on tcp/443.
\<close>

theorem bless_goes_live:
  assumes "cap_kernel (e_nft env) elems" "obliging (e_nft env) elems"
    "e_resolve env 0 ''weather'' = Inr (pins, rip)" "pin_name ` set pins \<subseteq> set (sealed_hosts ''weather'')"
    "\<not> d_refuse (st_blessed (w_store w)) ''weather''" "\<not> d_refuse (st_pinned (w_store w)) ''weather''"
  shows "\<exists>w'. sup_bless env ''weather'' at False w = Some (w', ''OK bless weather '' @ show_nat (length pins))
    \<and> (\<lambda>p. (pin_addr p, Tcp, 443)) ` set pins \<subseteq> elems (w_kernel w')"
proof -
  let ?r = "\<lparr>br_profile = ''weather'', br_tier = ''one-click'', br_blessed = at\<rparr>"
  let ?pr = "\<lparr>pr_profile = ''weather'', pr_pins = pins, pr_resolved = at\<rparr>"
  have names: "valid_token ''weather''" "valid_token ''one-click''" "is_sealed_profile ''weather''" "\<not> is_broad_profile ''weather''"
    by code_simp+
  obtain s1 where s1: "write_bless (w_store w) ?r = Inr s1" "st_pinned s1 = st_pinned (w_store w)"
    using names assms(5) by (auto simp: write_bless_Inr storable_bless_def atomic_write_Inr)
  obtain s2 where s2: "write_pin s1 ?pr = Inr s2"
    using names assms(4,6) s1(2) by (auto simp: write_pin_Inr storable_pin_def atomic_write_Inr)
  obtain ts k where k: "reconcile_cap (e_nft env) s2 (w_kernel w) = (Inr ts, k)"
    using cap_kernel.apply_cap_obliging [OF assms(1,2)] unfolding reconcile_cap_def by blast
  have w1: "with_store (\<lambda>s. write_bless s ?r) w = w\<lparr>w_store := s1\<rparr>"
    by (simp add: with_store_def s1)
  have run: "sup_bless env ''weather'' at False w
      = Some (note_event at ''bless'' ''weather'' (show_nat (length pins) @ '' ip(s)'')
          (reproject (with_store (\<lambda>s. clear_fault s ''weather'') (w\<lparr>w_store := s2, w_kernel := k\<rparr>))),
          ''OK bless weather '' @ show_nat (length pins))"
    by (simp add: sup_bless_def Let_def w1 assms(3) s2 k)
  have "load_bless s2 ''weather'' \<noteq> None"
    using load_bless_written [OF s1(1)] s2 by (auto simp: write_pin_Inr reads_frame)
  then have "(\<lambda>p. (pin_addr p, Tcp, 443)) ` set pins \<subseteq> set (desired_cap_union s2 None)"
    using weather_granted [OF _ load_pin_written [OF s2, simplified]] assms(4) by auto
  then have "(\<lambda>p. (pin_addr p, Tcp, 443)) ` set pins \<subseteq> elems k"
    using cap_kernel.reconcile_ok [OF assms(1) k] by simp
  then show ?thesis using run by (simp add: frame_simps)
qed

theorem bless_goes_live_witness:
  "\<exists>w' a. sup_bless live_env ''weather'' 3 False idle_world = Some (w', a)
     \<and> (Ipv4 1 2 3 4, Tcp, 443) \<in> set (mn_elems (w_kernel w'))"
proof -
  have "''api.open-meteo.com'' \<in> set (sealed_hosts ''weather'')" by code_simp
  then show ?thesis
    using bless_goes_live [OF live_cap live_obliging, of "[\<lparr>pin_name = ''api.open-meteo.com'', pin_addr = Ipv4 1 2 3 4\<rparr>]"
        "''9.9.9.9''" idle_world 3]
    by (auto simp: live_env_def idle_world_def empty_store_def empty_dir_def)
qed

text \<open>
  a revocation that is answered OK took effect: unless the bless record could not be deleted,
  the profile is no longer blessed, and the live set is exactly what the other grants give.
\<close>

theorem unbless_revokes:
  assumes "cap_kernel (e_nft env) elems" "sup_unbless env p at w = Some (w', a)" "str_starts_with a ''OK''"
    "valid_token p" "\<not> d_refuse (st_blessed (w_store w)) p"
  shows "load_bless (w_store w') p = None
    \<and> elems (w_kernel w') = set (desired_cap_union (w_store w) (Some p))
    \<and> elems (w_kernel w') = set (desired_cap_union (w_store w') None)"
  using sup_unbless_ok [OF assms(2)]
proof (elim disjE exE conjE)
  fix k ts
  assume k: "apply_cap (e_nft env) (desired_cap_union (w_store w) (Some p)) (w_kernel w) = (Inr ts, k)"
    and w': "w' = note_event at ''unbless'' p ''revoked'' (reproject (revoke p (w\<lparr>w_kernel := k\<rparr>)))"
  have none: "load_bless (w_store (revoke p (w\<lparr>w_kernel := k\<rparr>))) p = None"
    by (rule revoke_bless) (simp_all add: assms)
  moreover have "same_but p (w_store w) (w_store (revoke p (w\<lparr>w_kernel := k\<rparr>)))"
    using revoke_frame(1) [of p "w\<lparr>w_kernel := k\<rparr>"] by (simp add: authority_frame_def)
  ultimately show ?thesis
    using cap_kernel.apply_cap_ok [OF assms(1) k] union_removed [of p "w_store w"]
    by (simp add: w' frame_simps revoke_frame)
qed (use assms(3) in \<open>simp add: str_starts_with_def\<close>)

theorem unbless_revokes_witness:
  "\<exists>w' a. sup_unbless live_env ''weather'' 5 idle_world = Some (w', a)
     \<and> load_bless (w_store w') ''weather'' = None"
proof -
  obtain k where k: "apply_cap (e_nft live_env) (desired_cap_union (w_store idle_world) (Some ''weather''))
      (w_kernel idle_world) = (Inr (btree (desired_cap_union (w_store idle_world) (Some ''weather''))), k)"
    using cap_kernel.apply_cap_obliging [OF live_cap live_obliging] by blast
  then obtain w' where w': "sup_unbless live_env ''weather'' 5 idle_world = Some (w', ''OK unbless weather'')"
    by (auto simp: sup_unbless_def Let_def)
  have "valid_token ''weather''" by code_simp
  from unbless_revokes [OF live_cap w' _ this] w' show ?thesis
    by (auto simp: str_starts_with_def idle_world_def empty_store_def empty_dir_def)
qed

lemma empty_store_remove: "\<exists>s'. remove_raw empty_store t = Inr s'"
  unfolding remove_raw_def by (rule empty_store_raw)

lemma live_remove_raw:
  "\<exists>w' a. execute live_env (ConfirmedRemoveRaw (to_wire mail_triple)) 4 idle_world = Some (w', a)
     \<and> str_starts_with a ''OK''"
proof -
  obtain s where "remove_raw empty_store mail_triple = Inr s"
    using empty_store_remove by blast
  then have s: "remove_raw (w_store idle_world) mail_triple = Inr s"
    by (simp only: idle_world_def world.simps)
  obtain s' n q where r: "resolve_raw (dot_raw_resolver (e_dot live_env)) s 4 = (s', n, q)"
    by (metis prod_cases3)
  obtain ts k where k: "reconcile_cap (e_nft live_env) s' (w_kernel idle_world) = (Inr ts, k)"
    using cap_kernel.apply_cap_obliging [OF live_cap live_obliging] unfolding reconcile_cap_def by blast
  show ?thesis
    by (simp add: execute_def confirmed_remove_raw_def parse_to_wire [OF mail_wf] s r k Let_def str_starts_with_def)
qed

text \<open>
  C17: an answer that starts with OK, to a request that reconciles the live set, means that the set
  is exactly what the store grants.
\<close>

theorem ok_means_converged:
  assumes "cap_kernel (e_nft env) elems" "execute env r at w = Some (w', a)" "str_starts_with a ''OK''"
    "r \<in> range Bless \<union> range Repin \<union> range ConfirmedAddRaw \<union> range ConfirmedRemoveRaw \<union> range ConfirmedManifestRemove"
  shows "elems (w_kernel w') = set (desired_cap_union (w_store w') None)"
proof -
  have "converged elems w'"
    using assms sup_bless_kernel [OF assms(1)] confirmed_add_raw_kernel [OF assms(1)]
      confirmed_remove_raw_kernel [OF assms(1)] confirmed_manifest_remove_kernel [OF assms(1)]
    by (auto simp: execute_def str_starts_with_def split: if_splits)
  then show ?thesis by (simp add: converged_def)
qed

theorem ok_means_converged_witness:
  "\<exists>w' a. execute live_env (ConfirmedRemoveRaw (to_wire mail_triple)) 4 idle_world = Some (w', a)
     \<and> set (mn_elems (w_kernel w')) = set (desired_cap_union (w_store w') None)"
  using live_remove_raw ok_means_converged [OF live_cap, of "ConfirmedRemoveRaw (to_wire mail_triple)" 4 idle_world]
  by blast

end
