(* ===== verification/Egress_Startup.thy ===== *)
theory Egress_Startup
  imports Egress_Failclosed
begin

text \<open>
  What the startup pass and the ceremony-commit handlers do to the authority state: the quarantine
  revokes exactly the owner capabilities whose host a sealed manifest now claims, no step stops
  with a panic on ASCII diagnostics, and an accepted installation is a validated manifest.
\<close>

section \<open>The quarantine\<close>

definition quarantined :: "catalog \<Rightarrow> capability_entry \<Rightarrow> bool" where
  "quarantined sealed e \<longleftrightarrow>
     ce_source e = Owner \<and> (\<exists>r \<in> set (m_rules (ce_manifest e)). host_reserved_by_system (hr_host r) sealed)"

definition removals_ok :: "store \<Rightarrow> bool" where
  "removals_ok s \<longleftrightarrow> d_refuse (st_blessed s) = (\<lambda>_. False)"

lemma remove_if_present_refuse: "remove_if_present d k = Inr d' \<Longrightarrow> d_refuse d' = d_refuse d"
  unfolding remove_if_present_def by (auto split: if_split_asm)

lemma remove_bless_refuse:
  "d_refuse (st_blessed (ignoring s (remove_bless s p))) = d_refuse (st_blessed s)"
proof (cases "remove_bless s p")
  case (Inr s')
  then obtain d where "remove_if_present (st_blessed s) p = Inr d" "s' = s\<lparr>st_blessed := d\<rparr>"
    unfolding remove_bless_Inr by blast
  then show ?thesis by (simp add: Inr remove_if_present_refuse)
qed (simp only: ignoring_simps)

lemma load_bless_invalid: "\<not> valid_token p \<Longrightarrow> load_bless s p = None"
  by (simp add: load_bless_def)

lemma removals_ok_bless:
  assumes "removals_ok s"
  shows "load_bless (ignoring s (remove_bless s p)) n = (if n = p then None else load_bless s n)"
proof (cases "valid_token p")
  case True
  then have "\<exists>s'. remove_bless s p = Inr s'"
    unfolding remove_bless_def remove_if_present_def put_blessed_def
    using assms by (simp add: removals_ok_def)
  then show ?thesis by (simp add: load_bless_removed)
next
  case False
  then have "remove_bless s p = Inl (InvalidInput ''invalid profile token'')"
    by (simp add: remove_bless_def)
  then show ?thesis using False by (auto simp: load_bless_invalid)
qed

lemma write_fault_frame:
  assumes "write_fault s n k r at = Some x"
  shows "\<exists>d. ignoring s x = s\<lparr>st_fault := d\<rparr>"
  using assms
  by (cases x) (auto simp: write_fault_def ignoring_def bind_eq_Some_conv res_simps
      intro: exI [of _ "st_fault s"] split: if_splits)

lemma quarantine_entry_bless:
  assumes run: "quarantine_entry sealed at e s = Some (s', k)" and ok: "removals_ok s"
  shows "removals_ok s'"
    "load_bless s' n = (if quarantined sealed e \<and> ce_name e = n then None else load_bless s n)"
proof -
  let ?q = "find (\<lambda>r. host_reserved_by_system (hr_host r) sealed) (m_rules (ce_manifest e))"
  have "removals_ok s'
      \<and> load_bless s' n = (if quarantined sealed e \<and> ce_name e = n then None else load_bless s n)"
  proof (cases "ce_source e = Owner \<and> ?q \<noteq> None")
    case False
    then have "\<not> quarantined sealed e" by (auto simp: quarantined_def find_None_iff)
    moreover have "s' = s"
      using run False by (auto simp: quarantine_entry_def split: if_splits option.splits)
    ultimately show ?thesis using ok by simp
  next
    case True
    then obtain b where b: "?q = Some b" by blast
    then have q: "quarantined sealed e"
      using True by (auto simp: quarantined_def find_Some_iff intro: nth_mem)
    let ?s1 = "ignoring s (remove_bless s (ce_name e))"
    obtain d where d: "ignoring ?s1 (remove_pin ?s1 (ce_name e)) = ?s1\<lparr>st_pinned := d\<rparr>"
      using ignoring_frames(3) [of ?s1 "ce_name e"] by blast
    from run True b obtain x where x: "write_fault (?s1\<lparr>st_pinned := d\<rparr>) (ce_name e) Quarantined
        (''host '' @ quoted (hr_host b) @ '' became reserved by a system update'') at = Some x"
      and s': "s' = ignoring (?s1\<lparr>st_pinned := d\<rparr>) x"
      by (auto simp: quarantine_entry_def d Let_def)
    obtain d' where "s' = (?s1\<lparr>st_pinned := d\<rparr>)\<lparr>st_fault := d'\<rparr>"
      using write_fault_frame [OF x] s' by blast
    then have "load_bless s' n = load_bless ?s1 n" "st_blessed s' = st_blessed ?s1"
      by (simp_all only: reads_frame) simp
    then show ?thesis
      using q ok remove_bless_refuse [of s "ce_name e"] removals_ok_bless [OF ok, of "ce_name e" n]
      by (auto simp: removals_ok_def)
  qed
  then show "removals_ok s'"
    "load_bless s' n = (if quarantined sealed e \<and> ce_name e = n then None else load_bless s n)"
    by blast+
qed

lemma quarantine_loop_bless:
  "quarantine_loop sealed at es s k = Some (s', k') \<Longrightarrow> removals_ok s \<Longrightarrow>
     removals_ok s' \<and> load_bless s' n =
       (if \<exists>e \<in> set es. quarantined sealed e \<and> ce_name e = n then None else load_bless s n)"
proof (induction sealed at es s k rule: quarantine_loop.induct)
  case (2 sealed at e es s k)
  then obtain s1 k1 where e: "quarantine_entry sealed at e s = Some (s1, k1)"
    and es: "quarantine_loop sealed at es s1 (k + k1) = Some (s', k')"
    by (auto simp: bind_eq_Some_conv)
  have "removals_ok s' \<and> load_bless s' n =
       (if \<exists>e \<in> set es. quarantined sealed e \<and> ce_name e = n then None else load_bless s1 n)"
    using 2(1) [OF e refl es] quarantine_entry_bless(1) [OF e 2(3)] by blast
  then show ?case
    using quarantine_entry_bless(2) [OF e 2(3), of n] by auto
qed auto

section \<open>Ceremony installs\<close>

lemma manifest_install_elim:
  assumes "confirmed_manifest_install n at w = (w', a)"
  obtains (refused) "w_owner w' = w_owner w" "\<not> str_starts_with a ''OK''"
  | (ok) body m ow where "read_staged (w_staging w) n = Some body" "parse_manifest body = Inr m"
      "m_name m = n" "validate_owner_install m (w_sealed_catalog w) = Inr ()"
      "write_owner_manifest (w_owner w) n body = Inr ow" "w_owner w' = ow" "w_sealed w' = w_sealed w"
      "w_store w' = w_store w" "w_kernel w' = w_kernel w" "a = ''OK confirmed-manifest-install '' @ n"
proof (cases "str_starts_with a ''OK''")
  case False
  with assms show ?thesis
    by (intro refused) (auto simp: confirmed_manifest_install_def frame_simps str_starts_with_def
        split: option.splits sum.splits if_splits)
next
  case True
  with assms obtain body m ow where
      "read_staged (w_staging w) n = Some body" "parse_manifest body = Inr m"
      "m_name m = n" "validate_owner_install m (w_sealed_catalog w) = Inr ()"
      "write_owner_manifest (w_owner w) n body = Inr ow"
    by (auto simp: confirmed_manifest_install_def str_starts_with_def
        split: option.splits sum.splits if_splits)
  with assms show ?thesis
    by (intro ok [of body m ow]) (auto simp: confirmed_manifest_install_def frame_simps)
qed

lemma read_manifest_written:
  assumes "write_owner_manifest d n body = Inr d'" "parse_manifest body = Inr m"
    "utf8_ok body" "length body \<le> MAX_MANIFEST_BYTES"
  shows "read_manifest d' (manifest_path n) = Some m"
  using assms by (simp add: write_owner_manifest_def read_manifest_def cap_defensive_read_def bounded_read_write)

lemma install_sound:
  assumes run: "confirmed_manifest_install n at w = (w', a)" and ok: "str_starts_with a ''OK''"
  shows "\<exists>m. read_manifest (w_owner w') (manifest_path n) = Some m \<and> wf_manifest m \<and> m_name m = n
    \<and> m_deliver m = DeliverNone \<and> catalog_get (w_sealed_catalog w') n = None
    \<and> (\<forall>r \<in> set (m_rules m). \<not> host_reserved_by_system (hr_host r) (w_sealed_catalog w'))"
  using run
proof (cases rule: manifest_install_elim)
  case refused
  then show ?thesis using ok by simp
next
  case (ok body m ow)
  have len: "length body \<le> MAX_MANIFEST_BYTES \<and> utf8_ok body"
    using ok(1) by (auto simp: read_staged_def cap_defensive_read_def dest: bounded_read_some)
  have "read_manifest (w_owner w') (manifest_path n) = Some m"
    using read_manifest_written [OF ok(5,2)] len ok(6) by simp
  moreover have "wf_manifest m" using ok(2) by (rule parse_manifest_wf)
  ultimately show ?thesis
    using ok(3,4,7) by (auto simp: validate_owner_install_Inr w_sealed_catalog_def)
qed

section \<open>Properties\<close>

text \<open>
  the quarantine revokes the owner capabilities whose host the system now claims, and no others:
  after the scan a name is not blessed exactly when it was not before or belongs to such a capability.
\<close>

theorem quarantine_exact:
  assumes "quarantine_scan s cat sealed at = Some (s', n)" "d_refuse (st_blessed s) = (\<lambda>_. False)"
  shows "load_bless s' name =
    (if \<exists>e. e \<in> set (cat_entries cat) \<and> quarantined sealed e \<and> ce_name e = name then None else load_bless s name)"
  using quarantine_loop_bless [of sealed at "cat_entries cat" s 0 s' n name] assms
  by (auto simp: quarantine_scan_def removals_ok_def)

theorem quarantine_exact_witness:
  "\<exists>s' n. quarantine_scan empty_store empty_catalog empty_catalog 3 = Some (s', n)
     \<and> load_bless s' ''weather'' = load_bless empty_store ''weather''"
proof -
  have q: "quarantine_scan empty_store empty_catalog empty_catalog 3 = Some (empty_store, 0)"
    by (simp add: quarantine_scan_def empty_catalog_def)
  have "d_refuse (st_blessed empty_store) = (\<lambda>_. False)" by (simp add: empty_store_def empty_dir_def)
  from quarantine_exact [OF q this] q show ?thesis by (auto simp: empty_catalog_def)
qed

text \<open>
  what a ceremony installs is what it may: after an OK, the owner directory holds under that
  name a manifest that parses, is well formed, is not for delivery to the hosts file, shadows no
  sealed capability and names no host of the sealed system; otherwise the directory is unchanged.
\<close>

theorem install_only_valid:
  assumes "confirmed_manifest_install n at w = (w', a)"
  shows "if str_starts_with a ''OK''
    then (\<exists>m. read_manifest (w_owner w') (manifest_path n) = Some m \<and> m_name m = n \<and> wf_manifest m
          \<and> validate_owner_install m (w_sealed_catalog w') = Inr ())
    else w_owner w' = w_owner w"
proof (cases "str_starts_with a ''OK''")
  case True
  show ?thesis
    using install_sound [OF assms True] True by (auto simp: validate_owner_install_Inr)
next
  case False
  from assms show ?thesis
  proof (cases rule: manifest_install_elim)
    case (ok body m ow)
    then show ?thesis using False by (simp add: str_starts_with_def)
  qed (simp add: False)
qed

definition mail_manifest :: manifest where
  "mail_manifest = \<lparr>m_name = ''mail'', m_title = ''Mail'', m_purpose = ''Fetch mail'', m_feature = ''mail'',
     m_tier = Ceremony, m_deliver = DeliverNone,
     m_rules = [\<lparr>hr_host = ''mail.example.org'', hr_proto = Tcp, hr_port = 993\<rparr>]\<rparr>"

lemma mail_parses: "parse_manifest (render_manifest mail_manifest) = Inr mail_manifest"
  by (rule parse_render_manifest) code_simp+

lemma mail_render: "utf8_ok (render_manifest mail_manifest)" "length (render_manifest mail_manifest) \<le> MAX_MANIFEST_BYTES"
proof -
  have "\<forall>c \<in> set (render_manifest mail_manifest). c < CHR 0x80" by code_simp
  then show "utf8_ok (render_manifest mail_manifest)" by (rule utf8_ok_ascii)
  have "length (render_manifest mail_manifest) < 200" by code_simp
  then show "length (render_manifest mail_manifest) \<le> MAX_MANIFEST_BYTES" by (simp add: MAX_MANIFEST_BYTES_def)
qed

definition staged_world :: "mem_nft world" where
  "staged_world = idle_world\<lparr>w_staging := empty_dir\<lparr>d_files := [(manifest_path ''mail'', render_manifest mail_manifest)]\<rparr>\<rparr>"

lemma mail_valid: "validate_owner_install mail_manifest empty_catalog = Inr ()"
  by code_simp

lemma staged_installs:
  "\<exists>w'. confirmed_manifest_install ''mail'' 3 staged_world = (w', ''OK confirmed-manifest-install mail'')"
proof -
  have "read_staged (w_staging staged_world) ''mail'' = Some (render_manifest mail_manifest)"
    using mail_render by (simp add: read_staged_def cap_defensive_read_def bounded_read_def dir_content_def staged_world_def)
  moreover have "w_sealed_catalog staged_world = empty_catalog"
    by (simp add: w_sealed_catalog_def staged_world_def idle_world_def load_sealed_catalog_def read_manifest_dir_def
        manifest_names_def empty_dir_def build_catalog_def empty_catalog_def List.map_filter_simps)
  moreover have "\<exists>ow. write_owner_manifest (w_owner staged_world) ''mail'' (render_manifest mail_manifest) = Inr ow"
    by (simp add: write_owner_manifest_def staged_world_def idle_world_def atomic_write_def empty_dir_def)
  moreover have "m_name mail_manifest = ''mail''" by (simp add: mail_manifest_def)
  ultimately show ?thesis
    using mail_valid by (auto simp: confirmed_manifest_install_def mail_parses)
qed

theorem install_only_valid_witness:
  "\<exists>w'. confirmed_manifest_install ''mail'' 3 staged_world = (w', ''OK confirmed-manifest-install mail'')
     \<and> (\<exists>m. read_manifest (w_owner w') (manifest_path ''mail'') = Some m)"
proof -
  obtain w' where w': "confirmed_manifest_install ''mail'' 3 staged_world = (w', ''OK confirmed-manifest-install mail'')"
    using staged_installs by blast
  show ?thesis using install_only_valid [OF w'] w' by (auto simp: str_starts_with_def)
qed

end
