(* ===== verification/Egress_System.thy ===== *)
theory Egress_System
  imports Egress_Startup
begin

text \<open>
  The daemon over time: its start and the connections it serves, one after another, as a step
  relation on its world (the loop of \<open>serve\<close> in \<open>crates/egressd/src/supervisor.rs\<close>), and what holds of
  every state it reaches.
\<close>

section \<open>Steps and runs\<close>

text \<open>
  A step is the start-up pass or one connection.  The environment may change from step to step (the
  network, the slices, the answers of the resolvers); the contract of the kernel does not.
\<close>

inductive daemon_step :: "('k \<Rightarrow> cap_tuple set) \<Rightarrow> u32 set \<Rightarrow> 'k world \<Rightarrow> 'k world \<Rightarrow> bool"
  for elems peers where
  boot: "cap_kernel (e_nft env) elems \<Longrightarrow> reconcile env at w = Some (w', x) \<Longrightarrow> daemon_step elems peers w w'"
| conn: "cap_kernel (e_nft env) elems \<Longrightarrow> u \<in> peers \<Longrightarrow> serve_conn env u evs now at w = Some (w', a) \<Longrightarrow>
    daemon_step elems peers w w'"

inductive_cases daemon_stepE: "daemon_step elems peers w w'"

text \<open>A run with the worlds it went through, the last one first.\<close>

inductive daemon_run :: "('k \<Rightarrow> cap_tuple set) \<Rightarrow> u32 set \<Rightarrow> 'k world \<Rightarrow> 'k world list \<Rightarrow> bool"
  for elems peers w0 where
  start: "daemon_run elems peers w0 [w0]"
| more: "daemon_run elems peers w0 (w # ws) \<Longrightarrow> daemon_step elems peers w w' \<Longrightarrow>
    daemon_run elems peers w0 (w' # w # ws)"

lemma serve_conn_handle:
  assumes "serve_conn env u evs now at w = Some (w', a)"
  shows "w' = w \<or> (\<exists>l. handle env u l now at w = Some (w', a))"
  using assms by (auto simp: serve_conn_def split: sum.splits)

section \<open>The kernel never holds what was never granted\<close>

lemma daemon_step_fail_closed: "daemon_step elems peers w w' \<Longrightarrow> fail_closed elems w w'"
proof (elim daemon_stepE)
  fix env u evs now at a
  assume ck: "cap_kernel (e_nft env) elems" and run: "serve_conn env u evs now at w = Some (w', a)"
  from serve_conn_handle [OF run] show ?thesis
    using handle_fail_closed [OF ck] by (auto simp: fail_closed_same)
qed (rule reconcile_kernel)

lemma run_granted:
  assumes "daemon_run elems peers w0 ws"
  shows "elems (w_kernel (hd ws)) \<subseteq>
    elems (w_kernel w0) \<union> (\<Union>w \<in> set ws. set (desired_cap_union (w_store w) None))"
  using assms
proof (induction rule: daemon_run.induct)
  case (more w ws w')
  then show ?case
    using daemon_step_fail_closed [OF more.hyps(2)] by (auto simp: fail_closed_def)
qed auto

section \<open>Without a ceremony\<close>

text \<open>What a request of the desktop user leaves of the grants: the pins of one profile may change,
  the raw destinations may not.\<close>

definition tls_port :: "cap_tuple \<Rightarrow> bool" where
  "tls_port t \<longleftrightarrow> fst (snd t) = Tcp \<and> snd (snd t) = 443"

lemma cap_grants_tls: "cap_grants s n t \<Longrightarrow> tls_port t"
  by (auto simp: cap_grants_def admits_socket_bless_iff resolve_weather mk_profile_def WEATHER_def
      mk_rule_def tls_port_def)

lemma union_tls: "t \<in> set (desired_cap_union s x) \<Longrightarrow> tls_port t \<or> raw_grants s t"
  unfolding desired_cap_union_iff using cap_grants_tls by blast

lemma serve_nonroot_raw:
  assumes "serve_conn env u evs now at w = Some (w', a)" "u \<noteq> 0"
  shows "raw_grants (w_store w') = raw_grants (w_store w)"
  using serve_conn_handle [OF assms(1)]
proof
  assume "\<exists>l. handle env u l now at w = Some (w', a)"
  then obtain l where l: "handle env u l now at w = Some (w', a)" by blast
  have "same_but ''weather'' (w_store w) (w_store w')"
    using handle_nonroot [OF l assms(2)] by (simp add: authority_frame_def)
  then show ?thesis using same_but_grants(2) by blast
qed simp

inductive desktop_run :: "('k \<Rightarrow> cap_tuple set) \<Rightarrow> 'k world \<Rightarrow> 'k world \<Rightarrow> bool" for elems w0 where
  start: "desktop_run elems w0 w0"
| conn: "desktop_run elems w0 w \<Longrightarrow> cap_kernel (e_nft env) elems \<Longrightarrow> u \<noteq> 0 \<Longrightarrow>
    serve_conn env u evs now at w = Some (w', a) \<Longrightarrow> desktop_run elems w0 w'"

lemma desktop_run_raw: "desktop_run elems w0 w \<Longrightarrow> raw_grants (w_store w) = raw_grants (w_store w0)"
  by (induction rule: desktop_run.induct) (auto dest: serve_nonroot_raw)

lemma desktop_run_kernel:
  "desktop_run elems w0 w \<Longrightarrow> t \<in> elems (w_kernel w) \<Longrightarrow>
     t \<in> elems (w_kernel w0) \<or> tls_port t \<or> raw_grants (w_store w0) t"
proof (induction arbitrary: t rule: desktop_run.induct)
  case (conn w env u evs now at w' a)
  have "daemon_step elems {u} w w'"
    using conn.hyps(2,4) by (intro daemon_step.conn) auto
  then have "t \<in> elems (w_kernel w) \<or> t \<in> set (desired_cap_union (w_store w') None)"
    using daemon_step_fail_closed conn.prems by (fastforce simp: fail_closed_def)
  then show ?case
    using conn.IH union_tls desktop_run_raw [OF conn.hyps(1)] serve_nonroot_raw [OF conn.hyps(4,3)]
    by metis
qed simp

section \<open>Properties\<close>

text \<open>
  C16: over any run of the daemon, starts and connections of any peers in any order, the live set
  holds only what it held at the beginning or what the store granted at some moment of the run.
\<close>

theorem live_set_was_granted:
  assumes "daemon_run elems peers w0 ws"
  shows "elems (w_kernel (hd ws)) \<subseteq>
    elems (w_kernel w0) \<union> (\<Union>w \<in> set ws. set (desired_cap_union (w_store w) None))"
  using assms by (rule run_granted)

lemma status_served:
  "\<exists>a. serve_conn idle_env 1000 [Piece (''status'' @ [nl])] now at idle_world = Some (idle_world, a)"
proof -
  have "read_request [Piece (''status'' @ [nl])] REQ_MAX = Inr ''status''"
    unfolding read_request_iff by (auto simp: REQ_MAX_def REQ_MAX_PRIV_def intro!: utf8_ok_graphic simp: is_graphic_def)
  then show ?thesis
    using status_answered [of 1000 now at] by (simp add: serve_conn_def)
qed

lemma idle_cap: "cap_kernel (e_nft idle_env) (\<lambda>k. set (mn_elems k))"
  using mem_cap.cap_kernel_axioms by (simp add: idle_env_def)

theorem live_set_was_granted_witness:
  "\<exists>ws. length ws = 2 \<and> daemon_run (\<lambda>k. set (mn_elems k)) {1000} idle_world ws
     \<and> set (mn_elems (w_kernel (hd ws))) \<subseteq> (\<Union>w \<in> set ws. set (desired_cap_union (w_store w) None))"
proof -
  obtain a where "serve_conn idle_env 1000 [Piece (''status'' @ [nl])] 0 0 idle_world = Some (idle_world, a)"
    using status_served by blast
  then have run: "daemon_run (\<lambda>k. set (mn_elems k)) {1000} idle_world [idle_world, idle_world]"
    by (intro daemon_run.intros daemon_step.conn [OF idle_cap]) auto
  have "set (mn_elems (w_kernel idle_world)) = {}" by (simp add: idle_world_def)
  with live_set_was_granted [OF run] run show ?thesis
    by (intro exI [of _ "[idle_world, idle_world]"]) simp
qed

text \<open>
  C1: without the root peer no run opens anything but tcp/443: starting from any world, however
  many connections of non-root peers are served, every live tuple was live before, is on tcp/443, or
  is one of the raw destinations a ceremony had already put in the store.
\<close>

theorem desktop_opens_only_tls:
  assumes "desktop_run elems w0 w"
  shows "elems (w_kernel w) \<subseteq> elems (w_kernel w0) \<union> {t. fst (snd t) = Tcp \<and> snd (snd t) = 443}
    \<union> {t. raw_grants (w_store w0) t}"
  using desktop_run_kernel [OF assms] by (auto simp: tls_port_def)


theorem desktop_opens_only_tls_witness:
  "\<exists>w a. serve_conn idle_env 1000 [Piece (''status'' @ [nl])] 0 0 idle_world = Some (w, a)
     \<and> set (mn_elems (w_kernel w)) \<subseteq> {t. fst (snd t) = Tcp \<and> snd (snd t) = 443} \<union> {t. raw_grants empty_store t}"
proof -
  obtain a where a: "serve_conn idle_env 1000 [Piece (''status'' @ [nl])] 0 0 idle_world = Some (idle_world, a)"
    using status_served by blast
  have run: "desktop_run (\<lambda>k. set (mn_elems k)) idle_world idle_world"
    by (rule desktop_run.conn [OF desktop_run.start idle_cap _ a]) simp
  have "set (mn_elems (w_kernel idle_world)) = {}" "w_store idle_world = empty_store"
    by (simp_all add: idle_world_def)
  with desktop_opens_only_tls [OF run] a show ?thesis by (intro exI [of _ idle_world] exI [of _ a]) simp
qed

end
