(* ===== verification/Gate_Egress.thy ===== *)
theory Gate_Egress
  imports Bench_Workshop Egress_Client Egress_System
begin

text \<open>
  The desktop egress ceremony across the two daemons: \<open>gatekeeperd\<close> checks a request, asks the human
  and relays the approved operation through the client, which \<open>egressd\<close> parses and carries out.
\<close>

fun op_confirmed :: "op \<Rightarrow> request" where
  "op_confirmed (BlessProfile p) = ConfirmedBless p"
| "op_confirmed (UnblessProfile p) = ConfirmedUnbless p"
| "op_confirmed (AddRaw t) = ConfirmedAddRaw t"
| "op_confirmed (RemoveRaw t) = ConfirmedRemoveRaw t"
| "op_confirmed (ManifestInstall n t) = ConfirmedManifestInstall n"
| "op_confirmed (ManifestRemove n) = ConfirmedManifestRemove n"

lemma capability_token_valid: "valid_capability_token n \<Longrightarrow> length n \<le> 64 \<Longrightarrow> valid_token n"
proof -
  assume v: "valid_capability_token n" "length n \<le> 64"
  have b: "host_byte c \<Longrightarrow> token_byte c \<and> c \<noteq> CHR ''.''" for c
    by (auto simp: host_byte_def token_byte_def is_alnum_def) (simp_all add: is_lower_def is_digit_def less_eq_char_def)
  have l: "list_all host_byte n" "n \<noteq> []" using v(1) by (simp_all add: valid_capability_token_def)
  then obtain a r where n: "n = a # r" "host_byte a" by (cases n) simp_all
  have "list_all token_byte n" using l(1) b by (auto simp: list_all_iff)
  moreover have "a \<noteq> CHR ''.''" using b [OF n(2)] by simp
  ultimately show ?thesis
    using v(2) by (simp add: valid_token_def n(1) str_starts_with_def)
qed

lemma manifest_precheck_Inr:
  assumes "manifest_install_precheck name (Some text) = Inr plan"
  obtains m where "parse_manifest text = Inr m" "m_name m = name" "valid_capability_token name" "m_deliver m \<noteq> DeliverHosts"
    "list_ex (\<lambda>r. is_system_reserved_host (hr_host r)) (m_rules m) = False"
    "ap_kind plan = DesktopEgress (ManifestInstall name text)
       (toggle_warning # map storage_warning (filter is_storage_host (map hr_host (m_rules m))))"
    "(\<lambda>r. (''Reaches'', hr_host r @ '' '' @ proto_label (hr_proto r) @ ''/'' @ show_uint (hr_port r))) ` set (m_rules m)
       \<subseteq> set (ap_rows plan)"
    "ap_bench plan = name"
proof -
  have v: "valid_capability_token name"
    using assms by (cases "valid_capability_token name") (simp_all add: manifest_install_precheck_def)
  from assms v obtain m where m: "parse_manifest text = Inr m"
    by (cases "parse_manifest text") (simp_all add: manifest_install_precheck_def)
  have n: "m_name m = name" using assms v m by (cases "m_name m = name") (simp_all add: manifest_install_precheck_def)
  have d: "m_deliver m \<noteq> DeliverHosts"
    using assms v m n by (cases "m_deliver m = DeliverHosts") (simp_all add: manifest_install_precheck_def)
  have r: "list_ex (\<lambda>r. is_system_reserved_host (hr_host r)) (m_rules m) = False"
    using assms v m n d by (cases "list_ex (\<lambda>r. is_system_reserved_host (hr_host r)) (m_rules m)")
      (simp_all add: manifest_install_precheck_def)
  have p: "plan = desktop_egress_plan (ManifestInstall name text) name
       ([(''Capability'', name), (''Title'', m_title m), (''Purpose'', m_purpose m),
         (''Feature'', m_feature m), (''Tier'', cap_tier_str (m_tier m))]
        @ map (\<lambda>r. (''Reaches'', hr_host r @ '' '' @ proto_label (hr_proto r) @ ''/'' @ show_uint (hr_port r))) (m_rules m))
       False (toggle_warning # map storage_warning (filter is_storage_host (map hr_host (m_rules m))))"
    using assms v m n d r unfolding manifest_install_precheck_def by simp
  show ?thesis
    by (rule that [OF m n v d r])
      (unfold p desktop_egress_plan_def authority_plan.select_convs set_append set_map,
       rule refl, rule Un_upper2, rule refl)
qed

lemma manifest_precheck_None: "manifest_install_precheck name None \<noteq> Inr plan"
  by (simp add: manifest_install_precheck_def)

lemma desktop_precheck_wf:
  assumes "desktop_precheck verb rest = Inr plan" "ap_kind plan = DesktopEgress op ws"
    and "length (ap_bench plan) \<le> 64 \<or> (\<exists>t. op = AddRaw t \<or> op = RemoveRaw t)"
  shows "wf_request (op_confirmed op) \<and> request_args (op_confirmed op) = [snd (op_request op)]
    \<and> verb_of (op_confirmed op) = fst (op_request op) \<and> is_privileged (op_confirmed op)"
proof -
  let ?a = "case rest of [] \<Rightarrow> [] | a # _ \<Rightarrow> a"
  have web: "valid_token ''web-browsing''" by code_simp
  consider (profile) "bless_tier_of ?a = Some TierCeremony" "op = BlessProfile ?a \<or> op = UnblessProfile ?a"
    | (raw) t where "parse_raw_triple ?a = Inr t" "op = AddRaw (to_wire t) \<or> op = RemoveRaw (to_wire t)"
    | (install) body where "manifest_install_precheck ?a (Some body) = Inr plan"
    | (remove) "valid_capability_token ?a" "op = ManifestRemove ?a" "ap_bench plan = ?a"
    using assms(1,2) unfolding desktop_precheck_def Let_def
    by (auto simp: desktop_egress_plan_def manifest_precheck_None split: if_splits sum.splits list.splits)
  then show ?thesis
  proof cases
    case profile
    then show ?thesis using web by (auto simp: bless_tier_ceremony_iff op_request_def)
  next
    case (raw t)
    then show ?thesis using parse_raw_triple_wf [OF raw(1)] by (auto simp: op_request_def)
  next
    case (install body)
    then obtain m where "valid_capability_token ?a" "op = ManifestInstall ?a body" "ap_bench plan = ?a"
      using assms(2) by (elim manifest_precheck_Inr) auto
    then show ?thesis using capability_token_valid assms(3) by (auto simp: op_request_def)
  next
    case remove
    then show ?thesis using capability_token_valid assms(3) by (auto simp: op_request_def)
  qed
qed



text \<open>
  A capability name longer than 64 bytes passes the check, is shown to the human, and can then never
  be carried out: the client refuses to build the line (the grammar of capability names has no bound,
  the token grammar of client and daemon has).
\<close>

theorem long_names_fail_after_consent:
  assumes "valid_capability_token name" "64 < length name"
  shows "desktop_precheck ''manifest-remove'' [name]
       = Inr (desktop_egress_plan (ManifestRemove name) name [(''Capability'', name)] False [])
    \<and> build_line ''confirmed-manifest-remove'' (Some name) None = Inl ''invalid capability name''
    \<and> parse_request (str_join [sp] [''confirmed-manifest-remove'', name]) \<noteq> Inr (ConfirmedManifestRemove name)"
proof -
  have n: "name \<noteq> []" using assms(2) by auto
  have "\<not> valid_token name" using assms(2) by (simp add: valid_token_def)
  then have "parse_request raw \<noteq> Inr (ConfirmedManifestRemove name)" for raw
    by (auto elim!: parse_request_elim)
  moreover have "\<not> valid_client_token name" using assms(2) by (simp add: valid_client_token_def)
  ultimately show ?thesis
    using n assms(1) by (simp add: desktop_precheck_def build_line_def token_line_def)
qed

theorem long_names_fail_after_consent_witness:
  "build_line ''confirmed-manifest-remove'' (Some (replicate 65 (CHR ''a''))) None = Inl ''invalid capability name''"
proof -
  have "valid_capability_token (replicate 65 (CHR ''a''))" by code_simp
  moreover have "64 < length (replicate 65 (CHR ''a''))" by simp
  ultimately show ?thesis using long_names_fail_after_consent by blast
qed


lemma mail_checks: "valid_capability_token ''mail''"
  "list_ex (\<lambda>r. is_system_reserved_host (hr_host r)) (m_rules mail_manifest) = False"
  "m_name mail_manifest = ''mail''" "m_deliver mail_manifest = DeliverNone"
  by code_simp+


end
