(* ===== verification/Policy_Swamp.thy ===== *)
theory Policy_Swamp
  imports Policy_Egress
begin

text \<open>
  The sealed indexable-domain table of \<open>crates/shrek-policy/src/swamp.rs\<close>: the read ceiling with
  intersection as its only composition, the component-wise membership test and the human-only
  exclusion that no membership can defeat.  Paths are \<open>$HOME\<close>-relative strings.
\<close>

section \<open>Ceilings\<close>

record domain_ceiling =
  dc_discover :: bool
  dc_read :: bool
  dc_search :: bool

definition RO_SEARCH :: domain_ceiling where
  "RO_SEARCH = \<lparr>dc_discover = True, dc_read = True, dc_search = True\<rparr>"

definition CEILING_NONE :: domain_ceiling where
  "CEILING_NONE = \<lparr>dc_discover = False, dc_read = False, dc_search = False\<rparr>"

definition ceiling_intersect :: "domain_ceiling \<Rightarrow> domain_ceiling \<Rightarrow> domain_ceiling" where
  "ceiling_intersect a b =
     \<lparr>dc_discover = (dc_discover a \<and> dc_discover b), dc_read = (dc_read a \<and> dc_read b),
      dc_search = (dc_search a \<and> dc_search b)\<rparr>"

definition ceiling_is_none :: "domain_ceiling \<Rightarrow> bool" where
  "ceiling_is_none c \<longleftrightarrow> \<not> dc_discover c \<and> \<not> dc_read c \<and> \<not> dc_search c"

text \<open>The narrowing order: every verb the left grants, the right grants.\<close>

definition ceiling_le :: "domain_ceiling \<Rightarrow> domain_ceiling \<Rightarrow> bool" where
  "ceiling_le a b \<longleftrightarrow> (dc_discover a \<longrightarrow> dc_discover b) \<and> (dc_read a \<longrightarrow> dc_read b)
     \<and> (dc_search a \<longrightarrow> dc_search b)"

section \<open>The sealed table\<close>

record indexable_domain =
  id_name :: string
  id_members :: "string list"
  id_ceiling :: domain_ceiling
  id_semantic :: bool

definition mk_domain :: "string \<Rightarrow> string list \<Rightarrow> domain_ceiling \<Rightarrow> bool \<Rightarrow> indexable_domain" where
  "mk_domain n ms c s = \<lparr>id_name = n, id_members = ms, id_ceiling = c, id_semantic = s\<rparr>"

definition INDEXABLE_DOMAINS :: "indexable_domain list" where
  "INDEXABLE_DOMAINS =
     [mk_domain ''projects'' [''Projects''] RO_SEARCH True,
      mk_domain ''documents'' [''Documents''] RO_SEARCH True,
      mk_domain ''downloads'' [''Downloads''] RO_SEARCH False]"

definition NEVER_INDEXABLE :: "string list" where
  "NEVER_INDEXABLE = [''Vault'', ''.ssh'', ''.gnupg'', ''Identity'', ''.shrek'']"

interpretation domains: sealed_table INDEXABLE_DOMAINS id_name
  by unfold_locales (simp add: INDEXABLE_DOMAINS_def mk_domain_def)

section \<open>Lookups\<close>

definition components :: "string \<Rightarrow> string list" where
  "components rel = filter (\<lambda>c. c \<noteq> [] \<and> c \<noteq> ''.'') (str_split (CHR ''/'') rel)"

text \<open>The loop of \<open>member_prefixes\<close>: each member component must match the next path component.\<close>

fun prefix_loop :: "string list \<Rightarrow> string list \<Rightarrow> bool" where
  "prefix_loop [] r = True"
| "prefix_loop (m # ms) [] = False"
| "prefix_loop (m # ms) (c # r) = (if c = m then prefix_loop ms r else False)"

definition member_prefixes :: "string \<Rightarrow> string \<Rightarrow> bool" where
  "member_prefixes member rel = prefix_loop (components member) (components rel)"

definition resolve_domain :: "string \<Rightarrow> indexable_domain option" where
  "resolve_domain name = row_find id_name INDEXABLE_DOMAINS name"

definition is_never_indexable :: "string \<Rightarrow> bool" where
  "is_never_indexable rel = list_ex (\<lambda>c. List.member NEVER_INDEXABLE c) (components rel)"

definition domain_for :: "string \<Rightarrow> indexable_domain option" where
  "domain_for rel =
     (if is_never_indexable rel then None
      else find (\<lambda>d. list_ex (\<lambda>m. member_prefixes m rel) (id_members d)) INDEXABLE_DOMAINS)"

definition is_indexable :: "string \<Rightarrow> bool" where
  "is_indexable rel = (domain_for rel \<noteq> None)"

section \<open>Facts\<close>

lemma prefix_loop_iff: "prefix_loop ms r \<longleftrightarrow> (\<exists>t. r = ms @ t)"
  by (induction ms r rule: prefix_loop.induct) auto

lemma components_noslash: "CHR ''/'' \<notin> set s \<Longrightarrow> s \<noteq> [] \<Longrightarrow> s \<noteq> ''.'' \<Longrightarrow> components s = [s]"
  by (simp add: components_def)

lemma components_members:
  "components ''Projects'' = [''Projects'']" "components ''Documents'' = [''Documents'']"
  "components ''Downloads'' = [''Downloads'']"
  by (simp_all add: components_noslash)

lemma components_extend:
  assumes "CHR ''/'' \<notin> set s"
  shows "components (p @ ''/'' @ s) = components p @ (if s = [] \<or> s = ''.'' then [] else [s])"
proof -
  have "str_split (CHR ''/'') (p @ CHR ''/'' # s) = str_split (CHR ''/'') p @ [s]"
    using assms by (induction p) (auto simp: neq_Nil_conv split: list.splits)
  then show ?thesis by (simp add: components_def)
qed

lemma domain_for_iff:
  "domain_for rel \<noteq> None \<longleftrightarrow>
     (\<forall>c \<in> set (components rel). c \<notin> {''Vault'', ''.ssh'', ''.gnupg'', ''Identity'', ''.shrek''})
     \<and> (\<exists>c t. components rel = c # t \<and> c \<in> {''Projects'', ''Documents'', ''Downloads''})"
proof -
  have never: "is_never_indexable rel \<longleftrightarrow>
      (\<exists>c \<in> set (components rel). c \<in> {''Vault'', ''.ssh'', ''.gnupg'', ''Identity'', ''.shrek''})"
    by (simp add: is_never_indexable_def list_ex_iff NEVER_INDEXABLE_def List.member_iff)
  have "find (\<lambda>d. list_ex (\<lambda>m. member_prefixes m rel) (id_members d)) INDEXABLE_DOMAINS \<noteq> None
      \<longleftrightarrow> (\<exists>c t. components rel = c # t \<and> c \<in> {''Projects'', ''Documents'', ''Downloads''})"
    by (auto simp: find_None_iff INDEXABLE_DOMAINS_def mk_domain_def member_prefixes_def
        components_members prefix_loop_iff)
  then show ?thesis
    unfolding domain_for_def never by (simp del: find_None_iff)
qed

section \<open>Properties\<close>

text \<open>
  what the indexer may index, exactly: a path whose first component is one of the three sealed
  member directories and that passes through none of the secret directories, at any depth.
\<close>

theorem indexable_iff:
  "is_indexable rel \<longleftrightarrow>
     set (components rel) \<inter> {''Vault'', ''.ssh'', ''.gnupg'', ''Identity'', ''.shrek''} = {}
     \<and> (\<exists>c t. components rel = c # t \<and> c \<in> {''Projects'', ''Documents'', ''Downloads''})"
  unfolding is_indexable_def domain_for_iff disjoint_iff Ball_def by (rule refl)

end
