(* ===== verification/Swamp_Index.thy ===== *)
theory Swamp_Index
  imports Rust_Text Policy_Swamp
begin

text \<open>
  The store of \<open>swampd\<close> (\<open>swampd/src/index.rs\<close>): the tables of its database as lists of rows, each SQL
  statement as the update it makes, and the two scoped queries.

  A new row of a table with an integer key gets the largest key plus one, as SQLite allocates it.
  Deleting objects deletes their chunks and deleting chunks deletes their vectors (foreign keys are
  on).  A database that cannot be written makes every statement that changes it fail (\<open>ix_writable\<close>); a
  result \<open>None\<close> is that error and leaves the tables as they were.  What the full-text engine matches and
  how it ranks is a parameter, as is the floating point arithmetic of the processor: a 32 bit float is
  its bit pattern.
\<close>

section \<open>Tables\<close>

record object_record =
  ob_path :: string
  ob_dev :: u64
  ob_ino :: u64
  ob_size :: u64
  ob_mtime :: u64
  ob_domain :: string
  ob_is_dir :: bool

record chunk_row =
  ck_id :: int
  ck_object :: int
  ck_ordinal :: int
  ck_start :: nat
  ck_end :: nat
  ck_hash :: string
  ck_text :: string

record vector_row =
  vr_chunk :: int
  vr_vec :: string
  vr_version :: string

record index =
  ix_meta :: "(string \<times> string) list"
  ix_objects :: "(int \<times> object_record) list"
  ix_fts :: "(int \<times> string) list"
  ix_chunks :: "chunk_row list"
  ix_vectors :: "vector_row list"
  ix_writable :: bool

definition SCHEMA_VERSION :: string where "SCHEMA_VERSION = ''4''"

definition put_meta :: "string \<Rightarrow> string \<Rightarrow> index \<Rightarrow> index" where
  "put_meta k v ix = ix\<lparr>ix_meta := (k, v) # filter (\<lambda>e. fst e \<noteq> k) (ix_meta ix)\<rparr>"

definition get_meta :: "index \<Rightarrow> string \<Rightarrow> string option" where
  "get_meta ix k = map_of (ix_meta ix) k"

definition enforce_schema_version :: "index \<Rightarrow> index option" where
  "enforce_schema_version ix =
     (let stored = get_meta ix ''schema_version'' in
      if stored = Some SCHEMA_VERSION then Some ix
      else if \<not> ix_writable ix then None
      else
        let ix1 = (if stored = None then ix
                   else ix\<lparr>ix_vectors := [], ix_chunks := [], ix_fts := [], ix_objects := []\<rparr>)
        in Some (put_meta ''schema_version'' SCHEMA_VERSION ix1))"

section \<open>Rows\<close>

definition next_id :: "int list \<Rightarrow> int" where
  "next_id ids = (if ids = [] then 1 else Max (set ids) + 1)"

text \<open>The cascades.\<close>

definition drop_chunks :: "(chunk_row \<Rightarrow> bool) \<Rightarrow> index \<Rightarrow> index" where
  "drop_chunks P ix =
     ix\<lparr>ix_chunks := filter (\<lambda>c. \<not> P c) (ix_chunks ix),
        ix_vectors := filter (\<lambda>v. vr_chunk v \<notin> ck_id ` {c \<in> set (ix_chunks ix). P c}) (ix_vectors ix)\<rparr>"

definition drop_objects :: "(int \<times> object_record \<Rightarrow> bool) \<Rightarrow> index \<Rightarrow> index" where
  "drop_objects P ix =
     (let gone = fst ` {r \<in> set (ix_objects ix). P r} in
      drop_chunks (\<lambda>c. ck_object c \<in> gone)
        (ix\<lparr>ix_objects := filter (\<lambda>r. \<not> P r) (ix_objects ix),
            ix_fts := filter (\<lambda>t. fst t \<notin> gone) (ix_fts ix)\<rparr>))"

definition object_id :: "index \<Rightarrow> string \<Rightarrow> int option" where
  "object_id ix path = map_option fst (find (\<lambda>r. ob_path (snd r) = path) (ix_objects ix))"

definition upsert_object :: "index \<Rightarrow> object_record \<Rightarrow> (int \<times> index) option" where
  "upsert_object ix ob =
     (if \<not> ix_writable ix then None
      else case object_id ix (ob_path ob) of
        Some i \<Rightarrow>
          Some (i, ix\<lparr>ix_objects := map (\<lambda>r. if fst r = i then (i, ob) else r) (ix_objects ix)\<rparr>)
      | None \<Rightarrow>
          let i = next_id (map fst (ix_objects ix))
          in Some (i, ix\<lparr>ix_objects := ix_objects ix @ [(i, ob)]\<rparr>))"

definition clear_fts :: "index \<Rightarrow> int \<Rightarrow> index option" where
  "clear_fts ix i =
     (if ix_writable ix then Some (ix\<lparr>ix_fts := filter (\<lambda>t. fst t \<noteq> i) (ix_fts ix)\<rparr>) else None)"

definition set_fts :: "index \<Rightarrow> int \<Rightarrow> string \<Rightarrow> index option" where
  "set_fts ix i t =
     (if ix_writable ix
      then Some (ix\<lparr>ix_fts := filter (\<lambda>t. fst t \<noteq> i) (ix_fts ix) @ [(i, t)]\<rparr>) else None)"

definition meta_for :: "index \<Rightarrow> string \<Rightarrow> (u64 \<times> u64) option" where
  "meta_for ix path =
     map_option (\<lambda>r. (ob_mtime (snd r), ob_size (snd r)))
       (find (\<lambda>r. ob_path (snd r) = path) (ix_objects ix))"

definition delete_path :: "index \<Rightarrow> string \<Rightarrow> (bool \<times> index) option" where
  "delete_path ix path =
     (case object_id ix path of
        None \<Rightarrow> Some (False, ix)
      | Some i \<Rightarrow> if ix_writable ix then Some (True, drop_objects (\<lambda>r. fst r = i) ix) else None)"

definition at_or_below :: "string \<Rightarrow> string \<Rightarrow> bool" where
  "at_or_below path p \<longleftrightarrow> path = p \<or> str_starts_with path (p @ ''/'')"

definition delete_subtree :: "index \<Rightarrow> string \<Rightarrow> (nat \<times> index) option" where
  "delete_subtree ix p =
     (if ix_writable ix
      then Some (length (filter (\<lambda>r. at_or_below (ob_path (snd r)) p) (ix_objects ix)),
                 drop_objects (\<lambda>r. at_or_below (ob_path (snd r)) p) ix)
      else None)"

definition prune_absent :: "index \<Rightarrow> string list \<Rightarrow> (nat \<times> index) option" where
  "prune_absent ix live =
     (let stale = filter (\<lambda>r. ob_path (snd r) \<notin> set live) (ix_objects ix) in
      if stale = [] then Some (0, ix)
      else if ix_writable ix then Some (length stale, drop_objects (\<lambda>r. ob_path (snd r) \<notin> set live) ix)
      else None)"

section \<open>Vectors\<close>

text \<open>A vector is stored as the little-endian bytes of its floats; a trailing partial float is dropped.\<close>

definition le_bytes :: "u32 \<Rightarrow> string" where
  "le_bytes w = map (\<lambda>k. char_of (unat (drop_bit (8 * k) w) mod 256)) [0, 1, 2, 3]"

definition le_word :: "string \<Rightarrow> u32" where
  "le_word b = word_of_nat (foldr (\<lambda>c n. of_char c + 256 * n) b 0)"

definition vec_to_blob :: "u32 list \<Rightarrow> string" where
  "vec_to_blob v = concat (map le_bytes v)"

fun blob_to_vec :: "string \<Rightarrow> u32 list" where
  "blob_to_vec (a # b # c # d # r) = le_word [a, b, c, d] # blob_to_vec r"
| "blob_to_vec _ = []"

record f32_ops =
  f_add :: "u32 \<Rightarrow> u32 \<Rightarrow> u32"
  f_mul :: "u32 \<Rightarrow> u32 \<Rightarrow> u32"
  f_div :: "u32 \<Rightarrow> u32 \<Rightarrow> u32"
  f_sqrt :: "u32 \<Rightarrow> u32"
  f_gt :: "u32 \<Rightarrow> u32 \<Rightarrow> bool"
  f_is_zero :: "u32 \<Rightarrow> bool"

text \<open>The bit patterns of \<open>-1.0\<close> and \<open>f32::MIN\<close>.\<close>

definition F32_MINUS_ONE :: u32 where "F32_MINUS_ONE = 0xBF800000"
definition F32_MIN :: u32 where "F32_MIN = 0xFF7FFFFF"

definition cosine :: "f32_ops \<Rightarrow> u32 list \<Rightarrow> u32 list \<Rightarrow> u32" where
  "cosine f a b =
     (if length a \<noteq> length b then F32_MINUS_ONE
      else
        let (dot, na, nb) =
              fold (\<lambda>(x, y) (d, p, q).
                  (f_add f d (f_mul f x y), f_add f p (f_mul f x x), f_add f q (f_mul f y y)))
                (zip a b) (0, 0, 0)
        in if f_is_zero f na \<or> f_is_zero f nb then F32_MINUS_ONE
           else f_div f dot (f_mul f (f_sqrt f na) (f_sqrt f nb)))"

record chunk_vec =
  cv_ordinal :: int
  cv_start :: nat
  cv_end :: nat
  cv_hash :: string
  cv_text :: string
  cv_vec :: "u32 list"

definition semantic_version :: "index \<Rightarrow> string option" where
  "semantic_version ix = get_meta ix ''semantic_version''"

definition reconcile_semantic_version :: "index \<Rightarrow> string \<Rightarrow> (bool \<times> index) option" where
  "reconcile_semantic_version ix sv =
     (let stored = semantic_version ix in
      if stored = Some sv then Some (False, ix)
      else if \<not> ix_writable ix then None
      else Some (stored \<noteq> None, put_meta ''semantic_version'' sv (ix\<lparr>ix_vectors := [], ix_chunks := []\<rparr>)))"

definition object_chunk_signature :: "index \<Rightarrow> int \<Rightarrow> string list" where
  "object_chunk_signature ix i =
     map ck_hash (sort_key ck_ordinal (filter (\<lambda>c. ck_object c = i) (ix_chunks ix)))"

definition clear_object_vectors :: "index \<Rightarrow> int \<Rightarrow> index option" where
  "clear_object_vectors ix i = (if ix_writable ix then Some (drop_chunks (\<lambda>c. ck_object c = i) ix) else None)"

text \<open>One chunk: refused when the object is gone or already has a chunk of that ordinal.\<close>

definition insert_chunk :: "int \<Rightarrow> string \<Rightarrow> chunk_vec \<Rightarrow> index \<Rightarrow> index option" where
  "insert_chunk i sv c ix =
     (if i \<notin> fst ` set (ix_objects ix)
        \<or> list_ex (\<lambda>r. ck_object r = i \<and> ck_ordinal r = cv_ordinal c) (ix_chunks ix) then None
      else
        let k = next_id (map ck_id (ix_chunks ix))
        in Some (ix\<lparr>ix_chunks := ix_chunks ix @
                      [\<lparr>ck_id = k, ck_object = i, ck_ordinal = cv_ordinal c, ck_start = cv_start c,
                        ck_end = cv_end c, ck_hash = cv_hash c, ck_text = cv_text c\<rparr>],
                    ix_vectors := ix_vectors ix @
                      [\<lparr>vr_chunk = k, vr_vec = vec_to_blob (cv_vec c), vr_version = sv\<rparr>]\<rparr>))"

text \<open>The rows written before a refused one stay.\<close>

fun insert_chunks :: "int \<Rightarrow> string \<Rightarrow> chunk_vec list \<Rightarrow> index \<Rightarrow> index" where
  "insert_chunks i sv [] ix = ix"
| "insert_chunks i sv (c # cs) ix =
     (case insert_chunk i sv c ix of None \<Rightarrow> ix | Some ix' \<Rightarrow> insert_chunks i sv cs ix')"

definition replace_object_vectors :: "index \<Rightarrow> int \<Rightarrow> string \<Rightarrow> chunk_vec list \<Rightarrow> index option" where
  "replace_object_vectors ix i sv cs =
     (if ix_writable ix then Some (insert_chunks i sv cs (drop_chunks (\<lambda>c. ck_object c = i) ix)) else None)"

section \<open>Queries\<close>

datatype intent = Discover | Search

record hit =
  hit_path :: string
  hit_snippet :: string

text \<open>The scope predicate and the domain predicate, over a row.\<close>

definition scope_predicate :: "string list \<Rightarrow> object_record \<Rightarrow> bool" where
  "scope_predicate grants ob = list_ex (\<lambda>g. at_or_below (ob_path ob) (utf8_lossy g)) grants"

definition domain_predicate :: "string list \<Rightarrow> object_record \<Rightarrow> bool" where
  "domain_predicate doms ob = List.member doms (ob_domain ob)"

definition visible :: "string list \<Rightarrow> string list \<Rightarrow> object_record \<Rightarrow> bool" where
  "visible grants doms ob \<longleftrightarrow> scope_predicate grants ob \<and> domain_predicate doms ob"

text \<open>
  The full-text engine: for the terms and the whole text table, the matching rows in rank order with
  their snippets, or an error (the terms are not a query of its language).
\<close>

type_synonym fts_engine = "string \<Rightarrow> (int \<times> string) list \<Rightarrow> (int \<times> string) list option"

definition query ::
  "fts_engine \<Rightarrow> index \<Rightarrow> intent \<Rightarrow> string \<Rightarrow> string list \<Rightarrow> string list \<Rightarrow> nat \<Rightarrow> hit list option" where
  "query eng ix it terms grants doms limit =
     (if grants = [] \<or> doms = [] \<or> terms = [] then Some []
      else case it of
        Search \<Rightarrow>
          map_option
            (\<lambda>ms. take limit (List.map_filter
                (\<lambda>(i, s). case map_of (ix_objects ix) i of
                   Some ob \<Rightarrow> if visible grants doms ob then Some \<lparr>hit_path = ob_path ob, hit_snippet = s\<rparr> else None
                 | None \<Rightarrow> None) ms))
            (eng terms (ix_fts ix))
      | Discover \<Rightarrow>
          Some (take limit (map (\<lambda>ob. \<lparr>hit_path = ob_path ob, hit_snippet = []\<rparr>)
            (sort_key ob_path (filter
               (\<lambda>ob. visible grants doms ob
                  \<and> str_contains (map ascii_lower (ob_path ob)) (map ascii_lower terms))
               (map snd (ix_objects ix)))))))"

definition ellipsis :: string where "ellipsis = [CHR 0xE2, CHR 0x80, CHR 0xA6]"

definition snippet_of :: "string \<Rightarrow> string" where
  "snippet_of t =
     (let s = str_trim t; cs = utf8_chars s in
      if length cs \<le> 120 then s else concat (take 120 cs) @ ellipsis)"

text \<open>The candidates of a semantic query: the vectors of the version whose object is visible.\<close>

definition semantic_rows :: "index \<Rightarrow> string \<Rightarrow> string list \<Rightarrow> string list \<Rightarrow> (string \<times> string \<times> string) list" where
  "semantic_rows ix sv grants doms =
     List.map_filter
       (\<lambda>v. case find (\<lambda>c. ck_id c = vr_chunk v) (ix_chunks ix) of
          None \<Rightarrow> None
        | Some c \<Rightarrow>
            (case map_of (ix_objects ix) (ck_object c) of
               None \<Rightarrow> None
             | Some ob \<Rightarrow>
                 if visible grants doms ob \<and> vr_version v = sv
                 then Some (ob_path ob, ck_text c, vr_vec v) else None))
       (ix_vectors ix)"

text \<open>The best chunk of each path; a score that is not greater (or not a number) replaces nothing.\<close>

definition keep_best ::
  "f32_ops \<Rightarrow> u32 list \<Rightarrow> string \<times> string \<times> string \<Rightarrow> (string \<times> u32 \<times> string) list \<Rightarrow> (string \<times> u32 \<times> string) list" where
  "keep_best f q row best =
     (let (path, txt, blob) = row;
          score = cosine f q (blob_to_vec blob);
          old = (case map_of best path of Some e \<Rightarrow> e | None \<Rightarrow> (F32_MIN, []));
          new = (if f_gt f score (fst old) then (score, txt) else old)
      in AList.update path new best)"

text \<open>Descending score, then ascending path; a comparison without an answer counts as equal.\<close>

definition ranked_before :: "f32_ops \<Rightarrow> string \<times> u32 \<times> string \<Rightarrow> string \<times> u32 \<times> string \<Rightarrow> bool" where
  "ranked_before f a b \<longleftrightarrow>
     f_gt f (fst (snd a)) (fst (snd b)) \<or> (\<not> f_gt f (fst (snd b)) (fst (snd a)) \<and> fst a \<le> fst b)"

fun insert_ranked where
  "insert_ranked f x [] = [x]"
| "insert_ranked f x (y # ys) = (if ranked_before f x y then x # y # ys else y # insert_ranked f x ys)"

definition semantic_query ::
  "f32_ops \<Rightarrow> index \<Rightarrow> u32 list \<Rightarrow> string \<Rightarrow> string list \<Rightarrow> string list \<Rightarrow> nat \<Rightarrow> hit list" where
  "semantic_query f ix q sv grants doms limit =
     (if grants = [] \<or> doms = [] \<or> q = [] then []
      else
        let best = fold (keep_best f q) (semantic_rows ix sv grants doms) [];
            ranked = foldr (insert_ranked f) best []
        in map (\<lambda>(path, _, txt). \<lparr>hit_path = path, hit_snippet = snippet_of txt\<rparr>) (take limit ranked))"

end
