(* ===== verification/Swamp_Embed.thy ===== *)
theory Swamp_Embed
  imports Swamp_Index
begin

text \<open>
  The semantic tier of \<open>swampd\<close> (\<open>swampd/src/embed.rs\<close>): the deterministic chunker, its content hash,
  the identity of a backend and the frames exchanged with the embedding proxy.  The connection to the
  proxy is a parameter: the bytes answered to a request, or an I/O error.
\<close>

section \<open>The content hash\<close>

definition lower_hex :: "nat \<Rightarrow> char" where
  "lower_hex n = (if n < 10 then char_of (48 + n) else char_of (87 + n))"

definition fnv_step :: "char \<Rightarrow> u64 \<Rightarrow> u64" where
  "fnv_step b h = xor h (word_of_nat (of_char b)) * 0x100000001b3"

definition fnv1a :: "string \<Rightarrow> u64" where
  "fnv1a s = fold fnv_step s 0xcbf29ce484222325"

definition fnv1a_hex :: "string \<Rightarrow> string" where
  "fnv1a_hex s = map (\<lambda>k. lower_hex (unat (drop_bit (4 * (15 - k)) (fnv1a s)) mod 16)) [0..<16]"

section \<open>Chunks\<close>

definition CHUNK_CHARS :: nat where "CHUNK_CHARS = 1200"
definition OVERLAP_CHARS :: nat where "OVERLAP_CHARS = 150"

record chunk =
  ch_ordinal :: int
  ch_start :: nat
  ch_end :: nat
  ch_text :: string
  ch_hash :: string

text \<open>The byte offset of a character boundary.\<close>

definition bound_at :: "string list \<Rightarrow> nat \<Rightarrow> nat" where
  "bound_at cs k = length (concat (take k cs))"

definition mk_chunk :: "string list \<Rightarrow> int \<Rightarrow> nat \<Rightarrow> nat \<Rightarrow> chunk" where
  "mk_chunk cs ordinal s e =
     (let slice = concat (take (e - s) (drop s cs)) in
      \<lparr>ch_ordinal = ordinal, ch_start = bound_at cs s, ch_end = bound_at cs e, ch_text = slice,
       ch_hash = fnv1a_hex slice\<rparr>)"

function chunk_loop :: "string list \<Rightarrow> nat \<Rightarrow> int \<Rightarrow> chunk list" where
  "chunk_loop cs start ordinal =
     (if start < length cs then
        let e = min (start + CHUNK_CHARS) (length cs) in
        mk_chunk cs ordinal start e
        # (if e = length cs then [] else chunk_loop cs (start + (CHUNK_CHARS - OVERLAP_CHARS)) (ordinal + 1))
      else [])"
  by pat_completeness auto
termination
  by (relation "measure (\<lambda>(cs, start, _). length cs - start)")
    (auto simp: CHUNK_CHARS_def OVERLAP_CHARS_def)

declare chunk_loop.simps [simp del]

definition chunk_text :: "string \<Rightarrow> chunk list" where
  "chunk_text t = (if str_trim t = [] then [] else chunk_loop (utf8_chars t) 0 0)"

section \<open>Backends\<close>

datatype embed_error = Unavailable | DimMismatch u32 u32

record backend_identity =
  bi_provider :: string
  bi_model :: string
  bi_dim :: u32
  bi_version :: u32

definition semantic_version_of :: "backend_identity \<Rightarrow> string" where
  "semantic_version_of b =
     bi_provider b @ ''|'' @ bi_model b @ ''|'' @ show_uint (bi_dim b) @ ''|'' @ show_uint (bi_version b)"

definition encode_request :: "string list \<Rightarrow> string" where
  "encode_request cs =
     le_bytes (word_of_nat (length cs)) @ concat (map (\<lambda>c. le_bytes (word_of_nat (length c)) @ c) cs)"

definition decode_response :: "string \<Rightarrow> nat \<Rightarrow> u32 \<Rightarrow> (embed_error, u32 list list) result" where
  "decode_response resp n dim =
     (if length resp < 5 then Inl Unavailable
      else if resp ! 0 \<noteq> CHR 0x01 then Inl Unavailable
      else
        let got = le_word (take 4 (drop 1 resp)) in
        if got \<noteq> dim then Inl (DimMismatch got dim)
        else if length resp \<noteq> 5 + n * unat dim * 4 then Inl Unavailable
        else Inr (map (\<lambda>k. blob_to_vec (take (4 * unat dim) (drop (5 + k * (4 * unat dim)) resp))) [0..<n]))"

definition socket_embed ::
  "(string \<Rightarrow> string option) \<Rightarrow> backend_identity \<Rightarrow> string list \<Rightarrow> (embed_error, u32 list list) result" where
  "socket_embed proxy b cs =
     (if cs = [] then Inr []
      else case proxy (encode_request cs) of
        None \<Rightarrow> Inl Unavailable
      | Some resp \<Rightarrow> decode_response resp (length cs) (bi_dim b))"

text \<open>What enrichment and queries use of a backend.\<close>

record sem_ctx =
  sx_embed :: "string list \<Rightarrow> (embed_error, u32 list list) result"
  sx_version :: string

definition embed_query :: "sem_ctx \<Rightarrow> string \<Rightarrow> u32 list option" where
  "embed_query ctx terms =
     (case sx_embed ctx [terms] of Inr (v # _) \<Rightarrow> Some v | _ \<Rightarrow> None)"

definition socket_ctx :: "(string \<Rightarrow> string option) \<Rightarrow> backend_identity \<Rightarrow> sem_ctx" where
  "socket_ctx proxy b = \<lparr>sx_embed = socket_embed proxy b, sx_version = semantic_version_of b\<rparr>"

end
