(* ===== verification/Swamp_Crawl.thy ===== *)
theory Swamp_Crawl
  imports Swamp_Embed
begin

text \<open>
  The map builder of \<open>swampd\<close> (\<open>swampd/src/crawl.rs\<close>) and the watch table it arms on its way
  (\<open>swampd/src/watch.rs\<close>).  The file tree seen by a walk is a value \<open>node\<close>: what \<open>symlink_metadata\<close>
  answers at a path, the content of a file (\<open>None\<close> when it cannot be read) and the entries of a
  directory (\<open>None\<close> when it cannot be listed).  The tree does not change during one walk; what changes
  between two operations is a new tree.  Arming a watch is a parameter: the descriptor, or an error.
\<close>

section \<open>The file tree\<close>

record file_stat =
  sm_dev :: u64
  sm_ino :: u64
  sm_size :: u64
  sm_mtime :: u64

datatype node =
    NFile file_stat "string option"
  | NDir file_stat "(string \<times> node) list option"
  | NLink bool
  | NOther file_stat

definition is_dir :: "node \<Rightarrow> bool" where
  "is_dir n \<longleftrightarrow> (case n of NDir _ _ \<Rightarrow> True | _ \<Rightarrow> False)"

definition is_link :: "node \<Rightarrow> bool" where
  "is_link n \<longleftrightarrow> (case n of NLink _ \<Rightarrow> True | _ \<Rightarrow> False)"

definition stat_of :: "node \<Rightarrow> file_stat option" where
  "stat_of n = (case n of NFile s _ \<Rightarrow> Some s | NDir s _ \<Rightarrow> Some s | NOther s \<Rightarrow> Some s | NLink _ \<Rightarrow> None)"

text \<open>\<open>Path::exists\<close> follows a link; a dangling one does not exist.\<close>

definition exists_at :: "node option \<Rightarrow> bool" where
  "exists_at n = (case n of None \<Rightarrow> False | Some (NLink target) \<Rightarrow> target | Some _ \<Rightarrow> True)"

section \<open>Watches\<close>

record watcher =
  wt_wds :: "(int \<times> string) list"
  wt_degraded :: bool
  wt_broken :: bool

definition new_watcher :: watcher where
  "new_watcher = \<lparr>wt_wds = [], wt_degraded = False, wt_broken = False\<rparr>"

definition healthy :: "watcher \<Rightarrow> bool" where
  "healthy w \<longleftrightarrow> \<not> wt_degraded w \<and> \<not> wt_broken w"

definition reset_health :: "watcher \<Rightarrow> watcher" where
  "reset_health w = w\<lparr>wt_degraded := False\<rparr>"

definition arm_dir :: "(string \<Rightarrow> int option) \<Rightarrow> string \<Rightarrow> watcher \<Rightarrow> watcher" where
  "arm_dir arm dir w =
     (if CHR 0x00 \<in> set dir then w\<lparr>wt_degraded := True\<rparr>
      else case arm dir of
        None \<Rightarrow> w\<lparr>wt_degraded := True\<rparr>
      | Some wd \<Rightarrow> w\<lparr>wt_wds := (wd, dir) # filter (\<lambda>e. fst e \<noteq> wd) (wt_wds w)\<rparr>)"

section \<open>One object\<close>

definition PRUNE_DIRS :: "string list" where
  "PRUNE_DIRS =
     [''node_modules'', ''target'', ''.git'', ''.cache'', ''.cargo'', ''Steam'', ''.venv'', ''__pycache__'']"

definition MAX_FTS_BYTES :: u64 where "MAX_FTS_BYTES = 512 * 1024"

record stats =
  ss_objects :: nat
  ss_texts :: nat
  ss_pruned :: nat
  ss_skipped_never :: nat
  ss_deleted :: nat

definition no_stats :: stats where
  "no_stats = \<lparr>ss_objects = 0, ss_texts = 0, ss_pruned = 0, ss_skipped_never = 0, ss_deleted = 0\<rparr>"

definition accumulate :: "stats \<Rightarrow> stats \<Rightarrow> stats" where
  "accumulate a b =
     \<lparr>ss_objects = ss_objects a + ss_objects b, ss_texts = ss_texts a + ss_texts b,
      ss_pruned = ss_pruned a + ss_pruned b, ss_skipped_never = ss_skipped_never a + ss_skipped_never b,
      ss_deleted = ss_deleted a + ss_deleted b\<rparr>"

definition extract_text :: "string option \<Rightarrow> string option" where
  "extract_text content =
     (case content of
        None \<Rightarrow> None
      | Some b \<Rightarrow> if CHR 0x00 \<in> set b \<or> \<not> utf8_ok b then None else Some b)"

text \<open>A statement whose error is dropped.\<close>

definition or_keep :: "index \<Rightarrow> index option \<Rightarrow> index" where
  "or_keep ix r = (case r of None \<Rightarrow> ix | Some ix' \<Rightarrow> ix')"

definition enrich_semantic ::
  "sem_ctx \<Rightarrow> int \<Rightarrow> indexable_domain \<Rightarrow> string \<Rightarrow> index \<Rightarrow> index" where
  "enrich_semantic ctx i dm t ix =
     (if \<not> id_semantic dm then or_keep ix (clear_object_vectors ix i)
      else
        let cs = chunk_text t in
        if cs = [] then or_keep ix (clear_object_vectors ix i)
        else if object_chunk_signature ix i = map ch_hash cs then ix
        else case sx_embed ctx (map ch_text cs) of
          Inl _ \<Rightarrow> ix
        | Inr vs \<Rightarrow>
            if length vs = length cs
            then or_keep ix (replace_object_vectors ix i (sx_version ctx)
                   (map (\<lambda>(c, v). \<lparr>cv_ordinal = ch_ordinal c, cv_start = ch_start c, cv_end = ch_end c,
                       cv_hash = ch_hash c, cv_text = ch_text c, cv_vec = v\<rparr>) (zip cs vs)))
            else ix)"

definition reembed_if_vectors_missing ::
  "sem_ctx \<Rightarrow> int \<Rightarrow> indexable_domain \<Rightarrow> string option \<Rightarrow> index \<Rightarrow> index" where
  "reembed_if_vectors_missing ctx i dm content ix =
     (if \<not> id_semantic dm then or_keep ix (clear_object_vectors ix i)
      else if object_chunk_signature ix i = [] then
        (case extract_text content of Some t \<Rightarrow> enrich_semantic ctx i dm t ix | None \<Rightarrow> ix)
      else ix)"

text \<open>The removal of a stale record, counted when it was there.\<close>

definition retract :: "index \<Rightarrow> string \<Rightarrow> stats \<Rightarrow> stats \<times> index" where
  "retract ix key st =
     (case delete_path ix key of
        None \<Rightarrow> (st, ix)
      | Some (there, ix') \<Rightarrow> (st\<lparr>ss_deleted := ss_deleted st + (if there then 1 else 0)\<rparr>, ix'))"

text \<open>The text of a mapped file: kept, set, or cleared with the vectors.\<close>

definition enrich_file ::
  "sem_ctx option \<Rightarrow> indexable_domain \<Rightarrow> file_stat \<Rightarrow> string option \<Rightarrow> bool \<Rightarrow> int \<Rightarrow> stats \<Rightarrow> index \<Rightarrow> stats \<times> index" where
  "enrich_file sem dm sm content unchanged i st ix =
     (if sm_size sm \<le> MAX_FTS_BYTES then
        (if unchanged then
           (st\<lparr>ss_texts := ss_texts st + 1\<rparr>,
            case sem of None \<Rightarrow> ix | Some ctx \<Rightarrow> reembed_if_vectors_missing ctx i dm content ix)
         else case extract_text content of
           Some t \<Rightarrow>
             let (st1, ix1) = (case set_fts ix i t of
                   Some ix' \<Rightarrow> (st\<lparr>ss_texts := ss_texts st + 1\<rparr>, ix') | None \<Rightarrow> (st, ix))
             in (st1, case sem of None \<Rightarrow> ix1 | Some ctx \<Rightarrow> enrich_semantic ctx i dm t ix1)
         | None \<Rightarrow>
             let ix1 = or_keep ix (clear_fts ix i) in (st, or_keep ix1 (clear_object_vectors ix1 i)))
      else
        let ix1 = or_keep ix (clear_fts ix i) in (st, or_keep ix1 (clear_object_vectors ix1 i)))"

definition map_object ::
  "sem_ctx option \<Rightarrow> string \<Rightarrow> indexable_domain \<Rightarrow> node \<Rightarrow> file_stat \<Rightarrow> index \<Rightarrow> stats \<times> index" where
  "map_object sem key dm n sm ix =
     (let unchanged = (meta_for ix key = Some (sm_mtime sm, sm_size sm));
          ob = \<lparr>ob_path = key, ob_dev = sm_dev sm, ob_ino = sm_ino sm, ob_size = sm_size sm,
                ob_mtime = sm_mtime sm, ob_domain = id_name dm, ob_is_dir = is_dir n\<rparr>
      in case upsert_object ix ob of
           None \<Rightarrow> (no_stats, ix)
         | Some (i, ix1) \<Rightarrow>
             let st = no_stats\<lparr>ss_objects := 1\<rparr> in
             (case n of
                NFile _ content \<Rightarrow> enrich_file sem dm sm content unchanged i st ix1
              | _ \<Rightarrow> (st, ix1)))"

definition pruned_name :: "string \<Rightarrow> bool" where
  "pruned_name path =
     (case path_file_name path of
        None \<Rightarrow> False
      | Some name \<Rightarrow> List.member PRUNE_DIRS (utf8_lossy name))"

definition index_object ::
  "string \<Rightarrow> sem_ctx option \<Rightarrow> string \<Rightarrow> node option \<Rightarrow> index \<Rightarrow> stats \<times> index" where
  "index_object home sem path found ix =
     (let key = utf8_lossy path in
      case found of
        None \<Rightarrow> retract ix key no_stats
      | Some n \<Rightarrow>
          (case stat_of n of
             None \<Rightarrow> retract ix key no_stats
           | Some sm \<Rightarrow>
               (case path_rel path home of
                  None \<Rightarrow> (no_stats, ix)
                | Some comps \<Rightarrow>
                    let rel = utf8_lossy (str_join ''/'' comps) in
                    if is_never_indexable rel then retract ix key (no_stats\<lparr>ss_skipped_never := 1\<rparr>)
                    else if is_dir n \<and> pruned_name path then (no_stats\<lparr>ss_pruned := 1\<rparr>, ix)
                    else case domain_for rel of
                      None \<Rightarrow> retract ix key no_stats
                    | Some dm \<Rightarrow> map_object sem key dm n sm ix)))"

section \<open>The walk\<close>

text \<open>
  The state of a walk: the store, the watcher, the live paths and the counts.  A directory is mapped
  and armed before its entries are read; links are never followed.
\<close>

type_synonym walk_state = "index \<times> watcher \<times> string list \<times> stats"

definition map_one ::
  "string \<Rightarrow> sem_ctx option \<Rightarrow> string \<Rightarrow> node \<Rightarrow> walk_state \<Rightarrow> bool \<times> walk_state" where
  "map_one home sem path n s =
     (let (ix, w, live, st) = s;
          (out, ix') = index_object home sem path (Some n) ix;
          mapped = (ss_objects out \<noteq> 0)
      in (mapped, ix', w, if mapped then live @ [utf8_lossy path] else live, accumulate st out))"

definition arm_here :: "(string \<Rightarrow> int option) \<Rightarrow> string \<Rightarrow> walk_state \<Rightarrow> walk_state" where
  "arm_here arm path s = (let (ix, w, rest) = s in (ix, arm_dir arm path w, rest))"

fun walk ::
    "string \<Rightarrow> sem_ctx option \<Rightarrow> (string \<Rightarrow> int option) \<Rightarrow> string \<Rightarrow> node \<Rightarrow> walk_state \<Rightarrow> walk_state"
  and walk_entries ::
    "string \<Rightarrow> sem_ctx option \<Rightarrow> (string \<Rightarrow> int option) \<Rightarrow> string \<Rightarrow> (string \<times> node) list \<Rightarrow> walk_state \<Rightarrow> walk_state"
  where
  "walk home sem arm dir n s =
     (let r = map_one home sem dir n s in
      if \<not> fst r then snd r
      else case n of
        NDir _ (Some es) \<Rightarrow> walk_entries home sem arm dir es (arm_here arm dir (snd r))
      | _ \<Rightarrow> arm_here arm dir (snd r))"
| "walk_entries home sem arm dir [] s = s"
| "walk_entries home sem arm dir ((name, n) # es) s =
     walk_entries home sem arm dir es
       (if is_link n then s
        else if is_dir n then walk home sem arm (path_join dir name) n s
        else snd (map_one home sem (path_join dir name) n s))"

declare walk.simps [simp del]

text \<open>The member roots, in the order of the sealed table.\<close>

definition member_roots :: "string \<Rightarrow> string list" where
  "member_roots home = concat (map (\<lambda>d. map (path_join home) (id_members d)) INDEXABLE_DOMAINS)"

fun walk_roots ::
  "string \<Rightarrow> sem_ctx option \<Rightarrow> (string \<Rightarrow> int option) \<Rightarrow> (string \<Rightarrow> node option) \<Rightarrow> string list \<Rightarrow> walk_state \<Rightarrow> walk_state" where
  "walk_roots home sem arm fs [] s = s"
| "walk_roots home sem arm fs (r # rs) s =
     walk_roots home sem arm fs rs
       (if exists_at (fs r) then (case fs r of Some n \<Rightarrow> walk home sem arm r n s | None \<Rightarrow> s) else s)"

definition reconcile_full ::
  "string \<Rightarrow> sem_ctx option \<Rightarrow> (string \<Rightarrow> int option) \<Rightarrow> (string \<Rightarrow> node option) \<Rightarrow> index \<times> watcher
   \<Rightarrow> stats \<times> index \<times> watcher" where
  "reconcile_full home sem arm fs iw =
     (let (ix, w) = iw;
          (ix1, w1, live, st) = walk_roots home sem arm fs (member_roots home) (ix, w, [], no_stats)
      in case prune_absent ix1 live of
           Some (n, ix2) \<Rightarrow> (st\<lparr>ss_deleted := n\<rparr>, ix2, w1)
         | None \<Rightarrow> (st\<lparr>ss_deleted := 0\<rparr>, ix1, w1))"

definition reconcile_subtree ::
  "string \<Rightarrow> sem_ctx option \<Rightarrow> (string \<Rightarrow> int option) \<Rightarrow> (string \<Rightarrow> node option) \<Rightarrow> string \<Rightarrow> index \<times> watcher
   \<Rightarrow> index \<times> watcher" where
  "reconcile_subtree home sem arm fs root iw =
     (let (ix, w) = iw in
      case fs root of
        Some n \<Rightarrow> (let (ix1, w1, _) = walk home sem arm root n (ix, w, [], no_stats) in (ix1, w1))
      | None \<Rightarrow> (snd (index_object home sem root None ix), w))"

end
