(* ===== verification/Swamp_Watch.thy ===== *)
theory Swamp_Watch
  imports Swamp_Crawl
begin

text \<open>
  The live event pipeline of \<open>swampd\<close> (\<open>swampd/src/watch.rs\<close>) and the reactor around it
  (\<open>Server::serve\<close> in \<open>swampd/src/server.rs\<close>): the parser of the kernel's event buffer, one event, the
  draining of the descriptor, and the freshness of the served map.  Buffers are read little-endian.
\<close>

section \<open>Events\<close>

definition IN_CLOSE_WRITE :: u32 where "IN_CLOSE_WRITE = 0x00000008"
definition IN_MOVED_FROM :: u32 where "IN_MOVED_FROM = 0x00000040"
definition IN_MOVED_TO :: u32 where "IN_MOVED_TO = 0x00000080"
definition IN_CREATE :: u32 where "IN_CREATE = 0x00000100"
definition IN_DELETE :: u32 where "IN_DELETE = 0x00000200"
definition IN_DELETE_SELF :: u32 where "IN_DELETE_SELF = 0x00000400"
definition IN_MOVE_SELF :: u32 where "IN_MOVE_SELF = 0x00000800"
definition IN_IGNORED :: u32 where "IN_IGNORED = 0x00008000"
definition IN_Q_OVERFLOW :: u32 where "IN_Q_OVERFLOW = 0x00004000"
definition IN_ISDIR :: u32 where "IN_ISDIR = 0x40000000"

definition has_flag :: "u32 \<Rightarrow> u32 \<Rightarrow> bool" where
  "has_flag m flag \<longleftrightarrow> and m flag \<noteq> 0"

record fs_event =
  ev_wd :: int
  ev_mask :: u32
  ev_name :: "string option"

definition parse_name :: "string \<Rightarrow> string option" where
  "parse_name raw =
     (let n = takeWhile (\<lambda>c. c \<noteq> CHR 0x00) raw in if n = [] then None else Some (utf8_lossy n))"

text \<open>An event is 16 bytes of header (descriptor, mask, cookie, name length) and its name.\<close>

function parse_events :: "string \<Rightarrow> fs_event list" where
  "parse_events b =
     (if length b < 16 then []
      else
        let len = unat (le_word (take 4 (drop 12 b))) in
        if length b < 16 + len then []
        else \<lparr>ev_wd = sint (le_word (take 4 b)), ev_mask = le_word (take 4 (drop 4 b)),
               ev_name = parse_name (take len (drop 16 b))\<rparr> # parse_events (drop (16 + len) b))"
  by pat_completeness auto
termination
  by (relation "measure length") auto

declare parse_events.simps [simp del]

definition forget_subtree_watches :: "string \<Rightarrow> watcher \<Rightarrow> watcher" where
  "forget_subtree_watches p w = w\<lparr>wt_wds := filter (\<lambda>e. \<not> path_starts_with (snd e) p) (wt_wds w)\<rparr>"

definition drop_subtree :: "index \<Rightarrow> string \<Rightarrow> index" where
  "drop_subtree ix p = or_keep ix (map_option snd (delete_subtree ix (utf8_lossy p)))"

text \<open>One event; the flag is set only by an overflow.\<close>

definition apply_event ::
  "string \<Rightarrow> sem_ctx option \<Rightarrow> (string \<Rightarrow> int option) \<Rightarrow> (string \<Rightarrow> node option) \<Rightarrow> fs_event \<Rightarrow> index \<times> watcher
   \<Rightarrow> bool \<times> index \<times> watcher" where
  "apply_event home sem arm fs ev iw =
     (let (ix, w) = iw; m = ev_mask ev in
      if has_flag m IN_Q_OVERFLOW then (True, ix, w)
      else if has_flag m IN_IGNORED
      then (False, ix, w\<lparr>wt_wds := filter (\<lambda>e. fst e \<noteq> ev_wd ev) (wt_wds w)\<rparr>)
      else case map_of (wt_wds w) (ev_wd ev) of
        None \<Rightarrow> (False, ix, w)
      | Some dir \<Rightarrow>
          if has_flag m (or IN_DELETE_SELF IN_MOVE_SELF)
          then (False, drop_subtree ix dir, forget_subtree_watches dir w)
          else case ev_name ev of
            None \<Rightarrow> (False, ix, w)
          | Some name \<Rightarrow>
              let path = path_join dir name in
              if has_flag m (or IN_DELETE IN_MOVED_FROM) then
                (if has_flag m IN_ISDIR then (False, drop_subtree ix path, forget_subtree_watches path w)
                 else (False, or_keep ix (map_option snd (delete_path ix (utf8_lossy path))), w))
              else if has_flag m (or IN_CREATE IN_MOVED_TO) then
                (if has_flag m IN_ISDIR then (False, reconcile_subtree home sem arm fs path (ix, w))
                 else (False, snd (index_object home sem path (fs path) ix), w))
              else if has_flag m IN_CLOSE_WRITE then (False, snd (index_object home sem path (fs path) ix), w)
              else (False, ix, w))"

fun apply_events ::
  "string \<Rightarrow> sem_ctx option \<Rightarrow> (string \<Rightarrow> int option) \<Rightarrow> (string \<Rightarrow> node option) \<Rightarrow> fs_event list \<Rightarrow> index \<times> watcher
   \<Rightarrow> bool \<times> index \<times> watcher" where
  "apply_events home sem arm fs [] iw = (False, iw)"
| "apply_events home sem arm fs (ev # evs) iw =
     (let (o1, iw1) = apply_event home sem arm fs ev iw;
          (o2, iw2) = apply_events home sem arm fs evs iw1
      in (o1 \<or> o2, iw2))"

text \<open>What the reads of the descriptor answer, until it would block.\<close>

datatype read_result = Got string | WouldBlock | Interrupted | ReadFailed

fun process ::
  "string \<Rightarrow> sem_ctx option \<Rightarrow> (string \<Rightarrow> int option) \<Rightarrow> (string \<Rightarrow> node option) \<Rightarrow> read_result list \<Rightarrow> index \<times> watcher
   \<Rightarrow> bool \<times> index \<times> watcher" where
  "process home sem arm fs [] iw = (False, iw)"
| "process home sem arm fs (WouldBlock # rs) iw = (False, iw)"
| "process home sem arm fs (Interrupted # rs) iw = process home sem arm fs rs iw"
| "process home sem arm fs (ReadFailed # rs) iw =
     (False, fst iw, (snd iw)\<lparr>wt_degraded := True, wt_broken := True\<rparr>)"
| "process home sem arm fs (Got b # rs) iw =
     (if b = [] then (False, iw)
      else
        let (o1, iw1) = apply_events home sem arm fs (parse_events b) iw;
            (o2, iw2) = process home sem arm fs rs iw1
        in (o1 \<or> o2, iw2))"

section \<open>The reactor\<close>

datatype freshness = Fresh | Stale

fun freshness_wire :: "freshness \<Rightarrow> string" where
  "freshness_wire Fresh = ''fresh''"
| "freshness_wire Stale = ''stale''"

definition freshness_of :: "watcher \<Rightarrow> freshness" where
  "freshness_of w = (if healthy w then Fresh else Stale)"

type_synonym served = "index \<times> watcher \<times> freshness"

text \<open>Start-up: one walk arms every watch and maps every object.\<close>

definition start_serving ::
  "string \<Rightarrow> sem_ctx option \<Rightarrow> (string \<Rightarrow> int option) \<Rightarrow> (string \<Rightarrow> node option) \<Rightarrow> index \<Rightarrow> stats \<times> served" where
  "start_serving home sem arm fs ix =
     (let (st, ix1, w1) = reconcile_full home sem arm fs (ix, new_watcher)
      in (st, ix1, w1, freshness_of w1))"

text \<open>One turn of the loop before the queries: a broken descriptor is not polled.\<close>

definition reactor_turn ::
  "string \<Rightarrow> sem_ctx option \<Rightarrow> (string \<Rightarrow> int option) \<Rightarrow> (string \<Rightarrow> node option) \<Rightarrow> read_result list option \<Rightarrow> served
   \<Rightarrow> served" where
  "reactor_turn home sem arm fs ready sv =
     (let (ix, w, fr) = sv;
          fr0 = (if wt_broken w \<and> fr = Fresh then Stale else fr)
      in case (if wt_broken w then None else ready) of
           None \<Rightarrow> (ix, w, fr0)
         | Some reads \<Rightarrow>
             let (overflow, ix1, w1) = process home sem arm fs reads (ix, w) in
             if overflow then
               (let (st, ix2, w2) = reconcile_full home sem arm fs (ix1, reset_health w1)
                in (ix2, w2, freshness_of w2))
             else (ix1, w1, if \<not> healthy w1 \<and> fr0 = Fresh then Stale else fr0))"

end
