(* ===== verification/Swamp_Map.thy ===== *)
theory Swamp_Map
  imports Swamp_Watch
begin

text \<open>
  What every operation on the map keeps.  The locale \<open>map_contract\<close> is what the crawler and the event
  pipeline rely on of the store's statements: an invariant that each statement keeps, given that only
  rows the policy admits are inserted.  It is interpreted on the referential integrity of the tables, on
  the conformity of the rows with the sealed policy, and on the header of the store.
\<close>

section \<open>Integrity of the tables\<close>

definition wf_index :: "index \<Rightarrow> bool" where
  "wf_index ix \<longleftrightarrow>
     distinct (map fst (ix_objects ix)) \<and> distinct (map (ob_path \<circ> snd) (ix_objects ix))
     \<and> distinct (map fst (ix_fts ix)) \<and> fst ` set (ix_fts ix) \<subseteq> fst ` set (ix_objects ix)
     \<and> distinct (map ck_id (ix_chunks ix)) \<and> ck_object ` set (ix_chunks ix) \<subseteq> fst ` set (ix_objects ix)
     \<and> distinct (map (\<lambda>c. (ck_object c, ck_ordinal c)) (ix_chunks ix))
     \<and> distinct (map vr_chunk (ix_vectors ix)) \<and> vr_chunk ` set (ix_vectors ix) \<subseteq> ck_id ` set (ix_chunks ix)"

lemma next_id_fresh: "next_id ids \<notin> set ids"
proof -
  have "x < Max (set ids) + 1" if "x \<in> set ids" for x
    using Max_ge [OF finite_set that] by simp
  then have "Max (set ids) + 1 \<notin> set ids"
    by blast
  then show ?thesis
    by (simp add: next_id_def)
qed

lemma find_path_Some:
  "object_id ix p = Some i \<Longrightarrow> \<exists>ob. (i, ob) \<in> set (ix_objects ix) \<and> ob_path ob = p"
proof -
  assume "object_id ix p = Some i"
  then obtain r where "find (\<lambda>r. ob_path (snd r) = p) (ix_objects ix) = Some r" "fst r = i"
    by (auto simp: object_id_def)
  then show ?thesis
    using find_SomeD [of "\<lambda>r. ob_path (snd r) = p" "ix_objects ix" r] by (cases r) auto
qed

lemma find_path_None: "object_id ix p = None \<longleftrightarrow> (\<forall>r \<in> set (ix_objects ix). ob_path (snd r) \<noteq> p)"
  unfolding object_id_def using find_None_iff [of "\<lambda>r. ob_path (snd r) = p" "ix_objects ix"]
  by (simp only: map_option_is_None) blast

lemma distinct_map_filter: "distinct (map f xs) \<Longrightarrow> distinct (map f (filter P xs))"
  by (induction xs) auto

lemma kept_image: "x \<in> f ` A \<Longrightarrow> x \<notin> f ` {a \<in> A. P a} \<Longrightarrow> x \<in> f ` {a \<in> A. \<not> P a}"
  by auto

lemma wf_drop_chunks: "wf_index ix \<Longrightarrow> wf_index (drop_chunks P ix)"
proof -
  assume wf: "wf_index ix"
  have "vr_chunk v \<in> ck_id ` {c \<in> set (ix_chunks ix). \<not> P c}"
    if "v \<in> set (ix_vectors ix)" "vr_chunk v \<notin> ck_id ` {c \<in> set (ix_chunks ix). P c}" for v
    by (rule kept_image) (use wf that in \<open>auto simp: wf_index_def\<close>)
  then have "vr_chunk ` set (ix_vectors (drop_chunks P ix)) \<subseteq> ck_id ` set (ix_chunks (drop_chunks P ix))"
    by (auto simp: drop_chunks_def)
  then show ?thesis
    using wf by (auto simp: wf_index_def drop_chunks_def distinct_map_filter)
qed

lemma wf_drop_objects: "wf_index ix \<Longrightarrow> wf_index (drop_objects P ix)"
proof -
  assume wf: "wf_index ix"
  let ?gone = "fst ` {r \<in> set (ix_objects ix). P r}"
  define ix1 where "ix1 = drop_chunks (\<lambda>c. ck_object c \<in> ?gone) ix"
  have 1: "wf_index ix1" using wf by (simp add: ix1_def wf_drop_chunks)
  have eq: "drop_objects P ix = ix1\<lparr>ix_objects := filter (\<lambda>r. \<not> P r) (ix_objects ix),
      ix_fts := filter (\<lambda>t. fst t \<notin> ?gone) (ix_fts ix)\<rparr>"
    by (simp add: drop_objects_def ix1_def drop_chunks_def Let_def)
  let ?left = "fst ` {r \<in> set (ix_objects ix). \<not> P r}"
  have "fst t \<in> ?left" if "t \<in> set (ix_fts ix)" "fst t \<notin> ?gone" for t
    by (rule kept_image) (use wf that in \<open>auto simp: wf_index_def\<close>)
  then have texts: "fst ` set (ix_fts (drop_objects P ix)) \<subseteq> ?left"
    by (auto simp: eq)
  have "ck_object c \<in> ?left" if "c \<in> set (ix_chunks ix1)" for c
    by (rule kept_image) (use wf that in \<open>auto simp: wf_index_def ix1_def drop_chunks_def\<close>)
  then have chunks: "ck_object ` set (ix_chunks (drop_objects P ix)) \<subseteq> ?left"
    by (auto simp: eq)
  show ?thesis
    using wf 1 texts chunks unfolding wf_index_def by (simp add: eq distinct_map_filter)
qed

lemma wf_upsert: "wf_index ix \<Longrightarrow> upsert_object ix ob = Some (i, ix') \<Longrightarrow> wf_index ix' \<and> i \<in> fst ` set (ix_objects ix')"
proof -
  assume wf: "wf_index ix" and up: "upsert_object ix ob = Some (i, ix')"
  show ?thesis
  proof (cases "object_id ix (ob_path ob)")
    case None
    then have ix': "ix' = ix\<lparr>ix_objects := ix_objects ix @ [(i, ob)]\<rparr>" "i = next_id (map fst (ix_objects ix))"
      using up by (auto simp: upsert_object_def Let_def split: if_splits)
    have "i \<notin> fst ` set (ix_objects ix)"
      using next_id_fresh [of "map fst (ix_objects ix)"] by (simp add: ix'(2))
    moreover have "ob_path ob \<notin> (ob_path \<circ> snd) ` set (ix_objects ix)"
      using None by (auto simp: find_path_None)
    ultimately show ?thesis
      using wf by (auto simp: wf_index_def ix'(1))
  next
    case (Some j)
    then have ix': "ix' = ix\<lparr>ix_objects := map (\<lambda>r. if fst r = i then (i, ob) else r) (ix_objects ix)\<rparr>" "j = i"
      using up by (auto simp: upsert_object_def split: if_splits)
    obtain old where old: "(i, old) \<in> set (ix_objects ix)" "ob_path old = ob_path ob"
      using find_path_Some [OF Some] ix'(2) by auto
    have fsts: "map fst (ix_objects ix') = map fst (ix_objects ix)"
      by (simp add: ix'(1) comp_def)
    have same: "r = (i, old)" if "r \<in> set (ix_objects ix)" "fst r = i" for r
      using wf old(1) that by (cases r) (auto simp: wf_index_def eq_key_imp_eq_value)
    have "map (ob_path \<circ> snd) (ix_objects ix') = map (ob_path \<circ> snd) (ix_objects ix)"
      using same old(2) by (auto simp: ix'(1))
    moreover have "fst ` set (ix_objects ix') = fst ` set (ix_objects ix)"
      using fsts by (metis list.set_map)
    moreover have "ix_fts ix' = ix_fts ix" "ix_chunks ix' = ix_chunks ix" "ix_vectors ix' = ix_vectors ix"
      by (simp_all add: ix'(1))
    moreover have "i \<in> fst ` set (ix_objects ix)"
      using old(1) by force
    ultimately show ?thesis
      using wf fsts unfolding wf_index_def by simp
  qed
qed

lemma wf_texts:
  "wf_index ix \<Longrightarrow> distinct (map fst ts) \<Longrightarrow> fst ` set ts \<subseteq> fst ` set (ix_objects ix) \<Longrightarrow> wf_index (ix\<lparr>ix_fts := ts\<rparr>)"
  by (simp add: wf_index_def)

lemma texts_left:
  assumes "wf_index ix"
  shows "distinct (map fst (filter (\<lambda>t. fst t \<noteq> i) (ix_fts ix)))"
    "fst ` set (filter (\<lambda>t. fst t \<noteq> i) (ix_fts ix)) \<subseteq> fst ` set (ix_objects ix)"
    "i \<notin> fst ` set (filter (\<lambda>t. fst t \<noteq> i) (ix_fts ix))"
proof -
  have "fst ` set (filter (\<lambda>t. fst t \<noteq> i) (ix_fts ix)) \<subseteq> fst ` set (ix_fts ix)"
    by auto
  then show "fst ` set (filter (\<lambda>t. fst t \<noteq> i) (ix_fts ix)) \<subseteq> fst ` set (ix_objects ix)"
    using assms unfolding wf_index_def by (elim conjE) (rule subset_trans)
qed (use assms in \<open>auto simp: wf_index_def distinct_map_filter\<close>)

lemma wf_set_fts: "wf_index ix \<Longrightarrow> i \<in> fst ` set (ix_objects ix) \<Longrightarrow> set_fts ix i t = Some ix' \<Longrightarrow> wf_index ix'"
  using texts_left [of ix i] wf_texts [of ix "filter (\<lambda>t. fst t \<noteq> i) (ix_fts ix) @ [(i, t)]"]
  by (simp add: set_fts_def split: if_splits)

lemma wf_clear_fts: "wf_index ix \<Longrightarrow> clear_fts ix i = Some ix' \<Longrightarrow> wf_index ix'"
  using texts_left [of ix i] wf_texts [of ix "filter (\<lambda>t. fst t \<noteq> i) (ix_fts ix)"]
  by (simp add: clear_fts_def split: if_splits)

lemma wf_insert_chunk: "wf_index ix \<Longrightarrow> insert_chunk i sv c ix = Some ix' \<Longrightarrow> wf_index ix'"
proof -
  assume wf: "wf_index ix" and ins: "insert_chunk i sv c ix = Some ix'"
  let ?k = "next_id (map ck_id (ix_chunks ix))"
  have k: "?k \<notin> ck_id ` set (ix_chunks ix)"
    using next_id_fresh [of "map ck_id (ix_chunks ix)"] by simp
  have free: "i \<in> fst ` set (ix_objects ix)" "(i, cv_ordinal c) \<notin> (\<lambda>c. (ck_object c, ck_ordinal c)) ` set (ix_chunks ix)"
    and ix': "ix' = ix\<lparr>ix_chunks := ix_chunks ix @
                      [\<lparr>ck_id = ?k, ck_object = i, ck_ordinal = cv_ordinal c, ck_start = cv_start c,
                        ck_end = cv_end c, ck_hash = cv_hash c, ck_text = cv_text c\<rparr>],
                    ix_vectors := ix_vectors ix @
                      [\<lparr>vr_chunk = ?k, vr_vec = vec_to_blob (cv_vec c), vr_version = sv\<rparr>]\<rparr>"
    using ins by (auto simp: insert_chunk_def Let_def list_ex_iff split: if_splits)
  have "?k \<notin> vr_chunk ` set (ix_vectors ix)"
    using k wf by (auto simp: wf_index_def)
  then show ?thesis
    using wf k free unfolding wf_index_def ix' by auto
qed

lemma wf_insert_chunks: "wf_index ix \<Longrightarrow> wf_index (insert_chunks i sv cs ix)"
  by (induction cs arbitrary: ix) (auto simp: wf_insert_chunk split: option.splits)

lemma upsert_id: "upsert_object ix ob = Some (i, ix') \<Longrightarrow> i \<in> fst ` set (ix_objects ix')"
proof -
  assume up: "upsert_object ix ob = Some (i, ix')"
  show ?thesis
  proof (cases "object_id ix (ob_path ob)")
    case None
    then show ?thesis using up by (auto simp: upsert_object_def Let_def split: if_splits)
  next
    case (Some j)
    then obtain old where "(j, old) \<in> set (ix_objects ix)"
      using find_path_Some by blast
    then have "j \<in> set (map fst (ix_objects ix))"
      by force
    moreover have "map fst (ix_objects ix') = map fst (ix_objects ix)" "i = j"
      using up Some by (auto simp: upsert_object_def comp_def split: if_splits)
    ultimately show ?thesis
      by (metis list.set_map)
  qed
qed

section \<open>The contract\<close>

text \<open>A row the policy admits: its key is the path of an object below home, at an indexable place.\<close>

definition policy_row :: "string \<Rightarrow> object_record \<Rightarrow> bool" where
  "policy_row home ob \<longleftrightarrow>
     (\<exists>path comps dm. ob_path ob = utf8_lossy path \<and> path_rel path home = Some comps
        \<and> domain_for (utf8_lossy (str_join ''/'' comps)) = Some dm \<and> ob_domain ob = id_name dm)"

locale map_contract =
  fixes home :: string and Inv :: "index \<Rightarrow> bool"
  assumes drop_objects: "Inv ix \<Longrightarrow> Inv (drop_objects P ix)"
    and upsert: "Inv ix \<Longrightarrow> policy_row home ob \<Longrightarrow> upsert_object ix ob = Some (i, ix') \<Longrightarrow> Inv ix'"
    and set_text: "Inv ix \<Longrightarrow> i \<in> fst ` set (ix_objects ix) \<Longrightarrow> set_fts ix i t = Some ix' \<Longrightarrow> Inv ix'"
    and clear_text: "Inv ix \<Longrightarrow> clear_fts ix i = Some ix' \<Longrightarrow> Inv ix'"
    and clear_vectors: "Inv ix \<Longrightarrow> clear_object_vectors ix i = Some ix' \<Longrightarrow> Inv ix'"
    and replace_vectors: "Inv ix \<Longrightarrow> replace_object_vectors ix i sv cs = Some ix' \<Longrightarrow> Inv ix'"
begin

lemma cleared: "Inv ix \<Longrightarrow> Inv (or_keep ix (clear_fts ix i))" "Inv ix \<Longrightarrow> Inv (or_keep ix (clear_object_vectors ix i))"
  by (cases "clear_fts ix i", auto simp: or_keep_def dest: clear_text)
    (cases "clear_object_vectors ix i", auto simp: or_keep_def dest: clear_vectors)

lemma replaced: "Inv ix \<Longrightarrow> Inv (or_keep ix (replace_object_vectors ix i sv cs))"
  by (cases "replace_object_vectors ix i sv cs") (auto simp: or_keep_def dest: replace_vectors)

lemma enrich: "Inv ix \<Longrightarrow> Inv (enrich_semantic ctx i dm t ix)"
  by (simp add: enrich_semantic_def Let_def cleared replaced split: sum.split)

lemma reembed: "Inv ix \<Longrightarrow> Inv (reembed_if_vectors_missing ctx i dm content ix)"
  using cleared(2) enrich by (auto simp: reembed_if_vectors_missing_def split: option.splits)

lemma retracted: "Inv ix \<Longrightarrow> Inv (snd (retract ix key st))"
  using drop_objects by (auto simp: retract_def delete_path_def split: option.splits if_splits)

lemma enrich_file:
  assumes "Inv ix" "i \<in> fst ` set (ix_objects ix)"
  shows "Inv (snd (enrich_file sem dm sm content unchanged i st ix))"
proof -
  have wiped: "Inv (or_keep (or_keep ix (clear_fts ix i)) (clear_object_vectors (or_keep ix (clear_fts ix i)) i))"
    using cleared(1) [OF assms(1)] by (rule cleared(2))
  have texted: "Inv ix'" if "set_fts ix i t = Some ix'" for ix' t
    using set_text [OF assms that] .
  show ?thesis
    using assms(1) wiped texted reembed enrich
    by (auto simp: enrich_file_def Let_def split: option.splits)
qed

lemma mapped:
  assumes "Inv ix" "policy_row home \<lparr>ob_path = key, ob_dev = sm_dev sm, ob_ino = sm_ino sm, ob_size = sm_size sm,
                ob_mtime = sm_mtime sm, ob_domain = id_name dm, ob_is_dir = is_dir n\<rparr>"
  shows "Inv (snd (map_object sem key dm n sm ix))"
  using assms(1) upsert [OF assms] upsert_id enrich_file
  by (auto simp: map_object_def Let_def split: option.splits node.splits)

lemma indexed: "Inv ix \<Longrightarrow> Inv (snd (index_object home sem path found ix))"
proof -
  assume inv: "Inv ix"
  have row: "Inv (snd (map_object sem (utf8_lossy path) dm n sm ix))"
    if "path_rel path home = Some comps" "domain_for (utf8_lossy (str_join ''/'' comps)) = Some dm" for comps dm n sm
    by (rule mapped [OF inv]) (use that in \<open>auto simp: policy_row_def\<close>)
  show ?thesis
    unfolding index_object_def Let_def
    by (auto simp: inv retracted row split: option.splits)
qed

lemma mapped_one: "Inv (fst s) \<Longrightarrow> Inv (fst (snd (map_one home sem path n s)))"
  using indexed [of "fst s" sem path "Some n"] by (auto simp: map_one_def Let_def split: prod.splits)

lemma armed: "fst (arm_here arm path s) = fst s"
  by (simp add: arm_here_def split: prod.splits)

lemma walk_kept:
  "h = home \<Longrightarrow> Inv (fst s) \<Longrightarrow> Inv (fst (walk h sem arm dir n s))"
  "h = home \<Longrightarrow> Inv (fst s) \<Longrightarrow> Inv (fst (walk_entries h sem arm dir es s))"
proof (induction h sem arm dir n s and h sem arm dir es s rule: walk_walk_entries.induct)
  case (1 h sem arm dir n s)
  have "Inv (fst (snd (map_one h sem dir n s)))"
    using mapped_one [OF "1.prems"(2), of sem dir n] "1.prems"(1) by simp
  then show ?case
    using "1.IH" [OF refl] "1.prems"(1)
    by (subst walk.simps) (cases n; auto simp: Let_def armed split: option.split)
next
  case (3 h sem arm dir name n es s)
  have "Inv (fst (snd (map_one h sem (path_join dir name) n s)))"
    using mapped_one [OF "3.prems"(2), of sem "path_join dir name" n] "3.prems"(1) by simp
  then have "Inv (fst (if is_link n then s else if is_dir n then walk h sem arm (path_join dir name) n s
      else snd (map_one h sem (path_join dir name) n s)))"
    using "3.IH"(1) [OF _ _ "3.prems"] "3.prems"(2) by simp
  then show ?case
    using "3.IH"(2) [OF "3.prems"(1)] by (simp del: if_split)
qed simp

lemma pruned: "Inv ix \<Longrightarrow> prune_absent ix live = Some (n, ix') \<Longrightarrow> Inv ix'"
  using drop_objects by (auto simp: prune_absent_def Let_def split: if_splits)

lemma rooted: "Inv (fst s) \<Longrightarrow> Inv (fst (walk_roots home sem arm fs rs s))"
  by (induction rs arbitrary: s) (auto simp: walk_kept split: option.splits)

lemma reconciled: "Inv (fst iw) \<Longrightarrow> reconcile_full home sem arm fs iw = (st, ix', w') \<Longrightarrow> Inv ix'"
  using rooted [of "(fst iw, snd iw, [], no_stats)" sem arm fs "member_roots home"] pruned
  by (auto simp: reconcile_full_def Let_def split: prod.splits option.splits)

lemma subtree: "Inv (fst iw) \<Longrightarrow> Inv (fst (reconcile_subtree home sem arm fs root iw))"
  using walk_kept(1) [of home "(fst iw, snd iw, [], no_stats)" sem arm root] indexed [of "fst iw" sem root None]
  by (cases iw; cases "fs root")
    (simp_all add: reconcile_subtree_def Let_def case_prod_unfold)

lemma subtree_dropped: "Inv ix \<Longrightarrow> Inv (drop_subtree ix p)"
  using drop_objects by (auto simp: drop_subtree_def delete_subtree_def or_keep_def split: option.splits)

lemma path_deleted: "Inv ix \<Longrightarrow> Inv (or_keep ix (map_option snd (delete_path ix key)))"
  using drop_objects by (auto simp: delete_path_def or_keep_def split: option.splits)

lemma event_kept: "Inv (fst iw) \<Longrightarrow> Inv (fst (snd (apply_event home sem arm fs ev iw)))"
  by (cases iw)
    (simp add: apply_event_def Let_def subtree_dropped path_deleted subtree indexed split: option.split)

lemma events_kept: "Inv (fst iw) \<Longrightarrow> Inv (fst (snd (apply_events home sem arm fs evs iw)))"
proof (induction evs arbitrary: iw)
  case (Cons ev evs)
  then show ?case
    using event_kept [OF Cons.prems, of sem arm fs ev] Cons.IH [of "snd (apply_event home sem arm fs ev iw)"]
    by (simp add: Let_def case_prod_unfold)
qed simp

lemma process_kept: "Inv (fst iw) \<Longrightarrow> Inv (fst (snd (process home sem arm fs rs iw)))"
proof (induction rs arbitrary: iw)
  case (Cons r rs)
  show ?case
  proof (cases r)
    case (Got b)
    then show ?thesis
      using events_kept [OF Cons.prems, of sem arm fs "parse_events b"]
        Cons.IH [of "snd (apply_events home sem arm fs (parse_events b) iw)"] Cons.prems
      by (simp add: Let_def case_prod_unfold)
  qed (use Cons in auto)
qed simp

lemma turn_kept: "Inv (fst sv) \<Longrightarrow> Inv (fst (reactor_turn home sem arm fs ready sv))"
proof -
  assume inv: "Inv (fst sv)"
  obtain ix w fr where sv: "sv = (ix, w, fr)" by (cases sv)
  obtain rs where rs: "(if wt_broken w then None else ready) = None \<or> (if wt_broken w then None else ready) = Some rs"
    by (cases "if wt_broken w then None else ready") auto
  obtain ov ix1 w1 where p: "process home sem arm fs rs (ix, w) = (ov, ix1, w1)"
    by (cases "process home sem arm fs rs (ix, w)")
  have ix1: "Inv ix1"
    using process_kept [of "(ix, w)" sem arm fs rs] inv by (simp add: sv p)
  obtain st ix2 w2 where full: "reconcile_full home sem arm fs (ix1, reset_health w1) = (st, ix2, w2)"
    by (cases "reconcile_full home sem arm fs (ix1, reset_health w1)")
  have "Inv ix2"
    by (rule reconciled [OF _ full]) (simp add: ix1)
  then show ?thesis
    using rs inv ix1 by (auto simp: sv reactor_turn_def Let_def p full)
qed

end

lemmas index_update_defs = drop_objects_def drop_chunks_def upsert_object_def set_fts_def clear_fts_def
  clear_object_vectors_def replace_object_vectors_def Let_def

interpretation integrity: map_contract home wf_index
proof unfold_locales
  fix ix ix' :: index and i sv cs
  assume wf: "wf_index ix"
  show "replace_object_vectors ix i sv cs = Some ix' \<Longrightarrow> wf_index ix'"
    using wf wf_drop_chunks wf_insert_chunks by (auto simp: replace_object_vectors_def split: if_splits)
  show "clear_object_vectors ix i = Some ix' \<Longrightarrow> wf_index ix'"
    using wf wf_drop_chunks by (auto simp: clear_object_vectors_def split: if_splits)
qed (use wf_drop_objects wf_upsert wf_set_fts wf_clear_fts in blast)+

definition rows_follow_policy :: "string \<Rightarrow> index \<Rightarrow> bool" where
  "rows_follow_policy home ix \<longleftrightarrow> (\<forall>r \<in> set (ix_objects ix). policy_row home (snd r))"

lemma insert_chunks_objects [simp]:
  "ix_objects (insert_chunks i sv cs ix) = ix_objects ix"
  "ix_writable (insert_chunks i sv cs ix) = ix_writable ix"
  by (induction cs arbitrary: ix) (auto simp: insert_chunk_def Let_def split: option.splits if_splits)

interpretation policy: map_contract home "rows_follow_policy home"
proof unfold_locales
  fix ix ix' :: index and ob i
  assume "rows_follow_policy home ix" "policy_row home ob" "upsert_object ix ob = Some (i, ix')"
  then show "rows_follow_policy home ix'"
    by (auto simp: rows_follow_policy_def upsert_object_def Let_def split: option.splits if_splits)
qed (auto simp: rows_follow_policy_def index_update_defs split: if_splits)

interpretation writable: map_contract home ix_writable
  by unfold_locales (auto simp: index_update_defs split: option.splits if_splits)

end
