(* ===== verification/Swamp_Reconcile.thy ===== *)
theory Swamp_Reconcile
  imports Swamp_Map
begin

text \<open>
  A full reconciliation makes the map a function of the file tree.  \<open>tree_visits\<close> lists what a walk
  decides for each object it meets, from the tree alone; the rows of the store after
  \<open>reconcile_full\<close> are exactly its last decisions, whatever rows were there before.  The reactor is then
  a state machine over served maps: start-up, and turns with any events, tree and answers of the kernel.
\<close>

section \<open>The rows as a map\<close>

definition record_at :: "index \<Rightarrow> string \<Rightarrow> object_record option" where
  "record_at ix p = map_option snd (find (\<lambda>r. ob_path (snd r) = p) (ix_objects ix))"

definition good :: "index \<Rightarrow> bool" where
  "good ix \<longleftrightarrow> wf_index ix \<and> ix_writable ix"

lemma record_at_SomeD: "record_at ix p = Some ob \<Longrightarrow> \<exists>i. (i, ob) \<in> set (ix_objects ix) \<and> ob_path ob = p"
  unfolding record_at_def by (auto dest!: find_SomeD)

lemma record_at_iff:
  assumes "wf_index ix"
  shows "record_at ix p = Some ob \<longleftrightarrow> ob_path ob = p \<and> ob \<in> snd ` set (ix_objects ix)"
proof
  assume r: "ob_path ob = p \<and> ob \<in> snd ` set (ix_objects ix)"
  then obtain i where mem: "(i, ob) \<in> set (ix_objects ix)" "ob_path ob = p" by auto
  then obtain ob' where f: "record_at ix p = Some ob'"
    by (cases "find (\<lambda>r. ob_path (snd r) = p) (ix_objects ix)") (auto simp: record_at_def find_None_iff)
  then obtain j where mem': "(j, ob') \<in> set (ix_objects ix)" "ob_path ob' = p"
    using record_at_SomeD by blast
  have "inj_on (ob_path \<circ> snd) (set (ix_objects ix))"
    using assms by (simp add: wf_index_def distinct_map)
  then have "(j, ob') = (i, ob)"
    by (rule inj_onD) (use mem mem' in auto)
  then show "record_at ix p = Some ob" using f by simp
qed (force dest: record_at_SomeD)

lemma record_at_eqI:
  assumes "wf_index ix" "\<And>p ob. f p = Some ob \<longleftrightarrow> ob_path ob = p \<and> ob \<in> snd ` set (ix_objects ix)"
  shows "record_at ix = f"
proof
  fix p
  have "record_at ix p = Some ob \<longleftrightarrow> f p = Some ob" for ob
    using record_at_iff [OF assms(1)] assms(2) by simp
  then show "record_at ix p = f p"
    by (cases "f p") (auto simp: not_None_eq [symmetric])
qed

lemma find_append: "find P (xs @ ys) = (case find P xs of Some x \<Rightarrow> Some x | None \<Rightarrow> find P ys)"
  by (induction xs) auto

lemma record_at_objects: "ix_objects ix' = ix_objects ix \<Longrightarrow> record_at ix' = record_at ix"
  by (simp add: record_at_def fun_eq_iff)

lemma drop_objects_rows [simp]:
  "ix_objects (drop_objects P ix) = filter (\<lambda>r. \<not> P r) (ix_objects ix)"
  "ix_writable (drop_objects P ix) = ix_writable ix"
  by (simp_all add: drop_objects_def drop_chunks_def Let_def)

lemma record_at_upsert:
  assumes wf: "wf_index ix" and up: "upsert_object ix ob = Some (i, ix')"
  shows "record_at ix' = (record_at ix)(ob_path ob \<mapsto> ob)"
proof (cases "object_id ix (ob_path ob)")
  case None
  then have rows: "ix_objects ix' = ix_objects ix @ [(i, ob)]"
    using up by (auto simp: upsert_object_def Let_def split: if_splits)
  have none: "find (\<lambda>r. ob_path (snd r) = ob_path ob) (ix_objects ix) = None"
    using None by (simp add: object_id_def)
  show ?thesis
    using none by (auto simp: record_at_def rows fun_eq_iff find_append split: option.splits)
next
  case (Some j)
  then have rows: "ix_objects ix' = map (\<lambda>r. if fst r = i then (i, ob) else r) (ix_objects ix)" and ij: "j = i"
    using up by (auto simp: upsert_object_def split: if_splits)
  obtain old where old: "(i, old) \<in> set (ix_objects ix)" "ob_path old = ob_path ob"
    using find_path_Some [OF Some] ij by auto
  have inj: "inj_on (ob_path \<circ> snd) (set (ix_objects ix))" "inj_on fst (set (ix_objects ix))"
    using wf by (simp_all add: wf_index_def distinct_map)
  have iff: "fst r = i \<longleftrightarrow> ob_path (snd r) = ob_path ob" if "r \<in> set (ix_objects ix)" for r
    using inj_onD [OF inj(1), of r "(i, old)"] inj_onD [OF inj(2), of r "(i, old)"] that old by (cases r) auto
  have img: "snd ` set (ix_objects ix') = (\<lambda>r. if fst r = i then ob else snd r) ` set (ix_objects ix)"
    by (simp only: rows list.set_map image_image if_distrib snd_conv)
  have "x \<in> snd ` set (ix_objects ix') \<longleftrightarrow> x = ob \<or> (ob_path x \<noteq> ob_path ob \<and> x \<in> snd ` set (ix_objects ix))" for x
  proof
    assume "x \<in> snd ` set (ix_objects ix')"
    then obtain r where "r \<in> set (ix_objects ix)" "x = (if fst r = i then ob else snd r)"
      unfolding img by blast
    then show "x = ob \<or> (ob_path x \<noteq> ob_path ob \<and> x \<in> snd ` set (ix_objects ix))"
      using iff [of r] by (cases "fst r = i") simp_all
  next
    assume x: "x = ob \<or> (ob_path x \<noteq> ob_path ob \<and> x \<in> snd ` set (ix_objects ix))"
    show "x \<in> snd ` set (ix_objects ix')"
      unfolding img
    proof (cases "x = ob")
      case True
      then show "x \<in> (\<lambda>r. if fst r = i then ob else snd r) ` set (ix_objects ix)"
        by (intro image_eqI [OF _ old(1)]) simp
    next
      case False
      then obtain r where r: "r \<in> set (ix_objects ix)" "x = snd r" "ob_path x \<noteq> ob_path ob"
        using x by blast
      then show "x \<in> (\<lambda>r. if fst r = i then ob else snd r) ` set (ix_objects ix)"
        using iff [of r] by (intro image_eqI [OF _ r(1)]) simp
    qed
  qed
  moreover have "((record_at ix)(ob_path ob \<mapsto> ob)) p = Some x
      \<longleftrightarrow> ob_path x = p \<and> (x = ob \<or> (ob_path x \<noteq> ob_path ob \<and> x \<in> snd ` set (ix_objects ix)))" for p x
    using record_at_iff [OF wf, of p x] by auto
  ultimately show ?thesis
    using wf_upsert [OF wf up] by (intro record_at_eqI) simp_all
qed

lemma record_at_drop:
  assumes "wf_index ix" "\<And>r. r \<in> set (ix_objects ix) \<Longrightarrow> P r \<longleftrightarrow> ob_path (snd r) \<notin> K"
  shows "record_at (drop_objects P ix) = record_at ix |` K"
  using assms(2) by (intro record_at_eqI wf_drop_objects [OF assms(1)])
    (force simp: restrict_map_def record_at_iff [OF assms(1)])


section \<open>What a walk decides\<close>

text \<open>
  The decision for one object: none (not below home, or a pruned directory), the removal of its record,
  or its record.
\<close>

definition visit :: "string \<Rightarrow> string \<Rightarrow> node \<Rightarrow> (string \<times> object_record option) list" where
  "visit home path n =
     (let key = utf8_lossy path in
      case stat_of n of
        None \<Rightarrow> [(key, None)]
      | Some sm \<Rightarrow>
          (case path_rel path home of
             None \<Rightarrow> []
           | Some comps \<Rightarrow>
               let rel = utf8_lossy (str_join ''/'' comps) in
               if is_never_indexable rel then [(key, None)]
               else if is_dir n \<and> pruned_name path then []
               else case domain_for rel of
                 None \<Rightarrow> [(key, None)]
               | Some dm \<Rightarrow>
                   [(key, Some \<lparr>ob_path = key, ob_dev = sm_dev sm, ob_ino = sm_ino sm, ob_size = sm_size sm,
                           ob_mtime = sm_mtime sm, ob_domain = id_name dm, ob_is_dir = is_dir n\<rparr>)]))"

definition mapped_keys :: "(string \<times> object_record option) list \<Rightarrow> string list" where
  "mapped_keys vs = map fst (filter (\<lambda>v. snd v \<noteq> None) vs)"

fun tree_visits :: "string \<Rightarrow> string \<Rightarrow> node \<Rightarrow> (string \<times> object_record option) list"
  and entry_visits :: "string \<Rightarrow> string \<Rightarrow> (string \<times> node) list \<Rightarrow> (string \<times> object_record option) list" where
  "tree_visits home dir n =
     visit home dir n
     @ (if mapped_keys (visit home dir n) = [] then []
        else case n of NDir _ (Some es) \<Rightarrow> entry_visits home dir es | _ \<Rightarrow> [])"
| "entry_visits home dir [] = []"
| "entry_visits home dir ((name, n) # es) =
     (if is_link n then [] else if is_dir n then tree_visits home (path_join dir name) n
      else visit home (path_join dir name) n)
     @ entry_visits home dir es"

declare tree_visits.simps [simp del]

definition root_visit :: "string \<Rightarrow> (string \<Rightarrow> node option) \<Rightarrow> string \<Rightarrow> (string \<times> object_record option) list" where
  "root_visit home fs r =
     (if exists_at (fs r) then (case fs r of Some n \<Rightarrow> tree_visits home r n | None \<Rightarrow> []) else [])"

definition root_visits :: "string \<Rightarrow> (string \<Rightarrow> node option) \<Rightarrow> string list \<Rightarrow> (string \<times> object_record option) list" where
  "root_visits home fs rs =
     concat (map (root_visit home fs) rs)"

text \<open>The map of a file tree: the last decision for each key.\<close>

definition map_of_tree :: "string \<Rightarrow> (string \<Rightarrow> node option) \<Rightarrow> string \<Rightarrow> object_record option" where
  "map_of_tree home fs k =
     (case map_of (rev (root_visits home fs (member_roots home))) k of Some (Some ob) \<Rightarrow> Some ob | _ \<Rightarrow> None)"

section \<open>A walk carries its decisions out\<close>

definition decided :: "(string \<rightharpoonup> object_record) \<Rightarrow> (string \<times> object_record option) list \<Rightarrow> string \<rightharpoonup> object_record" where
  "decided m vs = fold (\<lambda>v m. m(fst v := snd v)) vs m"

lemma decided_append [simp]: "decided m (us @ vs) = decided (decided m us) vs"
  by (simp add: decided_def)

lemma decided_Nil [simp]: "decided m [] = m"
  by (simp add: decided_def)

lemma decided_at: "decided m vs k = (case map_of (rev vs) k of Some r \<Rightarrow> r | None \<Rightarrow> m k)"
  by (induction vs rule: rev_induct) (auto simp: decided_def)

lemma mapped_keys_append [simp]: "mapped_keys (us @ vs) = mapped_keys us @ mapped_keys vs"
  by (simp add: mapped_keys_def)

lemma mapped_keys_Nil [simp]: "mapped_keys [] = []"
  by (simp add: mapped_keys_def)

definition carries :: "(string \<times> object_record option) list \<Rightarrow> walk_state \<Rightarrow> walk_state \<Rightarrow> bool" where
  "carries vs s s' \<longleftrightarrow>
     (good (fst s) \<longrightarrow> good (fst s') \<and> record_at (fst s') = decided (record_at (fst s)) vs
        \<and> fst (snd (snd s')) = fst (snd (snd s)) @ mapped_keys vs)"

lemma carries_refl [intro]: "fst s' = fst s \<Longrightarrow> fst (snd (snd s')) = fst (snd (snd s)) \<Longrightarrow> carries [] s s'"
  by (simp add: carries_def)

lemma carries_trans: "carries us s t \<Longrightarrow> carries vs t u \<Longrightarrow> carries (us @ vs) s u"
  by (simp add: carries_def)


lemma or_keep_objects [simp]:
  "ix_objects (or_keep ix (clear_fts ix i)) = ix_objects ix"
  "ix_objects (or_keep ix (clear_object_vectors ix i)) = ix_objects ix"
  "ix_objects (or_keep ix (replace_object_vectors ix i sv cs)) = ix_objects ix"
  by (simp_all add: or_keep_def index_update_defs split: option.splits)

lemma enrich_semantic_objects [simp]: "ix_objects (enrich_semantic ctx i dm t ix) = ix_objects ix"
  by (simp add: enrich_semantic_def Let_def split: sum.split)

lemma reembed_objects [simp]: "ix_objects (reembed_if_vectors_missing ctx i dm content ix) = ix_objects ix"
  by (simp add: reembed_if_vectors_missing_def split: option.split)

lemma set_fts_objects: "set_fts ix i t = Some ix' \<Longrightarrow> ix_objects ix' = ix_objects ix"
  by (auto simp: set_fts_def split: if_splits)

lemma enrich_file_objects [simp]:
  "ix_objects (snd (enrich_file sem dm sm content unchanged i st ix)) = ix_objects ix"
  "ss_objects (fst (enrich_file sem dm sm content unchanged i st ix)) = ss_objects st"
  by (auto simp: enrich_file_def Let_def set_fts_objects split: option.split)

lemma record_at_delete:
  assumes "good ix" "delete_path ix key = Some (there, ix')"
  shows "record_at ix' = (record_at ix)(key := None)"
proof (cases "object_id ix key")
  case None
  then have "record_at ix key = None"
    by (simp add: object_id_def record_at_def)
  then show ?thesis
    using None assms(2) by (auto simp: delete_path_def fun_upd_idem)
next
  case (Some i)
  then have ix': "ix' = drop_objects (\<lambda>r. fst r = i) ix"
    using assms(2) by (auto simp: delete_path_def split: if_splits)
  obtain old where old: "(i, old) \<in> set (ix_objects ix)" "ob_path old = key"
    using find_path_Some [OF Some] by auto
  have wf: "wf_index ix" using assms(1) by (simp add: good_def)
  then have inj: "inj_on (ob_path \<circ> snd) (set (ix_objects ix))" "inj_on fst (set (ix_objects ix))"
    by (simp_all add: wf_index_def distinct_map)
  have "fst r = i \<longleftrightarrow> ob_path (snd r) \<notin> - {key}" if "r \<in> set (ix_objects ix)" for r
    using inj_onD [OF inj(1), of r "(i, old)"] inj_onD [OF inj(2), of r "(i, old)"] that old by (cases r) auto
  then show ?thesis
    using record_at_drop [OF wf, of "\<lambda>r. fst r = i" "- {key}"] by (auto simp: ix' restrict_map_def fun_eq_iff)
qed

lemma delete_path_ok: "good ix \<Longrightarrow> \<exists>there ix'. delete_path ix key = Some (there, ix')"
  by (auto simp: delete_path_def good_def split: option.split)

lemma retract_done:
  "good ix \<Longrightarrow> record_at (snd (retract ix key st)) = (record_at ix)(key := None)
     \<and> ss_objects (fst (retract ix key st)) = ss_objects st"
  using delete_path_ok [of ix key] record_at_delete [of ix key]
  by (auto simp: retract_def)

lemma upsert_ok: "good ix \<Longrightarrow> \<exists>i ix'. upsert_object ix ob = Some (i, ix')"
  by (simp add: upsert_object_def good_def Let_def split: option.split)

lemma map_object_done:
  fixes key dm n sm
  defines "ob \<equiv> \<lparr>ob_path = key, ob_dev = sm_dev sm, ob_ino = sm_ino sm, ob_size = sm_size sm,
                ob_mtime = sm_mtime sm, ob_domain = id_name dm, ob_is_dir = is_dir n\<rparr>"
  assumes "good ix"
  shows "record_at (snd (map_object sem key dm n sm ix)) = (record_at ix)(key \<mapsto> ob)
    \<and> ss_objects (fst (map_object sem key dm n sm ix)) = 1"
proof -
  obtain i ix1 where up: "upsert_object ix ob = Some (i, ix1)"
    using upsert_ok [OF assms(2)] by blast
  have r1: "record_at ix1 = (record_at ix)(key \<mapsto> ob)"
    using record_at_upsert [OF _ up] assms(2) by (simp add: good_def ob_def)
  have "record_at (snd (map_object sem key dm n sm ix)) = record_at ix1"
    by (rule record_at_objects) (simp add: map_object_def Let_def up [unfolded ob_def] split: node.split)
  then show ?thesis
    by (simp add: r1 map_object_def Let_def up [unfolded ob_def] no_stats_def split: node.split)
qed

lemma index_object_done:
  assumes "good ix"
  shows "record_at (snd (index_object home sem path (Some n) ix)) = decided (record_at ix) (visit home path n)
    \<and> (ss_objects (fst (index_object home sem path (Some n) ix)) \<noteq> 0 \<longleftrightarrow> mapped_keys (visit home path n) \<noteq> [])"
  using retract_done [OF assms] map_object_done [OF assms]
  by (cases "is_dir n \<and> pruned_name path")
    (simp_all only: index_object_def visit_def Let_def mapped_keys_def decided_def no_stats_def if_True if_False,
     auto split: option.split)


lemma map_one_done:
  "carries (visit home path n) s (snd (map_one home sem path n s))
   \<and> (good (fst s) \<longrightarrow> (fst (map_one home sem path n s) \<longleftrightarrow> mapped_keys (visit home path n) \<noteq> []))"
proof -
  obtain ix w live st where s: "s = (ix, w, live, st)" by (cases s)
  obtain out ix' where r: "index_object home sem path (Some n) ix = (out, ix')"
    by (cases "index_object home sem path (Some n) ix")
  have keys: "mapped_keys (visit home path n) = []
      \<or> mapped_keys (visit home path n) = [utf8_lossy path]"
    by (simp add: visit_def mapped_keys_def Let_def split: option.split)
  have good: "good ix'" if "good ix"
    using that integrity.indexed [of ix home sem path "Some n"] writable.indexed [of ix home sem path "Some n"]
    by (simp add: good_def r)
  show ?thesis
    using index_object_done [of ix home sem path n] keys good
    by (auto simp: s map_one_def r carries_def Let_def)
qed

lemma arm_here_done: "carries [] s (arm_here arm path s)"
  by (auto simp: arm_here_def split: prod.splits)

lemma walk_done:
  "carries (tree_visits h dir n) s (walk h sem arm dir n s)"
  "carries (entry_visits h dir es) s (walk_entries h sem arm dir es s)"
proof (induction h sem arm dir n s and h sem arm dir es s rule: walk_walk_entries.induct)
  case (1 h sem arm dir n s)
  let ?r = "map_one h sem dir n s"
  note one = map_one_done [of h dir n s sem]
  have armed: "carries (visit h dir n @ []) s (arm_here arm dir (snd ?r))"
    by (rule carries_trans [OF _ arm_here_done]) (use one in simp)
  show ?case
  proof (cases "good (fst s)")
    case good: True
    show ?thesis
    proof (cases "fst ?r")
      case mapped: True
      show ?thesis
      proof (cases "\<exists>st es. n = NDir st (Some es)")
        case True
        then obtain st es where n: "n = NDir st (Some es)" by blast
        have "carries (visit h dir n @ entry_visits h dir es) s
            (walk_entries h sem arm dir es (arm_here arm dir (snd ?r)))"
          using carries_trans [OF armed "1.IH" [OF refl]] mapped n by simp
        then show ?thesis
          using one good mapped by (simp add: walk.simps tree_visits.simps Let_def n)
      next
        case False
        then show ?thesis
          using armed one good mapped
          by (cases n) (auto simp: walk.simps tree_visits.simps Let_def split: option.splits)
      qed
    next
      case False
      then show ?thesis
        using one good by (simp add: walk.simps tree_visits.simps Let_def)
    qed
  qed (simp add: carries_def)
next
  case (3 h sem arm dir name n es s)
  have "carries (if is_link n then [] else if is_dir n then tree_visits h (path_join dir name) n
       else visit h (path_join dir name) n) s
     (if is_link n then s else if is_dir n then walk h sem arm (path_join dir name) n s
       else snd (map_one h sem (path_join dir name) n s))"
    using "3.IH"(1) map_one_done [of h "path_join dir name" n s sem] by auto
  then show ?case
    using carries_trans [OF _ "3.IH"(2)] by simp
qed auto


lemma walk_roots_done: "carries (root_visits h fs rs) s (walk_roots h sem arm fs rs s)"
proof (induction rs arbitrary: s)
  case (Cons r rs)
  have "carries (root_visit h fs r) s
      (if exists_at (fs r) then (case fs r of Some n \<Rightarrow> walk h sem arm r n s | None \<Rightarrow> s) else s)"
    by (auto simp: root_visit_def walk_done split: option.split)
  then show ?case
    using carries_trans [OF _ Cons.IH] by (simp add: root_visits_def)
qed (auto simp: root_visits_def)

lemma mapped_keys_in: "k \<in> set (mapped_keys vs) \<longleftrightarrow> (\<exists>ob. (k, Some ob) \<in> set vs)"
  by (force simp: mapped_keys_def)

lemma decided_live:
  "(decided m vs |` set (mapped_keys vs)) k = (case map_of (rev vs) k of Some (Some ob) \<Rightarrow> Some ob | _ \<Rightarrow> None)"
proof (cases "map_of (rev vs) k")
  case None
  then have "k \<notin> fst ` set vs"
    by (simp add: map_of_eq_None_iff)
  then have "k \<notin> set (mapped_keys vs)"
    by (force simp: mapped_keys_in)
  then show ?thesis using None by (simp add: restrict_map_def)
next
  case (Some r)
  then have mem: "(k, r) \<in> set vs" using map_of_SomeD [of "rev vs"] by auto
  then show ?thesis
    using Some by (cases r) (auto simp: restrict_map_def decided_at mapped_keys_in)
qed

lemma record_at_pruned:
  assumes "good ix" "prune_absent ix live = Some (n, ix')"
  shows "record_at ix' = record_at ix |` set live"
proof (cases "\<exists>r \<in> set (ix_objects ix). ob_path (snd r) \<notin> set live")
  case True
  then have "ix' = drop_objects (\<lambda>r. ob_path (snd r) \<notin> set live) ix"
    using assms(2) by (auto simp: prune_absent_def Let_def filter_empty_conv split: if_splits)
  then show ?thesis
    using assms(1) by (simp add: record_at_drop good_def)
next
  case False
  then have all: "\<forall>r \<in> set (ix_objects ix). ob_path (snd r) \<in> set live" by blast
  have ix': "ix' = ix"
    using assms(2) all by (simp add: prune_absent_def Let_def filter_False)
  have "record_at ix p = None" if "p \<notin> set live" for p
    using that all record_at_SomeD [of ix p] by (cases "record_at ix p") force+
  then show ?thesis
    by (auto simp: ix' restrict_map_def fun_eq_iff)
qed

lemma prune_absent_ok: "good ix \<Longrightarrow> \<exists>n ix'. prune_absent ix live = Some (n, ix')"
  by (auto simp: prune_absent_def good_def Let_def)

lemma reconcile_full_done:
  assumes "good ix" "reconcile_full home sem arm fs (ix, w) = (st, ix', w')"
  shows "good ix'" "record_at ix' = map_of_tree home fs"
proof -
  let ?vs = "root_visits home fs (member_roots home)"
  obtain ix1 w1 live st1 where walked:
    "walk_roots home sem arm fs (member_roots home) (ix, w, [], no_stats) = (ix1, w1, live, st1)"
    by (metis prod_cases4)
  have c: "good ix1" "record_at ix1 = decided (record_at ix) ?vs" "live = mapped_keys ?vs"
    using walk_roots_done [of home fs "member_roots home" "(ix, w, [], no_stats)" sem arm] assms(1)
    by (simp_all add: walked carries_def)
  obtain n ix2 where p: "prune_absent ix1 live = Some (n, ix2)"
    using prune_absent_ok [OF c(1)] by blast
  then have ix': "ix' = ix2"
    using assms(2) by (simp add: reconcile_full_def walked)
  show "good ix'"
    using integrity.pruned [OF _ p] writable.pruned [OF _ p] c(1) by (simp add: good_def ix')
  show "record_at ix' = map_of_tree home fs"
    using record_at_pruned [OF c(1) p] decided_live [of "record_at ix" ?vs]
    by (simp add: ix' c map_of_tree_def fun_eq_iff)
qed

end
