(* ===== verification/Swamp_Serve.thy ===== *)
theory Swamp_Serve
  imports Swamp_Reconcile
begin

text \<open>
  The reactor of \<open>swampd\<close> as a state machine, and its properties: a served map conforms to the sealed
  policy in every reachable state, a reconciliation maps exactly the objects a walk of the tree reaches,
  and a map served as fresh has a healthy watcher.
\<close>

section \<open>What a walk reaches\<close>

text \<open>
  An object below a directory is reached when every directory above it, from the root on, is itself
  mapped and listed, and no link is on the way.
\<close>

inductive reaches :: "string \<Rightarrow> string \<Rightarrow> node \<Rightarrow> string \<Rightarrow> node \<Rightarrow> bool" for home where
  here: "reaches home d n d n"
| below: "reaches home (path_join d name) m p k \<Longrightarrow> (name, m) \<in> set es \<Longrightarrow> \<not> is_link m
    \<Longrightarrow> mapped_keys (visit home d (NDir st (Some es))) \<noteq> [] \<Longrightarrow> reaches home d (NDir st (Some es)) p k"

inductive_cases reachesE: "reaches home d n p k"

lemma reaches_no_dir: "\<not> is_dir n \<Longrightarrow> reaches home d n p k \<longleftrightarrow> p = d \<and> k = n"
  by (auto simp: is_dir_def intro: here elim: reachesE split: node.splits)

lemma tree_visits_iff:
  "v \<in> set (tree_visits home d n) \<longleftrightarrow> (\<exists>p k. reaches home d n p k \<and> v \<in> set (visit home p k))"
  "v \<in> set (entry_visits home d es) \<longleftrightarrow>
     (\<exists>name m p k. (name, m) \<in> set es \<and> \<not> is_link m \<and> reaches home (path_join d name) m p k
        \<and> v \<in> set (visit home p k))"
proof (induction home d n and home d es rule: tree_visits_entry_visits.induct)
  case (1 home d n)
  have split: "reaches home d n p k \<longleftrightarrow> (p = d \<and> k = n)
      \<or> (\<exists>st es name m. n = NDir st (Some es) \<and> (name, m) \<in> set es \<and> \<not> is_link m
           \<and> mapped_keys (visit home d n) \<noteq> [] \<and> reaches home (path_join d name) m p k)" for p k
    by (subst reaches.simps) blast
  show ?case
  proof (cases "mapped_keys (visit home d n) \<noteq> [] \<and> (\<exists>st es. n = NDir st (Some es))")
    case True
    then obtain st es where n: "n = NDir st (Some es)" by blast
    have "v \<in> set (tree_visits home d n) \<longleftrightarrow> v \<in> set (visit home d n) \<or> v \<in> set (entry_visits home d es)"
      using True by (simp add: tree_visits.simps n)
    also have "\<dots> \<longleftrightarrow> (\<exists>p k. reaches home d n p k \<and> v \<in> set (visit home p k))"
      using "1.IH" [OF _ n refl] True n unfolding split by auto
    finally show ?thesis .
  next
    case False
    then have "v \<in> set (tree_visits home d n) \<longleftrightarrow> v \<in> set (visit home d n)"
      by (auto simp: tree_visits.simps split: node.split option.split)
    then show ?thesis
      using False unfolding split by auto
  qed
next
  case (3 home d name n es)
  have head: "v \<in> set (if is_link n then [] else if is_dir n then tree_visits home (path_join d name) n
        else visit home (path_join d name) n)
      \<longleftrightarrow> \<not> is_link n \<and> (\<exists>p k. reaches home (path_join d name) n p k \<and> v \<in> set (visit home p k))"
    using "3.IH"(1) by (cases "is_link n"; cases "is_dir n") (simp_all add: reaches_no_dir)
  show ?case
    unfolding entry_visits.simps set_append Un_iff head "3.IH"(2) set_simps insert_iff prod.inject by blast
qed simp

definition mapped_in_tree :: "string \<Rightarrow> (string \<Rightarrow> node option) \<Rightarrow> string \<Rightarrow> object_record \<Rightarrow> bool" where
  "mapped_in_tree home fs k ob \<longleftrightarrow>
     (\<exists>r n p m. r \<in> set (member_roots home) \<and> exists_at (fs r) \<and> fs r = Some n \<and> reaches home r n p m
        \<and> (k, Some ob) \<in> set (visit home p m))"

lemma root_visit_in:
  "v \<in> set (root_visit home fs r) \<longleftrightarrow> exists_at (fs r) \<and> (\<exists>n. fs r = Some n \<and> v \<in> set (tree_visits home r n))"
  by (cases "fs r"; cases "exists_at (fs r)") (simp_all add: root_visit_def)

lemma root_visits_in:
  "v \<in> set (root_visits home fs rs) \<longleftrightarrow>
     (\<exists>r \<in> set rs. exists_at (fs r) \<and> (\<exists>n. fs r = Some n \<and> v \<in> set (tree_visits home r n)))"
  by (simp add: root_visits_def root_visit_in)

lemma root_visits_iff:
  "(k, Some ob) \<in> set (root_visits home fs (member_roots home)) \<longleftrightarrow> mapped_in_tree home fs k ob"
  unfolding root_visits_in mapped_in_tree_def tree_visits_iff(1) by blast

lemma map_of_tree_in: "map_of_tree home fs k = Some ob \<Longrightarrow> mapped_in_tree home fs k ob"
  using map_of_SomeD [of "rev (root_visits home fs (member_roots home))" k]
  by (auto simp: map_of_tree_def root_visits_iff [symmetric] split: option.splits)

lemma map_of_tree_iff:
  assumes "distinct (map fst (root_visits home fs (member_roots home)))"
  shows "map_of_tree home fs k = Some ob \<longleftrightarrow> mapped_in_tree home fs k ob"
proof
  assume "mapped_in_tree home fs k ob"
  then have "(k, Some ob) \<in> set (rev (root_visits home fs (member_roots home)))"
    by (simp add: root_visits_iff)
  then show "map_of_tree home fs k = Some ob"
    using assms by (simp add: map_of_tree_def rev_map [symmetric])
qed (rule map_of_tree_in)

lemma visit_policy:
  assumes "(k, Some ob) \<in> set (visit home p m)"
  shows "ob_path ob = k \<and> policy_row home ob"
proof (cases "stat_of m")
  case (Some sm)
  note sm = this
  show ?thesis
  proof (cases "path_rel p home")
    case (Some comps)
    then show ?thesis
      using assms sm unfolding policy_row_def
      by (intro conjI exI [of _ p] exI [of _ comps])
        (auto simp: visit_def Let_def split: option.splits if_splits)
  qed (use assms sm in \<open>simp add: visit_def Let_def\<close>)
qed (use assms in \<open>simp add: visit_def Let_def\<close>)

lemma reconciled_follows_policy:
  assumes "good ix" "reconcile_full home sem arm fs (ix, w) = (st, ix', w')"
  shows "rows_follow_policy home ix'"
proof -
  have wf: "wf_index ix'"
    using reconcile_full_done(1) [OF assms] by (simp add: good_def)
  have "policy_row home (snd r)" if "r \<in> set (ix_objects ix')" for r
  proof -
    have "record_at ix' (ob_path (snd r)) = Some (snd r)"
      using that by (auto simp: record_at_iff [OF wf])
    then have "mapped_in_tree home fs (ob_path (snd r)) (snd r)"
      using reconcile_full_done(2) [OF assms] by (simp add: map_of_tree_in)
    then show ?thesis
      by (auto simp: mapped_in_tree_def dest: visit_policy)
  qed
  then show ?thesis
    by (simp add: rows_follow_policy_def)
qed

section \<open>The reactor\<close>

text \<open>
  Reachable served maps from a store \<open>ix0\<close>: at start-up and at every turn the file tree, the answers of
  the kernel, what the descriptor delivers and the embedding tier are any.
\<close>

inductive serving :: "string \<Rightarrow> index \<Rightarrow> served \<Rightarrow> bool" for home ix0 where
  start: "serving home ix0 (snd (start_serving home sem arm fs ix0))"
| turn: "serving home ix0 sv \<Longrightarrow> serving home ix0 (reactor_turn home sem arm fs ready sv)"

lemma start_reconciles:
  "snd (start_serving home sem arm fs ix0) =
     (let r = snd (reconcile_full home sem arm fs (ix0, new_watcher)) in (fst r, snd r, freshness_of (snd r)))"
  by (simp add: start_serving_def Let_def case_prod_unfold)

lemma start_follows:
  assumes "good ix0"
  shows "good (fst (snd (start_serving home sem arm fs ix0)))"
    "rows_follow_policy home (fst (snd (start_serving home sem arm fs ix0)))"
proof -
  obtain st ix' w' where r: "reconcile_full home sem arm fs (ix0, new_watcher) = (st, ix', w')"
    by (metis prod_cases3)
  show "good (fst (snd (start_serving home sem arm fs ix0)))"
    using reconcile_full_done(1) [OF assms r] by (simp add: start_reconciles r Let_def)
  show "rows_follow_policy home (fst (snd (start_serving home sem arm fs ix0)))"
    using reconciled_follows_policy [OF assms r] by (simp add: start_reconciles r Let_def)
qed

lemma serving_policy:
  assumes "serving home ix0 sv" "good ix0"
  shows "wf_index (fst sv) \<and> rows_follow_policy home (fst sv)"
  using assms
proof (induction rule: serving.induct)
  case (start sem arm fs)
  then show ?case using start_follows [of ix0] by (simp add: good_def)
next
  case (turn sv sem arm fs ready)
  then show ?case
    by (simp add: integrity.turn_kept policy.turn_kept)
qed

section \<open>Watches\<close>

text \<open>The directories a walk of a tree maps, and what a walk does to the watch table.\<close>

definition points :: "string \<Rightarrow> string \<Rightarrow> node \<Rightarrow> string set" where
  "points home d n = {p. \<exists>k. reaches home d n p k \<and> is_dir k \<and> mapped_keys (visit home p k) \<noteq> []}"

definition watched :: "watcher \<Rightarrow> string set" where
  "watched w = snd ` set (wt_wds w)"

definition arms :: "string set \<Rightarrow> walk_state \<Rightarrow> walk_state \<Rightarrow> bool" where
  "arms D s s' \<longleftrightarrow>
     (good (fst s) \<longrightarrow> healthy (fst (snd s')) \<longrightarrow> healthy (fst (snd s)) \<and> D \<union> watched (fst (snd s)) \<subseteq> watched (fst (snd s')))"

lemma arms_same: "fst (snd s') = fst (snd s) \<Longrightarrow> arms {} s s'"
  by (simp add: arms_def)

lemma arms_trans: "(good (fst s) \<Longrightarrow> good (fst t)) \<Longrightarrow> arms D s t \<Longrightarrow> arms E t u \<Longrightarrow> arms (D \<union> E) s u"
  unfolding arms_def by blast

lemma arms_less: "arms E s t \<Longrightarrow> (good (fst s) \<Longrightarrow> D \<subseteq> E) \<Longrightarrow> arms D s t"
  unfolding arms_def by blast

definition exact_watches :: "(string \<Rightarrow> int option) \<Rightarrow> bool" where
  "exact_watches arm \<longleftrightarrow> (\<forall>p q. arm p \<noteq> None \<and> arm p = arm q \<longrightarrow> p = q)"

definition wds_of :: "(string \<Rightarrow> int option) \<Rightarrow> walk_state \<Rightarrow> bool" where
  "wds_of arm s \<longleftrightarrow> (\<forall>e \<in> set (wt_wds (fst (snd s))). arm (snd e) = Some (fst e))"

lemma arm_here_wds: "wds_of arm s \<Longrightarrow> wds_of arm (arm_here arm d s)"
  by (cases s) (fastforce simp: wds_of_def arm_here_def arm_dir_def split: option.splits)

lemma arm_here_arms:
  assumes "exact_watches arm" "wds_of arm s"
  shows "arms {d} s (arm_here arm d s)"
proof -
  have "p = d" if "(wd, p) \<in> set (wt_wds (fst (snd s)))" "arm d = Some wd" for wd p
    using assms that unfolding exact_watches_def wds_of_def by force
  then show ?thesis
    by (cases s) (force simp: arms_def arm_here_def arm_dir_def healthy_def watched_def image_iff split: option.split)
qed

lemma map_one_wds [simp]: "fst (snd (snd (map_one home sem p n s))) = fst (snd s)"
  by (simp add: map_one_def Let_def split: prod.splits)

lemma wds_of_map_one [simp]: "wds_of arm (snd (map_one h sem d n s)) = wds_of arm s"
  by (simp add: wds_of_def)

lemma walk_wds:
  "wds_of arm s \<Longrightarrow> wds_of arm (walk h sem arm d n s)"
  "wds_of arm s \<Longrightarrow> wds_of arm (walk_entries h sem arm d es s)"
proof (induction h sem arm d n s and h sem arm d es s rule: walk_walk_entries.induct)
  case (1 h sem arm d n s)
  have mapped: "wds_of arm (snd (map_one h sem d n s))"
    using "1.prems" by (simp add: wds_of_def)
  then show ?case
    using "1.IH" [OF refl] arm_here_wds [OF mapped, of d]
    by (subst walk.simps) (cases n; auto simp: Let_def split: option.split)
next
  case (3 h sem arm d name n es s)
  have "wds_of arm (snd (map_one h sem (path_join d name) n s))"
    using "3.prems" by (simp add: wds_of_def)
  then show ?case
    using "3.IH" "3.prems" by (simp del: if_split)
qed simp

lemma points_no_dir: "\<not> is_dir n \<Longrightarrow> points home d n = {}"
  by (auto simp: points_def reaches_no_dir)

lemma points_dir:
  "points home d n \<subseteq> (if mapped_keys (visit home d n) = [] then {} else
     {d} \<union> (case n of NDir _ (Some es) \<Rightarrow>
             (\<Union>e \<in> {e \<in> set es. \<not> is_link (snd e)}. points home (path_join d (fst e)) (snd e)) | _ \<Rightarrow> {}))"
proof
  fix p assume "p \<in> points home d n"
  then obtain k where k: "reaches home d n p k" "is_dir k" "mapped_keys (visit home p k) \<noteq> []"
    by (auto simp: points_def)
  from k(1) show "p \<in> (if mapped_keys (visit home d n) = [] then {} else
     {d} \<union> (case n of NDir _ (Some es) \<Rightarrow>
             (\<Union>e \<in> {e \<in> set es. \<not> is_link (snd e)}. points home (path_join d (fst e)) (snd e)) | _ \<Rightarrow> {}))"
    by cases (use k in \<open>force simp: points_def\<close>)+
qed


lemma map_one_arms: "arms {} s (snd (map_one home sem p n s))"
  by (rule arms_same) simp

lemma map_one_good: "good (fst s) \<Longrightarrow> good (fst (snd (map_one home sem p n s)))"
  using map_one_done [of home p n s sem] by (simp add: carries_def)

lemma walk_good:
  "good (fst s) \<Longrightarrow> good (fst (walk h sem arm d n s))"
  using walk_done(1) [of h d n s sem arm] by (simp add: carries_def)

lemma walk_arms:
  "exact_watches arm \<Longrightarrow> wds_of arm s \<Longrightarrow> arms (points h d n) s (walk h sem arm d n s)"
  "exact_watches arm \<Longrightarrow> wds_of arm s \<Longrightarrow>
     arms (\<Union>e \<in> {e \<in> set es. \<not> is_link (snd e)}. points h (path_join d (fst e)) (snd e)) s (walk_entries h sem arm d es s)"
proof (induction h sem arm d n s and h sem arm d es s rule: walk_walk_entries.induct)
  case (1 h sem arm d n s)
  let ?r = "map_one h sem d n s"
  have wds: "wds_of arm (snd ?r)"
    using "1.prems"(2) by (simp add: wds_of_def)
  note wds = wds arm_here_wds [OF wds, of d]
  have armed: "arms ({} \<union> {d}) s (arm_here arm d (snd ?r))"
    by (rule arms_trans [OF map_one_good map_one_arms arm_here_arms [OF "1.prems"(1) wds(1)]])
  have mapped: "fst ?r \<longleftrightarrow> mapped_keys (visit h d n) \<noteq> []" if "good (fst s)"
    using map_one_done [of h d n s sem] that by simp
  have good: "good (fst (arm_here arm d (snd ?r)))" if "good (fst s)"
    using map_one_good [OF that] by (simp add: integrity.armed)
  show ?case
  proof (cases "fst ?r \<and> (\<exists>st es. n = NDir st (Some es))")
    case True
    then obtain st es where n: "n = NDir st (Some es)" "fst ?r" by blast
    have "arms (({} \<union> {d}) \<union> (\<Union>e \<in> {e \<in> set es. \<not> is_link (snd e)}. points h (path_join d (fst e)) (snd e))) s
        (walk_entries h sem arm d es (arm_here arm d (snd ?r)))"
      using "1.IH" [OF refl _ n(1) refl "1.prems"(1) wds(2)] n by (intro arms_trans [OF good armed]) simp_all
    then have "arms (points h d n) s (walk_entries h sem arm d es (arm_here arm d (snd ?r)))"
      by (rule arms_less) (use points_dir [of h d n] n in \<open>auto split: if_splits\<close>)
    then show ?thesis
      using n by (subst walk.simps) (simp add: Let_def)
  next
    case False
    have less: "points h d n \<subseteq> (if fst ?r then {d} else {})" if "good (fst s)"
      using points_dir [of h d n] mapped [OF that] False by (auto split: if_splits node.splits option.splits)
    have "arms (if fst ?r then {d} else {}) s (walk h sem arm d n s)"
      using armed map_one_arms [of s h sem d n] False
      by (subst walk.simps) (auto simp: Let_def split: node.split option.split)
    then show ?thesis
      by (rule arms_less [OF _ less])
  qed
next
  case (3 h sem arm d name n es s)
  let ?s = "if is_link n then s else if is_dir n then walk h sem arm (path_join d name) n s
      else snd (map_one h sem (path_join d name) n s)"
  let ?D = "if is_link n then {} else points h (path_join d name) n"
  have "arms ?D s ?s"
    using "3.IH"(1) [OF _ _ "3.prems"] arms_same [of s s] map_one_arms by (auto simp: points_no_dir)
  moreover have "wds_of arm ?s"
    using "3.prems"(2) walk_wds(1) [OF "3.prems"(2)] by simp
  moreover have "good (fst ?s)" if "good (fst s)"
    using that walk_good map_one_good by simp
  ultimately have "arms (?D \<union> (\<Union>e \<in> {e \<in> set es. \<not> is_link (snd e)}. points h (path_join d (fst e)) (snd e))) s
      (walk_entries h sem arm d es ?s)"
    using arms_trans "3.IH"(2) [OF "3.prems"(1)] by blast
  then show ?case
    unfolding walk_entries.simps by (rule arms_less) auto
qed (simp add: arms_same)

lemma walk_roots_arms:
  "exact_watches arm \<Longrightarrow> wds_of arm s \<Longrightarrow>
     arms (\<Union>r \<in> set rs. {p. exists_at (fs r) \<and> (\<exists>n. fs r = Some n \<and> p \<in> points h r n)}) s
       (walk_roots h sem arm fs rs s)"
proof (induction rs arbitrary: s)
  case (Cons r rs)
  let ?s = "if exists_at (fs r) then (case fs r of Some n \<Rightarrow> walk h sem arm r n s | None \<Rightarrow> s) else s"
  have "arms {p. exists_at (fs r) \<and> (\<exists>n. fs r = Some n \<and> p \<in> points h r n)} s ?s"
    using walk_arms(1) [OF Cons.prems] arms_same [of s s]
    by (cases "exists_at (fs r)"; cases "fs r") simp_all
  moreover have "wds_of arm ?s"
    using Cons.prems(2) walk_wds(1) [OF Cons.prems(2)] by (simp split: option.split)
  moreover have "good (fst ?s)" if "good (fst s)"
    using that walk_good by (simp split: option.split)
  ultimately have "arms ({p. exists_at (fs r) \<and> (\<exists>n. fs r = Some n \<and> p \<in> points h r n)}
        \<union> (\<Union>r \<in> set rs. {p. exists_at (fs r) \<and> (\<exists>n. fs r = Some n \<and> p \<in> points h r n)})) s
      (walk_roots h sem arm fs rs ?s)"
    using Cons.IH [OF Cons.prems(1)] by (intro arms_trans)
  then show ?case
    unfolding walk_roots.simps by (rule arms_less) auto
qed (simp add: arms_same)


lemma reconciled_watches:
  assumes "good ix" "exact_watches arm" "wds_of arm (ix, w, [], no_stats)"
    and "reconcile_full home sem arm fs (ix, w) = (st, ix', w')" "healthy w'"
    and "r \<in> set (member_roots home)" "exists_at (fs r)" "fs r = Some n" "p \<in> points home r n"
  shows "p \<in> watched w'"
proof -
  obtain ix1 w1 live st1 where walked:
    "walk_roots home sem arm fs (member_roots home) (ix, w, [], no_stats) = (ix1, w1, live, st1)"
    by (metis prod_cases4)
  have w': "w' = w1"
    using assms(4) by (auto simp: reconcile_full_def walked split: option.splits prod.splits)
  have "(\<Union>r \<in> set (member_roots home). {p. exists_at (fs r) \<and> (\<exists>n. fs r = Some n \<and> p \<in> points home r n)}) \<subseteq> watched w1"
    using walk_roots_arms [OF assms(2,3), where rs = "member_roots home" and h = home and fs = fs and sem = sem] assms(1,5)
    by (simp add: arms_def walked w')
  moreover have "p \<in> {p. exists_at (fs r) \<and> (\<exists>n. fs r = Some n \<and> p \<in> points home r n)}"
    using assms(7-) by blast
  ultimately show ?thesis
    using assms(6) unfolding w' by blast
qed

lemma process_broken: "wt_broken w \<Longrightarrow> freshness_of w = Stale"
  by (simp add: freshness_of_def healthy_def)

lemma serving_fresh:
  "serving home ix0 sv \<Longrightarrow> snd (snd sv) = Fresh \<Longrightarrow> healthy (fst (snd sv))"
proof (induction rule: serving.induct)
  case (turn sv sem arm fs ready)
  obtain ix w fr where sv: "sv = (ix, w, fr)" by (cases sv)
  show ?case
    using turn by (auto simp: sv reactor_turn_def Let_def freshness_of_def split: option.splits prod.splits if_splits)
qed (simp add: start_reconciles Let_def freshness_of_def split: if_splits)

section \<open>Properties\<close>

text \<open>An empty store, a small tree and a kernel that arms its directory, for the instances.\<close>

definition empty_index :: index where
  "empty_index = \<lparr>ix_meta = [], ix_objects = [], ix_fts = [], ix_chunks = [], ix_vectors = [], ix_writable = True\<rparr>"

definition one_second :: file_stat where
  "one_second = \<lparr>sm_dev = 1, sm_ino = 1, sm_size = 1, sm_mtime = 1\<rparr>"

definition small_tree :: "string \<Rightarrow> node option" where
  "small_tree p = (if p = ''/h/Projects'' then Some (NDir one_second (Some [(''a'', NFile one_second (Some ''x''))])) else None)"

lemma empty_index_ok: "wf_index empty_index" "ix_writable empty_index"
  by (simp_all add: empty_index_def wf_index_def)

text \<open>
  C19: a full reconciliation makes the records of the map those of the file tree, the last decision of the
  walk for each key and nothing else, whatever the store held before, whatever the kernel and the
  embedding tier answer.
\<close>

theorem reconcile_maps_the_tree:
  assumes "wf_index ix" "ix_writable ix"
  shows "record_at (fst (snd (reconcile_full home sem arm fs (ix, w)))) = map_of_tree home fs"
proof -
  obtain st ix' w' where r: "reconcile_full home sem arm fs (ix, w) = (st, ix', w')"
    by (metis prod_cases3)
  show ?thesis
    using reconcile_full_done(2) [OF _ r] assms by (simp add: good_def r)
qed

theorem reconcile_maps_the_tree_witness:
  "record_at (fst (snd (reconcile_full ''/h'' None (\<lambda>p. Some 1) small_tree (empty_index, new_watcher))))
   = map_of_tree ''/h'' small_tree"
  by (rule reconcile_maps_the_tree [OF empty_index_ok])

lemma small_visits: "root_visits ''/h'' small_tree (member_roots ''/h'')
  = [(''/h/Projects'', Some \<lparr>ob_path = ''/h/Projects'', ob_dev = 1, ob_ino = 1, ob_size = 1, ob_mtime = 1, ob_domain = ''projects'', ob_is_dir = True\<rparr>),
     (''/h/Projects/a'', Some \<lparr>ob_path = ''/h/Projects/a'', ob_dev = 1, ob_ino = 1, ob_size = 1, ob_mtime = 1, ob_domain = ''projects'', ob_is_dir = False\<rparr>)]"
  by code_simp

text \<open>
  when no two objects the walk meets share a key, an object has a row after a reconciliation exactly
  if the walk reaches it through mapped directories, without following a link, and the policy places it
  in a domain; the row holds its current metadata.
\<close>

theorem reconciled_rows_are_the_reached_objects:
  assumes "wf_index ix" "ix_writable ix"
    and "distinct (map fst (root_visits home fs (member_roots home)))"
  shows "ob \<in> snd ` set (ix_objects (fst (snd (reconcile_full home sem arm fs (ix, w)))))
    \<longleftrightarrow> mapped_in_tree home fs (ob_path ob) ob"
proof -
  obtain st ix' w' where r: "reconcile_full home sem arm fs (ix, w) = (st, ix', w')"
    by (metis prod_cases3)
  have "wf_index ix'" "record_at ix' = map_of_tree home fs"
    using reconcile_full_done [OF _ r] assms by (simp_all add: good_def)
  then have "ob \<in> snd ` set (ix_objects ix') \<longleftrightarrow> map_of_tree home fs (ob_path ob) = Some ob"
    using record_at_iff [of ix' "ob_path ob" ob] by simp
  then show ?thesis
    by (simp add: r map_of_tree_iff [OF assms(3)])
qed

theorem reconciled_rows_are_the_reached_objects_witness:
  "\<forall>ob. ob \<in> snd ` set (ix_objects (fst (snd (reconcile_full ''/h'' None (\<lambda>p. Some 1) small_tree (empty_index, new_watcher)))))
    \<longleftrightarrow> mapped_in_tree ''/h'' small_tree (ob_path ob) ob"
  by (intro allI reconciled_rows_are_the_reached_objects [OF empty_index_ok]) (simp add: small_visits)

text \<open>
  C15: in every state the reactor can reach from a writable, well-formed store, whatever the tree, the
  events, the kernel and the embedding tier do, the tables are consistent and every row of the map is an
  object below home at a place the sealed policy admits, under the domain the policy gives it.
\<close>

theorem served_map_follows_policy:
  assumes "wf_index ix0" "ix_writable ix0" "serving home ix0 (ix, w, fr)"
  shows "wf_index ix \<and> rows_follow_policy home ix"
  using serving_policy [OF assms(3)] assms(1,2) by (simp add: good_def)

theorem served_map_follows_policy_witness:
  "let sv = reactor_turn ''/h'' None (\<lambda>p. Some 1) small_tree (Some [WouldBlock])
              (snd (start_serving ''/h'' None (\<lambda>p. Some 1) small_tree empty_index))
   in wf_index (fst sv) \<and> rows_follow_policy ''/h'' (fst sv)"
proof -
  obtain ix w fr where sv: "reactor_turn ''/h'' None (\<lambda>p. Some 1) small_tree (Some [WouldBlock])
      (snd (start_serving ''/h'' None (\<lambda>p. Some 1) small_tree empty_index)) = (ix, w, fr)"
    by (metis prod_cases3)
  have "serving ''/h'' empty_index (ix, w, fr)"
    unfolding sv [symmetric] by (intro serving.intros)
  then show ?thesis
    using served_map_follows_policy [OF empty_index_ok, of "''/h''" ix w fr] by (simp add: sv)
qed

text \<open>
  a map served as fresh right after start-up is watched without a gap: when the kernel gives
  different directories different watches, every directory the map holds is armed under its own path.
\<close>

theorem fresh_start_watches_every_directory:
  assumes "wf_index ix" "ix_writable ix" "exact_watches arm"
    and "start_serving home sem arm fs ix = (st, ix', w, Fresh)"
    and "r \<in> set (member_roots home)" "exists_at (fs r)" "fs r = Some n" "p \<in> points home r n"
  shows "p \<in> watched w"
proof -
  obtain st1 ix1 w1 where r: "reconcile_full home sem arm fs (ix, new_watcher) = (st1, ix1, w1)"
    by (metis prod_cases3)
  have "w1 = w" "healthy w"
    using assms(4) by (auto simp: start_serving_def r freshness_of_def split: if_splits)
  then show ?thesis
    using reconciled_watches [OF _ assms(3) _ r _ assms(5-8)] assms(1,2)
    by (simp add: good_def wds_of_def new_watcher_def)
qed

theorem fresh_start_watches_every_directory_witness:
  "''/h/Projects'' \<in> watched (fst (snd (snd (start_serving ''/h'' None
      (\<lambda>p. if p = ''/h/Projects'' then Some 1 else None) small_tree empty_index))))"
proof -
  let ?arm = "\<lambda>p. if p = ''/h/Projects'' then Some (1::int) else None"
  obtain st ix w fr where s: "start_serving ''/h'' None ?arm small_tree empty_index = (st, ix, w, fr)"
    by (metis prod_cases4)
  have "snd (snd (snd (start_serving ''/h'' None ?arm small_tree empty_index))) = Fresh"
    by code_simp
  then have fresh: "start_serving ''/h'' None ?arm small_tree empty_index = (st, ix, w, Fresh)"
    by (simp add: s)
  have root: "''/h/Projects'' \<in> set (member_roots ''/h'')"
    by code_simp
  let ?n = "NDir one_second (Some [(''a'', NFile one_second (Some ''x''))])"
  have "mapped_keys (visit ''/h'' ''/h/Projects'' ?n) \<noteq> []"
    by code_simp
  then have "''/h/Projects'' \<in> points ''/h'' ''/h/Projects'' ?n"
    by (auto simp: points_def is_dir_def intro: reaches.here)
  moreover have "exact_watches ?arm"
    by (simp add: exact_watches_def)
  ultimately have "''/h/Projects'' \<in> watched w"
    using fresh_start_watches_every_directory [OF empty_index_ok _ fresh root, of ?n]
    by (simp add: small_tree_def exists_at_def)
  then show ?thesis
    by (simp add: s)
qed

text \<open>
  in every reachable state a map served as fresh has a watcher that missed nothing it knows of: no
  failed arm since the last full reconciliation and no failed read of the descriptor ever.
\<close>

theorem fresh_means_healthy:
  assumes "serving home ix0 (ix, w, Fresh)"
  shows "\<not> wt_degraded w \<and> \<not> wt_broken w"
  using serving_fresh [OF assms] by (simp add: healthy_def)

theorem fresh_means_healthy_witness:
  "\<exists>ix w. snd (start_serving ''/h'' None (\<lambda>p. Some 1) small_tree empty_index) = (ix, w, Fresh)
     \<and> \<not> wt_degraded w \<and> \<not> wt_broken w"
proof -
  have "snd (snd (snd (start_serving ''/h'' None (\<lambda>p. Some 1) small_tree empty_index))) = Fresh"
    by code_simp
  then obtain ix w where s: "snd (start_serving ''/h'' None (\<lambda>p. Some 1) small_tree empty_index) = (ix, w, Fresh)"
    by (metis prod.collapse)
  then have "serving ''/h'' empty_index (ix, w, Fresh)"
    using serving.start [of "''/h''" empty_index None "\<lambda>p. Some 1" small_tree] by simp
  then show ?thesis
    using fresh_means_healthy [of "''/h''" empty_index ix w] s by blast
qed

section \<open>Texts that the map keeps\<close>

lemma upsert_keeps_texts: "upsert_object ix ob = Some (i, ix') \<Longrightarrow> ix_fts ix' = ix_fts ix"
  by (auto simp: upsert_object_def Let_def split: option.splits if_splits)

text \<open>
  a file that was replaced by a directory while nothing was watching keeps its text: mapping the
  directory updates the row and leaves the words of the vanished file searchable under its path.
\<close>

theorem directory_keeps_the_text_of_a_file:
  assumes "(i, t) \<in> set (ix_fts ix)"
  shows "(i, t) \<in> set (ix_fts (snd (map_object sem key dm (NDir sm es) sm ix)))"
  using assms by (auto simp: map_object_def Let_def upsert_keeps_texts split: option.split)

theorem directory_keeps_the_text_of_a_file_witness:
  "(1, ''secret'') \<in> set (ix_fts (snd (map_object None ''/h/Projects/a'' (mk_domain ''projects'' [''Projects''] RO_SEARCH True)
     (NDir one_second (Some [])) one_second
     (empty_index\<lparr>ix_objects := [(1, \<lparr>ob_path = ''/h/Projects/a'', ob_dev = 1, ob_ino = 1, ob_size = 6, ob_mtime = 0,
        ob_domain = ''projects'', ob_is_dir = False\<rparr>)], ix_fts := [(1, ''secret'')]\<rparr>))))"
  by (rule directory_keeps_the_text_of_a_file) simp

lemma vectors_keep_texts [simp]:
  "ix_fts (insert_chunks i sv cs ix) = ix_fts ix"
  "ix_fts (or_keep ix (clear_object_vectors ix i)) = ix_fts ix"
  "ix_fts (or_keep ix (replace_object_vectors ix i sv cs)) = ix_fts ix"
  by (induction cs arbitrary: ix)
    (auto simp: insert_chunk_def or_keep_def index_update_defs split: option.splits if_splits)

lemma semantic_keeps_texts [simp]:
  "ix_fts (enrich_semantic ctx i dm t ix) = ix_fts ix"
  "ix_fts (reembed_if_vectors_missing ctx i dm content ix) = ix_fts ix"
  by (simp_all add: enrich_semantic_def reembed_if_vectors_missing_def Let_def split: sum.split option.split)

lemma first_upsert:
  assumes "ix_writable ix" "object_id ix (ob_path ob) = None"
  shows "upsert_object ix ob = Some (next_id (map fst (ix_objects ix)),
      ix\<lparr>ix_objects := ix_objects ix @ [(next_id (map fst (ix_objects ix)), ob)]\<rparr>)"
  using assms by (simp add: upsert_object_def Let_def)

lemma appended_row:
  assumes "object_id ix (ob_path ob) = None" "ix_objects ix' = ix_objects ix @ [(i, ob)]"
  shows "object_id ix' (ob_path ob) = Some i" "meta_for ix' (ob_path ob) = Some (ob_mtime ob, ob_size ob)"
  using assms by (simp_all add: object_id_def meta_for_def find_append)

lemma repeated_upsert:
  assumes "ix_writable ix" "object_id ix (ob_path ob) = None"
    and "ix_objects ix' = ix_objects ix @ [(next_id (map fst (ix_objects ix)), ob)]" "ix_writable ix'"
  shows "upsert_object ix' ob = Some (next_id (map fst (ix_objects ix)), ix')"
proof -
  let ?i = "next_id (map fst (ix_objects ix))"
  have fresh: "fst r \<noteq> ?i" if "r \<in> set (ix_objects ix)" for r
    using next_id_fresh [of "map fst (ix_objects ix)"] that by (metis image_eqI list.set_map)
  have "map (\<lambda>r. if fst r = ?i then (?i, ob) else r) (ix_objects ix') = ix_objects ix'"
    using fresh by (simp add: assms(3) map_idI)
  then show ?thesis
    using assms(4) appended_row(1) [OF assms(2,3)] by (simp add: upsert_object_def)
qed

text \<open>
  a file that could not be read when it was first mapped stays without text as long as its size and
  modification time stay: the second visit takes its record for an enriched one, and counts it as
  such, whatever the file holds now.
\<close>

theorem unreadable_file_stays_unsearchable:
  assumes "wf_index ix" "ix_writable ix" "object_id ix key = None" "sm_size sm \<le> MAX_FTS_BYTES"
  shows "let (st, ix2) = map_object sem key dm (NFile sm (Some t)) sm
                           (snd (map_object sem key dm (NFile sm None) sm ix))
         in ss_texts st = 1 \<and> (\<exists>i. object_id ix2 key = Some i \<and> i \<notin> fst ` set (ix_fts ix2))"
proof -
  let ?ob = "\<lparr>ob_path = key, ob_dev = sm_dev sm, ob_ino = sm_ino sm, ob_size = sm_size sm,
                ob_mtime = sm_mtime sm, ob_domain = id_name dm, ob_is_dir = False\<rparr>"
  let ?i = "next_id (map fst (ix_objects ix))"
  define ix1 where "ix1 = snd (map_object sem key dm (NFile sm None) sm ix)"
  have up: "upsert_object ix ?ob = Some (?i, ix\<lparr>ix_objects := ix_objects ix @ [(?i, ?ob)]\<rparr>)"
    using first_upsert [of ix ?ob] assms by simp
  have no_meta: "meta_for ix key = None"
    using assms(3) by (simp add: meta_for_def object_id_def)
  let ?ix = "ix\<lparr>ix_objects := ix_objects ix @ [(?i, ?ob)]\<rparr>"
  have first: "ix1 = or_keep (or_keep ?ix (clear_fts ?ix ?i)) (clear_object_vectors (or_keep ?ix (clear_fts ?ix ?i)) ?i)"
    using assms(4) by (simp add: ix1_def map_object_def Let_def no_meta is_dir_def up enrich_file_def extract_text_def)
  have rows: "ix_objects ix1 = ix_objects ix @ [(?i, ?ob)]"
    by (simp add: first)
  have texts: "?i \<notin> fst ` set (ix_fts ix1)"
    using assms(2) by (auto simp: first clear_fts_def or_keep_def index_update_defs)
  have "ix_writable ix1"
    using assms(2) by (simp add: first clear_fts_def or_keep_def index_update_defs)
  then have again: "upsert_object ix1 ?ob = Some (?i, ix1)"
    using repeated_upsert [OF assms(2) _ rows] assms(3) by simp
  have meta: "meta_for ix1 key = Some (sm_mtime sm, sm_size sm)" "object_id ix1 key = Some ?i"
    using appended_row [of ix ?ob, OF _ rows] assms(3) by simp_all
  have "object_id (reembed_if_vectors_missing ctx ?i dm (Some t) ix1) key = Some ?i" for ctx
    using meta(2) by (simp add: object_id_def)
  moreover have "map_object sem key dm (NFile sm (Some t)) sm ix1 = (no_stats\<lparr>ss_objects := 1, ss_texts := 1\<rparr>,
      case sem of None \<Rightarrow> ix1 | Some ctx \<Rightarrow> reembed_if_vectors_missing ctx ?i dm (Some t) ix1)"
    using assms(4) meta by (simp add: map_object_def Let_def is_dir_def again enrich_file_def no_stats_def)
  ultimately show ?thesis
    unfolding ix1_def [symmetric] using texts meta by (cases sem) simp_all
qed

theorem unreadable_file_stays_unsearchable_witness:
  "let (st, ix2) = map_object None ''/h/Projects/a'' (mk_domain ''projects'' [''Projects''] RO_SEARCH True)
                           (NFile one_second (Some ''x'')) one_second
                           (snd (map_object None ''/h/Projects/a'' (mk_domain ''projects'' [''Projects''] RO_SEARCH True)
                             (NFile one_second None) one_second empty_index))
         in ss_texts st = 1 \<and> (\<exists>i. object_id ix2 ''/h/Projects/a'' = Some i \<and> i \<notin> fst ` set (ix_fts ix2))"
  by (rule unreadable_file_stays_unsearchable [OF empty_index_ok])
    (simp_all add: empty_index_def object_id_def one_second_def MAX_FTS_BYTES_def)

end
