(* ===== verification/Gate_Session.thy ===== *)
theory Gate_Session
  imports Rust_Text
begin

text \<open>
  What a session may reach and who it is on the wire: the authority record that \<open>gatekeeperd\<close> writes
  (\<open>authority_record.rs\<close>) and \<open>swampd\<close> reads (\<open>swampd/src/authority.rs\<close>), and the binding of a
  sandbox address to its session (\<open>net_binding.rs\<close>).  Resolving a path is a parameter.  The directories
  the command lines name are a map from paths; modes and owners are not modelled.
\<close>

section \<open>Authority records\<close>

definition valid_session_id :: "string \<Rightarrow> bool" where
  "valid_session_id i \<longleftrightarrow>
     i \<noteq> [] \<and> i \<noteq> ''.'' \<and> i \<noteq> ''..'' \<and> length i \<le> 128 \<and> list_all token_byte i"

definition authority_lines :: "string \<Rightarrow> string list \<Rightarrow> string list" where
  "authority_lines sid canon =
     [''SHREK-AUTHORITY 1'', ''session '' @ sid] @ map (\<lambda>c. ''grant '' @ c) canon @ [''END'']"

fun canonical_all :: "(string \<Rightarrow> string option) \<Rightarrow> string list \<Rightarrow> string list option" where
  "canonical_all real [] = Some []"
| "canonical_all real (g # gs) =
     (case real g of None \<Rightarrow> None | Some c \<Rightarrow> map_option ((#) (utf8_lossy c)) (canonical_all real gs))"

definition authority_write :: "(string \<Rightarrow> string option) \<Rightarrow> dir \<Rightarrow> string \<Rightarrow> string list \<Rightarrow> (io_error, dir) result" where
  "authority_write real d sid grants =
     (if \<not> valid_session_id sid then Inl (InvalidInput ''invalid session id'')
      else case canonical_all real grants of
        None \<Rightarrow> Inl OsError
      | Some canon \<Rightarrow>
          if list_ex (\<lambda>c. nl \<in> set c) canon then Inl (InvalidInput ''grant path contains newline'')
          else atomic_write d sid (unlines (authority_lines sid canon)))"

definition authority_remove :: "dir \<Rightarrow> string \<Rightarrow> (io_error, dir) result" where
  "authority_remove d sid =
     (if valid_session_id sid then remove_if_present d sid else Inl (InvalidInput ''invalid session id''))"

text \<open>The reader of \<open>swampd\<close>: every failure is an empty grant set.\<close>

definition load_grants :: "dir \<Rightarrow> string \<Rightarrow> string list" where
  "load_grants d sid =
     (if \<not> valid_session_id sid then []
      else case read_to_string d sid of
        None \<Rightarrow> []
      | Some t \<Rightarrow>
          (case str_lines t of
             h # ls \<Rightarrow>
               if h \<noteq> ''SHREK-AUTHORITY 1'' then []
               else List.map_filter
                 (\<lambda>l. case str_strip_prefix ''grant '' l of
                    Some r \<Rightarrow> if r \<noteq> [] then Some r else None | None \<Rightarrow> None) ls
           | [] \<Rightarrow> []))"

section \<open>Address bindings\<close>

definition binding_body :: "ipv4 \<Rightarrow> string \<Rightarrow> string" where
  "binding_body ip sid =
     unlines [''SHREK-NET-BINDING 1'', ''ip '' @ ipv4_show ip, ''session '' @ sid, ''END'']"

definition net_write_binding :: "dir \<Rightarrow> ipv4 \<Rightarrow> string \<Rightarrow> (io_error, dir) result" where
  "net_write_binding d ip sid =
     (if valid_session_id sid then atomic_write d (ipv4_show ip) (binding_body ip sid)
      else Inl (InvalidInput ''invalid session id''))"

definition net_remove_binding :: "dir \<Rightarrow> ipv4 \<Rightarrow> (io_error, dir) result" where
  "net_remove_binding d ip = remove_if_present d (ipv4_show ip)"

definition load_binding :: "dir \<Rightarrow> ipv4 \<Rightarrow> string option" where
  "load_binding d ip = do {
     body \<leftarrow> read_to_string d (ipv4_show ip);
     (case str_lines body of
        h # i # s # e # _ \<Rightarrow>
          if h \<noteq> ''SHREK-NET-BINDING 1'' then None
          else do {
            a \<leftarrow> str_strip_prefix ''ip '' i;
            if a \<noteq> ipv4_show ip then None
            else do {
              sid \<leftarrow> str_strip_prefix ''session '' s;
              if e \<noteq> ''END'' \<or> \<not> valid_session_id sid then None else Some sid } }
      | _ \<Rightarrow> None) }"

section \<open>Command lines\<close>

type_synonym dirs = "string \<Rightarrow> dir"

record authority_args =
  aa_session :: string
  aa_grants :: "string list"
  aa_dir :: string
  aa_rm :: bool

fun parse_authority_args :: "string list \<Rightarrow> authority_args \<Rightarrow> authority_args option" where
  "parse_authority_args [] a = Some a"
| "parse_authority_args (x # xs) a =
     (if x = ''--session'' then
        (case xs of [] \<Rightarrow> Some (a\<lparr>aa_session := []\<rparr>) | v # r \<Rightarrow> parse_authority_args r (a\<lparr>aa_session := v\<rparr>))
      else if x = ''--grant'' then
        (case xs of [] \<Rightarrow> Some a | v # r \<Rightarrow> parse_authority_args r (a\<lparr>aa_grants := aa_grants a @ [v]\<rparr>))
      else if x = ''--dir'' then
        (case xs of [] \<Rightarrow> Some a | v # r \<Rightarrow> parse_authority_args r (a\<lparr>aa_dir := v\<rparr>))
      else if x = ''--rm'' then parse_authority_args xs (a\<lparr>aa_rm := True\<rparr>)
      else None)"

definition finish_write :: "dirs \<Rightarrow> string \<Rightarrow> (io_error, dir) result \<Rightarrow> int \<times> dirs" where
  "finish_write ds at r = (case r of Inl _ \<Rightarrow> (1, ds) | Inr d \<Rightarrow> (0, ds(at := d)))"

definition authority_cli :: "(string \<Rightarrow> string option) \<Rightarrow> string list \<Rightarrow> dirs \<Rightarrow> int \<times> dirs" where
  "authority_cli real args ds =
     (case parse_authority_args args
             \<lparr>aa_session = [], aa_grants = [], aa_dir = ''/run/shrek/authority'', aa_rm = False\<rparr> of
        None \<Rightarrow> (2, ds)
      | Some a \<Rightarrow>
          if aa_session a = [] then (2, ds)
          else if aa_rm a then finish_write ds (aa_dir a) (authority_remove (ds (aa_dir a)) (aa_session a))
          else if aa_grants a = [] then (2, ds)
          else finish_write ds (aa_dir a) (authority_write real (ds (aa_dir a)) (aa_session a) (aa_grants a)))"

record binding_args =
  na_ip :: "ipv4 option"
  na_session :: string
  na_dir :: string
  na_rm :: bool

fun parse_binding_args :: "string list \<Rightarrow> binding_args \<Rightarrow> binding_args option" where
  "parse_binding_args [] a = Some a"
| "parse_binding_args (x # xs) a =
     (if x = ''--ip'' then
        (case xs of [] \<Rightarrow> Some (a\<lparr>na_ip := None\<rparr>) | v # r \<Rightarrow> parse_binding_args r (a\<lparr>na_ip := ipv4_parse v\<rparr>))
      else if x = ''--session'' then
        (case xs of [] \<Rightarrow> Some (a\<lparr>na_session := []\<rparr>) | v # r \<Rightarrow> parse_binding_args r (a\<lparr>na_session := v\<rparr>))
      else if x = ''--dir'' then
        (case xs of [] \<Rightarrow> Some a | v # r \<Rightarrow> parse_binding_args r (a\<lparr>na_dir := v\<rparr>))
      else if x = ''--rm'' then parse_binding_args xs (a\<lparr>na_rm := True\<rparr>)
      else None)"

definition binding_cli :: "string list \<Rightarrow> dirs \<Rightarrow> int \<times> dirs" where
  "binding_cli args ds =
     (case parse_binding_args args
             \<lparr>na_ip = None, na_session = [], na_dir = ''/run/shrek/net-binding'', na_rm = False\<rparr> of
        None \<Rightarrow> (2, ds)
      | Some a \<Rightarrow>
          (case na_ip a of
             None \<Rightarrow> (2, ds)
           | Some ip \<Rightarrow>
               if na_rm a then finish_write ds (na_dir a) (net_remove_binding (ds (na_dir a)) ip)
               else if na_session a = [] then (2, ds)
               else finish_write ds (na_dir a) (net_write_binding (ds (na_dir a)) ip (na_session a))))"

end
