(* ===== verification/Swamp_Server.thy ===== *)
theory Swamp_Server
  imports Swamp_Watch Gate_Session
begin

text \<open>
  The query interface of \<open>swampd\<close> (\<open>swampd/src/server.rs\<close>): the request reader, the narrowing of a
  scope, the domains that grant a verb, the fusion of the two tiers and the response, as its lines.
\<close>

section \<open>Requests\<close>

definition MAX_REQUEST_LINES :: nat where "MAX_REQUEST_LINES = 64"
definition MAX_LIMIT :: nat where "MAX_LIMIT = 500"
definition DEFAULT_LIMIT :: nat where "DEFAULT_LIMIT = 50"

record swamp_request =
  sq_session :: string
  sq_intent :: "intent option"
  sq_scope :: "string option"
  sq_limit :: nat
  sq_query :: string

definition empty_request :: swamp_request where
  "empty_request =
     \<lparr>sq_session = [], sq_intent = None, sq_scope = None, sq_limit = DEFAULT_LIMIT, sq_query = []\<rparr>"

definition parse_limit :: "string \<Rightarrow> nat option" where
  "parse_limit v = map_option (\<lambda>w :: u64. min MAX_LIMIT (max 1 (unat w))) (parse_uint v)"

definition request_field :: "string \<Rightarrow> swamp_request \<Rightarrow> swamp_request option" where
  "request_field l r =
     (let (k, v) = (case str_split_once sp l of Some kv \<Rightarrow> kv | None \<Rightarrow> (l, [])) in
      if k = ''session'' then Some (r\<lparr>sq_session := v\<rparr>)
      else if k = ''intent'' then
        (if v = ''search'' then Some (r\<lparr>sq_intent := Some Search\<rparr>)
         else if v = ''discover'' then Some (r\<lparr>sq_intent := Some Discover\<rparr>) else None)
      else if k = ''scope'' then Some (if v \<noteq> [] \<and> v \<noteq> ''-'' then r\<lparr>sq_scope := Some v\<rparr> else r)
      else if k = ''limit'' then map_option (\<lambda>n. r\<lparr>sq_limit := n\<rparr>) (parse_limit v)
      else if k = ''q'' then Some (r\<lparr>sq_query := v\<rparr>)
      else Some r)"

text \<open>The reader: refused, or whether the end line was seen and the fields.\<close>

fun request_lines :: "nat \<Rightarrow> string list \<Rightarrow> swamp_request \<Rightarrow> (bool \<times> swamp_request) option" where
  "request_lines i [] r = Some (False, r)"
| "request_lines i (l # ls) r =
     (if MAX_REQUEST_LINES \<le> i \<or> \<not> utf8_ok l then None
      else if i = 0 then (if l = ''QUERY 1'' then request_lines 1 ls r else None)
      else if l = ''END'' then Some (True, r)
      else case request_field l r of None \<Rightarrow> None | Some r' \<Rightarrow> request_lines (i + 1) ls r')"

definition read_query :: "string \<Rightarrow> swamp_request option" where
  "read_query bytes =
     (case request_lines 0 (str_lines bytes) empty_request of
        Some (True, r) \<Rightarrow> if sq_intent r = None then None else Some r
      | _ \<Rightarrow> None)"

section \<open>Authority of a query\<close>

definition domains_granting :: "intent \<Rightarrow> string list" where
  "domains_granting it =
     map id_name (filter
       (\<lambda>d. case it of Discover \<Rightarrow> dc_discover (id_ceiling d)
          | Search \<Rightarrow> dc_search (id_ceiling d) \<and> dc_read (id_ceiling d)) INDEXABLE_DOMAINS)"

definition narrow_scope :: "string list \<Rightarrow> string option \<Rightarrow> string list" where
  "narrow_scope grants scope =
     (case scope of
        None \<Rightarrow> grants
      | Some s \<Rightarrow> if list_ex (\<lambda>g. path_starts_with s g) grants then [s] else [])"

section \<open>Responses\<close>

fun merge_loop :: "string list \<Rightarrow> hit list \<Rightarrow> nat \<Rightarrow> hit list" where
  "merge_loop seen [] limit = []"
| "merge_loop seen (h # hs) limit =
     (if limit = 0 then []
      else if List.member seen (hit_path h) then merge_loop seen hs limit
      else h # merge_loop (hit_path h # seen) hs (limit - 1))"

definition merge_semantic_led :: "hit list \<Rightarrow> hit list \<Rightarrow> nat \<Rightarrow> hit list" where
  "merge_semantic_led semantic lexical limit = merge_loop [] (semantic @ lexical) limit"

definition sanitize :: "string \<Rightarrow> string" where
  "sanitize s = concat (map (\<lambda>c. if ctl_char c then [sp] else c) (utf8_chars s))"

record server =
  sv_authority :: dir
  sv_allowed :: "u32 list"
  sv_sem :: "sem_ctx option"

text \<open>The hits of a request and whether the semantic tier took part.\<close>

definition answer_query ::
  "fts_engine \<Rightarrow> f32_ops \<Rightarrow> server \<Rightarrow> index \<Rightarrow> intent \<Rightarrow> swamp_request \<Rightarrow> hit list \<times> bool" where
  "answer_query eng f srv ix it req =
     (let grants = load_grants (sv_authority srv) (sq_session req);
          effective = narrow_scope grants (sq_scope req);
          doms = domains_granting it;
          lexical = (case query eng ix it (sq_query req) effective doms (sq_limit req) of
                       Some hs \<Rightarrow> hs | None \<Rightarrow> [])
      in case (it, sv_sem srv) of
           (Search, Some ctx) \<Rightarrow>
             (case embed_query ctx (sq_query req) of
                Some q \<Rightarrow>
                  (merge_semantic_led
                     (semantic_query f ix q (sx_version ctx) effective doms (sq_limit req))
                     lexical (sq_limit req), True)
              | None \<Rightarrow> (lexical, False))
         | _ \<Rightarrow> (lexical, False))"

definition response_lines :: "hit list \<Rightarrow> bool \<Rightarrow> freshness \<Rightarrow> string list" where
  "response_lines hits avail fr =
     [''RESULT '' @ show_nat (length hits), ''freshness '' @ freshness_wire fr,
      ''semantic '' @ (if avail then ''available'' else ''unavailable'')]
     @ map (\<lambda>h. ''hit '' @ sanitize (hit_path h) @ [tab] @ sanitize (hit_snippet h)) hits
     @ [''END'']"

definition handle_query ::
  "fts_engine \<Rightarrow> f32_ops \<Rightarrow> server \<Rightarrow> u32 \<Rightarrow> string \<Rightarrow> index \<Rightarrow> freshness \<Rightarrow> string list" where
  "handle_query eng f srv uid bytes ix fr =
     (if \<not> List.member (sv_allowed srv) uid then [''ERROR unauthorized-peer'']
      else case read_query bytes of
        None \<Rightarrow> [''ERROR malformed-request'']
      | Some req \<Rightarrow>
          (case sq_intent req of
             None \<Rightarrow> [''ERROR malformed-request'']
           | Some it \<Rightarrow>
               let (hits, avail) = answer_query eng f srv ix it req in response_lines hits avail fr))"

text \<open>The allowed peers: root, and what the unit's environment adds.\<close>

definition allowed_uids :: "string option \<Rightarrow> u32 list" where
  "allowed_uids extra =
     0 # (case extra of
            None \<Rightarrow> []
          | Some e \<Rightarrow>
              List.map_filter (\<lambda>t. parse_uint (str_trim t))
                (concat (map (str_split sp) (str_split (CHR '','') e))))"

text \<open>\<open>build_semantic\<close>: the store is wiped of vectors of another version, an error is ignored.\<close>

definition build_semantic ::
  "index \<Rightarrow> ((string \<Rightarrow> string option) \<times> backend_identity) option \<Rightarrow> index \<times> sem_ctx option" where
  "build_semantic ix backend =
     (case backend of
        None \<Rightarrow> (ix, None)
      | Some (proxy, b) \<Rightarrow>
          (or_keep ix (map_option snd (reconcile_semantic_version ix (semantic_version_of b))),
           Some (socket_ctx proxy b)))"

end
