(* ===== verification/Swamp_Confine.thy ===== *)
theory Swamp_Confine
  imports Swamp_Serve Swamp_Server
begin

text \<open>
  What a session learns from a query.  Hits are confined to the grants of its own record and to domains
  whose ceiling grants the verb; what it may not see does not change the answer; a session without
  authority gets the answer of one whose grants hold nothing.
\<close>

section \<open>Grants\<close>

lemma grants_text: "g \<in> set (load_grants d sid) \<Longrightarrow> utf8_ok g \<and> g \<noteq> []"
proof -
  assume g: "g \<in> set (load_grants d sid)"
  then obtain t where t: "read_to_string d sid = Some t"
    by (cases "read_to_string d sid") (simp_all add: load_grants_def split: if_splits)
  obtain h ls where ls: "str_lines t = h # ls"
    using g t by (cases "str_lines t") (simp_all add: load_grants_def split: if_splits)
  have "g \<in> set (List.map_filter (\<lambda>l. case str_strip_prefix ''grant '' l of
      Some r \<Rightarrow> if r \<noteq> [] then Some r else None | None \<Rightarrow> None) ls)"
    using g t ls by (simp add: load_grants_def del: neq_Nil_conv split: if_splits)
  then obtain l where l: "l \<in> set ls" "str_strip_prefix ''grant '' l = Some g" "g \<noteq> []"
    by (auto simp: set_map_filter split: option.splits if_splits)
  have "utf8_ok t"
    using t by (auto simp: read_to_string_def bind_eq_Some_conv split: if_splits)
  then have "utf8_ok l"
    using utf8_ok_lines [of t l] l(1) ls by simp
  then show ?thesis
    using utf8_ok_strip_prefix [OF _ _ l(2)] l(3) by (simp add: utf8_ok_ascii)
qed

lemma at_or_below_starts: "at_or_below path p \<Longrightarrow> path_starts_with path p"
  by (auto simp: at_or_below_def str_starts_with_iff path_starts_with_below)

section \<open>Requests are text\<close>

definition text_request :: "swamp_request \<Rightarrow> bool" where
  "text_request r \<longleftrightarrow> (case sq_scope r of None \<Rightarrow> True | Some s \<Rightarrow> utf8_ok s \<and> s \<noteq> [])"

lemma request_field_scope:
  assumes "request_field l r = Some r'"
  shows "sq_scope r' = sq_scope r
    \<or> (\<exists>k v. str_split_once sp l = Some (k, v) \<and> v \<noteq> [] \<and> sq_scope r' = Some v)"
proof (cases "str_split_once sp l")
  case None
  then show ?thesis
    using assms by (simp add: request_field_def Let_def split: if_splits) auto
next
  case (Some kv)
  obtain k v where "kv = (k, v)" by (cases kv)
  then show ?thesis
    using assms Some by (simp add: request_field_def Let_def split: if_splits) auto
qed

lemma request_field_text:
  assumes "text_request r" "utf8_ok l" "request_field l r = Some r'"
  shows "text_request r'"
  using request_field_scope [OF assms(3)]
proof
  assume "sq_scope r' = sq_scope r"
  then show ?thesis using assms(1) by (simp add: text_request_def)
next
  assume "\<exists>k v. str_split_once sp l = Some (k, v) \<and> v \<noteq> [] \<and> sq_scope r' = Some v"
  then obtain k v where v: "str_split_once sp l = Some (k, v)" "v \<noteq> []" "sq_scope r' = Some v" by blast
  then show ?thesis using utf8_ok_split_once [OF assms(2) _ v(1)] by (simp add: text_request_def)
qed

lemma request_lines_text: "request_lines i ls r = Some (e, r') \<Longrightarrow> text_request r \<Longrightarrow> text_request r'"
  by (induction i ls r rule: request_lines.induct)
    (auto split: if_splits option.splits dest: request_field_text)

lemma read_query_text: "read_query bytes = Some req \<Longrightarrow> text_request req"
  by (auto simp: read_query_def empty_request_def text_request_def dest!: request_lines_text split: option.splits if_splits bool.splits)

lemma narrowed:
  assumes "text_request req" "s \<in> set (narrow_scope (load_grants d sid) (sq_scope req))"
  shows "utf8_ok s \<and> (\<exists>g \<in> set (load_grants d sid). path_starts_with s g)"
proof (cases "sq_scope req")
  case None
  then show ?thesis
    using assms(2) grants_text [of s d sid] by (auto simp: narrow_scope_def intro!: bexI [of _ s])
next
  case (Some t)
  then show ?thesis
    using assms by (auto simp: narrow_scope_def text_request_def list_ex_iff split: if_splits)
qed

section \<open>Hits\<close>

definition shown :: "index \<Rightarrow> string list \<Rightarrow> string list \<Rightarrow> string set" where
  "shown ix grants doms = ob_path ` {ob \<in> snd ` set (ix_objects ix). visible grants doms ob}"

lemma shownI: "(i, ob) \<in> set (ix_objects ix) \<Longrightarrow> visible grants doms ob \<Longrightarrow> ob_path ob \<in> shown ix grants doms"
  by (force simp: shown_def)

lemma query_shown:
  assumes "query eng ix it terms grants doms limit = Some hs" "h \<in> set hs"
  shows "hit_path h \<in> shown ix grants doms"
proof (cases it)
  case Discover
  then obtain i ob where "(i, ob) \<in> set (ix_objects ix)" "visible grants doms ob" "hit_path h = ob_path ob"
    using assms by (auto simp: query_def dest!: in_set_takeD split: if_splits)
  then show ?thesis by (simp add: shownI)
next
  case Search
  show ?thesis
  proof (cases "eng terms (ix_fts ix)")
    case (Some ms)
    let ?f = "\<lambda>(i, s). case map_of (ix_objects ix) i of
        Some ob \<Rightarrow> if visible grants doms ob then Some \<lparr>hit_path = ob_path ob, hit_snippet = s\<rparr> else None
      | None \<Rightarrow> None"
    have "h \<in> set (List.map_filter ?f ms)"
      using assms Search Some by (auto simp: query_def dest!: in_set_takeD split: if_splits)
    then obtain m where "?f m = Some h"
      unfolding set_map_filter by blast
    then obtain i ob where "map_of (ix_objects ix) i = Some ob" "visible grants doms ob" "hit_path h = ob_path ob"
      by (auto split: option.splits if_splits prod.splits)
    then show ?thesis by (auto intro: shownI dest: map_of_SomeD)
  qed (use assms Search in \<open>simp add: query_def split: if_splits\<close>)
qed

lemma insert_ranked_set: "set (insert_ranked f x ys) = insert x (set ys)"
  by (induction ys) auto

lemma ranked_set: "set (foldr (insert_ranked f) xs []) = set xs"
  by (induction xs) (simp_all add: insert_ranked_set)

lemma keep_best_keys: "fst ` set (keep_best f q row best) = insert (fst row) (fst ` set best)"
  by (simp add: keep_best_def Let_def case_prod_unfold dom_update)

lemma fold_keep_best_keys:
  "fst ` set (fold (keep_best f q) rows best) = fst ` set rows \<union> fst ` set best"
  by (induction rows arbitrary: best) (auto simp: keep_best_keys)

lemma semantic_rows_shown:
  assumes "r \<in> set (semantic_rows ix sv grants doms)"
  shows "fst r \<in> shown ix grants doms"
proof -
  obtain v where "v \<in> set (ix_vectors ix)" "(case find (\<lambda>c. ck_id c = vr_chunk v) (ix_chunks ix) of None \<Rightarrow> None
      | Some c \<Rightarrow> case map_of (ix_objects ix) (ck_object c) of None \<Rightarrow> None
        | Some ob \<Rightarrow> if visible grants doms ob \<and> vr_version v = sv
                      then Some (ob_path ob, ck_text c, vr_vec v) else None) = Some r"
    using assms unfolding semantic_rows_def set_map_filter by - (erule bexE, rule that)
  then obtain c where v: "find (\<lambda>c. ck_id c = vr_chunk v) (ix_chunks ix) = Some c"
      "(case map_of (ix_objects ix) (ck_object c) of None \<Rightarrow> None
        | Some ob \<Rightarrow> if visible grants doms ob \<and> vr_version v = sv
                      then Some (ob_path ob, ck_text c, vr_vec v) else None) = Some r"
    by (cases "find (\<lambda>c. ck_id c = vr_chunk v) (ix_chunks ix)") simp_all
  then obtain ob where "map_of (ix_objects ix) (ck_object c) = Some ob" "visible grants doms ob" "fst r = ob_path ob"
    by (cases "map_of (ix_objects ix) (ck_object c)") (auto split: if_splits)
  then show ?thesis by (auto intro: shownI dest: map_of_SomeD)
qed

lemma semantic_query_shown:
  assumes "h \<in> set (semantic_query f ix q sv grants doms limit)"
  shows "hit_path h \<in> shown ix grants doms"
proof -
  obtain e where "e \<in> set (fold (keep_best f q) (semantic_rows ix sv grants doms) [])" "hit_path h = fst e"
    using assms by (auto simp: semantic_query_def Let_def ranked_set dest!: in_set_takeD split: if_splits)
  then have "hit_path h \<in> fst ` set (semantic_rows ix sv grants doms)"
    using fold_keep_best_keys [of f q "semantic_rows ix sv grants doms" "[]"] by (metis image_eqI image_empty list.set(1) sup_bot_right)
  then show ?thesis
    using semantic_rows_shown by force
qed

lemma merge_loop_set: "set (merge_loop seen hs limit) \<subseteq> set hs"
  by (induction seen hs limit rule: merge_loop.induct) auto

lemma answer_shown:
  assumes "h \<in> set (fst (answer_query eng f srv ix it req))"
  shows "hit_path h \<in> shown ix (narrow_scope (load_grants (sv_authority srv) (sq_session req)) (sq_scope req)) (domains_granting it)"
  using assms query_shown semantic_query_shown merge_loop_set
  by (fastforce simp: answer_query_def Let_def merge_semantic_led_def split: option.splits intent.splits)

lemma query_none_shown:
  assumes "shown ix grants doms = {}"
  shows "(case query eng ix it terms grants doms limit of Some hs \<Rightarrow> hs | None \<Rightarrow> []) = []"
proof (cases "query eng ix it terms grants doms limit")
  case (Some hs)
  then show ?thesis
    using assms query_shown [OF Some] by (cases hs) auto
qed simp

lemma semantic_none_shown:
  "shown ix grants doms = {} \<Longrightarrow> semantic_query f ix q sv grants doms limit = []"
  using semantic_query_shown [of _ f ix q sv grants doms limit]
  by (cases "semantic_query f ix q sv grants doms limit") auto

text \<open>Whether the semantic tier takes part does not depend on the authority of the session.\<close>

definition semantic_avail :: "server \<Rightarrow> intent \<Rightarrow> string \<Rightarrow> bool" where
  "semantic_avail srv it terms \<longleftrightarrow>
     (case (it, sv_sem srv) of (Search, Some ctx) \<Rightarrow> embed_query ctx terms \<noteq> None | _ \<Rightarrow> False)"

lemma answer_none_shown:
  assumes "shown ix (narrow_scope (load_grants (sv_authority srv) (sq_session req)) (sq_scope req)) (domains_granting it) = {}"
  shows "answer_query eng f srv ix it req = ([], semantic_avail srv it (sq_query req))"
proof -
  have lex: "(case query eng ix it (sq_query req) (narrow_scope (load_grants (sv_authority srv) (sq_session req)) (sq_scope req))
      (domains_granting it) (sq_limit req) of Some hs \<Rightarrow> hs | None \<Rightarrow> []) = []"
    by (rule query_none_shown [OF assms])
  show ?thesis
  proof (cases it)
    case Discover
    then show ?thesis using lex by (simp add: answer_query_def semantic_avail_def)
  next
    case Search
    then show ?thesis
      using lex semantic_none_shown [OF assms]
      by (cases "sv_sem srv"; cases "embed_query (the (sv_sem srv)) (sq_query req)")
        (simp_all add: answer_query_def semantic_avail_def merge_semantic_led_def Let_def)
  qed
qed

lemma sort_key_unique:
  assumes "distinct (map k xs)" "distinct (map k ys)" "set xs = set ys"
  shows "sort_key k xs = sort_key k (ys :: 'a list)"
proof -
  have "map k (sort_key k xs) = map k (sort_key k ys)"
  proof (rule sorted_distinct_set_unique)
    show "distinct (map k (sort_key k xs))" "distinct (map k (sort_key k ys))"
      using assms(1,2) by (simp_all add: distinct_map)
  qed (simp_all add: assms(3))
  moreover have "inj_on k (set (sort_key k xs) \<union> set (sort_key k ys))"
    using assms(1,3) by (simp add: distinct_map)
  ultimately show ?thesis
    by (simp add: inj_on_map_eq_map)
qed

lemma discover_visible_only:
  assumes "wf_index ix1" "wf_index ix2"
    and "{ob \<in> snd ` set (ix_objects ix1). visible grants doms ob} = {ob \<in> snd ` set (ix_objects ix2). visible grants doms ob}"
  shows "query eng ix1 Discover terms grants doms limit = query eng ix2 Discover terms grants doms limit"
proof -
  let ?P = "\<lambda>ob. visible grants doms ob \<and> str_contains (map ascii_lower (ob_path ob)) (map ascii_lower terms)"
  have paths: "distinct (map ob_path (filter ?P (map snd (ix_objects ix))))" if "wf_index ix" for ix
    using that distinct_map_filter [of ob_path "map snd (ix_objects ix)" ?P] by (simp add: wf_index_def comp_def)
  have seen: "set (filter ?P (map snd (ix_objects ix))) = {ob \<in> snd ` set (ix_objects ix). visible grants doms ob}
      \<inter> {ob. str_contains (map ascii_lower (ob_path ob)) (map ascii_lower terms)}" for ix :: index
    by auto
  have "set (filter ?P (map snd (ix_objects ix1))) = set (filter ?P (map snd (ix_objects ix2)))"
    unfolding seen assms(3) ..
  then show ?thesis
    using sort_key_unique [OF paths [OF assms(1)] paths [OF assms(2)]] by (simp add: query_def)
qed

section \<open>Properties\<close>

text \<open>The verbs of a domain an intent needs.\<close>

definition grants_verb :: "intent \<Rightarrow> domain_ceiling \<Rightarrow> bool" where
  "grants_verb it c \<longleftrightarrow> (case it of Discover \<Rightarrow> dc_discover c | Search \<Rightarrow> dc_search c \<and> dc_read c)"

lemma domains_granting_iff:
  "n \<in> set (domains_granting it) \<longleftrightarrow> (\<exists>d \<in> set INDEXABLE_DOMAINS. id_name d = n \<and> grants_verb it (id_ceiling d))"
  by (cases it) (auto simp: domains_granting_def grants_verb_def)

lemma shown_confined:
  assumes "text_request req"
    and "p \<in> shown ix (narrow_scope (load_grants d sid) (sq_scope req)) (domains_granting it)"
  shows "\<exists>ob \<in> snd ` set (ix_objects ix). ob_path ob = p
    \<and> (\<exists>g \<in> set (load_grants d sid). path_starts_with p g)
    \<and> (\<exists>dm \<in> set INDEXABLE_DOMAINS. id_name dm = ob_domain ob \<and> grants_verb it (id_ceiling dm))"
proof -
  obtain ob where ob: "ob \<in> snd ` set (ix_objects ix)" "ob_path ob = p"
      "visible (narrow_scope (load_grants d sid) (sq_scope req)) (domains_granting it) ob"
    using assms(2) by (auto simp: shown_def)
  then obtain s where s: "s \<in> set (narrow_scope (load_grants d sid) (sq_scope req))" "at_or_below p (utf8_lossy s)"
    by (auto simp: visible_def scope_predicate_def list_ex_iff)
  obtain g where g: "g \<in> set (load_grants d sid)" "path_starts_with s g" "utf8_ok s"
    using narrowed [OF assms(1) s(1)] by blast
  have "path_starts_with p g"
    using at_or_below_starts [OF s(2)] g path_starts_with_trans by simp
  moreover have "ob_domain ob \<in> set (domains_granting it)"
    using ob(3) by (simp add: visible_def domain_predicate_def List.member_iff)
  ultimately show ?thesis
    using ob g(1) unfolding domains_granting_iff by blast
qed

text \<open>A store with a file inside and a file outside of the grant of a session, for the instances.\<close>

definition one_grant :: dir where
  "one_grant = \<lparr>d_files = [(''s1'', unlines [''SHREK-AUTHORITY 1'', ''session s1'', ''grant /h/Projects/a'', ''END''])],
     d_refuse = (\<lambda>_. False)\<rparr>"

definition row_at :: "string \<Rightarrow> object_record" where
  "row_at p = \<lparr>ob_path = p, ob_dev = 1, ob_ino = 1, ob_size = 1, ob_mtime = 1, ob_domain = ''projects'', ob_is_dir = False\<rparr>"

definition two_rows :: index where
  "two_rows = empty_index\<lparr>ix_objects := [(1, row_at ''/h/Projects/a/x''), (2, row_at ''/h/Projects/ab'')]\<rparr>"

definition plain_server :: server where
  "plain_server = \<lparr>sv_authority = one_grant, sv_allowed = [0], sv_sem = None\<rparr>"

definition word_floats :: f32_ops where
  "word_floats = \<lparr>f_add = (+), f_mul = (*), f_div = (div), f_sqrt = id, f_gt = (>), f_is_zero = (\<lambda>x. x = 0)\<rparr>"

definition request_for :: "string \<Rightarrow> intent \<Rightarrow> swamp_request" where
  "request_for sid it = \<lparr>sq_session = sid, sq_intent = Some it, sq_scope = None, sq_limit = 50, sq_query = ''h''\<rparr>"

text \<open>
  C10: every hit of an answer, of either tier, is an indexed object that lies component-wise at or below
  a grant of the authority record of the session that asks, in a domain whose ceiling grants the verb,
  for every full-text engine, float arithmetic, embedding backend and content of the store.
\<close>

theorem hits_are_confined:
  assumes "read_query bytes = Some req" "h \<in> set (fst (answer_query eng f srv ix it req))"
  shows "\<exists>ob \<in> snd ` set (ix_objects ix). ob_path ob = hit_path h
    \<and> (\<exists>g \<in> set (load_grants (sv_authority srv) (sq_session req)). path_starts_with (hit_path h) g)
    \<and> (\<exists>dm \<in> set INDEXABLE_DOMAINS. id_name dm = ob_domain ob \<and> grants_verb it (id_ceiling dm))"
  by (rule shown_confined [OF read_query_text [OF assms(1)] answer_shown [OF assms(2)]])

lemma ask_read: "read_query (unlines [''QUERY 1'', ''session s1'', ''intent discover'', ''q h'', ''END'']) = Some (request_for ''s1'' Discover)"
  by code_simp

lemma ask_hits: "fst (answer_query (\<lambda>_ _. None) f plain_server two_rows Discover (request_for ''s1'' Discover))
    = [\<lparr>hit_path = ''/h/Projects/a/x'', hit_snippet = []\<rparr>]"
  by code_simp

theorem hits_are_confined_witness:
  "\<exists>g \<in> set (load_grants one_grant ''s1''). path_starts_with ''/h/Projects/a/x'' g"
proof -
  have "\<lparr>hit_path = ''/h/Projects/a/x'', hit_snippet = []\<rparr>
      \<in> set (fst (answer_query (\<lambda>_ _. None) word_floats plain_server two_rows Discover (request_for ''s1'' Discover)))"
    by (simp add: ask_hits)
  from hits_are_confined [OF ask_read this] show ?thesis
    by (simp add: plain_server_def request_for_def) blast
qed

text \<open>
  C23: a discovery answer depends only on what the session may see: two well-formed stores that agree on the
  rows visible to it answer its request with the same lines, whatever else they hold.
\<close>

theorem discover_leaks_nothing_hidden:
  assumes "wf_index ix1" "wf_index ix2" "read_query bytes = Some req" "sq_intent req = Some Discover"
    and "\<And>ob. visible (narrow_scope (load_grants (sv_authority srv) (sq_session req)) (sq_scope req))
                 (domains_granting Discover) ob
           \<Longrightarrow> ob \<in> snd ` set (ix_objects ix1) \<longleftrightarrow> ob \<in> snd ` set (ix_objects ix2)"
  shows "handle_query eng f srv uid bytes ix1 fr = handle_query eng f srv uid bytes ix2 fr"
proof -
  have "query eng ix1 Discover terms (narrow_scope (load_grants (sv_authority srv) (sq_session req)) (sq_scope req))
      (domains_granting Discover) limit
    = query eng ix2 Discover terms (narrow_scope (load_grants (sv_authority srv) (sq_session req)) (sq_scope req))
      (domains_granting Discover) limit" for terms limit
    by (rule discover_visible_only [OF assms(1,2)]) (use assms(5) in blast)
  then show ?thesis
    using assms(3,4) by (simp add: handle_query_def answer_query_def Let_def)
qed

theorem discover_leaks_nothing_hidden_witness:
  "handle_query (\<lambda>_ _. None) word_floats plain_server 0
     (unlines [''QUERY 1'', ''session s1'', ''intent discover'', ''q h'', ''END'']) two_rows Fresh
   = handle_query (\<lambda>_ _. None) word_floats plain_server 0
     (unlines [''QUERY 1'', ''session s1'', ''intent discover'', ''q h'', ''END''])
     (empty_index\<lparr>ix_objects := [(7, row_at ''/h/Projects/a/x''), (9, row_at ''/h/Projects/secret'')]\<rparr>) Fresh"
proof (rule discover_leaks_nothing_hidden [OF _ _ ask_read])
  fix ob
  assume v: "visible (narrow_scope (load_grants (sv_authority plain_server) (sq_session (request_for ''s1'' Discover)))
      (sq_scope (request_for ''s1'' Discover))) (domains_granting Discover) ob"
  have "narrow_scope (load_grants (sv_authority plain_server) (sq_session (request_for ''s1'' Discover)))
      (sq_scope (request_for ''s1'' Discover)) = [''/h/Projects/a'']"
    by code_simp
  then have "at_or_below (ob_path ob) (utf8_lossy ''/h/Projects/a'')"
    using v by (simp add: visible_def scope_predicate_def)
  moreover have "\<not> at_or_below ''/h/Projects/ab'' (utf8_lossy ''/h/Projects/a'')"
      "\<not> at_or_below ''/h/Projects/secret'' (utf8_lossy ''/h/Projects/a'')"
    by code_simp+
  ultimately have "ob \<noteq> row_at ''/h/Projects/ab''" "ob \<noteq> row_at ''/h/Projects/secret''"
    by (auto simp: row_at_def)
  then show "ob \<in> snd ` set (ix_objects two_rows) \<longleftrightarrow> ob \<in> snd ` set (ix_objects
      (empty_index\<lparr>ix_objects := [(7, row_at ''/h/Projects/a/x''), (9, row_at ''/h/Projects/secret'')]\<rparr>))"
    by (simp add: two_rows_def)
qed (simp_all add: wf_index_def two_rows_def empty_index_def row_at_def request_for_def)

text \<open>
  a query is no oracle for existence or authority: two requests with the same intent and terms from
  sessions that see no row, be it that one has no record at all, an invalid id or grants that hold
  nothing, get the same lines.
\<close>

theorem denied_equals_empty:
  assumes "read_query b1 = Some r1" "read_query b2 = Some r2"
    and "sq_intent r1 = Some it" "sq_intent r2 = Some it" "sq_query r1 = sq_query r2"
    and "shown ix (narrow_scope (load_grants (sv_authority srv) (sq_session r1)) (sq_scope r1)) (domains_granting it) = {}"
    and "shown ix (narrow_scope (load_grants (sv_authority srv) (sq_session r2)) (sq_scope r2)) (domains_granting it) = {}"
  shows "handle_query eng f srv uid b1 ix fr = handle_query eng f srv uid b2 ix fr"
  using assms(1-5) answer_none_shown [OF assms(6)] answer_none_shown [OF assms(7)]
  by (simp add: handle_query_def)

lemma ask_stranger: "read_query (unlines [''QUERY 1'', ''session s2'', ''intent discover'', ''q h'', ''END'']) = Some (request_for ''s2'' Discover)"
  by code_simp

theorem denied_equals_empty_witness:
  "handle_query (\<lambda>_ _. None) word_floats plain_server 0
     (unlines [''QUERY 1'', ''session s1'', ''intent discover'', ''q h'', ''END'']) empty_index Fresh
   = handle_query (\<lambda>_ _. None) word_floats plain_server 0
     (unlines [''QUERY 1'', ''session s2'', ''intent discover'', ''q h'', ''END'']) empty_index Fresh"
  by (rule denied_equals_empty [OF ask_read ask_stranger])
    (simp_all add: request_for_def shown_def empty_index_def)

text \<open>
  what the reactor serves in any reachable state, to anyone, lies below home and outside the
  human-only places: no component of its relative path is one of them.
\<close>

theorem human_only_is_never_served:
  assumes "wf_index ix0" "ix_writable ix0" "serving home ix0 (ix, w, fr)"
    and "h \<in> set (fst (answer_query eng f srv ix it req))"
  shows "\<exists>path comps. hit_path h = utf8_lossy path \<and> path_rel path home = Some comps
    \<and> set (components (utf8_lossy (str_join ''/'' comps))) \<inter> {''Vault'', ''.ssh'', ''.gnupg'', ''Identity'', ''.shrek''} = {}"
proof -
  obtain ob where ob: "ob \<in> snd ` set (ix_objects ix)" "hit_path h = ob_path ob"
    using answer_shown [OF assms(4)] by (auto simp: shown_def)
  have "policy_row home ob"
    using serving_policy [OF assms(3)] assms(1,2) ob(1) by (auto simp: good_def rows_follow_policy_def)
  then obtain path comps dm where "ob_path ob = utf8_lossy path" "path_rel path home = Some comps"
      "domain_for (utf8_lossy (str_join ''/'' comps)) = Some dm"
    by (auto simp: policy_row_def)
  then show ?thesis
    using domain_for_iff [of "utf8_lossy (str_join ''/'' comps)"] ob(2) by (intro exI [of _ path] exI [of _ comps]) auto
qed

theorem human_only_is_never_served_witness:
  "\<exists>path comps. ''/h/Projects/a'' = utf8_lossy path \<and> path_rel path ''/h'' = Some comps
    \<and> set (components (utf8_lossy (str_join ''/'' comps))) \<inter> {''Vault'', ''.ssh'', ''.gnupg'', ''Identity'', ''.shrek''} = {}"
proof -
  obtain ix w fr where st: "snd (start_serving ''/h'' None (\<lambda>p. Some 1) small_tree empty_index) = (ix, w, fr)"
    by (metis prod_cases3)
  then have s: "serving ''/h'' empty_index (ix, w, fr)"
    using serving.start [of "''/h''" empty_index None "\<lambda>p. Some 1" small_tree] by simp
  have "fst (answer_query (\<lambda>_ _. None) word_floats plain_server
      (fst (snd (start_serving ''/h'' None (\<lambda>p. Some 1) small_tree empty_index))) Discover (request_for ''s1'' Discover))
    = [\<lparr>hit_path = ''/h/Projects/a'', hit_snippet = []\<rparr>]"
    by code_simp
  then have "\<lparr>hit_path = ''/h/Projects/a'', hit_snippet = []\<rparr>
      \<in> set (fst (answer_query (\<lambda>_ _. None) word_floats plain_server ix Discover (request_for ''s1'' Discover)))"
    by (simp add: st)
  from human_only_is_never_served [OF empty_index_ok s this] show ?thesis
    by simp
qed

end
