(* ===== verification/Swamp_Broker.thy ===== *)
theory Swamp_Broker
  imports Swamp_Server
begin

text \<open>
  The broker between a sandbox and \<open>swampd\<close> (\<open>swamp-broker/src/main.rs\<close>): the HTTP request it reads,
  the identity gate on the address of the peer, the wire it rebuilds and the answer it relays.  What the
  peer sends arrives in pieces; what \<open>swampd\<close> answers to a wire is a parameter (\<open>None\<close>: not reached, or
  not text).
\<close>

section \<open>The HTTP request\<close>

definition http_eol :: string where "http_eol = [cr, nl]"

datatype http_error = HeadTooLarge | ClosedInHead | MalformedLine | BadLength | BodyTooLarge | ClosedInBody

definition MAX_BODY :: u64 where "MAX_BODY = 16 * 1024"

text \<open>The head: the bytes read so far, the position after it, and the pieces that are left.\<close>

fun read_head :: "string \<Rightarrow> string list \<Rightarrow> (http_error, string \<times> nat \<times> string list) result" where
  "read_head buf rs =
     (case str_find (http_eol @ http_eol) buf of
        Some p \<Rightarrow> Inr (buf, p + 4, rs)
      | None \<Rightarrow>
          if 65536 < length buf then Inl HeadTooLarge
          else (case rs of
                  [] \<Rightarrow> Inl ClosedInHead
                | r # rs' \<Rightarrow> if r = [] then Inl ClosedInHead else read_head (buf @ r) rs'))"

declare read_head.simps [simp del]

fun read_body :: "nat \<Rightarrow> string \<Rightarrow> string list \<Rightarrow> (http_error, string) result" where
  "read_body n body rs =
     (if n \<le> length body then Inr (take n body)
      else case rs of
        [] \<Rightarrow> Inl ClosedInBody
      | r # rs' \<Rightarrow> if r = [] then Inl ClosedInBody else read_body n (body @ r) rs')"

declare read_body.simps [simp del]

definition eq_ignore_case :: "string \<Rightarrow> string \<Rightarrow> bool" where
  "eq_ignore_case a b \<longleftrightarrow> map ascii_lower a = map ascii_lower b"

fun header_lines :: "string list \<Rightarrow> u64 \<times> string option \<Rightarrow> (http_error, u64 \<times> string option) result" where
  "header_lines [] acc = Inr acc"
| "header_lines (l # ls) acc =
     (case str_split_once (CHR '':'') l of
        None \<Rightarrow> header_lines ls acc
      | Some (k, v) \<Rightarrow>
          if eq_ignore_case (str_trim k) ''content-length'' then
            (case parse_uint (str_trim v) of
               None \<Rightarrow> Inl BadLength
             | Some n \<Rightarrow> header_lines ls (n, snd acc))
          else if eq_ignore_case (str_trim k) ''x-shrek-session'' then
            header_lines ls (fst acc, Some (str_trim v))
          else header_lines ls acc)"

definition read_http :: "string list \<Rightarrow> (http_error, string \<times> string option \<times> string) result" where
  "read_http pieces = rbind (read_head [] pieces) (\<lambda>(buf, head_end, rs).
     let ls = str_split_pat http_eol (utf8_lossy (take head_end buf)) in
     case str_split_ws (hd ls) of
       [] \<Rightarrow> Inl MalformedLine
     | verb # _ \<Rightarrow>
         rbind (header_lines (tl ls) (0, None)) (\<lambda>(n, session).
           if MAX_BODY < n then Inl BodyTooLarge
           else rbind (read_body (unat n) (drop head_end buf) rs) (\<lambda>body. Inr (verb, session, body))))"

section \<open>The identity gate and the wire\<close>

definition broker_authorize :: "string option \<Rightarrow> string option \<Rightarrow> string option" where
  "broker_authorize expected presented = do {
     e \<leftarrow> expected;
     p \<leftarrow> presented;
     if \<not> valid_session_id e \<or> \<not> valid_session_id p then None
     else if e \<noteq> p then None
     else Some e }"

record broker_query =
  bq_intent :: string
  bq_scope :: string
  bq_limit :: nat
  bq_q :: string

fun query_body_lines :: "string list \<Rightarrow> broker_query \<times> string option \<Rightarrow> (broker_query \<times> string option) option" where
  "query_body_lines [] a = Some a"
| "query_body_lines (l # ls) (b, q) =
     (if l = [] then query_body_lines ls (b, q)
      else if list_ex (\<lambda>c. c < CHR 0x20 \<and> c \<noteq> tab) l then None
      else
        let (k, v) = (case str_split_once sp l of Some kv \<Rightarrow> kv | None \<Rightarrow> (l, [])) in
        if k = ''intent'' then
          (if v \<noteq> ''search'' \<and> v \<noteq> ''discover'' then None else query_body_lines ls (b\<lparr>bq_intent := v\<rparr>, q))
        else if k = ''scope'' then query_body_lines ls (b\<lparr>bq_scope := if v = [] then ''-'' else v\<rparr>, q)
        else if k = ''limit'' then
          (case parse_limit v of None \<Rightarrow> None | Some n \<Rightarrow> query_body_lines ls (b\<lparr>bq_limit := n\<rparr>, q))
        else if k = ''q'' then query_body_lines ls (b, Some v)
        else query_body_lines ls (b, q))"

definition parse_query_body :: "string \<Rightarrow> broker_query option" where
  "parse_query_body body =
     (if \<not> utf8_ok body then None
      else case query_body_lines (str_lines body)
             (\<lparr>bq_intent = ''search'', bq_scope = ''-'', bq_limit = DEFAULT_LIMIT, bq_q = []\<rparr>, None) of
        Some (b, Some q) \<Rightarrow> if str_trim q = [] then None else Some (b\<lparr>bq_q := q\<rparr>)
      | _ \<Rightarrow> None)"

definition wire_lines :: "string \<Rightarrow> broker_query \<Rightarrow> string list" where
  "wire_lines session b =
     [''QUERY 1'', ''session '' @ session, ''intent '' @ bq_intent b, ''scope '' @ bq_scope b,
      ''limit '' @ show_nat (bq_limit b), ''q '' @ bq_q b, ''END'']"

definition build_swampd_wire :: "string \<Rightarrow> broker_query \<Rightarrow> string" where
  "build_swampd_wire session b = unlines (wire_lines session b)"

section \<open>Answers\<close>

definition EMPTY_RESULT :: string where
  "EMPTY_RESULT = unlines [''RESULT 0'', ''freshness unknown'', ''semantic unavailable'', ''END'']"

definition relay_to_swampd :: "(string \<Rightarrow> string option) \<Rightarrow> string \<Rightarrow> string" where
  "relay_to_swampd swampd wire = (case swampd wire of Some out \<Rightarrow> out | None \<Rightarrow> EMPTY_RESULT)"

definition http_answer :: "string \<Rightarrow> string \<Rightarrow> string" where
  "http_answer code body =
     ''HTTP/1.1 '' @ code @ '' SWAMP'' @ http_eol @ ''content-type: text/plain'' @ http_eol
     @ ''content-length: '' @ show_nat (length body) @ http_eol @ ''connection: close'' @ http_eol @ http_eol @ body"

definition write_result :: "string \<Rightarrow> string" where
  "write_result result = http_answer ''200'' result"

definition write_plain :: "string \<Rightarrow> string \<Rightarrow> string" where
  "write_plain code msg = http_answer code (code @ '' '' @ msg @ [nl])"

definition broker_dispatch ::
  "dir \<Rightarrow> (string \<Rightarrow> string option) \<Rightarrow> ipv4 \<Rightarrow> string \<Rightarrow> string option \<Rightarrow> string \<Rightarrow> string" where
  "broker_dispatch bindings swampd ip verb presented body =
     (if verb \<noteq> ''POST'' then write_plain ''405'' ''method not allowed''
      else case broker_authorize (load_binding bindings ip) presented of
        None \<Rightarrow> write_result EMPTY_RESULT
      | Some session \<Rightarrow>
          (case parse_query_body body of
             None \<Rightarrow> write_plain ''400'' ''malformed query body''
           | Some b \<Rightarrow> write_result (relay_to_swampd swampd (build_swampd_wire session b))))"

text \<open>One connection; a peer without an IPv4 address has no binding.  The text of an error is its kind.\<close>

definition broker_handle ::
  "(http_error \<Rightarrow> string) \<Rightarrow> dir \<Rightarrow> (string \<Rightarrow> string option) \<Rightarrow> ipv4 option \<Rightarrow> string list \<Rightarrow> string" where
  "broker_handle show_error bindings swampd peer pieces =
     (case peer of
        None \<Rightarrow> write_result EMPTY_RESULT
      | Some ip \<Rightarrow>
          (case read_http pieces of
             Inl e \<Rightarrow> write_plain ''400'' (''bad request: '' @ show_error e)
           | Inr (verb, presented, body) \<Rightarrow> broker_dispatch bindings swampd ip verb presented body))"

end
