(* ===== verification/Swamp_Sandbox.thy ===== *)
theory Swamp_Sandbox
  imports Swamp_Confine Swamp_Broker
begin

text \<open>
  From the daemon that grants to the sandbox that asks: the authority record and the address binding are
  read back as they were written, the wire the broker rebuilds is the request \<open>swampd\<close> reads, and so a
  sandbox sees only what the session bound to its address was granted, whatever it sends.
\<close>

section \<open>Records\<close>

lemma utf8_ok_lossy [simp]: "utf8_ok (utf8_lossy s)"
proof (induction s rule: utf8_lossy.induct)
  case (1 s)
  have bad: "utf8_ok ([CHR 0xEF, CHR 0xBF, CHR 0xBD] @ t) = utf8_ok t" for t
    by (rule utf8_ok_append) code_simp
  show ?case
  proof (cases "s = []")
    case False
    show ?thesis
    proof (cases "utf8_len s = 0")
      case True
      then show ?thesis
        using 1 False bad by (simp add: utf8_lossy.simps [of s])
    next
      case pos: False
      then show ?thesis
        using 1(1) False by (simp add: utf8_lossy.simps [of s] utf8_ok_append [OF utf8_ok_first])
    qed
  qed (simp add: utf8_lossy.simps)
qed

lemma session_text: "valid_session_id s \<Longrightarrow> text_line s"
  by (rule text_line_graphic) (auto simp: valid_session_id_def list_all_iff token_byte_graphic)

lemma canonical_text: "canonical_all real gs = Some canon \<Longrightarrow> c \<in> set canon \<Longrightarrow> utf8_ok c"
  by (induction gs arbitrary: canon) (auto split: option.splits)

lemma str_lines_cut: "\<forall>l \<in> set ls. nl \<notin> set l \<Longrightarrow> str_lines (unlines ls) = map strip_cr ls"
  by (induction ls) (simp_all add: str_lines_nl)

lemma strip_cr_append: "l \<noteq> [] \<Longrightarrow> strip_cr (p @ l) = p @ strip_cr l"
  by (simp add: strip_cr_def butlast_append)

definition read_back :: "string list \<Rightarrow> string list" where
  "read_back canon = filter (\<lambda>g. g \<noteq> []) (map strip_cr canon)"

lemma grants_of_lines:
  "List.map_filter (\<lambda>l. case str_strip_prefix ''grant '' l of
       Some r \<Rightarrow> if r \<noteq> [] then Some r else None | None \<Rightarrow> None)
     (map strip_cr (map (\<lambda>c. ''grant '' @ c) canon)) = read_back canon"
proof (induction canon)
  case (Cons c canon)
  have "str_strip_prefix ''grant '' (strip_cr (''grant '' @ c)) = Some (strip_cr c)"
    using strip_cr_append [of c "''grant ''"] str_strip_prefix_append [of "''grant ''" "strip_cr c"]
    by (cases "c = []") (simp_all add: strip_cr_def)
  then show ?case
    using Cons by (simp add: read_back_def List.map_filter_simps del: append_Cons)
qed (simp add: read_back_def List.map_filter_simps)

lemma authority_write_read:
  assumes "authority_write real d sid gs = Inr d'" "canonical_all real gs = Some canon"
  shows "load_grants d' sid = read_back canon"
proof -
  have v: "valid_session_id sid" and clean: "\<forall>c \<in> set canon. nl \<notin> set c"
    and w: "atomic_write d sid (unlines (authority_lines sid canon)) = Inr d'"
    using assms by (auto simp: authority_write_def list_ex_iff split: if_splits)
  have sid: "clean_line (''session '' @ sid)" "utf8_ok (''session '' @ sid)"
    using session_text [OF v] text_line_clean [of "''session '' @ sid"]
    by (simp_all add: is_graphic_def)
  have "utf8_ok (unlines (authority_lines sid canon))"
    using sid(2) canonical_text [OF assms(2)] by (intro utf8_ok_unlines) (auto simp: authority_lines_def utf8_ok_ascii)
  then have read: "read_to_string d' sid = Some (unlines (authority_lines sid canon))"
    by (rule read_write [OF w])
  have "str_lines (unlines (authority_lines sid canon)) = map strip_cr (authority_lines sid canon)"
    by (rule str_lines_cut) (use clean sid(1) in \<open>auto simp: authority_lines_def clean_line_def\<close>)
  also have "\<dots> = [''SHREK-AUTHORITY 1'', ''session '' @ sid] @ map strip_cr (map (\<lambda>c. ''grant '' @ c) canon) @ [''END'']"
    using sid(1) by (simp add: authority_lines_def strip_cr_def [of "''END''"] strip_cr_def [of "''SHREK-AUTHORITY 1''"])
  finally show ?thesis
    using v grants_of_lines [of canon]
    by (simp add: load_grants_def read List.map_filter_simps map_filter_append)
qed

lemma binding_write_read:
  assumes "net_write_binding d ip sid = Inr d'"
  shows "load_binding d' ip = Some sid"
proof -
  have v: "valid_session_id sid" and w: "atomic_write d (ipv4_show ip) (binding_body ip sid) = Inr d'"
    using assms by (auto simp: net_write_binding_def split: if_splits)
  let ?ls = "[''SHREK-NET-BINDING 1'', ''ip '' @ ipv4_show ip, ''session '' @ sid, ''END'']"
  have lines: "\<forall>l \<in> set ?ls. text_line l"
    using session_text [OF v] by (simp add: is_graphic_def)
  have "read_to_string d' (ipv4_show ip) = Some (binding_body ip sid)"
    using read_write [OF w] lines_text(2) [OF lines] by (simp only: binding_body_def)
  moreover have "str_lines (binding_body ip sid) = ?ls"
    using lines_text(1) [OF lines] by (simp only: binding_body_def)
  ultimately show ?thesis
    using v by (simp add: load_binding_def)
qed

lemma load_binding_valid: "load_binding d ip = Some sid \<Longrightarrow> valid_session_id sid"
proof -
  assume "load_binding d ip = Some sid"
  then obtain body where b: "load_binding d ip = Some sid" "read_to_string d (ipv4_show ip) = Some body"
    by (auto simp: load_binding_def bind_eq_Some_conv)
  show ?thesis
  proof (cases "\<exists>h i s e r. str_lines body = h # i # s # e # r")
    case True
    then obtain h i s e r where "str_lines body = h # i # s # e # r" by blast
    then show ?thesis
      using b by (simp add: load_binding_def bind_eq_Some_conv split: if_splits)
  next
    case False
    then have "load_binding d ip = None"
      by (simp add: load_binding_def b(2) split: list.split)
    then show ?thesis using b(1) by simp
  qed
qed

section \<open>The wire\<close>

text \<open>What the parser of a query body delivers: fields of one line of text.\<close>

definition field_text :: "string \<Rightarrow> bool" where
  "field_text v \<longleftrightarrow> utf8_ok v \<and> nl \<notin> set v \<and> cr \<notin> set v"

definition good_query :: "broker_query \<Rightarrow> bool" where
  "good_query b \<longleftrightarrow> bq_intent b \<in> {''search'', ''discover''} \<and> field_text (bq_scope b) \<and> bq_scope b \<noteq> []
     \<and> 1 \<le> bq_limit b \<and> bq_limit b \<le> MAX_LIMIT \<and> field_text (bq_q b)"

lemma clean_of_controls:
  "\<not> list_ex (\<lambda>c. c < CHR 0x20 \<and> c \<noteq> tab) l \<Longrightarrow> nl \<notin> set l \<and> cr \<notin> set l"
proof -
  assume "\<not> list_ex (\<lambda>c. c < CHR 0x20 \<and> c \<noteq> tab) l"
  then have "c \<in> set l \<Longrightarrow> c < CHR 0x20 \<Longrightarrow> c = tab" for c
    by (auto simp: list_ex_iff)
  moreover have "nl < CHR 0x20" "cr < CHR 0x20"
    by (simp_all add: less_char_def)
  ultimately show ?thesis by fastforce
qed

lemma split_value_text:
  assumes "utf8_ok l" "\<not> list_ex (\<lambda>c. c < CHR 0x20 \<and> c \<noteq> tab) l"
  shows "field_text (snd (case str_split_once sp l of Some kv \<Rightarrow> kv | None \<Rightarrow> (l, [])))"
proof (cases "str_split_once sp l")
  case (Some kv)
  obtain k v where kv: "kv = (k, v)" by (cases kv)
  then have l: "l = k @ sp # v" using Some by (simp add: str_split_once_iff)
  have "nl \<notin> set v \<and> cr \<notin> set v"
    using clean_of_controls [OF assms(2)] by (simp add: l)
  then show ?thesis
    using utf8_ok_split_once [OF assms(1) _ Some [unfolded kv]] unfolding Some kv field_text_def by simp
qed (simp add: field_text_def)

lemma parse_limit_bounds: "parse_limit v = Some n \<Longrightarrow> 1 \<le> n \<and> n \<le> MAX_LIMIT"
  by (auto simp: parse_limit_def MAX_LIMIT_def)

lemma query_line_good:
  assumes "query_body_lines (l # ls) (b, q) = Some r" "utf8_ok l" "good_query b" "\<And>w. q = Some w \<Longrightarrow> field_text w"
  shows "\<exists>b1 q1. query_body_lines ls (b1, q1) = Some r \<and> good_query b1 \<and> (\<forall>w. q1 = Some w \<longrightarrow> field_text w)"
proof (cases "l = []")
  case True
  then show ?thesis using assms by auto
next
  case False
  obtain k v where kv: "(case str_split_once sp l of Some kv \<Rightarrow> kv | None \<Rightarrow> (l, [])) = (k, v)"
    by (cases "case str_split_once sp l of Some kv \<Rightarrow> kv | None \<Rightarrow> (l, [])")
  have c: "\<not> list_ex (\<lambda>c. c < CHR 0x20 \<and> c \<noteq> tab) l"
    using assms(1) False by (auto split: if_splits)
  have v: "field_text v"
    using split_value_text [OF assms(2) c] by (simp add: kv)
  have step: "query_body_lines (l # ls) (b, q) =
      (if k = ''intent'' then
          (if v \<noteq> ''search'' \<and> v \<noteq> ''discover'' then None else query_body_lines ls (b\<lparr>bq_intent := v\<rparr>, q))
        else if k = ''scope'' then query_body_lines ls (b\<lparr>bq_scope := if v = [] then ''-'' else v\<rparr>, q)
        else if k = ''limit'' then
          (case parse_limit v of None \<Rightarrow> None | Some n \<Rightarrow> query_body_lines ls (b\<lparr>bq_limit := n\<rparr>, q))
        else if k = ''q'' then query_body_lines ls (b, Some v)
        else query_body_lines ls (b, q))"
    using False c by (simp only: query_body_lines.simps kv Let_def prod.case if_False)
  consider "k = ''intent''" | "k = ''scope''" | "k = ''limit''" | "k = ''q''"
    | "k \<notin> {''intent'', ''scope'', ''limit'', ''q''}" by auto
  then show ?thesis
  proof cases
    case 1
    then have r: "query_body_lines ls (b\<lparr>bq_intent := v\<rparr>, q) = Some r" "v = ''search'' \<or> v = ''discover''"
      using assms(1) step by (auto split: if_splits)
    have "good_query (b\<lparr>bq_intent := v\<rparr>)"
      using r(2) assms(3) by (auto simp: good_query_def)
    then show ?thesis using r(1) assms(4) by blast
  next
    case 2
    then have r: "query_body_lines ls (b\<lparr>bq_scope := if v = [] then ''-'' else v\<rparr>, q) = Some r"
      using assms(1) step by simp
    have "field_text ''-''"
      by (simp add: field_text_def)
    then have "good_query (b\<lparr>bq_scope := if v = [] then ''-'' else v\<rparr>)"
      using v assms(3) by (auto simp: good_query_def)
    then show ?thesis using r assms(4) by blast
  next
    case 3
    then obtain n where r: "query_body_lines ls (b\<lparr>bq_limit := n\<rparr>, q) = Some r" "parse_limit v = Some n"
      using assms(1) step by (auto split: option.splits)
    have "good_query (b\<lparr>bq_limit := n\<rparr>)"
      using parse_limit_bounds [OF r(2)] assms(3) by (auto simp: good_query_def)
    then show ?thesis using r(1) assms(4) by blast
  next
    case 4
    then have "query_body_lines ls (b, Some v) = Some r"
      using assms(1) step by simp
    then show ?thesis using v assms(3) by blast
  next
    case 5
    then have "query_body_lines ls (b, q) = Some r"
      using assms(1) step by simp
    then show ?thesis using assms(3,4) by blast
  qed
qed

lemma query_body_good:
  "query_body_lines ls (b, q) = Some (b', q') \<Longrightarrow> \<forall>l \<in> set ls. utf8_ok l \<Longrightarrow> good_query b
   \<Longrightarrow> (\<And>w. q = Some w \<Longrightarrow> field_text w) \<Longrightarrow> good_query b' \<and> (\<forall>w. q' = Some w \<longrightarrow> field_text w)"
proof (induction ls arbitrary: b q)
  case (Cons l ls)
  obtain b1 q1 where "query_body_lines ls (b1, q1) = Some (b', q')" "good_query b1" "\<forall>w. q1 = Some w \<longrightarrow> field_text w"
    using query_line_good [OF Cons.prems(1) _ Cons.prems(3,4)] Cons.prems(2) by auto
  then show ?case
    using Cons.IH [of b1 q1] Cons.prems(2) by simp
qed simp

lemma parse_query_good: "parse_query_body body = Some b \<Longrightarrow> good_query b"
proof -
  assume p: "parse_query_body body = Some b"
  then obtain b0 q0 where q: "query_body_lines (str_lines body)
      (\<lparr>bq_intent = ''search'', bq_scope = ''-'', bq_limit = DEFAULT_LIMIT, bq_q = []\<rparr>, None) = Some (b0, Some q0)"
    "b = b0\<lparr>bq_q := q0\<rparr>" and ok: "utf8_ok body"
    by (auto simp: parse_query_body_def split: if_splits option.splits)
  have "good_query \<lparr>bq_intent = ''search'', bq_scope = ''-'', bq_limit = DEFAULT_LIMIT, bq_q = []\<rparr>"
    by (simp add: good_query_def field_text_def DEFAULT_LIMIT_def MAX_LIMIT_def)
  then have "good_query b0 \<and> field_text q0"
    using query_body_good [OF q(1)] utf8_ok_lines [OF ok] by simp
  then show ?thesis by (simp add: q(2) good_query_def)
qed

lemma field_split:
  "str_split_once sp (''session '' @ v) = Some (''session'', v)"
  "str_split_once sp (''intent '' @ v) = Some (''intent'', v)"
  "str_split_once sp (''scope '' @ v) = Some (''scope'', v)"
  "str_split_once sp (''limit '' @ v) = Some (''limit'', v)"
  "str_split_once sp (''q '' @ v) = Some (''q'', v)"
  by simp_all

lemma request_fields:
  "request_field (''session '' @ v) r = Some (r\<lparr>sq_session := v\<rparr>)"
  "v = ''search'' \<Longrightarrow> request_field (''intent '' @ v) r = Some (r\<lparr>sq_intent := Some Search\<rparr>)"
  "v = ''discover'' \<Longrightarrow> request_field (''intent '' @ v) r = Some (r\<lparr>sq_intent := Some Discover\<rparr>)"
  "request_field (''scope '' @ v) r = Some (if v \<noteq> [] \<and> v \<noteq> ''-'' then r\<lparr>sq_scope := Some v\<rparr> else r)"
  "request_field (''limit '' @ v) r = map_option (\<lambda>n. r\<lparr>sq_limit := n\<rparr>) (parse_limit v)"
  "request_field (''q '' @ v) r = Some (r\<lparr>sq_query := v\<rparr>)"
  unfolding request_field_def field_split by simp_all

lemma parse_limit_show: "1 \<le> n \<Longrightarrow> n \<le> MAX_LIMIT \<Longrightarrow> parse_limit (show_nat n) = Some n"
proof -
  assume n: "1 \<le> n" "n \<le> MAX_LIMIT"
  then have u: "unat (word_of_nat n :: u64) = n"
    by (simp add: unat_of_nat MAX_LIMIT_def)
  then have "parse_uint (show_nat n) = Some (word_of_nat n :: u64)"
    using parse_show_uint [of "word_of_nat n :: u64"] by (simp add: show_uint_def)
  then show ?thesis
    using n u by (simp add: parse_limit_def)
qed

lemma show_nat_text [simp]: "text_line (show_nat n)"
  using show_nat_digits [of n] by (auto intro!: text_line_graphic simp: list_all_iff digit_graphic)

lemma field_line: "field_text v \<Longrightarrow> text_line p \<Longrightarrow> clean_line (p @ v) \<and> utf8_ok (p @ v)"
proof -
  assume v: "field_text v" and p: "text_line p"
  have "clean_line (p @ v)"
    using text_line_clean [OF p] v by (cases "v = []") (auto simp: field_text_def clean_line_def dest: last_in_set)
  then show ?thesis
    using text_line_clean [OF p] v by (simp add: field_text_def utf8_ok_append)
qed

definition request_of :: "string \<Rightarrow> broker_query \<Rightarrow> swamp_request" where
  "request_of s b =
     \<lparr>sq_session = s, sq_intent = Some (if bq_intent b = ''search'' then Search else Discover),
      sq_scope = (if bq_scope b = ''-'' then None else Some (bq_scope b)), sq_limit = bq_limit b, sq_query = bq_q b\<rparr>"

lemma wire_read:
  assumes "valid_session_id s" "good_query b"
  shows "read_query (build_swampd_wire s b) = Some (request_of s b)"
proof -
  have t: "text_line ''scope ''" "text_line ''q ''" "text_line ''QUERY 1''" "text_line (''session '' @ s)"
      "text_line (''intent '' @ bq_intent b)" "text_line (''limit '' @ show_nat (bq_limit b))" "text_line ''END''"
    using assms session_text by (auto simp: is_graphic_def good_query_def)
  have f: "field_text (bq_scope b)" "field_text (bq_q b)" "bq_scope b \<noteq> []"
    using assms(2) by (simp_all add: good_query_def)
  have lines: "\<forall>l \<in> set (wire_lines s b). clean_line l \<and> utf8_ok l"
    using field_line [OF f(1) t(1)] field_line [OF f(2) t(2)] t(3-)[THEN text_line_clean]
    by (simp only: wire_lines_def list.set ball_simps simp_thms)
  have read: "str_lines (build_swampd_wire s b) = wire_lines s b"
    using lines by (simp add: build_swampd_wire_def)
  have u: "utf8_ok (''session '' @ s)" "utf8_ok (''intent '' @ bq_intent b)" "utf8_ok (''scope '' @ bq_scope b)"
      "utf8_ok (''limit '' @ show_nat (bq_limit b))" "utf8_ok (''q '' @ bq_q b)" "utf8_ok ''END''" "utf8_ok ''QUERY 1''"
    using lines by (simp_all only: wire_lines_def list.set ball_simps simp_thms)
  have e: "(''session '' @ s = ''END'') = False" "(''intent '' @ bq_intent b = ''END'') = False"
      "(''scope '' @ bq_scope b = ''END'') = False" "(''limit '' @ show_nat (bq_limit b) = ''END'') = False"
      "(''q '' @ bq_q b = ''END'') = False"
    by simp_all
  have n: "parse_limit (show_nat (bq_limit b)) = Some (bq_limit b)"
    using assms(2) by (intro parse_limit_show) (simp_all add: good_query_def)
  have i: "request_field (''intent '' @ bq_intent b) r
      = Some (r\<lparr>sq_intent := Some (if bq_intent b = ''search'' then Search else Discover)\<rparr>)" for r
    using assms(2) request_fields(2,3) [of "bq_intent b" r] by (auto simp: good_query_def)
  have "request_lines 0 (wire_lines s b) empty_request = Some (True, request_of s b)"
    unfolding wire_lines_def request_lines.simps u e request_fields(1,4,5,6) i n
    using u by (simp add: MAX_REQUEST_LINES_def empty_request_def request_of_def f)
  then show ?thesis
    by (simp add: read_query_def read request_of_def)
qed

section \<open>Properties\<close>

text \<open>
  C29: \<open>swampd\<close> reads from an authority record exactly the canonical grants that \<open>gatekeeperd\<close> wrote for the
  session, in order, up to one thing: a path that ends in a carriage return loses it on the way, and so
  names another directory.
\<close>

theorem authority_roundtrip:
  assumes "authority_write real d sid gs = Inr d'" "canonical_all real gs = Some canon"
  shows "load_grants d' sid = read_back canon"
  using assms by (rule authority_write_read)

theorem authority_roundtrip_witness:
  "\<exists>d'. authority_write Some empty_dir ''s1'' [''/h/Projects'', ''/h/Documents'' @ [cr]] = Inr d'
     \<and> load_grants d' ''s1'' = [''/h/Projects'', ''/h/Documents'']"
proof -
  have c: "canonical_all Some [''/h/Projects'', ''/h/Documents'' @ [cr]] = Some [''/h/Projects'', ''/h/Documents'' @ [cr]]"
    by code_simp
  have "\<not> isl (authority_write Some empty_dir ''s1'' [''/h/Projects'', ''/h/Documents'' @ [cr]])"
    by code_simp
  then obtain d' where w: "authority_write Some empty_dir ''s1'' [''/h/Projects'', ''/h/Documents'' @ [cr]] = Inr d'"
    by (cases "authority_write Some empty_dir ''s1'' [''/h/Projects'', ''/h/Documents'' @ [cr]]") auto
  have "read_back [''/h/Projects'', ''/h/Documents'' @ [cr]] = [''/h/Projects'', ''/h/Documents'']"
    by code_simp
  then show ?thesis
    using authority_roundtrip [OF w c] w by simp
qed

text \<open>
  \<open>swampd\<close> reads the request the broker's wire carries exactly as the broker parsed it from the body,
  under the session of the binding: no field of a body can smuggle in another line, another session or
  another limit.
\<close>

theorem wire_roundtrip:
  assumes "parse_query_body body = Some b" "valid_session_id s"
  shows "read_query (build_swampd_wire s b) = Some (request_of s b)"
  using wire_read [OF assms(2) parse_query_good [OF assms(1)]] .

definition sneaky_body :: string where
  "sneaky_body = unlines [''session s2'', ''intent discover'', ''q h'']"

lemma sneaky_parsed: "parse_query_body sneaky_body
  = Some \<lparr>bq_intent = ''discover'', bq_scope = ''-'', bq_limit = DEFAULT_LIMIT, bq_q = ''h''\<rparr>"
  by code_simp

theorem wire_roundtrip_witness:
  "read_query (build_swampd_wire ''s1'' \<lparr>bq_intent = ''discover'', bq_scope = ''-'', bq_limit = DEFAULT_LIMIT, bq_q = ''h''\<rparr>)
   = Some \<lparr>sq_session = ''s1'', sq_intent = Some Discover, sq_scope = None, sq_limit = DEFAULT_LIMIT, sq_query = ''h''\<rparr>"
  using wire_roundtrip [OF sneaky_parsed, of "''s1''"]
  by (simp add: request_of_def valid_session_id_def token_byte_def is_alnum_def is_lower_def is_digit_def)

definition granted :: "server \<Rightarrow> string \<Rightarrow> string set" where
  "granted srv sid = {p. \<exists>g \<in> set (load_grants (sv_authority srv) sid). path_starts_with p g}"

lemma relayed_answer:
  assumes "valid_session_id sid" "parse_query_body body = Some b"
  shows "handle_query eng f srv uid (build_swampd_wire sid b) ix fr = [''ERROR unauthorized-peer'']
    \<or> (\<exists>hits avail. handle_query eng f srv uid (build_swampd_wire sid b) ix fr = response_lines hits avail fr
         \<and> hit_path ` set hits \<subseteq> granted srv sid)"
proof (cases "List.member (sv_allowed srv) uid")
  case True
  have read: "read_query (build_swampd_wire sid b) = Some (request_of sid b)"
    by (rule wire_read [OF assms(1) parse_query_good [OF assms(2)]])
  obtain it where it: "sq_intent (request_of sid b) = Some it" by (simp add: request_of_def)
  obtain hits avail where a: "answer_query eng f srv ix it (request_of sid b) = (hits, avail)"
    by (cases "answer_query eng f srv ix it (request_of sid b)")
  have s: "sq_session (request_of sid b) = sid" by (simp add: request_of_def)
  have "hit_path h \<in> granted srv sid" if "h \<in> set hits" for h
  proof -
    have "hit_path h \<in> shown ix (narrow_scope (load_grants (sv_authority srv) sid) (sq_scope (request_of sid b))) (domains_granting it)"
      using that answer_shown [of h eng f srv ix it "request_of sid b"] unfolding a fst_conv s by blast
    then show ?thesis
      using shown_confined [OF read_query_text [OF read]] by (simp add: granted_def) blast
  qed
  then show ?thesis
    using True by (auto simp: handle_query_def read it a)
qed (simp add: handle_query_def)

text \<open>
  C11: whatever a peer sends to the broker, in whatever pieces, it gets an empty result, an error of the
  broker or of \<open>swampd\<close>, or an answer of \<open>swampd\<close> whose every hit lies at or below a grant of the session
  that \<open>gatekeeperd\<close> bound to the address of the peer.
\<close>

theorem sandbox_sees_only_its_session:
  assumes "\<And>wire. swampd wire = Some (unlines (handle_query eng f srv uid wire ix fr))"
  shows "broker_handle show_error bindings swampd peer pieces = write_result EMPTY_RESULT
    \<or> (\<exists>code msg. code \<noteq> ''200'' \<and> broker_handle show_error bindings swampd peer pieces = write_plain code msg)
    \<or> broker_handle show_error bindings swampd peer pieces = write_result (unlines [''ERROR unauthorized-peer''])
    \<or> (\<exists>ip sid hits avail. peer = Some ip \<and> load_binding bindings ip = Some sid
         \<and> broker_handle show_error bindings swampd peer pieces = write_result (unlines (response_lines hits avail fr))
         \<and> hit_path ` set hits \<subseteq> granted srv sid)"
proof (cases peer)
  case (Some ip)
  have plain: ?thesis if "broker_handle show_error bindings swampd peer pieces = write_plain code msg" "code \<noteq> ''200''" for code msg
    using that by blast
  show ?thesis
  proof (cases "read_http pieces")
    case (Inl e)
    show ?thesis by (rule plain [of "''400''"]) (simp_all add: broker_handle_def Some Inl)
  next
    case (Inr vpb)
    obtain verb presented body where v: "vpb = (verb, presented, body)" by (cases vpb)
    have out: "broker_handle show_error bindings swampd peer pieces = broker_dispatch bindings swampd ip verb presented body"
      by (simp add: broker_handle_def Some Inr v)
    show ?thesis
    proof (cases "verb = ''POST''")
      case False
      show ?thesis by (rule plain [of "''405''"]) (use False in \<open>simp_all add: out broker_dispatch_def\<close>)
    next
      case post: True
      show ?thesis
      proof (cases "broker_authorize (load_binding bindings ip) presented")
        case None
        then show ?thesis by (simp add: out broker_dispatch_def post)
      next
        case (Some sid)
        then have bound: "load_binding bindings ip = Some sid" "valid_session_id sid"
          by (auto simp: broker_authorize_def bind_eq_Some_conv split: if_splits)
        show ?thesis
        proof (cases "parse_query_body body")
          case None
          show ?thesis by (rule plain [of "''400''"]) (simp_all add: out broker_dispatch_def post Some None)
        next
          case (Some b)
          have ans: "broker_handle show_error bindings swampd peer pieces
              = write_result (unlines (handle_query eng f srv uid (build_swampd_wire sid b) ix fr))"
            using assms by (simp add: out broker_dispatch_def post \<open>broker_authorize _ _ = Some sid\<close> Some relay_to_swampd_def)
          from relayed_answer [OF bound(2) Some, of eng f srv uid ix fr] show ?thesis
          proof (elim disjE exE conjE)
            fix hits avail
            assume "handle_query eng f srv uid (build_swampd_wire sid b) ix fr = response_lines hits avail fr"
              "hit_path ` set hits \<subseteq> granted srv sid"
            then show ?thesis
              using ans bound(1) \<open>peer = Some ip\<close> by metis
          qed (simp add: ans)
        qed
      qed
    qed
  qed
qed (simp add: broker_handle_def)

definition one_binding :: dir where
  "one_binding = \<lparr>d_files = [(''10.0.0.2'', binding_body (Ipv4 10 0 0 2) ''s1'')], d_refuse = (\<lambda>_. False)\<rparr>"

definition sandbox_post :: "string \<Rightarrow> string \<Rightarrow> string" where
  "sandbox_post sid body =
     ''POST /find HTTP/1.1'' @ http_eol @ ''x-shrek-session: '' @ sid @ http_eol
     @ ''content-length: '' @ show_nat (length body) @ http_eol @ http_eol @ body"

theorem sandbox_sees_only_its_session_witness:
  "let out = broker_handle (\<lambda>_. ''bad'') one_binding
         (\<lambda>wire. Some (unlines (handle_query (\<lambda>_ _. None) word_floats plain_server 0 wire two_rows Fresh)))
         (Some (Ipv4 10 0 0 2)) [sandbox_post ''s1'' sneaky_body]
   in out = write_result EMPTY_RESULT
    \<or> (\<exists>code msg. code \<noteq> ''200'' \<and> out = write_plain code msg)
    \<or> out = write_result (unlines [''ERROR unauthorized-peer''])
    \<or> (\<exists>ip sid hits avail. Ipv4 10 0 0 2 = ip \<and> load_binding one_binding ip = Some sid
         \<and> out = write_result (unlines (response_lines hits avail Fresh))
         \<and> hit_path ` set hits \<subseteq> granted plain_server sid)"
  using sandbox_sees_only_its_session
    [of "\<lambda>wire. Some (unlines (handle_query (\<lambda>_ _. None) word_floats plain_server 0 wire two_rows Fresh))",
      OF refl, of "\<lambda>_. ''bad''" one_binding "Some (Ipv4 10 0 0 2)" "[sandbox_post ''s1'' sneaky_body]"]
  by (simp only: Let_def option.inject)

lemma second_line: "clean_line a \<Longrightarrow> clean_line b \<Longrightarrow> hd (tl (str_lines (unlines (a # b # r)))) = b"
  by simp

text \<open>
  a denied query is not answered like one that matched nothing: no answer of \<open>swampd\<close>, to any request,
  is the empty result the broker gives to a denied peer.
\<close>

theorem denial_is_distinguishable:
  "EMPTY_RESULT \<noteq> unlines (handle_query eng f srv uid bytes ix fr)"
proof
  assume eq: "EMPTY_RESULT = unlines (handle_query eng f srv uid bytes ix fr)"
  have empty: "tl (str_lines EMPTY_RESULT) \<noteq> []" "hd (tl (str_lines EMPTY_RESULT)) = ''freshness unknown''"
    by code_simp+
  have err: "handle_query eng f srv uid bytes ix fr \<noteq> [e]" if "text_line e" for e
  proof
    assume h: "handle_query eng f srv uid bytes ix fr = [e]"
    have "tl (str_lines (unlines [e])) = []"
      using that lines_text(1) [of "[e]"] by simp
    then show False using empty(1) unfolding eq h by contradiction
  qed
  have answer: "handle_query eng f srv uid bytes ix fr \<noteq> response_lines hits avail fr" for hits avail
  proof
    assume h: "handle_query eng f srv uid bytes ix fr = response_lines hits avail fr"
    define r where "r = (''semantic '' @ (if avail then ''available'' else ''unavailable''))
      # map (\<lambda>h. ''hit '' @ sanitize (hit_path h) @ [tab] @ sanitize (hit_snippet h)) hits @ [''END'']"
    have resp: "response_lines hits avail fr = (''RESULT '' @ show_nat (length hits)) # (''freshness '' @ freshness_wire fr) # r"
      by (simp add: response_lines_def r_def)
    have "text_line (''RESULT '' @ show_nat (length hits))" "text_line (''freshness '' @ freshness_wire fr)"
      by (cases fr; simp add: is_graphic_def)+
    then have "hd (tl (str_lines (unlines (response_lines hits avail fr)))) = ''freshness '' @ freshness_wire fr"
      unfolding resp by (intro second_line) (simp_all only: text_line_clean)
    then have "''freshness unknown'' = ''freshness '' @ freshness_wire fr"
      using empty(2) unfolding eq h by (rule trans [OF sym, rotated])
    then show False
      by (cases fr) simp_all
  qed
  have "handle_query eng f srv uid bytes ix fr \<in> {[''ERROR unauthorized-peer''], [''ERROR malformed-request'']}
      \<or> (\<exists>hits avail. handle_query eng f srv uid bytes ix fr = response_lines hits avail fr)"
    by (auto simp: handle_query_def case_prod_unfold Let_def split: option.split)
  moreover have "text_line ''ERROR unauthorized-peer''" "text_line ''ERROR malformed-request''"
    by (simp_all add: is_graphic_def)
  ultimately show False
    using err answer by blast
qed

end
