(* ===== verification/Swamp_Chunks.thy ===== *)
theory Swamp_Chunks
  imports Swamp_Crawl Swamp_Map
begin

text \<open>
  The chunker and the enrichment of an object: the chunks are slices at character boundaries that cover
  the text, their number is bounded by its length, and an object whose vectors were written is not
  embedded again.
\<close>

section \<open>Slices\<close>

lemma utf8_chars_ne: "c \<in> set (utf8_chars s) \<Longrightarrow> c \<noteq> []"
proof (induction s rule: utf8_chars.induct)
  case (1 s)
  then show ?case
    by (cases "s = []") (auto simp: utf8_chars.simps [of s] Let_def)
qed

lemma bound_at_mono: "i \<le> j \<Longrightarrow> bound_at cs i \<le> bound_at cs j"
  by (metis bound_at_def concat_append le_add1 length_append take_add le_add_diff_inverse)

lemma bound_at_less:
  assumes "\<forall>c \<in> set cs. c \<noteq> []" "i < j" "i < length cs"
  shows "bound_at cs i < bound_at cs j"
proof -
  have "bound_at cs i < bound_at cs (Suc i)"
    using assms(1,3) by (simp add: bound_at_def take_Suc_conv_app_nth)
  also have "\<dots> \<le> bound_at cs j"
    using assms(2) by (intro bound_at_mono) simp
  finally show ?thesis .
qed

lemma slice_concat:
  assumes "s \<le> e"
  shows "concat (take (e - s) (drop s cs)) = take (bound_at cs e - bound_at cs s) (drop (bound_at cs s) (concat cs))"
proof -
  have e: "take e cs = take s cs @ take (e - s) (drop s cs)"
    using assms by (metis le_add_diff_inverse take_add)
  have "concat cs = concat (take s cs) @ concat (take (e - s) (drop s cs)) @ concat (drop e cs)"
    by (metis append.assoc append_take_drop_id concat_append e)
  then show ?thesis
    by (simp add: bound_at_def e)
qed

definition chunk_ok :: "string list \<Rightarrow> chunk \<Rightarrow> bool" where
  "chunk_ok cs c \<longleftrightarrow>
     (\<exists>s e. s < e \<and> e \<le> s + CHUNK_CHARS \<and> e \<le> length cs \<and> c = mk_chunk cs (ch_ordinal c) s e)"

lemma chunk_loop_ok: "c \<in> set (chunk_loop cs start k) \<Longrightarrow> chunk_ok cs c"
proof (induction cs start k rule: chunk_loop.induct)
  case (1 cs start k)
  show ?case
  proof (cases "start < length cs")
    case True
    let ?e = "min (start + CHUNK_CHARS) (length cs)"
    have head: "chunk_ok cs (mk_chunk cs k start ?e)"
      unfolding chunk_ok_def using True
      by (intro exI [of _ start] exI [of _ ?e]) (auto simp: mk_chunk_def Let_def CHUNK_CHARS_def)
    show ?thesis
      using "1.prems" "1.IH" [OF True refl] head True
      by (auto simp: chunk_loop.simps [of cs start k] Let_def split: if_splits)
  qed (use "1.prems" in \<open>simp add: chunk_loop.simps [of cs start k]\<close>)
qed

lemma chunk_loop_covers:
  "start < length cs \<Longrightarrow>
   (\<Union>c \<in> set (chunk_loop cs start k). {ch_start c..<ch_end c}) = {bound_at cs start..<bound_at cs (length cs)}"
proof (induction cs start k rule: chunk_loop.induct)
  case (1 cs start k)
  let ?e = "min (start + CHUNK_CHARS) (length cs)"
  show ?case
  proof (cases "?e = length cs")
    case True
    then show ?thesis
      using "1.prems" by (simp add: chunk_loop.simps [of cs start k] Let_def mk_chunk_def)
  next
    case False
    then have e: "?e = start + CHUNK_CHARS" "start + CHUNK_CHARS < length cs" by auto
    let ?n = "start + (CHUNK_CHARS - OVERLAP_CHARS)"
    have n: "?n < length cs" "start \<le> ?n" "?n \<le> start + CHUNK_CHARS"
      using e(2) by (simp_all add: CHUNK_CHARS_def OVERLAP_CHARS_def)
    have "(\<Union>c \<in> set (chunk_loop cs start k). {ch_start c..<ch_end c})
        = {bound_at cs start..<bound_at cs (start + CHUNK_CHARS)} \<union> {bound_at cs ?n..<bound_at cs (length cs)}"
      using "1.IH" [OF "1.prems" refl False n(1)] "1.prems" False e(1)
      by (simp add: chunk_loop.simps [of cs start k] Let_def mk_chunk_def)
    moreover have "bound_at cs start \<le> bound_at cs ?n" "bound_at cs ?n \<le> bound_at cs (start + CHUNK_CHARS)"
        "bound_at cs (start + CHUNK_CHARS) \<le> bound_at cs (length cs)"
      using n e(2) by (intro bound_at_mono; simp)+
    ultimately show ?thesis by auto
  qed
qed

lemma chunk_loop_ordinals:
  "map ch_ordinal (chunk_loop cs start k) = map (\<lambda>i. k + int i) [0..<length (chunk_loop cs start k)]"
proof (induction cs start k rule: chunk_loop.induct)
  case (1 cs start k)
  let ?e = "min (start + CHUNK_CHARS) (length cs)"
  show ?case
  proof (cases "start < length cs \<and> ?e \<noteq> length cs")
    case True
    let ?r = "chunk_loop cs (start + (CHUNK_CHARS - OVERLAP_CHARS)) (k + 1)"
    have "chunk_loop cs start k = mk_chunk cs k start ?e # ?r"
      using True by (simp add: chunk_loop.simps [of cs start k] Let_def)
    moreover have "map ch_ordinal ?r = map (\<lambda>i. k + int i) [Suc 0..<Suc (length ?r)]"
      using "1.IH" True unfolding map_Suc_upt [symmetric] by (simp add: comp_def algebra_simps)
    ultimately show ?thesis
      by (simp add: upt_conv_Cons mk_chunk_def Let_def del: upt_Suc)
  qed (auto simp: chunk_loop.simps [of cs start k] Let_def mk_chunk_def)
qed

lemma chunk_loop_count:
  "start < length cs \<Longrightarrow>
   length (chunk_loop cs start k) \<le> (length cs - start) div (CHUNK_CHARS - OVERLAP_CHARS) + 1"
proof (induction cs start k rule: chunk_loop.induct)
  case (1 cs start k)
  let ?e = "min (start + CHUNK_CHARS) (length cs)"
  show ?case
  proof (cases "?e = length cs")
    case True
    then show ?thesis
      using "1.prems" by (simp add: chunk_loop.simps [of cs start k] Let_def)
  next
    case False
    let ?n = "start + (CHUNK_CHARS - OVERLAP_CHARS)"
    have n: "?n < length cs"
      using False by (simp add: CHUNK_CHARS_def OVERLAP_CHARS_def)
    have "(length cs - start) div (CHUNK_CHARS - OVERLAP_CHARS) = (length cs - ?n) div (CHUNK_CHARS - OVERLAP_CHARS) + 1"
      using n by (simp add: CHUNK_CHARS_def OVERLAP_CHARS_def le_div_geq)
    then show ?thesis
      using "1.IH" [OF "1.prems" refl False n] "1.prems" False
      by (simp add: chunk_loop.simps [of cs start k] Let_def)
  qed
qed

section \<open>Writing the vectors of an object\<close>

lemma sort_key_sorted: "sorted (map f xs) \<Longrightarrow> sort_key f xs = xs"
  by (induction xs) (simp_all add: insort_is_Cons)

lemma insert_chunks_rows:
  assumes "i \<in> fst ` set (ix_objects ix)" "distinct (map cv_ordinal cs)"
    "\<forall>r \<in> set (ix_chunks ix). ck_object r = i \<longrightarrow> ck_ordinal r \<notin> cv_ordinal ` set cs"
  shows "\<exists>rs. filter (\<lambda>c. ck_object c = i) (ix_chunks (insert_chunks i sv cs ix))
      = filter (\<lambda>c. ck_object c = i) (ix_chunks ix) @ rs
    \<and> map ck_hash rs = map cv_hash cs \<and> map ck_ordinal rs = map cv_ordinal cs"
  using assms
proof (induction cs arbitrary: ix)
  case (Cons c cs)
  let ?k = "next_id (map ck_id (ix_chunks ix))"
  let ?row = "\<lparr>ck_id = ?k, ck_object = i, ck_ordinal = cv_ordinal c, ck_start = cv_start c,
                ck_end = cv_end c, ck_hash = cv_hash c, ck_text = cv_text c\<rparr>"
  obtain ix1 where ins: "insert_chunk i sv c ix = Some ix1" "ix_objects ix1 = ix_objects ix"
      "ix_chunks ix1 = ix_chunks ix @ [?row]"
    using Cons.prems by (auto simp: insert_chunk_def Let_def list_ex_iff)
  obtain rs where "filter (\<lambda>c. ck_object c = i) (ix_chunks (insert_chunks i sv cs ix1))
      = filter (\<lambda>c. ck_object c = i) (ix_chunks ix1) @ rs"
      "map ck_hash rs = map cv_hash cs" "map ck_ordinal rs = map cv_ordinal cs"
    using Cons.IH [of ix1] Cons.prems ins by auto
  then show ?case
    by (intro exI [of _ "?row # rs"]) (simp add: ins)
qed simp

lemma replaced_signature:
  assumes "ix_writable ix" "i \<in> fst ` set (ix_objects ix)" "sorted (map cv_ordinal cs)" "distinct (map cv_ordinal cs)"
  shows "object_chunk_signature (or_keep ix (replace_object_vectors ix i sv cs)) i = map cv_hash cs"
proof -
  let ?ix = "drop_chunks (\<lambda>c. ck_object c = i) ix"
  have none: "filter (\<lambda>c. ck_object c = i) (ix_chunks ?ix) = []"
    by (simp add: drop_chunks_def)
  obtain rs where rs: "filter (\<lambda>c. ck_object c = i) (ix_chunks (insert_chunks i sv cs ?ix)) = rs"
      "map ck_hash rs = map cv_hash cs" "map ck_ordinal rs = map cv_ordinal cs"
    using insert_chunks_rows [of i ?ix cs sv] assms(2,4) none by (auto simp: drop_chunks_def)
  then show ?thesis
    using assms(1,3) sort_key_sorted [of ck_ordinal rs]
    by (simp add: or_keep_def replace_object_vectors_def object_chunk_signature_def)
qed

lemma chunk_text_ordinals: "map ch_ordinal (chunk_text t) = map int [0..<length (chunk_text t)]"
  using chunk_loop_ordinals [of "utf8_chars t" 0 0] by (simp add: chunk_text_def)

section \<open>Properties\<close>

text \<open>A chunk of at most 1200 characters that is the slice of the text between its offsets.\<close>

definition chunk_slice :: "string \<Rightarrow> chunk \<Rightarrow> bool" where
  "chunk_slice t c \<longleftrightarrow>
     (\<exists>s e. s < e \<and> e \<le> s + CHUNK_CHARS \<and> e \<le> length (utf8_chars t)
        \<and> ch_start c = bound_at (utf8_chars t) s \<and> ch_end c = bound_at (utf8_chars t) e)
     \<and> ch_start c < ch_end c \<and> ch_end c \<le> length t
     \<and> ch_text c = take (ch_end c - ch_start c) (drop (ch_start c) t) \<and> ch_hash c = fnv1a_hex (ch_text c)"

lemma chunk_ok_slice:
  assumes "chunk_ok (utf8_chars t) c"
  shows "chunk_slice t c"
proof -
  let ?cs = "utf8_chars t"
  obtain s e where se: "s < e" "e \<le> s + CHUNK_CHARS" "e \<le> length ?cs" "c = mk_chunk ?cs (ch_ordinal c) s e"
    using assms by (auto simp: chunk_ok_def)
  then have f: "ch_start c = bound_at ?cs s" "ch_end c = bound_at ?cs e"
      "ch_text c = concat (take (e - s) (drop s ?cs))" "ch_hash c = fnv1a_hex (ch_text c)"
    by (metis chunk.select_convs mk_chunk_def)+
  have "bound_at ?cs s < bound_at ?cs e"
    using se by (intro bound_at_less) (auto dest: utf8_chars_ne)
  moreover have "bound_at ?cs e \<le> length t"
    using bound_at_mono [OF se(3), of ?cs] by (simp add: bound_at_def [of _ "length _"])
  moreover have "ch_text c = take (ch_end c - ch_start c) (drop (ch_start c) t)"
    using slice_concat [of s e ?cs] se(1) f by simp
  ultimately show ?thesis
    using se f unfolding chunk_slice_def by auto
qed

text \<open>
  C34: the chunks of a text that is not blank are slices of it at character boundaries, of at most 1200
  characters, with the hash of their content; they are numbered from 0, together they cover every byte
  of the text, and there is at most one for every 1050 characters begun.
\<close>

theorem chunks_cover_the_text:
  assumes "str_trim t \<noteq> []"
  shows "list_all (chunk_slice t) (chunk_text t)
    \<and> (\<Union>c \<in> set (chunk_text t). {ch_start c..<ch_end c}) = {0..<length t}
    \<and> map ch_ordinal (chunk_text t) = map int [0..<length (chunk_text t)]
    \<and> length (chunk_text t) \<le> length (utf8_chars t) div 1050 + 1"
proof -
  let ?cs = "utf8_chars t"
  have t: "chunk_text t = chunk_loop ?cs 0 0"
    using assms by (simp add: chunk_text_def)
  have "t \<noteq> []" using assms by auto
  then have pos: "0 < length ?cs"
    by (simp add: utf8_chars.simps [of t] Let_def)
  have "bound_at ?cs 0 = 0" "bound_at ?cs (length ?cs) = length t"
    by (simp_all add: bound_at_def)
  then show ?thesis
    using chunk_loop_covers [OF pos, of 0] chunk_loop_count [OF pos, of 0] chunk_text_ordinals [of t]
      chunk_ok_slice chunk_loop_ok [of _ ?cs 0 0]
    by (auto simp: t list_all_iff CHUNK_CHARS_def OVERLAP_CHARS_def)
qed

theorem chunks_cover_the_text_witness:
  "length (chunk_text ''hello'') \<le> length (utf8_chars ''hello'') div 1050 + 1
   \<and> (\<Union>c \<in> set (chunk_text ''hello''). {ch_start c..<ch_end c}) = {0..<length ''hello''}"
proof -
  have "str_trim ''hello'' \<noteq> []" by code_simp
  from chunks_cover_the_text [OF this] show ?thesis by blast
qed

text \<open>
  embedding is idempotent: once the vectors of an object are written for a text, the stored signature
  is that of its chunks, and enriching the object again with the same text changes nothing and needs no
  answer of the provider, whichever one is configured.
\<close>

theorem enrichment_is_idempotent:
  assumes "ix_writable ix" "i \<in> fst ` set (ix_objects ix)" "id_semantic dm" "chunk_text t \<noteq> []"
    and "sx_embed ctx (map ch_text (chunk_text t)) = Inr vs" "length vs = length (chunk_text t)"
  shows "object_chunk_signature (enrich_semantic ctx i dm t ix) i = map ch_hash (chunk_text t)
    \<and> enrich_semantic ctx' i dm t (enrich_semantic ctx i dm t ix) = enrich_semantic ctx i dm t ix"
proof -
  let ?cs = "map (\<lambda>(c, v). \<lparr>cv_ordinal = ch_ordinal c, cv_start = ch_start c, cv_end = ch_end c,
      cv_hash = ch_hash c, cv_text = ch_text c, cv_vec = v\<rparr>) (zip (chunk_text t) vs)"
  have zip: "map f (map fst (zip (chunk_text t) vs)) = map f (chunk_text t)" for f :: "chunk \<Rightarrow> 'x"
    using assms(6) by (simp del: map_map)
  have ords: "map cv_ordinal ?cs = map int [0..<length (chunk_text t)]"
    using zip [of ch_ordinal] chunk_text_ordinals [of t] by (simp add: comp_def case_prod_unfold)
  have hashes: "map cv_hash ?cs = map ch_hash (chunk_text t)"
    using zip [of ch_hash] by (simp add: comp_def case_prod_unfold)
  have "sorted (map cv_ordinal ?cs)" "distinct (map cv_ordinal ?cs)"
    unfolding ords by (simp_all add: sorted_map distinct_map sorted_wrt_upt inj_on_def)
  then have "object_chunk_signature (or_keep ix (replace_object_vectors ix i (sx_version ctx) ?cs)) i
      = map ch_hash (chunk_text t)"
    using replaced_signature [OF assms(1,2)] hashes by simp
  then have sig: "object_chunk_signature (enrich_semantic ctx i dm t ix) i = map ch_hash (chunk_text t)"
    using assms(3-6) by (simp add: enrich_semantic_def Let_def)
  then show ?thesis
    using assms(3,4) by (simp add: enrich_semantic_def [of ctx'] Let_def)
qed

definition one_file :: index where
  "one_file = \<lparr>ix_meta = [], ix_objects = [(1, \<lparr>ob_path = ''/h/Projects/a'', ob_dev = 1, ob_ino = 1, ob_size = 5,
       ob_mtime = 1, ob_domain = ''projects'', ob_is_dir = False\<rparr>)],
     ix_fts = [(1, ''hello'')], ix_chunks = [], ix_vectors = [], ix_writable = True\<rparr>"

theorem enrichment_is_idempotent_witness:
  "enrich_semantic \<lparr>sx_embed = (\<lambda>_. Inl Unavailable), sx_version = ''v2''\<rparr> 1 (mk_domain ''projects'' [''Projects''] RO_SEARCH True) ''hello''
     (enrich_semantic \<lparr>sx_embed = (\<lambda>_. Inr [[1, 2]]), sx_version = ''v1''\<rparr> 1 (mk_domain ''projects'' [''Projects''] RO_SEARCH True) ''hello'' one_file)
   = enrich_semantic \<lparr>sx_embed = (\<lambda>_. Inr [[1, 2]]), sx_version = ''v1''\<rparr> 1 (mk_domain ''projects'' [''Projects''] RO_SEARCH True) ''hello'' one_file"
proof (rule enrichment_is_idempotent [THEN conjunct2])
  have "str_trim ''hello'' \<noteq> []" "length (utf8_chars ''hello'') = 5" by code_simp+
  then have one: "length (chunk_text ''hello'') = 1"
    by (simp add: chunk_text_def chunk_loop.simps [of "utf8_chars ''hello''"] CHUNK_CHARS_def Let_def)
  then show "chunk_text ''hello'' \<noteq> []" by (metis length_0_conv zero_neq_one)
  show "length [[1, 2 :: u32]] = length (chunk_text ''hello'')" unfolding one by simp
  show "sx_embed \<lparr>sx_embed = (\<lambda>_. Inr [[1, 2]]), sx_version = ''v1''\<rparr> (map ch_text (chunk_text ''hello'')) = Inr [[1, 2]]"
    unfolding sem_ctx.select_convs ..
qed (simp_all add: one_file_def mk_domain_def)

end
