(* ===== verification/Swamp_Rename.thy ===== *)
theory Swamp_Rename
  imports Swamp_Serve
begin

text \<open>
  A directory that is renamed within the watched tree.  The kernel reports the rename to the two parents
  first and to the directory itself last, on the watch the directory already has; by then the table of
  \<open>swampd\<close> gives that watch the new path, and the last event retracts what the second one has mapped.
\<close>

definition moved_in :: "int \<Rightarrow> string \<Rightarrow> fs_event" where
  "moved_in parent name = \<lparr>ev_wd = parent, ev_mask = or IN_MOVED_TO IN_ISDIR, ev_name = Some name\<rparr>"

definition moved_self :: "int \<Rightarrow> fs_event" where
  "moved_self wd = \<lparr>ev_wd = wd, ev_mask = IN_MOVE_SELF, ev_name = None\<rparr>"

lemma event_flags:
  "has_flag (or IN_MOVED_TO IN_ISDIR) IN_Q_OVERFLOW = False" "has_flag (or IN_MOVED_TO IN_ISDIR) IN_IGNORED = False"
  "has_flag (or IN_MOVED_TO IN_ISDIR) (or IN_DELETE_SELF IN_MOVE_SELF) = False"
  "has_flag (or IN_MOVED_TO IN_ISDIR) (or IN_DELETE IN_MOVED_FROM) = False"
  "has_flag (or IN_MOVED_TO IN_ISDIR) (or IN_CREATE IN_MOVED_TO) = True"
  "has_flag (or IN_MOVED_TO IN_ISDIR) IN_ISDIR = True"
  "has_flag IN_MOVE_SELF IN_Q_OVERFLOW = False" "has_flag IN_MOVE_SELF IN_IGNORED = False"
  "has_flag IN_MOVE_SELF (or IN_DELETE_SELF IN_MOVE_SELF) = True"
  by (simp_all add: has_flag_def IN_MOVED_TO_def IN_ISDIR_def IN_Q_OVERFLOW_def IN_IGNORED_def IN_DELETE_SELF_def
      IN_MOVE_SELF_def IN_DELETE_def IN_MOVED_FROM_def IN_CREATE_def)

lemma moved_in_reconciles:
  "map_of (wt_wds w) parent = Some dir \<Longrightarrow>
     apply_event home sem arm fs (moved_in parent name) (ix, w)
     = (False, reconcile_subtree home sem arm fs (path_join dir name) (ix, w))"
  by (simp add: apply_event_def moved_in_def event_flags)

lemma moved_self_retracts:
  "map_of (wt_wds w) wd = Some dir \<Longrightarrow>
     apply_event home sem arm fs (moved_self wd) (ix, w) = (False, drop_subtree ix dir, forget_subtree_watches dir w)"
  by (simp add: apply_event_def moved_self_def event_flags)

text \<open>The table names the watch of a directory when it agrees with the kernel.\<close>

lemma table_names:
  assumes "exact_watches arm" "wds_of arm (ix, w, live, st)" "p \<in> watched w" "arm p = Some wd"
  shows "map_of (wt_wds w) wd = Some p"
proof -
  obtain k where k: "(k, p) \<in> set (wt_wds w)"
    using assms(3) by (auto simp: watched_def)
  have "k = wd"
    using assms(2,4) k by (force simp: wds_of_def)
  then obtain q where q: "map_of (wt_wds w) wd = Some q"
    using k by (metis map_of_eq_None_iff fst_conv image_eqI not_None_eq)
  then have "(wd, q) \<in> set (wt_wds w)" by (rule map_of_SomeD)
  then have "arm q = Some wd"
    using assms(2) by (force simp: wds_of_def)
  then have "q = p"
    using assms(1,4) unfolding exact_watches_def by (metis option.distinct(1))
  then show ?thesis using q by simp
qed

lemma dropped_rows:
  "ix_writable ix \<Longrightarrow> r \<in> set (ix_objects (drop_subtree ix p)) \<Longrightarrow> \<not> at_or_below (ob_path (snd r)) (utf8_lossy p)"
  by (auto simp: drop_subtree_def delete_subtree_def or_keep_def)

lemma forgotten: "path_starts_with q p \<Longrightarrow> q \<notin> watched (forget_subtree_watches p w)"
  by (auto simp: watched_def forget_subtree_watches_def)

text \<open>
  a directory renamed into a watched directory is lost while the map is still served as fresh: after
  the two events of the rename, no row at or below its new path is left and nothing below it is watched,
  although the walk had just mapped it and every watch was armed.
\<close>

theorem renamed_directory_is_lost:
  fixes home dir name
  defines "path \<equiv> path_join dir name"
  assumes "wf_index ix" "ix_writable ix" "exact_watches arm" "wds_of arm (ix, w, [], no_stats)"
    and "map_of (wt_wds w) parent = Some dir" "arm path = Some wd" "fs path = Some (NDir sm es)"
    and "mapped_keys (visit home path (NDir sm es)) \<noteq> []"
    and "apply_events home sem arm fs [moved_in parent name, moved_self wd] (ix, w) = (overflow, ix', w')"
    and "healthy w'"
  shows "\<not> overflow \<and> {r \<in> set (ix_objects ix'). at_or_below (ob_path (snd r)) (utf8_lossy path)} = {}
    \<and> {q \<in> watched w'. path_starts_with q path} = {}"
proof -
  let ?n = "NDir sm es"
  obtain ix1 w1 live st where walked: "walk home sem arm path ?n (ix, w, [], no_stats) = (ix1, w1, live, st)"
    by (metis prod_cases4)
  have "reconcile_subtree home sem arm fs path (ix, w) = (ix1, w1)"
    using assms(8) by (simp add: reconcile_subtree_def walked)
  then have first: "apply_event home sem arm fs (moved_in parent name) (ix, w) = (False, ix1, w1)"
    using moved_in_reconciles [OF assms(6)] by (simp add: path_def)
  have "good ix1"
    using walk_good [of "(ix, w, [], no_stats)" home sem arm path ?n] assms(2,3) by (simp add: good_def walked)
  have table: "wds_of arm (ix1, w1, live, st)"
    using walk_wds(1) [OF assms(5), of home sem path ?n] by (simp add: walked)
  have split: "apply_events home sem arm fs [moved_in parent name, moved_self wd] (ix, w)
      = (let (o2, iw2) = apply_event home sem arm fs (moved_self wd) (ix1, w1) in (o2, iw2))"
    by (simp add: first case_prod_unfold)
  have healthy1: "healthy w1"
  proof (cases "map_of (wt_wds w1) wd")
    case None
    then have "w' = w1"
      using assms(10) unfolding split by (simp add: apply_event_def moved_self_def event_flags)
    then show ?thesis using assms(11) by simp
  next
    case (Some d)
    then have "w' = forget_subtree_watches d w1"
      using assms(10) unfolding split by (simp add: moved_self_retracts)
    then show ?thesis using assms(11) by (simp add: healthy_def forget_subtree_watches_def)
  qed
  have "path \<in> points home path ?n"
    using assms(9) by (auto simp: points_def is_dir_def intro: reaches.here)
  then have "path \<in> watched w1"
    using walk_arms(1) [OF assms(4,5), of home path ?n sem] healthy1 assms(2,3)
    by (auto simp: arms_def walked good_def)
  then have "map_of (wt_wds w1) wd = Some path"
    using table_names [OF assms(4) table] assms(7) by blast
  then have "ix' = drop_subtree ix1 path" "w' = forget_subtree_watches path w1" "\<not> overflow"
    using assms(10) unfolding split by (simp_all add: moved_self_retracts)
  then show ?thesis
    using dropped_rows [of ix1 _ path] forgotten [of _ path w1] \<open>good ix1\<close> by (auto simp: good_def)
qed

definition two_watches :: "string \<Rightarrow> int option" where
  "two_watches p = (if p = ''/h/Projects'' then Some 1 else if p = ''/h/Projects/new'' then Some 2 else None)"

definition projects_watched :: watcher where
  "projects_watched = \<lparr>wt_wds = [(1, ''/h/Projects'')], wt_degraded = False, wt_broken = False\<rparr>"

definition moved_tree :: "string \<Rightarrow> node option" where
  "moved_tree p = (if p = ''/h/Projects/new'' then Some (NDir one_second (Some [])) else None)"

lemma moved_join: "path_join ''/h/Projects'' ''new'' = ''/h/Projects/new''"
  by code_simp

lemma moved_visit: "mapped_keys (visit ''/h'' ''/h/Projects/new'' (NDir one_second (Some []))) \<noteq> []"
  by code_simp

theorem renamed_directory_is_lost_witness:
  "let (overflow, ix', w') = apply_events ''/h'' None two_watches moved_tree [moved_in 1 ''new'', moved_self 2]
       (empty_index, projects_watched)
   in \<not> overflow \<and> {r \<in> set (ix_objects ix'). at_or_below (ob_path (snd r)) (utf8_lossy ''/h/Projects/new'')} = {}
    \<and> {q \<in> watched w'. path_starts_with q ''/h/Projects/new''} = {}"
proof -
  obtain overflow ix' w' where r: "apply_events ''/h'' None two_watches moved_tree [moved_in 1 ''new'', moved_self 2]
       (empty_index, projects_watched) = (overflow, ix', w')"
    by (metis prod_cases3)
  have "healthy (snd (snd (apply_events ''/h'' None two_watches moved_tree [moved_in 1 ''new'', moved_self 2]
       (empty_index, projects_watched))))"
    by code_simp
  then have "healthy w'" unfolding r snd_conv .
  moreover have "exact_watches two_watches" "wds_of two_watches (empty_index, projects_watched, [], no_stats)"
      "map_of (wt_wds projects_watched) 1 = Some ''/h/Projects''"
      "two_watches ''/h/Projects/new'' = Some 2" "moved_tree ''/h/Projects/new'' = Some (NDir one_second (Some []))"
    by (auto simp: exact_watches_def two_watches_def wds_of_def projects_watched_def moved_tree_def)
  ultimately have "\<not> overflow \<and> {r \<in> set (ix_objects ix'). at_or_below (ob_path (snd r)) (utf8_lossy ''/h/Projects/new'')} = {}
      \<and> {q \<in> watched w'. path_starts_with q ''/h/Projects/new''} = {}"
    by (intro renamed_directory_is_lost [where dir = "''/h/Projects''" and name = "''new''", unfolded moved_join,
        OF empty_index_ok _ _ _ _ _ moved_visit r]) simp_all
  then show ?thesis
    unfolding r Let_def prod.case .
qed

end
