(* ===== verification/Dot_Resolver.thy ===== *)
theory Dot_Resolver
  imports Rust_Text
begin

text \<open>
  The sealed resolver (\<open>shrek-dot/src/lib.rs\<close>): the rules for a name, the query it sends, the parser of
  a response and the walk over the sealed resolvers.  What a resolver answers over its authenticated
  stream, and the sealed root bundle, are parameters.  Indexing out of range panics in the code; here it
  is the outer \<open>None\<close>.
\<close>

unbundle bit_operations_syntax

section \<open>Names and the query\<close>

type_synonym msg = "u8 list"

definition strip_dot :: "string \<Rightarrow> string" where
  "strip_dot s = (if s \<noteq> [] \<and> last s = CHR ''.'' then butlast s else s)"

definition dns_byte :: "char \<Rightarrow> bool" where
  "dns_byte b \<longleftrightarrow> is_alnum b \<or> b = CHR ''-'' \<or> b = CHR ''_''"

definition valid_dns_label :: "string \<Rightarrow> bool" where
  "valid_dns_label l \<longleftrightarrow> l \<noteq> [] \<and> length l \<le> 63 \<and> list_all dns_byte l"

definition valid_dns_name :: "string \<Rightarrow> bool" where
  "valid_dns_name name =
     (let n = strip_dot name
      in if n = [] \<or> 253 < length n then False else list_all valid_dns_label (str_split (CHR ''.'') n))"

definition be16 :: "u16 \<Rightarrow> msg" where
  "be16 w = [ucast (drop_bit 8 w), ucast w]"

definition from_be16 :: "u8 \<Rightarrow> u8 \<Rightarrow> u16" where
  "from_be16 a b = push_bit 8 (ucast a) OR ucast b"

definition as_bytes :: "string \<Rightarrow> msg" where
  "as_bytes s = map of_char s"

text \<open>\<open>label.len() as u8\<close> keeps the low byte of the length.\<close>

definition put_label :: "string \<Rightarrow> msg" where
  "put_label l = of_nat (length l) # as_bytes l"

definition build_a_query :: "u16 \<Rightarrow> string \<Rightarrow> msg" where
  "build_a_query qid name =
     be16 qid @ be16 0x0100 @ be16 1 @ be16 0 @ be16 0 @ be16 0
     @ concat (map put_label (str_split (CHR ''.'') (strip_dot name))) @ [0]
     @ be16 1 @ be16 1"

section \<open>The parser of a response\<close>

definition byte_at :: "msg \<Rightarrow> nat \<Rightarrow> u8 option" where
  "byte_at m i = (if i < length m then Some (m ! i) else None)"

definition word_at :: "msg \<Rightarrow> nat \<Rightarrow> u16 option" where
  "word_at m i = do { a \<leftarrow> byte_at m i; b \<leftarrow> byte_at m (i + 1); Some (from_be16 a b) }"

function skip_name :: "msg \<Rightarrow> nat \<Rightarrow> nat option" where
  "skip_name m pos =
     (case byte_at m pos of
        None \<Rightarrow> None
      | Some len \<Rightarrow>
          if len AND 0xC0 = 0 then
            (if len = 0 then Some (pos + 1)
             else if length m < pos + (1 + unat len) then None
             else skip_name m (pos + (1 + unat len)))
          else if len AND 0xC0 = 0xC0 then Some (pos + 2)
          else None)"
  by pat_completeness auto
termination
  by (relation "measure (\<lambda>(m, pos). length m - pos)") (auto simp: byte_at_def split: if_splits)

declare skip_name.simps [simp del]

fun skip_questions :: "msg \<Rightarrow> nat \<Rightarrow> nat \<Rightarrow> nat option" where
  "skip_questions m 0 pos = Some pos"
| "skip_questions m (Suc n) pos =
     (case skip_name m pos of
        None \<Rightarrow> None
      | Some p \<Rightarrow> if length m < p + 4 then None else skip_questions m n (p + 4))"

fun read_answers :: "msg \<Rightarrow> nat \<Rightarrow> nat \<Rightarrow> ipv4 list \<Rightarrow> ipv4 list option option" where
  "read_answers m 0 pos out = Some (Some out)"
| "read_answers m (Suc n) pos out =
     (case skip_name m pos of
        None \<Rightarrow> Some None
      | Some p \<Rightarrow>
          if length m < p + 10 then Some None
          else do {
            rtype \<leftarrow> word_at m p;
            rclass \<leftarrow> word_at m (p + 2);
            rdlen \<leftarrow> word_at m (p + 8);
            let q = p + 10;
            if length m < q + unat rdlen then Some None
            else if rtype = 1 \<and> rclass = 1 \<and> rdlen = 4 then do {
              a \<leftarrow> byte_at m q;
              b \<leftarrow> byte_at m (q + 1);
              c \<leftarrow> byte_at m (q + 2);
              d \<leftarrow> byte_at m (q + 3);
              read_answers m n (q + unat rdlen) (out @ [Ipv4 a b c d]) }
            else read_answers m n (q + unat rdlen) out })"

definition parse_a_records :: "msg \<Rightarrow> u16 \<Rightarrow> ipv4 list option option" where
  "parse_a_records m expect_id =
     (if length m < 12 then Some None
      else do {
        rid \<leftarrow> word_at m 0;
        if rid \<noteq> expect_id then Some None
        else do {
          flags \<leftarrow> word_at m 2;
          if flags AND 0x8000 = 0 then Some None
          else if flags AND 0x000F \<noteq> 0 then Some None
          else do {
            qd \<leftarrow> word_at m 4;
            an \<leftarrow> word_at m 6;
            (case skip_questions m (unat qd) 12 of
               None \<Rightarrow> Some None
             | Some pos \<Rightarrow> read_answers m (unat an) pos []) }}})"

section \<open>The resolvers\<close>

record resolver =
  rs_ip :: ipv4
  rs_hostname :: string

definition RESOLVERS :: "resolver list" where
  "RESOLVERS =
    [\<lparr>rs_ip = Ipv4 1 1 1 1, rs_hostname = ''cloudflare-dns.com''\<rparr>,
     \<lparr>rs_ip = Ipv4 1 0 0 1, rs_hostname = ''cloudflare-dns.com''\<rparr>,
     \<lparr>rs_ip = Ipv4 9 9 9 9, rs_hostname = ''dns.quad9.net''\<rparr>,
     \<lparr>rs_ip = Ipv4 149 112 112 112, rs_hostname = ''dns.quad9.net''\<rparr>]"

datatype dot_error = BadName string | CaError string | AllFailed "string list"

text \<open>
  The stream to a resolver: given the resolver and the framed query, everything it sends before it
  closes, or the text of a failure before the first answer byte.
\<close>

type_synonym dot_stream = "resolver \<Rightarrow> msg \<Rightarrow> (string, msg) result"

definition frame :: "msg \<Rightarrow> msg" where
  "frame q = be16 (of_nat (length q)) @ q"

definition read_framed :: "ipv4 \<Rightarrow> msg \<Rightarrow> (string, msg) result" where
  "read_framed ip bytes =
     (if length bytes < 2 then Inl (ipv4_show ip @ '': read len'')
      else let rlen = unat (from_be16 (bytes ! 0) (bytes ! 1))
           in if rlen = 0 then Inl (ipv4_show ip @ '': bad response length '' @ show_nat rlen)
              else if length bytes < 2 + rlen then Inl (ipv4_show ip @ '': read body'')
              else Inr (take rlen (drop 2 bytes)))"

definition query_one :: "dot_stream \<Rightarrow> resolver \<Rightarrow> string \<Rightarrow> u16 \<Rightarrow> (string, ipv4 list) result option" where
  "query_one net r name qid =
     (case rbind (net r (frame (build_a_query qid name))) (read_framed (rs_ip r)) of
        Inl e \<Rightarrow> Some (Inl e)
      | Inr resp \<Rightarrow>
          (case parse_a_records resp qid of
             None \<Rightarrow> None
           | Some (Some a) \<Rightarrow> Some (if a \<noteq> [] then Inr a else Inl (ipv4_show (rs_ip r) @ '': zero A records''))
           | Some None \<Rightarrow> Some (Inl (ipv4_show (rs_ip r) @ '': malformed/rejecting response''))))"

fun try_resolvers ::
  "dot_stream \<Rightarrow> resolver list \<Rightarrow> string \<Rightarrow> u16 \<Rightarrow> string list \<Rightarrow> (dot_error, ipv4 list \<times> ipv4) result option" where
  "try_resolvers net [] name qid errs = Some (Inl (AllFailed errs))"
| "try_resolvers net (r # rs) name qid errs =
     (case query_one net r name qid of
        None \<Rightarrow> None
      | Some (Inr a) \<Rightarrow> Some (Inr (remdups_adj (sort a), rs_ip r))
      | Some (Inl e) \<Rightarrow> try_resolvers net rs name qid (errs @ [e]))"

definition resolve_over_dot_logged ::
  "(string, unit) result \<Rightarrow> dot_stream \<Rightarrow> string \<Rightarrow> u16 \<Rightarrow> (dot_error, ipv4 list \<times> ipv4) result option" where
  "resolve_over_dot_logged ca net name qid =
     (if \<not> valid_dns_name name then Some (Inl (BadName name))
      else case ca of
        Inl e \<Rightarrow> Some (Inl (CaError e))
      | Inr _ \<Rightarrow> try_resolvers net RESOLVERS name qid [])"

definition resolve_over_dot ::
  "(string, unit) result \<Rightarrow> dot_stream \<Rightarrow> string \<Rightarrow> u16 \<Rightarrow> (dot_error, ipv4 list) result option" where
  "resolve_over_dot ca net name qid =
     map_option (\<lambda>r. rbind r (\<lambda>(a, _). Inr a)) (resolve_over_dot_logged ca net name qid)"

end
