(* ===== verification/Dot_Wire.thy ===== *)
theory Dot_Wire
  imports Dot_Resolver
begin

text \<open>
  The wire format of the resolver: responses as RFC 1035 lays them out are parsed to exactly their
  addresses, no byte string makes the parser index out of range, the query determines the name, and what
  a resolution returns.
\<close>

unbundle bit_operations_syntax

section \<open>Words and positions\<close>

lemma from_be16_be16 [simp]: "from_be16 (ucast (drop_bit 8 w)) (ucast w) = (w :: u16)"
  by (rule bit_word_eqI)
    (auto simp: from_be16_def bit_or_iff bit_push_bit_iff bit_ucast_iff bit_drop_bit_eq not_le)

lemma length_be16 [simp]: "length (be16 w) = 2"
  by (simp add: be16_def)

lemma word_at_be16 [simp]: "word_at (pre @ be16 w @ post) (length pre) = Some w"
  by (simp add: word_at_def byte_at_def be16_def nth_append)

lemma word_at_some: "i + 2 \<le> length m \<Longrightarrow> word_at m i \<noteq> None"
  by (simp add: word_at_def byte_at_def)

lemma word_of_nat_bits: "bit (of_nat k :: 'a::len word) n \<longleftrightarrow> n < LENGTH('a) \<and> bit k n"
proof -
  have "bit (of_nat k :: 'a word) n \<longleftrightarrow> bit (unat (of_nat k :: 'a word)) n"
    by (simp add: bit_unsigned_iff)
  then show ?thesis
    by (simp add: unsigned_of_nat bit_take_bit_iff)
qed

lemma small_label_bits: "k < 64 \<Longrightarrow> (of_nat k :: u8) AND 0xC0 = 0"
proof (rule bit_word_eqI)
  fix n assume k: "k < 64" and n: "n < LENGTH(8)"
  have "k = take_bit 6 k"
    using k by (simp add: take_bit_nat_eq_self)
  then have "bit k n \<longleftrightarrow> n < 6 \<and> bit k n"
    by (metis bit_take_bit_iff)
  moreover have "(0xC0 :: u8) = push_bit 6 3"
    by simp
  then have "bit (0xC0 :: u8) n \<Longrightarrow> 6 \<le> n"
    by (metis bit_push_bit_iff)
  ultimately show "bit ((of_nat k :: u8) AND 0xC0) n = bit (0 :: u8) n"
    by (auto simp: bit_and_iff word_of_nat_bits simp del: bit_numeral_iff)
qed

section \<open>Responses\<close>

text \<open>A name: its labels, and how it ends (the root, or a pointer of two bytes).\<close>

definition wf_labels :: "string list \<Rightarrow> bool" where
  "wf_labels ls \<longleftrightarrow> list_all (\<lambda>l. l \<noteq> [] \<and> length l < 64) ls"

definition wf_end :: "(u8 \<times> u8) option \<Rightarrow> bool" where
  "wf_end e \<longleftrightarrow> (case e of None \<Rightarrow> True | Some (a, _) \<Rightarrow> a AND 0xC0 = 0xC0)"

definition put_end :: "(u8 \<times> u8) option \<Rightarrow> msg" where
  "put_end e = (case e of None \<Rightarrow> [0] | Some (a, b) \<Rightarrow> [a, b])"

definition put_name :: "string list \<Rightarrow> (u8 \<times> u8) option \<Rightarrow> msg" where
  "put_name ls e = concat (map put_label ls) @ put_end e"

record question =
  qn_labels :: "string list"
  qn_end :: "(u8 \<times> u8) option"
  qn_type :: u16
  qn_class :: u16

record answer = question +
  an_ttl :: "u8 \<times> u8 \<times> u8 \<times> u8"
  an_data :: msg

definition put_question :: "'a question_scheme \<Rightarrow> msg" where
  "put_question q = put_name (qn_labels q) (qn_end q) @ be16 (qn_type q) @ be16 (qn_class q)"

definition put_answer :: "answer \<Rightarrow> msg" where
  "put_answer r = (case an_ttl r of (t1, t2, t3, t4) \<Rightarrow>
     put_question r @ [t1, t2, t3, t4] @ be16 (of_nat (length (an_data r))) @ an_data r)"

definition put_response :: "u16 \<Rightarrow> u16 \<Rightarrow> question list \<Rightarrow> answer list \<Rightarrow> u16 \<Rightarrow> u16 \<Rightarrow> msg \<Rightarrow> msg" where
  "put_response rid flags qs rs ns ar rest =
     be16 rid @ be16 flags @ be16 (of_nat (length qs)) @ be16 (of_nat (length rs)) @ be16 ns @ be16 ar
     @ concat (map put_question qs) @ concat (map put_answer rs) @ rest"

definition wf_question :: "'a question_scheme \<Rightarrow> bool" where
  "wf_question q \<longleftrightarrow> wf_labels (qn_labels q) \<and> wf_end (qn_end q)"

definition wf_answer :: "answer \<Rightarrow> bool" where
  "wf_answer r \<longleftrightarrow> wf_question r \<and> length (an_data r) < 65536"

definition address_of :: "answer \<Rightarrow> ipv4 option" where
  "address_of r = (if qn_type r = 1 \<and> qn_class r = 1
     then case an_data r of [a, b, c, d] \<Rightarrow> Some (Ipv4 a b c d) | _ \<Rightarrow> None else None)"

lemma length_put_end: "length (put_end e) = (case e of None \<Rightarrow> 1 | Some _ \<Rightarrow> 2)"
  by (auto simp: put_end_def split: option.split)

lemma skip_end:
  assumes "wf_end e"
  shows "skip_name (pre @ put_end e @ post) (length pre) = Some (length pre + length (put_end e))"
  using assms
  by (subst skip_name.simps)
    (auto simp: byte_at_def put_end_def wf_end_def nth_append split: option.splits)

lemma skip_put_name:
  "wf_labels ls \<Longrightarrow> wf_end e
   \<Longrightarrow> skip_name (pre @ put_name ls e @ post) (length pre) = Some (length pre + length (put_name ls e))"
proof (induction ls arbitrary: pre)
  case Nil
  then show ?case by (simp add: put_name_def skip_end)
next
  case (Cons l ls)
  have l: "l \<noteq> []" "length l < 64" "wf_labels ls"
    using Cons.prems(1) by (simp_all add: wf_labels_def)
  have un: "unat (of_nat (length l) :: u8) = length l"
    using l(2) by (simp add: unat_of_nat)
  then have nz: "(of_nat (length l) :: u8) \<noteq> 0"
    using l(1) by (metis length_0_conv unat_0)
  have m: "pre @ put_name (l # ls) e @ post = (pre @ put_label l) @ put_name ls e @ post"
    by (simp add: put_name_def)
  have len: "length (pre @ put_label l) = length pre + (1 + length l)"
    by (simp add: put_label_def as_bytes_def)
  have at: "byte_at ((pre @ put_label l) @ put_name ls e @ post) (length pre) = Some (of_nat (length l))"
    by (simp add: byte_at_def put_label_def nth_append)
  have fits: "\<not> length ((pre @ put_label l) @ put_name ls e @ post) < length pre + (1 + length l)"
    by (simp add: put_label_def as_bytes_def)
  have "skip_name ((pre @ put_label l) @ put_name ls e @ post) (length pre)
      = skip_name ((pre @ put_label l) @ put_name ls e @ post) (length (pre @ put_label l))"
    by (subst skip_name.simps) (use fits in \<open>simp only: at option.case small_label_bits [OF l(2)] nz un len if_True if_False simp_thms\<close>)
  then show ?case
    using Cons.IH [OF l(3) Cons.prems(2), of "pre @ put_label l"] len
    by (simp add: m put_name_def)
qed

lemma skip_put_questions:
  "list_all wf_question qs
   \<Longrightarrow> skip_questions (pre @ concat (map put_question qs) @ post) (length qs) (length pre)
     = Some (length pre + length (concat (map put_question qs)))"
proof (induction qs arbitrary: pre)
  case (Cons q qs)
  let ?m = "pre @ concat (map put_question (q # qs)) @ post"
  have m: "?m = pre @ put_name (qn_labels q) (qn_end q)
      @ (be16 (qn_type q) @ be16 (qn_class q) @ concat (map put_question qs) @ post)"
    by (simp add: put_question_def)
  have skip: "skip_name ?m (length pre) = Some (length pre + length (put_name (qn_labels q) (qn_end q)))"
    unfolding m using Cons.prems by (intro skip_put_name) (simp_all add: wf_question_def)
  have len: "length (put_question q) = length (put_name (qn_labels q) (qn_end q)) + 4"
    by (simp add: put_question_def)
  have "skip_questions ?m (length (q # qs)) (length pre)
      = skip_questions ((pre @ put_question q) @ concat (map put_question qs) @ post) (length qs)
          (length (pre @ put_question q))"
    using len by (simp add: skip [simplified] add.assoc)
  then show ?case
    using Cons.IH [of "pre @ put_question q"] Cons.prems len by simp
qed simp

lemma word_at_be16_at: "i = length pre \<Longrightarrow> m = pre @ be16 w @ post \<Longrightarrow> word_at m i = Some w"
  by simp

lemma four_at:
  assumes "m = pre @ [a, b, c, d] @ post" "i = length pre"
  shows "byte_at m i = Some a" "byte_at m (i + 1) = Some b" "byte_at m (i + 2) = Some c" "byte_at m (i + 3) = Some d"
  using assms by (simp_all add: byte_at_def nth_append)

lemma read_answer_step:
  assumes "wf_answer r" and m: "m = pre @ put_answer r @ post"
  shows "read_answers m (Suc n) (length pre) out
    = read_answers m n (length (pre @ put_answer r)) (out @ (case address_of r of None \<Rightarrow> [] | Some a \<Rightarrow> [a]))"
proof -
  obtain t1 t2 t3 t4 where ttl: "an_ttl r = (t1, t2, t3, t4)"
    by (metis prod_cases4)
  let ?nm = "put_name (qn_labels r) (qn_end r)" and ?len = "of_nat (length (an_data r)) :: u16"
  define p where "p = length pre + length ?nm"
  have d: "length (an_data r) < 65536"
    using assms(1) by (simp add: wf_answer_def)
  then have un: "unat ?len = length (an_data r)"
    by (simp add: unat_of_nat)
  have m': "m = pre @ ?nm @ be16 (qn_type r) @ be16 (qn_class r) @ [t1, t2, t3, t4] @ be16 ?len @ an_data r @ post"
    by (simp add: m put_answer_def put_question_def ttl)
  have skip: "skip_name m (length pre) = Some p"
    unfolding m' p_def using assms(1) by (intro skip_put_name) (simp_all add: wf_answer_def wf_question_def)
  have ty: "word_at m p = Some (qn_type r)"
    by (rule word_at_be16_at [of _ "pre @ ?nm"]) (simp_all add: m' p_def)
  have cl: "word_at m (p + 2) = Some (qn_class r)"
    by (rule word_at_be16_at [of _ "pre @ ?nm @ be16 (qn_type r)"]) (simp_all add: m' p_def)
  have rl: "word_at m (p + 8) = Some ?len"
    by (rule word_at_be16_at [of _ "pre @ ?nm @ be16 (qn_type r) @ be16 (qn_class r) @ [t1, t2, t3, t4]"])
      (simp_all add: m' p_def)
  have fits: "\<not> length m < p + 10" "\<not> length m < p + 10 + length (an_data r)"
    by (simp_all add: m' p_def)
  have next_pos: "p + 10 + length (an_data r) = length (pre @ put_answer r)"
    by (simp add: p_def put_answer_def put_question_def ttl)
  have "unat (4 :: u16) = 4"
    by simp
  then have four: "(?len = 4) = (length (an_data r) = 4)"
    using un by (metis of_nat_numeral)
  show ?thesis
  proof (cases "qn_type r = 1 \<and> qn_class r = 1 \<and> length (an_data r) = 4")
    case True
    then obtain a b c e where dat: "an_data r = [a, b, c, e]"
      by (auto simp: numeral_eq_Suc length_Suc_conv)
    have "m = (pre @ ?nm @ be16 (qn_type r) @ be16 (qn_class r) @ [t1, t2, t3, t4] @ be16 ?len) @ [a, b, c, e] @ post"
      by (simp add: m' dat)
    note bytes = four_at [OF this, of "p + 10"]
    have "p + 10 = length (pre @ ?nm @ be16 (qn_type r) @ be16 (qn_class r) @ [t1, t2, t3, t4] @ be16 ?len)"
      by (simp add: p_def)
    then show ?thesis
      unfolding next_pos [symmetric] using True bytes fits skip ty cl rl un by (simp add: dat address_of_def Let_def)
  next
    case False
    then have "address_of r = None"
      by (auto simp: address_of_def split: list.split)
    then show ?thesis
      unfolding next_pos [symmetric] using False fits four un skip ty cl rl by (auto simp add: Let_def)
  qed
qed

lemma read_put_answers:
  "list_all wf_answer rs
   \<Longrightarrow> read_answers (pre @ concat (map put_answer rs) @ post) (length rs) (length pre) out
     = Some (Some (out @ List.map_filter address_of rs))"
proof (induction rs arbitrary: pre out)
  case Nil
  then show ?case by (simp add: List.map_filter_def)
next
  case (Cons r rs)
  have "read_answers (pre @ concat (map put_answer (r # rs)) @ post) (length (r # rs)) (length pre) out
      = read_answers ((pre @ put_answer r) @ concat (map put_answer rs) @ post) (length rs)
          (length (pre @ put_answer r)) (out @ (case address_of r of None \<Rightarrow> [] | Some a \<Rightarrow> [a]))"
    using read_answer_step [of r "pre @ concat (map put_answer (r # rs)) @ post" pre
        "concat (map put_answer rs) @ post" "length rs" out] Cons.prems by simp
  then show ?case
    using Cons.IH [of "pre @ put_answer r"] Cons.prems
    by (auto simp: List.map_filter_def split: option.splits)
qed

lemma parse_put_response:
  assumes "list_all wf_question qs" "list_all wf_answer rs" "length qs < 65536" "length rs < 65536"
    and "flags AND 0x8000 \<noteq> 0" "flags AND 0x000F = 0"
  shows "parse_a_records (put_response rid flags qs rs ns ar rest) rid = Some (Some (List.map_filter address_of rs))"
proof -
  let ?nq = "of_nat (length qs) :: u16" and ?nr = "of_nat (length rs) :: u16"
  let ?head = "be16 rid @ be16 flags @ be16 ?nq @ be16 ?nr @ be16 ns @ be16 ar"
  let ?m = "put_response rid flags qs rs ns ar rest"
  have w: "word_at ?m 0 = Some rid" "word_at ?m 2 = Some flags" "word_at ?m 4 = Some ?nq" "word_at ?m 6 = Some ?nr"
    by (rule word_at_be16_at [of _ "[]"] word_at_be16_at [of _ "be16 rid"]
        word_at_be16_at [of _ "be16 rid @ be16 flags"] word_at_be16_at [of _ "be16 rid @ be16 flags @ be16 ?nq"];
      simp add: put_response_def)+
  have un: "unat ?nq = length qs" "unat ?nr = length rs"
    using assms(3,4) by (simp_all add: unat_of_nat)
  have long: "\<not> length ?m < 12"
    by (simp add: put_response_def)
  have q: "skip_questions ?m (length qs) 12 = Some (length (?head @ concat (map put_question qs)))"
    using skip_put_questions [OF assms(1), of ?head "concat (map put_answer rs) @ rest"]
    by (simp add: put_response_def)
  have a: "read_answers ?m (length rs) (length (?head @ concat (map put_question qs))) []
      = Some (Some (List.map_filter address_of rs))"
    using read_put_answers [OF assms(2), of "?head @ concat (map put_question qs)" rest "[]"]
    by (simp add: put_response_def)
  show ?thesis
    unfolding parse_a_records_def
    by (simp only: long w q a un assms(5,6) if_False if_True simp_thms Option.bind.bind_lunit option.case)
qed

section \<open>Every byte string\<close>

lemma skip_name_progress: "skip_name m pos = Some p \<Longrightarrow> pos < p"
proof (induction m pos rule: skip_name.induct)
  case (1 m pos)
  then show ?case
    by (subst (asm) (2) skip_name.simps) (fastforce split: option.splits if_splits)
qed

lemma skip_questions_mono: "skip_questions m n pos = Some p \<Longrightarrow> pos \<le> p"
  by (induction n arbitrary: pos) (force split: option.splits if_splits dest: skip_name_progress)+

lemma read_answers_returns:
  assumes "pos \<le> length m"
  shows "\<exists>r. read_answers m n pos out = Some r
    \<and> (\<forall>ips. r = Some ips \<longrightarrow> pos + 15 * length ips \<le> length m + 15 * length out)"
  using assms
proof (induction n arbitrary: pos out)
  case (Suc n)
  show ?case
  proof (cases "skip_name m pos")
    case (Some p)
    have p: "pos < p"
      using Some by (rule skip_name_progress)
    show ?thesis
    proof (cases "length m < p + 10")
      case False
      obtain ty cl rl where w: "word_at m p = Some ty" "word_at m (p + 2) = Some cl" "word_at m (p + 8) = Some rl"
        using word_at_some [of p m] word_at_some [of "p + 2" m] word_at_some [of "p + 8" m] False
        by (auto simp: numeral_eq_Suc)
      show ?thesis
      proof (cases "length m < p + 10 + unat rl")
        case fits: False
        obtain r where r: "read_answers m n (p + 10 + unat rl) out = Some r"
            "\<forall>ips. r = Some ips \<longrightarrow> p + 10 + unat rl + 15 * length ips \<le> length m + 15 * length out"
          using Suc.IH [of "p + 10 + unat rl" out] fits by auto
        show ?thesis
        proof (cases "ty = 1 \<and> cl = 1 \<and> rl = 4")
          case True
          then have u: "unat rl = 4"
            by simp
          obtain r' where "read_answers m n (p + 10 + unat rl)
                (out @ [Ipv4 (m ! (p + 10)) (m ! (p + 10 + 1)) (m ! (p + 10 + 2)) (m ! (p + 10 + 3))]) = Some r'"
              "\<forall>ips. r' = Some ips \<longrightarrow> p + 10 + unat rl + 15 * length ips \<le> length m + 15 * (length out + 1)"
            using Suc.IH [of "p + 10 + unat rl"] fits by fastforce
          then show ?thesis
            using True False fits p u Some w by (auto simp: byte_at_def Let_def)
        qed (use False fits Some w r p in \<open>auto simp: Let_def\<close>)
      qed (use False Some w in \<open>auto simp: Let_def\<close>)
    qed (use Some in simp)
  qed simp
qed simp

lemma skip_questions_fits: "pos \<le> length m \<Longrightarrow> skip_questions m n pos = Some p \<Longrightarrow> p \<le> length m"
  by (induction n arbitrary: pos) (force simp: not_less split: option.splits if_splits)+

lemma parse_returns_aux:
  "\<exists>r. parse_a_records m qid = Some r
     \<and> (case r of None \<Rightarrow> True | Some ips \<Rightarrow> 12 + 15 * length ips \<le> length m)"
proof (cases "length m < 12")
  case False
  obtain rid flags qd an where w: "word_at m 0 = Some rid" "word_at m 2 = Some flags"
      "word_at m 4 = Some qd" "word_at m 6 = Some an"
    using False word_at_some [of 0 m] word_at_some [of 2 m] word_at_some [of 4 m] word_at_some [of 6 m] by auto
  show ?thesis
  proof (cases "skip_questions m (unat qd) 12")
    case (Some pos)
    have "12 \<le> pos" "pos \<le> length m"
      using skip_questions_mono [OF Some] skip_questions_fits [OF _ Some] False by simp_all
    then obtain r where "read_answers m (unat an) pos [] = Some r"
        "\<forall>ips. r = Some ips \<longrightarrow> 12 + 15 * length ips \<le> length m"
      using read_answers_returns [of pos m "unat an" "[]"] by fastforce
    then show ?thesis
      using False Some by (auto simp: parse_a_records_def w split: option.split)
  qed (use False in \<open>auto simp: parse_a_records_def w\<close>)
qed (simp add: parse_a_records_def)

text \<open>
  C39: reading a response returns on every byte string without indexing out of range, and it reports at
  most one address for every fifteen bytes after the header.
\<close>

theorem parse_returns:
  "\<exists>r. parse_a_records m qid = Some r
     \<and> (case r of None \<Rightarrow> True | Some ips \<Rightarrow> 12 + 15 * length ips \<le> length m)"
  by (rule parse_returns_aux)

lemma query_one_returns: "query_one net r name qid \<noteq> None"
proof -
  have "parse_a_records resp qid \<noteq> None" for resp
    using parse_returns_aux [of resp qid] by auto
  then show ?thesis
    by (auto simp: query_one_def split: sum.split option.split) (metis option.distinct(1))
qed

section \<open>The query\<close>

lemma be16_inject [simp]: "be16 v = be16 w \<longleftrightarrow> v = w"
proof
  assume "be16 v = be16 w"
  then have "from_be16 (be16 v ! 0) (be16 v ! 1) = from_be16 (be16 w ! 0) (be16 w ! 1)"
    by simp
  then show "v = w" by (simp add: be16_def)
qed simp

lemma byte_inject: "(of_char c :: u8) = of_char d \<longleftrightarrow> c = d"
proof
  have un: "unat (of_char e :: u8) = of_char e" for e
  proof -
    have "(of_char e :: u8) = of_nat (of_char e)"
      by (simp only: of_nat_of_char)
    moreover have "(of_char e :: nat) < 256"
      by simp
    ultimately show ?thesis
      by (simp only: unat_of_nat) (simp add: nat_of_char_less_256 del: of_nat_of_char)
  qed
  assume "(of_char c :: u8) = of_char d"
  then have "(of_char c :: nat) = of_char d"
    by (metis un)
  then show "c = d" by simp
qed simp

lemma as_bytes_inject [simp]: "as_bytes s = as_bytes t \<longleftrightarrow> s = t"
  by (simp add: as_bytes_def inj_map_eq_map inj_def byte_inject)

lemma put_labels_inject:
  assumes "wf_labels ls" "wf_labels ms" "concat (map put_label ls) @ 0 # x = concat (map put_label ms) @ 0 # y"
  shows "ls = ms"
  using assms
proof (induction ls arbitrary: ms)
  case Nil
  then show ?case
    by (cases ms) (auto simp: put_label_def wf_labels_def word_of_nat_eq_0_iff dvd_imp_le)
next
  case (Cons l ls)
  have l: "l \<noteq> []" "length l < 64"
    using Cons.prems(1) by (simp_all add: wf_labels_def)
  then have nz: "(of_nat (length l) :: u8) \<noteq> 0"
    by (auto simp: word_of_nat_eq_0_iff dest: dvd_imp_le)
  then obtain k ks where ms: "ms = k # ks"
    using Cons.prems(3) by (cases ms) (auto simp: put_label_def)
  have k: "length k < 64"
    using Cons.prems(2) by (simp add: ms wf_labels_def)
  have "(of_nat (length l) :: u8) = of_nat (length k)"
    using Cons.prems(3) by (simp add: ms put_label_def)
  then have "unat (of_nat (length l) :: u8) = unat (of_nat (length k) :: u8)"
    by simp
  then have len: "length l = length k"
    using l(2) k by (simp add: unat_of_nat)
  then have "length (as_bytes l) = length (as_bytes k)"
    by (simp add: as_bytes_def)
  then have "as_bytes l = as_bytes k" "concat (map put_label ls) @ 0 # x = concat (map put_label ks) @ 0 # y"
    using Cons.prems(3) by (simp_all add: ms put_label_def [of l] put_label_def [of k] del: as_bytes_inject)
  then show ?case
    using Cons.IH [of ks] Cons.prems(1,2) by (simp add: ms wf_labels_def)
qed

lemma valid_labels: "valid_dns_name n \<Longrightarrow> wf_labels (str_split (CHR ''.'') (strip_dot n))"
  by (auto simp: valid_dns_name_def wf_labels_def valid_dns_label_def list_all_iff Let_def split: if_splits)

text \<open>
  the query for a valid name determines the name, up to a final dot, and the id: no two names and
  no two ids give the same query.
\<close>

theorem query_determines_name:
  assumes "valid_dns_name n" "valid_dns_name n'"
  shows "build_a_query q n = build_a_query q' n' \<longleftrightarrow> q = q' \<and> strip_dot n = strip_dot n'"
proof
  assume eq: "build_a_query q n = build_a_query q' n'"
  then have "be16 q = be16 q'"
    by (simp add: build_a_query_def be16_def)
  moreover have "concat (map put_label (str_split (CHR ''.'') (strip_dot n))) @ 0 # be16 1 @ be16 1
      = concat (map put_label (str_split (CHR ''.'') (strip_dot n'))) @ 0 # be16 1 @ be16 1"
    using eq by (simp add: build_a_query_def)
  ultimately show "q = q' \<and> strip_dot n = strip_dot n'"
    using put_labels_inject [OF valid_labels [OF assms(1)] valid_labels [OF assms(2)]]
    by (metis be16_inject str_join_split)
qed (simp add: build_a_query_def)

section \<open>A resolution\<close>

lemma read_framed_frame:
  assumes "q \<noteq> []" "length q < 65536"
  shows "read_framed ip (frame q @ rest) = Inr q"
proof -
  have un: "unat (of_nat (length q) :: u16) = length q"
    using assms(2) by (simp add: unat_of_nat)
  have w: "from_be16 ((frame q @ rest) ! 0) ((frame q @ rest) ! 1) = of_nat (length q)"
    by (simp add: frame_def be16_def)
  show ?thesis
    unfolding read_framed_def w un using assms(1) by (simp add: frame_def be16_def)
qed

lemma try_resolvers_fail:
  "(\<And>b. b \<in> set rs \<Longrightarrow> \<exists>e. query_one net b name qid = Some (Inl e))
   \<Longrightarrow> \<exists>es. try_resolvers net (rs @ rest) name qid errs = try_resolvers net rest name qid es"
proof (induction rs arbitrary: errs)
  case (Cons b rs)
  obtain e where "query_one net b name qid = Some (Inl e)"
    using Cons.prems [of b] by auto
  then show ?case
    using Cons.IH [of "errs @ [e]"] Cons.prems by simp
qed auto

lemma try_resolvers_ok:
  "try_resolvers net rs name qid errs = Some (Inr (ips, ip))
   \<Longrightarrow> \<exists>bs r cs a. rs = bs @ r # cs \<and> rs_ip r = ip \<and> query_one net r name qid = Some (Inr a)
         \<and> ips = remdups_adj (sort a) \<and> (\<forall>b \<in> set bs. \<exists>e. query_one net b name qid = Some (Inl e))"
proof (induction rs arbitrary: errs)
  case (Cons r rs)
  obtain x where x: "query_one net r name qid = Some x"
    using query_one_returns [of net r name qid] by auto
  show ?case
  proof (cases x)
    case (Inl e)
    then obtain bs r' cs a where "rs = bs @ r' # cs" "rs_ip r' = ip" "query_one net r' name qid = Some (Inr a)"
        "ips = remdups_adj (sort a)" "\<forall>b \<in> set bs. \<exists>e. query_one net b name qid = Some (Inl e)"
      using Cons.IH [of "errs @ [e]"] Cons.prems x by auto
    then show ?thesis
      using x Inl by (intro exI [of _ "r # bs"] exI [of _ r'] exI [of _ cs] exI [of _ a]) auto
  next
    case (Inr a)
    then show ?thesis
      using Cons.prems x by (intro exI [of _ "[]"] exI [of _ r] exI [of _ rs] exI [of _ a]) auto
  qed
qed simp

text \<open>
  a resolution that succeeds was asked for a valid name and returns, sorted and without repetition,
  at least one address: those of one sealed resolver, after every sealed resolver before it failed.
\<close>

theorem resolution_is_the_first_answer:
  assumes "resolve_over_dot_logged ca net name qid = Some (Inr (ips, ip))"
  shows "valid_dns_name name \<and> sorted ips \<and> distinct ips \<and> ips \<noteq> []
    \<and> (\<exists>bs r cs a. RESOLVERS = bs @ r # cs \<and> rs_ip r = ip \<and> query_one net r name qid = Some (Inr a)
         \<and> set ips = set a \<and> (\<forall>b \<in> set bs. \<exists>e. query_one net b name qid = Some (Inl e)))"
proof -
  have v: "valid_dns_name name" "try_resolvers net RESOLVERS name qid [] = Some (Inr (ips, ip))"
    using assms by (auto simp: resolve_over_dot_logged_def split: if_splits sum.splits)
  then obtain bs r cs a where a: "RESOLVERS = bs @ r # cs" "rs_ip r = ip" "query_one net r name qid = Some (Inr a)"
      "ips = remdups_adj (sort a)" "\<forall>b \<in> set bs. \<exists>e. query_one net b name qid = Some (Inl e)"
    using try_resolvers_ok by blast
  have "a \<noteq> []"
    using a(3) by (auto simp: query_one_def split: sum.splits option.splits if_splits)
  then have "sort a \<noteq> []"
    by (metis set_empty set_sort)
  then have "sorted ips" "distinct ips" "ips \<noteq> []" "set ips = set a"
    using sorted_remdups_adj_distinct [of "sort a"] by (simp_all add: a(4))
  then show ?thesis
    using v(1) a(1-3,5) by blast
qed

lemma resolves_logged:
  assumes "valid_dns_name name" "RESOLVERS = bs @ r # cs"
    and "\<And>b. b \<in> set bs \<Longrightarrow> \<exists>e. net b (frame (build_a_query qid name)) = Inl e"
    and "net r (frame (build_a_query qid name)) = Inr (frame (put_response qid flags qs rs ns ar rest) @ tail)"
    and "length (put_response qid flags qs rs ns ar rest) < 65536"
    and "list_all wf_question qs" "list_all wf_answer rs" "length qs < 65536" "length rs < 65536"
    and "flags AND 0x8000 \<noteq> 0" "flags AND 0x000F = 0" "List.map_filter address_of rs \<noteq> []"
  shows "resolve_over_dot_logged (Inr ()) net name qid
    = Some (Inr (remdups_adj (sort (List.map_filter address_of rs)), rs_ip r))"
proof -
  have "put_response qid flags qs rs ns ar rest \<noteq> []"
    by (simp add: put_response_def be16_def)
  then have "query_one net r name qid = Some (Inr (List.map_filter address_of rs))"
    using assms(4,5,12) by (simp add: query_one_def read_framed_frame parse_put_response [OF assms(6-11)])
  moreover have "\<exists>e. query_one net b name qid = Some (Inl e)" if "b \<in> set bs" for b
    using assms(3) [OF that] by (auto simp: query_one_def)
  then obtain es where "try_resolvers net (bs @ r # cs) name qid [] = try_resolvers net (r # cs) name qid es"
    using try_resolvers_fail [of bs net name qid "r # cs" "[]"] by blast
  ultimately show ?thesis
    using assms(1) by (simp add: resolve_over_dot_logged_def assms(2))
qed

text \<open>
  when a sealed resolver answers the query with a well-formed response that carries addresses, and
  those before it fail, the resolution returns exactly the addresses of its A records, whatever the
  names are compressed to, whatever other records and bytes the response holds.
\<close>

theorem resolution_returns_the_addresses:
  assumes "valid_dns_name name" "RESOLVERS = bs @ r # cs"
    and "\<And>b. b \<in> set bs \<Longrightarrow> \<exists>e. net b (frame (build_a_query qid name)) = Inl e"
    and "net r (frame (build_a_query qid name)) = Inr (frame (put_response qid flags qs rs ns ar rest) @ tail)"
    and "length (put_response qid flags qs rs ns ar rest) < 65536"
    and "list_all wf_question qs" "list_all wf_answer rs" "length qs < 65536" "length rs < 65536"
    and "flags AND 0x8000 \<noteq> 0" "flags AND 0x000F = 0" "List.map_filter address_of rs \<noteq> []"
  shows "resolve_over_dot (Inr ()) net name qid
    = Some (Inr (remdups_adj (sort (List.map_filter address_of rs))))"
proof -
  have "resolve_over_dot_logged (Inr ()) net name qid
      = Some (Inr (remdups_adj (sort (List.map_filter address_of rs)), rs_ip r))"
    by (rule resolves_logged) (fact assms)+
  then show ?thesis
    by (simp add: resolve_over_dot_def)
qed

text \<open>A response with a compressed name, an alias record and an address, for the instances.\<close>

definition two_records :: "answer list" where
  "two_records =
    [\<lparr>qn_labels = [], qn_end = Some (0xC0, 12), qn_type = 5, qn_class = 1, an_ttl = (0, 0, 0, 60), an_data = [1, 98, 0]\<rparr>,
     \<lparr>qn_labels = [''b''], qn_end = None, qn_type = 1, qn_class = 1, an_ttl = (0, 0, 0, 60), an_data = [9, 8, 7, 6]\<rparr>]"

definition echo_question :: question where
  "echo_question = \<lparr>qn_labels = [''a'', ''b''], qn_end = None, qn_type = 1, qn_class = 1\<rparr>"

definition one_answer :: dot_stream where
  "one_answer r q = (if rs_ip r = Ipv4 1 1 1 1 then Inl ''timed out''
     else Inr (frame (put_response 7 0x8180 [echo_question] two_records 0 0 [])))"

lemma two_records_facts:
  "wf_question echo_question" "list_all wf_answer two_records" "length two_records = 2"
  "List.map_filter address_of two_records = [Ipv4 9 8 7 6]"
  by (simp_all add: echo_question_def two_records_def wf_answer_def wf_question_def wf_labels_def wf_end_def
      address_of_def map_filter_simps)

lemma echo_length: "length (put_response 7 0x8180 [echo_question] two_records 0 0 []) < 65536"
  by (simp add: put_response_def put_question_def put_answer_def put_name_def put_label_def as_bytes_def
      put_end_def echo_question_def two_records_def)

lemma ab_valid: "valid_dns_name ''a.b''"
  by code_simp

lemmas one_answer_resolved = resolves_logged [OF ab_valid, where bs = "[RESOLVERS ! 0]" and r = "RESOLVERS ! 1"
    and cs = "drop 2 RESOLVERS" and net = one_answer and qid = 7 and flags = "0x8180" and qs = "[echo_question]"
    and rs = two_records and ns = 0 and ar = 0 and rest = "[]" and tail = "[]"]

theorem resolution_returns_the_addresses_witness:
  "resolve_over_dot (Inr ()) one_answer ''a.b'' 7 = Some (Inr [Ipv4 9 8 7 6])"
proof -
  have "resolve_over_dot (Inr ()) one_answer ''a.b'' 7
      = Some (Inr (remdups_adj (sort (List.map_filter address_of two_records))))"
    by (rule resolution_returns_the_addresses [OF ab_valid, where bs = "[RESOLVERS ! 0]" and r = "RESOLVERS ! 1"
          and cs = "drop 2 RESOLVERS" and flags = "0x8180" and qs = "[echo_question]" and ns = 0 and ar = 0
          and rest = "[]" and tail = "[]"])
      (simp_all add: two_records_facts echo_length one_answer_def RESOLVERS_def)
  then show ?thesis
    by (simp add: two_records_facts)
qed

theorem resolution_is_the_first_answer_witness:
  "\<exists>ips. resolve_over_dot_logged (Inr ()) one_answer ''a.b'' 7 = Some (Inr (ips, Ipv4 1 0 0 1)) \<and> ips \<noteq> []"
proof -
  have "resolve_over_dot_logged (Inr ()) one_answer ''a.b'' 7 = Some (Inr ([Ipv4 9 8 7 6], Ipv4 1 0 0 1))"
    using one_answer_resolved by (simp add: two_records_facts echo_length one_answer_def RESOLVERS_def)
  with resolution_is_the_first_answer [OF this] show ?thesis by blast
qed

theorem query_determines_name_witness:
  "build_a_query 7 ''a.b'' = build_a_query 7 ''a.b.'' \<and> build_a_query 7 ''a.b'' \<noteq> build_a_query 8 ''a.b''"
proof -
  have v: "valid_dns_name ''a.b''" "valid_dns_name ''a.b.''" "strip_dot ''a.b'' = strip_dot ''a.b.''"
    by code_simp+
  show ?thesis
    using query_determines_name [OF v(1,2), of 7 7] query_determines_name [OF v(1,1), of 7 8] v(3) by simp
qed

text \<open>
  A response with the truncation bit set is taken as complete: the parser does not look at the bit,
  although its description lists truncation among the reasons to refuse.
\<close>

theorem truncated_flag_is_ignored:
  "parse_a_records (put_response 7 0x8380 [] (tl two_records) 0 0 []) 7 = Some (Some [Ipv4 9 8 7 6])"
  by (subst parse_put_response)
    (simp_all add: two_records_def wf_answer_def wf_question_def wf_labels_def wf_end_def address_of_def map_filter_simps)

end
