(* ===== verification/Net_Plane.thy ===== *)
theory Net_Plane
  imports Policy_Egress Dot_Resolver
begin

text \<open>
  The egress plane of a sandbox (\<open>gatekeeperd/src/net_plane.rs\<close>): the identity a sandbox gets on the
  host, the rule set as text, the commands that wire it up and tear it down, and the resolution of the
  sealed profiles.  The programs \<open>ip\<close> and \<open>nft\<close> are parameters that act on a host state of any type;
  writes to \<open>/proc/sys\<close>, whose outcome the code ignores, are not modelled.
\<close>

unbundle bit_operations_syntax

section \<open>The identity of a sandbox\<close>

record endpoint =
  ep_ip :: ipv4
  ep_proto :: proto
  ep_port :: u16

record sandbox_net =
  sn_ns :: string
  sn_host_if :: string
  sn_cont_if :: string
  sn_table :: string
  sn_host_ip :: ipv4
  sn_cont_ip :: ipv4

definition djb2 :: "string \<Rightarrow> u32" where
  "djb2 s = foldl (\<lambda>h b. h * 33 + of_char b) 5381 s"

definition net_sanitize :: "string \<Rightarrow> string" where
  "net_sanitize s =
     concat (map (\<lambda>c. if length c = 1 \<and> is_alnum (hd c) then c else ''_'') (utf8_chars s))"

definition net_index :: "string \<Rightarrow> u32" where
  "net_index s = djb2 s AND 0x3FFF"

definition hex_char :: "nat \<Rightarrow> char" where
  "hex_char n = (if n < 10 then char_of (48 + n) else char_of (87 + n))"

text \<open>\<open>{:04x}\<close> of a number below 65536.\<close>

definition hex4 :: "nat \<Rightarrow> string" where
  "hex4 n = map (\<lambda>k. hex_char (n div 16 ^ k mod 16)) [3, 2, 1, 0]"

definition for_id :: "string \<Rightarrow> sandbox_net" where
  "for_id s =
     (let idx = net_index s;
          base = push_bit 2 idx;
          o3 = ucast (drop_bit 8 base);
          o4 = ucast (base AND 0xFF)
      in \<lparr>sn_ns = ''shrek-'' @ net_sanitize s,
          sn_host_if = ''skh'' @ hex4 (unat idx),
          sn_cont_if = ''skc'' @ hex4 (unat idx),
          sn_table = ''shrek_egress_'' @ net_sanitize s,
          sn_host_ip = Ipv4 10 66 o3 (o4 + 1),
          sn_cont_ip = Ipv4 10 66 o3 (o4 + 2)\<rparr>)"

section \<open>The rule set\<close>

definition quote :: string where "quote = [CHR 0x22]"

definition allow_line :: "sandbox_net \<Rightarrow> endpoint \<Rightarrow> string" where
  "allow_line net e =
     ''    ip saddr '' @ ipv4_show (sn_cont_ip net) @ '' ip daddr '' @ ipv4_show (ep_ip e) @ '' ''
     @ proto_label (ep_proto e) @ '' dport '' @ show_uint (ep_port e) @ '' accept'' @ [nl]"

definition carveout_line :: "sandbox_net \<Rightarrow> ipv4 \<Rightarrow> string" where
  "carveout_line net ip =
     ''    ip saddr '' @ ipv4_show (sn_cont_ip net) @ '' ip daddr '' @ ipv4_show ip @ '' return'' @ [nl]"

definition antispoof_text :: "sandbox_net \<Rightarrow> string" where
  "antispoof_text net =
     ''  chain prerouting {'' @ [nl]
     @ ''    type filter hook prerouting priority -300; policy accept;'' @ [nl]
     @ ''    iif '' @ quote @ sn_host_if net @ quote @ '' ip saddr != '' @ ipv4_show (sn_cont_ip net) @ '' drop'' @ [nl]
     @ ''  }'' @ [nl]"

definition hostlocal_text :: "sandbox_net \<Rightarrow> string" where
  "hostlocal_text net =
     ''  chain input {'' @ [nl]
     @ ''    type filter hook input priority 0; policy accept;'' @ [nl]
     @ ''    iif '' @ quote @ sn_host_if net @ quote @ '' drop'' @ [nl]
     @ ''  }'' @ [nl]"

definition ruleset :: "sandbox_net \<Rightarrow> endpoint list \<Rightarrow> ipv4 list \<Rightarrow> string" where
  "ruleset net endpoints no_masq =
     ''table ip '' @ sn_table net @ '' {'' @ [nl]
     @ antispoof_text net
     @ hostlocal_text net
     @ ''  chain forward {'' @ [nl]
     @ ''    type filter hook forward priority 0; policy accept;'' @ [nl]
     @ concat (map (allow_line net) endpoints)
     @ ''    ip saddr '' @ ipv4_show (sn_cont_ip net) @ '' drop'' @ [nl]
     @ ''  }'' @ [nl]
     @ ''  chain postrouting {'' @ [nl]
     @ ''    type nat hook postrouting priority srcnat; policy accept;'' @ [nl]
     @ concat (map (carveout_line net) no_masq)
     @ ''    ip saddr '' @ ipv4_show (sn_cont_ip net) @ '' masquerade'' @ [nl]
     @ ''  }'' @ [nl]
     @ ''}'' @ [nl]"

section \<open>Wiring and teardown\<close>

text \<open>A command succeeds with a new host state or fails and leaves it.\<close>

record 'h net_ops =
  no_ip :: "string list \<Rightarrow> 'h \<Rightarrow> 'h option"
  no_nft :: "string list \<Rightarrow> 'h \<Rightarrow> 'h option"
  no_apply :: "string \<Rightarrow> 'h \<Rightarrow> 'h option"

fun run_steps :: "(string list \<Rightarrow> 'h \<Rightarrow> 'h option) \<Rightarrow> string list list \<Rightarrow> 'h \<Rightarrow> bool \<times> 'h" where
  "run_steps ip [] h = (True, h)"
| "run_steps ip (c # cs) h = (case ip c h of None \<Rightarrow> (False, h) | Some h' \<Rightarrow> run_steps ip cs h')"

definition wire_steps :: "sandbox_net \<Rightarrow> string list list" where
  "wire_steps net =
    [[''link'', ''add'', sn_host_if net, ''type'', ''veth'', ''peer'', ''name'', sn_cont_if net],
     [''link'', ''set'', sn_cont_if net, ''netns'', sn_ns net],
     [''addr'', ''add'', ipv4_show (sn_host_ip net) @ ''/30'', ''dev'', sn_host_if net],
     [''link'', ''set'', sn_host_if net, ''up''],
     [''-n'', sn_ns net, ''addr'', ''add'', ipv4_show (sn_cont_ip net) @ ''/30'', ''dev'', sn_cont_if net],
     [''-n'', sn_ns net, ''link'', ''set'', sn_cont_if net, ''up''],
     [''-n'', sn_ns net, ''link'', ''set'', ''lo'', ''up''],
     [''-n'', sn_ns net, ''route'', ''add'', ''default'', ''via'', ipv4_show (sn_host_ip net)]]"

definition wire_up ::
  "'h net_ops \<Rightarrow> string list \<Rightarrow> sandbox_net \<Rightarrow> endpoint list \<Rightarrow> ipv4 list \<Rightarrow> 'h \<Rightarrow> bool \<times> 'h" where
  "wire_up ops first net endpoints no_masq h =
     (let (ok, h1) = run_steps (no_ip ops) (first # wire_steps net) h
      in if \<not> ok then (False, h1)
         else case no_apply ops (ruleset net endpoints no_masq) h1 of
           None \<Rightarrow> (False, h1)
         | Some h2 \<Rightarrow> (True, h2))"

definition inject ::
  "'h net_ops \<Rightarrow> sandbox_net \<Rightarrow> u32 \<Rightarrow> endpoint list \<Rightarrow> ipv4 list \<Rightarrow> 'h \<Rightarrow> bool \<times> 'h" where
  "inject ops net leader = wire_up ops [''netns'', ''attach'', sn_ns net, show_uint leader] net"

definition create_and_inject ::
  "'h net_ops \<Rightarrow> sandbox_net \<Rightarrow> endpoint list \<Rightarrow> ipv4 list \<Rightarrow> 'h \<Rightarrow> bool \<times> 'h" where
  "create_and_inject ops net = wire_up ops [''netns'', ''add'', sn_ns net] net"

definition or_same :: "'h \<Rightarrow> 'h option \<Rightarrow> 'h" where
  "or_same h r = (case r of None \<Rightarrow> h | Some h' \<Rightarrow> h')"

definition net_teardown :: "'h net_ops \<Rightarrow> sandbox_net \<Rightarrow> 'h \<Rightarrow> 'h" where
  "net_teardown ops net h =
     (let h1 = or_same h (no_nft ops [''delete'', ''table'', ''ip'', sn_table net] h);
          h2 = or_same h1 (no_ip ops [''link'', ''del'', sn_host_if net] h1)
      in or_same h2 (no_ip ops [''netns'', ''del'', sn_ns net] h2))"

definition ns_path :: "sandbox_net \<Rightarrow> string" where
  "ns_path net = ''/run/netns/'' @ sn_ns net"

section \<open>Resolving the profiles\<close>

record resolved_egress =
  re_endpoints :: "endpoint list"
  re_hosts :: "(string \<times> ipv4) list"

definition IDENTITY_PRESERVING_HOSTS :: "string list" where
  "IDENTITY_PRESERVING_HOSTS = [SWAMP_QUERY_HOST]"

definition no_masquerade_ips :: "resolved_egress \<Rightarrow> ipv4 list" where
  "no_masquerade_ips r =
     map snd (filter (\<lambda>(h, _). List.member IDENTITY_PRESERVING_HOSTS h) (re_hosts r))"

definition DOT_ID :: u16 where "DOT_ID = 0x9a7e"

type_synonym hosts_map = "(string \<times> ipv4 list) list"

fun hosts_add :: "string \<Rightarrow> ipv4 \<Rightarrow> hosts_map \<Rightarrow> hosts_map" where
  "hosts_add n ip [] = [(n, [ip])]"
| "hosts_add n ip ((k, v) # m) = (if k = n then (k, v @ [ip]) # m else (k, v) # hosts_add n ip m)"

definition hosts_line :: "string \<Rightarrow> hosts_map \<Rightarrow> hosts_map" where
  "hosts_line line m =
     (case str_split_ws line of
        [] \<Rightarrow> m
      | a # names \<Rightarrow>
          (case ipv4_parse a of
             None \<Rightarrow> m
           | Some ip \<Rightarrow> foldl (\<lambda>m n. hosts_add n ip m) m names))"

definition parse_hosts_projection :: "string \<Rightarrow> hosts_map" where
  "parse_hosts_projection body = foldl (\<lambda>m l. hosts_line l m) [] (str_lines body)"

datatype net_error = UnboundAlias string | DotFailed string dot_error

text \<open>The answer over DNS, or a panic of its parser, is a parameter.\<close>

type_synonym dot_lookup = "string \<Rightarrow> (dot_error, ipv4 list) result option"

definition resolve_host_v4 :: "dot_lookup \<Rightarrow> string \<Rightarrow> hosts_map \<Rightarrow> (net_error, ipv4 list) result option" where
  "resolve_host_v4 dot host m =
     (if is_sealed_alias_host host then
        (case map_of m host of
           Some (ip # ips) \<Rightarrow> Some (Inr (ip # ips))
         | _ \<Rightarrow> Some (Inl (UnboundAlias host)))
      else map_option (\<lambda>r. case r of Inl e \<Rightarrow> Inl (DotFailed host e) | Inr ips \<Rightarrow> Inr ips) (dot host))"

definition add_endpoint :: "egress_rule \<Rightarrow> endpoint list \<Rightarrow> ipv4 \<Rightarrow> endpoint list" where
  "add_endpoint r es ip =
     (let e = \<lparr>ep_ip = ip, ep_proto = rule_proto r, ep_port = rule_port r\<rparr>
      in if List.member es e then es else es @ [e])"

definition add_host :: "egress_rule \<Rightarrow> ipv4 \<Rightarrow> (string \<times> ipv4) list \<Rightarrow> (string \<times> ipv4) list" where
  "add_host r ip hs = (if List.member (map fst hs) (rule_host r) then hs else hs @ [(rule_host r, ip)])"

text \<open>The rules of all profiles in order; \<open>addrs[0]\<close> of an empty answer would panic.\<close>

fun resolve_rules ::
  "dot_lookup \<Rightarrow> hosts_map \<Rightarrow> egress_rule list \<Rightarrow> endpoint list \<Rightarrow> (string \<times> ipv4) list
   \<Rightarrow> (net_error, resolved_egress) result option" where
  "resolve_rules dot m [] es hs = Some (Inr \<lparr>re_endpoints = es, re_hosts = hs\<rparr>)"
| "resolve_rules dot m (r # rs) es hs =
     (case resolve_host_v4 dot (rule_host r) m of
        None \<Rightarrow> None
      | Some (Inl e) \<Rightarrow> Some (Inl e)
      | Some (Inr addrs) \<Rightarrow>
          if List.member (map fst hs) (rule_host r) then
            resolve_rules dot m rs (foldl (add_endpoint r) es addrs) hs
          else case addrs of
            [] \<Rightarrow> None
          | ip # _ \<Rightarrow> resolve_rules dot m rs (foldl (add_endpoint r) es addrs) (add_host r ip hs))"

definition resolve_profiles_v4 ::
  "dot_lookup \<Rightarrow> string \<Rightarrow> egress_profile list \<Rightarrow> (net_error, resolved_egress) result option" where
  "resolve_profiles_v4 dot projection profiles =
     resolve_rules dot (parse_hosts_projection projection) (concat (map prof_rules profiles)) [] []"

definition etc_hosts :: "(string \<times> ipv4) list \<Rightarrow> string" where
  "etc_hosts hosts =
     ''127.0.0.1 localhost'' @ [nl] @ concat (map (\<lambda>(h, ip). ipv4_show ip @ '' '' @ h @ [nl]) hosts)"

section \<open>The leader of a container\<close>

text \<open>The parent of a process, from the text of its status file.\<close>

definition status_ppid :: "string \<Rightarrow> u32 option" where
  "status_ppid status =
     (case find (\<lambda>l. str_starts_with l ''PPid:'') (str_lines status) of
        None \<Rightarrow> None
      | Some l \<Rightarrow> parse_uint (str_trim (drop 5 l)))"

fun descends :: "(u32 \<Rightarrow> string option) \<Rightarrow> nat \<Rightarrow> u32 \<Rightarrow> u32 \<Rightarrow> bool" where
  "descends status 0 pid ancestor = False"
| "descends status (Suc n) pid ancestor =
     (case status pid of
        None \<Rightarrow> False
      | Some t \<Rightarrow>
          (case status_ppid t of
             None \<Rightarrow> False
           | Some p \<Rightarrow> if p = ancestor then True else if 1 < p then descends status n p ancestor else False))"

definition is_descendant :: "(u32 \<Rightarrow> string option) \<Rightarrow> u32 \<Rightarrow> u32 \<Rightarrow> bool" where
  "is_descendant status pid ancestor = descends status 32 pid ancestor"

text \<open>One scan of the processes: the first that is in another network and descends from the container.\<close>

definition scan_leader ::
  "(u32 \<Rightarrow> string option) \<Rightarrow> (u32 \<Rightarrow> string option) \<Rightarrow> string \<Rightarrow> u32 list \<Rightarrow> u32 \<Rightarrow> u32 option" where
  "scan_leader status net_of host_net pids nspawn_pid =
     find (\<lambda>pid. case net_of pid of
        None \<Rightarrow> False | Some n \<Rightarrow> n \<noteq> host_net \<and> is_descendant status pid nspawn_pid) pids"

end
