(* ===== verification/Net_Filter.thy ===== *)
theory Net_Filter
  imports Net_Plane
begin

text \<open>
  What the egress plane of a sandbox does: the rule set read as rules and its decisions on packets, the
  identities two sandboxes get, the resolution of profiles, and the fate of the rules of a sandbox whose
  name another one repeats.
\<close>

unbundle bit_operations_syntax

section \<open>The rule set as rules\<close>

datatype nft_match = MIif string | MSaddr ipv4 | MSaddrNot ipv4 | MDaddr ipv4 | MDport proto u16

datatype nft_verdict = NAccept | NDrop | NReturn | NMasquerade

record packet =
  pk_iif :: string
  pk_src :: ipv4
  pk_dst :: ipv4
  pk_proto :: proto
  pk_dport :: u16

type_synonym nft_rule = "nft_match list \<times> nft_verdict"

fun show_match :: "nft_match \<Rightarrow> string" where
  "show_match (MIif i) = ''iif '' @ quote @ i @ quote"
| "show_match (MSaddr a) = ''ip saddr '' @ ipv4_show a"
| "show_match (MSaddrNot a) = ''ip saddr != '' @ ipv4_show a"
| "show_match (MDaddr a) = ''ip daddr '' @ ipv4_show a"
| "show_match (MDport p n) = proto_label p @ '' dport '' @ show_uint n"

fun show_verdict :: "nft_verdict \<Rightarrow> string" where
  "show_verdict NAccept = ''accept''"
| "show_verdict NDrop = ''drop''"
| "show_verdict NReturn = ''return''"
| "show_verdict NMasquerade = ''masquerade''"

definition show_rule :: "nft_rule \<Rightarrow> string" where
  "show_rule r = ''    '' @ concat (map (\<lambda>m. show_match m @ '' '') (fst r)) @ show_verdict (snd r) @ [nl]"

definition show_chain :: "string \<times> string \<times> nft_rule list \<Rightarrow> string" where
  "show_chain c = ''  chain '' @ fst c @ '' {'' @ [nl] @ ''    type '' @ fst (snd c) @ ''; policy accept;'' @ [nl]
     @ concat (map show_rule (snd (snd c))) @ ''  }'' @ [nl]"

definition show_table :: "string \<Rightarrow> (string \<times> string \<times> nft_rule list) list \<Rightarrow> string" where
  "show_table t cs = ''table ip '' @ t @ '' {'' @ [nl] @ concat (map show_chain cs) @ ''}'' @ [nl]"

definition prerouting :: "sandbox_net \<Rightarrow> nft_rule list" where
  "prerouting net = [([MIif (sn_host_if net), MSaddrNot (sn_cont_ip net)], NDrop)]"

definition input_rules :: "sandbox_net \<Rightarrow> nft_rule list" where
  "input_rules net = [([MIif (sn_host_if net)], NDrop)]"

definition forward :: "sandbox_net \<Rightarrow> endpoint list \<Rightarrow> nft_rule list" where
  "forward net es =
     map (\<lambda>e. ([MSaddr (sn_cont_ip net), MDaddr (ep_ip e), MDport (ep_proto e) (ep_port e)], NAccept)) es
     @ [([MSaddr (sn_cont_ip net)], NDrop)]"

definition postrouting :: "sandbox_net \<Rightarrow> ipv4 list \<Rightarrow> nft_rule list" where
  "postrouting net nm =
     map (\<lambda>ip. ([MSaddr (sn_cont_ip net), MDaddr ip], NReturn)) nm @ [([MSaddr (sn_cont_ip net)], NMasquerade)]"

text \<open>The text the code passes to \<open>nft\<close> is the rendering of these rules.\<close>

lemma ruleset_is_rendered:
  "ruleset net es nm = show_table (sn_table net)
     [(''prerouting'', ''filter hook prerouting priority -300'', prerouting net),
      (''input'', ''filter hook input priority 0'', input_rules net),
      (''forward'', ''filter hook forward priority 0'', forward net es),
      (''postrouting'', ''nat hook postrouting priority srcnat'', postrouting net nm)]"
  by (simp add: ruleset_def show_table_def show_chain_def show_rule_def antispoof_text_def hostlocal_text_def
      prerouting_def input_rules_def forward_def postrouting_def allow_line_def [abs_def]
      carveout_line_def [abs_def] comp_def)

fun matches :: "nft_match \<Rightarrow> packet \<Rightarrow> bool" where
  "matches (MIif i) p \<longleftrightarrow> pk_iif p = i"
| "matches (MSaddr a) p \<longleftrightarrow> pk_src p = a"
| "matches (MSaddrNot a) p \<longleftrightarrow> pk_src p \<noteq> a"
| "matches (MDaddr a) p \<longleftrightarrow> pk_dst p = a"
| "matches (MDport pr n) p \<longleftrightarrow> pk_proto p = pr \<and> pk_dport p = n"

text \<open>The first rule whose matches all hold decides; the policy of every chain here is to accept.\<close>

fun decision :: "nft_rule list \<Rightarrow> packet \<Rightarrow> nft_verdict" where
  "decision [] p = NAccept"
| "decision ((ms, v) # rs) p = (if list_all (\<lambda>m. matches m p) ms then v else decision rs p)"

definition forwarded :: "sandbox_net \<Rightarrow> endpoint list \<Rightarrow> packet \<Rightarrow> bool" where
  "forwarded net es p \<longleftrightarrow> decision (prerouting net) p = NAccept \<and> decision (forward net es) p = NAccept"

definition delivered_locally :: "sandbox_net \<Rightarrow> packet \<Rightarrow> bool" where
  "delivered_locally net p \<longleftrightarrow> decision (prerouting net) p = NAccept \<and> decision (input_rules net) p = NAccept"

definition keeps_source :: "sandbox_net \<Rightarrow> ipv4 list \<Rightarrow> packet \<Rightarrow> bool" where
  "keeps_source net nm p \<longleftrightarrow> decision (postrouting net nm) p \<noteq> NMasquerade"

definition allowed_endpoint :: "endpoint list \<Rightarrow> packet \<Rightarrow> bool" where
  "allowed_endpoint es p \<longleftrightarrow> \<lparr>ep_ip = pk_dst p, ep_proto = pk_proto p, ep_port = pk_dport p\<rparr> \<in> set es"

lemma decision_map_accept:
  "decision (map f es @ rest) p = (if list_ex (\<lambda>e. list_all (\<lambda>m. matches m p) (fst (f e))) es then v else decision rest p)"
  if "\<And>e. snd (f e) = v"
  using that
proof (induction es)
  case (Cons e es)
  obtain ms where "f e = (ms, v)"
    using Cons.prems [of e] by (metis prod.collapse)
  then show ?case
    using Cons by simp
qed simp

lemma endpoint_eta [simp]: "\<lparr>ep_ip = ep_ip e, ep_proto = ep_proto e, ep_port = ep_port e\<rparr> = e"
  by (cases e) simp

lemma decision_forward:
  "decision (forward net es) p =
     (if pk_src p \<noteq> sn_cont_ip net \<or> allowed_endpoint es p then NAccept else NDrop)"
proof -
  have ex: "list_ex (\<lambda>e. list_all (\<lambda>m. matches m p)
        (fst ([MSaddr (sn_cont_ip net), MDaddr (ep_ip e), MDport (ep_proto e) (ep_port e)], NAccept))) es
      \<longleftrightarrow> pk_src p = sn_cont_ip net \<and> allowed_endpoint es p"
    by (auto simp: allowed_endpoint_def list_ex_iff intro!: bexI)
  show ?thesis
    unfolding forward_def by (subst decision_map_accept [where v = NAccept]) (simp, unfold ex, auto)
qed

lemma decision_postrouting:
  "decision (postrouting net nm) p =
     (if pk_src p \<noteq> sn_cont_ip net then NAccept else if pk_dst p \<in> set nm then NReturn else NMasquerade)"
proof -
  have ex: "list_ex (\<lambda>ip. list_all (\<lambda>m. matches m p) (fst ([MSaddr (sn_cont_ip net), MDaddr ip], NReturn))) nm
      \<longleftrightarrow> pk_src p = sn_cont_ip net \<and> pk_dst p \<in> set nm"
    by (auto simp: list_ex_iff)
  show ?thesis
    unfolding postrouting_def by (subst decision_map_accept [where v = NReturn]) (simp, unfold ex, auto)
qed


section \<open>The identities of two sandboxes\<close>

lemma index_bound: "unat (net_index s) < 16384"
proof -
  have "net_index s = take_bit 14 (djb2 s)"
    by (simp add: net_index_def take_bit_eq_mask mask_eq_exp_minus_1)
  then show ?thesis
    by (simp add: unsigned_take_bit_eq take_bit_nat_less_exp [where n = 14, simplified])
qed

lemma hex_char_inject: "m < 16 \<Longrightarrow> n < 16 \<Longrightarrow> hex_char m = hex_char n \<longleftrightarrow> m = n"
proof -
  assume mn: "m < 16" "n < 16"
  have "(of_char (hex_char k) :: nat) = (if k < 10 then 48 + k else 87 + k)" if "k < 16" for k
    using that by (simp add: hex_char_def)
  then show ?thesis
    using mn by (auto dest!: arg_cong [where f = "of_char :: char \<Rightarrow> nat"] split: if_splits)
qed

lemma four_digits:
  "x = a * 16 + r0 \<Longrightarrow> a = b * 16 + r1 \<Longrightarrow> b = c * 16 + r2 \<Longrightarrow> x = c * 4096 + r2 * 256 + r1 * 16 + (r0 :: nat)"
  by simp

lemma hex4_inject:
  assumes "m < 65536" "n < 65536"
  shows "hex4 m = hex4 n \<longleftrightarrow> m = n"
proof
  assume "hex4 m = hex4 n"
  then have d: "m div 16 ^ k mod 16 = n div 16 ^ k mod 16" if "k \<in> {0, 1, 2, 3}" for k
    using that by (auto simp: hex4_def hex_char_inject)
  have digits: "x = x div 4096 mod 16 * 4096 + x div 256 mod 16 * 256 + x div 16 mod 16 * 16 + x mod 16"
    if "x < 65536" for x :: nat
  proof -
    have e: "x div 256 = x div 16 div 16" "x div 4096 = x div 16 div 16 div 16"
      by (simp_all add: div_mult2_eq [symmetric])
    have m: "x div 16 div 16 div 16 mod 16 = x div 16 div 16 div 16"
      using that by (simp add: div_mult2_eq [symmetric] less_mult_imp_div_less)
    show ?thesis
      unfolding e m by (rule four_digits) (simp_all only: div_mult_mod_eq)
  qed
  show "m = n"
    using d [of 0] d [of 1] d [of 2] d [of 3] digits [OF assms(1)] digits [OF assms(2)] by simp
qed simp

lemma host_if_inject: "sn_host_if (for_id a) = sn_host_if (for_id b) \<longleftrightarrow> net_index a = net_index b"
proof -
  have "unat (net_index s) < 65536" for s
    using index_bound [of s] by simp
  then show ?thesis
    by (auto simp: for_id_def Let_def hex4_inject intro: unsigned_word_eqI)
qed

lemma base_bits:
  "bit (push_bit 2 (net_index s)) n \<longleftrightarrow> 2 \<le> n \<and> n < 16 \<and> bit (djb2 s) (n - 2)"
proof -
  have i: "net_index s = take_bit 14 (djb2 s)"
    by (simp add: net_index_def take_bit_eq_mask mask_eq_exp_minus_1)
  show ?thesis
    unfolding i by (auto simp: bit_push_bit_iff bit_take_bit_iff dest: bit_imp_le_length)
qed

lemma octets_determine_index:
  assumes "(ucast (drop_bit 8 (push_bit 2 (net_index a))) :: u8) = ucast (drop_bit 8 (push_bit 2 (net_index b)))"
    and "(ucast (push_bit 2 (net_index a) AND 0xFF) :: u8) = ucast (push_bit 2 (net_index b) AND 0xFF)"
  shows "net_index a = net_index b"
proof (rule bit_word_eqI)
  fix n assume n: "n < LENGTH(32)"
  have idx: "bit (net_index s) n \<longleftrightarrow> n < 14 \<and> bit (djb2 s) n" for s
  proof -
    have "net_index s = take_bit 14 (djb2 s)"
      by (simp add: net_index_def take_bit_eq_mask mask_eq_exp_minus_1)
    then show ?thesis by (simp add: bit_take_bit_iff)
  qed
  have low: "(push_bit 2 (net_index s) AND 0xFF) = take_bit 8 (push_bit 2 (net_index s))" for s
    by (simp add: take_bit_eq_mask mask_eq_exp_minus_1)
  show "bit (net_index a) n = bit (net_index b) n"
  proof (cases "n < 6")
    case True
    have "bit (ucast (push_bit 2 (net_index s) AND 0xFF) :: u8) (n + 2) \<longleftrightarrow> bit (djb2 s) n" for s
      using True by (auto simp: low bit_ucast_iff bit_take_bit_iff base_bits)
    then show ?thesis
      using assms(2) idx by metis
  next
    case False
    show ?thesis
    proof (cases "n < 14")
      case True
      have "bit (ucast (drop_bit 8 (push_bit 2 (net_index s))) :: u8) (n - 6) \<longleftrightarrow> bit (djb2 s) n" for s
        using True False by (auto simp: bit_ucast_iff bit_drop_bit_eq base_bits)
      then show ?thesis
        using assms(1) idx by metis
    qed (simp add: idx)
  qed
qed

lemma addresses_are_links_aux:
  "sn_cont_ip (for_id a) = sn_cont_ip (for_id b) \<longleftrightarrow> sn_host_if (for_id a) = sn_host_if (for_id b)"
proof
  assume "sn_cont_ip (for_id a) = sn_cont_ip (for_id b)"
  then have "net_index a = net_index b"
    by (intro octets_determine_index) (simp_all add: for_id_def Let_def)
  then show "sn_host_if (for_id a) = sn_host_if (for_id b)"
    by (simp add: host_if_inject)
qed (simp add: host_if_inject, simp add: for_id_def Let_def)

text \<open>
  two sandbox ids get the same address exactly when they get the same host link: the address a
  sandbox's packets must bear belongs to its own link and to no link with another name.
\<close>

theorem addresses_are_links:
  "sn_cont_ip (for_id a) = sn_cont_ip (for_id b) \<longleftrightarrow> sn_host_if (for_id a) = sn_host_if (for_id b)"
  by (rule addresses_are_links_aux)

section \<open>Resolution\<close>

definition addresses_of :: "dot_lookup \<Rightarrow> hosts_map \<Rightarrow> egress_rule \<Rightarrow> ipv4 set" where
  "addresses_of dot m r =
     (case resolve_host_v4 dot (rule_host r) m of Some (Inr ips) \<Rightarrow> set ips | _ \<Rightarrow> {})"

definition pinned_endpoints :: "dot_lookup \<Rightarrow> hosts_map \<Rightarrow> egress_rule list \<Rightarrow> endpoint set" where
  "pinned_endpoints dot m rs = (\<Union>r \<in> set rs. (\<lambda>ip. \<lparr>ep_ip = ip, ep_proto = rule_proto r, ep_port = rule_port r\<rparr>) ` addresses_of dot m r)"

lemma set_add_endpoint:
  "set (add_endpoint r es ip) = insert \<lparr>ep_ip = ip, ep_proto = rule_proto r, ep_port = rule_port r\<rparr> (set es)"
  by (auto simp: add_endpoint_def Let_def List.member_iff)

lemma add_endpoints:
  "set (foldl (add_endpoint r) es ips)
     = set es \<union> (\<lambda>ip. \<lparr>ep_ip = ip, ep_proto = rule_proto r, ep_port = rule_port r\<rparr>) ` set ips"
  "distinct es \<Longrightarrow> distinct (foldl (add_endpoint r) es ips)"
  by (induction ips arbitrary: es) (auto simp: set_add_endpoint, simp add: add_endpoint_def Let_def List.member_iff)

lemma resolve_rules_ok:
  assumes "resolve_rules dot m rs es hs = Some (Inr out)"
  shows "set (re_endpoints out) = set es \<union> pinned_endpoints dot m rs
    \<and> fst ` set (re_hosts out) = fst ` set hs \<union> rule_host ` set rs"
  using assms
proof (induction rs arbitrary: es hs)
  case Nil
  then show ?case by (auto simp: pinned_endpoints_def)
next
  case (Cons r rs)
  obtain addrs where a: "resolve_host_v4 dot (rule_host r) m = Some (Inr addrs)"
    using Cons.prems by (auto split: option.splits sum.splits)
  have pin: "pinned_endpoints dot m (r # rs) = (\<lambda>ip. \<lparr>ep_ip = ip, ep_proto = rule_proto r, ep_port = rule_port r\<rparr>) ` set addrs
      \<union> pinned_endpoints dot m rs"
    by (auto simp: pinned_endpoints_def addresses_of_def a)
  show ?case
  proof (cases "List.member (map fst hs) (rule_host r)")
    case True
    then show ?thesis
      using Cons.IH [of "foldl (add_endpoint r) es addrs" hs] Cons.prems a
      by (auto simp: pin add_endpoints List.member_iff)
  next
    case False
    then obtain ip ips where "addrs = ip # ips"
      using Cons.prems a by (cases addrs) auto
    then show ?thesis
      using Cons.IH [of "foldl (add_endpoint r) es addrs" "add_host r ip hs"] Cons.prems a False
      by (auto simp: pin add_endpoints set_add_endpoint add_host_def List.member_iff)
  qed
qed

text \<open>
  the endpoints of a successful resolution are exactly the resolved addresses of the rules of the
  sealed profiles under the protocol and port of the rule, every host of a rule has a line, and neither
  depends on the hosts file of the owner unless a rule names one of the sealed aliases.
\<close>

theorem resolved_endpoints_are_sealed:
  assumes "resolve_profiles_v4 dot body ps = Some (Inr r)"
  shows "set (re_endpoints r) = pinned_endpoints dot (parse_hosts_projection body) (concat (map prof_rules ps))
    \<and> fst ` set (re_hosts r) = rule_host ` set (concat (map prof_rules ps))
    \<and> (list_all (\<lambda>q. list_all (\<lambda>e. \<not> is_sealed_alias_host (rule_host e)) (prof_rules q)) ps
         \<longrightarrow> (\<forall>body'. resolve_profiles_v4 dot body' ps = Some (Inr r)))"
proof -
  have public: "resolve_rules dot m rs es hs = resolve_rules dot m' rs es hs"
    if "\<forall>e \<in> set rs. \<not> is_sealed_alias_host (rule_host e)" for rs m m' es hs
    using that
  proof (induction rs arbitrary: es hs)
    case (Cons e rs)
    then show ?case
      by (auto simp: resolve_host_v4_def split: option.split sum.split list.split)
  qed simp
  show ?thesis
    using resolve_rules_ok [of dot "parse_hosts_projection body" "concat (map prof_rules ps)" "[]" "[]" r] assms
      public [of "concat (map prof_rules ps)" "parse_hosts_projection body"]
    by (auto simp: resolve_profiles_v4_def list_all_iff)
qed

section \<open>A host\<close>

text \<open>A host of links and tables, for the instances: names are unique, a table is stored as its text.\<close>

record plain_host =
  ph_links :: "string list"
  ph_tables :: "(string \<times> string) list"

definition plain_ip :: "string list \<Rightarrow> plain_host \<Rightarrow> plain_host option" where
  "plain_ip args h =
     (case args of
        a # b # x # _ \<Rightarrow>
          if a = ''link'' \<and> b = ''add'' then
            (if List.member (ph_links h) x then None else Some (h\<lparr>ph_links := x # ph_links h\<rparr>))
          else if a = ''link'' \<and> b = ''del'' then
            (if List.member (ph_links h) x then Some (h\<lparr>ph_links := filter ((\<noteq>) x) (ph_links h)\<rparr>) else None)
          else Some h
      | _ \<Rightarrow> Some h)"

definition plain_nft :: "string list \<Rightarrow> plain_host \<Rightarrow> plain_host option" where
  "plain_nft args h =
     (case args of
        [_, _, _, t] \<Rightarrow>
          if List.member (map fst (ph_tables h)) t
          then Some (h\<lparr>ph_tables := filter (\<lambda>e. fst e \<noteq> t) (ph_tables h)\<rparr>) else None
      | _ \<Rightarrow> None)"

text \<open>The name is the third word of the text: \<open>table ip NAME {\<close>.\<close>

definition plain_apply :: "string \<Rightarrow> plain_host \<Rightarrow> plain_host option" where
  "plain_apply t h =
     (let name = takeWhile (\<lambda>c. c \<noteq> sp) (drop 9 t)
      in Some (h\<lparr>ph_tables := (name, t) # filter (\<lambda>e. fst e \<noteq> name) (ph_tables h)\<rparr>))"

definition plain_ops :: "plain_host net_ops" where
  "plain_ops = \<lparr>no_ip = plain_ip, no_nft = plain_nft, no_apply = plain_apply\<rparr>"

lemma sanitized_no_space: "c \<in> set (net_sanitize s) \<Longrightarrow> c \<noteq> sp"
proof -
  assume "c \<in> set (net_sanitize s)"
  then have "is_alnum c \<or> c = CHR ''_''"
    by (auto simp: net_sanitize_def length_Suc_conv split: if_splits)
  moreover have "\<not> is_alnum sp"
    by code_simp
  ultimately show ?thesis
    by auto
qed

lemma ruleset_name: "takeWhile (\<lambda>c. c \<noteq> sp) (drop 9 (ruleset (for_id s) es nm)) = sn_table (for_id s)"
proof -
  have "takeWhile (\<lambda>c. c \<noteq> sp) (net_sanitize s @ sp # r) = net_sanitize s" for r
    by (simp add: takeWhile_append sanitized_no_space)
  then show ?thesis
    by (simp add: ruleset_def for_id_def Let_def)
qed

lemma plain_wire:
  assumes "sn_host_if net \<notin> set (ph_links h)" "x \<noteq> ''link''"
  shows "run_steps plain_ip ([x, y, z] # wire_steps net) h = (True, h\<lparr>ph_links := sn_host_if net # ph_links h\<rparr>)"
  using assms by (simp add: wire_steps_def plain_ip_def List.member_iff)

text \<open>
  the names of two sandboxes are not kept apart: when the ids of two sandboxes differ only in
  characters that are replaced, setting up the second puts its rules in the place of those of the first,
  whose link stays up, so that the first is no longer filtered at all.
\<close>

theorem repeated_name_replaces_the_rules:
  fixes h a b es nm
  defines "h' \<equiv> create_and_inject plain_ops (for_id b) es nm (net_teardown plain_ops (for_id b) h)"
  assumes "net_sanitize a = net_sanitize b" "net_index a \<noteq> net_index b" "sn_host_if (for_id a) \<in> set (ph_links h)"
  shows "fst h' \<and> sn_host_if (for_id a) \<in> set (ph_links (snd h'))
    \<and> map_of (ph_tables (snd h')) (sn_table (for_id a)) = Some (ruleset (for_id b) es nm)
    \<and> (\<forall>p. pk_iif p = sn_host_if (for_id a) \<longrightarrow> pk_src p = sn_cont_ip (for_id a) \<longrightarrow>
          forwarded (for_id b) es p \<and> delivered_locally (for_id b) p)"
proof -
  have t: "sn_table (for_id a) = sn_table (for_id b)" "sn_host_if (for_id a) \<noteq> sn_host_if (for_id b)"
    using assms(2,3) by (simp add: for_id_def Let_def, simp add: host_if_inject)
  have ip: "sn_cont_ip (for_id a) \<noteq> sn_cont_ip (for_id b)"
    using t(2) addresses_are_links_aux by blast
  define g where "g = net_teardown plain_ops (for_id b) h"
  have g: "sn_host_if (for_id b) \<notin> set (ph_links g)" "sn_host_if (for_id a) \<in> set (ph_links g)"
    using assms(4) t(2) by (auto simp: g_def net_teardown_def or_same_def plain_ops_def plain_ip_def
        plain_nft_def Let_def List.member_iff split: option.split)
  have h': "h' = (True, g\<lparr>ph_links := sn_host_if (for_id b) # ph_links g,
      ph_tables := (sn_table (for_id b), ruleset (for_id b) es nm)
        # filter (\<lambda>e. fst e \<noteq> sn_table (for_id b)) (ph_tables g)\<rparr>)"
    unfolding h'_def g_def [symmetric] create_and_inject_def wire_up_def
    using plain_wire [OF g(1), of "''netns''" "''add''" "sn_ns (for_id b)"]
    by (simp add: plain_ops_def plain_apply_def ruleset_name Let_def)
  show ?thesis
    using g(2) t ip by (auto simp: h' forwarded_def delivered_locally_def prerouting_def input_rules_def decision_forward)
qed

lemma job_ids: "net_sanitize ''job-1'' = net_sanitize ''job_1''" "net_index ''job-1'' \<noteq> net_index ''job_1''"
  by code_simp+

definition first_job :: plain_host where
  "first_job = snd (create_and_inject plain_ops (for_id ''job-1'') [] [] \<lparr>ph_links = [], ph_tables = []\<rparr>)"

lemma first_job_up: "sn_host_if (for_id ''job-1'') \<in> set (ph_links first_job)"
proof -
  have "sn_host_if (for_id ''job-1'') \<notin> set (ph_links \<lparr>ph_links = [], ph_tables = []\<rparr>)"
    by simp
  from plain_wire [OF this, of "''netns''" "''add''" "sn_ns (for_id ''job-1'')"] show ?thesis
    by (simp add: first_job_def create_and_inject_def wire_up_def plain_ops_def plain_apply_def Let_def)
qed

theorem repeated_name_replaces_the_rules_witness:
  "map_of (ph_tables (snd (create_and_inject plain_ops (for_id ''job_1'') [] []
     (net_teardown plain_ops (for_id ''job_1'') first_job)))) (sn_table (for_id ''job-1''))
   = Some (ruleset (for_id ''job_1'') [] [])"
  using repeated_name_replaces_the_rules [OF job_ids first_job_up, of "[]" "[]"] by blast


theorem resolved_endpoints_are_sealed_witness:
  "\<exists>r. resolve_profiles_v4 (\<lambda>_. Some (Inr [])) ''10.0.0.7 shrek-model'' [mk_profile ''model-local'' MODEL_LOCAL] = Some (Inr r)
     \<and> fst ` set (re_hosts r) = {''shrek-model''}"
proof -
  have "(case resolve_profiles_v4 (\<lambda>_. Some (Inr [])) ''10.0.0.7 shrek-model'' [mk_profile ''model-local'' MODEL_LOCAL] of
      Some (Inr _) \<Rightarrow> True | _ \<Rightarrow> False)"
    by code_simp
  then obtain r where r: "resolve_profiles_v4 (\<lambda>_. Some (Inr [])) ''10.0.0.7 shrek-model''
      [mk_profile ''model-local'' MODEL_LOCAL] = Some (Inr r)"
    by (auto split: option.splits sum.splits)
  with resolved_endpoints_are_sealed [OF r] show ?thesis
    by (simp add: mk_profile_def MODEL_LOCAL_def mk_rule_def)
qed

end
