(* ===== verification/Pin_Manifest.thy ===== *)
theory Pin_Manifest
  imports Rust_Text Policy_Tier
begin

text \<open>
  The sealed pin manifest (\<open>gatekeeperd/src/pin_manifest.rs\<close>) and the admit list of the ingest harness
  (\<open>ingest_admit.rs\<close>): digests, their hexadecimal form, the two line grammars, the lookup.  Digests are
  lists of bytes; the errors are values with the text the message quotes.
\<close>

unbundle bit_operations_syntax

section \<open>Digests\<close>

type_synonym digest = "u8 list"

datatype digest_algo = Sha256 | Sha512

definition from_verity_id :: "u16 \<Rightarrow> digest_algo option" where
  "from_verity_id i = (if i = 1 then Some Sha256 else if i = 2 then Some Sha512 else None)"

definition algo_from_name :: "string \<Rightarrow> digest_algo option" where
  "algo_from_name s =
     (if s = ''sha256'' then Some Sha256 else if s = ''sha512'' then Some Sha512 else None)"

fun to_verity_id :: "digest_algo \<Rightarrow> u16" where
  "to_verity_id Sha256 = 1"
| "to_verity_id Sha512 = 2"

fun algo_size :: "digest_algo \<Rightarrow> nat" where
  "algo_size Sha256 = 32"
| "algo_size Sha512 = 64"

fun algo_name :: "digest_algo \<Rightarrow> string" where
  "algo_name Sha256 = ''sha256''"
| "algo_name Sha512 = ''sha512''"

definition nibble :: "char \<Rightarrow> u8 option" where
  "nibble c =
     (if is_digit c then Some (of_char c - 48)
      else if CHR ''a'' \<le> c \<and> c \<le> CHR ''f'' then Some (of_char c - 97 + 10)
      else None)"

text \<open>The pairs of a string of even length; a nibble that is none ends the loop.\<close>

fun hex_pairs :: "(char \<Rightarrow> u8 option) \<Rightarrow> string \<Rightarrow> digest option" where
  "hex_pairs nib (a # b # r) = do {
     hi \<leftarrow> nib a;
     lo \<leftarrow> nib b;
     rest \<leftarrow> hex_pairs nib r;
     Some ((push_bit 4 hi OR lo) # rest) }"
| "hex_pairs nib _ = Some []"

definition decode_hex :: "string \<Rightarrow> nat \<Rightarrow> digest option" where
  "decode_hex s n = (if length s \<noteq> n * 2 then None else hex_pairs nibble s)"

definition hex_digit :: "u8 \<Rightarrow> char" where
  "hex_digit w = (if w < 10 then char_of (48 + unat w) else char_of (87 + unat w))"

definition hex :: "digest \<Rightarrow> string" where
  "hex d = concat (map (\<lambda>b. [hex_digit (drop_bit 4 b), hex_digit (b AND 15)]) d)"

section \<open>The manifest\<close>

datatype pin_class = ClosedWorld | OpenWorld

definition class_from_token :: "string \<Rightarrow> pin_class option" where
  "class_from_token s =
     (if s = ''closed-world'' then Some ClosedWorld else if s = ''open-world'' then Some OpenWorld else None)"

definition is_closed_world :: "pin_class \<Rightarrow> bool" where
  "is_closed_world c \<longleftrightarrow> c = ClosedWorld"

record pin_entry =
  pn_algo :: digest_algo
  pn_digest :: digest
  pn_class :: pin_class

record closure_member =
  cm_algo :: digest_algo
  cm_digest :: digest
  cm_path :: string

record pin_closure =
  cl_algo :: digest_algo
  cl_digest :: digest
  cl_class :: pin_class
  cl_interp :: closure_member
  cl_libs :: "closure_member list"

datatype pin_match = StaticPin pin_class | ClosurePin pin_closure

record pin_manifest =
  pm_pins :: "pin_entry list"
  pm_closures :: "pin_closure list"

record closure_builder =
  cb_algo :: digest_algo
  cb_digest :: digest
  cb_class :: pin_class
  cb_interp :: "closure_member option"
  cb_libs :: "closure_member list"

datatype pin_error =
    BadVersionHeader string
  | EmptyPinManifest
  | NeedsV2 string
  | NoOpenEntry string
  | SecondInterp digest
  | NoInterp digest
  | DuplicateMember digest_algo digest
  | DuplicatePinKey digest_algo digest
  | WrongFields string
  | TrailingTokens string
  | UnknownAlgo string
  | BadDigest string
  | UnknownClass string
  | InterpNotAbsolute string
  | LibNotBare string

definition HEADER_V1 :: string where "HEADER_V1 = ''shrek-pin-manifest v1''"

definition HEADER_V2 :: string where "HEADER_V2 = ''shrek-pin-manifest v2''"

definition parse_digest :: "string \<Rightarrow> string \<Rightarrow> (pin_error, digest_algo \<times> digest) result" where
  "parse_digest algo_s hex_s =
     (case algo_from_name algo_s of
        None \<Rightarrow> Inl (UnknownAlgo algo_s)
      | Some a \<Rightarrow>
          (case decode_hex hex_s (algo_size a) of
             None \<Rightarrow> Inl (BadDigest hex_s)
           | Some d \<Rightarrow> Inr (a, d)))"

definition parse_pin_fields :: "string \<Rightarrow> (pin_error, digest_algo \<times> digest \<times> pin_class) result" where
  "parse_pin_fields line =
     (let ts = str_split_ws line;
          fs = (case ts of t # r \<Rightarrow> if t = ''entry'' then r else ts | [] \<Rightarrow> [])
      in case fs of
           [algo_s, hex_s, class_s] \<Rightarrow>
             rbind (parse_digest algo_s hex_s) (\<lambda>(a, d).
               case class_from_token class_s of
                 None \<Rightarrow> Inl (UnknownClass class_s)
               | Some c \<Rightarrow> Inr (a, d, c))
         | _ # _ # _ # _ # _ \<Rightarrow> Inl (TrailingTokens line)
         | _ \<Rightarrow> Inl (WrongFields line))"

definition parse_member_fields :: "string \<Rightarrow> bool \<Rightarrow> (pin_error, closure_member) result" where
  "parse_member_fields line is_interp =
     (case str_split_ws line of
        [_, algo_s, hex_s, name_s] \<Rightarrow>
          rbind (parse_digest algo_s hex_s) (\<lambda>(a, d).
            if is_interp \<and> \<not> str_starts_with name_s ''/'' then Inl (InterpNotAbsolute name_s)
            else if \<not> is_interp \<and> (CHR ''/'' \<in> set name_s \<or> name_s = []) then Inl (LibNotBare name_s)
            else Inr \<lparr>cm_algo = a, cm_digest = d, cm_path = name_s\<rparr>)
      | _ # _ # _ # _ # _ # _ \<Rightarrow> Inl (TrailingTokens line)
      | _ \<Rightarrow> Inl (WrongFields line))"

text \<open>The first key that has a later copy, in the order of the two nested loops.\<close>

fun first_repeat :: "'a list \<Rightarrow> 'a option" where
  "first_repeat [] = None"
| "first_repeat (k # ks) = (if List.member ks k then Some k else first_repeat ks)"

definition flush_closure ::
  "closure_builder option \<Rightarrow> pin_closure list \<Rightarrow> (pin_error, pin_closure list) result" where
  "flush_closure b out =
     (case b of
        None \<Rightarrow> Inr out
      | Some b \<Rightarrow>
          (case cb_interp b of
             None \<Rightarrow> Inl (NoInterp (cb_digest b))
           | Some i \<Rightarrow>
               (case first_repeat (map (\<lambda>m. (cm_algo m, cm_digest m)) (i # cb_libs b)) of
                  Some (a, d) \<Rightarrow> Inl (DuplicateMember a d)
                | None \<Rightarrow>
                    Inr (out @ [\<lparr>cl_algo = cb_algo b, cl_digest = cb_digest b, cl_class = cb_class b,
                                cl_interp = i, cl_libs = cb_libs b\<rparr>]))))"

type_synonym pin_state = "pin_entry list \<times> pin_closure list \<times> closure_builder option"

definition parse_pin_line :: "bool \<Rightarrow> string \<Rightarrow> pin_state \<Rightarrow> (pin_error, pin_state) result" where
  "parse_pin_line v2 line st =
     (let (pins, closures, cur) = st;
          kind = (case str_split_ws line of [] \<Rightarrow> [] | t # _ \<Rightarrow> t)
      in if (kind = ''entry'' \<or> kind = ''interp'' \<or> kind = ''lib'') \<and> \<not> v2 then Inl (NeedsV2 kind)
         else if kind = ''entry'' then
           rbind (flush_closure cur closures) (\<lambda>closures'.
             rbind (parse_pin_fields line) (\<lambda>(a, d, c).
               Inr (pins, closures', Some \<lparr>cb_algo = a, cb_digest = d, cb_class = c, cb_interp = None, cb_libs = []\<rparr>)))
         else if kind = ''interp'' \<or> kind = ''lib'' then
           (case cur of
              None \<Rightarrow> Inl (NoOpenEntry line)
            | Some b \<Rightarrow>
                rbind (parse_member_fields line (kind = ''interp'')) (\<lambda>m.
                  if kind = ''interp'' then
                    (if cb_interp b \<noteq> None then Inl (SecondInterp (cb_digest b))
                     else Inr (pins, closures, Some (b\<lparr>cb_interp := Some m\<rparr>)))
                  else Inr (pins, closures, Some (b\<lparr>cb_libs := cb_libs b @ [m]\<rparr>))))
         else
           rbind (flush_closure cur closures) (\<lambda>closures'.
             rbind (parse_pin_fields line) (\<lambda>(a, d, c).
               Inr (pins @ [\<lparr>pn_algo = a, pn_digest = d, pn_class = c\<rparr>], closures', None))))"

fun parse_pin_lines :: "bool \<Rightarrow> string list \<Rightarrow> pin_state \<Rightarrow> (pin_error, pin_state) result" where
  "parse_pin_lines v2 [] st = Inr st"
| "parse_pin_lines v2 (l # ls) st = rbind (parse_pin_line v2 l st) (parse_pin_lines v2 ls)"

text \<open>The lines both grammars read: trimmed, without blank lines and comments.\<close>

definition policy_lines :: "string \<Rightarrow> string list" where
  "policy_lines text = filter (\<lambda>l. l \<noteq> [] \<and> \<not> str_starts_with l ''#'') (map str_trim (str_lines text))"

definition pin_keys :: "pin_entry list \<Rightarrow> pin_closure list \<Rightarrow> (digest_algo \<times> digest) list" where
  "pin_keys pins closures =
     map (\<lambda>p. (pn_algo p, pn_digest p)) pins @ map (\<lambda>c. (cl_algo c, cl_digest c)) closures"

definition parse_pins :: "string \<Rightarrow> (pin_error, pin_manifest) result" where
  "parse_pins text =
     (case policy_lines text of
        [] \<Rightarrow> Inl EmptyPinManifest
      | h # ls \<Rightarrow>
          if h \<noteq> HEADER_V1 \<and> h \<noteq> HEADER_V2 then Inl (BadVersionHeader h)
          else rbind (parse_pin_lines (h = HEADER_V2) ls ([], [], None)) (\<lambda>(pins, closures, cur).
            rbind (flush_closure cur closures) (\<lambda>closures'.
              case first_repeat (pin_keys pins closures') of
                Some (a, d) \<Rightarrow> Inl (DuplicatePinKey a d)
              | None \<Rightarrow> Inr \<lparr>pm_pins = pins, pm_closures = closures'\<rparr>)))"

definition pin_lookup_match :: "pin_manifest \<Rightarrow> u16 \<Rightarrow> digest \<Rightarrow> pin_match option" where
  "pin_lookup_match m vid digest =
     (case from_verity_id vid of
        None \<Rightarrow> None
      | Some a \<Rightarrow>
          if length digest \<noteq> algo_size a then None
          else case find (\<lambda>p. pn_algo p = a \<and> pn_digest p = digest) (pm_pins m) of
            Some p \<Rightarrow> Some (StaticPin (pn_class p))
          | None \<Rightarrow>
              map_option ClosurePin (find (\<lambda>c. cl_algo c = a \<and> cl_digest c = digest) (pm_closures m)))"

definition pin_lookup :: "pin_manifest \<Rightarrow> u16 \<Rightarrow> digest \<Rightarrow> pin_class option" where
  "pin_lookup m vid digest =
     map_option (\<lambda>x. case x of StaticPin c \<Rightarrow> c | ClosurePin c \<Rightarrow> cl_class c) (pin_lookup_match m vid digest)"

definition pins_is_empty :: "pin_manifest \<Rightarrow> bool" where
  "pins_is_empty m \<longleftrightarrow> pm_pins m = [] \<and> pm_closures m = []"

section \<open>The admit list of the ingest harness\<close>

datatype admit_error =
    AdmitHeader string
  | EmptyAdmit
  | AdmitTrailing string
  | AdmitAlgo string
  | AdmitHex string
  | AdmitLength nat

definition ADMIT_HEADER_V1 :: string where "ADMIT_HEADER_V1 = ''shrek-t2-ingest-admit v1''"

definition admit_nibble :: "char \<Rightarrow> u8 option" where
  "admit_nibble c =
     (if CHR ''A'' \<le> c \<and> c \<le> CHR ''F'' then Some (of_char c - 65 + 10) else nibble c)"

definition admit_decode_hex :: "string \<Rightarrow> digest option" where
  "admit_decode_hex s = (if s = [] \<or> length s mod 2 \<noteq> 0 then None else hex_pairs admit_nibble s)"

definition admit_line :: "string \<Rightarrow> (admit_error, digest_algo \<times> digest) result" where
  "admit_line line =
     (let ts = str_split_ws line;
          algo_tok = (case ts of t # _ \<Rightarrow> t | [] \<Rightarrow> []);
          hex_tok = (case ts of _ # t # _ \<Rightarrow> t | _ \<Rightarrow> [])
      in if 2 < length ts then Inl (AdmitTrailing line)
         else case algo_from_name algo_tok of
           None \<Rightarrow> Inl (AdmitAlgo algo_tok)
         | Some a \<Rightarrow>
             (case admit_decode_hex hex_tok of
                None \<Rightarrow> Inl (AdmitHex hex_tok)
              | Some d \<Rightarrow> if length d \<noteq> algo_size a then Inl (AdmitLength (length d)) else Inr (a, d)))"

fun admit_lines :: "string list \<Rightarrow> (admit_error, (digest_algo \<times> digest) list) result" where
  "admit_lines [] = Inr []"
| "admit_lines (l # ls) = rbind (admit_line l) (\<lambda>e. rbind (admit_lines ls) (\<lambda>es. Inr (e # es)))"

definition parse_admit :: "string \<Rightarrow> (admit_error, (digest_algo \<times> digest) list) result" where
  "parse_admit text =
     (case policy_lines text of
        [] \<Rightarrow> Inl EmptyAdmit
      | h # ls \<Rightarrow> if h \<noteq> ADMIT_HEADER_V1 then Inl (AdmitHeader h) else admit_lines ls)"

end
