(* ===== verification/Mount_Plane.thy ===== *)
theory Mount_Plane
  imports Pin_Manifest
begin

text \<open>
  Pinning, binding and hardening of grants (\<open>gatekeeperd/src/mount_plane.rs\<close>).  The mounts of the
  private namespace are a list, the newest first.  The kernel is a parameter: which calls succeed, what
  an open yields, and what identity and digest it reports at a path, which another process may have
  changed in between.
\<close>

section \<open>Mounts and the kernel\<close>

record ident =
  dev_major :: u32
  dev_minor :: u32
  ino :: u64

record mount_flags =
  mf_rdonly :: bool
  mf_nosuid :: bool
  mf_nodev :: bool
  mf_noexec :: bool

record mount_entry =
  me_target :: string
  me_source :: ident
  me_flags :: mount_flags

type_synonym mounts = "mount_entry list"

record mount_kernel =
  mk_pin :: "string \<Rightarrow> (nat \<times> bool) option"
  mk_open :: "string \<Rightarrow> nat option"
  mk_fd_ident :: "nat \<Rightarrow> ident option"
  mk_fd_verity :: "nat \<Rightarrow> (u16 \<times> digest) option"
  mk_mkdir :: "string \<Rightarrow> bool"
  mk_touch :: "string \<Rightarrow> bool"
  mk_canon :: "string \<Rightarrow> string option"
  mk_bind :: "nat \<Rightarrow> string \<Rightarrow> bool"
  mk_at :: "string \<Rightarrow> mounts \<Rightarrow> ident option"
  mk_verity_at :: "string \<Rightarrow> mounts \<Rightarrow> (u16 \<times> digest) option"
  mk_umount :: "string \<Rightarrow> bool"
  mk_remount :: "string \<Rightarrow> bool"

datatype mount_error =
    PinFailed | MkdirFailed | TouchFailed | BadPath | BindFailed | IdentityDrift | StatFailed
  | VerityFailed | DigestDrift | ReopenFailed | RemountFailed

text \<open>What an operation returns: no error or one, and the mounts it leaves.\<close>

type_synonym mounted = "mount_error option \<times> mounts"

definition bind_flags :: mount_flags where
  "bind_flags = \<lparr>mf_rdonly = False, mf_nosuid = False, mf_nodev = False, mf_noexec = False\<rparr>"

definition ro_noexec :: mount_flags where
  "ro_noexec = \<lparr>mf_rdonly = True, mf_nosuid = True, mf_nodev = True, mf_noexec = True\<rparr>"

definition rw_noexec :: mount_flags where
  "rw_noexec = \<lparr>mf_rdonly = False, mf_nosuid = True, mf_nodev = True, mf_noexec = True\<rparr>"

definition rw_exec :: mount_flags where
  "rw_exec = \<lparr>mf_rdonly = False, mf_nosuid = True, mf_nodev = True, mf_noexec = False\<rparr>"

definition ro_exec :: mount_flags where
  "ro_exec = \<lparr>mf_rdonly = True, mf_nosuid = True, mf_nodev = True, mf_noexec = False\<rparr>"

text \<open>The newest mount at a target goes away, if the call succeeds.\<close>

fun unmount_top :: "string \<Rightarrow> mounts \<Rightarrow> mounts" where
  "unmount_top t [] = []"
| "unmount_top t (m # ms) = (if me_target m = t then ms else m # unmount_top t ms)"

definition umount_quietly :: "mount_kernel \<Rightarrow> string \<Rightarrow> mounts \<Rightarrow> mounts" where
  "umount_quietly k t ms = (if mk_umount k t then unmount_top t ms else ms)"

fun remount_top :: "string \<Rightarrow> mount_flags \<Rightarrow> mounts \<Rightarrow> mounts" where
  "remount_top t fl [] = []"
| "remount_top t fl (m # ms) = (if me_target m = t then m\<lparr>me_flags := fl\<rparr> # ms else m # remount_top t fl ms)"

definition remount :: "mount_kernel \<Rightarrow> string \<Rightarrow> mount_flags \<Rightarrow> mounts \<Rightarrow> mounted" where
  "remount k t fl ms = (if mk_remount k t then (None, remount_top t fl ms) else (Some RemountFailed, ms))"

section \<open>Pinning\<close>

record pinned =
  pi_fd :: nat
  pi_ident :: ident
  pi_is_dir :: bool

definition pin_beneath :: "mount_kernel \<Rightarrow> string \<Rightarrow> pinned option" where
  "pin_beneath k name =
     (if CHR 0x00 \<in> set name then None
      else case mk_pin k name of
        None \<Rightarrow> None
      | Some (fd, is_dir) \<Rightarrow>
          map_option (\<lambda>i. \<lparr>pi_fd = fd, pi_ident = i, pi_is_dir = is_dir\<rparr>) (mk_fd_ident k fd))"

section \<open>Grants\<close>

text \<open>Bind from the descriptor, check what is at the target, undo the bind on a difference.\<close>

definition bind_checked :: "mount_kernel \<Rightarrow> nat \<Rightarrow> ident \<Rightarrow> string \<Rightarrow> mounts \<Rightarrow> mounted" where
  "bind_checked k fd i target ms =
     (if CHR 0x00 \<in> set target then (Some BadPath, ms)
      else if \<not> mk_bind k fd target then (Some BindFailed, ms)
      else
        let ms1 = \<lparr>me_target = target, me_source = i, me_flags = bind_flags\<rparr> # ms in
        case mk_at k target ms1 of
          None \<Rightarrow> (Some StatFailed, umount_quietly k target ms1)
        | Some j \<Rightarrow> if j = i then (None, ms1) else (Some IdentityDrift, umount_quietly k target ms1))"

definition relocate_with :: "mount_flags \<Rightarrow> mount_kernel \<Rightarrow> pinned \<Rightarrow> string \<Rightarrow> mounts \<Rightarrow> mounted" where
  "relocate_with fl k p target ms =
     (case bind_checked k (pi_fd p) (pi_ident p) target ms of
        (Some e, ms1) \<Rightarrow> (Some e, ms1)
      | (None, ms1) \<Rightarrow> remount k target fl ms1)"

definition relocate_ro :: "mount_kernel \<Rightarrow> pinned \<Rightarrow> string \<Rightarrow> mounts \<Rightarrow> mounted" where
  "relocate_ro k p target ms =
     (if \<not> mk_mkdir k target then (Some MkdirFailed, ms) else relocate_with ro_noexec k p target ms)"

definition relocate_rw :: "mount_kernel \<Rightarrow> pinned \<Rightarrow> string \<Rightarrow> mounts \<Rightarrow> mounted" where
  "relocate_rw k p target ms =
     (if \<not> mk_mkdir k target then (Some MkdirFailed, ms) else relocate_with rw_noexec k p target ms)"

definition relocate_rw_exec :: "mount_kernel \<Rightarrow> pinned \<Rightarrow> string \<Rightarrow> mounts \<Rightarrow> mounted" where
  "relocate_rw_exec k p target ms =
     (if \<not> mk_mkdir k target then (Some MkdirFailed, ms) else relocate_with rw_exec k p target ms)"

definition seal_noexec_in_place :: "mount_kernel \<Rightarrow> pinned \<Rightarrow> string \<Rightarrow> mounts \<Rightarrow> mounted" where
  "seal_noexec_in_place k p target ms = relocate_with ro_noexec k p target ms"

section \<open>Executable islands\<close>

text \<open>The check of the digest at the target, after that of the identity.\<close>

definition digest_checked :: "mount_kernel \<Rightarrow> u16 \<times> digest \<Rightarrow> string \<Rightarrow> mounts \<Rightarrow> mounted" where
  "digest_checked k d target ms =
     (case mk_verity_at k target ms of
        None \<Rightarrow> (Some VerityFailed, umount_quietly k target ms)
      | Some d' \<Rightarrow> if d' = d then (None, ms) else (Some DigestDrift, umount_quietly k target ms))"

definition island_bind :: "mount_kernel \<Rightarrow> nat \<Rightarrow> ident \<Rightarrow> u16 \<times> digest \<Rightarrow> string \<Rightarrow> mounts \<Rightarrow> mounted" where
  "island_bind k fd i d target ms =
     (case bind_checked k fd i target ms of
        (Some e, ms1) \<Rightarrow> (Some e, ms1)
      | (None, ms1) \<Rightarrow>
          (case digest_checked k d target ms1 of
             (Some e, ms2) \<Rightarrow> (Some e, ms2)
           | (None, ms2) \<Rightarrow> remount k target ro_exec ms2))"

definition path_parent :: "string \<Rightarrow> string option" where
  "path_parent p = (case path_comps p of [] \<Rightarrow> None | cs \<Rightarrow> Some (CHR ''/'' # str_join ''/'' (butlast cs)))"

definition parent_made :: "mount_kernel \<Rightarrow> string \<Rightarrow> bool" where
  "parent_made k target = (case path_parent target of None \<Rightarrow> True | Some d \<Rightarrow> mk_mkdir k d)"

definition relocate_exec_island :: "mount_kernel \<Rightarrow> string \<Rightarrow> nat \<Rightarrow> string \<Rightarrow> mounts \<Rightarrow> mounted" where
  "relocate_exec_island k entry oracle target ms =
     (case mk_fd_ident k oracle of
        None \<Rightarrow> (Some StatFailed, ms)
      | Some i \<Rightarrow>
     (case mk_fd_verity k oracle of
        None \<Rightarrow> (Some VerityFailed, ms)
      | Some d \<Rightarrow>
     (case (if CHR 0x00 \<in> set entry then None else mk_open k entry) of
        None \<Rightarrow> (Some ReopenFailed, ms)
      | Some local \<Rightarrow>
          if mk_fd_ident k local = None then (Some StatFailed, ms)
          else if mk_fd_ident k local \<noteq> Some i then (Some IdentityDrift, ms)
          else if mk_fd_verity k local = None then (Some VerityFailed, ms)
          else if mk_fd_verity k local \<noteq> Some d then (Some DigestDrift, ms)
          else if \<not> parent_made k target then (Some MkdirFailed, ms)
          else if \<not> mk_touch k target then (Some TouchFailed, ms)
          else island_bind k local i d target ms)))"

text \<open>Where the bind of a member lands: its real path, or its name below its real parent.\<close>

definition member_target :: "mount_kernel \<Rightarrow> string \<Rightarrow> string" where
  "member_target k target =
     (case mk_canon k target of
        Some c \<Rightarrow> c
      | None \<Rightarrow>
          (case (path_parent target, path_file_name target) of
             (Some d, Some n) \<Rightarrow> (case mk_canon k d of Some rd \<Rightarrow> path_join rd n | None \<Rightarrow> target)
           | _ \<Rightarrow> target))"

definition relocate_member :: "mount_kernel \<Rightarrow> string \<Rightarrow> u16 \<Rightarrow> digest \<Rightarrow> string \<Rightarrow> mounts \<Rightarrow> mounted" where
  "relocate_member k source expect_algo expect_digest target ms =
     (case (if CHR 0x00 \<in> set source then None else mk_open k source) of
        None \<Rightarrow> (Some ReopenFailed, ms)
      | Some local \<Rightarrow>
     (case mk_fd_ident k local of
        None \<Rightarrow> (Some StatFailed, ms)
      | Some i \<Rightarrow>
          if mk_fd_verity k local = None then (Some VerityFailed, ms)
          else if mk_fd_verity k local \<noteq> Some (expect_algo, expect_digest) then (Some DigestDrift, ms)
          else if \<not> mk_touch k (member_target k target) then (Some TouchFailed, ms)
          else island_bind k local i (expect_algo, expect_digest) (member_target k target) ms))"

section \<open>What an operation leaves\<close>

lemma unmount_new [simp]: "me_target m = t \<Longrightarrow> unmount_top t (m # ms) = ms"
  by simp

lemma bind_checked_ok:
  "bind_checked k fd i target ms = (None, ms') \<Longrightarrow> ms' = \<lparr>me_target = target, me_source = i, me_flags = bind_flags\<rparr> # ms"
  by (auto simp: bind_checked_def Let_def split: if_splits option.splits)

lemma bind_checked_fail:
  "bind_checked k fd i target ms = (Some e, ms') \<Longrightarrow> mk_umount k target \<Longrightarrow> ms' = ms"
  by (auto simp: bind_checked_def umount_quietly_def Let_def split: if_splits option.splits)

lemma relocate_with_ok:
  "relocate_with fl k p target ms = (None, ms')
   \<Longrightarrow> ms' = \<lparr>me_target = target, me_source = pi_ident p, me_flags = fl\<rparr> # ms"
  by (auto simp: relocate_with_def remount_def split: prod.splits option.splits if_splits dest!: bind_checked_ok)

lemma relocate_with_fail:
  "relocate_with fl k p target ms = (Some e, ms') \<Longrightarrow> mk_umount k target \<Longrightarrow> e \<noteq> RemountFailed \<Longrightarrow> ms' = ms"
  by (auto simp: relocate_with_def remount_def split: prod.splits option.splits if_splits dest: bind_checked_fail)

lemmas relocate_defs = relocate_ro_def relocate_rw_def relocate_rw_exec_def seal_noexec_in_place_def

lemma island_bind_ok:
  "island_bind k fd i d target ms = (None, ms')
   \<Longrightarrow> ms' = \<lparr>me_target = target, me_source = i, me_flags = ro_exec\<rparr> # ms
     \<and> mk_verity_at k target (\<lparr>me_target = target, me_source = i, me_flags = bind_flags\<rparr> # ms) = Some d"
  by (auto simp: island_bind_def digest_checked_def remount_def split: prod.splits option.splits if_splits
      dest!: bind_checked_ok)

text \<open>
  a relocation that succeeds adds exactly one mount, of the pinned object, at its target and with the
  flags of its kind: only a build grant can be executed from, only the two writable kinds can be written,
  and no grant keeps set-user-id bits or devices.
\<close>

theorem relocation_mounts_the_pin:
  assumes "relocate_ro k p t0 ms = (None, ms0)" and "relocate_rw k p t1 ms = (None, ms1)"
    and "relocate_rw_exec k p t2 ms = (None, ms2)" and "seal_noexec_in_place k p t3 ms = (None, ms3)"
  shows "ms0 = \<lparr>me_target = t0, me_source = pi_ident p, me_flags = ro_noexec\<rparr> # ms
    \<and> ms1 = \<lparr>me_target = t1, me_source = pi_ident p, me_flags = rw_noexec\<rparr> # ms
    \<and> ms2 = \<lparr>me_target = t2, me_source = pi_ident p, me_flags = rw_exec\<rparr> # ms
    \<and> ms3 = \<lparr>me_target = t3, me_source = pi_ident p, me_flags = ro_noexec\<rparr> # ms
    \<and> list_all (\<lambda>m. mf_nosuid (me_flags m) \<and> mf_nodev (me_flags m)
          \<and> mf_noexec (me_flags m) = (me_flags m \<noteq> rw_exec)
          \<and> mf_rdonly (me_flags m) = (me_flags m = ro_noexec)) [hd ms0, hd ms1, hd ms2, hd ms3]"
  using assms
  by (auto simp: relocate_defs ro_noexec_def rw_noexec_def rw_exec_def split: if_splits dest!: relocate_with_ok)

text \<open>
  the entrypoint island holds what was authenticated: it is the object of the descriptor the band was
  derived from, and the digest read at the target after the bind is the one of that descriptor; it is
  read-only.
\<close>

theorem entry_island_is_authenticated:
  assumes "relocate_exec_island k entry oracle target ms = (None, ms1)"
  shows "\<exists>i d. mk_fd_ident k oracle = Some i \<and> mk_fd_verity k oracle = Some d
        \<and> ms1 = \<lparr>me_target = target, me_source = i, me_flags = ro_exec\<rparr> # ms
        \<and> mk_verity_at k target (\<lparr>me_target = target, me_source = i, me_flags = bind_flags\<rparr> # ms) = Some d"
  using assms
  by (auto simp: relocate_exec_island_def split: option.splits if_splits dest!: island_bind_ok)

text \<open>
  a member island has the digest of the sealed manifest, read before the bind and again at the target
  after it; it is bound at the real path of its target and is read-only.
\<close>

theorem member_island_is_authenticated:
  assumes "relocate_member k source a dg target ms = (None, ms2)"
  shows "\<exists>fd i t. mk_open k source = Some fd \<and> mk_fd_ident k fd = Some i \<and> mk_fd_verity k fd = Some (a, dg)
        \<and> t = member_target k target \<and> ms2 = \<lparr>me_target = t, me_source = i, me_flags = ro_exec\<rparr> # ms
        \<and> mk_verity_at k t (\<lparr>me_target = t, me_source = i, me_flags = bind_flags\<rparr> # ms) = Some (a, dg)"
  using assms
  by (auto simp: relocate_member_def split: option.splits if_splits dest!: island_bind_ok)

text \<open>A kernel on which every call succeeds and reports the newest mount.\<close>

definition calm_ident :: ident where "calm_ident = \<lparr>dev_major = 8, dev_minor = 1, ino = 42\<rparr>"

definition calm_kernel :: mount_kernel where
  "calm_kernel =
     \<lparr>mk_pin = (\<lambda>_. Some (5, True)), mk_open = (\<lambda>_. Some 6), mk_fd_ident = (\<lambda>_. Some calm_ident),
      mk_fd_verity = (\<lambda>_. Some (1, [7])), mk_mkdir = (\<lambda>_. True), mk_touch = (\<lambda>_. True),
      mk_canon = (\<lambda>_. None), mk_bind = (\<lambda>_ _. True),
      mk_at = (\<lambda>t ms. map_option me_source (find (\<lambda>m. me_target m = t) ms)),
      mk_verity_at = (\<lambda>_ _. Some (1, [7])), mk_umount = (\<lambda>_. True), mk_remount = (\<lambda>_. True)\<rparr>"

definition calm_pin :: pinned where
  "calm_pin = \<lparr>pi_fd = 5, pi_ident = calm_ident, pi_is_dir = True\<rparr>"

lemma calm_mounts:
  "relocate_ro calm_kernel calm_pin ''/a'' [] =
     (None, [\<lparr>me_target = ''/a'', me_source = calm_ident, me_flags = ro_noexec\<rparr>])"
  "relocate_rw calm_kernel calm_pin ''/b'' [] =
     (None, [\<lparr>me_target = ''/b'', me_source = calm_ident, me_flags = rw_noexec\<rparr>])"
  "relocate_rw_exec calm_kernel calm_pin ''/c'' [] =
     (None, [\<lparr>me_target = ''/c'', me_source = calm_ident, me_flags = rw_exec\<rparr>])"
  "seal_noexec_in_place calm_kernel calm_pin ''/d'' [] =
     (None, [\<lparr>me_target = ''/d'', me_source = calm_ident, me_flags = ro_noexec\<rparr>])"
  "relocate_exec_island calm_kernel ''/e'' 4 ''/f'' [] =
     (None, [\<lparr>me_target = ''/f'', me_source = calm_ident, me_flags = ro_exec\<rparr>])"
  "relocate_member calm_kernel ''/e'' 1 [7] ''/f'' [] =
     (None, [\<lparr>me_target = ''/f'', me_source = calm_ident, me_flags = ro_exec\<rparr>])"
  by code_simp+

theorem relocation_mounts_the_pin_witness:
  "me_flags (hd [\<lparr>me_target = ''/b'', me_source = calm_ident, me_flags = rw_noexec\<rparr>]) = rw_noexec"
  using relocation_mounts_the_pin [OF calm_mounts(1-4)] by simp

theorem entry_island_is_authenticated_witness:
  "\<exists>i d. mk_fd_ident calm_kernel 4 = Some i \<and> mk_fd_verity calm_kernel 4 = Some d"
  using entry_island_is_authenticated [OF calm_mounts(5)] by blast

theorem member_island_is_authenticated_witness:
  "\<exists>fd. mk_open calm_kernel ''/e'' = Some fd \<and> mk_fd_verity calm_kernel fd = Some (1, [7])"
  using member_island_is_authenticated [OF calm_mounts(6)] by blast

end
