(* ===== verification/Gate_Provenance.thy ===== *)
theory Gate_Provenance
  imports Pin_Manifest
begin

text \<open>
  How \<open>gatekeeperd\<close> derives the trust band of a workload (\<open>provenance_plane.rs\<close>) and of an ingest
  session (\<open>ingest_admit.rs\<close>).  What the kernel reports is a value \<open>host_facts\<close>: the status of a path
  opened without links, the files of a block device, the inode an open yields and the fs-verity digest of
  an inode.
\<close>

section \<open>What the host reports\<close>

type_synonym device = "u32 \<times> u32"

record file_status =
  fs_dev :: device
  fs_regular :: bool

record host_facts =
  hf_anchor :: "device option"
  hf_ro :: "device \<Rightarrow> string option"
  hf_dm_uuid :: "device \<Rightarrow> string option"
  hf_dm_name :: "device \<Rightarrow> string option"
  hf_status :: "string \<Rightarrow> file_status option"
  hf_manifest :: "string option"
  hf_open :: "string \<Rightarrow> nat option"
  hf_verity :: "nat \<Rightarrow> (u16 \<times> digest) option"
  hf_harness :: "string \<Rightarrow> nat option"
  hf_admit :: "string option"

text \<open>A path with a NUL byte is refused before the kernel sees it.\<close>

definition statx_of :: "host_facts \<Rightarrow> string \<Rightarrow> file_status option" where
  "statx_of h p = (if CHR 0x00 \<in> set p then None else hf_status h p)"

definition open_entry_rdonly :: "host_facts \<Rightarrow> string \<Rightarrow> nat option" where
  "open_entry_rdonly h p = (if CHR 0x00 \<in> set p then None else hf_open h p)"

definition or_empty :: "string option \<Rightarrow> string" where
  "or_empty s = (case s of None \<Rightarrow> [] | Some t \<Rightarrow> t)"

definition is_verity_ro :: "host_facts \<Rightarrow> device \<Rightarrow> bool" where
  "is_verity_ro h d \<longleftrightarrow>
     (case hf_ro h d of None \<Rightarrow> False | Some s \<Rightarrow> str_trim s = ''1'')
     \<and> (str_contains (map ascii_lower (or_empty (hf_dm_uuid h d))) ''verity''
        \<or> str_contains (map ascii_lower (or_empty (hf_dm_name h d))) ''verity'')"

definition sealed_root_dev :: "host_facts \<Rightarrow> device option" where
  "sealed_root_dev h =
     (case hf_anchor h of None \<Rightarrow> None | Some d \<Rightarrow> if is_verity_ro h d then Some d else None)"

section \<open>The measured evidence\<close>

definition CLOSED_WORLD :: "string list" where
  "CLOSED_WORLD = [''/usr/libexec/shrek/gate-probe'']"

definition exec_class_closed_world :: "string \<Rightarrow> bool" where
  "exec_class_closed_world p \<longleftrightarrow> list_ex (\<lambda>s. path_eq s p) CLOSED_WORLD"

definition measure_entry :: "host_facts \<Rightarrow> string option \<Rightarrow> device option \<Rightarrow> evidence" where
  "measure_entry h entrypoint sealed =
     (case sealed of
        None \<Rightarrow> UNVERIFIABLE
      | Some dev \<Rightarrow>
          (case entrypoint of
             None \<Rightarrow> UNVERIFIABLE
           | Some p \<Rightarrow>
               if \<not> path_absolute p then UNVERIFIABLE
               else case statx_of h p of
                 None \<Rightarrow> UNVERIFIABLE
               | Some st \<Rightarrow> evidence_mvp (fs_dev st = dev \<and> fs_regular st) (exec_class_closed_world p)))"

definition load_manifest :: "host_facts \<Rightarrow> pin_manifest option" where
  "load_manifest h =
     (case hf_manifest h of
        None \<Rightarrow> None
      | Some t \<Rightarrow> (case parse_pins t of Inl _ \<Rightarrow> None | Inr m \<Rightarrow> Some m))"

definition pin_arm :: "host_facts \<Rightarrow> string \<Rightarrow> bool \<times> bool \<times> nat option \<times> pin_closure option" where
  "pin_arm h p =
     (if \<not> path_absolute p then (False, False, None, None)
      else case load_manifest h of
        None \<Rightarrow> (False, False, None, None)
      | Some m \<Rightarrow>
          if pins_is_empty m then (False, False, None, None)
          else case open_entry_rdonly h p of
            None \<Rightarrow> (False, False, None, None)
          | Some fd \<Rightarrow>
              (case hf_verity h fd of
                 None \<Rightarrow> (False, False, None, None)
               | Some (algo, digest) \<Rightarrow>
                   (case pin_lookup_match m algo digest of
                      Some (StaticPin c) \<Rightarrow> (True, is_closed_world c, Some fd, None)
                    | Some (ClosurePin c) \<Rightarrow> (True, is_closed_world (cl_class c), Some fd, Some c)
                    | None \<Rightarrow> (False, False, None, None))))"

record derivation =
  dv_band :: trust_band
  dv_evidence :: evidence
  dv_sealed_root :: "device option"
  dv_entrypoint :: "string option"
  dv_exec_fd :: "nat option"
  dv_closure :: "pin_closure option"

definition with_pin :: "evidence \<Rightarrow> bool \<Rightarrow> evidence" where
  "with_pin e closed =
     e\<lparr>pinned_digest_match := True, domain_execution_sealed := domain_execution_sealed e \<or> closed\<rparr>"

definition derive :: "host_facts \<Rightarrow> string option \<Rightarrow> device option \<Rightarrow> derivation" where
  "derive h entrypoint sealed =
     (let e0 = measure_entry h entrypoint sealed;
          (matched, closed, fd, clo) =
            (case entrypoint of None \<Rightarrow> (False, False, None, None) | Some p \<Rightarrow> pin_arm h p);
          e = (if matched then with_pin e0 closed else e0);
          band = derive_band e;
          carried = matched \<and> band = Pinned
      in \<lparr>dv_band = band, dv_evidence = e, dv_sealed_root = sealed, dv_entrypoint = entrypoint,
          dv_exec_fd = (if carried then fd else None), dv_closure = (if carried then clo else None)\<rparr>)"

section \<open>The ingest session\<close>

record ingest_derivation =
  ig_band :: trust_band
  ig_authentic :: bool
  ig_measured_hex :: "string option"

definition load_admit :: "host_facts \<Rightarrow> (digest_algo \<times> digest) list option" where
  "load_admit h =
     (case hf_admit h of
        None \<Rightarrow> None
      | Some t \<Rightarrow> (case parse_admit t of Inl _ \<Rightarrow> None | Inr es \<Rightarrow> Some es))"

text \<open>The harness is opened by path, through links.\<close>

definition measure_harness :: "host_facts \<Rightarrow> string \<Rightarrow> (u16 \<times> digest) option" where
  "measure_harness h runsc = (if CHR 0x00 \<in> set runsc then None else Option.bind (hf_harness h runsc) (hf_verity h))"

definition derive_session :: "host_facts \<Rightarrow> string \<Rightarrow> ingest_derivation" where
  "derive_session h runsc =
     (let measured = measure_harness h runsc;
          authentic = (case (load_admit h, measured) of
              (Some es, Some (vid, digest)) \<Rightarrow>
                (case from_verity_id vid of Some a \<Rightarrow> List.member es (a, digest) | None \<Rightarrow> False)
            | _ \<Rightarrow> False);
          e = \<lparr>entrypoint_sealed = False, domain_execution_sealed = False, pinned_digest_match = False,
               ev_origin = (if authentic then UntrustedIngest else NoOrigin)\<rparr>
      in \<lparr>ig_band = derive_band e, ig_authentic = authentic,
          ig_measured_hex = map_option (\<lambda>m. hex (snd m)) measured\<rparr>)"

end
