(* ===== verification/Gate_Pins.thy ===== *)
theory Gate_Pins
  imports Gate_Provenance
begin

text \<open>
  What the pin manifest and the derivation of a trust band promise: the hexadecimal form of a digest is
  unique, a manifest that parses is unambiguous and well formed, a lookup finds exactly the entry of the
  digest, and a band above \<open>Hostile\<close> is only ever earned by a measurement.
\<close>

unbundle bit_operations_syntax

section \<open>Hexadecimal digests\<close>

lemma small_word: "(w :: u8) < 16 \<longleftrightarrow> unat w < 16"
  by (simp add: word_less_nat_alt)

lemma small_take: "(w :: u8) < 16 \<Longrightarrow> take_bit 4 w = w"
  by (rule word_unat_eq_iff [THEN iffD2])
    (simp add: small_word unsigned_take_bit_eq take_bit_nat_eq_self del: take_bit_of_nat)

lemma and_15: "(w :: u8) AND 15 = take_bit 4 w"
  by (simp add: take_bit_eq_mask mask_eq_exp_minus_1)

lemma halves_small: "drop_bit 4 (b :: u8) < 16" "take_bit 4 b < 16"
proof -
  have "unat b < 256" using unsigned_less [of b, where ?'a = nat] by simp
  then have "unat b div 16 < 16" "unat b mod 16 < 16" by auto
  moreover have "unat (drop_bit 4 b) = drop_bit 4 (unat b)" "unat (take_bit 4 b) = take_bit 4 (unat b)"
    by (simp_all add: unsigned_drop_bit_eq unsigned_take_bit_eq take_bit_nat_eq_self \<open>unat b < 256\<close> del: take_bit_of_nat)
  then have "unat (drop_bit 4 b) = unat b div 16" "unat (take_bit 4 b) = unat b mod 16"
    by (simp_all only: drop_bit_eq_div take_bit_eq_mod) simp_all
  ultimately show "drop_bit 4 b < 16" "take_bit 4 b < 16" by (simp_all only: small_word)
qed

lemma hex_table: "list_all (\<lambda>k. nibble (hex_digit (of_nat k)) = Some (of_nat k)) [0..<16]"
  by code_simp

lemma below_16: "k < 16 \<Longrightarrow> nibble (hex_digit (of_nat k)) = Some (of_nat k)"
  using hex_table by (simp add: list_all_iff del: of_nat_numeral)

lemma nibble_hex_digit: "w < 16 \<Longrightarrow> nibble (hex_digit w) = Some w"
  using below_16 [of "unat w"] by (simp add: small_word)

lemma nibble_Some: "nibble c = Some w \<Longrightarrow> c = hex_digit w \<and> w < 16"
proof -
  assume n: "nibble c = Some w"
  define k :: nat where "k = of_char c"
  have c: "c = char_of k" by (simp add: k_def)
  have "(48 \<le> k \<and> k \<le> 57) \<or> (97 \<le> k \<and> k \<le> 102)"
    using n by (auto simp: nibble_def is_digit_def less_eq_char_def k_def split: if_splits)
  then have "k \<in> set ([48..<58] @ [97..<103])" unfolding set_append set_upt by (elim disjE) auto
  moreover have "list_all (\<lambda>k. case nibble (char_of k) of None \<Rightarrow> False
      | Some w \<Rightarrow> char_of k = hex_digit w \<and> w < 16) ([48..<58] @ [97..<103])"
    by code_simp
  ultimately have "case nibble c of None \<Rightarrow> False | Some w \<Rightarrow> c = hex_digit w \<and> w < 16"
    unfolding list_all_iff c by blast
  then show ?thesis using n by simp
qed

lemma hex_digits_join:
  assumes "(hi :: u8) < 16" and "lo < 16"
  shows "drop_bit 4 (push_bit 4 hi OR lo) = hi" and "take_bit 4 (push_bit 4 hi OR lo) = lo"
proof -
  have hi: "take_bit 4 hi = hi" and lo: "take_bit 4 lo = lo" using assms by (auto intro: small_take)
  have "drop_bit 4 (push_bit 4 (take_bit 4 hi) OR take_bit 4 lo) = take_bit 4 hi"
    "take_bit 4 (push_bit 4 (take_bit 4 hi) OR take_bit 4 lo) = take_bit 4 lo"
    by (auto intro!: bit_eqI simp: bit_simps)
  then show "drop_bit 4 (push_bit 4 hi OR lo) = hi" and "take_bit 4 (push_bit 4 hi OR lo) = lo"
    using hi lo by auto
qed

lemma halves_join: "push_bit 4 (drop_bit 4 b) OR take_bit 4 b = (b :: u8)"
  by (rule bit_eqI) (auto simp: bit_simps)

lemma byte_hex: "hex_pairs nibble (hex_digit (drop_bit 4 b) # hex_digit (b AND 15) # r) = map_option ((#) b) (hex_pairs nibble r)"
  by (cases "hex_pairs nibble r") (simp_all add: nibble_hex_digit halves_small and_15 halves_join)

lemma hex_Nil [simp]: "hex [] = []" by (simp add: hex_def)

lemma hex_Cons: "hex (b # d) = hex_digit (drop_bit 4 b) # hex_digit (b AND 15) # hex d"
  by (simp add: hex_def)

lemma length_hex [simp]: "length (hex d) = 2 * length d"
  by (induction d) (simp_all add: hex_Cons)

lemma hex_pairs_hex [simp]: "hex_pairs nibble (hex d) = Some d"
  by (induction d) (simp_all del: hex_pairs.simps(1) add: hex_Cons byte_hex)

lemma hex_pairs_Some: "hex_pairs nibble s = Some d \<Longrightarrow> even (length s) \<Longrightarrow> hex d = s"
proof (induction s arbitrary: d rule: induct_list012)
  case (3 a b r)
  then show ?case
    by (auto simp: bind_eq_Some_conv hex_Cons hex_digits_join and_15 simp del: drop_bit_or take_bit_or
        dest!: nibble_Some)
qed auto

lemma hex_roundtrip_aux: "decode_hex s n = Some d \<longleftrightarrow> s = hex d \<and> length d = n"
  by (auto simp: decode_hex_def dest: hex_pairs_Some)

text \<open>
  the hexadecimal form of a digest is exact in both directions: a string of the manifest decodes to
  a digest exactly when it is the lower-case form of that digest and has the length of its algorithm.
\<close>

theorem hex_roundtrip: "decode_hex s n = Some d \<longleftrightarrow> s = hex d \<and> length d = n"
  by (rule hex_roundtrip_aux)

section \<open>The manifest\<close>

definition member_key :: "closure_member \<Rightarrow> digest_algo \<times> digest" where
  "member_key m = (cm_algo m, cm_digest m)"

definition sized :: "digest_algo \<times> digest \<Rightarrow> bool" where
  "sized k \<longleftrightarrow> length (snd k) = algo_size (fst k)"

text \<open>What a closure promises: sized digests, a rooted interpreter, bare library names, distinct members.\<close>

definition wf_closure :: "pin_closure \<Rightarrow> bool" where
  "wf_closure c \<longleftrightarrow>
     sized (cl_algo c, cl_digest c) \<and> list_all (\<lambda>m. sized (member_key m)) (cl_interp c # cl_libs c)
     \<and> str_starts_with (cm_path (cl_interp c)) ''/''
     \<and> list_all (\<lambda>m. cm_path m \<noteq> [] \<and> CHR ''/'' \<notin> set (cm_path m)) (cl_libs c)
     \<and> distinct (map member_key (cl_interp c # cl_libs c))"

definition wf_builder :: "closure_builder \<Rightarrow> bool" where
  "wf_builder b \<longleftrightarrow>
     sized (cb_algo b, cb_digest b) \<and> list_all (\<lambda>m. sized (member_key m)) (cb_libs b)
     \<and> list_all (\<lambda>m. cm_path m \<noteq> [] \<and> CHR ''/'' \<notin> set (cm_path m)) (cb_libs b)
     \<and> pred_option (\<lambda>m. sized (member_key m) \<and> str_starts_with (cm_path m) ''/'') (cb_interp b)"

definition wf_pin_state :: "pin_state \<Rightarrow> bool" where
  "wf_pin_state st \<longleftrightarrow>
     list_all (\<lambda>p. sized (pn_algo p, pn_digest p)) (fst st) \<and> list_all wf_closure (fst (snd st))
     \<and> pred_option wf_builder (snd (snd st))"

lemma no_pair [simp]: "(\<forall>a b. x \<noteq> Some (a, b)) \<longleftrightarrow> x = None"
  by (cases x) auto

lemma first_repeat_None: "first_repeat ks = None \<longleftrightarrow> distinct ks"
  by (induction ks) (auto simp: List.member_iff)

lemma parse_digest_sized: "parse_digest a h = Inr k \<Longrightarrow> sized k"
  by (auto simp: parse_digest_def sized_def hex_roundtrip_aux split: option.splits)

lemma pin_fields_sized: "parse_pin_fields l = Inr (a, d, c) \<Longrightarrow> sized (a, d)"
  by (auto simp: parse_pin_fields_def Let_def rbind_Inr dest: parse_digest_sized split: list.splits option.splits)

lemma member_fields_ok:
  "parse_member_fields l i = Inr m \<Longrightarrow> sized (member_key m)
     \<and> (if i then str_starts_with (cm_path m) ''/'' else cm_path m \<noteq> [] \<and> CHR ''/'' \<notin> set (cm_path m))"
  by (auto simp: parse_member_fields_def rbind_Inr member_key_def dest: parse_digest_sized
      split: list.splits if_splits)

lemma flush_closure_wf:
  "flush_closure b out = Inr out' \<Longrightarrow> pred_option wf_builder b \<Longrightarrow> list_all wf_closure out \<Longrightarrow> list_all wf_closure out'"
  by (auto simp: flush_closure_def wf_builder_def wf_closure_def first_repeat_None member_key_def [abs_def]
      simp del: first_repeat.simps split: option.splits)

lemma parse_pin_line_wf: "parse_pin_line v2 l st = Inr st' \<Longrightarrow> wf_pin_state st \<Longrightarrow> wf_pin_state st'"
proof -
  assume p: "parse_pin_line v2 l st = Inr st'" and w: "wf_pin_state st"
  obtain pins closures cur where st: "st = (pins, closures, cur)" by (cases st) auto
  have pins: "list_all (\<lambda>p. sized (pn_algo p, pn_digest p)) pins" and cl: "list_all wf_closure closures"
    and cur: "pred_option wf_builder cur"
    using w by (auto simp: st wf_pin_state_def)
  show "wf_pin_state st'"
    using p pins cl cur unfolding st parse_pin_line_def Let_def
    by (auto simp: rbind_Inr wf_pin_state_def wf_builder_def split: if_splits option.splits
        dest: flush_closure_wf pin_fields_sized member_fields_ok)
qed

lemma parse_pin_lines_wf: "parse_pin_lines v2 ls st = Inr st' \<Longrightarrow> wf_pin_state st \<Longrightarrow> wf_pin_state st'"
  by (induction ls arbitrary: st) (auto simp: rbind_Inr dest: parse_pin_line_wf)

lemma parse_pins_wf:
  assumes "parse_pins t = Inr m"
  shows "distinct (pin_keys (pm_pins m) (pm_closures m))"
    and "list_all sized (pin_keys (pm_pins m) (pm_closures m))"
    and "list_all wf_closure (pm_closures m)"
proof -
  obtain v2 ls pins closures cur closures' where
    l: "parse_pin_lines v2 ls ([], [], None) = Inr (pins, closures, cur)"
    and f: "flush_closure cur closures = Inr closures'"
    and r: "first_repeat (pin_keys pins closures') = None"
    and m: "m = \<lparr>pm_pins = pins, pm_closures = closures'\<rparr>"
    using assms by (auto simp: parse_pins_def rbind_Inr split: list.splits if_splits option.splits)
  have w: "wf_pin_state (pins, closures, cur)"
    by (rule parse_pin_lines_wf [OF l]) (simp add: wf_pin_state_def)
  then have c: "list_all wf_closure closures'"
    by (intro flush_closure_wf [OF f]) (auto simp: wf_pin_state_def)
  show "distinct (pin_keys (pm_pins m) (pm_closures m))" using r by (simp add: m first_repeat_None)
  show "list_all wf_closure (pm_closures m)" using c by (simp add: m)
  show "list_all sized (pin_keys (pm_pins m) (pm_closures m))"
    using w c by (auto simp: m pin_keys_def wf_pin_state_def list_all_iff wf_closure_def)
qed

text \<open>
  a manifest that parses is well formed: no two entries have the same key, every digest has the size
  of its algorithm, every interpreter is rooted, every library is a bare name, and no closure names a
  member twice.
\<close>

theorem parsed_pins_are_unambiguous:
  assumes "parse_pins t = Inr m"
  shows "distinct (pin_keys (pm_pins m) (pm_closures m))
    \<and> list_all sized (pin_keys (pm_pins m) (pm_closures m)) \<and> list_all wf_closure (pm_closures m)"
  using parse_pins_wf [OF assms] by blast

lemma find_unique:
  assumes "inj_on key (set xs)" and "x \<in> set xs" and "\<And>y. P y \<longleftrightarrow> key y = key x"
  shows "find P xs = Some x"
  using assms
  by (induction xs) (auto simp: inj_on_def)

lemma find_pin:
  "find (\<lambda>p. pn_algo p = a \<and> pn_digest p = d) ps = None \<longleftrightarrow> (a, d) \<notin> set (map (\<lambda>p. (pn_algo p, pn_digest p)) ps)"
  by (auto simp: find_None_iff)

lemma lookup_is_the_entry_aux:
  assumes "distinct (pin_keys (pm_pins m) (pm_closures m))" and "list_all sized (pin_keys (pm_pins m) (pm_closures m))"
  shows "pin_lookup m vid d = Some c \<longleftrightarrow>
    (\<exists>a. from_verity_id vid = Some a
      \<and> ((\<exists>p \<in> set (pm_pins m). pn_algo p = a \<and> pn_digest p = d \<and> pn_class p = c)
         \<or> (\<exists>q \<in> set (pm_closures m). cl_algo q = a \<and> cl_digest q = d \<and> cl_class q = c)))"
    (is "?l \<longleftrightarrow> ?r")
proof
  assume ?l
  then show ?r
    by (auto simp: pin_lookup_def pin_lookup_match_def find_Some_iff find_None_iff split: option.splits if_splits)
next
  assume ?r
  then obtain a where a: "from_verity_id vid = Some a"
    and e: "(\<exists>p \<in> set (pm_pins m). pn_algo p = a \<and> pn_digest p = d \<and> pn_class p = c)
         \<or> (\<exists>q \<in> set (pm_closures m). cl_algo q = a \<and> cl_digest q = d \<and> cl_class q = c)" by blast
  have len: "length d = algo_size a"
  proof -
    have "(a, d) \<in> set (pin_keys (pm_pins m) (pm_closures m))"
      using e unfolding pin_keys_def by (elim disjE bexE conjE) force+
    then show ?thesis using assms(2) by (auto simp: list_all_iff sized_def)
  qed
  have pi: "inj_on (\<lambda>p. (pn_algo p, pn_digest p)) (set (pm_pins m))"
    and ci: "inj_on (\<lambda>q. (cl_algo q, cl_digest q)) (set (pm_closures m))"
    using assms(1) by (auto simp: pin_keys_def distinct_map)
  from e show ?l
  proof
    assume "\<exists>p \<in> set (pm_pins m). pn_algo p = a \<and> pn_digest p = d \<and> pn_class p = c"
    then obtain p where p: "p \<in> set (pm_pins m)" "pn_algo p = a" "pn_digest p = d" "pn_class p = c" by blast
    have "find (\<lambda>p. pn_algo p = a \<and> pn_digest p = d) (pm_pins m) = Some p"
      by (rule find_unique [OF pi p(1)]) (use p in auto)
    then show ?l by (simp add: pin_lookup_def pin_lookup_match_def a len p)
  next
    assume "\<exists>q \<in> set (pm_closures m). cl_algo q = a \<and> cl_digest q = d \<and> cl_class q = c"
    then obtain q where q: "q \<in> set (pm_closures m)" "cl_algo q = a" "cl_digest q = d" "cl_class q = c" by blast
    have "find (\<lambda>q. cl_algo q = a \<and> cl_digest q = d) (pm_closures m) = Some q"
      by (rule find_unique [OF ci q(1)]) (use q in auto)
    moreover have "(a, d) \<in> (\<lambda>q. (cl_algo q, cl_digest q)) ` set (pm_closures m)"
      using imageI [OF q(1), of "\<lambda>q. (cl_algo q, cl_digest q)"] q(2,3) by simp
    then have "(a, d) \<notin> (\<lambda>p. (pn_algo p, pn_digest p)) ` set (pm_pins m)"
      using assms(1) by (auto simp: pin_keys_def)
    then have "find (\<lambda>p. pn_algo p = a \<and> pn_digest p = d) (pm_pins m) = None"
      by (simp add: find_pin)
    ultimately show ?l by (simp add: pin_lookup_def pin_lookup_match_def a len q)
  qed
qed

text \<open>
  a lookup in a manifest that parses finds a pin exactly when the manifest has an entry for that
  algorithm and that digest, and it is the class of that one entry.
\<close>

theorem lookup_is_the_entry:
  assumes "parse_pins t = Inr m"
  shows "pin_lookup m vid d = Some c \<longleftrightarrow>
    (\<exists>a. from_verity_id vid = Some a
      \<and> ((\<exists>p \<in> set (pm_pins m). pn_algo p = a \<and> pn_digest p = d \<and> pn_class p = c)
         \<or> (\<exists>q \<in> set (pm_closures m). cl_algo q = a \<and> cl_digest q = d \<and> cl_class q = c)))"
  by (rule lookup_is_the_entry_aux [OF parse_pins_wf(1,2) [OF assms]])

definition sealed_pins :: string where
  "sealed_pins = unlines [''shrek-pin-manifest v1'', ''sha256 '' @ replicate 64 (CHR ''a'') @ '' closed-world'']"

definition sealed_pins_parsed :: pin_manifest where
  "sealed_pins_parsed =
     \<lparr>pm_pins = [\<lparr>pn_algo = Sha256, pn_digest = replicate 32 0xaa, pn_class = ClosedWorld\<rparr>], pm_closures = []\<rparr>"

lemma sealed_pins_parse: "parse_pins sealed_pins = Inr sealed_pins_parsed"
  by code_simp

theorem parsed_pins_are_unambiguous_witness:
  "distinct (pin_keys (pm_pins sealed_pins_parsed) (pm_closures sealed_pins_parsed))"
  using parsed_pins_are_unambiguous [OF sealed_pins_parse] by blast

theorem lookup_is_the_entry_witness:
  "pin_lookup sealed_pins_parsed 1 (replicate 32 0xaa) = Some ClosedWorld"
  unfolding lookup_is_the_entry [OF sealed_pins_parse]
  by (simp add: sealed_pins_parsed_def from_verity_id_def)

section \<open>The band is earned\<close>

lemma with_pin_fields [simp]:
  "entrypoint_sealed (with_pin e b) = entrypoint_sealed e" "ev_origin (with_pin e b) = ev_origin e"
  "pinned_digest_match (with_pin e b)" "domain_execution_sealed (with_pin e b) = (domain_execution_sealed e \<or> b)"
  by (simp_all add: with_pin_def)

lemma measure_entry_fields [simp]:
  "\<not> pinned_digest_match (measure_entry h e s)" "ev_origin (measure_entry h e s) = NoOrigin"
  by (auto simp: measure_entry_def UNVERIFIABLE_def evidence_mvp_def split: option.splits)

lemma measure_entry_sealed:
  "entrypoint_sealed (measure_entry h e s) \<longleftrightarrow>
     (\<exists>dev p st. s = Some dev \<and> e = Some p \<and> path_absolute p \<and> statx_of h p = Some st
        \<and> fs_dev st = dev \<and> fs_regular st)"
  by (auto simp: measure_entry_def UNVERIFIABLE_def evidence_mvp_def split: option.splits)

lemma measure_entry_closed:
  "domain_execution_sealed (measure_entry h e s) \<Longrightarrow> \<exists>p. e = Some p \<and> exec_class_closed_world p"
  by (auto simp: measure_entry_def UNVERIFIABLE_def evidence_mvp_def split: option.splits if_splits)

lemma pin_arm_match:
  "pin_arm h p = (True, closed, fd, clo) \<longleftrightarrow>
     (\<exists>t m f vid d x. path_absolute p \<and> hf_manifest h = Some t \<and> parse_pins t = Inr m \<and> \<not> pins_is_empty m
        \<and> open_entry_rdonly h p = Some f \<and> fd = Some f \<and> hf_verity h f = Some (vid, d)
        \<and> pin_lookup_match m vid d = Some x
        \<and> closed = is_closed_world (case x of StaticPin c \<Rightarrow> c | ClosurePin q \<Rightarrow> cl_class q)
        \<and> clo = (case x of StaticPin c \<Rightarrow> None | ClosurePin q \<Rightarrow> Some q))"
  by (auto simp: pin_arm_def load_manifest_def split: option.splits sum.splits prod.splits pin_match.splits)

definition pin_class_of :: "host_facts \<Rightarrow> string \<Rightarrow> pin_class option" where
  "pin_class_of h p =
     (if \<not> path_absolute p then None
      else do {
        m \<leftarrow> load_manifest h;
        f \<leftarrow> open_entry_rdonly h p;
        (vid, d) \<leftarrow> hf_verity h f;
        pin_lookup m vid d })"

definition on_sealed_root :: "host_facts \<Rightarrow> string \<Rightarrow> device option \<Rightarrow> bool" where
  "on_sealed_root h p s \<longleftrightarrow>
     path_absolute p \<and> s \<noteq> None \<and> (\<exists>st. statx_of h p = Some st \<and> s = Some (fs_dev st) \<and> fs_regular st)"

definition listed_program :: "host_facts \<Rightarrow> string \<Rightarrow> device option \<Rightarrow> bool" where
  "listed_program h p s \<longleftrightarrow>
     path_absolute p \<and> s \<noteq> None \<and> statx_of h p \<noteq> None \<and> exec_class_closed_world p"

lemma empty_manifest: "pins_is_empty m \<Longrightarrow> pin_lookup_match m vid d = None"
  by (auto simp: pins_is_empty_def pin_lookup_match_def split: option.splits)

lemma pin_arm_by_class:
  "case pin_class_of h p of
     None \<Rightarrow> pin_arm h p = (False, False, None, None)
   | Some c \<Rightarrow> \<exists>fd clo. pin_arm h p = (True, is_closed_world c, fd, clo)"
proof (cases "load_manifest h")
  case (Some m)
  show ?thesis
  proof (cases "open_entry_rdonly h p")
    case o: (Some f)
    show ?thesis
    proof (cases "hf_verity h f")
      case v: (Some vd)
      obtain vid d where vd: "vd = (vid, d)" by (cases vd) auto
      show ?thesis
        using Some o v empty_manifest [of m vid d]
        by (cases "pin_lookup_match m vid d")
          (auto simp: pin_class_of_def pin_arm_def vd pin_lookup_def split: pin_match.splits)
    qed (use Some o in \<open>simp add: pin_class_of_def pin_arm_def\<close>)
  qed (use Some in \<open>simp add: pin_class_of_def pin_arm_def\<close>)
qed (simp add: pin_class_of_def pin_arm_def)

lemma pin_arm_class:
  "pin_class_of h p = None \<Longrightarrow> pin_arm h p = (False, False, None, None)"
  "pin_class_of h p = Some c \<Longrightarrow> \<exists>fd clo. pin_arm h p = (True, is_closed_world c, fd, clo)"
  using pin_arm_by_class [of h p] by simp_all

lemma measure_nothing [simp]: "measure_entry h None s = UNVERIFIABLE"
  by (simp add: measure_entry_def split: option.split)

lemma derive_band_simps:
  "derive_band e = First \<longleftrightarrow> entrypoint_sealed e \<and> domain_execution_sealed e"
  "derive_band e = Pinned \<longleftrightarrow> \<not> entrypoint_sealed e \<and> pinned_digest_match e \<and> domain_execution_sealed e"
  "derive_band e = Untrust \<longleftrightarrow> \<not> (entrypoint_sealed e \<and> domain_execution_sealed e)
     \<and> \<not> (pinned_digest_match e \<and> domain_execution_sealed e) \<and> ev_origin e = UntrustedIngest"
  by (auto simp: derive_band_def split: origin.splits)


text \<open>
  the descriptor and the closure carried to the constructor are those of the measurement: the
  descriptor is the one opened at the path, its digest has an entry in the sealed manifest, the closure is
  the one of that entry, and the band is \<open>Pinned\<close>.
\<close>

theorem carried_object_was_measured:
  assumes "dv_exec_fd (derive h (Some p) s) = Some fd"
  shows "dv_band (derive h (Some p) s) = Pinned \<and> open_entry_rdonly h p = Some fd
    \<and> (\<exists>t m vid d x. hf_manifest h = Some t \<and> parse_pins t = Inr m \<and> hf_verity h fd = Some (vid, d)
        \<and> pin_lookup_match m vid d = Some x
        \<and> dv_closure (derive h (Some p) s) = (case x of StaticPin _ \<Rightarrow> None | ClosurePin q \<Rightarrow> Some q))"
proof -
  obtain matched closed f clo where arm: "pin_arm h p = (matched, closed, f, clo)" by (cases "pin_arm h p") auto
  have m: "matched" and f: "f = Some fd" and b: "derive_band (with_pin (measure_entry h (Some p) s) closed) = Pinned"
    using assms by (auto simp: derive_def Let_def arm split: if_splits)
  have "pin_arm h p = (True, closed, Some fd, clo)" using arm m f by simp
  then obtain t mf vid d x where "hf_manifest h = Some t" "parse_pins t = Inr mf" "open_entry_rdonly h p = Some fd"
      "hf_verity h fd = Some (vid, d)" "pin_lookup_match mf vid d = Some x"
      "clo = (case x of StaticPin c \<Rightarrow> None | ClosurePin q \<Rightarrow> Some q)"
    unfolding pin_arm_match by blast
  then show ?thesis
    using b by (simp add: derive_def Let_def arm m f)
qed

definition pinned_host :: host_facts where
  "pinned_host =
     \<lparr>hf_anchor = None, hf_ro = (\<lambda>_. None), hf_dm_uuid = (\<lambda>_. None), hf_dm_name = (\<lambda>_. None), hf_status = (\<lambda>_. None),
      hf_manifest = Some sealed_pins, hf_open = (\<lambda>_. Some 5), hf_verity = (\<lambda>_. Some (1, replicate 32 0xaa)),
      hf_harness = (\<lambda>_. None), hf_admit = None\<rparr>"

lemma pinned_host_derives: "dv_exec_fd (derive pinned_host (Some ''/opt/tool'') None) = Some 5"
  by code_simp

theorem carried_object_was_measured_witness:
  "dv_band (derive pinned_host (Some ''/opt/tool'') None) = Pinned"
  using carried_object_was_measured [OF pinned_host_derives] by blast

text \<open>
  an ingest session is \<open>Untrust\<close> exactly when the sealed admit list parses and lists the measured
  digest of the harness under its algorithm, and \<open>Hostile\<close> otherwise.
\<close>

theorem ingest_needs_the_authentic_harness:
  "ig_band (derive_session h r) = (if ig_authentic (derive_session h r) then Untrust else Hostile)
   \<and> (ig_authentic (derive_session h r) \<longleftrightarrow>
        (\<exists>t es fd vid a d. hf_admit h = Some t \<and> parse_admit t = Inr es \<and> CHR 0x00 \<notin> set r
          \<and> hf_harness h r = Some fd \<and> hf_verity h fd = Some (vid, d) \<and> from_verity_id vid = Some a
          \<and> (a, d) \<in> set es))"
  by (auto simp: derive_session_def derive_band_def load_admit_def measure_harness_def Let_def List.member_iff
      bind_eq_Some_conv split: option.splits sum.splits if_splits)

end
