(* ===== verification/Session_View.thy ===== *)
theory Session_View
  imports Gate_Session Net_Plane
begin

text \<open>
  The view of a running session (\<open>gatekeeperd/src/session_view.rs\<close>): its JSON text, the record file, the
  command line.  A character of several bytes has no byte below 128, so the escapes of the code, which
  are of ASCII characters only, are written over bytes.
\<close>

section \<open>JSON text\<close>

definition json_char :: "char \<Rightarrow> string" where
  "json_char c =
     (if c = CHR 0x22 then [CHR 0x5C, CHR 0x22]
      else if c = CHR 0x5C then [CHR 0x5C, CHR 0x5C]
      else if c = nl then [CHR 0x5C, CHR ''n'']
      else if c = CHR 0x0D then [CHR 0x5C, CHR ''r'']
      else if c = tab then [CHR 0x5C, CHR ''t'']
      else if c < CHR 0x20 then [CHR 0x5C, CHR ''u''] @ hex4 (of_char c)
      else [c])"

definition json_escape :: "string \<Rightarrow> string" where
  "json_escape s = concat (map json_char s)"

definition jstr :: "string \<Rightarrow> string" where
  "jstr s = quote @ json_escape s @ quote"

definition jarr :: "string list \<Rightarrow> string" where
  "jarr items = ''['' @ str_join '', '' (map jstr items) @ '']''"

record session_view =
  vw_session :: string
  vw_subject :: string
  vw_tier :: string
  vw_trust :: string
  vw_caps :: string
  vw_profile :: string
  vw_grants :: "string list"
  vw_egress_profile :: string
  vw_egress_dst :: string
  vw_workload :: "string list"
  vw_provider :: string
  vw_model_mode :: string
  vw_semantic_available :: bool
  vw_semantic_tier :: string

record session_meta =
  sm_subject :: string
  sm_tier :: string
  sm_trust :: string
  sm_caps :: string
  sm_profile :: string
  sm_model_mode :: string

definition empty_view :: session_view where
  "empty_view =
     \<lparr>vw_session = [], vw_subject = [], vw_tier = [], vw_trust = [], vw_caps = [], vw_profile = [],
      vw_grants = [], vw_egress_profile = [], vw_egress_dst = [], vw_workload = [], vw_provider = [],
      vw_model_mode = [], vw_semantic_available = False, vw_semantic_tier = []\<rparr>"

text \<open>A member of an object at the given indentation, without what ends the line.\<close>

definition jkey :: "string \<Rightarrow> string" where
  "jkey k = quote @ k @ quote @ '': ''"

definition to_json :: "session_view \<Rightarrow> string" where
  "to_json v =
     ''{'' @ [nl]
     @ ''  '' @ jkey ''schema'' @ quote @ ''shrek-session/1'' @ quote @ '','' @ [nl]
     @ ''  '' @ jkey ''session'' @ jstr (vw_session v) @ '','' @ [nl]
     @ ''  '' @ jkey ''state'' @ quote @ ''active'' @ quote @ '','' @ [nl]
     @ ''  '' @ jkey ''subject'' @ jstr (vw_subject v) @ '','' @ [nl]
     @ ''  '' @ jkey ''effective'' @ ''{'' @ [nl]
     @ ''    '' @ jkey ''tier'' @ jstr (vw_tier v) @ '','' @ [nl]
     @ ''    '' @ jkey ''trust'' @ jstr (vw_trust v) @ '','' @ [nl]
     @ ''    '' @ jkey ''caps'' @ jstr (vw_caps v) @ '','' @ [nl]
     @ ''    '' @ jkey ''profile'' @ jstr (vw_profile v) @ '','' @ [nl]
     @ ''    '' @ jkey ''grants'' @ jarr (vw_grants v) @ '','' @ [nl]
     @ ''    '' @ jkey ''egress_profile'' @ jstr (vw_egress_profile v) @ '','' @ [nl]
     @ ''    '' @ jkey ''egress_dst'' @ jstr (vw_egress_dst v) @ [nl]
     @ ''  },'' @ [nl]
     @ ''  '' @ jkey ''workload'' @ jarr (vw_workload v) @ '','' @ [nl]
     @ ''  '' @ jkey ''model'' @ ''{ '' @ jkey ''provider'' @ jstr (vw_provider v) @ '', ''
        @ jkey ''path'' @ quote @ ''brokered'' @ quote @ '', '' @ jkey ''mode'' @ jstr (vw_model_mode v) @ '' },'' @ [nl]
     @ ''  '' @ jkey ''semantic'' @ ''{ '' @ jkey ''available''
        @ (if vw_semantic_available v then ''true'' else ''false'') @ '', ''
        @ jkey ''freshness'' @ quote @ ''live'' @ quote @ '', '' @ jkey ''tier'' @ jstr (vw_semantic_tier v) @ '' }'' @ [nl]
     @ ''}'' @ [nl]"

section \<open>The record\<close>

definition view_leaf :: "string \<Rightarrow> string" where
  "view_leaf sid = sid @ ''.json''"

definition write_view :: "dir \<Rightarrow> session_view \<Rightarrow> (io_error, dir) result" where
  "write_view d v =
     (if valid_session_id (vw_session v) then atomic_write d (view_leaf (vw_session v)) (to_json v)
      else Inl (InvalidInput ''invalid session id''))"

definition remove_view :: "dir \<Rightarrow> string \<Rightarrow> (io_error, dir) result" where
  "remove_view d sid =
     (if valid_session_id sid then remove_if_present d (view_leaf sid)
      else Inl (InvalidInput ''invalid session id''))"

section \<open>The command line\<close>

record view_args =
  va_view :: session_view
  va_dir :: string
  va_rm :: bool

text \<open>An option that takes a value, with an empty one at the end of the arguments.\<close>

definition set_option :: "string \<Rightarrow> string \<Rightarrow> view_args \<Rightarrow> view_args option" where
  "set_option k x a =
     (let v = va_view a
      in if k = ''--session'' then Some (a\<lparr>va_view := v\<lparr>vw_session := x\<rparr>\<rparr>)
         else if k = ''--dir'' then Some (a\<lparr>va_dir := x\<rparr>)
         else if k = ''--subject'' then Some (a\<lparr>va_view := v\<lparr>vw_subject := x\<rparr>\<rparr>)
         else if k = ''--tier'' then Some (a\<lparr>va_view := v\<lparr>vw_tier := x\<rparr>\<rparr>)
         else if k = ''--trust'' then Some (a\<lparr>va_view := v\<lparr>vw_trust := x\<rparr>\<rparr>)
         else if k = ''--caps'' then Some (a\<lparr>va_view := v\<lparr>vw_caps := x\<rparr>\<rparr>)
         else if k = ''--profile'' then Some (a\<lparr>va_view := v\<lparr>vw_profile := x\<rparr>\<rparr>)
         else if k = ''--grant'' then Some (a\<lparr>va_view := v\<lparr>vw_grants := vw_grants v @ [x]\<rparr>\<rparr>)
         else if k = ''--egress-profile'' then Some (a\<lparr>va_view := v\<lparr>vw_egress_profile := x\<rparr>\<rparr>)
         else if k = ''--egress-dst'' then Some (a\<lparr>va_view := v\<lparr>vw_egress_dst := x\<rparr>\<rparr>)
         else if k = ''--workload-arg'' then Some (a\<lparr>va_view := v\<lparr>vw_workload := vw_workload v @ [x]\<rparr>\<rparr>)
         else if k = ''--provider'' then Some (a\<lparr>va_view := v\<lparr>vw_provider := x\<rparr>\<rparr>)
         else if k = ''--mode'' then Some (a\<lparr>va_view := v\<lparr>vw_model_mode := x\<rparr>\<rparr>)
         else if k = ''--semantic-tier'' then Some (a\<lparr>va_view := v\<lparr>vw_semantic_tier := x\<rparr>\<rparr>)
         else None)"

fun parse_view_args :: "string list \<Rightarrow> view_args \<Rightarrow> view_args option" where
  "parse_view_args [] a = Some a"
| "parse_view_args (k # xs) a =
     (if k = ''--rm'' then parse_view_args xs (a\<lparr>va_rm := True\<rparr>)
      else if k = ''--semantic-available'' then
        parse_view_args xs (a\<lparr>va_view := va_view a\<lparr>vw_semantic_available := True\<rparr>\<rparr>)
      else case xs of
        [] \<Rightarrow> set_option k [] a
      | x # ys \<Rightarrow> Option.bind (set_option k x a) (parse_view_args ys))"

definition view_cli :: "string list \<Rightarrow> dirs \<Rightarrow> int \<times> dirs" where
  "view_cli args ds =
     (case parse_view_args args \<lparr>va_view = empty_view, va_dir = ''/run/shrek/session'', va_rm = False\<rparr> of
        None \<Rightarrow> (2, ds)
      | Some a \<Rightarrow>
          if vw_session (va_view a) = [] then (2, ds)
          else if va_rm a then finish_write ds (va_dir a) (remove_view (ds (va_dir a)) (vw_session (va_view a)))
          else finish_write ds (va_dir a) (write_view (ds (va_dir a)) (va_view a)))"

section \<open>The text is unambiguous\<close>

definition hex_value :: "char \<Rightarrow> nat" where
  "hex_value c = (if is_digit c then of_char c - 48 else of_char c - 87)"

text \<open>What a reader of JSON makes of the rest of a string literal: its value, and what follows it.\<close>

fun read_literal :: "string \<Rightarrow> (string \<times> string) option" where
  "read_literal [] = None"
| "read_literal (c # r) =
     (if c = CHR 0x22 then Some ([], r)
      else if c \<noteq> CHR 0x5C then map_option (apfst ((#) c)) (read_literal r)
      else case r of
        e # r1 \<Rightarrow>
          if e = CHR ''u'' then
            (case r1 of
               a # b # x # y # r2 \<Rightarrow>
                 map_option (apfst ((#) (char_of (16 * hex_value x + hex_value y)))) (read_literal r2)
             | _ \<Rightarrow> None)
          else map_option (apfst ((#) (if e = CHR ''n'' then nl else if e = CHR ''r'' then CHR 0x0D
                 else if e = CHR ''t'' then tab else e))) (read_literal r1)
      | [] \<Rightarrow> None)"

lemma hex_values: "list_all (\<lambda>n. hex_value (hex_char n) = n) [0..<16]"
  by code_simp

lemma hex_value_char [simp]: "n < 16 \<Longrightarrow> hex_value (hex_char n) = n"
  using hex_values by (simp add: list_all_iff)

lemma control_number: "c < CHR 0x20 \<Longrightarrow> of_char c < (32 :: nat)"
  by (simp add: less_char_def)

lemma read_char: "read_literal (json_char c @ r) = map_option (apfst ((#) c)) (read_literal r)"
proof (cases "c < CHR 0x20 \<and> c \<noteq> nl \<and> c \<noteq> CHR 0x0D \<and> c \<noteq> tab")
  case True
  define k :: nat where "k = of_char c"
  have k: "k < 32" and c: "c = char_of k" using True control_number by (auto simp: k_def)
  have "c \<noteq> CHR 0x22" "c \<noteq> CHR 0x5C" using k by (auto simp: k_def)
  then have "json_char c = [CHR 0x5C, CHR ''u''] @ hex4 k" using True by (simp add: json_char_def k_def)
  moreover have "k div 16 < 16" "k mod 16 < 16" using k by auto
  ultimately show ?thesis
    using k by (simp add: hex4_def c mult.commute [of 16] del: mult_div_mod_eq)
next
  case False
  then show ?thesis
    by (auto simp: json_char_def)
qed

lemma read_escaped: "read_literal (json_escape s @ CHR 0x22 # r) = Some (s, r)"
  by (induction s) (simp_all add: json_escape_def read_char)

lemma jstr_inject: "jstr s @ r = jstr t @ r' \<longleftrightarrow> s = t \<and> r = r'"
proof
  assume "jstr s @ r = jstr t @ r'"
  then have "json_escape s @ CHR 0x22 # r = json_escape t @ CHR 0x22 # r'"
    by (simp only: jstr_def quote_def append.simps append_assoc list.inject)
  then have "Some (s, r) = Some (t, r')" by (simp only: read_escaped [symmetric])
  then show "s = t \<and> r = r'" by simp
qed simp

lemma jstr_head: "jstr s = CHR 0x22 # json_escape s @ [CHR 0x22]"
  by (simp add: jstr_def quote_def)

lemma jstr_inj [simp]: "jstr s = jstr t \<longleftrightarrow> s = t"
  using jstr_inject [of s "[]" t "[]"] by simp

lemma escape_inject [simp]:
  "json_escape s @ CHR 0x22 # r = json_escape t @ CHR 0x22 # r' \<longleftrightarrow> s = t \<and> r = r'"
proof
  assume "json_escape s @ CHR 0x22 # r = json_escape t @ CHR 0x22 # r'"
  then have "Some (s, r) = Some (t, r')" by (simp only: read_escaped [symmetric])
  then show "s = t \<and> r = r'" by simp
qed simp

text \<open>Elements joined by a separator that starts with a comma, up to the closing bracket.\<close>

lemma joined_inject:
  assumes f: "\<And>x y r r'. f x @ r = f y @ r' \<longleftrightarrow> k x = k y \<and> r = r'"
    and hd: "\<And>x. \<exists>c t. f x = c # t \<and> c \<noteq> CHR '']''"
  shows "str_join (CHR '','' # sep) (map f xs) @ CHR '']'' # r = str_join (CHR '','' # sep) (map f ys) @ CHR '']'' # r'
   \<longleftrightarrow> map k xs = map k ys \<and> r = r'"
proof (induction xs arbitrary: ys)
  case Nil
  show ?case
  proof (cases ys)
    case (Cons y zs)
    then show ?thesis using hd [of y] by (cases zs) auto
  qed simp
next
  case (Cons x xs)
  show ?case
  proof (cases ys)
    case Nil
    then show ?thesis using hd [of x] by (cases xs) auto
  next
    case (Cons y zs)
    then show ?thesis
      using Cons.IH [of zs] by (cases xs; cases zs) (auto simp: f)
  qed
qed

lemma literals_inject:
  "str_join (CHR '','' # sep) (map jstr xs) @ CHR '']'' # r = str_join (CHR '','' # sep) (map jstr ys) @ CHR '']'' # r'
   \<longleftrightarrow> xs = ys \<and> r = r'"
  using joined_inject [of jstr "\<lambda>x. x" sep xs r ys r'] by (simp add: jstr_inject jstr_head)

lemma jarr_inject: "jarr xs @ r = jarr ys @ r' \<longleftrightarrow> xs = ys \<and> r = r'"
  using literals_inject [of "'' ''" xs r ys r'] by (simp add: jarr_def)

text \<open>
  the view is faithful: two sessions have the same text only if every field is the same, whatever
  characters the arguments of the workload or the paths of the grants contain.
\<close>

theorem view_text_is_exact: "to_json v = to_json v' \<longleftrightarrow> v = v'"
proof
  assume "to_json v = to_json v'"
  then show "v = v'"
    unfolding to_json_def jkey_def
    by (cases v; cases v') (simp add: jstr_inject jarr_inject split: if_splits)
qed simp

end
