(* ===== verification/T2_Config.thy ===== *)
theory T2_Config
  imports Session_View Mount_Plane
begin

text \<open>
  What the constructor of a gVisor sandbox decides before it touches the host
  (\<open>gatekeeperd/src/t2_plane.rs\<close>): the platform, the OCI configuration as text, the display view, the
  checks of the request.
\<close>

section \<open>The platform\<close>

datatype platform = Systrap | Kvm

fun platform_flag :: "platform \<Rightarrow> string" where
  "platform_flag Systrap = ''systrap''"
| "platform_flag Kvm = ''kvm''"

definition platform_decision :: "bool \<Rightarrow> bool \<Rightarrow> platform" where
  "platform_decision virtualized kvm_usable = (if \<not> virtualized \<and> kvm_usable then Kvm else Systrap)"

text \<open>The output of the detector, or none when it could not be run.\<close>

definition detect_virtualized :: "string option \<Rightarrow> bool \<times> string" where
  "detect_virtualized out =
     (case out of
        None \<Rightarrow> (True, ''detect-virt-unavailable'')
      | Some o' \<Rightarrow>
          (let i = str_trim (utf8_lossy o')
           in if i = [] then (True, ''detect-virt-empty'')
              else if i = ''none'' then (False, ''none'')
              else (True, i)))"

definition cpuinfo_has_flag :: "string \<Rightarrow> string \<Rightarrow> bool" where
  "cpuinfo_has_flag cpuinfo flag \<longleftrightarrow>
     list_ex (\<lambda>l. List.member (str_split_ws l) flag)
       (filter (\<lambda>l. str_starts_with l ''flags'') (str_lines cpuinfo))"

definition has_virt_ext :: "string option \<Rightarrow> bool" where
  "has_virt_ext cpuinfo \<longleftrightarrow>
     (let t = (case cpuinfo of None \<Rightarrow> [] | Some t \<Rightarrow> t)
      in cpuinfo_has_flag t ''vmx'' \<or> cpuinfo_has_flag t ''svm'')"

text \<open>The probe of the device: an open descriptor, the version it reports, and whether a machine starts.\<close>

definition kvm_usable :: "(int option \<times> int option) option \<Rightarrow> bool" where
  "kvm_usable probe =
     (case probe of
        Some (Some v, vm) \<Rightarrow> v = 12 \<and> (case vm of Some fd \<Rightarrow> 0 \<le> fd | None \<Rightarrow> False)
      | _ \<Rightarrow> False)"

definition select_platform :: "string option \<Rightarrow> (int option \<times> int option) option \<Rightarrow> platform" where
  "select_platform virt probe =
     (let (v, _) = detect_virtualized virt;
          kvm = \<not> v \<and> kvm_usable probe
      in platform_decision v kvm)"

section \<open>The request\<close>

record t2_spec =
  ts_id :: string
  ts_anchor :: string
  ts_grants :: "string list"
  ts_rw_grant :: "string option"
  ts_build_grant :: "string option"
  ts_workload :: "string list"
  ts_rootfs :: string
  ts_runsc :: string
  ts_platform :: platform
  ts_mem_max :: u64
  ts_pids_max :: u64
  ts_egress :: "egress_profile list"
  ts_session_meta :: "session_meta option"

record grant_mount =
  gm_name :: string
  gm_source :: string
  gm_rw :: bool

datatype t2_error =
    EmptyWorkload | RelativeWorkload | NoRunsc | NoRootfs | BadGrantName string | GrantAlsoReadOnly string
  | BuildIsProject string | WorkDirFailed | PrivateNsFailed | AnchorFailed | PinRefused string
  | RelocateFailed mount_error | StageFailed | CopyFailed | ResolveFailed net_error | ResolverPanic
  | EtcFailed | EntropyFailed | ConfigFailed | CgroupFailed | EgressSetupFailed | IdentityFailed io_error
  | RunscFailed

definition bad_name :: "string \<Rightarrow> bool" where
  "bad_name n \<longleftrightarrow> n = [] \<or> CHR ''/'' \<in> set n \<or> n = ''..''"

text \<open>The checks of one writable grant against the read-only ones.\<close>

definition writable_error :: "string list \<Rightarrow> string option \<Rightarrow> t2_error option" where
  "writable_error ro g =
     (case g of
        None \<Rightarrow> None
      | Some n \<Rightarrow> if bad_name n then Some (BadGrantName n)
                  else if List.member ro n then Some (GrantAlsoReadOnly n) else None)"

definition spec_error :: "(string \<Rightarrow> bool) \<Rightarrow> (string \<Rightarrow> bool) \<Rightarrow> t2_spec \<Rightarrow> t2_error option" where
  "spec_error is_file is_dir s =
     (case ts_workload s of
        [] \<Rightarrow> Some EmptyWorkload
      | w # _ \<Rightarrow>
          if \<not> str_starts_with w ''/'' then Some RelativeWorkload
          else if \<not> is_file (ts_runsc s) then Some NoRunsc
          else if \<not> is_dir (ts_rootfs s) then Some NoRootfs
          else case find bad_name (ts_grants s) of
            Some n \<Rightarrow> Some (BadGrantName n)
          | None \<Rightarrow>
              (case writable_error (ts_grants s) (ts_rw_grant s) of
                 Some e \<Rightarrow> Some e
               | None \<Rightarrow>
                   (case writable_error (ts_grants s) (ts_build_grant s) of
                      Some e \<Rightarrow> Some e
                    | None \<Rightarrow>
                        (case ts_build_grant s of
                           Some b \<Rightarrow> if ts_rw_grant s = Some b then Some (BuildIsProject b) else None
                         | None \<Rightarrow> None))))"

definition is_swamp_capable :: "egress_profile list \<Rightarrow> bool" where
  "is_swamp_capable ps = list_ex grants_swamp_query ps"

section \<open>The display view\<close>

definition provider_of :: "string \<Rightarrow> string" where
  "provider_of n =
     (if n = ''model-anthropic'' then ''anthropic''
      else if n = ''model-claude-cli'' then ''claude-cli''
      else if n = ''model-codex-cli'' then ''codex''
      else if n = ''model-local'' then ''local''
      else ''-'')"

definition model_profile :: "egress_profile list \<Rightarrow> egress_profile option" where
  "model_profile ps =
     (case find (\<lambda>p. \<not> grants_swamp_query p) ps of
        Some p \<Rightarrow> Some p
      | None \<Rightarrow> (case ps of p # _ \<Rightarrow> Some p | [] \<Rightarrow> None))"

definition build_session_view ::
  "(string \<Rightarrow> string option) \<Rightarrow> t2_spec \<Rightarrow> session_meta \<Rightarrow> string list \<Rightarrow> session_view" where
  "build_session_view real s m paths =
     (let (profile, dst) =
            (case model_profile (ts_egress s) of
               Some p \<Rightarrow> (prof_name p,
                 (case prof_rules p of r # _ \<Rightarrow> rule_host r @ '':'' @ show_uint (rule_port r) | [] \<Rightarrow> ''-''))
             | None \<Rightarrow> (''-'', ''-''));
          swamp = is_swamp_capable (ts_egress s)
      in \<lparr>vw_session = ts_id s, vw_subject = sm_subject m, vw_tier = sm_tier m, vw_trust = sm_trust m,
          vw_caps = sm_caps m, vw_profile = sm_profile m,
          vw_grants = map (\<lambda>g. utf8_lossy (case real g of None \<Rightarrow> g | Some c \<Rightarrow> c)) paths,
          vw_egress_profile = profile, vw_egress_dst = dst, vw_workload = ts_workload s,
          vw_provider = provider_of profile,
          vw_model_mode = (if sm_model_mode m = [] then ''deterministic'' else sm_model_mode m),
          vw_semantic_available = swamp,
          vw_semantic_tier = (if swamp then ''fts+semantic'' else ''fts'')\<rparr>)"

section \<open>The configuration\<close>

definition mount_json :: "grant_mount \<Rightarrow> string" where
  "mount_json g =
     ''{'' @ quote @ ''destination'' @ quote @ '':'' @ quote @ ''/srv/'' @ json_escape (gm_name g) @ quote
     @ '','' @ quote @ ''type'' @ quote @ '':'' @ quote @ ''bind'' @ quote
     @ '','' @ quote @ ''source'' @ quote @ '':'' @ jstr (utf8_lossy (gm_source g))
     @ '','' @ quote @ ''options'' @ quote @ '':['' @ quote @ ''rbind'' @ quote @ '',''
     @ quote @ (if gm_rw g then ''rw'' else ''ro'') @ quote @ '']}''"

definition ns_json :: "string \<Rightarrow> string" where
  "ns_json t = ''{'' @ quote @ ''type'' @ quote @ '':'' @ quote @ t @ quote @ ''}''"

definition namespaces_json :: "string option \<Rightarrow> string" where
  "namespaces_json net =
     ns_json ''pid'' @ '','' @ ns_json ''mount'' @ '','' @ ns_json ''ipc'' @ '','' @ ns_json ''uts''
     @ (case net of
          None \<Rightarrow> []
        | Some p \<Rightarrow> '',{'' @ quote @ ''type'' @ quote @ '':'' @ quote @ ''network'' @ quote @ '',''
            @ quote @ ''path'' @ quote @ '':'' @ jstr p @ ''}'')"

definition env_json :: "string option \<Rightarrow> string" where
  "env_json session =
     (case session of
        None \<Rightarrow> []
      | Some h \<Rightarrow> quote @ ''SHREK_SESSION='' @ json_escape h @ quote)"

definition build_config_json ::
  "t2_spec \<Rightarrow> grant_mount list \<Rightarrow> string \<Rightarrow> string option \<Rightarrow> string option \<Rightarrow> string" where
  "build_config_json s grants rootfs net session =
     ''{'' @ quote @ ''ociVersion'' @ quote @ '':'' @ quote @ ''1.0.2'' @ quote @ '',''
     @ quote @ ''process'' @ quote @ '':{'' @ quote @ ''args'' @ quote @ '':['' @ str_join '','' (map jstr (ts_workload s))
     @ ''],'' @ quote @ ''env'' @ quote @ '':['' @ env_json session @ ''],'' @ quote @ ''cwd'' @ quote @ '':'' @ quote @ ''/'' @ quote
     @ '','' @ quote @ ''user'' @ quote @ '':{'' @ quote @ ''uid'' @ quote @ '':0,'' @ quote @ ''gid'' @ quote @ '':0},''
     @ quote @ ''capabilities'' @ quote @ '':{}},''
     @ quote @ ''root'' @ quote @ '':{'' @ quote @ ''path'' @ quote @ '':'' @ jstr (utf8_lossy rootfs)
     @ '','' @ quote @ ''readonly'' @ quote @ '':true},''
     @ quote @ ''mounts'' @ quote @ '':['' @ str_join '','' (map mount_json grants) @ ''],''
     @ quote @ ''linux'' @ quote @ '':{'' @ quote @ ''namespaces'' @ quote @ '':['' @ namespaces_json net @ '']}}''"

end
