(* ===== verification/T2_Plane.thy ===== *)
theory T2_Plane
  imports T2_Config
begin

text \<open>
  The constructor of a gVisor sandbox (\<open>construct\<close> of \<open>gatekeeperd/src/t2_plane.rs\<close>) on an explicit
  world: the host network, the mounts of the private namespace, the directories of authority records,
  bindings and views, the control groups.  The calls of the kernel and the programs \<open>cp\<close> and \<open>runsc\<close>
  are parameters; \<open>runsc delete --force\<close> after the run, whose outcome the code ignores, is not modelled.
\<close>

section \<open>The world and the host\<close>

record 'h t2_run =
  tr_argv :: "string list"
  tr_config :: string
  tr_hosts :: "string option"
  tr_net :: 'h
  tr_mounts :: mounts
  tr_authority :: dir
  tr_bindings :: dir

text \<open>
  \<open>tw_removed\<close> are the trees given to \<open>remove_dir_all\<close>, \<open>tw_emptied\<close> the objects whose content such a
  removal deleted through a mount.
\<close>

record 'h t2_world =
  tw_net :: 'h
  tw_mounts :: mounts
  tw_authority :: dir
  tw_bindings :: dir
  tw_views :: dir
  tw_cgroups :: "string list"
  tw_removed :: "string list"
  tw_emptied :: "ident list"
  tw_runs :: "'h t2_run list"

datatype exit_status = Exited int | Signalled int

record 'h t2_host =
  th_mount :: mount_kernel
  th_net :: "'h net_ops"
  th_is_file :: "string \<Rightarrow> bool"
  th_is_dir :: "string \<Rightarrow> bool"
  th_mkdir :: "string \<Rightarrow> bool"
  th_private :: bool
  th_anchor :: "string \<Rightarrow> bool"
  th_tmpfs :: "string \<Rightarrow> ident option"
  th_copy :: "string \<Rightarrow> string \<Rightarrow> bool"
  th_write :: "string \<Rightarrow> string \<Rightarrow> bool"
  th_urandom :: "u8 list option"
  th_cgroup :: "string \<Rightarrow> u64 \<Rightarrow> u64 \<Rightarrow> bool"
  th_real :: "string \<Rightarrow> string option"
  th_dot :: dot_lookup
  th_projection :: string
  th_reached :: "string \<Rightarrow> mounts \<Rightarrow> string option"
  th_debug :: bool
  th_exit :: "string list \<Rightarrow> exit_status option"

text \<open>
  \<open>remove_dir_all\<close> deletes what it finds, also below a mount it meets on its way, and stops with an
  error when it cannot remove the mount point itself: \<open>th_reached\<close> is the first mount the walk meets.
\<close>

definition mount_at :: "string \<Rightarrow> mounts \<Rightarrow> mount_entry option" where
  "mount_at t ms = find (\<lambda>m. me_target m = t) ms"

definition emptied_by :: "'h t2_host \<Rightarrow> string \<Rightarrow> mounts \<Rightarrow> ident list" where
  "emptied_by k path ms =
     (case Option.bind (th_reached k path ms) (\<lambda>t. mount_at t ms) of
        Some m \<Rightarrow> if mf_rdonly (me_flags m) then [] else [me_source m]
      | None \<Rightarrow> [])"

definition remove_tree :: "'h t2_host \<Rightarrow> string \<Rightarrow> 'h t2_world \<Rightarrow> 'h t2_world" where
  "remove_tree k path w =
     w\<lparr>tw_removed := tw_removed w @ [path], tw_emptied := tw_emptied w @ emptied_by k path (tw_mounts w)\<rparr>"

definition work_dir :: "t2_spec \<Rightarrow> string" where
  "work_dir s = ''/run/shrek-t2/'' @ ts_id s"

definition rw_target :: "t2_spec \<Rightarrow> string \<Rightarrow> string" where
  "rw_target s n = path_join (path_join (work_dir s) ''rwgrants'') n"

definition run_rootfs :: "t2_spec \<Rightarrow> string" where
  "run_rootfs s = path_join (work_dir s) ''rootfs''"

definition leaf_name :: "t2_spec \<Rightarrow> string" where
  "leaf_name s = ''shrek-t2-'' @ ts_id s"

definition drop_leaf :: "t2_spec \<Rightarrow> 'h t2_world \<Rightarrow> 'h t2_world" where
  "drop_leaf s w = w\<lparr>tw_cgroups := filter (\<lambda>c. c \<noteq> leaf_name s) (tw_cgroups w)\<rparr>"

section \<open>Preparing the inputs\<close>

definition ro_mounts :: "t2_spec \<Rightarrow> grant_mount list" where
  "ro_mounts s = map (\<lambda>n. \<lparr>gm_name = n, gm_source = path_join (ts_anchor s) n, gm_rw = False\<rparr>) (ts_grants s)"

definition place_grant ::
  "(mount_kernel \<Rightarrow> pinned \<Rightarrow> string \<Rightarrow> mounts \<Rightarrow> mounted) \<Rightarrow> 'h t2_host \<Rightarrow> t2_spec \<Rightarrow> string option \<Rightarrow> mounts
   \<Rightarrow> (t2_error, grant_mount list) result \<times> mounts" where
  "place_grant relocate k s g ms =
     (case g of
        None \<Rightarrow> (Inr [], ms)
      | Some n \<Rightarrow>
          (case pin_beneath (th_mount k) n of
             None \<Rightarrow> (Inl (PinRefused n), ms)
           | Some p \<Rightarrow>
               (case relocate (th_mount k) p (rw_target s n) ms of
                  (Some e, ms') \<Rightarrow> (Inl (RelocateFailed e), ms')
                | (None, ms') \<Rightarrow> (Inr [\<lparr>gm_name = n, gm_source = rw_target s n, gm_rw = True\<rparr>], ms'))))"

definition place_writable ::
  "'h t2_host \<Rightarrow> t2_spec \<Rightarrow> mounts \<Rightarrow> (t2_error, grant_mount list) result \<times> mounts" where
  "place_writable k s ms =
     (if ts_rw_grant s = None \<and> ts_build_grant s = None then (Inr [], ms)
      else if \<not> th_anchor k (ts_anchor s) then (Inl AnchorFailed, ms)
      else
        case place_grant relocate_rw k s (ts_rw_grant s) ms of
          (Inl e, ms1) \<Rightarrow> (Inl e, ms1)
        | (Inr g1, ms1) \<Rightarrow>
            (case place_grant relocate_rw_exec k s (ts_build_grant s) ms1 of
               (Inl e, ms2) \<Rightarrow> (Inl e, ms2)
             | (Inr g2, ms2) \<Rightarrow> (Inr (g1 @ g2), ms2)))"

definition tmpfs_flags :: mount_flags where
  "tmpfs_flags = \<lparr>mf_rdonly = False, mf_nosuid = True, mf_nodev = True, mf_noexec = False\<rparr>"

definition stage_rootfs :: "'h t2_host \<Rightarrow> t2_spec \<Rightarrow> mounts \<Rightarrow> t2_error option \<times> mounts" where
  "stage_rootfs k s ms =
     (case th_tmpfs k (run_rootfs s) of
        None \<Rightarrow> (Some StageFailed, ms)
      | Some i \<Rightarrow>
          (let ms' = \<lparr>me_target = run_rootfs s, me_source = i, me_flags = tmpfs_flags\<rparr> # ms
           in (if th_copy k (ts_rootfs s @ ''/.'') (run_rootfs s) then None else Some CopyFailed, ms')))"

definition resolve_egress :: "'h t2_host \<Rightarrow> t2_spec \<Rightarrow> (t2_error, resolved_egress option) result" where
  "resolve_egress k s =
     (if ts_egress s = [] then Inr None
      else case resolve_profiles_v4 (th_dot k) (th_projection k) (ts_egress s) of
        None \<Rightarrow> Inl ResolverPanic
      | Some (Inl e) \<Rightarrow> Inl (ResolveFailed e)
      | Some (Inr r) \<Rightarrow> Inr (Some r))"

definition hosts_error :: "'h t2_host \<Rightarrow> t2_spec \<Rightarrow> resolved_egress option \<Rightarrow> t2_error option" where
  "hosts_error k s r =
     (case r of
        None \<Rightarrow> None
      | Some r \<Rightarrow>
          if \<not> th_mkdir k (path_join (run_rootfs s) ''etc'') then Some EtcFailed
          else if \<not> th_write k (path_join (path_join (run_rootfs s) ''etc'') ''hosts'') (etc_hosts (re_hosts r))
          then Some EtcFailed else None)"

definition mint_session :: "'h t2_host \<Rightarrow> t2_spec \<Rightarrow> (t2_error, string option) result" where
  "mint_session k s =
     (if is_swamp_capable (ts_egress s) then
        (case th_urandom k of None \<Rightarrow> Inl EntropyFailed | Some b \<Rightarrow> Inr (Some (hex b)))
      else Inr None)"

definition t2_net :: "t2_spec \<Rightarrow> sandbox_net option" where
  "t2_net s = (if ts_egress s = [] then None else Some (for_id (ts_id s)))"

record t2_ready =
  ty_resolved :: "resolved_egress option"
  ty_session :: "string option"
  ty_config :: string

definition write_config ::
  "'h t2_host \<Rightarrow> t2_spec \<Rightarrow> grant_mount list \<Rightarrow> resolved_egress option \<Rightarrow> (t2_error, t2_ready) result" where
  "write_config k s grants r =
     rbind (mint_session k s) (\<lambda>session.
       let config = build_config_json s grants (run_rootfs s) (map_option ns_path (t2_net s)) session
       in if \<not> th_write k (path_join (path_join (work_dir s) ''bundle'') ''config.json'') config then Inl ConfigFailed
          else if \<not> th_cgroup k (leaf_name s) (ts_mem_max s) (ts_pids_max s) then Inl CgroupFailed
          else Inr \<lparr>ty_resolved = r, ty_session = session, ty_config = config\<rparr>)"

text \<open>Everything up to the control group; an error leaves the mounts made so far.\<close>

definition prepare :: "'h t2_host \<Rightarrow> t2_spec \<Rightarrow> mounts \<Rightarrow> (t2_error, t2_ready) result \<times> mounts" where
  "prepare k s ms =
     (if \<not> (th_mkdir k (path_join (work_dir s) ''bundle'') \<and> th_mkdir k (path_join (work_dir s) ''state''))
      then (Inl WorkDirFailed, ms)
      else if \<not> th_private k then (Inl PrivateNsFailed, ms)
      else
        case place_writable k s ms of
          (Inl e, ms1) \<Rightarrow> (Inl e, ms1)
        | (Inr writable, ms1) \<Rightarrow>
            (case stage_rootfs k s ms1 of
               (Some e, ms2) \<Rightarrow> (Inl e, ms2)
             | (None, ms2) \<Rightarrow>
                 (rbind (resolve_egress k s) (\<lambda>r.
                    case hosts_error k s r of
                      Some e \<Rightarrow> Inl e
                    | None \<Rightarrow> write_config k s (ro_mounts s @ writable) r), ms2)))"

section \<open>The network and the identity\<close>

definition drop_net :: "'h t2_host \<Rightarrow> t2_spec \<Rightarrow> 'h t2_world \<Rightarrow> 'h t2_world" where
  "drop_net k s w =
     (case t2_net s of None \<Rightarrow> w | Some n \<Rightarrow> w\<lparr>tw_net := net_teardown (th_net k) n (tw_net w)\<rparr>)"

definition abort :: "'h t2_host \<Rightarrow> t2_spec \<Rightarrow> 'h t2_world \<Rightarrow> 'h t2_world" where
  "abort k s w = remove_tree k (work_dir s) (drop_leaf s (drop_net k s w))"

definition bring_up ::
  "'h t2_host \<Rightarrow> t2_spec \<Rightarrow> resolved_egress option \<Rightarrow> 'h t2_world \<Rightarrow> t2_error option \<times> 'h t2_world" where
  "bring_up k s r w =
     (case (t2_net s, r) of
        (Some n, Some r) \<Rightarrow>
          (let w1 = drop_net k s w;
               (ok, h) = create_and_inject (th_net k) n (re_endpoints r) (no_masquerade_ips r) (tw_net w1);
               w2 = w1\<lparr>tw_net := h\<rparr>
           in if ok then (None, w2) else (Some EgressSetupFailed, abort k s w2))
      | _ \<Rightarrow> (None, w))"

definition grant_paths :: "t2_spec \<Rightarrow> string list" where
  "grant_paths s =
     map (path_join (ts_anchor s))
       (case_option [] (\<lambda>n. [n]) (ts_rw_grant s) @ case_option [] (\<lambda>n. [n]) (ts_build_grant s) @ ts_grants s)"

definition kept :: "dir \<Rightarrow> (io_error, dir) result \<Rightarrow> dir" where
  "kept d r = (case r of Inl _ \<Rightarrow> d | Inr d' \<Rightarrow> d')"

definition drop_authority :: "string \<Rightarrow> 'h t2_world \<Rightarrow> 'h t2_world" where
  "drop_authority h w = w\<lparr>tw_authority := kept (tw_authority w) (authority_remove (tw_authority w) h)\<rparr>"

definition commit_identity ::
  "'h t2_host \<Rightarrow> t2_spec \<Rightarrow> string option \<Rightarrow> 'h t2_world \<Rightarrow> t2_error option \<times> 'h t2_world" where
  "commit_identity k s session w =
     (case (session, t2_net s) of
        (Some h, Some n) \<Rightarrow>
          (case authority_write (th_real k) (tw_authority w) h (grant_paths s) of
             Inl e \<Rightarrow> (Some (IdentityFailed e), abort k s (drop_authority h w))
           | Inr a \<Rightarrow>
               (let w1 = w\<lparr>tw_authority := a\<rparr>
                in case net_write_binding (tw_bindings w1) (sn_cont_ip n) h of
                     Inl e \<Rightarrow> (Some (IdentityFailed e), abort k s (drop_authority h w1))
                   | Inr b \<Rightarrow> (None, w1\<lparr>tw_bindings := b\<rparr>)))
      | _ \<Rightarrow> (None, w))"

definition show_view :: "'h t2_host \<Rightarrow> t2_spec \<Rightarrow> 'h t2_world \<Rightarrow> 'h t2_world" where
  "show_view k s w =
     (case ts_session_meta s of
        None \<Rightarrow> w
      | Some m \<Rightarrow>
          w\<lparr>tw_views := kept (tw_views w) (write_view (tw_views w) (build_session_view (th_real k) s m (grant_paths s)))\<rparr>)"

section \<open>The run and the teardown\<close>

definition t2_argv :: "'h t2_host \<Rightarrow> t2_spec \<Rightarrow> string list" where
  "t2_argv k s =
     [ts_runsc s, ''--root'', path_join (work_dir s) ''state'', ''--ignore-cgroups'',
      if t2_net s = None then ''--network=none'' else ''--network=sandbox'',
      ''--platform='' @ platform_flag (ts_platform s)]
     @ (if th_debug k then [''--debug'', ''--debug-log=/run/shrek-t2-debug/'' @ ts_id s @ ''/''] else [])
     @ [''run'', ''--bundle'', path_join (work_dir s) ''bundle'', ts_id s]"

definition run_sandbox :: "'h t2_host \<Rightarrow> t2_spec \<Rightarrow> t2_ready \<Rightarrow> 'h t2_world \<Rightarrow> (t2_error, int) result \<times> 'h t2_world" where
  "run_sandbox k s rd w =
     (case th_exit k (t2_argv k s) of
        None \<Rightarrow> (Inl RunscFailed, w)
      | Some st \<Rightarrow>
          (Inr (case st of Exited c \<Rightarrow> c | Signalled n \<Rightarrow> 128 + n),
           w\<lparr>tw_runs := tw_runs w @
              [\<lparr>tr_argv = t2_argv k s, tr_config = ty_config rd,
                tr_hosts = map_option (etc_hosts \<circ> re_hosts) (ty_resolved rd), tr_net = tw_net w,
                tr_mounts = tw_mounts w, tr_authority = tw_authority w, tr_bindings = tw_bindings w\<rparr>]\<rparr>))"

definition detach :: "'h t2_host \<Rightarrow> string \<Rightarrow> 'h t2_world \<Rightarrow> 'h t2_world" where
  "detach k t w = w\<lparr>tw_mounts := umount_quietly (th_mount k) t (tw_mounts w)\<rparr>"

definition detach_all :: "'h t2_host \<Rightarrow> t2_spec \<Rightarrow> 'h t2_world \<Rightarrow> 'h t2_world" where
  "detach_all k s w =
     detach k (run_rootfs s)
       (case_option id (\<lambda>n. detach k (rw_target s n)) (ts_build_grant s)
         (case_option id (\<lambda>n. detach k (rw_target s n)) (ts_rw_grant s) w))"

definition drop_identity :: "t2_spec \<Rightarrow> string option \<Rightarrow> 'h t2_world \<Rightarrow> 'h t2_world" where
  "drop_identity s session w =
     (case session of
        None \<Rightarrow> w
      | Some h \<Rightarrow>
          drop_authority h
            (case t2_net s of
               None \<Rightarrow> w
             | Some n \<Rightarrow>
                 w\<lparr>tw_bindings := kept (tw_bindings w) (net_remove_binding (tw_bindings w) (sn_cont_ip n))\<rparr>))"

definition drop_view :: "t2_spec \<Rightarrow> 'h t2_world \<Rightarrow> 'h t2_world" where
  "drop_view s w =
     (if ts_session_meta s = None then w
      else w\<lparr>tw_views := kept (tw_views w) (remove_view (tw_views w) (ts_id s))\<rparr>)"

definition t2_teardown :: "'h t2_host \<Rightarrow> t2_spec \<Rightarrow> string option \<Rightarrow> 'h t2_world \<Rightarrow> 'h t2_world" where
  "t2_teardown k s session w =
     drop_net k s (drop_view s (drop_identity s session
       (drop_leaf s (remove_tree k (work_dir s) (detach_all k s w)))))"

definition with_leaf :: "t2_spec \<Rightarrow> 'h t2_world \<Rightarrow> 'h t2_world" where
  "with_leaf s w = w\<lparr>tw_cgroups := tw_cgroups w @ [leaf_name s]\<rparr>"

definition construct_t2 :: "'h t2_host \<Rightarrow> t2_spec \<Rightarrow> 'h t2_world \<Rightarrow> (t2_error, int) result \<times> 'h t2_world" where
  "construct_t2 k s w =
     (case spec_error (th_is_file k) (th_is_dir k) s of
        Some e \<Rightarrow> (Inl e, w)
      | None \<Rightarrow>
          (let w0 = remove_tree k (work_dir s) w
           in case prepare k s (tw_mounts w0) of
                (Inl e, ms) \<Rightarrow> (Inl e, w0\<lparr>tw_mounts := ms\<rparr>)
              | (Inr rd, ms) \<Rightarrow>
                  (case bring_up k s (ty_resolved rd) (with_leaf s (w0\<lparr>tw_mounts := ms\<rparr>)) of
                     (Some e, w1) \<Rightarrow> (Inl e, w1)
                   | (None, w1) \<Rightarrow>
                       (case commit_identity k s (ty_session rd) w1 of
                          (Some e, w2) \<Rightarrow> (Inl e, w2)
                        | (None, w2) \<Rightarrow>
                            (let (r, w3) = run_sandbox k s rd (show_view k s w2)
                             in (r, t2_teardown k s (ty_session rd) w3))))))"

end
