(* ===== verification/T2_Safety.thy ===== *)
theory T2_Safety
  imports T2_Plane Swamp_Sandbox
begin

text \<open>
  What the constructor of a gVisor sandbox promises: what a sandbox runs with, what is left when the
  constructor returns, and where a failure destroys what it was only to mount.
\<close>

section \<open>The steps that leave a part of the world alone\<close>

lemma remove_tree_frame [simp]:
  "tw_net (remove_tree k p w) = tw_net w" "tw_mounts (remove_tree k p w) = tw_mounts w"
  "tw_authority (remove_tree k p w) = tw_authority w" "tw_bindings (remove_tree k p w) = tw_bindings w"
  "tw_views (remove_tree k p w) = tw_views w" "tw_cgroups (remove_tree k p w) = tw_cgroups w"
  "tw_runs (remove_tree k p w) = tw_runs w" "tw_removed (remove_tree k p w) = tw_removed w @ [p]"
  "tw_emptied (remove_tree k p w) = tw_emptied w @ emptied_by k p (tw_mounts w)"
  by (simp_all add: remove_tree_def)

lemma drop_leaf_frame [simp]:
  "tw_net (drop_leaf s w) = tw_net w" "tw_mounts (drop_leaf s w) = tw_mounts w"
  "tw_authority (drop_leaf s w) = tw_authority w" "tw_bindings (drop_leaf s w) = tw_bindings w"
  "tw_runs (drop_leaf s w) = tw_runs w" "tw_emptied (drop_leaf s w) = tw_emptied w"
  "tw_cgroups (drop_leaf s w) = filter (\<lambda>c. c \<noteq> leaf_name s) (tw_cgroups w)"
  by (simp_all add: drop_leaf_def)

lemma drop_net_frame [simp]:
  "tw_mounts (drop_net k s w) = tw_mounts w" "tw_authority (drop_net k s w) = tw_authority w"
  "tw_bindings (drop_net k s w) = tw_bindings w" "tw_runs (drop_net k s w) = tw_runs w"
  "tw_cgroups (drop_net k s w) = tw_cgroups w" "tw_emptied (drop_net k s w) = tw_emptied w"
  "tw_net (drop_net k s w) =
     (case t2_net s of None \<Rightarrow> tw_net w | Some n \<Rightarrow> net_teardown (th_net k) n (tw_net w))"
  by (simp_all add: drop_net_def split: option.split)

lemma drop_authority_frame [simp]:
  "tw_net (drop_authority h w) = tw_net w" "tw_mounts (drop_authority h w) = tw_mounts w"
  "tw_bindings (drop_authority h w) = tw_bindings w" "tw_runs (drop_authority h w) = tw_runs w"
  "tw_cgroups (drop_authority h w) = tw_cgroups w" "tw_emptied (drop_authority h w) = tw_emptied w"
  "tw_authority (drop_authority h w) = kept (tw_authority w) (authority_remove (tw_authority w) h)"
  by (simp_all add: drop_authority_def)

lemma detach_frame [simp]:
  "tw_net (detach k t w) = tw_net w" "tw_authority (detach k t w) = tw_authority w"
  "tw_bindings (detach k t w) = tw_bindings w" "tw_runs (detach k t w) = tw_runs w"
  "tw_cgroups (detach k t w) = tw_cgroups w" "tw_emptied (detach k t w) = tw_emptied w"
  "tw_mounts (detach k t w) = umount_quietly (th_mount k) t (tw_mounts w)"
  by (simp_all add: detach_def)

lemma detach_all_frame [simp]:
  "tw_net (detach_all k s w) = tw_net w" "tw_authority (detach_all k s w) = tw_authority w"
  "tw_bindings (detach_all k s w) = tw_bindings w" "tw_runs (detach_all k s w) = tw_runs w"
  "tw_cgroups (detach_all k s w) = tw_cgroups w" "tw_emptied (detach_all k s w) = tw_emptied w"
  by (simp_all add: detach_all_def split: option.split)

lemma drop_view_frame [simp]:
  "tw_net (drop_view s w) = tw_net w" "tw_mounts (drop_view s w) = tw_mounts w"
  "tw_authority (drop_view s w) = tw_authority w" "tw_bindings (drop_view s w) = tw_bindings w"
  "tw_runs (drop_view s w) = tw_runs w" "tw_cgroups (drop_view s w) = tw_cgroups w"
  "tw_emptied (drop_view s w) = tw_emptied w"
  by (simp_all add: drop_view_def)

lemma show_view_frame [simp]:
  "tw_net (show_view k s w) = tw_net w" "tw_mounts (show_view k s w) = tw_mounts w"
  "tw_authority (show_view k s w) = tw_authority w" "tw_bindings (show_view k s w) = tw_bindings w"
  "tw_runs (show_view k s w) = tw_runs w" "tw_cgroups (show_view k s w) = tw_cgroups w"
  "tw_emptied (show_view k s w) = tw_emptied w"
  by (simp_all add: show_view_def split: option.split)

lemma drop_identity_frame [simp]:
  "tw_net (drop_identity s h w) = tw_net w" "tw_mounts (drop_identity s h w) = tw_mounts w"
  "tw_runs (drop_identity s h w) = tw_runs w" "tw_cgroups (drop_identity s h w) = tw_cgroups w"
  "tw_emptied (drop_identity s h w) = tw_emptied w"
  by (simp_all add: drop_identity_def split: option.split)

lemma with_leaf_frame [simp]:
  "tw_net (with_leaf s w) = tw_net w" "tw_mounts (with_leaf s w) = tw_mounts w"
  "tw_authority (with_leaf s w) = tw_authority w" "tw_bindings (with_leaf s w) = tw_bindings w"
  "tw_runs (with_leaf s w) = tw_runs w" "tw_emptied (with_leaf s w) = tw_emptied w"
  "tw_cgroups (with_leaf s w) = tw_cgroups w @ [leaf_name s]"
  by (simp_all add: with_leaf_def)

lemma abort_frame [simp]:
  "tw_mounts (abort k s w) = tw_mounts w" "tw_authority (abort k s w) = tw_authority w"
  "tw_bindings (abort k s w) = tw_bindings w" "tw_runs (abort k s w) = tw_runs w"
  "tw_cgroups (abort k s w) = filter (\<lambda>c. c \<noteq> leaf_name s) (tw_cgroups w)"
  "tw_net (abort k s w) = tw_net (drop_net k s w)"
  "tw_emptied (abort k s w) = tw_emptied w @ emptied_by k (work_dir s) (tw_mounts w)"
  by (simp_all add: abort_def)

lemma teardown_frame [simp]:
  "tw_runs (t2_teardown k s h w) = tw_runs w"
  "tw_net (t2_teardown k s h w) = tw_net (drop_net k s w)"
  "tw_mounts (t2_teardown k s h w) = tw_mounts (detach_all k s w)"
  "tw_cgroups (t2_teardown k s h w) = filter (\<lambda>c. c \<noteq> leaf_name s) (tw_cgroups w)"
  "tw_emptied (t2_teardown k s h w) = tw_emptied w @ emptied_by k (work_dir s) (tw_mounts (detach_all k s w))"
  by (simp_all add: t2_teardown_def split: option.split)

lemma run_sandbox_frame [simp]:
  "tw_net (snd (run_sandbox k s rd w)) = tw_net w" "tw_mounts (snd (run_sandbox k s rd w)) = tw_mounts w"
  "tw_authority (snd (run_sandbox k s rd w)) = tw_authority w" "tw_bindings (snd (run_sandbox k s rd w)) = tw_bindings w"
  "tw_cgroups (snd (run_sandbox k s rd w)) = tw_cgroups w" "tw_emptied (snd (run_sandbox k s rd w)) = tw_emptied w"
  by (simp_all add: run_sandbox_def split: option.split)

section \<open>The way to a run\<close>

text \<open>What \<open>bring_up\<close> and \<open>commit_identity\<close> did when they let the run start.\<close>

lemma bring_up_ok:
  assumes "bring_up k s r w = (None, w')" and "resolve_egress k s = Inr r"
  shows "\<exists>h. w' = w\<lparr>tw_net := h\<rparr>
    \<and> (if ts_egress s = [] then h = tw_net w
       else \<exists>res. r = Some res \<and> resolve_profiles_v4 (th_dot k) (th_projection k) (ts_egress s) = Some (Inr res)
          \<and> create_and_inject (th_net k) (for_id (ts_id s)) (re_endpoints res) (no_masquerade_ips res)
              (net_teardown (th_net k) (for_id (ts_id s)) (tw_net w)) = (True, h))"
  using assms
  by (auto simp: bring_up_def resolve_egress_def t2_net_def Let_def drop_net_def
      split: option.splits sum.splits prod.splits if_splits)

lemma commit_ok:
  assumes "commit_identity k s session w = (None, w')" and "t2_net s = None \<Longrightarrow> session = None"
  shows "\<exists>a b. w' = w\<lparr>tw_authority := a, tw_bindings := b\<rparr>
    \<and> (case session of
         None \<Rightarrow> a = tw_authority w \<and> b = tw_bindings w
       | Some h \<Rightarrow> authority_write (th_real k) (tw_authority w) h (grant_paths s) = Inr a
           \<and> net_write_binding (tw_bindings w) (sn_cont_ip (for_id (ts_id s))) h = Inr b)"
  using assms
  by (cases session; cases "t2_net s")
    (auto simp: commit_identity_def Let_def t2_net_def split: sum.splits if_splits)

definition started ::
  "'h t2_host \<Rightarrow> t2_spec \<Rightarrow> 'h t2_world \<Rightarrow> t2_ready \<Rightarrow> mounts \<Rightarrow> 'h t2_world \<Rightarrow> bool" where
  "started k s w rd ms w2 \<longleftrightarrow>
     spec_error (th_is_file k) (th_is_dir k) s = None
     \<and> prepare k s (tw_mounts w) = (Inr rd, ms)
     \<and> (\<exists>w1. bring_up k s (ty_resolved rd) (with_leaf s ((remove_tree k (work_dir s) w)\<lparr>tw_mounts := ms\<rparr>)) = (None, w1)
          \<and> commit_identity k s (ty_session rd) w1 = (None, w2))"

lemma bring_up_runs: "bring_up k s r w = (e, w') \<Longrightarrow> tw_runs w' = tw_runs w \<and> tw_mounts w' = tw_mounts w"
  by (auto simp: bring_up_def Let_def split: option.splits prod.splits if_splits)

lemma commit_runs: "commit_identity k s h w = (e, w') \<Longrightarrow> tw_runs w' = tw_runs w \<and> tw_mounts w' = tw_mounts w"
  by (auto simp: commit_identity_def Let_def split: option.splits sum.splits)

text \<open>The five ways the constructor ends.\<close>

lemma construct_cases:
  assumes "construct_t2 k s w = (r, w')"
  obtains (refused) "w' = w"
  | (unprepared) ms where "w' = (remove_tree k (work_dir s) w)\<lparr>tw_mounts := ms\<rparr>"
  | (no_net) rd ms e where "prepare k s (tw_mounts w) = (Inr rd, ms)"
      and "bring_up k s (ty_resolved rd) (with_leaf s ((remove_tree k (work_dir s) w)\<lparr>tw_mounts := ms\<rparr>)) = (Some e, w')"
  | (no_identity) rd ms w1 e where "prepare k s (tw_mounts w) = (Inr rd, ms)"
      and "bring_up k s (ty_resolved rd) (with_leaf s ((remove_tree k (work_dir s) w)\<lparr>tw_mounts := ms\<rparr>)) = (None, w1)"
      and "commit_identity k s (ty_session rd) w1 = (Some e, w')"
  | (ran) rd ms w2 where "started k s w rd ms w2"
      and "w' = t2_teardown k s (ty_session rd) (snd (run_sandbox k s rd (show_view k s w2)))"
proof (cases "spec_error (th_is_file k) (th_is_dir k) s")
  case (Some e)
  then show ?thesis using assms refused by (simp add: construct_t2_def)
next
  case None
  obtain res ms where p: "prepare k s (tw_mounts w) = (res, ms)" by (cases "prepare k s (tw_mounts w)") auto
  show ?thesis
  proof (cases res)
    case (Inl e)
    then show ?thesis using assms None p unprepared by (auto simp: construct_t2_def)
  next
    case (Inr rd)
    obtain e1 w1 where b: "bring_up k s (ty_resolved rd) (with_leaf s ((remove_tree k (work_dir s) w)\<lparr>tw_mounts := ms\<rparr>)) = (e1, w1)"
      by (metis surj_pair)
    show ?thesis
    proof (cases e1)
      case (Some e)
      then show ?thesis using assms None p b Inr no_net by (simp add: construct_t2_def)
    next
      case e1: None
      obtain e2 w2 where c: "commit_identity k s (ty_session rd) w1 = (e2, w2)" by (metis surj_pair)
      show ?thesis
      proof (cases e2)
        case (Some e)
        then show ?thesis using assms None p b c Inr e1 no_identity by (simp add: construct_t2_def)
      next
        case e2: None
        have "started k s w rd ms w2" using None p b c Inr e1 e2 by (auto simp: started_def)
        moreover have "w' = t2_teardown k s (ty_session rd) (snd (run_sandbox k s rd (show_view k s w2)))"
          using assms None p b c Inr e1 e2 by (auto simp: construct_t2_def split: prod.splits)
        ultimately show ?thesis by (rule ran)
      qed
    qed
  qed
qed

definition the_run :: "'h t2_host \<Rightarrow> t2_spec \<Rightarrow> t2_ready \<Rightarrow> mounts \<Rightarrow> 'h t2_world \<Rightarrow> 'h t2_run" where
  "the_run k s rd ms w =
     \<lparr>tr_argv = t2_argv k s, tr_config = ty_config rd,
      tr_hosts = map_option (etc_hosts \<circ> re_hosts) (ty_resolved rd), tr_net = tw_net w,
      tr_mounts = ms, tr_authority = tw_authority w, tr_bindings = tw_bindings w\<rparr>"

lemma started_frame:
  assumes "started k s w rd ms w2"
  shows "tw_runs w2 = tw_runs w" and "tw_mounts w2 = ms"
  using assms by (auto simp: started_def dest!: bring_up_runs commit_runs)

lemma construct_started:
  assumes c: "construct_t2 k s w = (r, w')" and d: "tw_runs w' \<noteq> tw_runs w"
  obtains rd ms w2 where "started k s w rd ms w2" and "tw_runs w' = tw_runs w @ [the_run k s rd ms w2]"
    and "w' = t2_teardown k s (ty_session rd) (snd (run_sandbox k s rd (show_view k s w2)))"
  using c
proof (cases rule: construct_cases)
  case (ran rd ms w2)
  have "tw_runs w' = tw_runs w @ [the_run k s rd ms w2]"
    using d started_frame [OF ran(1)] unfolding ran(2)
    by (auto simp: run_sandbox_def the_run_def split: option.splits)
  then show ?thesis using ran that by blast
qed (use d in \<open>auto dest!: bring_up_runs commit_runs\<close>)

section \<open>What a sandbox runs with\<close>

lemma prepare_ok:
  assumes "prepare k s ms = (Inr rd, ms')"
  obtains writable ms1 where "place_writable k s ms = (Inr writable, ms1)"
    and "stage_rootfs k s ms1 = (None, ms')" and "resolve_egress k s = Inr (ty_resolved rd)"
    and "mint_session k s = Inr (ty_session rd)"
    and "ty_config rd = build_config_json s (ro_mounts s @ writable) (run_rootfs s)
           (map_option ns_path (t2_net s)) (ty_session rd)"
  using assms
  by (auto simp: prepare_def write_config_def Let_def res_simps split: if_splits sum.splits option.splits prod.splits)

lemma minted_needs_net: "mint_session k s = Inr session \<Longrightarrow> t2_net s = None \<Longrightarrow> session = None"
  by (auto simp: mint_session_def t2_net_def is_swamp_capable_def split: if_splits option.splits)

text \<open>
  C8: a sandbox reaches the network only through the rules: without egress profiles it runs with
  \<open>--network=none\<close> and no network namespace in its configuration; with them it runs in the namespace of
  its id, after the stale one was torn down and the rules of exactly the addresses the sealed profiles
  resolve to were installed, and its hosts file names those.
\<close>

theorem network_only_behind_the_rules:
  assumes "construct_t2 k s w = (r, w')" and "tw_runs w' \<noteq> tw_runs w"
  shows "\<exists>run grants session. tw_runs w' = tw_runs w @ [run]
    \<and> tr_config run = build_config_json s grants (run_rootfs s) (map_option ns_path (t2_net s)) session
    \<and> (if ts_egress s = [] then ''--network=none'' \<in> set (tr_argv run) \<and> t2_net s = None \<and> tr_net run = tw_net w
       else ''--network=sandbox'' \<in> set (tr_argv run) \<and> t2_net s = Some (for_id (ts_id s))
        \<and> (\<exists>res. resolve_profiles_v4 (th_dot k) (th_projection k) (ts_egress s) = Some (Inr res)
            \<and> create_and_inject (th_net k) (for_id (ts_id s)) (re_endpoints res) (no_masquerade_ips res)
                (net_teardown (th_net k) (for_id (ts_id s)) (tw_net w)) = (True, tr_net run)
            \<and> tr_hosts run = Some (etc_hosts (re_hosts res))))"
proof -
  obtain rd ms w2 where st: "started k s w rd ms w2" and runs: "tw_runs w' = tw_runs w @ [the_run k s rd ms w2]"
    using construct_started [OF assms] by metis
  obtain w1 where p: "prepare k s (tw_mounts w) = (Inr rd, ms)"
    and b: "bring_up k s (ty_resolved rd) (with_leaf s ((remove_tree k (work_dir s) w)\<lparr>tw_mounts := ms\<rparr>)) = (None, w1)"
    and c: "commit_identity k s (ty_session rd) w1 = (None, w2)"
    using st by (auto simp: started_def)
  obtain writable where r: "resolve_egress k s = Inr (ty_resolved rd)" and m: "mint_session k s = Inr (ty_session rd)"
    and cfg: "ty_config rd = build_config_json s (ro_mounts s @ writable) (run_rootfs s)
           (map_option ns_path (t2_net s)) (ty_session rd)"
    using prepare_ok [OF p] by metis
  have "tw_net w2 = tw_net w1"
    using commit_ok [OF c minted_needs_net [OF m]] by auto
  then have net: "if ts_egress s = [] then tw_net w2 = tw_net w
       else \<exists>res. ty_resolved rd = Some res \<and> resolve_profiles_v4 (th_dot k) (th_projection k) (ts_egress s) = Some (Inr res)
          \<and> create_and_inject (th_net k) (for_id (ts_id s)) (re_endpoints res) (no_masquerade_ips res)
              (net_teardown (th_net k) (for_id (ts_id s)) (tw_net w)) = (True, tw_net w2)"
    using bring_up_ok [OF b r] by (auto split: if_splits)
  show ?thesis
  proof (intro exI conjI)
    show "tw_runs w' = tw_runs w @ [the_run k s rd ms w2]" by (rule runs)
    show "tr_config (the_run k s rd ms w2) = build_config_json s (ro_mounts s @ writable) (run_rootfs s)
           (map_option ns_path (t2_net s)) (ty_session rd)" by (simp add: the_run_def cfg)
  qed (use net in \<open>auto simp: the_run_def t2_argv_def t2_net_def split: if_splits\<close>)
qed

section \<open>The grants of a run\<close>

lemma rw_target_eq:
  "\<not> bad_name n \<Longrightarrow> rw_target s n = work_dir s @ (if str_ends_with (work_dir s) ''/'' then [] else ''/'') @ ''rwgrants/'' @ n"
proof -
  assume n: "\<not> bad_name n"
  have a: "\<not> path_absolute n" using n by (auto simp: path_absolute_def bad_name_def str_starts_with_iff)
  have r: "\<not> path_absolute ''rwgrants''" by (simp add: path_absolute_def str_starts_with_iff)
  define X where "X = path_join (work_dir s) ''rwgrants''"
  have X: "X = work_dir s @ (if str_ends_with (work_dir s) ''/'' then [] else ''/'') @ ''rwgrants''"
    using r by (simp add: X_def path_join_def work_dir_def)
  have "\<not> str_ends_with X ''/''"
    unfolding X str_ends_with_iff by (auto simp flip: append_assoc split: if_splits)
  then have "path_join X n = X @ ''/'' @ n" using a X by (auto simp: path_join_def)
  then show ?thesis unfolding rw_target_def X_def [symmetric] using X by simp
qed

lemma run_rootfs_eq:
  "run_rootfs s = work_dir s @ (if str_ends_with (work_dir s) ''/'' then [] else ''/'') @ ''rootfs''"
  by (simp add: run_rootfs_def path_join_def work_dir_def path_absolute_def str_starts_with_iff)

lemma targets_differ:
  "\<not> bad_name n \<Longrightarrow> run_rootfs s \<noteq> rw_target s n" "\<not> bad_name n \<Longrightarrow> rw_target s n \<noteq> run_rootfs s"
  "\<not> bad_name n \<Longrightarrow> \<not> bad_name m \<Longrightarrow> rw_target s n = rw_target s m \<longleftrightarrow> n = m"
  by (auto simp: rw_target_eq run_rootfs_eq)

definition rw_mount :: "t2_spec \<Rightarrow> mount_flags \<Rightarrow> string \<Rightarrow> pinned \<Rightarrow> mount_entry" where
  "rw_mount s fl n p = \<lparr>me_target = rw_target s n, me_source = pi_ident p, me_flags = fl\<rparr>"

text \<open>The mounts of an optional writable grant: none, or one of what the kernel pinned under its name.\<close>

definition pinned_mounts :: "'h t2_host \<Rightarrow> t2_spec \<Rightarrow> mount_flags \<Rightarrow> string option \<Rightarrow> mounts \<Rightarrow> bool" where
  "pinned_mounts k s fl g ms \<longleftrightarrow>
     (case g of None \<Rightarrow> ms = [] | Some n \<Rightarrow> (\<exists>p. pin_beneath (th_mount k) n = Some p \<and> ms = [rw_mount s fl n p]))"

definition writable_mounts :: "t2_spec \<Rightarrow> grant_mount list" where
  "writable_mounts s =
     map (\<lambda>n. \<lparr>gm_name = n, gm_source = rw_target s n, gm_rw = True\<rparr>)
       (case_option [] (\<lambda>n. [n]) (ts_rw_grant s) @ case_option [] (\<lambda>n. [n]) (ts_build_grant s))"

lemma relocate_rw_ok:
  "relocate_rw k p t ms = (None, ms') \<Longrightarrow> ms' = \<lparr>me_target = t, me_source = pi_ident p, me_flags = rw_noexec\<rparr> # ms"
  "relocate_rw_exec k p t ms = (None, ms') \<Longrightarrow> ms' = \<lparr>me_target = t, me_source = pi_ident p, me_flags = rw_exec\<rparr> # ms"
  by (auto simp: relocate_defs split: if_splits dest!: relocate_with_ok)

lemma place_grant_ok:
  "place_grant relocate_rw k s g ms = (Inr gs, ms')
   \<Longrightarrow> \<exists>ps. ms' = ps @ ms \<and> pinned_mounts k s rw_noexec g ps
     \<and> gs = map (\<lambda>n. \<lparr>gm_name = n, gm_source = rw_target s n, gm_rw = True\<rparr>) (case_option [] (\<lambda>n. [n]) g)"
  "place_grant relocate_rw_exec k s g ms = (Inr gs, ms')
   \<Longrightarrow> \<exists>ps. ms' = ps @ ms \<and> pinned_mounts k s rw_exec g ps
     \<and> gs = map (\<lambda>n. \<lparr>gm_name = n, gm_source = rw_target s n, gm_rw = True\<rparr>) (case_option [] (\<lambda>n. [n]) g)"
  by (auto simp: place_grant_def pinned_mounts_def rw_mount_def split: option.splits prod.splits dest!: relocate_rw_ok)

lemma place_writable_ok:
  assumes "place_writable k s ms = (Inr gs, ms')"
  shows "gs = writable_mounts s \<and> (\<exists>ps bs. pinned_mounts k s rw_noexec (ts_rw_grant s) ps
    \<and> pinned_mounts k s rw_exec (ts_build_grant s) bs \<and> ms' = bs @ ps @ ms)"
  using assms
  by (auto simp: place_writable_def writable_mounts_def pinned_mounts_def split: if_splits sum.splits prod.splits
      dest!: place_grant_ok)

lemma prepared_mounts:
  assumes "prepare k s ms = (Inr rd, ms')"
  obtains ps bs i where "pinned_mounts k s rw_noexec (ts_rw_grant s) ps"
    and "pinned_mounts k s rw_exec (ts_build_grant s) bs"
    and "ms' = \<lparr>me_target = run_rootfs s, me_source = i, me_flags = tmpfs_flags\<rparr> # bs @ ps @ ms"
    and "ty_config rd = build_config_json s (ro_mounts s @ writable_mounts s) (run_rootfs s)
           (map_option ns_path (t2_net s)) (ty_session rd)"
proof -
  obtain writable ms1 where p: "place_writable k s ms = (Inr writable, ms1)"
    and st: "stage_rootfs k s ms1 = (None, ms')"
    and cfg: "ty_config rd = build_config_json s (ro_mounts s @ writable) (run_rootfs s)
           (map_option ns_path (t2_net s)) (ty_session rd)"
    using prepare_ok [OF assms] by metis
  obtain i where "ms' = \<lparr>me_target = run_rootfs s, me_source = i, me_flags = tmpfs_flags\<rparr> # ms1"
    using st by (auto simp: stage_rootfs_def Let_def split: option.splits if_splits)
  then show ?thesis using place_writable_ok [OF p] cfg that by auto
qed

text \<open>
  the writable part of a run is what was pinned: the mounts of its namespace are the staged root, and
  for the project and the build area, where the request has them, one mount each of the object the kernel
  pinned beneath the anchor; only the build area can be executed from, and the configuration lists the
  read-only grants and these, and nothing else.
\<close>

theorem writable_grants_are_pinned:
  assumes "construct_t2 k s w = (r, w')" and "tw_runs w' \<noteq> tw_runs w"
  shows "\<exists>run ps bs i session. tw_runs w' = tw_runs w @ [run]
    \<and> pinned_mounts k s rw_noexec (ts_rw_grant s) ps \<and> pinned_mounts k s rw_exec (ts_build_grant s) bs
    \<and> tr_mounts run = \<lparr>me_target = run_rootfs s, me_source = i, me_flags = tmpfs_flags\<rparr> # bs @ ps @ tw_mounts w
    \<and> tr_config run = build_config_json s (ro_mounts s @ writable_mounts s) (run_rootfs s)
        (map_option ns_path (t2_net s)) session"
proof -
  obtain rd ms w2 where st: "started k s w rd ms w2" and runs: "tw_runs w' = tw_runs w @ [the_run k s rd ms w2]"
    using construct_started [OF assms] by metis
  then have "prepare k s (tw_mounts w) = (Inr rd, ms)" by (simp add: started_def)
  then obtain ps bs i where "pinned_mounts k s rw_noexec (ts_rw_grant s) ps"
    "pinned_mounts k s rw_exec (ts_build_grant s) bs"
    "ms = \<lparr>me_target = run_rootfs s, me_source = i, me_flags = tmpfs_flags\<rparr> # bs @ ps @ tw_mounts w"
    "ty_config rd = build_config_json s (ro_mounts s @ writable_mounts s) (run_rootfs s)
           (map_option ns_path (t2_net s)) (ty_session rd)"
    by (rule prepared_mounts)
  then show ?thesis using runs unfolding the_run_def by (intro exI conjI) auto
qed

section \<open>The configuration\<close>

definition mount_key :: "grant_mount \<Rightarrow> string \<times> string \<times> bool" where
  "mount_key g = (gm_name g, utf8_lossy (gm_source g), gm_rw g)"

lemma mount_json_inject: "mount_json g @ r = mount_json h @ r' \<longleftrightarrow> mount_key g = mount_key h \<and> r = r'"
  by (auto simp: mount_json_def mount_key_def jstr_inject quote_def split: if_splits)

lemma mount_json_inj: "mount_json g = mount_json h \<longleftrightarrow> mount_key g = mount_key h"
  using mount_json_inject [of g "[]" h "[]"] by simp

lemma map_eq_all2: "map f xs = map f ys \<longleftrightarrow> list_all2 (\<lambda>x y. f x = f y) xs ys"
  by (auto simp: list_all2_conv_all_nth list_eq_iff_nth_eq)

lemma mounts_json_inj: "map mount_json xs = map mount_json ys \<longleftrightarrow> map mount_key xs = map mount_key ys"
  by (simp only: map_eq_all2 mount_json_inj)

lemma mount_json_head: "\<exists>c t. mount_json g = c # t \<and> c \<noteq> CHR '']''"
  by (simp add: mount_json_def)

lemmas mounts_inject = joined_inject [of mount_json mount_key "[]", OF mount_json_inject mount_json_head, simplified]

lemma env_inject: "env_json h @ CHR '']'' # r = env_json i @ CHR '']'' # r' \<longleftrightarrow> h = i \<and> r = r'"
  by (auto simp: env_json_def quote_def split: option.split)

lemma namespaces_inject: "namespaces_json p @ CHR '']'' # r = namespaces_json q @ CHR '']'' # r' \<longleftrightarrow> p = q \<and> r = r'"
  by (auto simp: namespaces_json_def jstr_inject split: option.split)

lemma namespaces_inj [simp]: "namespaces_json p = namespaces_json q \<longleftrightarrow> p = q"
  using namespaces_inject [of p "[]" q "[]"] by simp

text \<open>
  C30: the configuration is exact: two configurations are the same text only if they have the same
  arguments, the same mounts with the same modes, the same root, network namespace and session; no
  argument, path or name can be written so that it reads as another field.
\<close>

theorem config_is_exact:
  "build_config_json s g root p h = build_config_json s' g' root' p' h' \<longleftrightarrow>
     ts_workload s = ts_workload s' \<and> map mount_key g = map mount_key g'
     \<and> utf8_lossy root = utf8_lossy root' \<and> p = p' \<and> h = h'"
proof
  assume "build_config_json s g root p h = build_config_json s' g' root' p' h'"
  then show "ts_workload s = ts_workload s' \<and> map mount_key g = map mount_key g'
     \<and> utf8_lossy root = utf8_lossy root' \<and> p = p' \<and> h = h'"
    by (simp add: build_config_json_def literals_inject mounts_inject env_inject namespaces_inject jstr_inject)
next
  assume "ts_workload s = ts_workload s' \<and> map mount_key g = map mount_key g'
     \<and> utf8_lossy root = utf8_lossy root' \<and> p = p' \<and> h = h'"
  moreover from this have "map mount_json g = map mount_json g'" by (simp only: mounts_json_inj)
  ultimately show "build_config_json s g root p h = build_config_json s' g' root' p' h'"
    by (simp add: build_config_json_def)
qed

section \<open>The identity of a session\<close>

lemma remove_after_write:
  assumes "atomic_write d leaf body = Inr d'"
  shows "dir_content (kept d' (remove_if_present d' leaf)) n = (if n = leaf then None else dir_content d n)"
proof -
  have "\<not> d_refuse d leaf" and "d_refuse d' = d_refuse d"
    using assms by (auto simp only: atomic_write_Inr write_refuse)
  then have "\<exists>d''. remove_if_present d' leaf = Inr d''"
    unfolding remove_if_present_def by simp
  then obtain d'' where r: "remove_if_present d' leaf = Inr d''" ..
  have "dir_content (kept d' (remove_if_present d' leaf)) n = dir_content d'' n" by (simp add: r kept_def)
  also have "\<dots> = (if n = leaf then None else dir_content d n)"
    unfolding dir_content_remove [OF r] dir_content_write [OF assms] by simp
  finally show ?thesis .
qed

lemma remove_if_present_content:
  "dir_content (kept d (remove_if_present d leaf)) n \<in> {None, dir_content d n}"
  by (cases "remove_if_present d leaf") (simp_all add: kept_def dir_content_remove)

lemma authority_write_atomic:
  "authority_write real d h gs = Inr d' \<Longrightarrow> valid_session_id h \<and> (\<exists>body. atomic_write d h body = Inr d')"
  by (auto simp: authority_write_def split: if_splits option.splits)

lemma binding_write_atomic:
  "net_write_binding d ip h = Inr d' \<Longrightarrow> \<exists>body. atomic_write d (ipv4_show ip) body = Inr d'"
  by (auto simp: net_write_binding_def split: if_splits)

lemma no_content_no_binding: "dir_content d (ipv4_show ip) = None \<Longrightarrow> load_binding d ip = None"
  by (simp add: load_binding_def read_to_string_def)


lemma bring_up_authority:
  "bring_up k s r w = (e, w1) \<Longrightarrow> tw_authority w1 = tw_authority w \<and> tw_bindings w1 = tw_bindings w"
  by (auto simp: bring_up_def Let_def split: option.splits prod.splits if_splits)

lemma authority_remove_content: "dir_content (kept d (authority_remove d h)) n \<in> {None, dir_content d n}"
  by (cases "valid_session_id h") (simp_all only: authority_remove_def if_True if_False remove_if_present_content, simp add: kept_def)

lemma authority_undo_content:
  "authority_write real d h gs = Inr d' \<Longrightarrow> dir_content (kept d' (authority_remove d' h)) n \<in> {None, dir_content d n}"
  by (auto simp: authority_remove_def remove_after_write dest!: authority_write_atomic)

lemma binding_undo_content:
  "net_write_binding d ip h = Inr d' \<Longrightarrow> dir_content (kept d' (net_remove_binding d' ip)) n \<in> {None, dir_content d n}"
  by (auto simp: net_remove_binding_def remove_after_write dest!: binding_write_atomic)

lemma commit_failed:
  assumes "commit_identity k s h w = (Some e, w')"
  shows "dir_content (tw_authority w') n \<in> {None, dir_content (tw_authority w) n} \<and> tw_bindings w' = tw_bindings w"
proof -
  obtain i net where h: "h = Some i" and net: "t2_net s = Some net"
    using assms by (auto simp: commit_identity_def split: option.splits)
  show ?thesis
  proof (cases "authority_write (th_real k) (tw_authority w) i (grant_paths s)")
    case (Inl e')
    then have "tw_authority w' = kept (tw_authority w) (authority_remove (tw_authority w) i) \<and> tw_bindings w' = tw_bindings w"
      using assms by (auto simp: commit_identity_def h net)
    then show ?thesis using authority_remove_content by simp
  next
    case (Inr a)
    then have "tw_authority w' = kept a (authority_remove a i) \<and> tw_bindings w' = tw_bindings w"
      using assms by (auto simp: commit_identity_def h net Let_def split: sum.splits)
    then show ?thesis using authority_undo_content [OF Inr] by simp
  qed
qed

lemma ran_identity:
  assumes "started k s w rd ms w2" and w': "w' = t2_teardown k s (ty_session rd) (snd (run_sandbox k s rd (show_view k s w2)))"
  shows "dir_content (tw_authority w') n \<in> {None, dir_content (tw_authority w) n}
    \<and> dir_content (tw_bindings w') n \<in> {None, dir_content (tw_bindings w) n}"
proof -
  obtain w1 where p: "prepare k s (tw_mounts w) = (Inr rd, ms)"
    and b: "bring_up k s (ty_resolved rd) (with_leaf s ((remove_tree k (work_dir s) w)\<lparr>tw_mounts := ms\<rparr>)) = (None, w1)"
    and c: "commit_identity k s (ty_session rd) w1 = (None, w2)"
    using assms by (auto simp: started_def)
  have m: "mint_session k s = Inr (ty_session rd)" by (rule prepare_ok [OF p]) simp
  have w1: "tw_authority w1 = tw_authority w" "tw_bindings w1 = tw_bindings w"
    using bring_up_authority [OF b] by simp_all
  have frame: "tw_authority (snd (run_sandbox k s rd (show_view k s w2))) = tw_authority w2"
    "tw_bindings (snd (run_sandbox k s rd (show_view k s w2))) = tw_bindings w2"
    by (simp_all add: run_sandbox_def split: option.split)
  show ?thesis
  proof (cases "ty_session rd")
    case None
    then show ?thesis
      using commit_ok [OF c minted_needs_net [OF m]] by (auto simp: w' w1 t2_teardown_def drop_identity_def)
  next
    case (Some h)
    then have net: "t2_net s = Some (for_id (ts_id s))" using minted_needs_net [OF m] by (auto simp: t2_net_def)
    obtain a d where w2: "w2 = w1\<lparr>tw_authority := a, tw_bindings := d\<rparr>"
      and aw: "authority_write (th_real k) (tw_authority w1) h (grant_paths s) = Inr a"
      and bw: "net_write_binding (tw_bindings w1) (sn_cont_ip (for_id (ts_id s))) h = Inr d"
      using commit_ok [OF c minted_needs_net [OF m]] by (auto simp: Some)
    have "tw_authority w' = kept a (authority_remove a h)"
      "tw_bindings w' = kept d (net_remove_binding d (sn_cont_ip (for_id (ts_id s))))"
      by (simp_all add: w' t2_teardown_def drop_identity_def Some net frame w2)
    then show ?thesis
      using authority_undo_content [OF aw, of n] binding_undo_content [OF bw, of n] by (simp add: w1)
  qed
qed

lemma started_net:
  assumes "started k s w rd ms w2"
  shows "tw_net (t2_teardown k s h (snd (run_sandbox k s rd (show_view k s w2))))
    \<in> insert (tw_net w) (range (net_teardown (th_net k) (for_id (ts_id s))))"
proof -
  obtain w1 where p: "prepare k s (tw_mounts w) = (Inr rd, ms)"
    and b: "bring_up k s (ty_resolved rd) (with_leaf s ((remove_tree k (work_dir s) w)\<lparr>tw_mounts := ms\<rparr>)) = (None, w1)"
    and c: "commit_identity k s (ty_session rd) w1 = (None, w2)"
    using assms by (auto simp: started_def)
  have r: "resolve_egress k s = Inr (ty_resolved rd)" and m: "mint_session k s = Inr (ty_session rd)"
    by (rule prepare_ok [OF p]; simp)+
  have "tw_net w2 = tw_net w1" using commit_ok [OF c minted_needs_net [OF m]] by auto
  moreover have "tw_net (snd (run_sandbox k s rd (show_view k s w2))) = tw_net w2"
    by (simp add: run_sandbox_def split: option.split)
  ultimately show ?thesis
    using bring_up_ok [OF b r] by (auto simp: t2_net_def split: if_splits)
qed


section \<open>What a removal reaches\<close>

lemma unmount_all:
  assumes "pinned_mounts k s fl1 g1 ps" and "pinned_mounts k s fl2 g2 bs" and "pred_option (\<lambda>n. \<not> bad_name n) g1"
    and "pred_option (\<lambda>n. \<not> bad_name n) g2" and "g1 \<noteq> g2 \<or> g1 = None"
  shows "unmount_top (run_rootfs s)
     (case_option id (\<lambda>n. unmount_top (rw_target s n)) g2
       (case_option id (\<lambda>n. unmount_top (rw_target s n)) g1
         (\<lparr>me_target = run_rootfs s, me_source = i, me_flags = fl\<rparr> # bs @ ps @ ms))) = ms"
  using assms
  by (cases g1; cases g2) (auto simp: pinned_mounts_def rw_mount_def targets_differ)

lemma spec_ok:
  assumes "spec_error f d s = None"
  shows "pred_option (\<lambda>n. \<not> bad_name n) (ts_rw_grant s)" "pred_option (\<lambda>n. \<not> bad_name n) (ts_build_grant s)"
    "ts_rw_grant s \<noteq> ts_build_grant s \<or> ts_rw_grant s = None"
  using assms
  by (auto simp: spec_error_def writable_error_def split: list.splits if_splits option.splits)

lemma detach_all_mounts:
  assumes "\<And>t. mk_umount (th_mount k) t"
  shows "tw_mounts (detach_all k s w) = unmount_top (run_rootfs s)
     (case_option id (\<lambda>n. unmount_top (rw_target s n)) (ts_build_grant s)
       (case_option id (\<lambda>n. unmount_top (rw_target s n)) (ts_rw_grant s) (tw_mounts w)))"
  using assms by (simp add: detach_all_def umount_quietly_def split: option.split)

lemma bring_up_emptied: "bring_up k s r w = (None, w1) \<Longrightarrow> tw_emptied w1 = tw_emptied w"
  by (auto simp: bring_up_def Let_def split: option.splits prod.splits if_splits)

lemma commit_emptied: "commit_identity k s h w = (None, w1) \<Longrightarrow> tw_emptied w1 = tw_emptied w"
  by (auto simp: commit_identity_def Let_def split: option.splits sum.splits)

text \<open>
  a session that ran is cleaned up without touching what it was granted: started in a namespace
  without mounts of its own, when every detach succeeds, no removal deletes anything through a mount and
  no mount is left.
\<close>

theorem finished_run_spares_the_grants:
  assumes "construct_t2 k s w = (r, w')" and "tw_runs w' \<noteq> tw_runs w" and "tw_mounts w = []"
    and "\<And>t. mk_umount (th_mount k) t"
  shows "tw_emptied w' = tw_emptied w \<and> tw_mounts w' = []"
proof -
  obtain rd ms w2 where st: "started k s w rd ms w2"
    and w': "w' = t2_teardown k s (ty_session rd) (snd (run_sandbox k s rd (show_view k s w2)))"
    using construct_started [OF assms(1,2)] by metis
  obtain w1 where sp: "spec_error (th_is_file k) (th_is_dir k) s = None" and p: "prepare k s (tw_mounts w) = (Inr rd, ms)"
    and b: "bring_up k s (ty_resolved rd) (with_leaf s ((remove_tree k (work_dir s) w)\<lparr>tw_mounts := ms\<rparr>)) = (None, w1)"
    and c: "commit_identity k s (ty_session rd) w1 = (None, w2)"
    using st by (auto simp: started_def)
  obtain ps bs i where ps: "pinned_mounts k s rw_noexec (ts_rw_grant s) ps" and bs: "pinned_mounts k s rw_exec (ts_build_grant s) bs"
    and ms: "ms = \<lparr>me_target = run_rootfs s, me_source = i, me_flags = tmpfs_flags\<rparr> # bs @ ps @ tw_mounts w"
    by (rule prepared_mounts [OF p])
  have "tw_mounts (detach_all k s (snd (run_sandbox k s rd (show_view k s w2)))) = []"
    using unmount_all [OF ps bs spec_ok [OF sp], of i tmpfs_flags "[]"]
    unfolding detach_all_mounts [OF assms(4)] run_sandbox_frame show_view_frame started_frame(2) [OF st] ms assms(3)
    by (simp only:)
  moreover have none: "emptied_by k path [] = []" for path
    by (simp add: emptied_by_def mount_at_def split: option.split)
  ultimately show ?thesis
    using bring_up_emptied [OF b] commit_emptied [OF c] by (simp add: w' assms(3) none)
qed

lemma early_errors:
  "place_writable k s ms = (Inl e, ms1) \<Longrightarrow> e \<noteq> EgressSetupFailed"
  "stage_rootfs k s ms = (Some e, ms1) \<Longrightarrow> e \<noteq> EgressSetupFailed"
  "resolve_egress k s = Inl e \<Longrightarrow> e \<noteq> EgressSetupFailed"
  "hosts_error k s r = Some e \<Longrightarrow> e \<noteq> EgressSetupFailed"
  "write_config k s g r = Inl e \<Longrightarrow> e \<noteq> EgressSetupFailed"
  by (auto simp: place_writable_def place_grant_def stage_rootfs_def resolve_egress_def hosts_error_def Let_def
      write_config_def mint_session_def split: option.splits sum.splits if_splits prod.splits)

lemma prepare_errors: "prepare k s ms = (Inl e, ms1) \<Longrightarrow> e \<noteq> EgressSetupFailed"
  by (auto simp: prepare_def dest: early_errors split: if_splits prod.splits sum.splits option.splits)
    (cases "resolve_egress k s"; auto dest: early_errors split: option.splits)+

lemma late_errors:
  "spec_error f d s = Some e \<Longrightarrow> e \<noteq> EgressSetupFailed"
  "commit_identity k s h v = (Some e, v1) \<Longrightarrow> e \<noteq> EgressSetupFailed"
  "run_sandbox k s rd v = (Inl e, v1) \<Longrightarrow> e \<noteq> EgressSetupFailed"
  by (auto simp: spec_error_def writable_error_def commit_identity_def run_sandbox_def Let_def
      split: list.splits option.splits sum.splits if_splits)

text \<open>
  C38: a failed start does not: when the network of a session with a project cannot be set up, the work
  tree is removed while the project is still mounted below it, so a removal that meets that mount deletes
  the files of the project.
\<close>

theorem failed_setup_empties_the_project:
  assumes "construct_t2 k s w = (Inl EgressSetupFailed, w')" and "ts_rw_grant s = Some n"
    and "th_reached k (work_dir s) (tw_mounts w') = Some (rw_target s n)"
  shows "\<exists>p. pin_beneath (th_mount k) n = Some p \<and> pi_ident p \<in> set (tw_emptied w')"
proof -
  obtain rd ms where sp: "spec_error (th_is_file k) (th_is_dir k) s = None" and p: "prepare k s (tw_mounts w) = (Inr rd, ms)"
    and b: "bring_up k s (ty_resolved rd) (with_leaf s ((remove_tree k (work_dir s) w)\<lparr>tw_mounts := ms\<rparr>)) = (Some EgressSetupFailed, w')"
    using assms(1) unfolding construct_t2_def Let_def
    by (auto dest: late_errors prepare_errors split: option.splits prod.splits sum.splits)
  obtain ps bs i where ps: "pinned_mounts k s rw_noexec (Some n) ps" and bs: "pinned_mounts k s rw_exec (ts_build_grant s) bs"
    and ms: "ms = \<lparr>me_target = run_rootfs s, me_source = i, me_flags = tmpfs_flags\<rparr> # bs @ ps @ tw_mounts w"
    using prepared_mounts [OF p] assms(2) by metis
  obtain q where q: "pin_beneath (th_mount k) n = Some q" "ps = [rw_mount s rw_noexec n q]"
    using ps by (auto simp: pinned_mounts_def)
  have at: "mount_at (rw_target s n) ms = Some (rw_mount s rw_noexec n q)"
    using spec_ok [OF sp] bs assms(2)
    by (auto simp: ms q mount_at_def rw_mount_def pinned_mounts_def targets_differ split: option.splits)
  have "tw_mounts w' = ms" using bring_up_runs [OF b] by simp
  moreover have "emptied_by k (work_dir s) ms = [pi_ident q]"
    using assms(3) \<open>tw_mounts w' = ms\<close> at by (simp add: emptied_by_def rw_mount_def rw_noexec_def)
  moreover have "set (emptied_by k (work_dir s) ms) \<subseteq> set (tw_emptied w')"
    using b by (auto simp: bring_up_def Let_def split: option.splits prod.splits if_splits)
  ultimately show ?thesis using q by auto
qed


section \<open>A host\<close>

text \<open>
  A kernel on which every call succeeds, with network commands that log themselves and a rule loader that
  can be made to fail.  Public names resolve to one address, the aliases through the projection.
\<close>

type_synonym net_log = "string list list"

definition calm_net :: "bool \<Rightarrow> net_log net_ops" where
  "calm_net loads =
     \<lparr>no_ip = (\<lambda>c h. Some (h @ [c])), no_nft = (\<lambda>c h. Some (h @ [c])),
      no_apply = (\<lambda>r h. if loads then Some (h @ [[r]]) else None)\<rparr>"

definition calm_host :: "bool \<Rightarrow> net_log t2_host" where
  "calm_host loads =
     \<lparr>th_mount = calm_kernel, th_net = calm_net loads, th_is_file = (\<lambda>_. True), th_is_dir = (\<lambda>_. True),
      th_mkdir = (\<lambda>_. True), th_private = True, th_anchor = (\<lambda>_. True), th_tmpfs = (\<lambda>_. Some calm_ident),
      th_copy = (\<lambda>_ _. True), th_write = (\<lambda>_ _. True), th_urandom = Some (replicate 16 7),
      th_cgroup = (\<lambda>_ _ _. True), th_real = Some, th_dot = (\<lambda>_. Some (Inr [Ipv4 1 2 3 4])),
      th_projection = ''10.9.8.7 shrek-swamp-broker'', th_reached = (\<lambda>p ms. map_option me_target (find (\<lambda>m. str_starts_with (me_target m) ''/run/shrek-t2/s1/rwgrants/'') ms)),
      th_debug = False, th_exit = (\<lambda>_. Some (Exited 0))\<rparr>"

definition coding_spec :: t2_spec where
  "coding_spec =
     \<lparr>ts_id = ''s1'', ts_anchor = ''/srv'', ts_grants = [], ts_rw_grant = Some ''project'', ts_build_grant = None,
      ts_workload = [''/bin/sh''], ts_rootfs = ''/usr/lib/shrek/t2-rootfs'', ts_runsc = ''/usr/lib/shrek/runsc'',
      ts_platform = Systrap, ts_mem_max = 536870912, ts_pids_max = 256, ts_egress = [],
      ts_session_meta = None\<rparr>"

definition calm_world :: "net_log t2_world" where
  "calm_world =
     \<lparr>tw_net = [], tw_mounts = [], tw_authority = empty_dir, tw_bindings = empty_dir, tw_views = empty_dir,
      tw_cgroups = [], tw_removed = [], tw_emptied = [], tw_runs = []\<rparr>"

definition search_spec :: t2_spec where
  "search_spec = coding_spec\<lparr>ts_egress := [\<lparr>prof_name = ''swamp-query'', prof_rules = SWAMP_QUERY\<rparr>]\<rparr>"


lemma coding_run: "case tw_runs (snd (construct_t2 (calm_host True) coding_spec calm_world)) of [] \<Rightarrow> False | _ \<Rightarrow> True"
  by code_simp

definition search_egress :: resolved_egress where
  "search_egress =
     \<lparr>re_endpoints = [\<lparr>ep_ip = Ipv4 10 9 8 7, ep_proto = Tcp, ep_port = 8400\<rparr>],
      re_hosts = [(SWAMP_QUERY_HOST, Ipv4 10 9 8 7)]\<rparr>"

lemma search_resolves:
  "resolve_profiles_v4 (\<lambda>_. Some (Inr [Ipv4 1 2 3 4])) ''10.9.8.7 shrek-swamp-broker'' (ts_egress search_spec)
     = Some (Inr search_egress)"
  by code_simp

lemma search_facts:
  "spec_error (\<lambda>_. True) (\<lambda>_. True) search_spec = None" "is_swamp_capable (ts_egress search_spec)"
  "valid_session_id (hex (replicate 16 7))"
  by code_simp+

lemma search_places:
  "place_writable (calm_host l) search_spec [] = (Inr (writable_mounts search_spec),
     [\<lparr>me_target = rw_target search_spec ''project'', me_source = calm_ident, me_flags = rw_noexec\<rparr>])"
  by code_simp

lemma calm_host_simps [simp]:
  "th_mount (calm_host l) = calm_kernel" "th_net (calm_host l) = calm_net l" "th_is_file (calm_host l) = (\<lambda>_. True)"
  "th_is_dir (calm_host l) = (\<lambda>_. True)" "th_mkdir (calm_host l) = (\<lambda>_. True)" "th_private (calm_host l)"
  "th_tmpfs (calm_host l) = (\<lambda>_. Some calm_ident)" "th_copy (calm_host l) = (\<lambda>_ _. True)"
  "th_write (calm_host l) = (\<lambda>_ _. True)" "th_urandom (calm_host l) = Some (replicate 16 7)"
  "th_cgroup (calm_host l) = (\<lambda>_ _ _. True)" "th_real (calm_host l) = Some"
  "th_dot (calm_host l) = (\<lambda>_. Some (Inr [Ipv4 1 2 3 4]))" "th_projection (calm_host l) = ''10.9.8.7 shrek-swamp-broker''"
  "th_exit (calm_host l) = (\<lambda>_. Some (Exited 0))"
  by (simp_all add: calm_host_def)

lemma calm_world_simps [simp]:
  "tw_mounts calm_world = []" "tw_runs calm_world = []" "tw_authority calm_world = empty_dir"
  "tw_bindings calm_world = empty_dir"
  by (simp_all add: calm_world_def)

lemma search_net [simp]: "t2_net search_spec = Some (for_id ''s1'')" "ts_egress search_spec \<noteq> []"
  by (simp_all add: t2_net_def search_spec_def coding_spec_def)

definition search_mounts :: mounts where
  "search_mounts =
     [\<lparr>me_target = run_rootfs search_spec, me_source = calm_ident, me_flags = tmpfs_flags\<rparr>,
      \<lparr>me_target = rw_target search_spec ''project'', me_source = calm_ident, me_flags = rw_noexec\<rparr>]"

lemma search_prepares:
  "\<exists>cfg. prepare (calm_host l) search_spec [] =
     (Inr \<lparr>ty_resolved = Some search_egress, ty_session = Some (hex (replicate 16 7)), ty_config = cfg\<rparr>, search_mounts)"
  using search_facts(2)
  by (simp add: prepare_def search_places stage_rootfs_def resolve_egress_def search_resolves hosts_error_def
      write_config_def mint_session_def search_mounts_def Let_def)

lemma calm_steps: "run_steps (\<lambda>c h. Some (h @ [c])) cs h = (True, h @ cs)"
  by (induction cs arbitrary: h) simp_all

lemma calm_wires: "\<exists>h'. create_and_inject (calm_net l) n es ms h = (l, h')"
  by (cases l) (simp_all add: create_and_inject_def wire_up_def calm_net_def calm_steps)

lemma search_records:
  "case authority_write Some empty_dir (hex (replicate 16 7)) (grant_paths search_spec) of Inr _ \<Rightarrow> True | Inl _ \<Rightarrow> False"
  by code_simp

lemma search_binds: "\<exists>d. net_write_binding empty_dir ip (hex (replicate 16 7)) = Inr d"
  using search_facts(3)
  by (simp add: net_write_binding_def atomic_write_def empty_dir_def)

lemma search_runs: "tw_runs (snd (construct_t2 (calm_host True) search_spec calm_world)) \<noteq> tw_runs calm_world"
proof -
  obtain cfg where p: "prepare (calm_host True) search_spec [] =
     (Inr \<lparr>ty_resolved = Some search_egress, ty_session = Some (hex (replicate 16 7)), ty_config = cfg\<rparr>, search_mounts)"
    using search_prepares by blast
  obtain a where a: "authority_write Some empty_dir (hex (replicate 16 7)) (grant_paths search_spec) = Inr a"
    using search_records by (auto split: sum.splits)
  obtain b where b: "net_write_binding empty_dir (sn_cont_ip (for_id ''s1'')) (hex (replicate 16 7)) = Inr b"
    using search_binds by blast
  obtain h where "create_and_inject (calm_net True) (for_id ''s1'') (re_endpoints search_egress)
      (no_masquerade_ips search_egress) (net_teardown (calm_net True) (for_id ''s1'') (tw_net calm_world)) = (True, h)"
    using calm_wires by blast
  then show ?thesis
    by (auto simp: construct_t2_def search_facts(1) p bring_up_def commit_identity_def a b run_sandbox_def Let_def split: prod.splits)
qed

lemma search_fails: "\<exists>w'. construct_t2 (calm_host False) search_spec calm_world = (Inl EgressSetupFailed, w') \<and> tw_mounts w' = search_mounts"
proof -
  obtain cfg where p: "prepare (calm_host False) search_spec [] =
     (Inr \<lparr>ty_resolved = Some search_egress, ty_session = Some (hex (replicate 16 7)), ty_config = cfg\<rparr>, search_mounts)"
    using search_prepares by blast
  obtain h where "create_and_inject (calm_net False) (for_id ''s1'') (re_endpoints search_egress)
      (no_masquerade_ips search_egress) (net_teardown (calm_net False) (for_id ''s1'') (tw_net calm_world)) = (False, h)"
    using calm_wires by blast
  then show ?thesis
    by (auto simp: construct_t2_def search_facts(1) p bring_up_def Let_def split: prod.splits)
qed


lemma construct_pair: "construct_t2 k s w = (fst (construct_t2 k s w), snd (construct_t2 k s w))"
  by simp

theorem network_only_behind_the_rules_witness:
  "\<exists>run. tw_runs (snd (construct_t2 (calm_host True) search_spec calm_world)) = [run]
     \<and> ''--network=sandbox'' \<in> set (tr_argv run)"
  using network_only_behind_the_rules [OF construct_pair search_runs] by auto

theorem writable_grants_are_pinned_witness:
  "\<exists>run. tw_runs (snd (construct_t2 (calm_host True) search_spec calm_world)) = [run]"
  using writable_grants_are_pinned [OF construct_pair search_runs] by auto


theorem finished_run_spares_the_grants_witness:
  "tw_mounts (snd (construct_t2 (calm_host True) search_spec calm_world)) = []"
proof -
  have u: "mk_umount (th_mount (calm_host True)) t" for t by (simp add: calm_kernel_def)
  show ?thesis
    using finished_run_spares_the_grants [OF construct_pair search_runs calm_world_simps(1) u] by simp
qed

lemma search_reached: "th_reached (calm_host l) p search_mounts = Some (rw_target search_spec ''project'')"
  by code_simp

theorem failed_setup_empties_the_project_witness:
  "\<exists>w'. construct_t2 (calm_host False) search_spec calm_world = (Inl EgressSetupFailed, w')
     \<and> calm_ident \<in> set (tw_emptied w')"
proof -
  obtain w' where w': "construct_t2 (calm_host False) search_spec calm_world = (Inl EgressSetupFailed, w')"
    and ms: "tw_mounts w' = search_mounts"
    using search_fails by blast
  have g: "ts_rw_grant search_spec = Some ''project''" by (simp add: search_spec_def coding_spec_def)
  have "th_reached (calm_host False) (work_dir search_spec) (tw_mounts w') = Some (rw_target search_spec ''project'')"
    by (simp only: ms search_reached)
  from failed_setup_empties_the_project [OF w' g this] show ?thesis
    using w' by (auto simp: pin_beneath_def calm_kernel_def split: if_splits)
qed

end
