(* ===== verification/T0_Policy.thy ===== *)
theory T0_Policy
  imports Mount_Plane
begin

text \<open>
  The policy of the process sandbox (\<open>gatekeeperd/src/proc_plane.rs\<close>): the access rights of its
  Landlock rules, its system call filter as a program of classic BPF, and the parsers that authenticate
  the entrypoint of an executable island.  A file is its bytes.
\<close>

unbundle bit_operations_syntax

section \<open>Access rights\<close>

definition LANDLOCK_ACCESS_FS_EXECUTE :: u64 where "LANDLOCK_ACCESS_FS_EXECUTE = push_bit 0 1"
definition LANDLOCK_ACCESS_FS_WRITE_FILE :: u64 where "LANDLOCK_ACCESS_FS_WRITE_FILE = push_bit 1 1"
definition LANDLOCK_ACCESS_FS_READ_FILE :: u64 where "LANDLOCK_ACCESS_FS_READ_FILE = push_bit 2 1"
definition LANDLOCK_ACCESS_FS_READ_DIR :: u64 where "LANDLOCK_ACCESS_FS_READ_DIR = push_bit 3 1"
definition LANDLOCK_ACCESS_FS_REFER :: u64 where "LANDLOCK_ACCESS_FS_REFER = push_bit 13 1"
definition LANDLOCK_ACCESS_FS_TRUNCATE :: u64 where "LANDLOCK_ACCESS_FS_TRUNCATE = push_bit 14 1"
definition LANDLOCK_ACCESS_FS_IOCTL_DEV :: u64 where "LANDLOCK_ACCESS_FS_IOCTL_DEV = push_bit 15 1"

definition handled_fs_for_abi :: "int \<Rightarrow> u64" where
  "handled_fs_for_abi abi =
     (let m = push_bit 13 1 - 1;
          m = (if 2 \<le> abi then m OR LANDLOCK_ACCESS_FS_REFER else m);
          m = (if 3 \<le> abi then m OR LANDLOCK_ACCESS_FS_TRUNCATE else m)
      in if 5 \<le> abi then m OR LANDLOCK_ACCESS_FS_IOCTL_DEV else m)"

definition usr_access :: "u64 \<Rightarrow> u64" where
  "usr_access handled =
     (LANDLOCK_ACCESS_FS_EXECUTE OR LANDLOCK_ACCESS_FS_READ_FILE OR LANDLOCK_ACCESS_FS_READ_DIR) AND handled"

definition grant_access :: "bool \<Rightarrow> u64 \<Rightarrow> u64" where
  "grant_access is_dir handled =
     (let a = LANDLOCK_ACCESS_FS_READ_FILE
      in (if is_dir then a OR LANDLOCK_ACCESS_FS_READ_DIR else a) AND handled)"

section \<open>The system call filter\<close>

definition X32_SYSCALL_BIT :: u32 where "X32_SYSCALL_BIT = 0x40000000"
definition EPERM :: u32 where "EPERM = 1"
definition SECCOMP_RET_KILL_PROCESS :: u32 where "SECCOMP_RET_KILL_PROCESS = 0x80000000"
definition SECCOMP_RET_ERRNO :: u32 where "SECCOMP_RET_ERRNO = 0x00050000"
definition SECCOMP_RET_ALLOW :: u32 where "SECCOMP_RET_ALLOW = 0x7fff0000"
definition AUDIT_ARCH_X86_64 :: u32 where "AUDIT_ARCH_X86_64 = 0xC000003E"
definition SECCOMP_DATA_NR_OFFSET :: u32 where "SECCOMP_DATA_NR_OFFSET = 0"
definition SECCOMP_DATA_ARCH_OFFSET :: u32 where "SECCOMP_DATA_ARCH_OFFSET = 4"

definition BPF_LD :: u16 where "BPF_LD = 0x00"
definition BPF_W :: u16 where "BPF_W = 0x00"
definition BPF_ABS :: u16 where "BPF_ABS = 0x20"
definition BPF_JMP :: u16 where "BPF_JMP = 0x05"
definition BPF_JEQ :: u16 where "BPF_JEQ = 0x10"
definition BPF_K :: u16 where "BPF_K = 0x00"
definition BPF_RET :: u16 where "BPF_RET = 0x06"

record sock_filter =
  sf_code :: u16
  sf_jt :: u8
  sf_jf :: u8
  sf_k :: u32

definition SECCOMP_DENY :: "(string \<times> u32) list" where
  "SECCOMP_DENY =
     [(''mount'', 165), (''umount2'', 166), (''pivot_root'', 155), (''chroot'', 161), (''ptrace'', 101),
      (''kexec_load'', 246), (''kexec_file_load'', 320), (''init_module'', 175), (''finit_module'', 313),
      (''delete_module'', 176), (''bpf'', 321), (''keyctl'', 250), (''add_key'', 248), (''request_key'', 249),
      (''setns'', 308), (''unshare'', 272), (''perf_event_open'', 298), (''process_vm_readv'', 310),
      (''process_vm_writev'', 311), (''open_tree'', 428), (''move_mount'', 429), (''fsopen'', 430),
      (''reboot'', 169), (''acct'', 163), (''swapon'', 167), (''settimeofday'', 164), (''clock_settime'', 227)]"

definition stmt :: "u16 \<Rightarrow> u32 \<Rightarrow> sock_filter" where
  "stmt code k = \<lparr>sf_code = code, sf_jt = 0, sf_jf = 0, sf_k = k\<rparr>"

definition jump :: "u16 \<Rightarrow> u32 \<Rightarrow> u8 \<Rightarrow> u8 \<Rightarrow> sock_filter" where
  "jump code k jt jf = \<lparr>sf_code = code, sf_jt = jt, sf_jf = jf, sf_k = k\<rparr>"

definition deny_pair :: "u32 \<Rightarrow> sock_filter list" where
  "deny_pair nr =
     [jump (BPF_JMP OR BPF_JEQ OR BPF_K) nr 0 1, stmt (BPF_RET OR BPF_K) (SECCOMP_RET_ERRNO OR EPERM)]"

definition build_seccomp_program :: "sock_filter list" where
  "build_seccomp_program =
     [stmt (BPF_LD OR BPF_W OR BPF_ABS) SECCOMP_DATA_ARCH_OFFSET,
      jump (BPF_JMP OR BPF_JEQ OR BPF_K) AUDIT_ARCH_X86_64 1 0,
      stmt (BPF_RET OR BPF_K) SECCOMP_RET_KILL_PROCESS,
      stmt (BPF_LD OR BPF_W OR BPF_ABS) SECCOMP_DATA_NR_OFFSET,
      jump (BPF_JMP OR 0x30 OR BPF_K) X32_SYSCALL_BIT 0 1,
      stmt (BPF_RET OR BPF_K) SECCOMP_RET_KILL_PROCESS]
     @ concat (map (\<lambda>(_, nr). deny_pair nr) SECCOMP_DENY)
     @ [stmt (BPF_RET OR BPF_K) SECCOMP_RET_ALLOW]"

section \<open>Reading an ELF file\<close>

datatype elf_error =
    ShortFile | BadMagic | NotElf64 | NoProgramHeaders | TooManyHeaders | SeekFailed | HasInterp | NoInterpHeader
  | BadInterpSize | BadDynamicSize | TooManyNeeded | NoStrtab | StrtabUnmapped | NeededPastStrtab | EmptyNeeded
  | InterpDiffers string | NotAMember string

text \<open>
  A seek refuses an offset that is negative as a signed number; reading past the end yields nothing.
  \<open>read_exact\<close> fails when the file ends before the buffer is full.
\<close>

definition seek :: "u64 \<Rightarrow> (elf_error, nat) result" where
  "seek off = (if off < 0x8000000000000000 then Inr (unat off) else Inl SeekFailed)"

definition read_exact :: "string \<Rightarrow> nat \<Rightarrow> nat \<Rightarrow> (elf_error, string) result" where
  "read_exact f pos n = (if pos + n \<le> length f \<or> n = 0 then Inr (take n (drop pos f)) else Inl ShortFile)"

text \<open>Little-endian words of a slice, which is long enough wherever the code takes one.\<close>

definition le :: "string \<Rightarrow> 'a::len word" where
  "le s = foldr (\<lambda>c w. of_char c + 256 * w) s 0"

definition slice :: "string \<Rightarrow> nat \<Rightarrow> nat \<Rightarrow> string" where
  "slice s a b = take (b - a) (drop a s)"

definition u16le :: "string \<Rightarrow> nat \<Rightarrow> u16" where "u16le s a = le (slice s a (a + 2))"
definition u32le :: "string \<Rightarrow> nat \<Rightarrow> u32" where "u32le s a = le (slice s a (a + 4))"
definition u64le :: "string \<Rightarrow> nat \<Rightarrow> u64" where "u64le s a = le (slice s a (a + 8))"

record elf_table =
  et_phoff :: u64
  et_phentsize :: nat
  et_phnum :: nat

definition elf_header :: "nat \<Rightarrow> string \<Rightarrow> (elf_error, elf_table) result" where
  "elf_header min_entry f =
     rbind (read_exact f 0 64) (\<lambda>eh.
       let t = \<lparr>et_phoff = u64le eh 32, et_phentsize = unat (u16le eh 54), et_phnum = unat (u16le eh 56)\<rparr>
       in if take 4 eh \<noteq> [CHR 0x7F, CHR ''E'', CHR ''L'', CHR ''F''] then Inl BadMagic
          else if eh ! 4 \<noteq> CHR 0x02 \<or> eh ! 5 \<noteq> CHR 0x01 then Inl NotElf64
          else if et_phnum t = 0 \<or> et_phentsize t < min_entry then Inl NoProgramHeaders
          else if 4096 < et_phnum t then Inl TooManyHeaders
          else Inr t)"

text \<open>The program headers, one after the other.\<close>

fun read_headers :: "string \<Rightarrow> nat \<Rightarrow> nat \<Rightarrow> nat \<Rightarrow> (elf_error, string list) result" where
  "read_headers f pos sz 0 = Inr []"
| "read_headers f pos sz (Suc n) =
     rbind (read_exact f pos sz) (\<lambda>ph. rbind (read_headers f (pos + sz) sz n) (\<lambda>phs. Inr (ph # phs)))"

definition PT_LOAD :: u32 where "PT_LOAD = 1"
definition PT_DYNAMIC :: u32 where "PT_DYNAMIC = 2"
definition PT_INTERP :: u32 where "PT_INTERP = 3"

fun scan_static :: "string \<Rightarrow> nat \<Rightarrow> nat \<Rightarrow> nat \<Rightarrow> elf_error option" where
  "scan_static f pos sz 0 = None"
| "scan_static f pos sz (Suc n) =
     (case read_exact f pos sz of
        Inl e \<Rightarrow> Some e
      | Inr ph \<Rightarrow> if u32le ph 0 = PT_INTERP then Some HasInterp else scan_static f (pos + sz) sz n)"

definition reject_if_dynamic :: "string \<Rightarrow> elf_error option" where
  "reject_if_dynamic f =
     (case elf_header 4 f of
        Inl e \<Rightarrow> Some e
      | Inr t \<Rightarrow>
          (case seek (et_phoff t) of
             Inl e \<Rightarrow> Some e
           | Inr pos \<Rightarrow> scan_static f pos (et_phentsize t) (et_phnum t)))"

record dyn_info =
  di_interp :: "string option"
  di_needed :: "string list"

record segments =
  sg_interp :: "(u64 \<times> u64) option"
  sg_dyn :: "(u64 \<times> u64) option"
  sg_loads :: "(u64 \<times> u64 \<times> u64) list"

definition note_header :: "string \<Rightarrow> segments \<Rightarrow> segments" where
  "note_header ph sg =
     (let t = u32le ph 0; off = u64le ph 8; va = u64le ph 16; fsz = u64le ph 32
      in if t = PT_INTERP then sg\<lparr>sg_interp := Some (off, fsz)\<rparr>
         else if t = PT_DYNAMIC then sg\<lparr>sg_dyn := Some (off, fsz)\<rparr>
         else if t = PT_LOAD then sg\<lparr>sg_loads := sg_loads sg @ [(va, fsz, off)]\<rparr>
         else sg)"

definition no_segments :: segments where
  "no_segments = \<lparr>sg_interp = None, sg_dyn = None, sg_loads = []\<rparr>"

text \<open>The bytes before the first NUL, as text.\<close>

definition c_text :: "string \<Rightarrow> string" where
  "c_text b = utf8_lossy (takeWhile (\<lambda>c. c \<noteq> CHR 0x00) b)"

definition read_interp :: "string \<Rightarrow> (u64 \<times> u64) option \<Rightarrow> (elf_error, string option) result" where
  "read_interp f seg =
     (case seg of
        None \<Rightarrow> Inr None
      | Some (off, sz) \<Rightarrow>
          if sz = 0 \<or> 4096 < sz then Inl BadInterpSize
          else rbind (seek off) (\<lambda>pos. rbind (read_exact f pos (unat sz)) (\<lambda>b. Inr (Some (c_text b)))))"

record dyn_table =
  dt_needed :: "u64 list"
  dt_strtab :: "u64 option"
  dt_strsz :: "u64 option"

text \<open>The entries of the dynamic table up to the first null tag.\<close>

fun dyn_entries :: "string \<Rightarrow> nat \<Rightarrow> dyn_table \<Rightarrow> (elf_error, dyn_table) result" where
  "dyn_entries db 0 d = Inr d"
| "dyn_entries db (Suc n) d =
     (let tag = u64le db 0; val = u64le db 8; rest = drop 16 db
      in if tag = 0 then Inr d
         else if tag = 1 then
           (if 4096 \<le> length (dt_needed d) then Inl TooManyNeeded
            else dyn_entries rest n (d\<lparr>dt_needed := dt_needed d @ [val]\<rparr>))
         else if tag = 5 then dyn_entries rest n (d\<lparr>dt_strtab := Some val\<rparr>)
         else if tag = 10 then dyn_entries rest n (d\<lparr>dt_strsz := Some val\<rparr>)
         else dyn_entries rest n d)"

definition saturating_add :: "u64 \<Rightarrow> u64 \<Rightarrow> u64" where
  "saturating_add a b = (if unat a + unat b < 2 ^ 64 then a + b else - 1)"

text \<open>
  The offset of the string table: the first segment that covers its address.  The sum wraps in a release
  build; a debug build would panic.
\<close>

definition strtab_offset :: "(u64 \<times> u64 \<times> u64) list \<Rightarrow> u64 \<Rightarrow> u64 option" where
  "strtab_offset loads sv =
     map_option (\<lambda>(va, fsz, off). off + (sv - va))
       (find (\<lambda>(va, fsz, off). va \<le> sv \<and> sv < saturating_add va fsz) loads)"

definition strtab_cap :: "u64 option \<Rightarrow> nat" where
  "strtab_cap sz = (case sz of Some s \<Rightarrow> if 0 < s \<and> s \<le> push_bit 20 1 then unat s else 2 ^ 16 | None \<Rightarrow> 2 ^ 16)"

fun needed_names :: "string \<Rightarrow> u64 list \<Rightarrow> (elf_error, string list) result" where
  "needed_names sbuf [] = Inr []"
| "needed_names sbuf (no # nos) =
     (if length sbuf \<le> unat no then Inl NeededPastStrtab
      else let b = takeWhile (\<lambda>c. c \<noteq> CHR 0x00) (drop (unat no) sbuf)
           in if b = [] then Inl EmptyNeeded
              else rbind (needed_names sbuf nos) (\<lambda>ns. Inr (utf8_lossy b # ns)))"

definition read_needed :: "string \<Rightarrow> segments \<Rightarrow> (elf_error, string list) result" where
  "read_needed f sg =
     (case sg_dyn sg of
        None \<Rightarrow> Inr []
      | Some (doff, dsz) \<Rightarrow>
          if push_bit 20 1 < dsz then Inl BadDynamicSize
          else
            let n = unat dsz div 16
            in rbind (seek doff) (\<lambda>pos. rbind (read_exact f pos (n * 16)) (\<lambda>db.
                 rbind (dyn_entries db n \<lparr>dt_needed = [], dt_strtab = None, dt_strsz = None\<rparr>) (\<lambda>d.
                   if dt_needed d = [] then Inr []
                   else case dt_strtab d of
                     None \<Rightarrow> Inl NoStrtab
                   | Some sv \<Rightarrow>
                       (case strtab_offset (sg_loads sg) sv of
                          None \<Rightarrow> Inl StrtabUnmapped
                        | Some off \<Rightarrow>
                            rbind (seek off) (\<lambda>pos.
                              needed_names (take (strtab_cap (dt_strsz d)) (drop pos f)) (dt_needed d)))))))"

definition parse_interp_and_needed :: "string \<Rightarrow> (elf_error, dyn_info) result" where
  "parse_interp_and_needed f =
     rbind (elf_header 56 f) (\<lambda>t.
       rbind (seek (et_phoff t)) (\<lambda>pos.
         rbind (read_headers f pos (et_phentsize t) (et_phnum t)) (\<lambda>phs.
           let sg = foldl (\<lambda>sg ph. note_header ph sg) no_segments phs
           in rbind (read_interp f (sg_interp sg)) (\<lambda>interp.
                rbind (read_needed f sg) (\<lambda>needed.
                  Inr \<lparr>di_interp = interp, di_needed = needed\<rparr>)))))"

record member_spec =
  ms_algo :: u16
  ms_digest :: digest
  ms_name :: string
  ms_is_interp :: bool

record closure_spec =
  cs_interp :: member_spec
  cs_libs :: "member_spec list"

definition authenticate_closure :: "string \<Rightarrow> closure_spec \<Rightarrow> elf_error option" where
  "authenticate_closure f c =
     (case parse_interp_and_needed f of
        Inl e \<Rightarrow> Some e
      | Inr i \<Rightarrow>
          (case di_interp i of
             None \<Rightarrow> Some NoInterpHeader
           | Some p \<Rightarrow>
               if p \<noteq> ms_name (cs_interp c) then Some (InterpDiffers p)
               else map_option NotAMember
                 (find (\<lambda>n. \<not> List.member (map ms_name (cs_libs c)) n) (di_needed i))))"

end
