(* ===== verification/T0_Plane.thy ===== *)
theory T0_Plane
  imports T0_Policy
begin

text \<open>
  The process sandbox of \<open>gatekeeperd\<close> (\<open>gatekeeperd/src/proc_plane.rs\<close>): its cgroup, its executable
  islands, its Landlock rules and the two processes that build it.  The kernel is a parameter; a sandbox
  that starts is a value holding everything its first instruction runs behind.
\<close>

section \<open>The request and the kernel\<close>

definition DEFAULT_MEM_MAX :: u64 where "DEFAULT_MEM_MAX = 512 * 1024 * 1024"
definition DEFAULT_PIDS_MAX :: u64 where "DEFAULT_PIDS_MAX = 256"

record t0_spec =
  t0_id :: string
  t0_anchor :: string
  t0_grants :: "string list"
  t0_workload :: "string list"
  t0_abi :: int
  t0_mem_max :: u64
  t0_pids_max :: u64
  t0_exec_island :: "nat option"
  t0_closure :: "closure_spec option"

datatype t0_error =
    NoWorkload | NoCgroup | CgroupWrite string | StepFailed string | AnchorRefused | GrantRefused string
  | MountStep string mount_error | ElfStep string elf_error | NoParentDir | FlagsUnread string
  | FlagsWrong string | RulesetRefused | RuleRefused string | NotOpened string | NoPrivileges | NotRestricted

text \<open>
  The kernel: the mount calls, what can be opened, the flags and bytes read at a path, the answers of the
  other calls, and the status of the workload when it ends.
\<close>

record t0_kernel =
  tk_mount :: mount_kernel
  tk_anchor :: "string \<Rightarrow> bool"
  tk_self_bind :: "string \<Rightarrow> bool"
  tk_present :: "string \<Rightarrow> bool"
  tk_mask_bind :: "string \<Rightarrow> bool"
  tk_noexec :: "string \<Rightarrow> mounts \<Rightarrow> bool option"
  tk_bytes :: "string \<Rightarrow> mounts \<Rightarrow> string option"
  tk_step :: "string \<Rightarrow> bool"
  tk_ruleset :: bool
  tk_rule :: "string \<Rightarrow> bool"
  tk_no_new_privs :: bool
  tk_restrict :: bool
  tk_seccomp :: bool
  tk_close_range :: bool
  tk_fd_listing :: "nat list option"
  tk_exec :: "string \<Rightarrow> bool"
  tk_status :: "string list \<Rightarrow> u32"
  tk_abi :: "int option"
  tk_cgroup :: "string option"
  tk_pid :: nat
  tk_cg_mkdir :: "string \<Rightarrow> bool"
  tk_cg_write :: "string \<Rightarrow> bool"

datatype landlock_probe = Ready int | Unavailable

definition preflight :: "t0_kernel \<Rightarrow> landlock_probe" where
  "preflight k = (case tk_abi k of Some abi \<Rightarrow> if 1 \<le> abi then Ready abi else Unavailable | None \<Rightarrow> Unavailable)"

definition island_root :: "string \<Rightarrow> string" where
  "island_root rid = ''/run/shrek/'' @ rid @ ''/exec''"

definition island_path :: "string \<Rightarrow> string" where
  "island_path rid = ''/run/shrek/'' @ rid @ ''/exec/entry''"

definition island_lib_path :: "string \<Rightarrow> string \<Rightarrow> string" where
  "island_lib_path rid soname = ''/run/shrek/'' @ rid @ ''/exec/lib/'' @ soname"

section \<open>The control group\<close>

text \<open>The leaf, and the files written on the way with their contents.\<close>

type_synonym cg_writes = "(string \<times> string) list"

definition cg_base :: "string \<Rightarrow> string option" where
  "cg_base listing =
     (case List.map_filter (str_strip_prefix ''0::'') (str_lines listing) of
        [] \<Rightarrow> None
      | rel # _ \<Rightarrow> Some (path_join ''/sys/fs/cgroup'' (dropWhile (\<lambda>c. c = CHR ''/'') rel)))"

definition cg_write :: "t0_kernel \<Rightarrow> string \<Rightarrow> string \<Rightarrow> (t0_error, cg_writes) result" where
  "cg_write k path val = (if tk_cg_write k path then Inr [(path, val)] else Inl (CgroupWrite path))"

definition cg_create ::
  "t0_kernel \<Rightarrow> string \<Rightarrow> u64 \<Rightarrow> u64 \<Rightarrow> (t0_error, string \<times> cg_writes) result" where
  "cg_create k rid mem_max pids_max =
     (case Option.bind (tk_cgroup k) cg_base of
        None \<Rightarrow> Inl NoCgroup
      | Some base \<Rightarrow>
          let daemon = path_join base ''_daemon'';
              leaf = path_join base (''shrek-t0-'' @ rid);
              enabled = (case cg_write k (path_join base ''cgroup.subtree_control'') ''+memory +pids'' of
                           Inl _ \<Rightarrow> [] | Inr w \<Rightarrow> w)
          in rbind (cg_write k (path_join daemon ''cgroup.procs'') (show_nat (tk_pid k) @ [nl])) (\<lambda>w1.
               if \<not> tk_cg_mkdir k leaf then Inl NoCgroup
               else rbind (cg_write k (path_join leaf ''memory.max'') (show_uint mem_max @ [nl])) (\<lambda>w2.
                    rbind (cg_write k (path_join leaf ''pids.max'') (show_uint pids_max @ [nl])) (\<lambda>w3.
                      Inr (leaf, w1 @ enabled @ w2 @ w3)))))"

definition join_self :: "t0_kernel \<Rightarrow> string \<Rightarrow> (t0_error, cg_writes) result" where
  "join_self k leaf = cg_write k (path_join leaf ''cgroup.procs'') (show_nat (tk_pid k) @ [nl])"

section \<open>Islands\<close>

text \<open>A step on the mounts: an error or none, and the mounts it leaves.\<close>

type_synonym staged = "t0_error option \<times> mounts"

definition labelled :: "string \<Rightarrow> mounted \<Rightarrow> staged" where
  "labelled l r = (case r of (Some e, ms) \<Rightarrow> (Some (MountStep l e), ms) | (None, ms) \<Rightarrow> (None, ms))"

definition and_then :: "staged \<Rightarrow> (mounts \<Rightarrow> staged) \<Rightarrow> staged" where
  "and_then r f = (case r of (Some e, ms) \<Rightarrow> (Some e, ms) | (None, ms) \<Rightarrow> f ms)"

text \<open>A subtree bound on itself, then remounted with its flags; the remount reaches its top only.\<close>

definition seal_with :: "mount_flags \<Rightarrow> t0_kernel \<Rightarrow> string \<Rightarrow> mounts \<Rightarrow> mounted" where
  "seal_with fl k path ms =
     (if CHR 0x00 \<in> set path then (Some BadPath, ms)
      else case (if tk_self_bind k path then mk_at (tk_mount k) path ms else None) of
        None \<Rightarrow> (Some BindFailed, ms)
      | Some i \<Rightarrow>
          remount (tk_mount k) path fl (\<lparr>me_target = path, me_source = i, me_flags = bind_flags\<rparr> # ms))"

definition seal_subtree_noexec :: "t0_kernel \<Rightarrow> string \<Rightarrow> mounts \<Rightarrow> mounted" where
  "seal_subtree_noexec k path ms = seal_with ro_noexec k path ms"

definition seal_subtree_noexec_writable :: "t0_kernel \<Rightarrow> string \<Rightarrow> mounts \<Rightarrow> mounted" where
  "seal_subtree_noexec_writable k path ms = seal_with rw_noexec k path ms"

definition mask_with_empty :: "t0_kernel \<Rightarrow> string \<Rightarrow> mounts \<Rightarrow> mounted" where
  "mask_with_empty k target ms =
     (if \<not> tk_present k target then (None, ms)
      else
        let name = (case path_file_name target of Some n \<Rightarrow> n | None \<Rightarrow> ''mask'');
            src = ''/run/shrek/_mask/'' @ name
        in if \<not> mk_mkdir (tk_mount k) ''/run/shrek/_mask'' then (Some MkdirFailed, ms)
           else if \<not> mk_touch (tk_mount k) src then (Some TouchFailed, ms)
           else case (if tk_mask_bind k target then mk_at (tk_mount k) src ms else None) of
             None \<Rightarrow> (Some BindFailed, ms)
           | Some i \<Rightarrow>
               remount (tk_mount k) target ro_noexec
                 (\<lparr>me_target = target, me_source = i, me_flags = bind_flags\<rparr> # ms))"

text \<open>Every grant is pinned and bound again in place, without execution.\<close>

fun seal_grants :: "t0_kernel \<Rightarrow> string \<Rightarrow> string list \<Rightarrow> mounts \<Rightarrow> staged" where
  "seal_grants k anchor [] ms = (None, ms)"
| "seal_grants k anchor (n # ns) ms =
     (case pin_beneath (tk_mount k) n of
        None \<Rightarrow> (Some (GrantRefused n), ms)
      | Some p \<Rightarrow>
          and_then (labelled (''seal-grant '' @ n) (seal_noexec_in_place (tk_mount k) p (path_join anchor n) ms))
            (seal_grants k anchor ns))"

definition flag_error :: "t0_kernel \<Rightarrow> mounts \<Rightarrow> string \<Rightarrow> bool \<Rightarrow> t0_error option" where
  "flag_error k ms p want =
     (case (if CHR 0x00 \<in> set p then None else tk_noexec k p ms) of
        None \<Rightarrow> Some (FlagsUnread p)
      | Some got \<Rightarrow> if got \<noteq> want then Some (FlagsWrong p) else None)"

fun first_error :: "'e option list \<Rightarrow> 'e option" where
  "first_error [] = None"
| "first_error (None # es) = first_error es"
| "first_error (Some e # es) = Some e"

definition verify_island_exec_flags :: "t0_kernel \<Rightarrow> string \<Rightarrow> string list \<Rightarrow> mounts \<Rightarrow> staged" where
  "verify_island_exec_flags k rid libs ms =
     (first_error
        (flag_error k ms (island_root rid) True # flag_error k ms (island_path rid) False
         # map (\<lambda>so. flag_error k ms (island_lib_path rid so) False) libs), ms)"

text \<open>A check of the bytes found at the entry island.\<close>

definition entry_checked ::
  "string \<Rightarrow> (string \<Rightarrow> elf_error option) \<Rightarrow> t0_kernel \<Rightarrow> string \<Rightarrow> mounts \<Rightarrow> staged" where
  "entry_checked l check k rid ms =
     (case tk_bytes k (island_path rid) ms of
        None \<Rightarrow> (Some (NotOpened (island_path rid)), ms)
      | Some f \<Rightarrow> (map_option (ElfStep l) (check f), ms))"

definition island_opened :: "t0_kernel \<Rightarrow> t0_spec \<Rightarrow> mounts \<Rightarrow> staged" where
  "island_opened k s ms =
     (if \<not> tk_anchor k (t0_anchor s) then (Some AnchorRefused, ms)
      else seal_grants k (t0_anchor s) (t0_grants s) ms)"

definition root_sealed :: "t0_kernel \<Rightarrow> string \<Rightarrow> string \<Rightarrow> mounts \<Rightarrow> staged" where
  "root_sealed k rid made ms =
     (if \<not> mk_mkdir (tk_mount k) made then (Some (StepFailed ''mkdir-island''), ms)
      else labelled ''seal-island-root'' (seal_subtree_noexec_writable k (island_root rid) ms))"

definition build_exec_island :: "t0_kernel \<Rightarrow> t0_spec \<Rightarrow> nat \<Rightarrow> mounts \<Rightarrow> staged" where
  "build_exec_island k s fd ms =
     and_then (island_opened k s ms) (\<lambda>ms.
     and_then (root_sealed k (t0_id s) (island_root (t0_id s)) ms) (\<lambda>ms.
     and_then (labelled ''relocate-island''
                 (relocate_exec_island (tk_mount k) (hd (t0_workload s)) fd (island_path (t0_id s)) ms)) (\<lambda>ms.
     and_then (entry_checked ''static-pie-check'' reject_if_dynamic k (t0_id s) ms)
       (verify_island_exec_flags k (t0_id s) []))))"

definition base_name :: "string \<Rightarrow> string" where
  "base_name n = (case path_file_name n of Some b \<Rightarrow> b | None \<Rightarrow> n)"

fun relocate_libs :: "t0_kernel \<Rightarrow> string \<Rightarrow> string \<Rightarrow> member_spec list \<Rightarrow> mounts \<Rightarrow> staged" where
  "relocate_libs k rid dir [] ms = (None, ms)"
| "relocate_libs k rid dir (l # ls) ms =
     and_then (labelled (''relocate-lib '' @ ms_name l)
                 (relocate_member (tk_mount k) (path_join dir (ms_name l)) (ms_algo l) (ms_digest l)
                    (island_lib_path rid (ms_name l)) ms))
       (relocate_libs k rid dir ls)"

definition build_closure_island ::
  "t0_kernel \<Rightarrow> t0_spec \<Rightarrow> nat \<Rightarrow> closure_spec \<Rightarrow> mounts \<Rightarrow> staged" where
  "build_closure_island k s fd c ms =
     and_then (island_opened k s ms) (\<lambda>ms.
     and_then (labelled ''seal-usr-noexec'' (seal_subtree_noexec k ''/usr'' ms)) (\<lambda>ms.
     and_then (labelled ''mask-ld-preload'' (mask_with_empty k ''/etc/ld.so.preload'' ms)) (\<lambda>ms.
     and_then (labelled ''mask-ld-cache'' (mask_with_empty k ''/etc/ld.so.cache'' ms)) (\<lambda>ms.
     and_then (root_sealed k (t0_id s) (path_join (island_root (t0_id s)) ''lib'') ms) (\<lambda>ms.
     and_then (labelled ''relocate-island''
                 (relocate_exec_island (tk_mount k) (hd (t0_workload s)) fd (island_path (t0_id s)) ms)) (\<lambda>ms.
     (case path_parent (hd (t0_workload s)) of
        None \<Rightarrow> (Some NoParentDir, ms)
      | Some dir \<Rightarrow>
          and_then (labelled ''relocate-interp''
                      (relocate_member (tk_mount k) (path_join dir (base_name (ms_name (cs_interp c))))
                         (ms_algo (cs_interp c)) (ms_digest (cs_interp c)) (ms_name (cs_interp c)) ms)) (\<lambda>ms.
          and_then (relocate_libs k (t0_id s) dir (cs_libs c) ms) (\<lambda>ms.
          and_then (entry_checked ''authenticate-closure'' (\<lambda>f. authenticate_closure f c) k (t0_id s) ms)
            (verify_island_exec_flags k (t0_id s) (map ms_name (cs_libs c))))))))))))"

section \<open>The Landlock rules\<close>

text \<open>A rule opens what lies beneath a path, or the object of a pin.\<close>

datatype beneath = Beneath string | BeneathPin string pinned

type_synonym landlock_rules = "(beneath \<times> u64) list"

unbundle bit_operations_syntax

definition BASE_DEV_RW :: "string list" where
  "BASE_DEV_RW = [''/dev/null'', ''/dev/zero'', ''/dev/full'']"

definition BASE_DEV_RO :: "string list" where
  "BASE_DEV_RO = [''/dev/urandom'', ''/dev/random'']"

definition open_opath :: "t0_kernel \<Rightarrow> string \<Rightarrow> bool" where
  "open_opath k p \<longleftrightarrow> CHR 0x00 \<notin> set p \<and> tk_present k p"

definition add_rule :: "t0_kernel \<Rightarrow> string \<Rightarrow> beneath \<Rightarrow> u64 \<Rightarrow> (t0_error, landlock_rules) result" where
  "add_rule k p b a = (if tk_rule k p then Inr [(b, a)] else Inl (RuleRefused p))"

text \<open>A path that must open, and a device that is skipped when it is absent.\<close>

definition add_path :: "t0_kernel \<Rightarrow> u64 \<Rightarrow> string \<Rightarrow> (t0_error, landlock_rules) result" where
  "add_path k a p = (if open_opath k p then add_rule k p (Beneath p) a else Inl (NotOpened p))"

definition add_device :: "t0_kernel \<Rightarrow> u64 \<Rightarrow> string \<Rightarrow> (t0_error, landlock_rules) result" where
  "add_device k a p = (if open_opath k p then add_rule k p (Beneath p) a else Inr [])"

definition add_grant :: "t0_kernel \<Rightarrow> u64 \<Rightarrow> string \<Rightarrow> (t0_error, landlock_rules) result" where
  "add_grant k handled n =
     (case pin_beneath (tk_mount k) n of
        None \<Rightarrow> Inl (GrantRefused n)
      | Some p \<Rightarrow> add_rule k n (BeneathPin n p) (grant_access (pi_is_dir p) handled))"

fun all_rules :: "(string \<Rightarrow> (t0_error, landlock_rules) result) \<Rightarrow> string list \<Rightarrow> (t0_error, landlock_rules) result" where
  "all_rules f [] = Inr []"
| "all_rules f (p # ps) = rbind (f p) (\<lambda>r. rbind (all_rules f ps) (\<lambda>rs. Inr (r @ rs)))"

definition usr_allow :: "t0_spec \<Rightarrow> u64 \<Rightarrow> u64" where
  "usr_allow s handled =
     (if t0_exec_island s \<noteq> None then (LANDLOCK_ACCESS_FS_READ_FILE OR LANDLOCK_ACCESS_FS_READ_DIR) AND handled
      else usr_access handled)"

definition exec_access :: "u64 \<Rightarrow> u64" where
  "exec_access handled = (LANDLOCK_ACCESS_FS_EXECUTE OR LANDLOCK_ACCESS_FS_READ_FILE) AND handled"

text \<open>The paths of the islands: the entry first, then the interpreter and the libraries.\<close>

definition island_paths :: "t0_spec \<Rightarrow> string list" where
  "island_paths s =
     (if t0_exec_island s \<noteq> None then [island_path (t0_id s)] else [])
     @ (case t0_closure s of
          None \<Rightarrow> []
        | Some c \<Rightarrow> ms_name (cs_interp c) # map (\<lambda>l. island_lib_path (t0_id s) (ms_name l)) (cs_libs c))"

definition install_landlock :: "t0_kernel \<Rightarrow> t0_spec \<Rightarrow> (t0_error, landlock_rules) result" where
  "install_landlock k s =
     (let handled = handled_fs_for_abi (t0_abi s);
          read = LANDLOCK_ACCESS_FS_READ_FILE AND handled;
          rw = (LANDLOCK_ACCESS_FS_READ_FILE OR LANDLOCK_ACCESS_FS_WRITE_FILE) AND handled
      in if \<not> tk_ruleset k then Inl RulesetRefused
         else if \<not> tk_anchor k ''/usr'' then Inl AnchorRefused
         else rbind (add_rule k ''/usr'' (Beneath ''/usr'') (usr_allow s handled)) (\<lambda>r_usr.
              rbind (all_rules (add_device k rw) BASE_DEV_RW) (\<lambda>r_rw.
              rbind (all_rules (add_device k read) BASE_DEV_RO) (\<lambda>r_ro.
              if \<not> tk_anchor k (t0_anchor s) then Inl AnchorRefused
              else rbind (all_rules (add_grant k handled) (t0_grants s)) (\<lambda>r_grants.
                   rbind (all_rules (add_path k (exec_access handled)) (island_paths s)) (\<lambda>r_islands.
                   if \<not> tk_no_new_privs k then Inl NoPrivileges
                   else if \<not> tk_restrict k then Inl NotRestricted
                   else Inr (r_usr @ r_rw @ r_ro @ r_grants @ r_islands)))))))"

section \<open>The two processes\<close>

text \<open>What the first instruction of a workload runs behind.\<close>

record t0_process =
  tp_target :: string
  tp_args :: "string list"
  tp_fds :: "nat list"
  tp_mounts :: mounts
  tp_rules :: landlock_rules
  tp_filter :: "sock_filter list"

text \<open>
  The scrub of inherited descriptors; without the system call, those the listing of the process yields
  are closed one by one, and no listing closes none.
\<close>

definition scrub_fds :: "t0_kernel \<Rightarrow> nat list \<Rightarrow> nat list" where
  "scrub_fds k fds =
     (if tk_close_range k then filter (\<lambda>n. n < 3) fds
      else case tk_fd_listing k of
        None \<Rightarrow> fds
      | Some listed \<Rightarrow> filter (\<lambda>n. n \<le> 2 \<or> \<not> List.member listed n) fds)"

definition sandbox_init_and_exec :: "t0_kernel \<Rightarrow> t0_spec \<Rightarrow> nat list \<Rightarrow> mounts \<Rightarrow> nat + t0_process" where
  "sandbox_init_and_exec k s fds ms =
     (case install_landlock k s of
        Inl _ \<Rightarrow> Inl 126
      | Inr rules \<Rightarrow>
          if \<not> tk_seccomp k then Inl 126
          else
            let target = (if t0_exec_island s \<noteq> None then island_path (t0_id s) else hd (t0_workload s))
            in if tk_exec k target
               then Inr \<lparr>tp_target = target, tp_args = tl (t0_workload s), tp_fds = scrub_fds k fds,
                         tp_mounts = ms, tp_rules = rules, tp_filter = build_seccomp_program\<rparr>
               else Inl 127)"

text \<open>The status word of a process that exits with a code, and the code the waiter makes of a status.\<close>

definition exit_word :: "nat \<Rightarrow> u32" where
  "exit_word n = push_bit 8 (of_nat n AND 0xFF)"

definition wait_code :: "u32 \<Rightarrow> nat" where
  "wait_code st =
     (if st AND 0x7F = 0 then unat (drop_bit 8 st AND 0xFF) else 128 + unat (st AND 0x7F))"

definition build_islands :: "t0_kernel \<Rightarrow> t0_spec \<Rightarrow> mounts \<Rightarrow> staged" where
  "build_islands k s ms =
     (case t0_exec_island s of
        None \<Rightarrow> (None, ms)
      | Some fd \<Rightarrow>
          (case t0_closure s of
             Some c \<Rightarrow> build_closure_island k s fd c ms
           | None \<Rightarrow> build_exec_island k s fd ms))"

text \<open>
  The outer process: its steps in order, then the islands, then the inner process and the wait for it.
  Its exit code, and the workload if one started.  The waits for a child succeed.
\<close>

definition STEPS :: "string list" where
  "STEPS = [''unshare'', ''setgroups'', ''gid_map'', ''uid_map'', ''mount-private'']"

definition outer_process ::
  "t0_kernel \<Rightarrow> t0_spec \<Rightarrow> string \<Rightarrow> nat list \<Rightarrow> mounts \<Rightarrow> nat \<times> t0_process option" where
  "outer_process k s leaf fds ms =
     (case join_self k leaf of
        Inl _ \<Rightarrow> (125, None)
      | Inr _ \<Rightarrow>
          if \<not> list_all (tk_step k) STEPS then (125, None)
          else case build_islands k s ms of
            (Some _, _) \<Rightarrow> (125, None)
          | (None, ms') \<Rightarrow>
              if \<not> tk_step k ''fork'' then (125, None)
              else case sandbox_init_and_exec k s fds ms' of
                Inl code \<Rightarrow> (wait_code (exit_word code), None)
              | Inr p \<Rightarrow> (wait_code (tk_status k (tp_target p # tp_args p)), Some p))"

definition construct_t0 ::
  "t0_kernel \<Rightarrow> t0_spec \<Rightarrow> nat list \<Rightarrow> mounts \<Rightarrow> (t0_error, nat) result \<times> t0_process option" where
  "construct_t0 k s fds ms =
     (if t0_workload s = [] then (Inl NoWorkload, None)
      else case cg_create k (t0_id s) (t0_mem_max s) (t0_pids_max s) of
        Inl e \<Rightarrow> (Inl e, None)
      | Inr (leaf, _) \<Rightarrow>
          if \<not> tk_step k ''fork-outer'' then (Inl (StepFailed ''fork-outer''), None)
          else case outer_process k s leaf fds ms of
            (code, p) \<Rightarrow> (Inr (wait_code (exit_word code)), p))"

end
