(* ===== verification/T0_Filter.thy ===== *)
theory T0_Filter
  imports T0_Policy
begin

text \<open>
  What the policy of the process sandbox means: a machine for classic BPF and the function its system
  call filter computes, the bounds of its access rights, and what the parsers of an executable accept.
\<close>

unbundle bit_operations_syntax

section \<open>The machine of the filter\<close>

text \<open>
  The documented machine of classic BPF, for the instructions a filter of this kind has: a word of the
  seccomp data is loaded, forward jumps are relative to the next instruction, a return ends the run.
  Running off the program or an unknown instruction is no verdict.
\<close>

record seccomp_data =
  sd_nr :: u32
  sd_arch :: u32

definition seccomp_word :: "seccomp_data \<Rightarrow> u32 \<Rightarrow> u32 option" where
  "seccomp_word d off = (if off = 0 then Some (sd_nr d) else if off = 4 then Some (sd_arch d) else None)"

function bpf_run :: "sock_filter list \<Rightarrow> seccomp_data \<Rightarrow> u32 \<Rightarrow> u32 option" where
  "bpf_run [] d a = None"
| "bpf_run (i # p) d a =
     (if sf_code i = 0x06 then Some (sf_k i)
      else if sf_code i = 0x20 then (case seccomp_word d (sf_k i) of None \<Rightarrow> None | Some w \<Rightarrow> bpf_run p d w)
      else if sf_code i = 0x15 then bpf_run (drop (unat (if a = sf_k i then sf_jt i else sf_jf i)) p) d a
      else if sf_code i = 0x35 then bpf_run (drop (unat (if sf_k i \<le> a then sf_jt i else sf_jf i)) p) d a
      else None)"
  by pat_completeness auto
termination by (relation "measure (\<lambda>(p, d, a). length p)") auto

lemmas bpf_consts =
  BPF_LD_def BPF_W_def BPF_ABS_def BPF_JMP_def BPF_JEQ_def BPF_K_def BPF_RET_def
  SECCOMP_DATA_ARCH_OFFSET_def SECCOMP_DATA_NR_OFFSET_def X32_SYSCALL_BIT_def

lemma bpf_codes [simp]:
  "BPF_RET OR BPF_K = 0x06" "BPF_LD OR BPF_W OR BPF_ABS = 0x20" "BPF_JMP OR BPF_JEQ OR BPF_K = 0x15"
  "BPF_JMP OR 0x30 OR BPF_K = 0x35"
  by (simp_all add: bpf_consts)

lemma run_stmt [simp]:
  "bpf_run (stmt 0x06 k # p) d a = Some k"
  "bpf_run (stmt 0x20 k # p) d a = (case seccomp_word d k of None \<Rightarrow> None | Some w \<Rightarrow> bpf_run p d w)"
  by (simp_all add: stmt_def)

lemma run_jump [simp]:
  "bpf_run (jump 0x15 k jt jf # p) d a = bpf_run (drop (unat (if a = k then jt else jf)) p) d a"
  "bpf_run (jump 0x35 k jt jf # p) d a = bpf_run (drop (unat (if k \<le> a then jt else jf)) p) d a"
  by (simp_all add: jump_def)

declare bpf_run.simps(2) [simp del]

text \<open>A chain of denials returns the error at the first number that is met.\<close>

lemma run_denials:
  "bpf_run (concat (map (\<lambda>(n, nr). deny_pair nr) ds) @ p) d a =
     (if a \<in> snd ` set ds then Some (SECCOMP_RET_ERRNO OR EPERM) else bpf_run p d a)"
  by (induction ds) (auto simp: deny_pair_def split: prod.splits)

text \<open>
  C14: the system call filter, exactly, for every architecture and every system call number: the program
  always ends with a verdict; a call of a foreign architecture or in the x32 range kills the process, a
  denied number returns EPERM, and any other is allowed.
\<close>

theorem filter_is_the_deny_list:
  "bpf_run build_seccomp_program d a =
     Some (if sd_arch d = AUDIT_ARCH_X86_64 \<and> sd_nr d < X32_SYSCALL_BIT
           then if sd_nr d \<in> snd ` set SECCOMP_DENY then SECCOMP_RET_ERRNO OR EPERM else SECCOMP_RET_ALLOW
           else SECCOMP_RET_KILL_PROCESS)"
proof -
  have words: "seccomp_word d SECCOMP_DATA_ARCH_OFFSET = Some (sd_arch d)"
    "seccomp_word d SECCOMP_DATA_NR_OFFSET = Some (sd_nr d)"
    by (simp_all add: seccomp_word_def bpf_consts)
  show ?thesis
    by (auto simp: build_seccomp_program_def words run_denials not_less)
qed

section \<open>Access rights\<close>

definition read_only_rights :: u64 where
  "read_only_rights = LANDLOCK_ACCESS_FS_EXECUTE OR LANDLOCK_ACCESS_FS_READ_FILE OR LANDLOCK_ACCESS_FS_READ_DIR"

lemmas access_consts =
  LANDLOCK_ACCESS_FS_EXECUTE_def LANDLOCK_ACCESS_FS_WRITE_FILE_def LANDLOCK_ACCESS_FS_READ_FILE_def
  LANDLOCK_ACCESS_FS_READ_DIR_def LANDLOCK_ACCESS_FS_REFER_def LANDLOCK_ACCESS_FS_TRUNCATE_def
  LANDLOCK_ACCESS_FS_IOCTL_DEV_def

lemma handled_cases:
  "handled_fs_for_abi abi \<in> {0x1FFF, 0x3FFF, 0x7FFF, 0xFFFF}"
  by (simp add: handled_fs_for_abi_def access_consts push_bit_eq_mult Let_def)

lemma usr_access_handled: "usr_access (handled_fs_for_abi abi) = read_only_rights"
  using handled_cases [of abi]
  by (auto simp: usr_access_def read_only_rights_def access_consts push_bit_eq_mult)

end
