(* ===== verification/T0_Safety.thy ===== *)
theory T0_Safety
  imports T0_Plane T0_Filter
begin

text \<open>
  What the first instruction of a workload in the process sandbox runs behind: the filter, the rights of
  its Landlock rules, and the executable surface of its islands.
\<close>

unbundle bit_operations_syntax

section \<open>The rules\<close>

lemma add_rule_inv: "add_rule k p b a = Inr rs \<Longrightarrow> rs = [(b, a)]"
  by (auto simp: add_rule_def split: if_splits)

lemma all_rules_from:
  assumes "all_rules f ps = Inr rs" and "\<And>p r. f p = Inr r \<Longrightarrow> set r \<subseteq> {(Beneath p, a)}"
  shows "set rs \<subseteq> (\<lambda>p. (Beneath p, a)) ` set ps"
  using assms(1)
proof (induction ps arbitrary: rs)
  case (Cons p ps)
  then obtain r rs' where "f p = Inr r" "all_rules f ps = Inr rs'" "rs = r @ rs'"
    by (auto simp: rbind_Inr)
  with Cons.IH assms(2) show ?case
    by fastforce
qed simp

lemma add_path_inv: "add_path k a p = Inr r \<Longrightarrow> set r \<subseteq> {(Beneath p, a)}"
  by (auto simp: add_path_def split: if_splits dest: add_rule_inv)

lemma add_device_inv: "add_device k a p = Inr r \<Longrightarrow> set r \<subseteq> {(Beneath p, a)}"
  by (auto simp: add_device_def split: if_splits dest: add_rule_inv)

lemmas path_rules = all_rules_from [OF _ add_path_inv]
lemmas device_rules = all_rules_from [OF _ add_device_inv]

lemma grant_rules:
  "all_rules (add_grant k h) ns = Inr rs
   \<Longrightarrow> list_all2 (\<lambda>n r. \<exists>p. pin_beneath (tk_mount k) n = Some p
                     \<and> r = (BeneathPin n p, grant_access (pi_is_dir p) h)) ns rs"
proof (induction ns arbitrary: rs)
  case (Cons n ns)
  then show ?case
    by (auto simp: rbind_Inr add_grant_def split: option.splits dest!: add_rule_inv)
qed simp

text \<open>Whatever the version of the kernel, the rights the rules speak of are handled.\<close>

lemma rights [simp]:
  "usr_access (handled_fs_for_abi abi) = 13"
  "(LANDLOCK_ACCESS_FS_READ_FILE OR LANDLOCK_ACCESS_FS_READ_DIR) AND handled_fs_for_abi abi = 12"
  "(LANDLOCK_ACCESS_FS_READ_FILE OR LANDLOCK_ACCESS_FS_WRITE_FILE) AND handled_fs_for_abi abi = 6"
  "LANDLOCK_ACCESS_FS_READ_FILE AND handled_fs_for_abi abi = 4"
  "exec_access (handled_fs_for_abi abi) = 5"
  "grant_access d (handled_fs_for_abi abi) = (if d then 12 else 4)"
  using handled_cases [of abi]
  by (auto simp: usr_access_def exec_access_def grant_access_def access_consts push_bit_eq_mult)

lemma landlock_parts:
  assumes "install_landlock k s = Inr rs"
  obtains r_rw r_ro r_grants r_islands where
    "rs = (Beneath ''/usr'', if t0_exec_island s \<noteq> None then 12 else 13) # r_rw @ r_ro @ r_grants @ r_islands"
    "set r_rw \<subseteq> (\<lambda>p. (Beneath p, 6)) ` set BASE_DEV_RW"
    "set r_ro \<subseteq> (\<lambda>p. (Beneath p, 4)) ` set BASE_DEV_RO"
    "list_all2 (\<lambda>n r. \<exists>p. pin_beneath (tk_mount k) n = Some p
        \<and> r = (BeneathPin n p, if pi_is_dir p then 12 else 4)) (t0_grants s) r_grants"
    "set r_islands \<subseteq> (\<lambda>p. (Beneath p, 5)) ` set (island_paths s)"
proof -
  from assms obtain r_usr r_rw r_ro r_grants r_islands where
    usr: "add_rule k ''/usr'' (Beneath ''/usr'') (if t0_exec_island s \<noteq> None then 12 else 13) = Inr r_usr"
    and parts: "all_rules (add_device k 6) BASE_DEV_RW = Inr r_rw"
      "all_rules (add_device k 4) BASE_DEV_RO = Inr r_ro"
      "all_rules (add_grant k (handled_fs_for_abi (t0_abi s))) (t0_grants s) = Inr r_grants"
      "all_rules (add_path k 5) (island_paths s) = Inr r_islands"
    and rs: "rs = r_usr @ r_rw @ r_ro @ r_grants @ r_islands"
    by (auto simp: install_landlock_def usr_allow_def rbind_Inr Let_def split: if_splits)
  show ?thesis
    using add_rule_inv [OF usr] rs device_rules [OF parts(1)] device_rules [OF parts(2)]
      grant_rules [OF parts(3)] path_rules [OF parts(4)]
    by (intro that [of r_rw r_ro r_grants r_islands]) simp_all
qed

section \<open>What a started workload runs behind\<close>

lemma construct_parts:
  assumes "construct_t0 k s fds ms = (r, Some p)"
  obtains leaf w w' ms' rules where
    "t0_workload s \<noteq> []" "cg_create k (t0_id s) (t0_mem_max s) (t0_pids_max s) = Inr (leaf, w)"
    "join_self k leaf = Inr w'" "list_all (tk_step k) STEPS" "build_islands k s ms = (None, ms')"
    "install_landlock k s = Inr rules" "tk_seccomp k"
    "p = \<lparr>tp_target = (if t0_exec_island s \<noteq> None then island_path (t0_id s) else hd (t0_workload s)),
           tp_args = tl (t0_workload s), tp_fds = scrub_fds k fds, tp_mounts = ms', tp_rules = rules,
           tp_filter = build_seccomp_program\<rparr>"
    "r = Inr (wait_code (exit_word (wait_code (tk_status k (tp_target p # tp_args p)))))"
  using assms
  by (auto simp: construct_t0_def outer_process_def sandbox_init_and_exec_def Let_def
      split: if_splits sum.splits prod.splits option.splits)

definition pins_of :: "t0_kernel \<Rightarrow> t0_spec \<Rightarrow> beneath set" where
  "pins_of k s = {BeneathPin n q | n q. n \<in> set (t0_grants s) \<and> pin_beneath (tk_mount k) n = Some q}"

lemma grant_rule_set:
  assumes "list_all2 (\<lambda>n r. \<exists>p. pin_beneath (tk_mount k) n = Some p
      \<and> r = (BeneathPin n p, if pi_is_dir p then 12 else (4 :: u64))) (t0_grants s) rs"
  shows "set rs \<subseteq> pins_of k s \<times> {4, 12}"
proof
  fix x assume "x \<in> set rs"
  then obtain i where i: "i < length rs" "x = rs ! i"
    by (auto simp: in_set_conv_nth)
  with list_all2_nthD2 [OF assms i(1)] list_all2_lengthD [OF assms]
  show "x \<in> pins_of k s \<times> {4, 12}"
    by (force simp: pins_of_def)
qed

lemma rule_sets:
  assumes "install_landlock k s = Inr rs"
  shows "set rs \<subseteq> {(Beneath ''/usr'', if t0_exec_island s \<noteq> None then 12 else 13)}
      \<union> Beneath ` set BASE_DEV_RW \<times> {6} \<union> Beneath ` set BASE_DEV_RO \<times> {4}
      \<union> pins_of k s \<times> {4, 12} \<union> Beneath ` set (island_paths s) \<times> {5}"
  using assms
proof (rule landlock_parts)
  fix r_rw r_ro r_grants r_islands
  assume rs: "rs = (Beneath ''/usr'', if t0_exec_island s \<noteq> None then 12 else 13) # r_rw @ r_ro @ r_grants @ r_islands"
    and rw: "set r_rw \<subseteq> (\<lambda>p. (Beneath p, 6)) ` set BASE_DEV_RW"
    and ro: "set r_ro \<subseteq> (\<lambda>p. (Beneath p, 4)) ` set BASE_DEV_RO"
    and gr: "list_all2 (\<lambda>n r. \<exists>p. pin_beneath (tk_mount k) n = Some p
        \<and> r = (BeneathPin n p, if pi_is_dir p then 12 else 4)) (t0_grants s) r_grants"
    and isl: "set r_islands \<subseteq> (\<lambda>p. (Beneath p, 5)) ` set (island_paths s)"
  show ?thesis
    using rw ro grant_rule_set [OF gr] isl unfolding rs by auto
qed


section \<open>The executable surface of the islands\<close>

lemma and_then_ok: "and_then r f = (None, ms') \<longleftrightarrow> (\<exists>ms1. r = (None, ms1) \<and> f ms1 = (None, ms'))"
  by (auto simp: and_then_def split: prod.splits option.splits)

lemma labelled_ok: "labelled l r = (None, ms') \<longleftrightarrow> r = (None, ms')"
  by (auto simp: labelled_def split: prod.splits option.splits)

lemmas staged_ok = and_then_ok labelled_ok

text \<open>The mounts a step adds: none of them can be executed from, and which of them are read-only.\<close>

definition unexecutable :: "mounts \<Rightarrow> bool" where
  "unexecutable ms \<longleftrightarrow> list_all (\<lambda>m. mf_noexec (me_flags m) \<and> mf_nosuid (me_flags m) \<and> mf_nodev (me_flags m)) ms"

lemma unexecutable_simps [simp]: "unexecutable []" "unexecutable (m # ms) \<longleftrightarrow> mf_noexec (me_flags m) \<and> mf_nosuid (me_flags m)
    \<and> mf_nodev (me_flags m) \<and> unexecutable ms" "unexecutable (ms1 @ ms2) \<longleftrightarrow> unexecutable ms1 \<and> unexecutable ms2"
  by (auto simp: unexecutable_def)

lemma seal_with_ok:
  "seal_with fl k path ms = (None, ms') \<Longrightarrow> \<exists>i. ms' = \<lparr>me_target = path, me_source = i, me_flags = fl\<rparr> # ms"
  by (auto simp: seal_with_def remount_def split: if_splits option.splits)

lemma seal_subtree_ok:
  "seal_subtree_noexec k path ms = (None, ms') \<Longrightarrow> \<exists>m. ms' = m # ms \<and> unexecutable [m]"
  "seal_subtree_noexec_writable k path ms = (None, ms') \<Longrightarrow> \<exists>m. ms' = m # ms \<and> unexecutable [m]"
  by (auto simp: seal_subtree_noexec_def seal_subtree_noexec_writable_def ro_noexec_def rw_noexec_def
      dest!: seal_with_ok)

lemma mask_ok: "mask_with_empty k t ms = (None, ms') \<Longrightarrow> \<exists>new. ms' = new @ ms \<and> unexecutable new"
  by (auto simp: mask_with_empty_def remount_def ro_noexec_def Let_def split: if_splits option.splits)

lemma seal_grants_ok:
  "seal_grants k a ns ms = (None, ms')
   \<Longrightarrow> \<exists>new. ms' = new @ ms \<and> unexecutable new \<and> map me_target new = rev (map (path_join a) ns)
         \<and> list_all (mf_rdonly \<circ> me_flags) new"
proof (induction ns arbitrary: ms)
  case (Cons n ns)
  then obtain m where m: "seal_grants k a ns (m # ms) = (None, ms')" "me_target m = path_join a n"
    "me_flags m = ro_noexec"
    by (auto simp: staged_ok seal_noexec_in_place_def split: option.splits dest!: relocate_with_ok)
  from Cons.IH [OF m(1)] obtain new where "ms' = new @ m # ms" "unexecutable new"
    "map me_target new = rev (map (path_join a) ns)" "list_all (mf_rdonly \<circ> me_flags) new"
    by blast
  with m(2,3) show ?case
    by (intro exI [of _ "new @ [m]"]) (simp add: ro_noexec_def comp_def)
qed simp

lemma member_is_authenticated:
  assumes "relocate_member k source a dg target ms = (None, ms2)"
  shows "\<exists>m. ms2 = m # ms \<and> me_target m = member_target k target \<and> me_flags m = ro_exec
     \<and> (\<exists>ms0. mk_verity_at k (me_target m) ms0 = Some (a, dg))"
  using assms by (auto simp: relocate_member_def split: option.splits if_splits dest!: island_bind_ok)

lemma entry_is_authenticated:
  assumes "relocate_exec_island k entry oracle target ms = (None, ms2)"
  shows "\<exists>m d. ms2 = m # ms \<and> me_target m = target \<and> me_flags m = ro_exec \<and> mk_fd_verity k oracle = Some d
     \<and> (\<exists>ms0. mk_verity_at k (me_target m) ms0 = Some d)"
  using assms by (auto simp: relocate_exec_island_def split: option.splits if_splits dest!: island_bind_ok)

lemma relocate_libs_ok:
  "relocate_libs k rid dir ls ms = (None, ms')
   \<Longrightarrow> \<exists>new. ms' = new @ ms
         \<and> map me_target new = rev (map (\<lambda>l. member_target (tk_mount k) (island_lib_path rid (ms_name l))) ls)
         \<and> list_all (\<lambda>m. me_flags m = ro_exec) new
         \<and> list_all2 (\<lambda>m d. \<exists>ms0. mk_verity_at (tk_mount k) (me_target m) ms0 = Some d) new
             (rev (map (\<lambda>l. (ms_algo l, ms_digest l)) ls))"
proof (induction ls arbitrary: ms)
  case (Cons l ls)
  then obtain ms1 where m: "relocate_member (tk_mount k) (path_join dir (ms_name l)) (ms_algo l) (ms_digest l)
        (island_lib_path rid (ms_name l)) ms = (None, ms1)" "relocate_libs k rid dir ls ms1 = (None, ms')"
    by (auto simp: staged_ok)
  from member_is_authenticated [OF m(1)] obtain m where "ms1 = m # ms"
    "me_target m = member_target (tk_mount k) (island_lib_path rid (ms_name l))" "me_flags m = ro_exec"
    "\<exists>ms0. mk_verity_at (tk_mount k) (me_target m) ms0 = Some (ms_algo l, ms_digest l)"
    by blast
  moreover from Cons.IH [OF m(2)] obtain new where "ms' = new @ ms1"
    "map me_target new = rev (map (\<lambda>l. member_target (tk_mount k) (island_lib_path rid (ms_name l))) ls)"
    "list_all (\<lambda>m. me_flags m = ro_exec) new"
    "list_all2 (\<lambda>m d. \<exists>ms0. mk_verity_at (tk_mount k) (me_target m) ms0 = Some d) new
       (rev (map (\<lambda>l. (ms_algo l, ms_digest l)) ls))"
    by blast
  ultimately show ?case
    by (intro exI [of _ "new @ [m]"]) (simp add: list_all2_appendI)
qed simp

text \<open>The members besides the entry: where they are bound, and what they must measure.\<close>

definition members :: "t0_spec \<Rightarrow> (string \<times> u16 \<times> digest) list" where
  "members s =
     (case t0_closure s of
        None \<Rightarrow> []
      | Some c \<Rightarrow> (ms_name (cs_interp c), ms_algo (cs_interp c), ms_digest (cs_interp c))
               # map (\<lambda>l. (island_lib_path (t0_id s) (ms_name l), ms_algo l, ms_digest l)) (cs_libs c))"

definition entry_admitted :: "t0_spec \<Rightarrow> string \<Rightarrow> bool" where
  "entry_admitted s f \<longleftrightarrow>
     (case t0_closure s of None \<Rightarrow> reject_if_dynamic f = None | Some c \<Rightarrow> authenticate_closure f c = None)"

text \<open>
  What the islands leave on the mounts: first what cannot be executed, then the entry, then the members,
  the newest first.
\<close>

definition surface :: "mount_kernel \<Rightarrow> t0_spec \<Rightarrow> nat \<Rightarrow> mounts \<Rightarrow> mounts \<Rightarrow> bool" where
  "surface k s fd ms ms' \<longleftrightarrow>
     (\<exists>ex walls d. ms' = ex @ walls @ ms \<and> unexecutable walls
        \<and> set (map (path_join (t0_anchor s)) (t0_grants s))
            \<subseteq> me_target ` {m \<in> set walls. mf_rdonly (me_flags m)}
        \<and> list_all (\<lambda>m. me_flags m = ro_exec) ex
        \<and> map me_target ex = rev (island_path (t0_id s) # map (\<lambda>(t, _). member_target k t) (members s))
        \<and> mk_fd_verity k fd = Some d
        \<and> list_all2 (\<lambda>m d. \<exists>ms0. mk_verity_at k (me_target m) ms0 = Some d) ex (rev (d # map snd (members s))))"

lemma island_opened_ok:
  assumes "island_opened k s ms = (None, ms')"
  shows "\<exists>new. ms' = new @ ms \<and> unexecutable new
     \<and> set (map (path_join (t0_anchor s)) (t0_grants s)) \<subseteq> me_target ` {m \<in> set new. mf_rdonly (me_flags m)}"
proof -
  from assms have "seal_grants k (t0_anchor s) (t0_grants s) ms = (None, ms')"
    by (auto simp: island_opened_def split: if_splits)
  from seal_grants_ok [OF this] obtain new where new: "ms' = new @ ms" "unexecutable new"
    "map me_target new = rev (map (path_join (t0_anchor s)) (t0_grants s))"
    "list_all (mf_rdonly \<circ> me_flags) new" by blast
  from arg_cong [OF new(3), of set] new(4)
  have "set (map (path_join (t0_anchor s)) (t0_grants s)) \<subseteq> me_target ` {m \<in> set new. mf_rdonly (me_flags m)}"
    by (auto simp: list_all_iff)
  with new show ?thesis by blast
qed

lemma root_sealed_ok:
  "root_sealed k rid made ms = (None, ms') \<Longrightarrow> \<exists>m. ms' = m # ms \<and> unexecutable [m]"
  by (auto simp: root_sealed_def labelled_ok split: if_splits dest!: seal_subtree_ok(2))

lemma entry_checked_ok:
  "entry_checked l c k rid ms = (None, ms') \<Longrightarrow> ms' = ms \<and> (\<exists>f. tk_bytes k (island_path rid) ms = Some f \<and> c f = None)"
  by (auto simp: entry_checked_def split: option.splits)

lemma flags_ok: "verify_island_exec_flags k rid libs ms = (None, ms') \<Longrightarrow> ms' = ms"
  by (simp add: verify_island_exec_flags_def)

lemma static_surface:
  assumes "build_exec_island k s fd ms = (None, ms')" and "t0_closure s = None"
  shows "surface (tk_mount k) s fd ms ms'
     \<and> (\<exists>f. tk_bytes k (island_path (t0_id s)) ms' = Some f \<and> entry_admitted s f)"
proof -
  from assms(1) obtain ms1 ms2 ms3 ms4 where steps: "island_opened k s ms = (None, ms1)"
    "root_sealed k (t0_id s) (island_root (t0_id s)) ms1 = (None, ms2)"
    "relocate_exec_island (tk_mount k) (hd (t0_workload s)) fd (island_path (t0_id s)) ms2 = (None, ms3)"
    and bytes: "entry_checked ''static-pie-check'' reject_if_dynamic k (t0_id s) ms3 = (None, ms4)"
      "verify_island_exec_flags k (t0_id s) [] ms4 = (None, ms')"
    by (auto simp: build_exec_island_def staged_ok)
  from island_opened_ok [OF steps(1)] obtain new where new: "ms1 = new @ ms" "unexecutable new"
    "set (map (path_join (t0_anchor s)) (t0_grants s)) \<subseteq> me_target ` {m \<in> set new. mf_rdonly (me_flags m)}"
    by blast
  from root_sealed_ok [OF steps(2)] obtain m where m: "ms2 = m # ms1" "unexecutable [m]" by blast
  from entry_is_authenticated [OF steps(3)] obtain e d where "ms3 = e # ms2"
    "me_target e = island_path (t0_id s)" "me_flags e = ro_exec" "mk_fd_verity (tk_mount k) fd = Some d"
    "\<exists>ms0. mk_verity_at (tk_mount k) (me_target e) ms0 = Some d" by blast
  moreover from new(3) have "set (map (path_join (t0_anchor s)) (t0_grants s))
      \<subseteq> me_target ` {x \<in> set (m # new). mf_rdonly (me_flags x)}"
    by auto
  moreover have "ms' = ms3" and "\<exists>f. tk_bytes k (island_path (t0_id s)) ms' = Some f \<and> entry_admitted s f"
    using entry_checked_ok [OF bytes(1)] flags_ok [OF bytes(2)] assms(2) by (auto simp: entry_admitted_def)
  ultimately show ?thesis
    using new(1,2) m
    unfolding surface_def members_def assms(2)
    by (intro conjI exI [of _ "[e]"] exI [of _ "m # new"] exI [of _ d]) simp_all
qed

lemma closure_surface:
  assumes "build_closure_island k s fd c ms = (None, ms')" and "t0_closure s = Some c"
  shows "surface (tk_mount k) s fd ms ms'
     \<and> (\<exists>f. tk_bytes k (island_path (t0_id s)) ms' = Some f \<and> entry_admitted s f)"
proof -
  from assms(1) obtain ms1 ms2 ms3 ms4 ms5 ms6 ms7 ms8 ms9 dir where steps: "island_opened k s ms = (None, ms1)"
    "seal_subtree_noexec k ''/usr'' ms1 = (None, ms2)"
    "mask_with_empty k ''/etc/ld.so.preload'' ms2 = (None, ms3)"
    "mask_with_empty k ''/etc/ld.so.cache'' ms3 = (None, ms4)"
    "root_sealed k (t0_id s) (path_join (island_root (t0_id s)) ''lib'') ms4 = (None, ms5)"
    "relocate_exec_island (tk_mount k) (hd (t0_workload s)) fd (island_path (t0_id s)) ms5 = (None, ms6)"
    "relocate_member (tk_mount k) (path_join dir (base_name (ms_name (cs_interp c))))
       (ms_algo (cs_interp c)) (ms_digest (cs_interp c)) (ms_name (cs_interp c)) ms6 = (None, ms7)"
    "relocate_libs k (t0_id s) dir (cs_libs c) ms7 = (None, ms8)"
    and bytes: "entry_checked ''authenticate-closure'' (\<lambda>f. authenticate_closure f c) k (t0_id s) ms8 = (None, ms9)"
      "verify_island_exec_flags k (t0_id s) (map ms_name (cs_libs c)) ms9 = (None, ms')"
    by (auto simp: build_closure_island_def staged_ok split: option.splits)
  from island_opened_ok [OF steps(1)] seal_subtree_ok(1) [OF steps(2)] mask_ok [OF steps(3)] mask_ok [OF steps(4)]
    root_sealed_ok [OF steps(5)]
  obtain gs u p q m where walls: "ms5 = (m # q @ p @ u # gs) @ ms" "unexecutable (m # q @ p @ u # gs)"
    and grants: "set (map (path_join (t0_anchor s)) (t0_grants s)) \<subseteq> me_target ` {m \<in> set gs. mf_rdonly (me_flags m)}"
    by fastforce
  from grants have grants': "set (map (path_join (t0_anchor s)) (t0_grants s))
      \<subseteq> me_target ` {x \<in> set (m # q @ p @ u # gs). mf_rdonly (me_flags x)}"
    by auto
  from entry_is_authenticated [OF steps(6)] member_is_authenticated [OF steps(7)] relocate_libs_ok [OF steps(8)]
  obtain e d i ls where "ms8 = (ls @ [i, e]) @ ms5" "mk_fd_verity (tk_mount k) fd = Some d"
    "list_all (\<lambda>m. me_flags m = ro_exec) (ls @ [i, e])"
    and targets: "map me_target ls = rev (map (\<lambda>l. member_target (tk_mount k) (island_lib_path (t0_id s) (ms_name l))) (cs_libs c))"
      "me_target i = member_target (tk_mount k) (ms_name (cs_interp c))" "me_target e = island_path (t0_id s)"
    and digests: "list_all2 (\<lambda>m d. \<exists>ms0. mk_verity_at (tk_mount k) (me_target m) ms0 = Some d) ls
       (rev (map (\<lambda>l. (ms_algo l, ms_digest l)) (cs_libs c)))"
      "\<exists>ms0. mk_verity_at (tk_mount k) (me_target i) ms0 = Some (ms_algo (cs_interp c), ms_digest (cs_interp c))"
      "\<exists>ms0. mk_verity_at (tk_mount k) (me_target e) ms0 = Some d"
    by fastforce
  moreover have "list_all2 (\<lambda>m d. \<exists>ms0. mk_verity_at (tk_mount k) (me_target m) ms0 = Some d) (ls @ [i, e])
      (rev (d # map snd (members s)))"
    using digests assms(2) by (simp add: members_def comp_def list_all2_appendI)
  moreover have "map me_target (ls @ [i, e])
      = rev (island_path (t0_id s) # map (\<lambda>(t, _). member_target (tk_mount k) t) (members s))"
    using targets assms(2) by (simp add: members_def comp_def)
  moreover have "ms' = ms8" and "\<exists>f. tk_bytes k (island_path (t0_id s)) ms' = Some f \<and> entry_admitted s f"
    using entry_checked_ok [OF bytes(1)] flags_ok [OF bytes(2)] assms(2) by (auto simp: entry_admitted_def)
  ultimately show ?thesis
    using walls grants'
    unfolding surface_def
    by (intro conjI exI [of _ "ls @ [i, e]"] exI [of _ "m # q @ p @ u # gs"] exI [of _ d]) simp_all
qed


section \<open>What the caller is told\<close>

lemma wait_exit: "wait_code (exit_word n) = n mod 256"
proof -
  have masks: "(0xFF :: u32) = mask 8" "(0x7F :: u32) = mask 7"
    by (simp_all add: mask_eq_exp_minus_1)
  have low: "(push_bit 8 (of_nat n AND 0xFF) :: u32) AND 0x7F = 0"
    unfolding masks by (auto simp: bit_eq_iff bit_simps)
  have high: "drop_bit 8 (push_bit 8 (of_nat n AND 0xFF) :: u32) AND 0xFF = of_nat n AND 0xFF"
    unfolding masks by (auto simp: bit_eq_iff bit_simps)
  show ?thesis
    unfolding wait_code_def exit_word_def low high
    unfolding masks
    by (simp only: take_bit_eq_mask [symmetric] unsigned_take_bit_eq unsigned_of_nat take_bit_take_bit)
      (simp add: take_bit_eq_mod mod_mod_cancel)
qed

lemma wait_code_bound: "wait_code st < 256"
proof -
  have masks: "(0xFF :: u32) = mask 8" "(0x7F :: u32) = mask 7"
    by (simp_all add: mask_eq_exp_minus_1)
  have "unat (x AND mask 8) < 2 ^ 8" "unat (x AND mask 7) < 2 ^ 7" for x :: u32
    by (simp_all only: take_bit_eq_mask [symmetric] unsigned_take_bit_eq) (simp_all add: take_bit_eq_mod)
  from this(1) [of "drop_bit 8 st"] this(2) [of st] show ?thesis
    unfolding wait_code_def masks by simp
qed

text \<open>
  what the caller of the constructor is told: when a workload ran, the code of its own end, 128 plus
  the signal that killed it; when none ran, an error of the setup or one of the codes 125, 126 and 127.
\<close>

theorem exit_code_is_exact:
  "case construct_t0 k s fds ms of
     (r, Some p) \<Rightarrow> r = Inr (wait_code (tk_status k (tp_target p # tp_args p)))
   | (r, None) \<Rightarrow> isl r \<or> r \<in> Inr ` {125, 126, 127}"
proof (cases "construct_t0 k s fds ms")
  case (Pair r q)
  show ?thesis
  proof (cases q)
    case None
    with Pair show ?thesis
      by (auto simp: construct_t0_def outer_process_def sandbox_init_and_exec_def wait_exit Let_def
          split: if_splits sum.splits prod.splits option.splits)
  next
    case (Some p)
    then have "construct_t0 k s fds ms = (r, Some p)" using Pair by simp
    then have "r = Inr (wait_code (exit_word (wait_code (tk_status k (tp_target p # tp_args p)))))"
      by (rule construct_parts)
    then show ?thesis
      using Pair Some by (simp add: wait_exit wait_code_bound)
  qed
qed

text \<open>
  the scrub of the inherited descriptors does not fail closed: without the system call and without the
  listing of the process, the workload starts with every descriptor of its parent.
\<close>

theorem failed_scrub_keeps_descriptors:
  assumes "\<not> tk_close_range k" and "tk_fd_listing k = None" and "construct_t0 k s fds ms = (r, Some p)"
  shows "tp_fds p = fds"
  using assms(3)
  by (rule construct_parts) (simp add: scrub_fds_def assms(1,2))

section \<open>A sandbox that starts\<close>

text \<open>A loader-free executable: a header and one loadable segment.\<close>

definition plain_elf :: string where
  "plain_elf =
     [CHR 0x7F, CHR ''E'', CHR ''L'', CHR ''F'', CHR 0x02, CHR 0x01] @ replicate 26 (CHR 0x00)
     @ CHR 0x40 # replicate 21 (CHR 0x00) @ [CHR 0x38, CHR 0x00, CHR 0x01] @ replicate 7 (CHR 0x00)
     @ CHR 0x01 # replicate 55 (CHR 0x00)"

definition calm_t0 :: t0_kernel where
  "calm_t0 =
     \<lparr>tk_mount = calm_kernel\<lparr>mk_at := \<lambda>t ms. (case find (\<lambda>m. me_target m = t) ms of Some m \<Rightarrow> Some (me_source m)
                                                | None \<Rightarrow> Some calm_ident)\<rparr>,
      tk_anchor = (\<lambda>_. True), tk_self_bind = (\<lambda>_. True), tk_present = (\<lambda>_. True),
      tk_mask_bind = (\<lambda>_. True),
      tk_noexec = (\<lambda>t ms. map_option (mf_noexec \<circ> me_flags) (find (\<lambda>m. me_target m = t) ms)),
      tk_bytes = (\<lambda>_ _. Some plain_elf), tk_step = (\<lambda>_. True), tk_ruleset = True, tk_rule = (\<lambda>_. True),
      tk_no_new_privs = True, tk_restrict = True, tk_seccomp = True, tk_close_range = False,
      tk_fd_listing = None, tk_exec = (\<lambda>_. True), tk_status = (\<lambda>_. 0x300), tk_abi = Some 4,
      tk_cgroup = Some (''0::/gate'' @ [nl]), tk_pid = 7, tk_cg_mkdir = (\<lambda>_. True), tk_cg_write = (\<lambda>_. True)\<rparr>"

definition pinned_spec :: t0_spec where
  "pinned_spec =
     \<lparr>t0_id = ''s1'', t0_anchor = ''/srv'', t0_grants = [''data''], t0_workload = [''/srv/tool'', ''-v''],
      t0_abi = 4, t0_mem_max = 50, t0_pids_max = 9, t0_exec_island = Some 4,
      t0_closure = None\<rparr>"

lemma plain_elf_admitted: "reject_if_dynamic plain_elf = None"
  by code_simp

lemma pinned_starts:
  "case construct_t0 calm_t0 pinned_spec [0, 1, 2, 9] [] of (r, None) \<Rightarrow> False | (r, Some p) \<Rightarrow> r = Inr 3"
  by code_simp

lemma pinned_started: "\<exists>p. construct_t0 calm_t0 pinned_spec [0, 1, 2, 9] [] = (Inr 3, Some p)"
  using pinned_starts by (auto split: prod.splits option.splits)



theorem failed_scrub_keeps_descriptors_witness:
  "\<exists>p. construct_t0 calm_t0 pinned_spec [0, 1, 2, 9] [] = (Inr 3, Some p) \<and> tp_fds p = [0, 1, 2, 9]"
proof -
  obtain p where p: "construct_t0 calm_t0 pinned_spec [0, 1, 2, 9] [] = (Inr 3, Some p)"
    using pinned_started by blast
  have "\<not> tk_close_range calm_t0" "tk_fd_listing calm_t0 = None"
    by (simp_all add: calm_t0_def)
  from failed_scrub_keeps_descriptors [OF this p] p show ?thesis by blast
qed

section \<open>A file with two loaders\<close>

text \<open>The loader the kernel runs is that of the first header of its kind (documented behaviour of execve).\<close>

definition kernel_loader :: "string \<Rightarrow> (elf_error, string option) result" where
  "kernel_loader f =
     rbind (elf_header 56 f) (\<lambda>t. rbind (seek (et_phoff t)) (\<lambda>pos.
       rbind (read_headers f pos (et_phentsize t) (et_phnum t)) (\<lambda>phs.
         read_interp f (map_option (\<lambda>ph. (u64le ph 8, u64le ph 32)) (find (\<lambda>ph. u32le ph 0 = PT_INTERP) phs)))))"

definition loader_header :: "char \<Rightarrow> string" where
  "loader_header off =
     CHR 0x03 # replicate 7 (CHR 0x00) @ off # replicate 23 (CHR 0x00) @ CHR 0x03 # replicate 23 (CHR 0x00)"

definition two_loaders :: string where
  "two_loaders =
     [CHR 0x7F, CHR ''E'', CHR ''L'', CHR ''F'', CHR 0x02, CHR 0x01] @ replicate 26 (CHR 0x00)
     @ CHR 0x40 # replicate 21 (CHR 0x00) @ [CHR 0x38, CHR 0x00, CHR 0x02] @ replicate 7 (CHR 0x00)
     @ loader_header (CHR 0xB0) @ loader_header (CHR 0xB3)
     @ [CHR ''/'', CHR ''x'', CHR 0x00, CHR ''/'', CHR ''y'', CHR 0x00]"

text \<open>
  the authentication of a closure looks at the last loader a file names, the kernel runs the first: a
  file with two is admitted with the pinned one although another would run.
\<close>

theorem other_loader_is_admitted:
  "authenticate_closure two_loaders
     \<lparr>cs_interp = \<lparr>ms_algo = 1, ms_digest = [7], ms_name = ''/y'', ms_is_interp = True\<rparr>, cs_libs = []\<rparr> = None
   \<and> kernel_loader two_loaders = Inr (Some ''/x'')"
  by code_simp

end
