(* ===== verification/T1_Sandbox.thy ===== *)
theory T1_Sandbox
  imports Net_Plane Mount_Plane
begin

text \<open>
  The container constructor of \<open>gatekeeperd\<close> (\<open>construct\<close> and \<open>run_egress\<close> of
  \<open>gatekeeperd/src/sandbox.rs\<close>) on an explicit world.  The calls of the kernel, the container program
  and the resolver are parameters; a workload that starts is recorded with what it starts behind.
\<close>

section \<open>The request, the world and the host\<close>

datatype egress = NoEgress | Profiles "egress_profile list"

record sandbox_spec =
  sb_id :: string
  sb_anchor :: string
  sb_grants :: "string list"
  sb_guest_prefix :: string
  sb_workload :: "string list"
  sb_egress :: egress

record 'h t1_run =
  or_argv :: "string list"
  or_hosts :: "string option"
  or_net :: 'h
  or_mounts :: mounts

record 'h t1_world =
  ow_net :: 'h
  ow_mounts :: mounts
  ow_removed :: "string list"
  ow_runs :: "'h t1_run list"

datatype t1_error =
    PrivateFailed | RuntimeFailed | RootFailed | T1AnchorFailed | T1PinFailed string | T1Relocate mount_error
  | T1Resolve net_error | T1ResolverPanic | HostsFailed | SpawnFailed | RendezvousFailed | LeaderFailed
  | InjectFailed | GoFailed | WaitFailed

text \<open>
  The parameters: the outcome of the program is none when it could not be started or waited for, and
  no code when a signal ended it.
\<close>

record 'h t1_host =
  oh_mount :: mount_kernel
  oh_net :: "'h net_ops"
  oh_private :: bool
  oh_mkdir :: "string \<Rightarrow> bool"
  oh_write :: "string \<Rightarrow> bool"
  oh_usr :: ident
  oh_bind_usr :: "string \<Rightarrow> bool"
  oh_remount_usr :: "string \<Rightarrow> bool"
  oh_anchor :: "string \<Rightarrow> bool"
  oh_dot :: dot_lookup
  oh_projection :: string
  oh_spawn :: "string list \<Rightarrow> u32 option"
  oh_leader :: "u32 \<Rightarrow> u32 option"
  oh_exit :: "string list \<Rightarrow> int option option"

definition t1_runtime :: "sandbox_spec \<Rightarrow> string" where
  "t1_runtime s = path_join ''/run/shrek'' (sb_id s)"

definition t1_root :: "sandbox_spec \<Rightarrow> string" where
  "t1_root s = path_join (t1_runtime s) ''root''"

definition t1_stage :: "sandbox_spec \<Rightarrow> string" where
  "t1_stage s = path_join (t1_runtime s) ''grants''"

section \<open>The root of the container\<close>

definition SKELETON :: "string list" where
  "SKELETON = [''usr'', ''etc'', ''proc'', ''sys'', ''dev'', ''run'', ''tmp'']"

definition usr_flags :: mount_flags where
  "usr_flags = \<lparr>mf_rdonly = True, mf_nosuid = True, mf_nodev = True, mf_noexec = False\<rparr>"

definition bind_ro :: "'h t1_host \<Rightarrow> string \<Rightarrow> mounts \<Rightarrow> t1_error option \<times> mounts" where
  "bind_ro k target ms =
     (if \<not> oh_mkdir k target \<or> \<not> oh_bind_usr k target then (Some RootFailed, ms)
      else if \<not> oh_remount_usr k target
      then (Some RootFailed, \<lparr>me_target = target, me_source = oh_usr k, me_flags = bind_flags\<rparr> # ms)
      else (None, \<lparr>me_target = target, me_source = oh_usr k, me_flags = usr_flags\<rparr> # ms))"

definition strip_root :: "string \<Rightarrow> string" where
  "strip_root p = (if path_absolute p then str_join ''/'' (path_comps p) else p)"

definition build_synth_root :: "'h t1_host \<Rightarrow> sandbox_spec \<Rightarrow> mounts \<Rightarrow> t1_error option \<times> mounts" where
  "build_synth_root k s ms =
     (if \<not> list_all (\<lambda>d. oh_mkdir k (path_join (t1_root s) d)) SKELETON
         \<or> \<not> oh_mkdir k (path_join (t1_root s) (strip_root (sb_guest_prefix s)))
      then (Some RootFailed, ms)
      else case bind_ro k (path_join (t1_root s) ''usr'') ms of
        (Some e, ms') \<Rightarrow> (Some e, ms')
      | (None, ms') \<Rightarrow>
          (if oh_write k (path_join (t1_root s) ''etc/os-release'') then None else Some RootFailed, ms'))"

section \<open>The grants\<close>

text \<open>The binds of the container: the staged path and the path of the guest.\<close>

fun place_grants ::
  "'h t1_host \<Rightarrow> sandbox_spec \<Rightarrow> string list \<Rightarrow> mounts \<Rightarrow> (t1_error, (string \<times> string) list) result \<times> mounts" where
  "place_grants k s [] ms = (Inr [], ms)"
| "place_grants k s (n # ns) ms =
     (case pin_beneath (oh_mount k) n of
        None \<Rightarrow> (Inl (T1PinFailed n), ms)
      | Some p \<Rightarrow>
          (case relocate_ro (oh_mount k) p (path_join (t1_stage s) n) ms of
             (Some e, ms') \<Rightarrow> (Inl (T1Relocate e), ms')
           | (None, ms') \<Rightarrow>
               (case place_grants k s ns ms' of
                  (Inl e, ms2) \<Rightarrow> (Inl e, ms2)
                | (Inr bs, ms2) \<Rightarrow> (Inr ((path_join (t1_stage s) n, path_join (sb_guest_prefix s) n) # bs), ms2))))"

section \<open>The command\<close>

definition nspawn_argv :: "sandbox_spec \<Rightarrow> (string \<times> string) list \<Rightarrow> string list" where
  "nspawn_argv s binds =
     [''systemd-nspawn'', ''-q'', ''--console=pipe'', ''--register=no'', ''--keep-unit'',
      ''--machine=shrek-'' @ sb_id s, ''--directory='' @ t1_root s, ''--private-users=pick'',
      ''--private-users-ownership=off'', ''--private-network'']
     @ map (\<lambda>(src, guest). ''--bind-ro='' @ src @ '':'' @ guest) binds"

definition EGRESS_BARRIER :: string where
  "EGRESS_BARRIER =
     ''n=0; while [ ! -e /rv/go ]; do [ -e /rv/abort ] && exit 71; n=$((n+1)); [ '' @ [CHR 0x22] @ ''$n''
     @ [CHR 0x22] @ '' -gt 1200 ] && exit 71; sleep 0.05; done; exec '' @ [CHR 0x22] @ ''$@'' @ [CHR 0x22]"

definition plain_argv :: "sandbox_spec \<Rightarrow> (string \<times> string) list \<Rightarrow> string list" where
  "plain_argv s binds = nspawn_argv s binds @ ''--'' # sb_workload s"

definition barrier_argv :: "sandbox_spec \<Rightarrow> (string \<times> string) list \<Rightarrow> string list" where
  "barrier_argv s binds =
     nspawn_argv s binds
     @ [''--bind='' @ path_join (t1_runtime s) ''rv'' @ '':/rv'', ''--'', ''/bin/sh'', ''-c'', EGRESS_BARRIER,
        ''shrek-egress-barrier''] @ sb_workload s"

definition resolve_t1 :: "'h t1_host \<Rightarrow> sandbox_spec \<Rightarrow> (t1_error, resolved_egress option) result" where
  "resolve_t1 k s =
     (case sb_egress s of
        NoEgress \<Rightarrow> Inr None
      | Profiles ps \<Rightarrow>
          (case resolve_profiles_v4 (oh_dot k) (oh_projection k) ps of
             None \<Rightarrow> Inl T1ResolverPanic
           | Some (Inl e) \<Rightarrow> Inl (T1Resolve e)
           | Some (Inr r) \<Rightarrow> Inr (if re_endpoints r = [] then None else Some r)))"

section \<open>The run\<close>

definition t1_started :: "string list \<Rightarrow> string option \<Rightarrow> 'h t1_world \<Rightarrow> 'h t1_world" where
  "t1_started argv hosts w =
     w\<lparr>ow_runs := ow_runs w @ [\<lparr>or_argv = argv, or_hosts = hosts, or_net = ow_net w, or_mounts = ow_mounts w\<rparr>]\<rparr>"

definition t1_code :: "int option \<Rightarrow> int" where
  "t1_code c = (case c of Some n \<Rightarrow> n | None \<Rightarrow> - 1)"

text \<open>Run straight through, without a network to inject.\<close>

definition run_plain :: "'h t1_host \<Rightarrow> string list \<Rightarrow> 'h t1_world \<Rightarrow> (t1_error, int) result \<times> 'h t1_world" where
  "run_plain k argv w =
     (case oh_exit k argv of
        None \<Rightarrow> (Inl SpawnFailed, w)
      | Some c \<Rightarrow> (Inr (t1_code c), t1_started argv None w))"

definition t1_teardown :: "'h t1_host \<Rightarrow> sandbox_net \<Rightarrow> 'h t1_world \<Rightarrow> 'h t1_world" where
  "t1_teardown k net w = w\<lparr>ow_net := net_teardown (oh_net k) net (ow_net w)\<rparr>"

text \<open>
  The container waits at its barrier while the leader is found and the rules are injected; the workload
  starts when the barrier is released.  A failed wait returns before the teardown.
\<close>

definition t1_setup ::
  "'h t1_host \<Rightarrow> sandbox_spec \<Rightarrow> sandbox_net \<Rightarrow> u32 \<Rightarrow> endpoint list \<Rightarrow> 'h t1_world \<Rightarrow> t1_error option \<times> 'h t1_world" where
  "t1_setup k s net pid endpoints w =
     (case oh_leader k pid of
        None \<Rightarrow> (Some LeaderFailed, w)
      | Some leader \<Rightarrow>
          (let (ok, h) = inject (oh_net k) net leader endpoints [] (ow_net w);
               w1 = w\<lparr>ow_net := h\<rparr>
           in if \<not> ok then (Some InjectFailed, w1)
              else if \<not> oh_write k (path_join (path_join (t1_runtime s) ''rv'') ''go'') then (Some GoFailed, w1)
              else (None, w1)))"

definition run_egress ::
  "'h t1_host \<Rightarrow> sandbox_spec \<Rightarrow> (string \<times> string) list \<Rightarrow> resolved_egress \<Rightarrow> 'h t1_world
   \<Rightarrow> (t1_error, int) result \<times> 'h t1_world" where
  "run_egress k s binds r w =
     (let argv = barrier_argv s binds; net = for_id (sb_id s)
      in if \<not> oh_mkdir k (path_join (t1_runtime s) ''rv'') then (Inl RendezvousFailed, w)
         else case oh_spawn k argv of
           None \<Rightarrow> (Inl SpawnFailed, w)
         | Some pid \<Rightarrow>
             (case t1_setup k s net pid (re_endpoints r) w of
                (Some e, w1) \<Rightarrow> (Inl e, t1_teardown k net w1)
              | (None, w1) \<Rightarrow>
                  (let w2 = t1_started argv (Some (etc_hosts (re_hosts r))) w1
                   in case oh_exit k argv of
                        None \<Rightarrow> (Inl WaitFailed, w2)
                      | Some c \<Rightarrow> (Inr (t1_code c), t1_teardown k net w2))))"

definition run_resolved ::
  "'h t1_host \<Rightarrow> sandbox_spec \<Rightarrow> (string \<times> string) list \<Rightarrow> 'h t1_world \<Rightarrow> (t1_error, int) result \<times> 'h t1_world" where
  "run_resolved k s binds w =
     (case resolve_t1 k s of
        Inl e \<Rightarrow> (Inl e, w)
      | Inr None \<Rightarrow> run_plain k (plain_argv s binds) w
      | Inr (Some r) \<Rightarrow>
          if \<not> oh_write k (path_join (t1_root s) ''etc/hosts'') then (Inl HostsFailed, w)
          else run_egress k s binds r w)"

definition construct_t1 :: "'h t1_host \<Rightarrow> sandbox_spec \<Rightarrow> 'h t1_world \<Rightarrow> (t1_error, int) result \<times> 'h t1_world" where
  "construct_t1 k s w =
     (if \<not> oh_private k then (Inl PrivateFailed, w)
      else
        let w0 = w\<lparr>ow_removed := ow_removed w @ [t1_runtime s]\<rparr>
        in if \<not> oh_mkdir k (t1_stage s) then (Inl RuntimeFailed, w0)
           else case build_synth_root k s (ow_mounts w0) of
             (Some e, ms) \<Rightarrow> (Inl e, w0\<lparr>ow_mounts := ms\<rparr>)
           | (None, ms) \<Rightarrow>
               if \<not> oh_anchor k (sb_anchor s) then (Inl T1AnchorFailed, w0\<lparr>ow_mounts := ms\<rparr>)
               else case place_grants k s (sb_grants s) ms of
                 (Inl e, ms') \<Rightarrow> (Inl e, w0\<lparr>ow_mounts := ms'\<rparr>)
               | (Inr binds, ms') \<Rightarrow> run_resolved k s binds (w0\<lparr>ow_mounts := ms'\<rparr>))"

end
