(* ===== verification/T1_Safety.thy ===== *)
theory T1_Safety
  imports T1_Sandbox
begin

text \<open>What a workload of the container tier starts with: its binds and its network.\<close>

definition bind_of :: "'h t1_host \<Rightarrow> sandbox_spec \<Rightarrow> mounts \<Rightarrow> string \<Rightarrow> string \<times> string \<Rightarrow> bool" where
  "bind_of k s ms n b \<longleftrightarrow>
     b = (path_join (t1_stage s) n, path_join (sb_guest_prefix s) n)
     \<and> (\<exists>p. pin_beneath (oh_mount k) n = Some p
          \<and> \<lparr>me_target = fst b, me_source = pi_ident p, me_flags = ro_noexec\<rparr> \<in> set ms)"

lemma bind_of_mono: "bind_of k s ms n b \<Longrightarrow> set ms \<subseteq> set ms' \<Longrightarrow> bind_of k s ms' n b"
  by (auto simp: bind_of_def)

lemma place_grants_ok:
  "place_grants k s ns ms = (Inr bs, ms') \<Longrightarrow> set ms \<subseteq> set ms' \<and> list_all2 (bind_of k s ms') ns bs"
proof (induction ns arbitrary: ms bs)
  case (Cons n ns)
  then obtain p ms1 bs1 where p: "pin_beneath (oh_mount k) n = Some p"
    "relocate_ro (oh_mount k) p (path_join (t1_stage s) n) ms = (None, ms1)"
    and rest: "place_grants k s ns ms1 = (Inr bs1, ms')"
    and bs: "bs = (path_join (t1_stage s) n, path_join (sb_guest_prefix s) n) # bs1"
    by (auto split: option.splits prod.splits sum.splits)
  from p(2) have ms1: "ms1 = \<lparr>me_target = path_join (t1_stage s) n, me_source = pi_ident p, me_flags = ro_noexec\<rparr> # ms"
    by (auto simp: relocate_ro_def split: if_splits dest!: relocate_with_ok)
  from Cons.IH [OF rest] p(1) show ?case
    by (auto simp: ms1 bs bind_of_def)
qed simp

lemma started_or_not:
  assumes "run_resolved k s binds w = (r, w')" and "ow_runs w' \<noteq> ow_runs w"
  shows "\<exists>run. ow_runs w' = ow_runs w @ [run] \<and> or_mounts run = ow_mounts w
     \<and> (case resolve_t1 k s of
          Inl _ \<Rightarrow> False
        | Inr None \<Rightarrow> or_argv run = plain_argv s binds \<and> or_net run = ow_net w
        | Inr (Some res) \<Rightarrow>
            or_argv run = barrier_argv s binds \<and> or_hosts run = Some (etc_hosts (re_hosts res))
            \<and> (\<exists>pid leader. oh_spawn k (or_argv run) = Some pid \<and> oh_leader k pid = Some leader
                 \<and> inject (oh_net k) (for_id (sb_id s)) leader (re_endpoints res) [] (ow_net w) = (True, or_net run)))"
  using assms
  by (auto simp: run_resolved_def run_plain_def run_egress_def t1_setup_def t1_started_def t1_teardown_def Let_def
      split: sum.splits option.splits if_splits prod.splits)


definition calm_t1 :: "string list list t1_host" where
  "calm_t1 =
     \<lparr>oh_mount = calm_kernel, oh_net = \<lparr>no_ip = (\<lambda>c h. Some (h @ [c])), no_nft = (\<lambda>c h. Some (h @ [c])), no_apply = (\<lambda>r h. Some (h @ [[r]]))\<rparr>,
      oh_private = True, oh_mkdir = (\<lambda>_. True), oh_write = (\<lambda>_. True), oh_usr = calm_ident,
      oh_bind_usr = (\<lambda>_. True), oh_remount_usr = (\<lambda>_. True), oh_anchor = (\<lambda>_. True),
      oh_dot = (\<lambda>_. None), oh_projection = [], oh_spawn = (\<lambda>_. Some 7), oh_leader = Some,
      oh_exit = (\<lambda>_. Some (Some 0))\<rparr>"

definition docs_spec :: sandbox_spec where
  "docs_spec =
     \<lparr>sb_id = ''s1'', sb_anchor = ''/srv'', sb_grants = [''docs''], sb_guest_prefix = ''/srv'',
      sb_workload = [''/bin/true''], sb_egress = NoEgress\<rparr>"

definition calm_t1_world :: "string list list t1_world" where
  "calm_t1_world = \<lparr>ow_net = [], ow_mounts = [], ow_removed = [], ow_runs = []\<rparr>"

lemma docs_run: "case ow_runs (snd (construct_t1 calm_t1 docs_spec calm_t1_world)) of [] \<Rightarrow> False | _ \<Rightarrow> True"
  by code_simp


end
