(* ===== verification/Sandbox_Decision.thy ===== *)
theory Sandbox_Decision
  imports T0_Plane T1_Sandbox T2_Plane Gate_Provenance
begin

text \<open>
  The decision plane of \<open>gatekeeperd sandbox\<close> (\<open>recheck\<close> and \<open>cli\<close> of
  \<open>gatekeeperd/src/sandbox.rs\<close>): the arguments, the derived trust band, the recheck, the choice of the
  constructor with its request, and the run of it.  What is decided is a value \<open>verdict\<close>.
\<close>

section \<open>Lowering a closure\<close>

definition member_to_spec :: "bool \<Rightarrow> closure_member \<Rightarrow> member_spec" where
  "member_to_spec is_interp m =
     \<lparr>ms_algo = to_verity_id (cm_algo m), ms_digest = cm_digest m, ms_name = cm_path m, ms_is_interp = is_interp\<rparr>"

definition closure_to_spec :: "pin_closure \<Rightarrow> closure_spec" where
  "closure_to_spec c =
     \<lparr>cs_interp = member_to_spec True (cl_interp c), cs_libs = map (member_to_spec False) (cl_libs c)\<rparr>"

section \<open>The recheck\<close>

datatype refusal =
    Downgrade tier | CapsExceed | NoConstructor tier | NoPlane | NoProfile | UnknownProfile string

datatype sandbox_decision = Construct tier egress | Refuse nat refusal

fun resolve_names :: "string list \<Rightarrow> egress_profile list \<Rightarrow> (string, egress_profile list) result" where
  "resolve_names [] acc = Inr acc"
| "resolve_names (n # ns) acc =
     (case resolve n of
        None \<Rightarrow> Inl n
      | Some p \<Rightarrow> resolve_names ns (if List.member (map prof_name acc) (prof_name p) then acc else acc @ [p]))"

definition recheck ::
  "tier \<Rightarrow> trust_band \<Rightarrow> caps_profile \<Rightarrow> caps_profile \<Rightarrow> string list \<Rightarrow> sandbox_decision" where
  "recheck requested trust caps profile names =
     (let bound = effective_tier trust caps None
      in if requested < bound then Refuse 10 (Downgrade bound)
         else if \<not> subset_of caps profile then Refuse 11 CapsExceed
         else if T3 \<le> requested then Refuse 12 (NoConstructor requested)
         else case caps of
           Broad \<Rightarrow> Refuse 13 NoPlane
         | Net \<Rightarrow>
             if names = [] then Refuse 13 NoProfile
             else (case resolve_names names [] of
                Inl n \<Rightarrow> Refuse 13 (UnknownProfile n)
              | Inr ps \<Rightarrow> Construct requested (Profiles ps))
         | RoNosec \<Rightarrow> Construct requested NoEgress
         | ProjRw \<Rightarrow> Construct requested NoEgress)"

section \<open>The arguments\<close>

record sandbox_args =
  sa_id :: string
  sa_anchor :: string
  sa_guest_prefix :: string
  sa_grants :: "string list"
  sa_workload :: "string list"
  sa_tier :: "string option"
  sa_trust :: "string option"
  sa_caps :: "string option"
  sa_profile :: "string option"
  sa_egress_names :: "string list"
  sa_rw_grant :: "string option"
  sa_build_grant :: "string option"
  sa_ingest :: bool
  sa_subject :: "string option"
  sa_live :: bool

definition default_args :: sandbox_args where
  "default_args =
     \<lparr>sa_id = ''s0'', sa_anchor = ''/srv'', sa_guest_prefix = ''/srv'', sa_grants = [], sa_workload = [],
      sa_tier = None, sa_trust = None, sa_caps = None, sa_profile = None, sa_egress_names = [],
      sa_rw_grant = None, sa_build_grant = None, sa_ingest = False, sa_subject = None, sa_live = False\<rparr>"

definition next_arg :: "string list \<Rightarrow> string option" where
  "next_arg rest = (case rest of [] \<Rightarrow> None | v # _ \<Rightarrow> Some v)"

text \<open>An option with a value; at the end of the arguments the value is missing.\<close>

definition set_valued :: "string \<Rightarrow> string option \<Rightarrow> sandbox_args \<Rightarrow> sandbox_args option" where
  "set_valued opt v a =
     (if opt = ''--id'' then Some (case v of None \<Rightarrow> a | Some x \<Rightarrow> a\<lparr>sa_id := x\<rparr>)
      else if opt = ''--anchor'' then Some (case v of None \<Rightarrow> a | Some x \<Rightarrow> a\<lparr>sa_anchor := x\<rparr>)
      else if opt = ''--guest-prefix'' then Some (case v of None \<Rightarrow> a | Some x \<Rightarrow> a\<lparr>sa_guest_prefix := x\<rparr>)
      else if opt = ''--grant'' then Some (case v of None \<Rightarrow> a | Some x \<Rightarrow> a\<lparr>sa_grants := sa_grants a @ [x]\<rparr>)
      else if opt = ''--rw-grant'' then Some (a\<lparr>sa_rw_grant := v\<rparr>)
      else if opt = ''--build-grant'' then Some (a\<lparr>sa_build_grant := v\<rparr>)
      else if opt = ''--tier'' then Some (a\<lparr>sa_tier := v\<rparr>)
      else if opt = ''--trust'' then Some (a\<lparr>sa_trust := v\<rparr>)
      else if opt = ''--caps'' then Some (a\<lparr>sa_caps := v\<rparr>)
      else if opt = ''--profile'' then Some (a\<lparr>sa_profile := v\<rparr>)
      else if opt = ''--egress-profile'' then
        Some (case v of None \<Rightarrow> a | Some x \<Rightarrow> a\<lparr>sa_egress_names := sa_egress_names a @ [x]\<rparr>)
      else if opt = ''--subject'' then Some (a\<lparr>sa_subject := v\<rparr>)
      else None)"

definition set_switch :: "string \<Rightarrow> sandbox_args \<Rightarrow> sandbox_args option" where
  "set_switch opt a =
     (if opt = ''--ingest-harness'' then Some (a\<lparr>sa_ingest := True\<rparr>)
      else if opt = ''--live'' then Some (a\<lparr>sa_live := True\<rparr>)
      else None)"

fun parse_sandbox_args :: "string list \<Rightarrow> sandbox_args \<Rightarrow> sandbox_args option" where
  "parse_sandbox_args [] a = Some a"
| "parse_sandbox_args (x # rest) a =
     (if x = ''--'' then Some (a\<lparr>sa_workload := rest\<rparr>)
      else case set_switch x a of
        Some a' \<Rightarrow> parse_sandbox_args rest a'
      | None \<Rightarrow>
          (case set_valued x (next_arg rest) a of
             None \<Rightarrow> None
           | Some a' \<Rightarrow> (case rest of [] \<Rightarrow> Some a' | _ # rest' \<Rightarrow> parse_sandbox_args rest' a')))"

definition args_incomplete :: "sandbox_args \<Rightarrow> bool" where
  "args_incomplete a \<longleftrightarrow>
     (sa_grants a = [] \<and> sa_rw_grant a = None \<and> sa_build_grant a = None) \<or> sa_workload a = []"

section \<open>The verdict\<close>

text \<open>
  What the decision reads of the host: the facts of the measurement, the Landlock probe, the platform
  probes, the paths of the sealed harness and root.
\<close>

record sandbox_env =
  ev_facts :: host_facts
  ev_landlock :: landlock_probe
  ev_virt :: "string option"
  ev_kvm :: "(int option \<times> int option) option"
  ev_runsc :: string
  ev_rootfs :: string

datatype verdict = Exit nat | BuildT0 t0_spec | BuildT1 sandbox_spec | BuildT2 t2_spec | Panicked

definition derived :: "sandbox_env \<Rightarrow> sandbox_args \<Rightarrow> trust_band \<times> derivation option" where
  "derived e a =
     (if sa_ingest a then (ig_band (derive_session (ev_facts e) (ev_runsc e)), None)
      else
        let d = derive (ev_facts e) (next_arg (sa_workload a)) (sealed_root_dev (ev_facts e))
        in (dv_band d, Some d))"

definition requested_caps :: "sandbox_args \<Rightarrow> caps_profile" where
  "requested_caps a = caps_parse (case sa_caps a of Some c \<Rightarrow> c | None \<Rightarrow> [])"

definition granted_profile :: "sandbox_args \<Rightarrow> caps_profile" where
  "granted_profile a = (case sa_profile a of Some p \<Rightarrow> caps_parse p | None \<Rightarrow> requested_caps a)"

definition t0_request :: "sandbox_args \<Rightarrow> int \<Rightarrow> nat option \<Rightarrow> closure_spec option \<Rightarrow> t0_spec" where
  "t0_request a abi island closure =
     \<lparr>t0_id = sa_id a, t0_anchor = sa_anchor a, t0_grants = sa_grants a, t0_workload = sa_workload a,
      t0_abi = abi, t0_mem_max = DEFAULT_MEM_MAX, t0_pids_max = DEFAULT_PIDS_MAX, t0_exec_island = island,
      t0_closure = closure\<rparr>"

definition t1_request :: "sandbox_args \<Rightarrow> egress \<Rightarrow> sandbox_spec" where
  "t1_request a eg =
     \<lparr>sb_id = sa_id a, sb_anchor = sa_anchor a, sb_grants = sa_grants a, sb_guest_prefix = sa_guest_prefix a,
      sb_workload = sa_workload a, sb_egress = eg\<rparr>"

definition session_meta_of :: "sandbox_args \<Rightarrow> tier \<Rightarrow> trust_band \<Rightarrow> session_meta" where
  "session_meta_of a effective trust =
     \<lparr>sm_subject = (case sa_subject a of Some x \<Rightarrow> x | None \<Rightarrow> ''-''), sm_tier = tier_label effective,
      sm_trust = trust_label trust, sm_caps = caps_label (requested_caps a),
      sm_profile = caps_label (granted_profile a),
      sm_model_mode = (if sa_live a then ''live'' else ''deterministic'')\<rparr>"

definition t2_request :: "sandbox_env \<Rightarrow> sandbox_args \<Rightarrow> tier \<Rightarrow> trust_band \<Rightarrow> egress \<Rightarrow> t2_spec" where
  "t2_request e a effective trust eg =
     \<lparr>ts_id = sa_id a, ts_anchor = sa_anchor a, ts_grants = sa_grants a, ts_rw_grant = sa_rw_grant a,
      ts_build_grant = sa_build_grant a, ts_workload = sa_workload a, ts_rootfs = ev_rootfs e,
      ts_runsc = ev_runsc e, ts_platform = select_platform (ev_virt e) (ev_kvm e),
      ts_mem_max = DEFAULT_MEM_MAX, ts_pids_max = DEFAULT_PIDS_MAX,
      ts_egress = (case eg of NoEgress \<Rightarrow> [] | Profiles ps \<Rightarrow> ps),
      ts_session_meta = Some (session_meta_of a effective trust)\<rparr>"

definition pinned_verdict :: "sandbox_env \<Rightarrow> sandbox_args \<Rightarrow> tier \<Rightarrow> derivation option \<Rightarrow> verdict" where
  "pinned_verdict e a effective der =
     (case der of
        None \<Rightarrow> Panicked
      | Some d \<Rightarrow>
          (case (effective, ev_landlock e, dv_exec_fd d) of
             (T0, Ready abi, Some fd) \<Rightarrow>
               BuildT0 (t0_request a abi (Some fd) (map_option closure_to_spec (dv_closure d)))
           | _ \<Rightarrow> Exit 15))"

definition cleared_verdict ::
  "sandbox_env \<Rightarrow> sandbox_args \<Rightarrow> tier \<Rightarrow> trust_band \<Rightarrow> derivation option \<Rightarrow> egress \<Rightarrow> verdict" where
  "cleared_verdict e a effective trust der eg =
     (if trust = Pinned then pinned_verdict e a effective der
      else if effective = T2 then BuildT2 (t2_request e a effective trust eg)
      else if effective = T0 then
        (case ev_landlock e of
           Ready abi \<Rightarrow> BuildT0 (t0_request a abi None None)
         | Unavailable \<Rightarrow> BuildT1 (t1_request a eg))
      else BuildT1 (t1_request a eg))"

definition decide :: "sandbox_env \<Rightarrow> sandbox_args \<Rightarrow> verdict" where
  "decide e a =
     (if args_incomplete a then Exit 2
      else case sa_tier a of
        None \<Rightarrow> BuildT1 (t1_request a NoEgress)
      | Some t \<Rightarrow>
          (case tier_parse t of
             None \<Rightarrow> Exit 14
           | Some requested \<Rightarrow>
               (let (trust, der) = derived e a
                in case recheck requested trust (requested_caps a) (granted_profile a) (sa_egress_names a) of
                     Refuse code _ \<Rightarrow> Exit code
                   | Construct effective eg \<Rightarrow> cleared_verdict e a effective trust der eg)))"

definition sandbox_verdict :: "sandbox_env \<Rightarrow> string list \<Rightarrow> verdict" where
  "sandbox_verdict e args = (case parse_sandbox_args args default_args of None \<Rightarrow> Exit 2 | Some a \<Rightarrow> decide e a)"

section \<open>The run\<close>

record 'h sandbox_world =
  xw_t0 :: "t0_process list"
  xw_t1 :: "'h t1_world"
  xw_t2 :: "'h t2_world"

record 'h sandbox_host =
  xh_t0 :: t0_kernel
  xh_fds :: "nat list"
  xh_t1 :: "'h t1_host"
  xh_t2 :: "'h t2_host"

definition exit_of :: "('e, int) result \<Rightarrow> int" where
  "exit_of r = (case r of Inl _ \<Rightarrow> 3 | Inr c \<Rightarrow> c)"

text \<open>The exit code of the command, or none when it panics.\<close>

definition sandbox_cli ::
  "sandbox_env \<Rightarrow> 'h sandbox_host \<Rightarrow> string list \<Rightarrow> 'h sandbox_world \<Rightarrow> int option \<times> 'h sandbox_world" where
  "sandbox_cli e k args w =
     (case sandbox_verdict e args of
        Exit code \<Rightarrow> (Some (int code), w)
      | Panicked \<Rightarrow> (None, w)
      | BuildT0 s \<Rightarrow>
          (case construct_t0 (xh_t0 k) s (xh_fds k) [] of
             (r, p) \<Rightarrow> (Some (case r of Inl _ \<Rightarrow> 3 | Inr c \<Rightarrow> int c),
                        w\<lparr>xw_t0 := xw_t0 w @ (case p of None \<Rightarrow> [] | Some x \<Rightarrow> [x])\<rparr>))
      | BuildT1 s \<Rightarrow> (case construct_t1 (xh_t1 k) s (xw_t1 w) of (r, w1) \<Rightarrow> (Some (exit_of r), w\<lparr>xw_t1 := w1\<rparr>))
      | BuildT2 s \<Rightarrow> (case construct_t2 (xh_t2 k) s (xw_t2 w) of (r, w2) \<Rightarrow> (Some (exit_of r), w\<lparr>xw_t2 := w2\<rparr>)))"

end
