(* ===== verification/Sandbox_Safety.thy ===== *)
theory Sandbox_Safety
  imports Sandbox_Decision Gate_Pins
begin

text \<open>
  What the decision plane guarantees: the wall a workload gets, what a caller cannot influence, where
  unproven code runs, and what the recheck does not cover.
\<close>

section \<open>The recheck\<close>

lemma resolve_names_sealed:
  "resolve_names ns acc = Inr ps \<Longrightarrow> set ps = {p \<in> set EGRESS_PROFILES. prof_name p \<in> set ns} \<union> set acc \<or> \<not> set acc \<subseteq> set EGRESS_PROFILES"
proof (induction ns acc rule: resolve_names.induct)
  case (2 n ns acc)
  then obtain p where p: "resolve n = Some p"
    and rest: "resolve_names ns (if List.member (map prof_name acc) (prof_name p) then acc else acc @ [p]) = Inr ps"
    by (auto split: option.splits)
  from p have mem: "p \<in> set EGRESS_PROFILES" "prof_name p = n"
    by (simp_all add: resolve_def agent.find_iff)
  have same: "q = p" if "q \<in> set EGRESS_PROFILES" "prof_name q = n" for q
    using p agent.find_row [OF that(1)] that(2) by (simp add: resolve_def)
  show ?case
  proof (cases "set acc \<subseteq> set EGRESS_PROFILES")
    case True
    let ?acc = "if List.member (map prof_name acc) (prof_name p) then acc else acc @ [p]"
    have acc: "set ?acc = insert p (set acc)"
    proof (cases "prof_name p \<in> prof_name ` set acc")
      case True
      then obtain q where q: "q \<in> set acc" "prof_name q = n" using mem(2) by force
      with same \<open>set acc \<subseteq> set EGRESS_PROFILES\<close> have "q = p" by blast
      with q True show ?thesis by (simp add: insert_absorb)
    qed simp
    have "set ?acc \<subseteq> set EGRESS_PROFILES" unfolding acc using True mem(1) by blast
    with "2.IH" [OF p rest]
    have "set ps = {p \<in> set EGRESS_PROFILES. prof_name p \<in> set ns} \<union> set ?acc" by blast
    then have "set ps = {p \<in> set EGRESS_PROFILES. prof_name p \<in> set ns} \<union> insert p (set acc)"
      unfolding acc .
    moreover have "{q \<in> set EGRESS_PROFILES. prof_name q \<in> set (n # ns)}
        = insert p {q \<in> set EGRESS_PROFILES. prof_name q \<in> set ns}"
    proof (rule set_eqI)
      fix q
      show "q \<in> {q \<in> set EGRESS_PROFILES. prof_name q \<in> set (n # ns)}
          \<longleftrightarrow> q \<in> insert p {q \<in> set EGRESS_PROFILES. prof_name q \<in> set ns}"
      proof (cases "q = p")
        case True
        then show ?thesis by (simp only: mem mem_Collect_eq list.set insert_iff simp_thms)
      next
        case False
        then have "q \<in> set EGRESS_PROFILES \<Longrightarrow> prof_name q \<noteq> n" using same by blast
        then show ?thesis using False by (simp only: mem_Collect_eq list.set insert_iff simp_thms) blast
      qed
    qed
    ultimately show ?thesis by (simp only: Un_insert_left Un_insert_right simp_thms)
  qed simp
qed auto

lemma top_tier: "T3 \<le> r \<longleftrightarrow> r = T3"
  by (cases r) (simp_all add: less_eq_tier_def)

lemma resolve_names_exact:
  "resolve_names ns [] = Inr ps \<Longrightarrow> set ps = {p \<in> set EGRESS_PROFILES. prof_name p \<in> set ns}"
  using resolve_names_sealed [of ns "[]" ps] by simp

lemma resolve_names_error: "resolve_names ns acc = Inl n \<Longrightarrow> n \<in> set ns \<and> resolve n = None"
  by (induction ns acc rule: resolve_names.induct) (auto split: option.splits if_splits)

definition profiles_of :: "egress \<Rightarrow> egress_profile list" where
  "profiles_of eg = (case eg of NoEgress \<Rightarrow> [] | Profiles ps \<Rightarrow> ps)"

lemma recheck_ok:
  assumes "recheck requested trust caps profile names = Construct effective eg"
  shows "effective = requested" "effective_tier trust caps None \<le> requested" "caps \<le> profile"
    "requested \<noteq> T3" "caps \<noteq> Broad"
    "set (profiles_of eg) = (if caps = Net then {p \<in> set EGRESS_PROFILES. prof_name p \<in> set names} else {})"
  using assms
  by (auto simp: recheck_def Let_def profiles_of_def subset_of_def resolve_names_exact
      split: if_splits caps_profile.splits sum.splits)

text \<open>
  the answer of the recheck, exactly: the first rule that is broken decides the code, in the order
  wall, authority, constructor, egress; a cleared request keeps the requested wall, and its egress is the
  set of sealed profiles it named, of which every one exists.
\<close>

theorem recheck_is_exact:
  "case recheck requested trust caps profile names of
     Construct effective eg \<Rightarrow>
       effective = requested \<and> effective_tier trust caps None \<le> requested \<and> requested < T3 \<and> caps \<le> profile
       \<and> caps \<noteq> Broad
       \<and> set (profiles_of eg) = (if caps = Net then {p \<in> set EGRESS_PROFILES. prof_name p \<in> set names} else {})
   | Refuse code r \<Rightarrow>
       code = (if requested < effective_tier trust caps None then 10 else if \<not> caps \<le> profile then 11
               else if requested = T3 then 12 else 13)
       \<and> (r = NoPlane) = (code = 13 \<and> caps = Broad)
       \<and> (r = NoProfile) = (code = 13 \<and> caps = Net \<and> names = [])
       \<and> (case r of UnknownProfile n \<Rightarrow> code = 13 \<and> caps = Net \<and> n \<in> set names \<and> resolve n = None | _ \<Rightarrow> True)"
proof (cases "recheck requested trust caps profile names")
  case (Construct effective eg)
  from recheck_ok [OF this] Construct show ?thesis
    by (cases requested) (auto simp: less_tier_def)
next
  case (Refuse code r)
  then show ?thesis
    by (auto simp: recheck_def Let_def subset_of_def top_tier dest: resolve_names_error
        split: if_splits caps_profile.splits sum.splits)
qed

section \<open>The wall\<close>

lemma bands_from_a_harness: "ig_band (derive_session h r) \<in> {Untrust, Hostile}"
  by (simp add: derive_session_def Let_def derive_band_def)

lemma pinned_is_derived: "derived e a = (Pinned, der) \<Longrightarrow> der \<noteq> None"
  using bands_from_a_harness [of "ev_facts e" "ev_runsc e"]
  by (auto simp: derived_def Let_def split: if_splits)

fun wall :: "verdict \<Rightarrow> tier option" where
  "wall (BuildT0 s) = Some T0"
| "wall (BuildT1 s) = Some T1"
| "wall (BuildT2 s) = Some T2"
| "wall _ = None"

fun egress_of :: "verdict \<Rightarrow> egress_profile list" where
  "egress_of (BuildT1 s) = profiles_of (sb_egress s)"
| "egress_of (BuildT2 s) = ts_egress s"
| "egress_of _ = []"

fun island_of :: "verdict \<Rightarrow> nat option" where
  "island_of (BuildT0 s) = t0_exec_island s"
| "island_of _ = None"

lemma decide_cleared:
  assumes "sa_tier a \<noteq> None" and "wall (decide e a) = Some w"
  obtains requested eg where
    "recheck requested (fst (derived e a)) (requested_caps a) (granted_profile a) (sa_egress_names a) = Construct requested eg"
    "decide e a = cleared_verdict e a requested (fst (derived e a)) (snd (derived e a)) eg"
proof -
  from assms obtain t requested effective eg where
    "recheck requested (fst (derived e a)) (requested_caps a) (granted_profile a) (sa_egress_names a) = Construct effective eg"
    "decide e a = cleared_verdict e a effective (fst (derived e a)) (snd (derived e a)) eg"
    by (auto simp: decide_def Let_def split: if_splits option.splits sandbox_decision.splits prod.splits)
  then show ?thesis
    using that recheck_ok(1) by metis
qed

lemma cleared_cases:
  assumes "cleared_verdict e a r trust der eg = v" and "wall v = Some w" and "r \<noteq> T3"
  shows "r \<le> w \<and> (trust = Pinned \<longleftrightarrow> island_of v \<noteq> None) \<and> (w = T0 \<longrightarrow> r = T0)
    \<and> (w \<noteq> T0 \<longrightarrow> egress_of v = profiles_of eg)
    \<and> (trust = Pinned \<longrightarrow> (\<exists>d. der = Some d \<and> island_of v = dv_exec_fd d))"
  using assms
  by (cases r; auto simp: cleared_verdict_def pinned_verdict_def t0_request_def t1_request_def t2_request_def
      profiles_of_def less_eq_tier_def
      split: if_splits option.splits landlock_probe.splits tier.splits egress.splits)

text \<open>
  C6: whenever a request with a tier leads to a sandbox, its wall is at least the one the sealed matrix
  and floor demand for the band gatekeeperd derived itself and the authority asked for; that authority is
  within the profile and is never unrestricted; the network is that of the named sealed profiles and only
  with \<open>C-net\<close>; and an executable island exists exactly for a pinned entrypoint, from the measured
  descriptor.
\<close>

theorem wall_holds_the_bound:
  assumes "sa_tier a \<noteq> None" and "wall (decide e a) = Some w"
  shows "effective_tier (fst (derived e a)) (requested_caps a) None \<le> w
    \<and> requested_caps a \<le> granted_profile a \<and> requested_caps a \<noteq> Broad
    \<and> set (egress_of (decide e a))
        = (if requested_caps a = Net then {p \<in> set EGRESS_PROFILES. prof_name p \<in> set (sa_egress_names a)} else {})
    \<and> (island_of (decide e a) \<noteq> None) = (fst (derived e a) = Pinned)
    \<and> (fst (derived e a) = Pinned) = (\<exists>d. derived e a = (Pinned, Some d) \<and> island_of (decide e a) = dv_exec_fd d)"
proof -
  from decide_cleared [OF assms] obtain r eg where
    rc: "recheck r (fst (derived e a)) (requested_caps a) (granted_profile a) (sa_egress_names a) = Construct r eg"
    and v: "cleared_verdict e a r (fst (derived e a)) (snd (derived e a)) eg = decide e a"
    by metis
  note ok = recheck_ok [OF rc] and cases = cleared_cases [OF v assms(2) recheck_ok(4) [OF rc]]
  have net: "set (egress_of (decide e a)) = (if requested_caps a = Net
      then {p \<in> set EGRESS_PROFILES. prof_name p \<in> set (sa_egress_names a)} else {})"
  proof (cases "w = T0")
    case True
    with cases have "r = T0" by simp
    with ok(2) have "requested_caps a \<noteq> Net"
      by (cases "fst (derived e a)") (auto simp: effective_tier_def max_def less_eq_tier_def)
    moreover have "egress_of (decide e a) = []"
      using True assms(2) by (cases "decide e a") auto
    ultimately show ?thesis by simp
  next
    case False
    with cases ok(6) show ?thesis by simp
  qed
  have pinned: "(fst (derived e a) = Pinned) = (\<exists>d. derived e a = (Pinned, Some d) \<and> island_of (decide e a) = dv_exec_fd d)"
    using cases by (metis fst_conv prod.collapse)
  show ?thesis
    using ok cases net pinned by auto
qed

section \<open>What the caller cannot influence\<close>

lemma requests_ignore_trust [simp]:
  "requested_caps (a\<lparr>sa_trust := x\<rparr>) = requested_caps a" "granted_profile (a\<lparr>sa_trust := x\<rparr>) = granted_profile a"
  "t0_request (a\<lparr>sa_trust := x\<rparr>) = t0_request a" "t1_request (a\<lparr>sa_trust := x\<rparr>) = t1_request a"
  "t2_request e (a\<lparr>sa_trust := x\<rparr>) = t2_request e a"
  by (simp_all add: fun_eq_iff requested_caps_def granted_profile_def t0_request_def t1_request_def
      t2_request_def session_meta_of_def cong: option.case_cong)

lemma cleared_ignores_trust: "cleared_verdict e (a\<lparr>sa_trust := x\<rparr>) = cleared_verdict e a"
  by (intro ext) (simp only: cleared_verdict_def pinned_verdict_def requests_ignore_trust)

lemma decide_ignores_trust: "decide e (a\<lparr>sa_trust := x\<rparr>) = decide e a"
proof -
  have same: "sa_tier (a\<lparr>sa_trust := x\<rparr>) = sa_tier a" "sa_egress_names (a\<lparr>sa_trust := x\<rparr>) = sa_egress_names a" "derived e (a\<lparr>sa_trust := x\<rparr>) = derived e a" "args_incomplete (a\<lparr>sa_trust := x\<rparr>) = args_incomplete a"
    by (simp_all add: derived_def args_incomplete_def)
  show ?thesis
    unfolding decide_def same cleared_ignores_trust requests_ignore_trust by (rule refl)
qed

text \<open>Setting an option commutes with the parse of the arguments, but for that very option.\<close>

lemma set_switch_trust: "set_switch o' (a\<lparr>sa_trust := x\<rparr>) = map_option (\<lambda>b. b\<lparr>sa_trust := x\<rparr>) (set_switch o' a)"
  by (simp add: set_switch_def)

lemma set_valued_trust:
  "\<exists>y. set_valued o' v (a\<lparr>sa_trust := x\<rparr>) = map_option (\<lambda>b. b\<lparr>sa_trust := y\<rparr>) (set_valued o' v a)"
proof (cases "o' = ''--trust''")
  case True
  then show ?thesis by (intro exI [of _ v]) (simp add: set_valued_def)
next
  case False
  then show ?thesis by (intro exI [of _ x]) (simp add: set_valued_def split: option.splits)
qed

lemma parse_ignores_trust:
  "\<exists>y. parse_sandbox_args args (a\<lparr>sa_trust := x\<rparr>) = map_option (\<lambda>b. b\<lparr>sa_trust := y\<rparr>) (parse_sandbox_args args a)"
proof (induction args a arbitrary: x rule: parse_sandbox_args.induct)
  case (2 o' rest a)
  show ?case
  proof (cases "o' = ''--''")
    case False
    show ?thesis
    proof (cases "set_switch o' a")
      case (Some b)
      with 2(2) [OF False this] False show ?thesis by (simp add: set_switch_trust)
    next
      case None
      obtain y where y: "set_valued o' (next_arg rest) (a\<lparr>sa_trust := x\<rparr>)
          = map_option (\<lambda>b. b\<lparr>sa_trust := y\<rparr>) (set_valued o' (next_arg rest) a)"
        using set_valued_trust by blast
      show ?thesis
      proof (cases "set_valued o' (next_arg rest) a")
        case (Some b)
        show ?thesis
        proof (cases rest)
          case Nil
          with False None Some y show ?thesis by (auto simp: set_switch_trust)
        next
          case (Cons v rest')
          with 2(1) [OF False None Some Cons, of y] False None Some y show ?thesis
            by (simp add: set_switch_trust)
        qed
      qed (use False None y in \<open>simp add: set_switch_trust\<close>)
    qed
  qed (intro exI [of _ x], simp)
qed auto

lemma not_panicked: "decide e a \<noteq> Panicked"
proof -
  have "cleared_verdict e a r (fst (derived e a)) (snd (derived e a)) eg \<noteq> Panicked" for r eg
    using pinned_is_derived [of e a "snd (derived e a)"]
    by (cases "derived e a")
      (auto simp: cleared_verdict_def pinned_verdict_def split: option.splits landlock_probe.splits tier.splits)
  then show ?thesis
    by (auto simp: decide_def Let_def split: option.splits sandbox_decision.splits prod.splits)
qed

text \<open>
  the trust a caller proposes has no influence: with \<open>--trust\<close> in front of any arguments the verdict
  is that of the arguments alone, and no verdict is a panic.
\<close>

theorem proposed_trust_is_ignored:
  "sandbox_verdict e (''--trust'' # v # args) = sandbox_verdict e args \<and> sandbox_verdict e args \<noteq> Panicked"
proof
  obtain y where "parse_sandbox_args args (default_args\<lparr>sa_trust := Some v\<rparr>)
      = map_option (\<lambda>b. b\<lparr>sa_trust := y\<rparr>) (parse_sandbox_args args default_args)"
    using parse_ignores_trust by blast
  then show "sandbox_verdict e (''--trust'' # v # args) = sandbox_verdict e args"
    by (simp add: sandbox_verdict_def set_switch_def set_valued_def next_arg_def decide_ignores_trust
        split: option.splits)
  show "sandbox_verdict e args \<noteq> Panicked"
    by (simp add: sandbox_verdict_def not_panicked split: option.splits)
qed

section \<open>Where unproven code runs\<close>

lemma untrusted_floor: "b \<notin> {First, Pinned} \<Longrightarrow> T2 \<le> effective_tier b c None"
  by (cases b) (auto simp: effective_tier_def max_def less_eq_tier_def)

lemma unproven_verdict:
  assumes "sa_tier a \<noteq> None" and "fst (derived e a) \<notin> {First, Pinned}"
  shows "wall (decide e a) \<in> {None, Some T2}"
proof (cases "wall (decide e a)")
  case (Some w)
  from decide_cleared [OF assms(1) Some] obtain r eg where
    rc: "recheck r (fst (derived e a)) (requested_caps a) (granted_profile a) (sa_egress_names a) = Construct r eg"
    and v: "cleared_verdict e a r (fst (derived e a)) (snd (derived e a)) eg = decide e a"
    by metis
  have "effective_tier (fst (derived e a)) (requested_caps a) None \<le> w"
    using cleared_cases [OF v Some recheck_ok(4) [OF rc]] order_trans [OF recheck_ok(2) [OF rc]] by blast
  with untrusted_floor [OF assms(2), of "requested_caps a"] have "T2 \<le> w"
    by (rule order_trans)
  with Some show ?thesis
    by (cases "decide e a") (auto simp: less_eq_tier_def)
qed simp

text \<open>
  C7: the workload of a request with a tier whose entrypoint is neither sealed nor pinned runs in gVisor
  or not at all: whatever the arguments, the kernel and the programs do, no process sandbox and no
  container is made, and the exit code is known whenever nothing is built.
\<close>

theorem unproven_code_runs_in_gvisor:
  assumes "parse_sandbox_args args default_args = Some a" and "sa_tier a \<noteq> None"
    and "fst (derived e a) \<notin> {First, Pinned}"
  shows "xw_t0 (snd (sandbox_cli e k args w)) = xw_t0 w \<and> xw_t1 (snd (sandbox_cli e k args w)) = xw_t1 w
    \<and> (case decide e a of
         BuildT2 s \<Rightarrow> xw_t2 (snd (sandbox_cli e k args w)) = snd (construct_t2 (xh_t2 k) s (xw_t2 w))
       | Exit c \<Rightarrow> sandbox_cli e k args w = (Some (int c), w)
       | _ \<Rightarrow> False)"
  using unproven_verdict [OF assms(2,3)] not_panicked [of e a]
  by (cases "decide e a") (auto simp: sandbox_cli_def sandbox_verdict_def assms(1) split: prod.splits)

section \<open>What the recheck does not cover\<close>

text \<open>
  the writable grants are not tied to the authority that was checked: a session cleared for gVisor
  with any capabilities, read-only ones included, is given the project and the build directory the caller
  adds, writable, under the same verdict.
\<close>

theorem writable_grants_escape_the_recheck:
  assumes "decide e a = BuildT2 s"
  shows "decide e (a\<lparr>sa_rw_grant := Some g, sa_build_grant := Some h\<rparr>)
     = BuildT2 (s\<lparr>ts_rw_grant := Some g, ts_build_grant := Some h\<rparr>)"
proof -
  let ?b = "a\<lparr>sa_rw_grant := Some g, sa_build_grant := Some h\<rparr>"
  have same: "sa_tier ?b = sa_tier a" "derived e ?b = derived e a" "requested_caps ?b = requested_caps a"
    "granted_profile ?b = granted_profile a" "sa_egress_names ?b = sa_egress_names a"
    by (simp_all add: derived_def requested_caps_def granted_profile_def cong: option.case_cong)
  have request: "t2_request e ?b r b eg = (t2_request e a r b eg)\<lparr>ts_rw_grant := Some g, ts_build_grant := Some h\<rparr>" for r b eg
    by (simp add: t2_request_def session_meta_of_def same)
  have cleared: "cleared_verdict e ?b r b der eg = BuildT2 (s\<lparr>ts_rw_grant := Some g, ts_build_grant := Some h\<rparr>)"
    if "cleared_verdict e a r b der eg = BuildT2 s" for r b der eg
    using that by (auto simp: cleared_verdict_def pinned_verdict_def request
        split: if_splits option.splits landlock_probe.splits tier.splits)
  have incomplete: "args_incomplete ?b \<Longrightarrow> args_incomplete a"
    by (simp add: args_incomplete_def)
  show ?thesis
    using assms incomplete
    by (auto simp: decide_def same Let_def cleared split: if_splits option.splits prod.splits sandbox_decision.splits)
qed

lemma run_removes_nothing: "ow_removed (snd (run_resolved k s binds w)) = ow_removed w"
  by (auto simp: run_resolved_def run_plain_def run_egress_def t1_setup_def t1_started_def t1_teardown_def Let_def
      split: option.splits sum.splits prod.splits)

text \<open>
  the identifier of a session is not checked: it is joined to the directory of the runs as it is, so an
  absolute one names any tree of the host, which is removed before anything is built.
\<close>

theorem absolute_id_is_removed:
  assumes "oh_private k" and "path_absolute (sb_id s)"
  shows "ow_removed (snd (construct_t1 k s w)) = ow_removed w @ [sb_id s]"
proof -
  have "t1_runtime s = sb_id s"
    using assms(2) by (simp add: t1_runtime_def path_join_def)
  then show ?thesis
    using assms(1) by (auto simp: construct_t1_def run_removes_nothing Let_def
        split: option.splits sum.splits prod.splits)
qed

section \<open>An unproven workload with read-only grants\<close>

definition bare_facts :: host_facts where
  "bare_facts =
     \<lparr>hf_anchor = None, hf_ro = (\<lambda>_. None), hf_dm_uuid = (\<lambda>_. None), hf_dm_name = (\<lambda>_. None),
      hf_status = (\<lambda>_. None), hf_manifest = None, hf_open = (\<lambda>_. None), hf_verity = (\<lambda>_. None),
      hf_harness = (\<lambda>_. None), hf_admit = None\<rparr>"

definition bare_env :: sandbox_env where
  "bare_env =
     \<lparr>ev_facts = bare_facts, ev_landlock = Ready 4, ev_virt = None, ev_kvm = None, ev_runsc = ''/usr/runsc'',
      ev_rootfs = ''/usr/rootfs''\<rparr>"

definition reader_argv :: "string list" where
  "reader_argv =
     [''--tier'', ''T2'', ''--caps'', ''C-ro-nosec'', ''--grant'', ''docs'', ''--'', ''/bin/work'']"

definition reader_args :: sandbox_args where
  "reader_args =
     default_args\<lparr>sa_tier := Some ''T2'', sa_caps := Some ''C-ro-nosec'', sa_grants := [''docs''],
       sa_workload := [''/bin/work'']\<rparr>"

lemma reader_parses: "parse_sandbox_args reader_argv default_args = Some reader_args"
  by code_simp

lemma reader_verdict: "wall (decide bare_env reader_args) = Some T2" "fst (derived bare_env reader_args) = Hostile"
  by code_simp+

lemma reader_tier: "sa_tier reader_args \<noteq> None" "requested_caps reader_args = RoNosec"
  by (simp add: reader_args_def) code_simp

theorem wall_holds_the_bound_witness:
  "effective_tier Hostile RoNosec None \<le> T2 \<and> RoNosec \<le> granted_profile reader_args
   \<and> egress_of (decide bare_env reader_args) = [] \<and> island_of (decide bare_env reader_args) = None"
  using wall_holds_the_bound [OF reader_tier(1) reader_verdict(1)]
  by (simp add: reader_verdict(2) reader_tier(2))

lemma reader_band: "fst (derived bare_env reader_args) \<notin> {First, Pinned}"
  by (simp add: reader_verdict(2))

theorem unproven_code_runs_in_gvisor_witness:
  "\<forall>(k :: unit sandbox_host) w. xw_t0 (snd (sandbox_cli bare_env k reader_argv w)) = xw_t0 w
     \<and> xw_t1 (snd (sandbox_cli bare_env k reader_argv w)) = xw_t1 w"
  using unproven_code_runs_in_gvisor [OF reader_parses reader_tier(1) reader_band] by blast

theorem writable_grants_escape_the_recheck_witness:
  "\<exists>s. decide bare_env (reader_args\<lparr>sa_rw_grant := Some ''home'', sa_build_grant := Some ''out''\<rparr>) = BuildT2 s
     \<and> ts_rw_grant s = Some ''home'' \<and> requested_caps reader_args = RoNosec"
proof -
  obtain s where "decide bare_env reader_args = BuildT2 s"
    using reader_verdict(1) by (cases "decide bare_env reader_args") auto
  from writable_grants_escape_the_recheck [OF this, where g = "''home''" and h = "''out''"] show ?thesis
    by (simp add: reader_tier(2))
qed

theorem absolute_id_is_removed_witness:
  "\<forall>(k :: unit t1_host) w. ow_removed (snd (construct_t1 (k\<lparr>oh_private := True\<rparr>)
     (t1_request (reader_args\<lparr>sa_id := ''/home''\<rparr>) NoEgress) w)) = ow_removed w @ [''/home'']"
proof (intro allI)
  fix k :: "unit t1_host" and w
  have "oh_private (k\<lparr>oh_private := True\<rparr>)" "path_absolute ''/home''"
    by (simp, code_simp)
  with absolute_id_is_removed [of "k\<lparr>oh_private := True\<rparr>" "t1_request (reader_args\<lparr>sa_id := ''/home''\<rparr>) NoEgress" w]
  show "ow_removed (snd (construct_t1 (k\<lparr>oh_private := True\<rparr>)
     (t1_request (reader_args\<lparr>sa_id := ''/home''\<rparr>) NoEgress) w)) = ow_removed w @ [''/home'']"
    by (simp add: t1_request_def)
qed

end
