(* ===== verification/Agent_Resolver.thy ===== *)
theory Agent_Resolver
  imports Sandbox_Decision
begin

text \<open>
  The unprivileged resolver (\<open>agentd/src/main.rs\<close>): the arguments of its two commands, the ceiling and
  the tier it computes, and the request it hands to \<open>gatekeeperd sandbox\<close>.  The \<open>exec\<close> of the second
  command is the argument list it executes.
\<close>

section \<open>The arguments\<close>

record resolver_args =
  ra_trust :: string
  ra_caps :: string
  ra_profile :: "string option"
  ra_escalate :: "string option"
  ra_egress :: "string option"
  ra_id :: string
  ra_anchor :: string
  ra_guest_prefix :: string
  ra_grants :: "string list"
  ra_workload :: "string list"

definition resolver_default :: resolver_args where
  "resolver_default =
     \<lparr>ra_trust = [], ra_caps = [], ra_profile = None, ra_escalate = None, ra_egress = None, ra_id = ''s0'',
      ra_anchor = [], ra_guest_prefix = ''/srv'', ra_grants = [], ra_workload = []\<rparr>"

definition set_resolver :: "string \<Rightarrow> string option \<Rightarrow> resolver_args \<Rightarrow> resolver_args option" where
  "set_resolver opt v a =
     (if opt = ''--trust'' then Some (a\<lparr>ra_trust := case v of Some x \<Rightarrow> x | None \<Rightarrow> []\<rparr>)
      else if opt = ''--caps'' then Some (a\<lparr>ra_caps := case v of Some x \<Rightarrow> x | None \<Rightarrow> []\<rparr>)
      else if opt = ''--profile'' then Some (a\<lparr>ra_profile := v\<rparr>)
      else if opt = ''--escalate'' then Some (a\<lparr>ra_escalate := v\<rparr>)
      else if opt = ''--egress-profile'' then Some (a\<lparr>ra_egress := v\<rparr>)
      else if opt = ''--id'' then Some (case v of None \<Rightarrow> a | Some x \<Rightarrow> a\<lparr>ra_id := x\<rparr>)
      else if opt = ''--anchor'' then Some (case v of None \<Rightarrow> a | Some x \<Rightarrow> a\<lparr>ra_anchor := x\<rparr>)
      else if opt = ''--guest-prefix'' then Some (case v of None \<Rightarrow> a | Some x \<Rightarrow> a\<lparr>ra_guest_prefix := x\<rparr>)
      else if opt = ''--grant'' then Some (case v of None \<Rightarrow> a | Some x \<Rightarrow> a\<lparr>ra_grants := ra_grants a @ [x]\<rparr>)
      else None)"

fun parse_resolver :: "string list \<Rightarrow> resolver_args \<Rightarrow> resolver_args option" where
  "parse_resolver [] a = Some a"
| "parse_resolver (x # rest) a =
     (if x = ''--'' then Some (a\<lparr>ra_workload := rest\<rparr>)
      else case set_resolver x (next_arg rest) a of
        None \<Rightarrow> None
      | Some a' \<Rightarrow> (case rest of [] \<Rightarrow> Some a' | _ # rest' \<Rightarrow> parse_resolver rest' a'))"

text \<open>The arguments of a session: the decision flags, and what passes through.\<close>

record session_args =
  se_trust :: string
  se_caps :: string
  se_profile :: "string option"
  se_escalate :: "string option"
  se_subject :: "string option"
  se_live :: bool
  se_pass :: "string list"

definition session_default :: session_args where
  "session_default =
     \<lparr>se_trust = [], se_caps = [], se_profile = None, se_escalate = None, se_subject = None, se_live = False,
      se_pass = []\<rparr>"

definition set_session :: "string \<Rightarrow> string option \<Rightarrow> session_args \<Rightarrow> session_args option" where
  "set_session opt v a =
     (if opt = ''--trust'' then Some (a\<lparr>se_trust := case v of Some x \<Rightarrow> x | None \<Rightarrow> []\<rparr>)
      else if opt = ''--caps'' then Some (a\<lparr>se_caps := case v of Some x \<Rightarrow> x | None \<Rightarrow> []\<rparr>)
      else if opt = ''--profile'' then Some (a\<lparr>se_profile := v\<rparr>)
      else if opt = ''--escalate'' then Some (a\<lparr>se_escalate := v\<rparr>)
      else if opt = ''--subject'' then Some (a\<lparr>se_subject := v\<rparr>)
      else if opt = ''--tier'' then Some a
      else None)"

fun parse_session :: "string list \<Rightarrow> session_args \<Rightarrow> session_args" where
  "parse_session [] a = a"
| "parse_session (x # rest) a =
     (if x = ''--'' then a\<lparr>se_pass := se_pass a @ ''--'' # rest\<rparr>
      else if x = ''--live'' then parse_session rest (a\<lparr>se_live := True\<rparr>)
      else case set_session x (next_arg rest) a of
        None \<Rightarrow> parse_session rest (a\<lparr>se_pass := se_pass a @ [x]\<rparr>)
      | Some a' \<Rightarrow> (case rest of [] \<Rightarrow> a' | _ # rest' \<Rightarrow> parse_session rest' a'))"

section \<open>The decision\<close>

text \<open>The trust, the authority, the profile and the tier, or the exit code of a refusal.\<close>

definition resolve_tier ::
  "string \<Rightarrow> string \<Rightarrow> string option \<Rightarrow> string option
   \<Rightarrow> (nat, trust_band \<times> caps_profile \<times> caps_profile \<times> tier) result" where
  "resolve_tier trust_s caps_s profile_s escalate_s =
     (let trust = trust_parse trust_s; caps = caps_parse caps_s;
          profile = (case profile_s of Some p \<Rightarrow> caps_parse p | None \<Rightarrow> caps)
      in case (case escalate_s of
                 None \<Rightarrow> Inr None
               | Some s \<Rightarrow> (case tier_parse s of Some t \<Rightarrow> Inr (Some t) | None \<Rightarrow> Inl 2)) of
           Inl c \<Rightarrow> Inl c
         | Inr escalation \<Rightarrow>
             if \<not> subset_of caps profile then Inl 11
             else Inr (trust, caps, profile, effective_tier trust caps escalation))"

definition resolve_cli :: "string list \<Rightarrow> (nat, string list) result" where
  "resolve_cli args =
     (case parse_resolver args resolver_default of
        None \<Rightarrow> Inl 2
      | Some a \<Rightarrow>
          if ra_trust a = [] \<or> ra_caps a = [] \<or> ra_anchor a = [] \<or> ra_grants a = [] \<or> ra_workload a = [] then Inl 2
          else rbind (resolve_tier (ra_trust a) (ra_caps a) (ra_profile a) (ra_escalate a))
            (\<lambda>(trust, caps, profile, tier).
              Inr ([''--tier'', tier_label tier, ''--trust'', trust_label trust, ''--caps'', caps_label caps,
                    ''--profile'', caps_label profile, ''--id'', ra_id a, ''--anchor'', ra_anchor a,
                    ''--guest-prefix'', ra_guest_prefix a]
                   @ (case ra_egress a of None \<Rightarrow> [] | Some n \<Rightarrow> [''--egress-profile'', n])
                   @ concat (map (\<lambda>g. [''--grant'', g]) (ra_grants a))
                   @ ''--'' # ra_workload a)))"

text \<open>What the first command prints; the second executes its list, without the name of the command.\<close>

definition resolve_output :: "string list \<Rightarrow> string" where
  "resolve_output out = str_join '' '' out @ [nl]"

definition session_cli :: "string list \<Rightarrow> (nat, string list) result" where
  "session_cli args =
     (let a = parse_session args session_default
      in if se_trust a = [] \<or> se_caps a = [] then Inl 2
         else rbind (resolve_tier (se_trust a) (se_caps a) (se_profile a) (se_escalate a))
           (\<lambda>(trust, caps, profile, tier).
             Inr ([''--tier'', tier_label tier, ''--trust'', trust_label trust, ''--caps'', caps_label caps,
                   ''--profile'', caps_label profile,
                   ''--subject'', case se_subject a of Some s \<Rightarrow> s | None \<Rightarrow> ''-'']
                  @ (if se_live a then [''--live''] else [])
                  @ se_pass a)))"

section \<open>What reaches the gate\<close>

lemma next_arg_simps [simp]: "next_arg [] = None" "next_arg (v # r) = Some v"
  by (simp_all add: next_arg_def)

lemma parse_pair:
  "set_switch x a = None \<Longrightarrow> x \<noteq> ''--'' \<Longrightarrow> set_valued x (Some v) a = Some a'
   \<Longrightarrow> parse_sandbox_args (x # v # rest) a = parse_sandbox_args rest a'"
  by simp

lemma parse_grants:
  "parse_sandbox_args (concat (map (\<lambda>g. [''--grant'', g]) gs) @ rest) a
   = parse_sandbox_args rest (a\<lparr>sa_grants := sa_grants a @ gs\<rparr>)"
  by (induction gs arbitrary: a) (simp_all add: set_switch_def set_valued_def)

lemma parse_egress:
  "parse_sandbox_args ((case n of None \<Rightarrow> [] | Some x \<Rightarrow> [''--egress-profile'', x]) @ rest) a
   = parse_sandbox_args rest (a\<lparr>sa_egress_names := sa_egress_names a @ (case n of None \<Rightarrow> [] | Some x \<Rightarrow> [x])\<rparr>)"
  by (cases n) (simp_all add: set_switch_def set_valued_def)

lemma parse_workload: "parse_sandbox_args (''--'' # ws) a = Some (a\<lparr>sa_workload := ws\<rparr>)"
  by simp

lemma band_order: "trust_rank b \<le> trust_rank t \<Longrightarrow> effective_tier b c None \<le> effective_tier t c esc"
  by (cases b; cases t; cases c; cases esc)
    (auto simp: effective_tier_def max_def less_eq_tier_def)

lemma label_caps [simp]: "caps_parse (caps_label c) = c"
  by (cases c) (simp_all add: caps_parse_def)

lemma label_tier [simp]: "tier_parse (tier_label t) = Some t"
  by (cases t) (simp_all add: tier_parse_def)

definition gate_request :: "resolver_args \<Rightarrow> trust_band \<Rightarrow> caps_profile \<Rightarrow> caps_profile \<Rightarrow> tier \<Rightarrow> sandbox_args" where
  "gate_request p trust caps profile tier =
     default_args\<lparr>sa_tier := Some (tier_label tier), sa_trust := Some (trust_label trust),
       sa_caps := Some (caps_label caps), sa_profile := Some (caps_label profile), sa_id := ra_id p,
       sa_anchor := ra_anchor p, sa_guest_prefix := ra_guest_prefix p,
       sa_egress_names := (case ra_egress p of None \<Rightarrow> [] | Some n \<Rightarrow> [n]), sa_grants := ra_grants p,
       sa_workload := ra_workload p\<rparr>"

lemma resolved_parses:
  assumes "resolve_cli args = Inr out" and "parse_resolver args resolver_default = Some p"
  obtains trust caps profile tier where
    "resolve_tier (ra_trust p) (ra_caps p) (ra_profile p) (ra_escalate p) = Inr (trust, caps, profile, tier)"
    "parse_sandbox_args out default_args = Some (gate_request p trust caps profile tier)"
    "ra_grants p \<noteq> []" "ra_workload p \<noteq> []"
proof -
  from assms obtain trust caps profile tier where
    r: "resolve_tier (ra_trust p) (ra_caps p) (ra_profile p) (ra_escalate p) = Inr (trust, caps, profile, tier)"
    and ne: "ra_grants p \<noteq> []" "ra_workload p \<noteq> []"
    and out: "out = [''--tier'', tier_label tier, ''--trust'', trust_label trust, ''--caps'', caps_label caps,
        ''--profile'', caps_label profile, ''--id'', ra_id p, ''--anchor'', ra_anchor p,
        ''--guest-prefix'', ra_guest_prefix p]
       @ (case ra_egress p of None \<Rightarrow> [] | Some n \<Rightarrow> [''--egress-profile'', n])
       @ concat (map (\<lambda>g. [''--grant'', g]) (ra_grants p)) @ ''--'' # ra_workload p"
    by (auto simp: resolve_cli_def rbind_Inr split: if_splits)
  have "parse_sandbox_args out default_args = Some (gate_request p trust caps profile tier)"
    unfolding out append.simps
    by (simp add: set_switch_def set_valued_def parse_egress parse_grants gate_request_def default_args_def)
  with r ne show ?thesis using that by blast
qed


text \<open>
  a session hands its caller the decision flags it says it owns: with an option without a value
  before the workload, everything meant as the workload is read by the gate as options, and those come
  after, and override, the tier, the authority and the profile of the session.
\<close>

theorem session_workload_becomes_options:
  assumes "session_cli ([''--trust'', t, ''--caps'', c, ''--id'', ''--''] @ rest) = Inr out"
  shows "\<exists>a. sa_id a = ''--'' \<and> parse_sandbox_args out default_args = parse_sandbox_args rest a"
proof -
  from assms obtain trust caps profile tier where
    "out = [''--tier'', tier_label tier, ''--trust'', trust_label trust, ''--caps'', caps_label caps,
        ''--profile'', caps_label profile, ''--subject'', ''-'', ''--id'', ''--''] @ rest"
    by (auto simp: session_cli_def session_default_def set_session_def rbind_Inr Let_def split: if_splits)
  moreover define a where "a = default_args\<lparr>sa_tier := Some (tier_label tier), sa_trust := Some (trust_label trust),
        sa_caps := Some (caps_label caps), sa_profile := Some (caps_label profile), sa_subject := Some ''-'',
        sa_id := ''--''\<rparr>"
  ultimately have "parse_sandbox_args out default_args = parse_sandbox_args rest a"
    by (simp add: set_switch_def set_valued_def)
  moreover have "sa_id a = ''--''" by (simp add: a_def)
  ultimately show ?thesis by blast
qed

section \<open>Two requests\<close>

definition plain_request :: "string list" where
  "plain_request =
     [''--trust'', ''T-hostile'', ''--caps'', ''C-ro-nosec'', ''--anchor'', ''/srv'', ''--grant'', ''docs'', ''--'',
      ''/bin/work'', ''-v'']"

lemma plain_resolves:
  "case resolve_cli plain_request of Inl _ \<Rightarrow> False | Inr out \<Rightarrow> out = [''--tier'', ''T2'', ''--trust'', ''T-hostile'',
     ''--caps'', ''C-ro-nosec'', ''--profile'', ''C-ro-nosec'', ''--id'', ''s0'', ''--anchor'', ''/srv'',
     ''--guest-prefix'', ''/srv'', ''--grant'', ''docs'', ''--'', ''/bin/work'', ''-v'']"
  by code_simp

lemma plain_facts: "\<exists>out p. resolve_cli plain_request = Inr out \<and> parse_resolver plain_request resolver_default = Some p
    \<and> ra_trust p = ''T-hostile''"
  using plain_resolves
  by (auto simp: plain_request_def set_resolver_def resolver_default_def split: sum.splits)

lemma worst_band: "trust_rank b \<le> trust_rank (trust_parse ''T-hostile'')"
  by (cases b) (simp_all add: trust_parse_def)


definition smuggled :: "string list" where
  "smuggled = [''--tier'', ''T0'', ''--caps'', ''C-net'', ''--profile'', ''C-net'', ''--'', ''/bin/sh'']"

lemma smuggling_session:
  "case session_cli ([''--trust'', ''T-first'', ''--caps'', ''C-ro-nosec'', ''--id'', ''--''] @ smuggled) of
     Inl _ \<Rightarrow> False
   | Inr out \<Rightarrow> map_option (\<lambda>a. (sa_tier a, sa_caps a, sa_workload a)) (parse_sandbox_args out default_args)
        = Some (Some ''T0'', Some ''C-net'', [''/bin/sh''])"
  by code_simp

theorem session_workload_becomes_options_witness:
  "\<exists>out a. session_cli ([''--trust'', ''T-first'', ''--caps'', ''C-ro-nosec'', ''--id'', ''--''] @ smuggled) = Inr out
     \<and> sa_id a = ''--'' \<and> parse_sandbox_args out default_args = parse_sandbox_args smuggled a"
proof -
  obtain out where
    s: "session_cli ([''--trust'', ''T-first'', ''--caps'', ''C-ro-nosec'', ''--id'', ''--''] @ smuggled) = Inr out"
    using smuggling_session by (auto split: sum.splits)
  from session_workload_becomes_options [OF s] s show ?thesis by blast
qed

end
