(* ===== verification/Spec2Isabelle.thy ===== *)
theory Spec2Isabelle
  imports Policy_Tier Gate_Egress Swamp_Sandbox Swamp_Chunks Swamp_Rename Dot_Wire Net_Filter Mount_Plane
    Gate_Pins T2_Safety T0_Safety T1_Safety Sandbox_Safety Agent_Resolver
begin

text \<open>
  Verification of the policy, egress, bench authority, sandbox and file search core of Shrek OS (\<open>src/crates/\<close>).

  \<^bold>\<open>The program.\<close>  Shrek OS seals what a desktop may do behind small root daemons.  The crate
  \<open>shrek-policy\<close> is their shared, pure policy: the trust lattice, the sealed egress tables, the grammars
  of raw destinations and capability manifests, the indexing rules.  The daemon \<open>egressd\<close> owns one
  nft set of destinations the desktop may reach and the hosts file; it serves one-line requests over a
  socket, of the desktop user (bless, unbless, repin, bind, want) and of root after a console ceremony
  (the \<open>confirmed-\<close> verbs).  The daemon \<open>gatekeeperd\<close> owns the benches (containers with a quota, folder
  grants, an egress set and desktop launchers) and the workshop recipes made of them; whatever raises
  authority goes through its consent ceremony on a text console, and approved egress changes are
  relayed to \<open>egressd\<close> by the client \<open>egressd ask\<close>.  It is also the constructor of the sandboxes of agents:
  \<open>agentd\<close>, without privilege, resolves a request to a tier and hands it over; \<open>gatekeeperd sandbox\<close> derives
  the trust band of the entry itself, rechecks tier, authority and egress, and builds a process sandbox,
  a container or a gVisor sandbox with its mounts, its network and its session identity.  The daemon \<open>swampd\<close> keeps a searchable map of the
  user's files, follows the file tree by kernel events, and answers each session with objects below the
  grants \<open>gatekeeperd\<close> wrote for it; \<open>swamp-broker\<close> relays the queries of a sandbox to it, under the
  session bound to the address of the sandbox.

  \<^bold>\<open>The theories, in the order of the code.\<close>

  \<^item> \<open>Rust_Prelude\<close>, \<open>Rust_Num\<close>, \<open>Fs_Model\<close>: what the code uses of the Rust library: results, byte
    strings and their splitting and trimming, decimal parsing and printing, IPv4 literals, UTF-8
    validity, and a directory of files with atomic replace.  A directory may refuse to write or delete
    a name (\<open>d_refuse\<close>), which is how every I/O error is modelled.
  \<^item> \<open>Policy_Tier\<close> (\<open>tier.rs\<close>, \<open>provenance.rs\<close>), \<open>Policy_Egress\<close> (\<open>egress.rs\<close>, \<open>desktop_egress.rs\<close>,
    \<open>provider_bind.rs\<close>), \<open>Policy_Capability\<close> (\<open>egress_capability.rs\<close>), \<open>Policy_Swamp\<close> (\<open>swamp.rs\<close>): the
    policy crate.
  \<^item> \<open>Egress_Store\<close>, \<open>Egress_Raw\<close> (\<open>store.rs\<close>): the records, the raw destinations, the projections and
    the request inbox.
  \<^item> \<open>Egress_Apply\<close> (\<open>apply.rs\<close>): nft commands, the parsers of its listings, the reconcile.
  \<^item> \<open>Egress_Confirmed\<close> (\<open>confirmed.rs\<close>): raw resolution and the union of all grants.
  \<^item> \<open>Egress_Catalog\<close> (\<open>catalog.rs\<close>), \<open>Egress_Hosts\<close> (\<open>hosts.rs\<close>): manifests on disk, the hosts file.
  \<^item> \<open>Egress_Protocol\<close>, \<open>Egress_Supervisor\<close> (\<open>supervisor.rs\<close>, \<open>dot.rs\<close>): the request grammar, the
    authorization, the limiter, every handler, the start-up pass.  \<open>Egress_Client\<close> (\<open>client.rs\<close>): the lines
    the client builds for it.
  \<^item> \<open>Egress_Authority\<close>, \<open>Egress_Failclosed\<close>, \<open>Egress_Startup\<close>, \<open>Egress_System\<close>: what the handlers may
    touch, what they do to the kernel, what start-up and ceremony installs do, and runs of the daemon.
  \<^item> \<open>Bench_Record\<close> (\<open>gatekeeperd/src/bench_record.rs\<close>, \<open>workshop_record.rs\<close>, \<open>workshop_cache.rs\<close>): the
    three durable record kinds over one line grammar, the project ids, the cache key.
  \<^item> \<open>Bench_Grant\<close>, \<open>Authority_Plan\<close> (\<open>bench_plane.rs\<close>): the lines of a record (grants and exports), the
    percent codec, the launcher file, the container command lines, the plan of an authority request.
  \<^item> \<open>Gate_Consent\<close> (\<open>consent.rs\<close>): the screen, the binding of an answer, the ceremony, the cooldown.
  \<^item> \<open>Bench_World\<close>, \<open>Bench_Authority\<close>, \<open>Bench_Socket\<close> (\<open>bench_plane.rs\<close>, \<open>desktop_egress.rs\<close>, the framed
    requests of \<open>main.rs\<close>): the verbs of the bench plane on an explicit world, the precheck and the
    commit of each authority request, the socket.
  \<^item> \<open>Bench_Safety\<close>, \<open>Bench_Contract\<close>, \<open>Bench_Commit\<close>, \<open>Bench_Teardown\<close>, \<open>Bench_Workshop\<close>, \<open>Gate_Egress\<close>:
    what a request may change without a ceremony, what each commit does, what runs and teardowns do,
    recipes and derivations, and the path from an approved ceremony to the egress daemon.
  \<^item> \<open>Rust_Text\<close>: UTF-8 text, lines, paths and their components.  \<open>Gate_Session\<close>
    (\<open>gatekeeperd/src/authority_record.rs\<close>, \<open>net_binding.rs\<close>, \<open>swampd/src/authority.rs\<close>): the authority
    record of a session and the binding of an address, as written and as read.
  \<^item> \<open>Swamp_Index\<close> (\<open>swampd/src/index.rs\<close>), \<open>Swamp_Embed\<close> (\<open>embed.rs\<close>), \<open>Swamp_Crawl\<close> (\<open>crawl.rs\<close>),
    \<open>Swamp_Watch\<close> (\<open>watch.rs\<close>, \<open>main.rs\<close>), \<open>Swamp_Server\<close> (\<open>server.rs\<close>), \<open>Swamp_Broker\<close>
    (\<open>swamp-broker/src/main.rs\<close>): the tables of the store, the embedding tier, the walk of the tree, the
    watcher and its reactor, the query server, the relay of a sandbox.
  \<^item> \<open>Swamp_Map\<close>, \<open>Swamp_Reconcile\<close>, \<open>Swamp_Serve\<close>: what every operation of the map keeps, what a full
    reconciliation computes, the states the reactor reaches; \<open>Swamp_Confine\<close>, \<open>Swamp_Sandbox\<close>: what a
    session and what a sandbox may see; \<open>Swamp_Chunks\<close>, \<open>Swamp_Rename\<close>: the chunks of a text and their
    vectors, and the fate of a renamed directory.

  \<^item> \<open>Dot_Resolver\<close> (\<open>shrek-dot/src/lib.rs\<close>), \<open>Net_Plane\<close> (\<open>gatekeeperd/src/net_plane.rs\<close>), \<open>Mount_Plane\<close>
    (\<open>mount_plane.rs\<close>), \<open>Pin_Manifest\<close> (\<open>pin_manifest.rs\<close>), \<open>Gate_Provenance\<close> (\<open>provenance_plane.rs\<close>,
    \<open>ingest_admit.rs\<close>): DNS over TLS, the network of a sandbox, the checked binds, the pinned digests and
    the derivation of a band.  \<open>Dot_Wire\<close>, \<open>Net_Filter\<close>, \<open>Gate_Pins\<close>: the wire format as RFC 1035 has it,
    what the rules let a packet do, what a band is earned by.
  \<^item> \<open>Session_View\<close> (\<open>session_view.rs\<close>), \<open>T2_Config\<close>, \<open>T2_Plane\<close> (\<open>t2_plane.rs\<close>): the published view of a
    session, the OCI configuration, the gVisor constructor.  \<open>T0_Policy\<close>, \<open>T0_Plane\<close> (\<open>proc_plane.rs\<close>): rights,
    filter and ELF checks, the process sandbox.  \<open>T1_Sandbox\<close>, \<open>Sandbox_Decision\<close> (\<open>sandbox.rs\<close>): the
    container constructor, the recheck and the choice of the constructor.  \<open>Agent_Resolver\<close>
    (\<open>agentd/src/main.rs\<close>): the resolver and the session command.
  \<^item> \<open>T2_Safety\<close>, \<open>T0_Filter\<close>, \<open>T0_Safety\<close>, \<open>T1_Safety\<close>, \<open>Sandbox_Safety\<close>: what a workload of each tier
    starts with and what is left when its constructor returns, the machine of the filter, and that no
    caller gets a weaker wall than the derived band demands.

  \<^bold>\<open>State and effects.\<close>  The state of \<open>egressd\<close> is the record \<open>world\<close>: the store (one \<open>dir\<close> per
  sub-directory), the other directories, the kernel, the rate limiter.  The state of the bench plane is
  \<open>bench_world\<close>: the record directories, the data directories with their quota, the mounts, the network
  links, the launchers, the loaded images, the log of container commands, the host directories a
  recursive removal reached through a mount, and what was staged and relayed.  The state of \<open>swampd\<close> is
  the triple of the store (\<open>index\<close>), the watcher and the freshness it serves; the file tree is a value
  handed to each step, which may be another one at every step, and \<open>serving\<close> is the inductive set of the
  states start-up and any number of turns of the reactor reach.  The constructors have a world each
  (\<open>t2_world\<close>, \<open>t1_world\<close>) with the mounts of the private namespace, the network, the records of the
  session, what was removed, and a run for each workload that started, holding the arguments, the
  configuration, mounts, network and records it started with; the process sandbox yields a \<open>t0_process\<close>
  with everything its first instruction runs behind, or none.  A handler takes the world and
  returns it with its answer.  An error is a value \<open>Inl\<close>; a panic is \<open>None\<close>, since the workspace is built
  with \<open>panic = "abort"\<close>.

  \<^bold>\<open>Interfaces.\<close>  The \<open>nft\<close> binary, \<open>podman\<close>, path pinning and the DNS transport are not under \<open>src/\<close>
  in a form that can be modelled: they are parameters (\<open>bench_env\<close> for the bench plane).  The locales
  \<open>cap_kernel\<close> and \<open>chain_kernel\<close> state what \<open>egressd\<close> relies
  on of \<open>nft\<close> (a command is a transaction, a listing is what the parsers expect, an element command
  changes that element); they are interpreted on an in-memory kernel that prints its listings as text.
  The locale \<open>record_codec\<close> is the contract of a directory of encoded records and \<open>record_store\<close> adds what
  damaged files may yield; they are interpreted on the three kinds of the egress store and on benches,
  recipes and cache entries, whose line grammar is the locale \<open>wire_grammar\<close>; \<open>sealed_table\<close> is that of a table
  with unique keys and is interpreted on each of the policy's tables.  \<open>map_contract\<close> is the contract of
  a property of the map that the primitive operations on the store keep; everything the walk, the watcher
  and the reactor do keeps it, and it is interpreted on the integrity of the tables, on the policy of the
  rows and on the writability of the store.  Of SQLite's full-text engine the match and rank are
  parameters, of floating point the operations, of the kernel the answer to an arm.  What the sandbox
  constructors ask of the kernel and of programs is a record each: \<open>mount_kernel\<close> (opening beneath an
  anchor, binds, digests), \<open>net_ops\<close> (\<open>ip\<close>, \<open>nft\<close>), \<open>t0_kernel\<close>, \<open>t1_host\<close>, \<open>t2_host\<close>; no law is assumed
  of them, so the properties hold whatever they answer.

  \<^bold>\<open>What the properties show.\<close>  First: over runs of \<open>egressd\<close> and for every request, the live set
  only ever holds what was granted, and without a ceremony nothing but tcp/443 is opened; no request to
  \<open>gatekeeperd\<close> raises authority without an approved ceremony, and a ceremony commits only what its screen
  showed to the process that asked.  Then what each commit does (network, folder, launcher, promote,
  launch) and how an approved egress change arrives at the daemon; the functional behaviour of bless,
  unbless and reconcile; the frame of each peer and the exact authorization; the isolation of owner
  manifests from name resolution; that the map of a reconciliation is that of the tree, and that a
  query cannot tell hidden rows from none; that a request is given at least the wall its derived band
  demands, that a workload of each tier starts only behind its walls and rules, with the pinned grants and
  the measured executables, and that its identity ends with it; the soundness and round trips of the grammars and records; the bounds
  of limiter and cooldown; the lattice laws.  The error properties at the end state defects of the code.

  \<^bold>\<open>Bounds.\<close>  Every loop of the modelled code is structural or has a measure; no fuel is used.  The
  request buffer has \<open>REQ_MAX_PRIV + 1\<close> bytes as in the code.  Times, ports and project ids are words of
  their width.

  \<^bold>\<open>Not modelled.\<close>  Permissions and ownership of files, locks (taking one is a flag), the journal, socket
  set-up, the console's system calls; symbolic links, but for the pins, whose opening beneath the anchor is
  a kernel call; the root command line of \<open>gatekeeperd\<close> other than \<open>sandbox\<close> and its one-line verbs; of
  \<open>swampd\<close> the confinement of the process and the accept loop; the model brokers and proxies, the coder
  agent and the other command-line tools.
\<close>

end
